(* ===== verification/Prelude.thy ===== *)
theory Prelude
  imports Complex_Main "HOL-Library.Word"
begin

text \<open>
  Vocabulary shared by every component of the development: the machine integer types of the
  AArch64 build, C strings and the few C library functions the sources call on them
  (\<open>strtol\<close>, \<open>strtoul\<close>, \<open>strcasecmp\<close>, \<open>strstr\<close>, bounded \<open>snprintf\<close>), writes into fixed-size
  buffers, and the generic list lemmas the component proofs use. A C string is a \<^typ>\<open>string\<close>
  without its terminating NUL; a byte buffer is a list of \<^typ>\<open>8 word\<close>.
\<close>

unbundle bit_operations_syntax

type_synonym u8 = "8 word"
type_synonym u16 = "16 word"
type_synonym u32 = "32 word"
type_synonym u64 = "64 word"
type_synonym bytes = "u8 list"

named_theorems buffer_simps \<open>lengths and contents of buffers after a bounded write\<close>
named_theorems frame_simps \<open>fields an operation leaves alone\<close>
named_theorems keeps_inv \<open>operations that keep an invariant\<close>

section \<open>Buffers\<close>

text \<open>\<open>memcpy(dst + off, src, |src|)\<close> into a buffer that is large enough.\<close>

definition memcpy :: "'a list \<Rightarrow> nat \<Rightarrow> 'a list \<Rightarrow> 'a list" where
  "memcpy dst off src = take off dst @ src @ drop (off + length src) dst"

text \<open>The write stays inside the destination.\<close>

definition fits :: "'a list \<Rightarrow> nat \<Rightarrow> 'a list \<Rightarrow> bool" where
  "fits dst off src \<longleftrightarrow> off + length src \<le> length dst"

lemma length_memcpy [buffer_simps]:
  "off + length src \<le> length dst \<Longrightarrow> length (memcpy dst off src) = length dst"
  by (simp add: memcpy_def)

lemma memcpy_nth_inside:
  "off + length src \<le> length dst \<Longrightarrow> off \<le> i \<Longrightarrow> i < off + length src \<Longrightarrow>
   memcpy dst off src ! i = src ! (i - off)"
  by (auto simp: memcpy_def nth_append)

lemma memcpy_nth_outside:
  "off + length src \<le> length dst \<Longrightarrow> i < length dst \<Longrightarrow> i < off \<or> off + length src \<le> i \<Longrightarrow>
   memcpy dst off src ! i = dst ! i"
  by (auto simp: memcpy_def nth_append)

lemma take_memcpy_0 [buffer_simps]: "take (length src) (memcpy dst 0 src) = src"
  by (simp add: memcpy_def)

lemma take_drop_memcpy:
  "off + length src \<le> length dst \<Longrightarrow> take (length src) (drop off (memcpy dst off src)) = src"
  by (simp add: memcpy_def)

text \<open>\<open>snprintf(buf, n, "%s", s)\<close>: at most \<open>n - 1\<close> characters survive.\<close>

definition snprintf_s :: "nat \<Rightarrow> string \<Rightarrow> string" where
  "snprintf_s n s = take (n - 1) s"

lemma snprintf_s_id: "length s < n \<Longrightarrow> snprintf_s n s = s"
  by (simp add: snprintf_s_def)

lemma length_snprintf_s: "0 < n \<Longrightarrow> length (snprintf_s n s) < n"
  by (simp add: snprintf_s_def)

section \<open>Characters and case-insensitive comparison\<close>

definition char_code :: "char \<Rightarrow> nat" where
  "char_code c = of_char c"

definition tolower :: "char \<Rightarrow> char" where
  "tolower c = (if 65 \<le> char_code c \<and> char_code c \<le> 90 then char_of (char_code c + 32) else c)"

definition strcasecmp_eq :: "string \<Rightarrow> string \<Rightarrow> bool" where
  "strcasecmp_eq s t \<longleftrightarrow> map tolower s = map tolower t"

definition strncasecmp_eq :: "string \<Rightarrow> string \<Rightarrow> nat \<Rightarrow> bool" where
  "strncasecmp_eq s t n \<longleftrightarrow> strcasecmp_eq (take n s) (take n t)"

lemma strcasecmp_eq_refl [simp]: "strcasecmp_eq s s"
  by (simp add: strcasecmp_eq_def)

text \<open>\<open>strstr\<close>: the suffix that starts at the first occurrence of the needle.\<close>

fun strstr :: "string \<Rightarrow> string \<Rightarrow> string option" where
  "strstr [] n = (if n = [] then Some [] else None)"
| "strstr (c # s) n = (if take (length n) (c # s) = n then Some (c # s) else strstr s n)"

lemma strstr_Some:
  "strstr s n = Some t \<Longrightarrow> \<exists>p. s = p @ t \<and> take (length n) t = n"
proof (induction s)
  case Nil
  then show ?case by (auto split: if_splits)
next
  case (Cons c s)
  show ?case
  proof (cases "take (length n) (c # s) = n")
    case True
    with Cons.prems have "t = c # s" by simp
    with True show ?thesis by (intro exI [of _ "[]"]) simp
  next
    case False
    with Cons.prems have "strstr s n = Some t" by simp
    with Cons.IH obtain p where "s = p @ t \<and> take (length n) t = n" by blast
    then show ?thesis by (intro exI [of _ "c # p"]) simp
  qed
qed

section \<open>Number parsing of the C library (LP64)\<close>

definition is_space :: "char \<Rightarrow> bool" where
  "is_space c \<longleftrightarrow> char_code c = 32 \<or> (9 \<le> char_code c \<and> char_code c \<le> 13)"

definition is_digit :: "char \<Rightarrow> bool" where
  "is_digit c \<longleftrightarrow> 48 \<le> char_code c \<and> char_code c \<le> 57"

definition digits_value :: "string \<Rightarrow> nat" where
  "digits_value s = foldl (\<lambda>n c. 10 * n + (char_code c - 48)) 0 s"

text \<open>
  The subject sequence of \<open>strtol\<close> and \<open>strtoul\<close> in base ten: white space, a sign, digits. The
  result is the sign, the digits and the rest of the string (the end pointer); with no digit
  nothing is consumed.
\<close>

definition scan_number :: "string \<Rightarrow> (bool \<times> string \<times> string) option" where
  "scan_number s =
     (let t = dropWhile is_space s;
          neg = (t \<noteq> [] \<and> hd t = CHR ''-'');
          u = (if t \<noteq> [] \<and> (hd t = CHR ''-'' \<or> hd t = CHR ''+'') then tl t else t);
          ds = takeWhile is_digit u
      in if ds = [] then None else Some (neg, ds, dropWhile is_digit u))"

definition ulong_max :: nat where
  "ulong_max = 2 ^ 64 - 1"

text \<open>
  \<open>strtoul\<close>: out-of-range magnitudes give \<open>ULONG_MAX\<close>, a minus sign negates the value as an
  \<open>unsigned long\<close>.
\<close>

definition strtoul :: "string \<Rightarrow> nat \<times> string" where
  "strtoul s =
     (case scan_number s of
        None \<Rightarrow> (0, s)
      | Some (neg, ds, rest) \<Rightarrow>
          (let v = digits_value ds
           in if ulong_max < v then (ulong_max, rest)
              else if neg then ((2 ^ 64 - v) mod 2 ^ 64, rest)
              else (v, rest)))"

text \<open>\<open>strtol\<close>: the value clamped to \<open>long\<close>, the end pointer, and whether \<open>errno\<close> was set.\<close>

definition strtol :: "string \<Rightarrow> int \<times> string \<times> bool" where
  "strtol s =
     (case scan_number s of
        None \<Rightarrow> (0, s, False)
      | Some (neg, ds, rest) \<Rightarrow>
          (let v = (if neg then - int (digits_value ds) else int (digits_value ds))
           in if v < - (2 ^ 63) then (- (2 ^ 63), rest, True)
              else if 2 ^ 63 - 1 < v then (2 ^ 63 - 1, rest, True)
              else (v, rest, False)))"

lemma strtoul_bound: "fst (strtoul s) \<le> ulong_max"
  by (auto simp: strtoul_def ulong_max_def Let_def split: option.splits)

lemma strtol_bounds: "- (2 ^ 63) \<le> fst (strtol s)" "fst (strtol s) \<le> 2 ^ 63 - 1"
  by (auto simp: strtol_def Let_def split: option.splits)

text \<open>\<open>%d\<close> and \<open>%u\<close> of a non-negative number.\<close>

definition digit_char :: "nat \<Rightarrow> char" where
  "digit_char d = char_of (d + 48)"

fun show_nat :: "nat \<Rightarrow> string" where
  "show_nat n = (if n < 10 then [digit_char n] else show_nat (n div 10) @ [digit_char (n mod 10)])"

declare show_nat.simps [simp del]

lemma length_show_nat: "n < 10 ^ k \<Longrightarrow> 0 < k \<Longrightarrow> length (show_nat n) \<le> k"
proof (induction n arbitrary: k rule: show_nat.induct)
  case (1 n)
  show ?case
  proof (cases "n < 10")
    case True
    with 1 show ?thesis by (subst show_nat.simps) simp
  next
    case False
    obtain j where j: "k = Suc j" using 1 by (cases k) auto
    with 1 False have "n div 10 < 10 ^ j" by (simp add: less_mult_imp_div_less mult.commute)
    moreover have "0 < j" using 1(2) j False by (cases j) auto
    ultimately show ?thesis using 1(1) [OF False, of j] j False by (subst show_nat.simps) simp
  qed
qed

lemma show_nat_not_Nil [simp]: "show_nat n \<noteq> []"
  by (subst show_nat.simps) simp

lemma char_code_digit [simp]: "d < 10 \<Longrightarrow> char_code (digit_char d) = d + 48"
  by (simp add: char_code_def digit_char_def of_char_of)

lemma is_digit_show_nat: "c \<in> set (show_nat n) \<Longrightarrow> is_digit c"
proof (induction n rule: show_nat.induct)
  case (1 n)
  then show ?case by (subst (asm) (2) show_nat.simps) (auto simp: is_digit_def split: if_splits)
qed

lemma digits_value_snoc: "digits_value (s @ [c]) = 10 * digits_value s + (char_code c - 48)"
  by (simp add: digits_value_def)

lemma digits_value_show_nat [simp]: "digits_value (show_nat n) = n"
proof (induction n rule: show_nat.induct)
  case (1 n)
  show ?case
  proof (cases "n < 10")
    case True
    then show ?thesis by (subst show_nat.simps) (simp add: digits_value_def)
  next
    case False
    with 1 show ?thesis by (subst show_nat.simps) (simp add: digits_value_snoc)
  qed
qed

lemma is_digit_not_special: "is_digit c \<Longrightarrow> \<not> is_space c \<and> c \<noteq> CHR ''-'' \<and> c \<noteq> CHR ''+'' \<and> c \<noteq> CHR '':''"
  by (auto simp: is_digit_def is_space_def char_code_def)

text \<open>Reading back a printed number.\<close>

lemma scan_number_show_nat:
  assumes "rest = [] \<or> \<not> is_digit (hd rest)"
  shows "scan_number (show_nat n @ rest) = Some (False, show_nat n, rest)"
proof -
  obtain c cs where s: "show_nat n = c # cs" using show_nat_not_Nil [of n] by (cases "show_nat n") auto
  have d: "\<forall>x \<in> set (show_nat n). is_digit x" using is_digit_show_nat by blast
  then have c: "\<not> is_space c" "c \<noteq> CHR ''-''" "c \<noteq> CHR ''+''" using s is_digit_not_special by auto
  have "takeWhile is_digit (show_nat n @ rest) = show_nat n" "dropWhile is_digit (show_nat n @ rest) = rest"
    using d assms by (cases rest; simp add: takeWhile_append dropWhile_append)+
  with s c show ?thesis by (simp add: scan_number_def Let_def)
qed

lemma strtol_show_nat:
  "int n < 2 ^ 63 \<Longrightarrow> rest = [] \<or> \<not> is_digit (hd rest) \<Longrightarrow> strtol (show_nat n @ rest) = (int n, rest, False)"
  by (simp add: strtol_def scan_number_show_nat)

lemma strtoul_show_nat:
  "n \<le> ulong_max \<Longrightarrow> rest = [] \<or> \<not> is_digit (hd rest) \<Longrightarrow> strtoul (show_nat n @ rest) = (n, rest)"
  by (simp add: strtoul_def scan_number_show_nat)

text \<open>The conversion of a wider integer to \<open>int\<close>.\<close>

definition c_int :: "int \<Rightarrow> int" where
  "c_int x = sint (word_of_int x :: u32)"

lemma c_int_id: "- (2 ^ 31) \<le> x \<Longrightarrow> x < 2 ^ 31 \<Longrightarrow> c_int x = x"
  by (simp add: c_int_def signed_of_int signed_take_bit_int_eq_self)

section \<open>Options and lists\<close>

definition oget :: "'a list \<Rightarrow> nat \<Rightarrow> 'a option" where
  "oget xs i = (if i < length xs then Some (xs ! i) else None)"

lemma oget_Some: "oget xs i = Some x \<longleftrightarrow> i < length xs \<and> xs ! i = x"
  by (simp add: oget_def)

lemma oget_None: "oget xs i = None \<longleftrightarrow> length xs \<le> i"
  by (auto simp: oget_def)

text \<open>The first index that satisfies a predicate, as the slot scans of the sources find it.\<close>

fun find_index :: "('a \<Rightarrow> bool) \<Rightarrow> 'a list \<Rightarrow> nat option" where
  "find_index P [] = None"
| "find_index P (x # xs) = (if P x then Some 0 else map_option Suc (find_index P xs))"

lemma find_index_None: "find_index P xs = None \<longleftrightarrow> (\<forall>x \<in> set xs. \<not> P x)"
  by (induction xs) auto

lemma find_index_SomeD:
  "find_index P xs = Some i \<Longrightarrow> i < length xs \<and> P (xs ! i) \<and> (\<forall>j < i. \<not> P (xs ! j))"
proof (induction xs arbitrary: i)
  case Nil
  then show ?case by simp
next
  case (Cons x xs)
  show ?case
  proof (cases "P x")
    case True
    with Cons.prems show ?thesis by simp
  next
    case False
    with Cons.prems obtain k where k: "find_index P xs = Some k" "i = Suc k" by auto
    from Cons.IH [OF k(1)] False k(2) show ?thesis
      by (auto simp: nth_Cons split: nat.splits)
  qed
qed

lemma find_index_ex: "(\<exists>x \<in> set xs. P x) \<Longrightarrow> \<exists>i. find_index P xs = Some i"
  by (metis find_index_None not_Some_eq)

end
