(* ===== verification/Bytes.thy ===== *)
theory Bytes
  imports Prelude
begin

text \<open>
  Byte-level encodings: the endian helpers of \<open>include/byteorder.h\<close> and the hexadecimal codec of
  \<open>src/stratum.cpp\<close> (\<open>decode_hex_nibble\<close>, \<open>cbin2hex\<close>, \<open>bin2hex\<close>, \<open>hex2bin\<close>), through which every
  field a pool sends or receives passes. The codec is characterised completely: a string decodes
  to a buffer exactly when, up to letter case, it is that buffer's encoding.
\<close>

section \<open>Endian helpers\<close>

definition be32dec :: "bytes \<Rightarrow> u32" where
  "be32dec p = push_bit 24 (ucast (p ! 0)) OR push_bit 16 (ucast (p ! 1)) OR
               push_bit 8 (ucast (p ! 2)) OR ucast (p ! 3)"

definition be32enc :: "u32 \<Rightarrow> bytes" where
  "be32enc x = [ucast (drop_bit 24 x AND 0xff), ucast (drop_bit 16 x AND 0xff),
                ucast (drop_bit 8 x AND 0xff), ucast (x AND 0xff)]"

definition le32dec :: "bytes \<Rightarrow> u32" where
  "le32dec p = ucast (p ! 0) OR push_bit 8 (ucast (p ! 1)) OR
               push_bit 16 (ucast (p ! 2)) OR push_bit 24 (ucast (p ! 3))"

definition le32enc :: "u32 \<Rightarrow> bytes" where
  "le32enc x = [ucast (x AND 0xff), ucast (drop_bit 8 x AND 0xff),
                ucast (drop_bit 16 x AND 0xff), ucast (drop_bit 24 x AND 0xff)]"

definition le16dec :: "bytes \<Rightarrow> u16" where
  "le16dec p = ucast (p ! 0) OR push_bit 8 (ucast (p ! 1))"

text \<open>\<open>__builtin_bswap32\<close>.\<close>

definition stratum_bswap32 :: "u32 \<Rightarrow> u32" where
  "stratum_bswap32 v = be32dec (le32enc v)"

section \<open>Hexadecimal text\<close>

definition decode_hex_nibble :: "char \<Rightarrow> int" where
  "decode_hex_nibble ch =
     (let c = char_code ch
      in if 48 \<le> c \<and> c \<le> 57 then int c - 48
         else if 97 \<le> c \<and> c \<le> 102 then int c - 97 + 10
         else if 65 \<le> c \<and> c \<le> 70 then int c - 65 + 10
         else -1)"

definition hex_digits :: string where
  "hex_digits = ''0123456789abcdef''"

fun cbin2hex :: "bytes \<Rightarrow> string" where
  "cbin2hex [] = []"
| "cbin2hex (v # bs) =
     hex_digits ! unat (drop_bit 4 v) # hex_digits ! unat (v AND 0x0f) # cbin2hex bs"

definition bin2hex :: "bytes \<Rightarrow> string" where
  "bin2hex bs = cbin2hex bs"

fun hex2bin :: "string \<Rightarrow> nat \<Rightarrow> bytes option" where
  "hex2bin [] len = (if len = 0 then Some [] else None)"
| "hex2bin (c # s) 0 = None"
| "hex2bin [c] (Suc len) = None"
| "hex2bin (h # l # s) (Suc len) =
     (let high_nibble = decode_hex_nibble h; low_nibble = decode_hex_nibble l
      in if high_nibble < 0 \<or> low_nibble < 0 then None
         else map_option (\<lambda>out. word_of_int (push_bit 4 high_nibble OR low_nibble) # out)
                (hex2bin s len))"

section \<open>Endian round trips\<close>

lemma length_le32enc [simp]: "length (le32enc x) = 4"
  by (simp add: le32enc_def)

lemma length_be32enc [simp]: "length (be32enc x) = 4"
  by (simp add: be32enc_def)

lemma ff_mask: "(0xff :: u32) = mask 8"
  by (simp add: mask_eq_exp_minus_1)

lemma ucast_and_ff: "(ucast (x AND 0xff) :: u8) = ucast (x :: u32)"
  unfolding ff_mask by (rule bit_word_eqI) (auto simp: bit_simps)

lemma u8_high_bit [simp]: "8 \<le> n \<Longrightarrow> \<not> bit (a :: u8) n"
  by (auto dest: bit_imp_le_length)

lemma byte_cases:
  fixes n :: nat
  assumes "n < 32"
  obtains "n < 8" | "8 \<le> n" "n < 16" | "16 \<le> n" "n < 24" | "24 \<le> n" "n < 32"
  using assms by linarith

text \<open>A 32-bit word is the disjunction of its four bytes at their positions.\<close>

lemma u32_bytes:
  "ucast (ucast x :: u8) OR push_bit 8 (ucast (ucast (drop_bit 8 x) :: u8)) OR
   push_bit 16 (ucast (ucast (drop_bit 16 x) :: u8)) OR
   push_bit 24 (ucast (ucast (drop_bit 24 x) :: u8)) = (x :: u32)" (is "?w = x")
proof (rule bit_word_eqI)
  fix n assume "n < LENGTH(32)"
  then have "n < 32" by simp
  then show "bit ?w n = bit x n"
    by (cases n rule: byte_cases) (auto simp: bit_simps)
qed

lemma length4: "length p = 4 \<Longrightarrow> p = [p ! 0, p ! 1, p ! 2, p ! 3]"
  by (auto intro!: nth_equalityI simp: less_Suc_eq numeral_eq_Suc)

lemma le32dec_enc [simp]: "le32dec (le32enc x) = x"
  using u32_bytes [of x] by (simp add: le32dec_def le32enc_def ucast_and_ff)

lemma be32dec_enc [simp]: "be32dec (be32enc x) = x"
  using u32_bytes [of x]
  by (simp add: be32dec_def be32enc_def ucast_and_ff or.commute or.left_commute or.assoc)

lemma le32enc_dec: "length p = 4 \<Longrightarrow> le32enc (le32dec p) = p"
proof -
  assume "length p = 4"
  then obtain a b c d where p: "p = [a, b, c, d]" using length4 by metis
  have "ucast (le32dec p) = a" "ucast (drop_bit 8 (le32dec p)) = b"
    "ucast (drop_bit 16 (le32dec p)) = c" "ucast (drop_bit 24 (le32dec p)) = d"
    unfolding p le32dec_def by (auto simp: bit_simps intro!: bit_word_eqI)
  then show ?thesis by (simp add: le32enc_def ucast_and_ff p)
qed

lemma be32_rev: "length p = 4 \<Longrightarrow> be32dec p = le32dec (rev p)"
proof -
  assume "length p = 4"
  then obtain a b c d where p: "p = [a, b, c, d]" using length4 by metis
  show ?thesis by (simp add: be32dec_def le32dec_def p or.commute or.left_commute)
qed

lemma stratum_bswap32_invol [simp]: "stratum_bswap32 (stratum_bswap32 v) = v"
  by (simp add: stratum_bswap32_def be32_rev le32enc_dec)

section \<open>The hexadecimal codec\<close>

lemma length_hex_digits [simp]: "length hex_digits = 16"
  by (simp add: hex_digits_def)

lemma char_code_inj: "char_code c = char_code d \<longleftrightarrow> c = d"
  by (simp add: char_code_def)

lemma char_code_tolower:
  "char_code (tolower c) =
     (if 65 \<le> char_code c \<and> char_code c \<le> 90 then char_code c + 32 else char_code c)"
  by (simp add: tolower_def char_code_def)

lemma char_code_hex_digits:
  assumes "k < 16"
  shows "char_code (hex_digits ! k) = (if k < 10 then 48 + k else 87 + k)"
proof -
  have "\<forall>k \<in> set [0..<16]. char_code (hex_digits ! k) = (if k < 10 then 48 + k else 87 + k)"
    by (simp add: upt_rec hex_digits_def char_code_def)
  with assms show ?thesis by simp
qed

text \<open>A nibble is the position of the lower-cased character among the digits.\<close>

lemma decode_hex_nibble_iff:
  assumes "k < 16"
  shows "decode_hex_nibble c = int k \<longleftrightarrow> tolower c = hex_digits ! k"
proof -
  have "tolower c = hex_digits ! k \<longleftrightarrow>
      char_code (tolower c) = (if k < 10 then 48 + k else 87 + k)"
    using assms by (simp flip: char_code_inj add: char_code_hex_digits)
  then show ?thesis
    using assms by (auto simp: decode_hex_nibble_def Let_def char_code_tolower split: if_splits)
qed

lemma decode_hex_nibble_range:
  "decode_hex_nibble c < 0 \<or> (\<exists>k < 16. decode_hex_nibble c = int k)"
proof (cases "decode_hex_nibble c < 0")
  case False
  moreover have "decode_hex_nibble c < 16" by (simp add: decode_hex_nibble_def Let_def)
  ultimately show ?thesis by (intro disjI2 exI [of _ "nat (decode_hex_nibble c)"]) auto
qed simp

lemma tolower_hex_digit [simp]: "k < 16 \<Longrightarrow> tolower (hex_digits ! k) = hex_digits ! k"
  by (simp flip: char_code_inj add: char_code_tolower char_code_hex_digits)

lemma length_cbin2hex [simp]: "length (cbin2hex bs) = 2 * length bs"
  by (induction bs) auto

lemma high_nibble_less: "unat (drop_bit 4 (v :: u8)) < 16"
proof -
  have "unat (drop_bit 4 v) = unat v div 2 ^ 4"
    by (simp only: unat_drop_bit_eq) (simp only: drop_bit_eq_div)
  moreover have "unat v < 256" using unsigned_less [of v] by simp
  ultimately show ?thesis by simp
qed

lemma low_nibble_less: "unat ((v :: u8) AND 0x0f) < 16"
proof -
  have "unat (v AND 0x0f) \<le> unat (0x0f :: u8)"
    by (rule word_and_le1 [THEN word_le_nat_alt [THEN iffD1]])
  then show ?thesis by simp
qed

lemma mask_0f: "(0x0f :: u8) = mask 4"
  by (simp add: mask_eq_exp_minus_1)

lemma bit_nat_less_16: "a < 16 \<Longrightarrow> bit (a :: nat) n \<Longrightarrow> n < 4"
proof -
  assume a: "a < 16" and "bit a n"
  have "take_bit 4 a = a" using a by (intro take_bit_nat_eq_self) auto
  with \<open>bit a n\<close> show "n < 4" by (metis bit_take_bit_iff)
qed

lemma distinct_hex_digits: "distinct hex_digits"
  by (simp add: hex_digits_def)

lemma nibbles_byte:
  "word_of_int (push_bit 4 (int (unat (drop_bit 4 v))) OR int (unat (v AND 0x0f))) = (v :: u8)"
  unfolding mask_0f by (rule bit_word_eqI) (auto simp: bit_simps)

lemma byte_nibbles:
  assumes "a < 16" "b < 16"
  defines "v \<equiv> word_of_int (push_bit 4 (int a) OR int b) :: u8"
  shows "unat (drop_bit 4 v) = a" "unat (v AND 0x0f) = b"
proof -
  have "drop_bit 4 v = word_of_nat a" unfolding v_def
    by (rule bit_word_eqI)
      (auto simp: bit_simps dest: bit_nat_less_16 [OF assms(1)] bit_nat_less_16 [OF assms(2)])
  then show "unat (drop_bit 4 v) = a" using assms(1) by (simp add: unat_of_nat)
  have "v AND mask 4 = word_of_nat b" unfolding v_def
    by (rule bit_word_eqI)
      (auto simp: bit_simps dest: bit_nat_less_16 [OF assms(1)] bit_nat_less_16 [OF assms(2)])
  then show "unat (v AND 0x0f) = b" using assms(2) by (simp add: mask_0f unat_of_nat)
qed

lemma cbin2hex_inj: "cbin2hex as = cbin2hex bs \<Longrightarrow> as = bs"
proof (induction as arbitrary: bs)
  case Nil
  then show ?case by (cases bs) auto
next
  case (Cons a as)
  then obtain b bs' where bs: "bs = b # bs'" by (cases bs) auto
  from Cons.prems bs have "unat (drop_bit 4 a) = unat (drop_bit 4 b)"
    and "unat (a AND 0x0f) = unat (b AND 0x0f)"
    using distinct_hex_digits high_nibble_less low_nibble_less
    by (auto simp: nth_eq_iff_index_eq)
  then have "a = b" using nibbles_byte [of a] nibbles_byte [of b] by simp
  with Cons bs show ?case by simp
qed

lemma hex2bin_SomeD:
  "hex2bin s n = Some bs \<Longrightarrow> length bs = n \<and> map tolower s = cbin2hex bs"
proof (induction s n arbitrary: bs rule: hex2bin.induct)
  case (4 h l s len)
  from "4.prems" obtain out where
    nn: "\<not> decode_hex_nibble h < 0" "\<not> decode_hex_nibble l < 0"
    and out: "hex2bin s len = Some out"
    and bs: "bs = word_of_int (push_bit 4 (decode_hex_nibble h) OR decode_hex_nibble l) # out"
    by (auto simp: Let_def split: if_splits)
  from nn decode_hex_nibble_range obtain a b where
    a: "a < 16" "decode_hex_nibble h = int a" and b: "b < 16" "decode_hex_nibble l = int b"
    by (metis)
  have "tolower h = hex_digits ! a" "tolower l = hex_digits ! b"
    using a b decode_hex_nibble_iff by auto
  moreover have "length out = len \<and> map tolower s = cbin2hex out"
    using "4.IH" nn out by (simp add: Let_def)
  ultimately show ?case
    using a b by (simp add: bs byte_nibbles)
qed (auto split: if_splits)

lemma hex2bin_complete:
  "map tolower s = cbin2hex bs \<Longrightarrow> hex2bin s (length bs) = Some bs"
proof (induction bs arbitrary: s)
  case (Cons v bs)
  then obtain h l t where s: "s = h # l # t"
    and h: "tolower h = hex_digits ! unat (drop_bit 4 v)"
    and l: "tolower l = hex_digits ! unat (v AND 0x0f)"
    and t: "map tolower t = cbin2hex bs"
    by (auto simp: map_eq_Cons_conv)
  have "decode_hex_nibble h = int (unat (drop_bit 4 v))"
    "decode_hex_nibble l = int (unat (v AND 0x0f))"
    using h l decode_hex_nibble_iff [OF high_nibble_less] decode_hex_nibble_iff [OF low_nibble_less]
    by blast+
  with Cons.IH [OF t] nibbles_byte [of v] show ?case by (simp add: s Let_def)
qed simp

text \<open>
  The hexadecimal decoder every pool field passes through accepts exactly the encodings of
  the requested length: \<open>hex2bin\<close> on a string and a byte count succeeds with a buffer precisely
  when the buffer has that many bytes and the string, up to the case of its letters, is the
  buffer's \<open>cbin2hex\<close> text. So a truncated, over-long or non-hexadecimal field never decodes and
  decoding is inverse to encoding in both directions.
\<close>

lemma hex2bin_iff:
  "hex2bin s n = Some bs \<longleftrightarrow> length bs = n \<and> map tolower s = cbin2hex bs"
proof
  show "length bs = n \<and> map tolower s = cbin2hex bs" if "hex2bin s n = Some bs"
    using that by (rule hex2bin_SomeD)
  show "hex2bin s n = Some bs" if "length bs = n \<and> map tolower s = cbin2hex bs"
    using that hex2bin_complete by auto
qed

lemma map_tolower_cbin2hex [simp]: "map tolower (cbin2hex bs) = cbin2hex bs"
  by (induction bs) (simp_all add: high_nibble_less low_nibble_less)

lemma hex2bin_bin2hex [simp]: "hex2bin (bin2hex bs) (length bs) = Some bs"
  by (simp add: bin2hex_def hex2bin_complete)

lemma hex2bin_lengths: "hex2bin s n = Some bs \<Longrightarrow> length bs = n \<and> length s = 2 * n"
  using hex2bin_SomeD [of s n bs] by (metis length_cbin2hex length_map)

section \<open>Word arrays as memory\<close>

text \<open>The bytes of a \<open>uint32_t\<close> array on the little-endian target, and a \<open>memcpy\<close> into it.\<close>

definition words_bytes :: "u32 list \<Rightarrow> bytes" where
  "words_bytes ws = concat (map le32enc ws)"

fun bytes_words :: "bytes \<Rightarrow> u32 list" where
  "bytes_words (a # b # c # d # bs) = le32dec [a, b, c, d] # bytes_words bs"
| "bytes_words _ = []"

definition store_bytes :: "u32 list \<Rightarrow> nat \<Rightarrow> bytes \<Rightarrow> u32 list" where
  "store_bytes ws off bs = bytes_words (memcpy (words_bytes ws) off bs)"

lemma length_words_bytes [simp]: "length (words_bytes ws) = 4 * length ws"
  by (induction ws) (simp_all add: words_bytes_def)

lemma words_bytes_words: "length bs = 4 * n \<Longrightarrow> words_bytes (bytes_words bs) = bs"
proof (induction bs arbitrary: n rule: bytes_words.induct)
  case (1 a b c d bs)
  then have "length bs = 4 * (n - 1)" by auto
  with 1 have "words_bytes (bytes_words bs) = bs" by blast
  then show ?case by (simp add: words_bytes_def le32enc_dec)
qed (auto simp: words_bytes_def, presburger+)

lemma length_bytes_words: "length bs = 4 * n \<Longrightarrow> length (bytes_words bs) = n"
  using words_bytes_words [of bs n] length_words_bytes [of "bytes_words bs"] by simp

lemma words_bytes_store [buffer_simps]:
  "off + length bs \<le> 4 * length ws \<Longrightarrow>
   words_bytes (store_bytes ws off bs) = memcpy (words_bytes ws) off bs"
  unfolding store_bytes_def by (rule words_bytes_words) (simp add: length_memcpy)

lemma length_store_bytes [buffer_simps]:
  "off + length bs \<le> 4 * length ws \<Longrightarrow> length (store_bytes ws off bs) = length ws"
  unfolding store_bytes_def by (rule length_bytes_words) (simp add: length_memcpy)

lemma words_bytes_append: "words_bytes (xs @ ys) = words_bytes xs @ words_bytes ys"
  by (simp add: words_bytes_def)

lemma words_bytes_update:
  "i < length ws \<Longrightarrow> words_bytes (ws[i := x]) = memcpy (words_bytes ws) (4 * i) (le32enc x)"
proof (induction ws arbitrary: i)
  case (Cons w ws)
  have cons: "words_bytes (y # ys) = le32enc y @ words_bytes ys" for y ys by (simp add: words_bytes_def)
  show ?case
  proof (cases i)
    case 0
    then show ?thesis by (simp add: cons memcpy_def)
  next
    case (Suc j)
    with Cons show ?thesis by (simp add: cons memcpy_def add.commute)
  qed
qed simp

lemma words_bytes_nth: "i < length ws \<Longrightarrow> le32enc (ws ! i) = take 4 (drop (4 * i) (words_bytes ws))"
proof (induction ws arbitrary: i)
  case (Cons w ws)
  have cons: "words_bytes (w # ws) = le32enc w @ words_bytes ws" by (simp add: words_bytes_def)
  show ?case
  proof (cases i)
    case 0
    then show ?thesis by (simp add: cons)
  next
    case (Suc j)
    with Cons show ?thesis by (simp add: cons)
  qed
qed simp

end
