(* ===== verification/Doubles.thy ===== *)
theory Doubles
  imports Prelude
begin

text \<open>
  The \<open>double\<close> arithmetic the difficulty code relies on. A finite double is the rational number it
  stands for, and every operation of the source that can be inexact is written with the rounding
  \<open>fl\<close>: to the nearest number with a 53-bit significand, ties to even, as IEEE 754 binary64
  prescribes. The exponent is unbounded: the sources clamp before every conversion to an integer,
  so overflow and underflow lead to the same clamped values. The laws the difficulty proofs use
  are collected in the locale \<open>correct_rounding\<close>, which \<open>fl\<close> interprets.
\<close>

type_synonym double = rat

section \<open>Rounding\<close>

fun nlog2 :: "nat \<Rightarrow> nat" where
  "nlog2 n = (if n < 2 then 0 else Suc (nlog2 (n div 2)))"

declare nlog2.simps [simp del]

text \<open>The binary exponent of a positive number: \<open>2 powi ilog2 x \<le> x < 2 powi (ilog2 x + 1)\<close>.\<close>

definition ilog2 :: "rat \<Rightarrow> int" where
  "ilog2 x = (if 1 \<le> x then int (nlog2 (nat \<lfloor>x\<rfloor>))
              else - int (Suc (nlog2 (nat (\<lceil>1 / x\<rceil> - 1)))))"

definition round_half_even :: "rat \<Rightarrow> int" where
  "round_half_even x =
     (let f = \<lfloor>x\<rfloor>; d = x - of_int f
      in if d < 1 / 2 then f else if 1 / 2 < d then f + 1 else if even f then f else f + 1)"

definition fl_pos :: "rat \<Rightarrow> rat" where
  "fl_pos x = (let e = ilog2 x - 52 in of_int (round_half_even (x / 2 powi e)) * 2 powi e)"

definition fl :: "rat \<Rightarrow> double" where
  "fl x = (if x = 0 then 0 else if x < 0 then - fl_pos (- x) else fl_pos x)"

section \<open>What the difficulty code needs of a rounding\<close>

locale correct_rounding =
  fixes rnd :: "rat \<Rightarrow> rat"
  assumes rnd_mono: "x \<le> y \<Longrightarrow> rnd x \<le> rnd y"
    and rnd_int: "\<bar>n\<bar> \<le> 2 ^ 53 \<Longrightarrow> rnd (of_int n) = of_int n"
    and rnd_scale: "rnd (x * 2 powi k) = rnd x * 2 powi k"
begin

lemma rnd_0: "rnd 0 = 0"
  using rnd_int [of 0] by simp

lemma rnd_nonneg: "0 \<le> x \<Longrightarrow> 0 \<le> rnd x"
  using rnd_mono [of 0 x] by (simp add: rnd_0)

lemma rnd_dyadic: "\<bar>n\<bar> \<le> 2 ^ 53 \<Longrightarrow> rnd (of_int n * 2 powi k) = of_int n * 2 powi k"
  by (simp add: rnd_scale rnd_int)

lemma rnd_ge_int: "\<bar>n\<bar> \<le> 2 ^ 53 \<Longrightarrow> of_int n \<le> x \<Longrightarrow> of_int n \<le> rnd x"
  using rnd_mono [of "of_int n" x] by (simp add: rnd_int)

lemma rnd_le_dyadic:
  "\<bar>n\<bar> \<le> 2 ^ 53 \<Longrightarrow> x \<le> of_int n * 2 powi k \<Longrightarrow> rnd x \<le> of_int n * 2 powi k"
  using rnd_mono [of x "of_int n * 2 powi k"] by (simp add: rnd_dyadic)

lemma rnd_pos: "0 < x \<Longrightarrow> 1 / 2 ^ m \<le> x \<Longrightarrow> 0 < rnd x"
proof -
  assume "1 / 2 ^ m \<le> x"
  then have "rnd (of_int 1 * 2 powi - int m) \<le> rnd x"
    by (intro rnd_mono) (simp add: power_int_minus field_simps)
  then have "of_int 1 * 2 powi - int m \<le> rnd x" by (subst (asm) rnd_dyadic) auto
  moreover have "(0::rat) < of_int 1 * 2 powi - int m" by simp
  ultimately show "0 < rnd x" by linarith
qed

lemma rnd_div_antimono: "0 \<le> c \<Longrightarrow> 0 < a \<Longrightarrow> a \<le> b \<Longrightarrow> rnd (c / b) \<le> rnd (c / a)"
  by (intro rnd_mono divide_left_mono) auto

end

section \<open>The rounding satisfies the laws\<close>

lemma nlog2_bounds: "0 < n \<Longrightarrow> 2 ^ nlog2 n \<le> n \<and> n < 2 ^ Suc (nlog2 n)"
proof (induction n rule: nlog2.induct)
  case (1 n)
  show ?case
  proof (cases "n < 2")
    case True
    with "1.prems" have "n = 1" by simp
    then show ?thesis by (simp add: nlog2.simps)
  next
    case False
    with "1.IH" have "2 ^ nlog2 (n div 2) \<le> n div 2 \<and> n div 2 < 2 ^ Suc (nlog2 (n div 2))"
      by simp
    with False show ?thesis by (subst (1 2) nlog2.simps) auto
  qed
qed

lemma ilog2_bounds:
  assumes "0 < x"
  shows "2 powi ilog2 x \<le> x" "x < 2 powi (ilog2 x + 1)"
proof -
  have "2 powi ilog2 x \<le> x \<and> x < 2 powi (ilog2 x + 1)"
  proof (cases "1 \<le> x")
    case True
    define n where "n = nat \<lfloor>x\<rfloor>"
    have "0 < n" using True by (simp add: n_def)
    then have b: "2 ^ nlog2 n \<le> n" "n < 2 ^ Suc (nlog2 n)" using nlog2_bounds by auto
    have n: "of_nat n \<le> x" "x < of_nat n + 1"
      using True floor_correct [of x] by (auto simp: n_def of_nat_nat)
    from b(1) have "(2::rat) ^ nlog2 n \<le> of_nat n" by (metis of_nat_le_iff of_nat_numeral of_nat_power)
    with n have lo: "2 ^ nlog2 n \<le> x" by linarith
    from b(2) have "of_nat n + 1 \<le> (2::rat) ^ Suc (nlog2 n)"
      by (metis Suc_leI of_nat_Suc of_nat_le_iff of_nat_numeral of_nat_power add.commute)
    with n have hi: "x < 2 ^ Suc (nlog2 n)" by linarith
    have e: "ilog2 x = int (nlog2 n)" using True by (simp add: ilog2_def n_def)
    have "(2::rat) powi (int (nlog2 n) + 1) = 2 ^ Suc (nlog2 n)"
      by (simp add: power_int_add)
    with lo hi show ?thesis by (simp add: e)
  next
    case False
    define y where "y = 1 / x"
    have y: "1 < y" using False assms by (simp add: y_def)
    define n where "n = nat (\<lceil>y\<rceil> - 1)"
    have "0 < n" using y by (simp add: n_def less_ceiling_iff)
    then have b: "2 ^ nlog2 n \<le> n" "n < 2 ^ Suc (nlog2 n)" using nlog2_bounds by auto
    have "1 \<le> \<lceil>y\<rceil>" using y by (simp add: one_le_ceiling)
    then have "int n = \<lceil>y\<rceil> - 1" by (simp add: n_def)
    then have "(of_nat n :: rat) = of_int \<lceil>y\<rceil> - 1" by (metis of_int_1 of_int_diff of_int_of_nat_eq)
    then have n: "of_nat n < y" "y \<le> of_nat n + 1" using ceiling_correct [of y] by simp_all
    from b(1) have "(2::rat) ^ nlog2 n \<le> of_nat n" by (metis of_nat_le_iff of_nat_numeral of_nat_power)
    with n have lo: "2 ^ nlog2 n < y" by linarith
    from b(2) have "of_nat n + 1 \<le> (2::rat) ^ Suc (nlog2 n)"
      by (metis Suc_leI of_nat_Suc of_nat_le_iff of_nat_numeral of_nat_power add.commute)
    with n have hi: "y \<le> 2 ^ Suc (nlog2 n)" by linarith
    have e: "ilog2 x = - int (Suc (nlog2 n))" using False by (simp add: ilog2_def n_def y_def)
    have "(2::rat) powi ilog2 x = 1 / 2 ^ Suc (nlog2 n)"
      by (simp only: e power_int_minus power_int_of_nat inverse_eq_divide)
    moreover have "(2::rat) powi (ilog2 x + 1) = 1 / 2 ^ nlog2 n"
    proof -
      have "ilog2 x + 1 = - int (nlog2 n)" by (simp add: e)
      then show ?thesis by (simp only: power_int_minus power_int_of_nat inverse_eq_divide)
    qed
    moreover have "1 / 2 ^ Suc (nlog2 n) \<le> x" "x < 1 / 2 ^ nlog2 n"
      using lo hi assms by (simp_all add: y_def pos_divide_le_eq pos_le_divide_eq pos_less_divide_eq mult.commute)
    ultimately show ?thesis by simp
  qed
  then show "2 powi ilog2 x \<le> x" "x < 2 powi (ilog2 x + 1)" by auto
qed

lemma ilog2_unique:
  assumes "0 < x" "2 powi k \<le> x" "x < 2 powi (k + 1)"
  shows "ilog2 x = k"
proof (rule ccontr)
  assume "ilog2 x \<noteq> k"
  then consider "ilog2 x + 1 \<le> k" | "k + 1 \<le> ilog2 x" by linarith
  then show False
  proof cases
    case 1
    then have "(2::rat) powi (ilog2 x + 1) \<le> 2 powi k" by (intro power_int_increasing) auto
    with ilog2_bounds(2) [OF assms(1)] assms(2) show False by linarith
  next
    case 2
    then have "(2::rat) powi (k + 1) \<le> 2 powi ilog2 x" by (intro power_int_increasing) auto
    with ilog2_bounds(1) [OF assms(1)] assms(3) show False by linarith
  qed
qed

lemma ilog2_scale: "0 < x \<Longrightarrow> ilog2 (x * 2 powi k) = ilog2 x + k"
proof (rule ilog2_unique)
  assume x: "0 < x"
  then show "0 < x * 2 powi k" by simp
  show "2 powi (ilog2 x + k) \<le> x * 2 powi k"
    using ilog2_bounds(1) [OF x] by (simp add: power_int_add)
  have "(2::rat) powi (ilog2 x + k + 1) = 2 powi (ilog2 x + 1) * 2 powi k"
    by (simp add: power_int_add)
  then show "x * 2 powi k < 2 powi (ilog2 x + k + 1)"
    using ilog2_bounds(2) [OF x] by simp
qed

lemma round_half_even_mono: "x \<le> y \<Longrightarrow> round_half_even x \<le> round_half_even y"
proof -
  assume le: "x \<le> y"
  then have "\<lfloor>x\<rfloor> \<le> \<lfloor>y\<rfloor>" by (rule floor_mono)
  then consider "\<lfloor>x\<rfloor> = \<lfloor>y\<rfloor>" | "\<lfloor>x\<rfloor> + 1 \<le> \<lfloor>y\<rfloor>" by linarith
  then show ?thesis
    using le by cases (auto simp: round_half_even_def Let_def)
qed

lemma round_half_even_int [simp]: "round_half_even (of_int n) = n"
  by (simp add: round_half_even_def)

lemma fl_pos_lower: "0 < x \<Longrightarrow> 2 powi ilog2 x \<le> fl_pos x"
proof -
  assume x: "0 < x"
  have "(2::rat) powi (ilog2 x) = of_int (2 ^ 52) * 2 powi (ilog2 x - 52)"
    by (simp add: power_int_diff)
  then have "of_int (2 ^ 52) * 2 powi (ilog2 x - 52) \<le> x"
    using ilog2_bounds(1) [OF x] by simp
  then have "of_int (2 ^ 52) \<le> x / 2 powi (ilog2 x - 52)"
    by (simp add: pos_le_divide_eq)
  then have "2 ^ 52 \<le> round_half_even (x / 2 powi (ilog2 x - 52))"
    using round_half_even_mono round_half_even_int by metis
  then have "(of_int (2 ^ 52) :: rat) \<le> of_int (round_half_even (x / 2 powi (ilog2 x - 52)))"
    by (simp only: of_int_le_iff)
  then have "of_int (2 ^ 52) * 2 powi (ilog2 x - 52) \<le> fl_pos x"
    unfolding fl_pos_def Let_def by (intro mult_right_mono) auto
  then show ?thesis by (simp add: power_int_diff)
qed

lemma fl_pos_upper: "0 < x \<Longrightarrow> fl_pos x \<le> 2 powi (ilog2 x + 1)"
proof -
  assume x: "0 < x"
  have e: "(2::rat) powi (ilog2 x + 1) = of_int (2 ^ 53) * 2 powi (ilog2 x - 52)"
    by (simp add: power_int_diff power_int_add)
  then have "x \<le> of_int (2 ^ 53) * 2 powi (ilog2 x - 52)"
    using ilog2_bounds(2) [OF x] by simp
  then have "x / 2 powi (ilog2 x - 52) \<le> of_int (2 ^ 53)"
    by (simp add: pos_divide_le_eq)
  then have "round_half_even (x / 2 powi (ilog2 x - 52)) \<le> 2 ^ 53"
    using round_half_even_mono round_half_even_int by metis
  then have "(of_int (round_half_even (x / 2 powi (ilog2 x - 52))) :: rat) \<le> of_int (2 ^ 53)"
    by (simp only: of_int_le_iff)
  then have "fl_pos x \<le> of_int (2 ^ 53) * 2 powi (ilog2 x - 52)"
    unfolding fl_pos_def Let_def by (intro mult_right_mono) auto
  then show ?thesis by (simp add: e)
qed

lemma fl_pos_mono: "0 < x \<Longrightarrow> x \<le> y \<Longrightarrow> fl_pos x \<le> fl_pos y"
proof -
  assume x: "0 < x" and le: "x \<le> y"
  then have y: "0 < y" by simp
  consider "ilog2 x = ilog2 y" | "ilog2 x + 1 \<le> ilog2 y" | "ilog2 y + 1 \<le> ilog2 x" by linarith
  then show ?thesis
  proof cases
    case 1
    have "round_half_even (x / 2 powi (ilog2 y - 52)) \<le> round_half_even (y / 2 powi (ilog2 y - 52))"
      using le by (intro round_half_even_mono divide_right_mono) auto
    with 1 show ?thesis unfolding fl_pos_def Let_def by (simp add: mult_right_mono)
  next
    case 2
    then have "(2::rat) powi (ilog2 x + 1) \<le> 2 powi ilog2 y" by (intro power_int_increasing) auto
    with fl_pos_upper [OF x] fl_pos_lower [OF y] show ?thesis by linarith
  next
    case 3
    then have "(2::rat) powi (ilog2 y + 1) \<le> 2 powi ilog2 x" by (intro power_int_increasing) auto
    with ilog2_bounds(1) [OF x] ilog2_bounds(2) [OF y] le show ?thesis by linarith
  qed
qed

lemma fl_pos_nonneg: "0 < x \<Longrightarrow> 0 < fl_pos x"
  using fl_pos_lower [of x] by (meson less_le_trans zero_less_numeral zero_less_power_int)

lemma fl_mono: "x \<le> y \<Longrightarrow> fl x \<le> fl y"
proof -
  assume le: "x \<le> y"
  consider "0 < x" | "x \<le> 0" "0 \<le> y" | "y < 0" by linarith
  then show ?thesis
  proof cases
    case 1
    with le show ?thesis by (simp add: fl_def fl_pos_mono)
  next
    case 2
    then have "fl x \<le> 0" "0 \<le> fl y"
      using fl_pos_nonneg [of "- x"] fl_pos_nonneg [of y] by (auto simp: fl_def)
    then show ?thesis by linarith
  next
    case 3
    with le show ?thesis using fl_pos_mono [of "- y" "- x"] by (simp add: fl_def)
  qed
qed

lemma fl_pos_scale: "0 < x \<Longrightarrow> fl_pos (x * 2 powi k) = fl_pos x * 2 powi k"
proof -
  assume x: "0 < x"
  have "(2::rat) powi (ilog2 x + k - 52) = 2 powi (ilog2 x - 52) * 2 powi k"
    by (simp add: power_int_diff power_int_add)
  then show ?thesis by (simp add: fl_pos_def Let_def ilog2_scale [OF x])
qed

lemma fl_scale: "fl (x * 2 powi k) = fl x * 2 powi k"
proof -
  consider "x = 0" | "0 < x" | "x < 0" by linarith
  then show ?thesis
  proof cases
    case 2
    then have "0 < x * 2 powi k" by simp
    then have "\<not> x * 2 powi k < 0" by (rule less_not_sym)
    with 2 show ?thesis by (simp add: fl_def fl_pos_scale)
  next
    case 3
    then have "x * 2 powi k < 0" by (simp add: mult_neg_pos)
    with 3 fl_pos_scale [of "- x" k] show ?thesis by (simp add: fl_def)
  qed (simp add: fl_def)
qed

lemma fl_pos_int:
  assumes "0 < n" "n \<le> 2 ^ 53"
  shows "fl_pos (of_int n) = of_int n"
proof -
  define x :: rat where "x = of_int n"
  have x: "0 < x" using assms by (simp add: x_def)
  have "x \<le> of_int (2 ^ 53)" unfolding x_def using assms(2) by (simp only: of_int_le_iff)
  then have le: "x \<le> 2 powi 53" by simp
  have "ilog2 x \<le> 53"
  proof (rule ccontr)
    assume "\<not> ilog2 x \<le> 53"
    then have "(2::rat) powi 53 < 2 powi ilog2 x" by (intro power_int_strict_increasing) auto
    with ilog2_bounds(1) [OF x] le show False by linarith
  qed
  have "\<exists>m. x / 2 powi (ilog2 x - 52) = of_int m"
  proof (cases "ilog2 x \<le> 52")
    case True
    then have "ilog2 x - 52 = - int (nat (52 - ilog2 x))" by simp
    then have "x / 2 powi (ilog2 x - 52) = x * 2 ^ nat (52 - ilog2 x)"
      by (simp only: power_int_minus power_int_of_nat divide_inverse inverse_inverse_eq)
    then have "x / 2 powi (ilog2 x - 52) = of_int (n * 2 ^ nat (52 - ilog2 x))"
      by (simp add: x_def)
    then show ?thesis by blast
  next
    case False
    with \<open>ilog2 x \<le> 53\<close> have "ilog2 x = 53" by simp
    with ilog2_bounds(1) [OF x] le have "x = 2 powi 53" by simp
    with \<open>ilog2 x = 53\<close> have "x / 2 powi (ilog2 x - 52) = of_int (2 ^ 52)" by simp
    then show ?thesis by blast
  qed
  then obtain m where m: "x / 2 powi (ilog2 x - 52) = of_int m" by blast
  then have "fl_pos x = of_int m * 2 powi (ilog2 x - 52)"
    by (simp add: fl_pos_def Let_def)
  also have "\<dots> = x" by (simp flip: m)
  finally show ?thesis by (simp add: x_def)
qed

lemma fl_int: "\<bar>n\<bar> \<le> 2 ^ 53 \<Longrightarrow> fl (of_int n) = of_int n"
proof -
  assume n: "\<bar>n\<bar> \<le> 2 ^ 53"
  consider "n = 0" | "0 < n" | "n < 0" by linarith
  then show ?thesis
  proof cases
    case 2
    with n fl_pos_int [of n] show ?thesis by (simp add: fl_def)
  next
    case 3
    with n fl_pos_int [of "- n"] show ?thesis by (simp add: fl_def)
  qed (simp add: fl_def)
qed

interpretation binary64: correct_rounding fl
  by unfold_locales (rule fl_mono fl_int fl_scale; assumption?)+

end
