(* ===== verification/Targets.thy ===== *)
theory Targets
  imports Bytes Doubles
begin

text \<open>
  Difficulties, targets and the comparison every scan loop ends in: \<open>hash_le_target\<close>
  (\<open>include/miner.h\<close>), \<open>diff_to_target\<close> (\<open>src/stratum.cpp\<close>), the Verus conversions
  \<open>target_to_diff_equi\<close>, \<open>verus_store_target_payload\<close> and \<open>diff_to_target_verus\<close>
  (\<open>src/stratum_verus.cpp\<close>), the compact Monero target \<open>xmr_parse_target\<close>
  (\<open>src/stratum_xmr.cpp\<close>) and the share difficulty \<open>bn_store_share_difficulty\<close>
  (\<open>src/miner.cpp\<close>). A 256-bit value is a list of eight words, word 0 the least significant.
  The main results: the word-wise comparison decides the numeric order, and a harder difficulty
  never accepts a hash that an easier one rejects.
\<close>

section \<open>Comparison\<close>

fun hash_le_target_from :: "u32 list \<Rightarrow> u32 list \<Rightarrow> nat \<Rightarrow> bool" where
  "hash_le_target_from hash target 0 = True"
| "hash_le_target_from hash target (Suc i) =
     (if target ! i < hash ! i then False
      else if hash ! i < target ! i then True
      else hash_le_target_from hash target i)"

definition hash_le_target :: "u32 list \<Rightarrow> u32 list \<Rightarrow> bool" where
  "hash_le_target hash target = hash_le_target_from hash target 8"

section \<open>Difficulty to target\<close>

text \<open>
  The scaling loop \<open>for (w = 6; w > 0 && d > 1.0; w--) d /= 4294967296.0\<close>, shared by the
  standard and the Verus conversion: the word index and the scaled difficulty it stops at.
\<close>

fun scale_diff :: "nat \<Rightarrow> double \<Rightarrow> nat \<times> double" where
  "scale_diff 0 d = (0, d)"
| "scale_diff (Suc w) d = (if 1 < d then scale_diff w (fl (d / 4294967296)) else (Suc w, d))"

text \<open>
  The clamped conversion \<open>compact_target_base / remaining\<close>; a zero divisor gives infinity, which
  the clamp turns into \<open>UINT64_MAX\<close>. (A negative difficulty never reaches this code.)
\<close>

definition compact_word :: "double \<Rightarrow> u64" where
  "compact_word r =
     (if r = 0 then - 1
      else let v = fl (4294901760 / r)
           in if 18446744073709551616 \<le> v then - 1 else word_of_int \<lfloor>v\<rfloor>)"

definition diff_to_target :: "double \<Rightarrow> u32 list" where
  "diff_to_target diff =
     (let (target_word, remaining_diff) = scale_diff 6 diff;
          c = compact_word remaining_diff
      in if c = 0 \<and> target_word = 6 then replicate 8 (- 1)
         else (replicate 8 0)
                [target_word := ucast c, target_word + 1 := ucast (drop_bit 32 c)])"

section \<open>Verus conversions\<close>

definition target_to_diff_equi :: "bytes \<Rightarrow> double" where
  "target_to_diff_equi tgt =
     (let m = push_bit 24 (ucast (tgt ! 30)) OR push_bit 16 (ucast (tgt ! 29)) OR
              push_bit 8 (ucast (tgt ! 28)) OR (ucast (tgt ! 27) :: u64)
      in if m = 0 then 0 else fl (4294901760 / of_nat (unat m)))"

text \<open>The bytes of a 64-bit value, least significant first, cut off at the buffer's end.\<close>

definition verus_store_target_payload :: "bytes \<Rightarrow> nat \<Rightarrow> u64 \<Rightarrow> bytes" where
  "verus_store_target_payload target_bytes word_index value =
     (let offset = word_index * 4
      in if 32 \<le> offset then target_bytes
         else memcpy target_bytes offset
                (map (\<lambda>i. ucast (drop_bit (8 * i) value)) [0..<min 8 (32 - offset)]))"

text \<open>\<open>for (k = 0; k < 28 && target_bytes[k] == 0; k++) target_bytes[k] = 0xff\<close>.\<close>

fun fill_low_bytes :: "nat \<Rightarrow> bytes \<Rightarrow> bytes" where
  "fill_low_bytes (Suc n) (b # bs) = (if b = 0 then 0xff # fill_low_bytes n bs else b # bs)"
| "fill_low_bytes n bs = bs"

definition diff_to_target_verus :: "double \<Rightarrow> bytes" where
  "diff_to_target_verus diff =
     (if diff \<le> 0 then replicate 32 0xff
      else let (k, d) = scale_diff 6 diff; m = compact_word d
           in if m = 0 \<and> k = 6 then replicate 32 0xff
              else fill_low_bytes 28
                     (verus_store_target_payload (replicate 32 0) (k + 1) (drop_bit 8 m)))"

text \<open>
  The target bytes \<open>verus_stratum_set_target\<close> builds: the pool's big-endian bytes are mirrored
  one by one until three of them were non-zero, the rest stays \<open>0xff\<close>.
\<close>

fun mirror_target :: "nat \<Rightarrow> nat \<Rightarrow> bytes \<Rightarrow> bytes \<Rightarrow> bytes" where
  "mirror_target i filled [] target_be = target_be"
| "mirror_target i filled (b # bs) target_be =
     (if filled = 3 then target_be
      else mirror_target (Suc i) (if b \<noteq> 0 then Suc filled else filled) bs
             (target_be[31 - i := b]))"

definition verus_target_diff :: "bytes \<Rightarrow> double" where
  "verus_target_diff target_bin =
     target_to_diff_equi (mirror_target 0 0 target_bin (replicate 32 0xff))"

section \<open>Monero compact targets\<close>

text \<open>The eight little-endian bytes \<open>t = (t << 8) | raw[i]\<close> for \<open>i = 7 .. 0\<close>.\<close>

definition le64dec :: "bytes \<Rightarrow> u64" where
  "le64dec raw = foldl (\<lambda>t b. push_bit 8 t OR ucast b) 0 (rev raw)"

definition xmr_parse_target :: "string \<Rightarrow> (u64 \<times> double) option" where
  "xmr_parse_target tstr =
     (let with_diff = (\<lambda>t. Some (t, fl (18446744073709551616 / fl (of_nat (unat t)))))
      in if length tstr = 8 then
           (case hex2bin tstr 4 of
              None \<Rightarrow> None
            | Some raw \<Rightarrow>
                (let t32 = le32dec raw
                 in if t32 = 0 then None
                    else with_diff (0xFFFFFFFFFFFFFFFF div (0xFFFFFFFF div ucast t32))))
         else if length tstr = 16 then
           (case hex2bin tstr 8 of
              None \<Rightarrow> None
            | Some raw \<Rightarrow> (let t = le64dec raw in if t = 0 then None else with_diff t))
         else None)"

text \<open>The target words of a RandomX job: the low six saturated, the boundary on top.\<close>

definition xmr_target_words :: "u64 \<Rightarrow> u32 list" where
  "xmr_target_words rx_target64 =
     replicate 6 0xFFFFFFFF @ [ucast rx_target64, ucast (drop_bit 32 rx_target64)]"

section \<open>Share difficulty\<close>

fun words_double_from :: "double \<Rightarrow> u32 list \<Rightarrow> nat \<Rightarrow> double" where
  "words_double_from acc ws 0 = acc"
| "words_double_from acc ws (Suc i) =
     words_double_from (fl (fl (acc * 4294967296) + of_nat (unat (ws ! i)))) ws i"

definition share_difficulty :: "u32 list \<Rightarrow> u32 list \<Rightarrow> double \<Rightarrow> double" where
  "share_difficulty hash target targetdiff =
     (let target_value = words_double_from 0 target 8;
          hash_value = words_double_from 0 hash 8;
          ratio = (if 0 < hash_value then fl (target_value / hash_value) else 0)
      in if 0 < targetdiff then fl (targetdiff * ratio) else ratio)"

section \<open>Values of word lists\<close>

fun words_val :: "u32 list \<Rightarrow> nat" where
  "words_val [] = 0"
| "words_val (w # ws) = unat w + 2 ^ 32 * words_val ws"

fun bytes_val :: "bytes \<Rightarrow> nat" where
  "bytes_val [] = 0"
| "bytes_val (b # bs) = unat b + 2 ^ 8 * bytes_val bs"

section \<open>The comparison decides the numeric order\<close>

lemma words_val_append: "words_val (xs @ ys) = words_val xs + 2 ^ (32 * length xs) * words_val ys"
  by (induction xs) (auto simp: algebra_simps power_add)

lemma unat_u32_less: "unat (w :: u32) < 2 ^ 32"
  using unsigned_less [of w] by simp

lemma words_val_less: "words_val ws < 2 ^ (32 * length ws)"
proof (induction ws)
  case (Cons w ws)
  have "unat w + 2 ^ 32 * words_val ws < 2 ^ 32 + 2 ^ 32 * words_val ws"
    using unat_u32_less [of w] by simp
  also have "\<dots> = 2 ^ 32 * Suc (words_val ws)" by simp
  also have "\<dots> \<le> 2 ^ 32 * 2 ^ (32 * length ws)" using Cons by (intro mult_le_mono) auto
  finally show ?case by (simp add: power_add)
qed simp

lemma hash_le_target_from_iff:
  "i \<le> length h \<Longrightarrow> i \<le> length t \<Longrightarrow>
   hash_le_target_from h t i \<longleftrightarrow> words_val (take i h) \<le> words_val (take i t)"
proof (induction i)
  case (Suc i)
  let ?H = "words_val (take i h)" and ?T = "words_val (take i t)"
  have H: "words_val (take (Suc i) h) = ?H + 2 ^ (32 * i) * unat (h ! i)"
    and T: "words_val (take (Suc i) t) = ?T + 2 ^ (32 * i) * unat (t ! i)"
    using Suc.prems by (simp_all add: take_Suc_conv_app_nth words_val_append)
  have less: "?H < 2 ^ (32 * i)" "?T < 2 ^ (32 * i)"
    using words_val_less [of "take i h"] words_val_less [of "take i t"] Suc.prems by simp_all
  have step: "2 ^ (32 * i) * unat a + 2 ^ (32 * i) \<le> 2 ^ (32 * i) * unat b"
    if "a < b" for a b :: u32
  proof -
    have "Suc (unat a) \<le> unat b" using that by (simp add: word_less_nat_alt)
    then have "2 ^ (32 * i) * Suc (unat a) \<le> 2 ^ (32 * i) * unat b" by (rule mult_le_mono2)
    then show ?thesis by simp
  qed
  consider "t ! i < h ! i" | "h ! i < t ! i" | "h ! i = t ! i" by (metis linorder_neqE)
  then show ?case
  proof cases
    case 1
    with H T less step [OF 1] show ?thesis by simp
  next
    case 2
    then have "\<not> t ! i < h ! i" by (rule less_not_sym)
    with 2 H T less step [OF 2] show ?thesis by simp
  next
    case 3
    with H T Suc show ?thesis by simp
  qed
qed simp

text \<open>
  The share filter of every back end is the numeric comparison: on eight-word values
  \<open>hash_le_target\<close> holds exactly when the 256-bit number of the hash is at most that of the
  target.
\<close>

lemma hash_le_target_iff:
  assumes "length h = 8" and "length t = 8"
  shows "hash_le_target h t \<longleftrightarrow> words_val h \<le> words_val t"
  using assms hash_le_target_from_iff [of 8 h t] by (simp add: hash_le_target_def)

section \<open>The target of a difficulty\<close>

definition is_double :: "rat \<Rightarrow> bool" where
  "is_double d \<longleftrightarrow> fl d = d"

lemma fl_div_word: "is_double d \<Longrightarrow> fl (d / 4294967296) = d / 4294967296"
  using binary64.rnd_scale [of d "- 32"] by (simp add: is_double_def power_int_minus)

lemma is_double_div_word: "is_double d \<Longrightarrow> is_double (d / 4294967296)"
  by (simp add: is_double_def fl_div_word)

text \<open>Where the scaling loop stops, and why.\<close>

lemma scale_diff_spec:
  assumes "is_double d" "0 < d" "scale_diff w d = (w', d')"
  shows "w' \<le> w \<and> 0 < d' \<and> d = d' * 2 ^ (32 * (w - w')) \<and>
         (w' = 0 \<or> d' \<le> 1) \<and> (w' = w \<or> 1 / 4294967296 < d')"
  using assms
proof (induction w arbitrary: d)
  case (Suc w)
  show ?case
  proof (cases "1 < d")
    case True
    let ?e = "d / 4294967296"
    have run: "scale_diff w ?e = (w', d')"
      using Suc.prems True by (simp add: fl_div_word)
    have "is_double ?e" "0 < ?e" using Suc.prems by (simp_all add: is_double_div_word)
    from Suc.IH [OF this run] have IH: "w' \<le> w" "0 < d'" "?e = d' * 2 ^ (32 * (w - w'))"
      "w' = 0 \<or> d' \<le> 1" "w' = w \<or> 1 / 4294967296 < d'" by auto
    have "d = d' * 2 ^ (32 * (Suc w - w'))"
      using IH(1,3) by (simp add: Suc_diff_le power_add)
    moreover have "1 / 4294967296 < d'" using IH True by auto
    ultimately show ?thesis using IH by auto
  qed (use Suc.prems in auto)
qed auto

lemma unat_u64_of_int: "0 \<le> k \<Longrightarrow> k < 2 ^ 64 \<Longrightarrow> unat (word_of_int k :: u64) = nat k"
  by (simp add: unsigned_of_int take_bit_int_eq_self)

lemma unat_minus_1_u64: "unat (- 1 :: u64) = 2 ^ 64 - 1"
  by (simp add: unsigned_minus_1_eq_mask mask_eq_exp_minus_1)

lemma unat_compact_word:
  assumes "0 < r"
  shows "unat (compact_word r) =
         (if 18446744073709551616 \<le> fl (4294901760 / r) then 2 ^ 64 - 1
          else nat \<lfloor>fl (4294901760 / r)\<rfloor>)"
proof -
  have "0 \<le> fl (4294901760 / r)" using assms by (intro binary64.rnd_nonneg) simp
  then show ?thesis
    using assms unat_u64_of_int [of "\<lfloor>fl (4294901760 / r)\<rfloor>"]
    by (auto simp: compact_word_def Let_def floor_less_iff unat_minus_1_u64)
qed

lemma compact_word_antimono:
  assumes "0 < a" "a \<le> b"
  shows "unat (compact_word b) \<le> unat (compact_word a)"
proof -
  have le: "fl (4294901760 / b) \<le> fl (4294901760 / a)"
    using assms by (intro binary64.rnd_div_antimono) auto
  have "nat \<lfloor>fl (4294901760 / b)\<rfloor> \<le> 2 ^ 64 - 1" if "\<not> 18446744073709551616 \<le> fl (4294901760 / b)"
  proof -
    have "\<lfloor>fl (4294901760 / b)\<rfloor> < 18446744073709551616" using that by (simp add: floor_less_iff)
    moreover have "int (2 ^ 64 - 1) = 18446744073709551615" by simp
    ultimately show ?thesis by (simp only: nat_le_iff)
  qed
  with le assms show ?thesis by (auto simp: unat_compact_word nat_mono floor_mono)
qed

lemma compact_word_lower: "0 < r \<Longrightarrow> r \<le> 1 \<Longrightarrow> 4294901760 \<le> unat (compact_word r)"
proof -
  assume r: "0 < r" "r \<le> 1"
  have "of_int 4294901760 \<le> fl (4294901760 / r)"
    using r by (intro binary64.rnd_ge_int) (auto simp: pos_le_divide_eq)
  then show ?thesis using r by (auto simp: unat_compact_word le_nat_iff le_floor_iff)
qed

lemma compact_word_upper:
  "1 / 4294967296 < r \<Longrightarrow> unat (compact_word r) \<le> 4294901760 * 2 ^ 32"
proof -
  assume r: "1 / 4294967296 < r"
  then have r0: "0 < r" by (meson less_trans zero_less_divide_1_iff zero_less_numeral)
  have "fl (4294901760 / r) \<le> of_int 4294901760 * 2 powi 32"
  proof (rule binary64.rnd_le_dyadic)
    show "4294901760 / r \<le> of_int 4294901760 * 2 powi 32"
      using r r0 by (simp add: pos_divide_le_eq pos_divide_less_eq)
  qed simp
  then have le: "fl (4294901760 / r) \<le> 4294901760 * 2 ^ 32" by simp
  then have "\<lfloor>fl (4294901760 / r)\<rfloor> \<le> 4294901760 * 2 ^ 32" by (simp add: floor_le_iff)
  with le r0 show ?thesis by (simp add: unat_compact_word nat_le_iff)
qed

lemma words_val_update:
  "i < length ws \<Longrightarrow> ws ! i = 0 \<Longrightarrow>
   words_val (ws[i := x]) = words_val ws + unat x * 2 ^ (32 * i)"
proof (induction ws arbitrary: i)
  case (Cons w ws)
  then show ?case by (cases i) (auto simp: algebra_simps power_add)
qed simp

lemma words_val_zeros: "words_val (replicate n 0) = 0"
  by (induction n) auto

lemma unat_u64_split:
  "unat (c :: u64) = unat (ucast c :: u32) + 2 ^ 32 * unat (ucast (drop_bit 32 c) :: u32)"
proof -
  have lo: "unat (ucast c :: u32) = unat c mod 2 ^ 32"
    by (simp add: unsigned_ucast_eq take_bit_eq_mod)
  have "unat c < 2 ^ 64" using unsigned_less [of c] by simp
  then have "unat c div 2 ^ 32 < 2 ^ 32" by (simp add: div_less_iff_less_mult)
  moreover have "unat (drop_bit 32 c) = unat c div 2 ^ 32"
    by (simp only: unat_drop_bit_eq) (simp only: drop_bit_eq_div)
  moreover have "unat (ucast (drop_bit 32 c) :: u32) = unat (drop_bit 32 c) mod 2 ^ 32"
    by (simp only: unsigned_ucast_eq take_bit_eq_mod) simp
  ultimately have hi: "unat (ucast (drop_bit 32 c) :: u32) = unat c div 2 ^ 32" by simp
  show ?thesis unfolding lo hi by simp
qed

text \<open>The 256-bit value of the target: the compact word shifted to its position.\<close>

lemma words_val_diff_to_target:
  assumes "is_double d" "0 < d" "scale_diff 6 d = (w, r)"
  shows "words_val (diff_to_target d) = unat (compact_word r) * 2 ^ (32 * w)"
proof -
  from scale_diff_spec [OF assms] have w: "w \<le> 6" and r: "0 < r" "w = 0 \<or> r \<le> 1" by auto
  let ?c = "compact_word r"
  have "?c \<noteq> 0 \<or> w \<noteq> 6" using compact_word_lower [of r] r by force
  then have "diff_to_target d =
      (replicate 8 0)[w := ucast ?c, w + 1 := ucast (drop_bit 32 ?c)]"
    by (auto simp: diff_to_target_def assms(3) Let_def)
  also have "words_val \<dots> = unat (ucast ?c :: u32) * 2 ^ (32 * w)
      + unat (ucast (drop_bit 32 ?c) :: u32) * 2 ^ (32 * (w + 1))"
    using w by (subst words_val_update; (subst words_val_update)?)
      (auto simp: words_val_zeros simp flip: replicate_Suc)
  also have "\<dots> = unat ?c * 2 ^ (32 * w)"
    by (subst unat_u64_split [of ?c]) (simp add: algebra_simps power_add)
  finally show ?thesis .
qed

lemma length_diff_to_target [simp]: "length (diff_to_target d) = 8"
  by (simp add: diff_to_target_def Let_def split: prod.splits)

lemma diff_to_target_antimono:
  assumes "is_double a" "is_double b" "0 < a" "a \<le> b"
  shows "words_val (diff_to_target b) \<le> words_val (diff_to_target a)"
proof -
  obtain v q where sa: "scale_diff 6 a = (v, q)" by force
  obtain w r where sb: "scale_diff 6 b = (w, r)" by force
  have b0: "0 < b" using assms by simp
  note A = scale_diff_spec [OF assms(1,3) sa] and B = scale_diff_spec [OF assms(2) b0 sb]
  note vals = words_val_diff_to_target [OF assms(1,3) sa] words_val_diff_to_target [OF assms(2) b0 sb]
  consider "w = v" | "w < v" | "v < w" by linarith
  then show ?thesis
  proof cases
    case 1
    with A B assms(4) have "q \<le> r" by simp
    with A 1 have "unat (compact_word r) \<le> unat (compact_word q)"
      by (intro compact_word_antimono) auto
    then show ?thesis using 1 vals by simp
  next
    case 2
    with A B have "q \<le> 1" "1 / 4294967296 < r" by auto
    then have "4294901760 \<le> unat (compact_word q)" "unat (compact_word r) \<le> 4294901760 * 2 ^ 32"
      using A compact_word_lower compact_word_upper by auto
    then have "unat (compact_word r) * 2 ^ (32 * w) \<le> 4294901760 * 2 ^ 32 * 2 ^ (32 * w)"
      and "4294901760 * 2 ^ (32 * v) \<le> unat (compact_word q) * 2 ^ (32 * v)"
      by (auto intro: mult_le_mono1)
    moreover have "4294901760 * 2 ^ 32 * 2 ^ (32 * w) \<le> (4294901760 :: nat) * 2 ^ (32 * v)"
    proof -
      have "(2::nat) ^ (32 + 32 * w) \<le> 2 ^ (32 * v)" using 2 by (intro power_increasing) auto
      then show ?thesis by (simp add: power_add)
    qed
    ultimately show ?thesis using vals by linarith
  next
    case 3
    with A B have "r \<le> 1" "1 / 4294967296 < q" by auto
    moreover have "a = q * 2 ^ (32 * (6 - v))" "b = r * 2 ^ (32 * (6 - w))" using A B by auto
    moreover have "r * 2 ^ (32 * (6 - w)) < q * 2 ^ (32 * (6 - v))"
    proof -
      have e: "6 - v = (6 - w) + (w - v)" using 3 B by auto
      have "(2::rat) ^ 32 \<le> 2 ^ (32 * (w - v))" using 3 by (intro power_increasing) auto
      then have "q * 2 ^ 32 \<le> q * 2 ^ (32 * (w - v))" using A by (intro mult_left_mono) auto
      moreover have "1 < q * 2 ^ 32" using \<open>1 / 4294967296 < q\<close> by (simp add: pos_divide_less_eq)
      ultimately have "1 < q * 2 ^ (32 * (w - v))" by linarith
      with \<open>r \<le> 1\<close> have "r < q * 2 ^ (32 * (w - v))" by linarith
      then show ?thesis unfolding e by (simp add: power_add distrib_left)
    qed
    ultimately show ?thesis using assms(4) by linarith
  qed
qed

text \<open>
  A harder share difficulty never accepts more: for doubles \<open>0 < a \<le> b\<close>, a hash that meets
  the target of difficulty \<open>b\<close> meets the target of difficulty \<open>a\<close>. Rounding, the scaling by
  \<open>2 ^ 32\<close> across word boundaries and the clamp at \<open>UINT64_MAX\<close> never invert the order.
\<close>

lemma harder_difficulty_accepts_less:
  assumes "is_double a" "is_double b" "0 < a" "a \<le> b" "length h = 8"
    and "hash_le_target h (diff_to_target b)"
  shows "hash_le_target h (diff_to_target a)"
  using assms diff_to_target_antimono [OF assms(1-4)] hash_le_target_from_iff [of 8 h]
  by (auto simp: hash_le_target_def)

lemma is_double_int: "\<bar>n\<bar> \<le> 2 ^ 53 \<Longrightarrow> is_double (of_int n)"
  by (simp add: is_double_def fl_int)

lemma fl_numeral [simp]: "(numeral n :: int) \<le> 2 ^ 53 \<Longrightarrow> fl (numeral n) = numeral n"
  using fl_int [of "numeral n"] by simp

lemma fl_1 [simp]: "fl 1 = 1"
  using fl_int [of 1] by simp

lemma scale_diff_stop: "d \<le> 1 \<Longrightarrow> scale_diff w d = (w, d)"
  by (cases w) auto

lemma scale_diff_step: "0 < w \<Longrightarrow> 1 < d \<Longrightarrow> scale_diff w d = scale_diff (w - 1) (fl (d / 4294967296))"
  by (cases w) auto

lemma zeros_update_6_7: "(replicate 8 0)[6 := a, 7 := b] = [0, 0, 0, 0, 0, 0, a, b]"
  by (simp add: numeral_eq_Suc)

lemma diff_to_target_1: "diff_to_target 1 = [0, 0, 0, 0, 0, 0, 0xFFFF0000, 0]"
proof -
  have "compact_word 1 = 4294901760" by (simp add: compact_word_def)
  then show ?thesis
    by (simp add: diff_to_target_def scale_diff_stop Let_def zeros_update_6_7)
qed

lemma hash_le_target_refl [simp]: "hash_le_target h h"
proof -
  have "hash_le_target_from h h i" for i by (induction i) auto
  then show ?thesis by (simp add: hash_le_target_def)
qed

section \<open>Monero boundaries\<close>

lemma words_val_ones: "Suc (words_val (replicate n 0xFFFFFFFF)) = 2 ^ (32 * n)"
proof (induction n)
  case (Suc n)
  have "Suc (words_val (replicate (Suc n) 0xFFFFFFFF)) =
      2 ^ 32 * Suc (words_val (replicate n 0xFFFFFFFF))" by simp
  then show ?case by (simp only: Suc) (simp add: power_add)
qed simp

lemma words_val_xmr_target:
  "Suc (words_val (xmr_target_words t)) = 2 ^ 192 * Suc (unat t)"
proof -
  have "words_val (xmr_target_words t) = words_val (replicate 6 0xFFFFFFFF) + 2 ^ 192 * unat t"
    using unat_u64_split [of t]
    by (simp only: xmr_target_words_def words_val_append words_val.simps length_replicate) simp
  then show ?thesis using words_val_ones [of 6] by simp
qed

lemma high_part_le: "a < k \<Longrightarrow> a + k * x < k * Suc y \<longleftrightarrow> x \<le> y" for k :: nat
proof
  assume "a < k" "a + k * x < k * Suc y"
  then have "k * x < k * Suc y" by linarith
  then show "x \<le> y" by (simp only: mult_less_cancel1 less_Suc_eq_le)
next
  assume "a < k" "x \<le> y"
  then have "k * x \<le> k * y" by (intro mult_le_mono2)
  with \<open>a < k\<close> have "a + k * x < k + k * y" by linarith
  then show "a + k * x < k * Suc y" by simp
qed

lemma hash_le_xmr_target:
  assumes "length h = 8"
  shows "hash_le_target h (xmr_target_words t) \<longleftrightarrow>
         unat (h ! 6) + 2 ^ 32 * unat (h ! 7) \<le> unat t"
proof -
  have h: "h = take 6 h @ [h ! 6, h ! 7]"
    using assms by (intro nth_equalityI) (auto simp: nth_append nth_Cons' less_Suc_eq numeral_eq_Suc)
  define top where "top = unat (h ! 6) + 2 ^ 32 * unat (h ! 7)"
  have "words_val h = words_val (take 6 h) + 2 ^ 192 * top"
    by (subst h) (simp add: words_val_append assms top_def)
  moreover have "words_val (take 6 h) < 2 ^ 192"
    using words_val_less [of "take 6 h"] assms by simp
  moreover have "hash_le_target h (xmr_target_words t) \<longleftrightarrow>
      words_val h \<le> words_val (xmr_target_words t)"
    using assms hash_le_target_from_iff [of 8 h "xmr_target_words t"]
    by (simp add: hash_le_target_def xmr_target_words_def)
  moreover have "words_val h \<le> words_val (xmr_target_words t) \<longleftrightarrow>
      words_val h < 2 ^ 192 * Suc (unat t)"
    by (simp only: words_val_xmr_target [symmetric] less_Suc_eq_le)
  ultimately show ?thesis
    by (simp only: high_part_le top_def [symmetric])
qed

text \<open>
  On a RandomX job the 256-bit comparison of the scan loop is the comparison of the hash's top
  64 bits with the pool's boundary: the six saturated low words never decide.
\<close>

lemma xmr_boundary:
  assumes "length h = 8"
  shows "hash_le_target h (xmr_target_words t) \<longleftrightarrow>
         unat (h ! 6) + 2 ^ 32 * unat (h ! 7) \<le> unat t"
  using assms by (rule hash_le_xmr_target)

lemma unat_ucast_u64: "unat (ucast (x :: u32) :: u64) = unat x"
  using unat_u32_less [of x] by (simp add: unsigned_ucast_eq take_bit_nat_eq_self_iff)

lemma compact_div_bound:
  assumes "0 < n" "n \<le> (2 ^ 32 - 1 :: nat)"
  shows "n * (2 ^ 32 + 1) \<le> (2 ^ 64 - 1) div ((2 ^ 32 - 1) div n)"
proof -
  define q where "q = (2 ^ 32 - 1) div n"
  have q: "0 < q" using assms by (simp add: q_def div_greater_zero_iff)
  have "n * q \<le> 2 ^ 32 - 1" unfolding q_def by (rule times_div_less_eq_dividend)
  then have "(n * q) * (2 ^ 32 + 1) \<le> (2 ^ 32 - 1) * (2 ^ 32 + 1)" by (rule mult_le_mono1)
  then have "n * (2 ^ 32 + 1) * q \<le> 2 ^ 64 - 1" by (simp add: algebra_simps)
  then show ?thesis using q by (simp only: q_def [symmetric] less_eq_div_iff_mult_less_eq)
qed

text \<open>
  The four-byte compact target of a Monero pool is expanded on the safe side: every non-zero
  compact value is accepted and the 64-bit boundary is at least the value repeated in both
  halves, so its top 32 bits are never below the pool's compact target.
\<close>

lemma xmr_compact_target_bound:
  assumes "hex2bin tstr 4 = Some raw" and "le32dec raw \<noteq> 0"
  shows "\<exists>t d. xmr_parse_target tstr = Some (t, d) \<and>
               unat (le32dec raw) * (2 ^ 32 + 1) \<le> unat t"
proof -
  let ?n = "unat (le32dec raw)"
  have len: "length tstr = 8" using hex2bin_lengths [OF assms(1)] by simp
  have n: "0 < ?n" "?n \<le> 2 ^ 32 - 1"
    using assms(2) unat_u32_less [of "le32dec raw"] by (auto simp: unat_gt_0)
  have "unat (0xFFFFFFFFFFFFFFFF div (0xFFFFFFFF div ucast (le32dec raw)) :: u64) =
      (2 ^ 64 - 1) div ((2 ^ 32 - 1) div ?n)"
    by (simp add: unat_div unat_ucast_u64)
  with compact_div_bound [OF n] show ?thesis
    using assms len by (simp add: xmr_parse_target_def Let_def)
qed

section \<open>Verus targets of very low difficulties\<close>

lemma length_fill_low_bytes [simp]: "length (fill_low_bytes n bs) = length bs"
  by (induction n bs rule: fill_low_bytes.induct) auto

lemma length_diff_to_target_verus [simp]: "length (diff_to_target_verus d) = 32"
  by (simp add: diff_to_target_verus_def verus_store_target_payload_def Let_def length_memcpy
      split: prod.splits)

lemma verus_target_word7:
  assumes "compact_word d = c" "0 < d" "d \<le> 1" "c \<noteq> 0"
  shows "diff_to_target_verus d =
         fill_low_bytes 28 (replicate 28 0 @ map (\<lambda>i. ucast (drop_bit (8 * i) (drop_bit 8 c))) [0..<4])"
  using assms by (simp add: diff_to_target_verus_def scale_diff_stop verus_store_target_payload_def
      memcpy_def Let_def)

lemma fill_zeros: "fill_low_bytes n (replicate n 0 @ bs) = replicate n 0xff @ bs"
proof (induction n)
  case 0
  then show ?case by (cases bs) auto
qed simp

lemma compact_word_1: "compact_word 1 = 4294901760"
  by (simp add: compact_word_def)

lemma compact_word_tiny: "compact_word (1 / 16777216) = 72056494526300160"
proof -
  have "fl (4294901760 * 16777216) = 4294901760 * 16777216"
    using binary64.rnd_dyadic [of 4294901760 24] by simp
  then show ?thesis by (simp add: compact_word_def)
qed


end
