(* ===== verification/State.thy ===== *)
theory State
  imports Targets
begin

text \<open>
  The data model: the structs of \<open>include/miner.h\<close>, \<open>src/stratum_state.cpp\<close>,
  \<open>src/stratum_internal.h\<close> and \<open>src/dev_fee.cpp\<close> as records, and the process state they make up
  (\<open>world\<close>: the pool table with its stratum contexts, the published work, the restart
  generation, worker statistics, the dev-fee scheduler, the options and the lines handed to the
  sockets). Pointers to optional storage are options, flags kept in an \<open>int\<close> are booleans, times
  are integers of seconds. Log output, mutexes and the thread handles carry no value the code
  reads back and have no field; memory allocation succeeds except where an operation takes an
  explicit allocation flag.
\<close>

section \<open>Constants\<close>

definition MAX_USER_POOLS :: nat where "MAX_USER_POOLS = 8"
definition MAX_POOLS :: nat where "MAX_POOLS = MAX_USER_POOLS + 1"
definition MAX_THREADS :: nat where "MAX_THREADS = 32"
definition MAX_NONCES :: nat where "MAX_NONCES = 2"
definition MAX_PENDING_SUBMITS :: nat where "MAX_PENDING_SUBMITS = 256"
definition VERUS_WORK_EXTRA_SIZE :: nat where "VERUS_WORK_EXTRA_SIZE = 1388"
definition VERUS_WORK_SOLUTION_SIZE :: nat where "VERUS_WORK_SOLUTION_SIZE = 1344"
definition VERUS_SOLUTION_NONCE_OFFSET :: nat where "VERUS_SOLUTION_NONCE_OFFSET = 1332"
definition VERUS_NONCE_TAIL_BYTES :: nat where "VERUS_NONCE_TAIL_BYTES = 15"

text \<open>\<open>sizeof(((struct work *)0)->job_id)\<close>.\<close>

definition JOB_ID_SIZE :: nat where "JOB_ID_SIZE = 128"

lemmas size_consts = MAX_USER_POOLS_def MAX_POOLS_def MAX_THREADS_def MAX_NONCES_def
  MAX_PENDING_SUBMITS_def VERUS_WORK_EXTRA_SIZE_def VERUS_WORK_SOLUTION_SIZE_def
  VERUS_SOLUTION_NONCE_OFFSET_def VERUS_NONCE_TAIL_BYTES_def JOB_ID_SIZE_def

datatype algo_t = ALGO_VERUS | ALGO_SHA256D | ALGO_SCRYPT | ALGO_RANDOMX

section \<open>Work units\<close>

record verus_work_payload =
  payload_extra :: bytes
  payload_solution :: bytes
  payload_nonce_tail :: "bytes list"
  payload_full_hash :: "bytes list"

record work =
  work_data :: "u32 list"
  work_target :: "u32 list"
  work_job_id :: string
  work_xnonce2_len :: nat
  work_xnonce2 :: bytes
  work_pooln :: u8
  work_valid_nonces :: u8
  work_submit_nonce_id :: u8
  work_thread_id :: u8
  work_nonces :: "u32 list"
  work_sharediff :: "double list"
  work_targetdiff :: double
  work_height :: u32
  work_restart_generation :: u32
  work_rx_blob_len :: u16
  work_rx_hash :: "bytes list"
  work_rx_nonce_mask :: u32
  work_verus :: "verus_work_payload option"

section \<open>Stratum sessions\<close>

record stratum_job =
  job_job_id :: "string option"
  job_prevhash :: bytes
  job_coinbase :: bytes
  job_coinbase_size :: nat
  job_xnonce2 :: "nat option" \<comment> \<open>offset of the extranonce2 bytes inside the coinbase\<close>
  job_merkle :: "bytes list"
  job_version :: bytes
  job_nbits :: bytes
  job_ntime :: bytes
  job_height :: u32
  job_diff :: double
  job_solution :: bytes
  job_rx_blob :: bytes
  job_rx_blob_len :: u16
  job_rx_target64 :: u64

record pending_submit =
  ps_id :: u32
  ps_sharediff :: double
  ps_thread_id :: int
  ps_queued_at :: int
  ps_used :: bool

record stratum_ctx =
  sctx_url :: "string option"
  sctx_curl :: bool \<comment> \<open>an easy handle exists\<close>
  sctx_curl_url :: "string option"
  sctx_sock :: bool \<comment> \<open>\<open>sock != CURL_SOCKET_BAD\<close>\<close>
  sctx_sockbuf :: "string option"
  sctx_sockbuf_size :: nat
  sctx_next_diff :: double
  sctx_session_id :: "string option"
  sctx_xnonce1 :: bytes
  sctx_xnonce1_size :: nat
  sctx_xnonce2_size :: nat
  sctx_job :: stratum_job
  sctx_pooln :: int
  sctx_is_verus_protocol :: bool
  sctx_xmr_nicehash :: bool
  sctx_use_tls :: bool
  sctx_srvtime_diff :: int
  sctx_authenticated :: bool
  sctx_reconnect_requested :: bool
  sctx_next_submit_id :: u32
  sctx_pending_submits :: "pending_submit list"
  sctx_thread_active :: bool

record pool_infos =
  pool_configured :: bool
  pool_disabled :: bool
  pool_timeout :: int
  pool_name :: string
  pool_url :: string
  pool_short_url :: string
  pool_user :: string
  pool_pass :: string
  pool_stratum :: stratum_ctx
  pool_accepted_count :: u32
  pool_rejected_count :: u32
  pool_last_share_time :: int
  pool_best_share :: double

section \<open>Runtime state\<close>

record stratum_runtime_state =
  rs_current_work :: work
  rs_work_ready :: bool
  rs_last_job_id :: string
  rs_work_updates_total :: u64
  rs_work_updates_clean :: u64
  rs_work_restart_total :: u64
  rs_work_restart_clean :: u64
  rs_work_restart_height :: u64
  rs_work_restart_target :: u64
  rs_share_accepted_total :: u32
  rs_share_rejected_total :: u32

record thr_info =
  thr_hashrate :: double
  thr_hashes_done_total :: u64
  thr_accepted :: u32
  thr_rejected :: u32

text \<open>The statistics of \<open>src/miner.cpp\<close> under \<open>stats_lock\<close>, with the stop flag of the reporter.\<close>

record miner_stats =
  ms_global_hashrate :: double
  ms_start_time :: int
  ms_last_stats_time :: int
  ms_reporter_stop :: bool

record devfee_state =
  df_enabled :: bool
  df_in_slice :: bool
  df_dev_pool_index :: int
  df_user_pool_index :: int
  df_next_transition :: int
  df_slice_seconds :: int
  df_cycle_seconds :: int
  df_percent :: double
  df_cur_target :: nat
  df_num_targets :: nat

text \<open>
  The RandomX runtime of \<open>src/algorithm/randomx_algo.cpp\<close>: whether it is set up, the current seed,
  the epoch (how often the cache was keyed), the seed the cache and dataset were last built from,
  and the epoch each thread's virtual machine was bound at.
\<close>

record rx_runtime =
  rx_runtime_ready :: bool
  rx_light_mode :: bool
  rx_flags :: "bool \<times> bool" \<comment> \<open>the JIT and SECURE bits of the base flags\<close>
  rx_seed :: bytes
  rx_epoch :: int
  rx_built_from :: "bytes option"
  rx_vm_epoch :: "int option list"

record miner_options =
  opt_algo :: algo_t
  opt_benchmark :: bool
  opt_nicehash :: bool
  opt_n_threads :: nat
  opt_timeout :: int
  opt_retries :: int
  opt_retry_pause :: int

text \<open>
  The lines handed to \<open>stratum_send_line\<close>, before \<open>jansson\<close> prints them: requests of the standard
  dialect (\<open>stratum_build_request_line\<close>), of the Monero dialect (\<open>xmr_build_request_line\<close>; the login
  request with its user, password, agent and algorithm list) and
  replies to pool requests, whose identifier is echoed as received. \<open>Shutdown\<close> stands for the
  \<open>shutdown(SHUT_RDWR)\<close> call on the socket.
\<close>

datatype 'j out_msg =
    Request u32 string "string list"
  | Xmr_Request u32 string "(string \<times> string) list"
  | Xmr_Login u32 string string string "string list"
  | Result_Bool 'j bool
  | Result_String 'j string
  | Rpc_Error 'j int string
  | Shutdown

record 'j world =
  w_pools :: "pool_infos list"
  w_num_pools :: nat
  w_current_pool :: int
  w_runtime :: stratum_runtime_state
  w_generation :: u32
  w_threads :: "thr_info list"
  w_stats :: miner_stats
  w_devfee :: devfee_state
  w_rx :: rx_runtime
  w_abort :: bool
  w_opts :: miner_options
  w_wire :: "(nat \<times> 'j out_msg) list"

section \<open>Zeroed storage\<close>

definition zero_payload :: verus_work_payload where
  "zero_payload = \<lparr>
     payload_extra = replicate VERUS_WORK_EXTRA_SIZE 0,
     payload_solution = replicate VERUS_WORK_SOLUTION_SIZE 0,
     payload_nonce_tail = replicate MAX_NONCES (replicate VERUS_NONCE_TAIL_BYTES 0),
     payload_full_hash = replicate MAX_NONCES (replicate 32 0)\<rparr>"

definition zero_work :: work where
  "zero_work = \<lparr>
     work_data = replicate 68 0, work_target = replicate 8 0, work_job_id = [],
     work_xnonce2_len = 0, work_xnonce2 = replicate 32 0, work_pooln = 0,
     work_valid_nonces = 0, work_submit_nonce_id = 0, work_thread_id = 0,
     work_nonces = replicate MAX_NONCES 0, work_sharediff = replicate MAX_NONCES 0,
     work_targetdiff = 0, work_height = 0, work_restart_generation = 0,
     work_rx_blob_len = 0, work_rx_hash = replicate MAX_NONCES (replicate 32 0),
     work_rx_nonce_mask = 0, work_verus = None\<rparr>"

definition zero_job :: stratum_job where
  "zero_job = \<lparr>
     job_job_id = None, job_prevhash = replicate 32 0, job_coinbase = [], job_coinbase_size = 0,
     job_xnonce2 = None, job_merkle = [], job_version = replicate 4 0,
     job_nbits = replicate 4 0, job_ntime = replicate 4 0, job_height = 0, job_diff = 0,
     job_solution = replicate VERUS_WORK_SOLUTION_SIZE 0, job_rx_blob = replicate 256 0,
     job_rx_blob_len = 0, job_rx_target64 = 0\<rparr>"

definition zero_pending :: pending_submit where
  "zero_pending = \<lparr>ps_id = 0, ps_sharediff = 0, ps_thread_id = 0, ps_queued_at = 0, ps_used = False\<rparr>"

definition zero_sctx :: stratum_ctx where
  "zero_sctx = \<lparr>
     sctx_url = None, sctx_curl = False, sctx_curl_url = None, sctx_sock = True,
     sctx_sockbuf = None, sctx_sockbuf_size = 0, sctx_next_diff = 0, sctx_session_id = None,
     sctx_xnonce1 = [], sctx_xnonce1_size = 0, sctx_xnonce2_size = 0, sctx_job = zero_job,
     sctx_pooln = 0, sctx_is_verus_protocol = False, sctx_xmr_nicehash = False,
     sctx_use_tls = False, sctx_srvtime_diff = 0, sctx_authenticated = False,
     sctx_reconnect_requested = False, sctx_next_submit_id = 0,
     sctx_pending_submits = replicate MAX_PENDING_SUBMITS zero_pending,
     sctx_thread_active = False\<rparr>"

definition zero_pool :: pool_infos where
  "zero_pool = \<lparr>
     pool_configured = False, pool_disabled = False, pool_timeout = 0, pool_name = [],
     pool_url = [], pool_short_url = [], pool_user = [], pool_pass = [],
     pool_stratum = zero_sctx, pool_accepted_count = 0, pool_rejected_count = 0,
     pool_last_share_time = 0, pool_best_share = 0\<rparr>"

definition zero_runtime :: stratum_runtime_state where
  "zero_runtime = \<lparr>
     rs_current_work = zero_work, rs_work_ready = False, rs_last_job_id = [],
     rs_work_updates_total = 0, rs_work_updates_clean = 0, rs_work_restart_total = 0,
     rs_work_restart_clean = 0, rs_work_restart_height = 0, rs_work_restart_target = 0,
     rs_share_accepted_total = 0, rs_share_rejected_total = 0\<rparr>"

text \<open>The globals at process start, before the configuration is read.\<close>

definition initial_devfee :: devfee_state where
  "initial_devfee = \<lparr>
     df_enabled = False, df_in_slice = False, df_dev_pool_index = - 1, df_user_pool_index = - 1,
     df_next_transition = 0, df_slice_seconds = 0, df_cycle_seconds = 0, df_percent = 0,
     df_cur_target = 0, df_num_targets = 0\<rparr>"

definition initial_rx :: rx_runtime where
  "initial_rx = \<lparr>
     rx_runtime_ready = False, rx_light_mode = False, rx_flags = (False, False), rx_seed = [], rx_epoch = 0,
     rx_built_from = None, rx_vm_epoch = replicate MAX_THREADS None\<rparr>"

definition initial_stats :: miner_stats where
  "initial_stats = \<lparr>ms_global_hashrate = 0, ms_start_time = 0, ms_last_stats_time = 0, ms_reporter_stop = False\<rparr>"

definition initial_world :: "miner_options \<Rightarrow> 'j world" where
  "initial_world opts = \<lparr>
     w_pools = replicate MAX_POOLS zero_pool, w_num_pools = 0, w_current_pool = 0,
     w_runtime = zero_runtime, w_generation = 0, w_threads = [], w_stats = initial_stats, w_devfee = initial_devfee,
     w_rx = initial_rx,
     w_abort = False, w_opts = opts, w_wire = []\<rparr>"

section \<open>Access to the pool table\<close>

definition pool_at :: "'j world \<Rightarrow> nat \<Rightarrow> pool_infos" where
  "pool_at w p = w_pools w ! p"

definition upd_pool :: "nat \<Rightarrow> (pool_infos \<Rightarrow> pool_infos) \<Rightarrow> 'j world \<Rightarrow> 'j world" where
  "upd_pool p f w = w\<lparr>w_pools := (w_pools w)[p := f (w_pools w ! p)]\<rparr>"

definition sctx_at :: "'j world \<Rightarrow> nat \<Rightarrow> stratum_ctx" where
  "sctx_at w p = pool_stratum (pool_at w p)"

definition upd_sctx :: "nat \<Rightarrow> (stratum_ctx \<Rightarrow> stratum_ctx) \<Rightarrow> 'j world \<Rightarrow> 'j world" where
  "upd_sctx p f = upd_pool p (\<lambda>q. q\<lparr>pool_stratum := f (pool_stratum q)\<rparr>)"

lemma pool_at_upd_pool:
  "p < length (w_pools w) \<Longrightarrow> pool_at (upd_pool p f w) q = (if q = p then f (pool_at w p) else pool_at w q)"
  by (simp add: pool_at_def upd_pool_def)

lemma sctx_at_upd_sctx:
  "p < length (w_pools w) \<Longrightarrow> sctx_at (upd_sctx p f w) q = (if q = p then f (sctx_at w p) else sctx_at w q)"
  by (simp add: sctx_at_def upd_sctx_def pool_at_upd_pool)

lemma pool_at_frame [simp]:
  "pool_at (w\<lparr>w_runtime := rs\<rparr>) p = pool_at w p"
  "pool_at (w\<lparr>w_generation := g\<rparr>) p = pool_at w p"
  "pool_at (w\<lparr>w_wire := l\<rparr>) p = pool_at w p"
  "pool_at (w\<lparr>w_devfee := d\<rparr>) p = pool_at w p"
  "pool_at (w\<lparr>w_rx := x\<rparr>) p = pool_at w p"
  "pool_at (w\<lparr>w_threads := t\<rparr>) p = pool_at w p"
  "pool_at (w\<lparr>w_stats := ms\<rparr>) p = pool_at w p"
  "pool_at (w\<lparr>w_abort := a\<rparr>) p = pool_at w p"
  "pool_at (w\<lparr>w_current_pool := c\<rparr>) p = pool_at w p"
  by (simp_all add: pool_at_def)

lemma sctx_at_frame [simp]:
  "sctx_at (w\<lparr>w_runtime := rs\<rparr>) p = sctx_at w p"
  "sctx_at (w\<lparr>w_generation := g\<rparr>) p = sctx_at w p"
  "sctx_at (w\<lparr>w_wire := l\<rparr>) p = sctx_at w p"
  "sctx_at (w\<lparr>w_devfee := d\<rparr>) p = sctx_at w p"
  "sctx_at (w\<lparr>w_rx := x\<rparr>) p = sctx_at w p"
  "sctx_at (w\<lparr>w_threads := t\<rparr>) p = sctx_at w p"
  "sctx_at (w\<lparr>w_stats := ms\<rparr>) p = sctx_at w p"
  "sctx_at (w\<lparr>w_abort := a\<rparr>) p = sctx_at w p"
  "sctx_at (w\<lparr>w_current_pool := c\<rparr>) p = sctx_at w p"
  by (simp_all add: sctx_at_def)

lemma upd_pool_frame [simp]:
  "length (w_pools (upd_pool p f w)) = length (w_pools w)"
  "w_num_pools (upd_pool p f w) = w_num_pools w"
  "w_current_pool (upd_pool p f w) = w_current_pool w"
  "w_runtime (upd_pool p f w) = w_runtime w"
  "w_generation (upd_pool p f w) = w_generation w"
  "w_threads (upd_pool p f w) = w_threads w"
  "w_stats (upd_pool p f w) = w_stats w"
  "w_devfee (upd_pool p f w) = w_devfee w"
  "w_rx (upd_pool p f w) = w_rx w"
  "w_abort (upd_pool p f w) = w_abort w"
  "w_opts (upd_pool p f w) = w_opts w"
  "w_wire (upd_pool p f w) = w_wire w"
  by (simp_all add: upd_pool_def)

lemma upd_sctx_frame [simp]:
  "length (w_pools (upd_sctx p f w)) = length (w_pools w)"
  "w_num_pools (upd_sctx p f w) = w_num_pools w"
  "w_current_pool (upd_sctx p f w) = w_current_pool w"
  "w_runtime (upd_sctx p f w) = w_runtime w"
  "w_generation (upd_sctx p f w) = w_generation w"
  "w_threads (upd_sctx p f w) = w_threads w"
  "w_stats (upd_sctx p f w) = w_stats w"
  "w_devfee (upd_sctx p f w) = w_devfee w"
  "w_rx (upd_sctx p f w) = w_rx w"
  "w_abort (upd_sctx p f w) = w_abort w"
  "w_opts (upd_sctx p f w) = w_opts w"
  "w_wire (upd_sctx p f w) = w_wire w"
  by (simp_all add: upd_sctx_def)

end
