(* ===== verification/Json.thy ===== *)
theory Json
  imports State
begin

text \<open>
  The JSON library as an argument: the accessors of jansson that the stratum code calls, gathered
  in a record. A \<open>json_t *\<close> is an option (\<open>None\<close> is the null pointer), a \<open>const char *\<close> result an
  optional string. The code relies on nothing but these calls, so most results hold for every
  record of accessors; \<open>jval_lib\<close> is a concrete instance, used to evaluate examples.
\<close>

record 'j jansson =
  json_is_null :: "'j option \<Rightarrow> bool"
  json_is_true :: "'j option \<Rightarrow> bool"
  json_is_false :: "'j option \<Rightarrow> bool"
  json_is_integer :: "'j option \<Rightarrow> bool"
  json_is_string :: "'j option \<Rightarrow> bool"
  json_is_array :: "'j option \<Rightarrow> bool"
  json_is_object :: "'j option \<Rightarrow> bool"
  json_integer_value :: "'j option \<Rightarrow> int"
  json_number_value :: "'j option \<Rightarrow> double"
  json_string_value :: "'j option \<Rightarrow> string option"
  json_array_size :: "'j option \<Rightarrow> nat"
  json_array_get :: "'j option \<Rightarrow> nat \<Rightarrow> 'j option"
  json_object_get :: "'j option \<Rightarrow> string \<Rightarrow> 'j option"
  json_loads :: "string \<Rightarrow> 'j option"

section \<open>A concrete instance\<close>

datatype jval =
    J_Null
  | J_Bool bool
  | J_Int int
  | J_Real double
  | J_String string
  | J_Array "jval list"
  | J_Object "(string \<times> jval) list"

definition jval_lib :: "jval jansson" where
  "jval_lib = \<lparr>
     json_is_null = (\<lambda>v. v = Some J_Null),
     json_is_true = (\<lambda>v. v = Some (J_Bool True)),
     json_is_false = (\<lambda>v. v = Some (J_Bool False)),
     json_is_integer = (\<lambda>v. case v of Some (J_Int _) \<Rightarrow> True | _ \<Rightarrow> False),
     json_is_string = (\<lambda>v. case v of Some (J_String _) \<Rightarrow> True | _ \<Rightarrow> False),
     json_is_array = (\<lambda>v. case v of Some (J_Array _) \<Rightarrow> True | _ \<Rightarrow> False),
     json_is_object = (\<lambda>v. case v of Some (J_Object _) \<Rightarrow> True | _ \<Rightarrow> False),
     json_integer_value = (\<lambda>v. case v of Some (J_Int i) \<Rightarrow> i | _ \<Rightarrow> 0),
     json_number_value = (\<lambda>v. case v of Some (J_Int i) \<Rightarrow> fl (of_int i) | Some (J_Real r) \<Rightarrow> r | _ \<Rightarrow> 0),
     json_string_value = (\<lambda>v. case v of Some (J_String s) \<Rightarrow> Some s | _ \<Rightarrow> None),
     json_array_size = (\<lambda>v. case v of Some (J_Array xs) \<Rightarrow> length xs | _ \<Rightarrow> 0),
     json_array_get = (\<lambda>v i. case v of Some (J_Array xs) \<Rightarrow> oget xs i | _ \<Rightarrow> None),
     json_object_get = (\<lambda>v k. case v of Some (J_Object kvs) \<Rightarrow> map_of kvs k | _ \<Rightarrow> None),
     json_loads = (\<lambda>s. None)\<rparr>"

lemma jval_lib_simps [simp]:
  "json_is_null jval_lib v \<longleftrightarrow> v = Some J_Null"
  "json_is_true jval_lib v \<longleftrightarrow> v = Some (J_Bool True)"
  "json_is_false jval_lib v \<longleftrightarrow> v = Some (J_Bool False)"
  "json_is_integer jval_lib (Some (J_Int i))"
  "\<not> json_is_integer jval_lib (Some (J_String s))"
  "json_is_string jval_lib (Some (J_String s))"
  "\<not> json_is_string jval_lib (Some (J_Int i))"
  "json_is_array jval_lib (Some (J_Array xs))"
  "\<not> json_is_array jval_lib None"
  "json_is_object jval_lib (Some (J_Object kvs))"
  "json_integer_value jval_lib (Some (J_Int i)) = i"
  "json_number_value jval_lib (Some (J_Int i)) = fl (of_int i)"
  "json_string_value jval_lib (Some (J_String s)) = Some s"
  "json_string_value jval_lib (Some (J_Int i)) = None"
  "json_string_value jval_lib None = None"
  "json_array_size jval_lib (Some (J_Array xs)) = length xs"
  "json_array_get jval_lib (Some (J_Array xs)) n = oget xs n"
  "json_object_get jval_lib (Some (J_Object kvs)) k = map_of kvs k"
  by (simp_all add: jval_lib_def)

end
