(* ===== verification/Work.thy ===== *)
theory Work
  imports State
begin

text \<open>
  The life cycle of \<open>struct work\<close> (\<open>src/miner.cpp\<close>): zeroing, the separately allocated Verus
  payload, copying between the stratum layer and the workers. Allocation of the payload may fail,
  so the operations that allocate take a flag and return whether they succeeded.
\<close>

definition miner_work_ensure_verus_payload :: "algo_t \<Rightarrow> bool \<Rightarrow> work \<Rightarrow> work \<times> bool" where
  "miner_work_ensure_verus_payload algo alloc w =
     (if work_verus w \<noteq> None \<or> algo \<noteq> ALGO_VERUS then (w, True)
      else if alloc then (w\<lparr>work_verus := Some zero_payload\<rparr>, True)
      else (w, False))"

definition miner_work_init :: "algo_t \<Rightarrow> bool \<Rightarrow> work \<times> bool" where
  "miner_work_init algo alloc = miner_work_ensure_verus_payload algo alloc zero_work"

definition miner_work_reset :: "work \<Rightarrow> work" where
  "miner_work_reset w = zero_work\<lparr>work_verus := map_option (\<lambda>_. zero_payload) (work_verus w)\<rparr>"

definition miner_work_cleanup :: "work \<Rightarrow> work" where
  "miner_work_cleanup w = w\<lparr>work_verus := None\<rparr>"

definition miner_work_copy :: "bool \<Rightarrow> work \<Rightarrow> work \<Rightarrow> work \<times> bool" where
  "miner_work_copy alloc dst src =
     (case work_verus src of
        None \<Rightarrow> (src\<lparr>work_verus := map_option (\<lambda>_. zero_payload) (work_verus dst)\<rparr>, True)
      | Some p \<Rightarrow>
          (if work_verus dst = None \<and> \<not> alloc then (zero_work\<lparr>work_verus := None\<rparr>, False)
           else (src\<lparr>work_verus := Some p\<rparr>, True)))"

definition miner_work_solution :: "work \<Rightarrow> bytes option" where
  "miner_work_solution w = map_option payload_solution (work_verus w)"

definition miner_work_extra :: "work \<Rightarrow> bytes option" where
  "miner_work_extra w = map_option payload_extra (work_verus w)"

definition miner_work_verus_nonce_tail :: "work \<Rightarrow> nat \<Rightarrow> bytes option" where
  "miner_work_verus_nonce_tail w nonce =
     (case work_verus w of
        None \<Rightarrow> None
      | Some p \<Rightarrow> if MAX_NONCES \<le> nonce then None else Some (payload_nonce_tail p ! nonce))"

definition miner_work_verus_full_hash :: "work \<Rightarrow> nat \<Rightarrow> bytes option" where
  "miner_work_verus_full_hash w nonce =
     (case work_verus w of
        None \<Rightarrow> None
      | Some p \<Rightarrow> if MAX_NONCES \<le> nonce then None else Some (payload_full_hash p ! nonce))"

section \<open>Shapes\<close>

definition wf_payload :: "verus_work_payload \<Rightarrow> bool" where
  "wf_payload p \<longleftrightarrow>
     length (payload_extra p) = VERUS_WORK_EXTRA_SIZE \<and>
     length (payload_solution p) = VERUS_WORK_SOLUTION_SIZE \<and>
     length (payload_nonce_tail p) = MAX_NONCES \<and>
     (\<forall>t \<in> set (payload_nonce_tail p). length t = VERUS_NONCE_TAIL_BYTES) \<and>
     length (payload_full_hash p) = MAX_NONCES \<and>
     (\<forall>t \<in> set (payload_full_hash p). length t = 32)"

text \<open>The sizes of the fixed arrays, and a job identifier that fits its buffer.\<close>

definition wf_work :: "work \<Rightarrow> bool" where
  "wf_work w \<longleftrightarrow>
     length (work_data w) = 68 \<and> length (work_target w) = 8 \<and>
     length (work_job_id w) < JOB_ID_SIZE \<and>
     work_xnonce2_len w \<le> 32 \<and> length (work_xnonce2 w) = 32 \<and>
     length (work_nonces w) = MAX_NONCES \<and> length (work_sharediff w) = MAX_NONCES \<and>
     length (work_rx_hash w) = MAX_NONCES \<and> (\<forall>h \<in> set (work_rx_hash w). length h = 32) \<and>
     (\<forall>p. work_verus w = Some p \<longrightarrow> wf_payload p)"

lemma wf_zero_payload [simp]: "wf_payload zero_payload"
  by (simp add: wf_payload_def zero_payload_def)

lemma wf_zero_work [simp]: "wf_work zero_work"
  by (simp add: wf_work_def zero_work_def size_consts)

lemma wf_work_verus_update:
  "wf_work w \<Longrightarrow> (\<And>p. v = Some p \<Longrightarrow> wf_payload p) \<Longrightarrow> wf_work (w\<lparr>work_verus := v\<rparr>)"
  by (simp add: wf_work_def)

lemma miner_work_init_wf [keeps_inv]: "wf_work (fst (miner_work_init algo alloc))"
  by (auto simp: miner_work_init_def miner_work_ensure_verus_payload_def
      intro!: wf_work_verus_update)

lemma miner_work_reset_wf [keeps_inv]: "wf_work (miner_work_reset w)"
  unfolding miner_work_reset_def by (rule wf_work_verus_update) auto

lemma miner_work_copy_wf [keeps_inv]:
  "wf_work src \<Longrightarrow> wf_work (fst (miner_work_copy alloc dst src))"
  by (auto simp: miner_work_copy_def wf_work_def split: option.splits)
    (auto simp: zero_work_def size_consts)

section \<open>Copies\<close>

text \<open>When storage is available a copy never fails, and everything but the payload is the source's.\<close>

lemma miner_work_copy_ok:
  "snd (miner_work_copy alloc dst src) \<longleftrightarrow> (work_verus src = None \<or> work_verus dst \<noteq> None \<or> alloc)"
  by (auto simp: miner_work_copy_def split: option.splits)

lemma miner_work_copy_eq:
  "snd (miner_work_copy alloc dst src) \<Longrightarrow>
   fst (miner_work_copy alloc dst src) =
     src\<lparr>work_verus := (case work_verus src of
                          None \<Rightarrow> map_option (\<lambda>_. zero_payload) (work_verus dst)
                        | Some p \<Rightarrow> Some p)\<rparr>"
  by (auto simp: miner_work_copy_def split: option.splits if_splits)

lemma miner_work_copy_fields:
  assumes "snd (miner_work_copy alloc dst src)"
  shows "work_target (fst (miner_work_copy alloc dst src)) = work_target src"
    and "work_height (fst (miner_work_copy alloc dst src)) = work_height src"
    and "work_job_id (fst (miner_work_copy alloc dst src)) = work_job_id src"
    and "work_pooln (fst (miner_work_copy alloc dst src)) = work_pooln src"
    and "work_data (fst (miner_work_copy alloc dst src)) = work_data src"
    and "work_restart_generation (fst (miner_work_copy alloc dst src)) = work_restart_generation src"
  using assms by (simp_all add: miner_work_copy_eq)

end
