(* ===== verification/Runtime.thy ===== *)
theory Runtime
  imports Work
begin

text \<open>
  The process-wide mining state of \<open>src/stratum_state.cpp\<close>: the published work, the restart
  generation of \<open>include/miner.h\<close>, the update and share counters. Every operation runs under
  \<open>stratum_work_lock\<close> in the source and is one atomic step here. The results are about arbitrary
  sequences of these steps: superseded work is always seen as stale, an exhausted worker that
  waits on the update counter misses no publication, and no payload is allocated under the lock
  once one exists.
\<close>

section \<open>The restart generation\<close>

definition miner_work_generation_load :: "'j world \<Rightarrow> u32" where
  "miner_work_generation_load w = w_generation w"

definition miner_work_generation_bump :: "'j world \<Rightarrow> 'j world" where
  "miner_work_generation_bump w = w\<lparr>w_generation := w_generation w + 1\<rparr>"

definition miner_work_restart_requested :: "'j world \<Rightarrow> u32 \<Rightarrow> bool" where
  "miner_work_restart_requested w local_generation \<longleftrightarrow>
     miner_work_generation_load w \<noteq> local_generation"

definition miner_work_generation_reset :: "'j world \<Rightarrow> 'j world" where
  "miner_work_generation_reset w = w\<lparr>w_generation := 0\<rparr>"

definition miner_should_abort :: "'j world \<Rightarrow> bool" where
  "miner_should_abort w = w_abort w"

definition miner_request_abort :: "'j world \<Rightarrow> 'j world" where
  "miner_request_abort w = w\<lparr>w_abort := True\<rparr>"

definition miner_clear_abort_flag :: "'j world \<Rightarrow> 'j world" where
  "miner_clear_abort_flag w = w\<lparr>w_abort := False\<rparr>"

section \<open>Pool selection\<close>

definition miner_get_current_pool_index :: "'j world \<Rightarrow> int" where
  "miner_get_current_pool_index w = w_current_pool w"

definition miner_set_current_pool_index :: "int \<Rightarrow> 'j world \<Rightarrow> 'j world" where
  "miner_set_current_pool_index pool_index w = w\<lparr>w_current_pool := pool_index\<rparr>"

definition miner_pool_is_usable :: "'j world \<Rightarrow> int \<Rightarrow> bool" where
  "miner_pool_is_usable w pool_index \<longleftrightarrow>
     0 \<le> pool_index \<and> pool_index < int (w_num_pools w) \<and> pool_index < int MAX_POOLS \<and>
     pool_configured (pool_at w (nat pool_index)) \<and>
     \<not> pool_disabled (pool_at w (nat pool_index)) \<and>
     pool_url (pool_at w (nat pool_index)) \<noteq> []"

definition miner_get_pool_timeout :: "'j world \<Rightarrow> int \<Rightarrow> int" where
  "miner_get_pool_timeout w pool_index =
     (let timeout =
        (if 0 \<le> pool_index \<and> pool_index < int (w_num_pools w) \<and> pool_index < int MAX_POOLS \<and>
            pool_configured (pool_at w (nat pool_index)) \<and> 0 < pool_timeout (pool_at w (nat pool_index))
         then pool_timeout (pool_at w (nat pool_index)) else opt_timeout (w_opts w))
      in if 0 < timeout then timeout else 1)"

lemma miner_get_pool_timeout_pos: "0 < miner_get_pool_timeout w pool_index"
  by (simp add: miner_get_pool_timeout_def Let_def)

section \<open>Dev-fee pool and per-thread counters\<close>

definition devfee_is_dev_pool :: "'j world \<Rightarrow> int \<Rightarrow> bool" where
  "devfee_is_dev_pool w pool_index \<longleftrightarrow>
     df_enabled (w_devfee w) \<and> pool_index = df_dev_pool_index (w_devfee w)"

definition miner_record_thread_share_result :: "int \<Rightarrow> bool \<Rightarrow> 'j world \<Rightarrow> 'j world" where
  "miner_record_thread_share_result thread_id accepted w =
     (if w_threads w = [] \<or> thread_id < 0 \<or> int (opt_n_threads (w_opts w)) \<le> thread_id then w
      else w\<lparr>w_threads := (w_threads w)
               [nat thread_id :=
                 (let t = w_threads w ! nat thread_id
                  in if accepted then t\<lparr>thr_accepted := thr_accepted t + 1\<rparr>
                     else t\<lparr>thr_rejected := thr_rejected t + 1\<rparr>)]\<rparr>)"

section \<open>Publishing work\<close>

definition height_changed :: "stratum_runtime_state \<Rightarrow> work \<Rightarrow> bool" where
  "height_changed rs new_work \<longleftrightarrow>
     \<not> rs_work_ready rs \<or> work_height new_work \<noteq> work_height (rs_current_work rs)"

definition target_changed :: "stratum_runtime_state \<Rightarrow> work \<Rightarrow> bool" where
  "target_changed rs new_work \<longleftrightarrow>
     \<not> rs_work_ready rs \<or> work_target new_work \<noteq> work_target (rs_current_work rs)"

definition should_restart :: "stratum_runtime_state \<Rightarrow> work \<Rightarrow> bool \<Rightarrow> bool" where
  "should_restart rs new_work clean \<longleftrightarrow>
     \<not> rs_work_ready rs \<or> clean \<or> height_changed rs new_work \<or> target_changed rs new_work"

definition count_if :: "bool \<Rightarrow> u64" where
  "count_if b = (if b then 1 else 0)"

definition stratum_publish_work :: "bool \<Rightarrow> work \<Rightarrow> bool \<Rightarrow> 'j world \<Rightarrow> 'j world" where
  "stratum_publish_work alloc new_work clean w =
     (let rs = w_runtime w;
          hc = height_changed rs new_work;
          tc = target_changed rs new_work;
          sr = should_restart rs new_work clean;
          (cw, ok) = miner_work_copy alloc (rs_current_work rs) new_work
      in if \<not> ok then w\<lparr>w_runtime := rs\<lparr>rs_current_work := cw\<rparr>\<rparr>
         else
           let w1 = (if sr then miner_work_generation_bump w else w);
               job_id_copy = snprintf_s JOB_ID_SIZE (work_job_id new_work);
               rs1 = rs\<lparr>
                 rs_current_work := cw\<lparr>work_restart_generation := miner_work_generation_load w1\<rparr>,
                 rs_work_ready := True,
                 rs_last_job_id := job_id_copy,
                 rs_work_updates_total := rs_work_updates_total rs + 1,
                 rs_work_updates_clean := rs_work_updates_clean rs + count_if clean,
                 rs_work_restart_total := rs_work_restart_total rs + count_if sr,
                 rs_work_restart_clean := rs_work_restart_clean rs + count_if (sr \<and> clean),
                 rs_work_restart_height := rs_work_restart_height rs + count_if (sr \<and> hc),
                 rs_work_restart_target := rs_work_restart_target rs + count_if (sr \<and> tc)\<rparr>
           in w1\<lparr>w_runtime := rs1\<rparr>)"

definition stratum_work_update_count :: "'j world \<Rightarrow> u64" where
  "stratum_work_update_count w = rs_work_updates_total (w_runtime w)"

definition stratum_update_share_stats :: "int \<Rightarrow> bool \<Rightarrow> 'j world \<Rightarrow> 'j world" where
  "stratum_update_share_stats pooln accepted w =
     (let w1 =
        (if 0 \<le> pooln \<and> pooln < int (w_num_pools w) then
           upd_pool (nat pooln)
             (\<lambda>p. if accepted then p\<lparr>pool_accepted_count := pool_accepted_count p + 1\<rparr>
                  else p\<lparr>pool_rejected_count := pool_rejected_count p + 1\<rparr>) w
         else w)
      in if devfee_is_dev_pool w1 pooln then w1
         else w1\<lparr>w_runtime :=
           (let rs = w_runtime w1
            in if accepted then rs\<lparr>rs_share_accepted_total := rs_share_accepted_total rs + 1\<rparr>
               else rs\<lparr>rs_share_rejected_total := rs_share_rejected_total rs + 1\<rparr>)\<rparr>)"

text \<open>The copy a worker takes: the worker's buffer afterwards and whether it holds work.\<close>

definition stratum_copy_work :: "bool \<Rightarrow> work \<Rightarrow> 'j world \<Rightarrow> work \<times> bool" where
  "stratum_copy_work alloc work_out w =
     (if rs_work_ready (w_runtime w) then miner_work_copy alloc work_out (rs_current_work (w_runtime w))
      else (work_out, False))"

definition stratum_has_published_work :: "'j world \<Rightarrow> bool" where
  "stratum_has_published_work w = rs_work_ready (w_runtime w)"

definition stratum_reset_runtime_state :: "'j world \<Rightarrow> 'j world" where
  "stratum_reset_runtime_state w =
     (let preserved_verus = work_verus (rs_current_work (w_runtime w))
      in w\<lparr>w_runtime := zero_runtime\<lparr>
             rs_current_work := zero_work\<lparr>
               work_verus := map_option (\<lambda>_. zero_payload) preserved_verus\<rparr>\<rparr>\<rparr>)"

definition stratum_reset_work_state :: "'j world \<Rightarrow> 'j world" where
  "stratum_reset_work_state w =
     miner_work_generation_bump
       (w\<lparr>w_runtime := (w_runtime w)\<lparr>
            rs_current_work := miner_work_reset (rs_current_work (w_runtime w)),
            rs_work_ready := False, rs_last_job_id := []\<rparr>\<rparr>)"

definition stratum_record_share_submit :: "int \<Rightarrow> int \<Rightarrow> double \<Rightarrow> 'j world \<Rightarrow> 'j world" where
  "stratum_record_share_submit now pooln sharediff w =
     (if 0 \<le> pooln \<and> pooln < int (w_num_pools w) then
        upd_pool (nat pooln)
          (\<lambda>p. p\<lparr>pool_last_share_time := now,
                 pool_best_share := (if pool_best_share p < sharediff then sharediff
                                     else pool_best_share p)\<rparr>) w
      else w)"

definition stratum_update_active_work_height_locked ::
  "int \<Rightarrow> string option \<Rightarrow> u32 \<Rightarrow> 'j world \<Rightarrow> 'j world \<times> bool" where
  "stratum_update_active_work_height_locked pooln job_id height w =
     (let cw = rs_current_work (w_runtime w)
      in if height = 0 \<or> job_id = None \<or> job_id = Some [] then (w, False)
         else if rs_work_ready (w_runtime w) \<and> pooln = int (unat (work_pooln cw)) \<and>
                 Some (work_job_id cw) = job_id \<and> work_height cw \<noteq> height then
           (w\<lparr>w_runtime := (w_runtime w)\<lparr>rs_current_work := cw\<lparr>work_height := height\<rparr>\<rparr>\<rparr>, True)
         else (w, False))"

section \<open>Snapshots for the API server\<close>

record stratum_runtime_stats =
  st_work_updates_total :: u64
  st_work_updates_clean :: u64
  st_work_restart_total :: u64
  st_work_restart_clean :: u64
  st_work_restart_height :: u64
  st_work_restart_target :: u64
  st_share_accepted_total :: u32
  st_share_rejected_total :: u32

definition stratum_get_runtime_stats :: "'j world \<Rightarrow> stratum_runtime_stats" where
  "stratum_get_runtime_stats w =
     (let rs = w_runtime w
      in \<lparr>st_work_updates_total = rs_work_updates_total rs,
          st_work_updates_clean = rs_work_updates_clean rs,
          st_work_restart_total = rs_work_restart_total rs,
          st_work_restart_clean = rs_work_restart_clean rs,
          st_work_restart_height = rs_work_restart_height rs,
          st_work_restart_target = rs_work_restart_target rs,
          st_share_accepted_total = rs_share_accepted_total rs,
          st_share_rejected_total = rs_share_rejected_total rs\<rparr>)"

record stratum_api_work_snapshot =
  aw_job_id :: string
  aw_xnonce2_len :: nat
  aw_xnonce2 :: bytes
  aw_targetdiff :: double
  aw_height :: u32

definition stratum_fill_api_work_snapshot :: "work \<Rightarrow> stratum_api_work_snapshot" where
  "stratum_fill_api_work_snapshot w =
     \<lparr>aw_job_id = snprintf_s JOB_ID_SIZE (work_job_id w), aw_xnonce2_len = work_xnonce2_len w,
      aw_xnonce2 = work_xnonce2 w, aw_targetdiff = work_targetdiff w, aw_height = work_height w\<rparr>"

record stratum_api_pool_snapshot =
  ap_runtime_stats :: stratum_runtime_stats
  ap_accepted_count :: u32
  ap_rejected_count :: u32
  ap_last_share_time :: int
  ap_best_share :: double
  ap_current_work :: "stratum_api_work_snapshot option" \<comment> \<open>present when \<open>work_ready\<close> is set\<close>

definition stratum_get_api_pool_snapshot :: "int \<Rightarrow> 'j world \<Rightarrow> stratum_api_pool_snapshot" where
  "stratum_get_api_pool_snapshot pooln w =
     (let p = (if 0 \<le> pooln \<and> pooln < int (w_num_pools w) then pool_at w (nat pooln) else zero_pool);
          cw = rs_current_work (w_runtime w)
      in \<lparr>ap_runtime_stats = stratum_get_runtime_stats w,
          ap_accepted_count = pool_accepted_count p,
          ap_rejected_count = pool_rejected_count p,
          ap_last_share_time = pool_last_share_time p,
          ap_best_share = pool_best_share p,
          ap_current_work =
            (if rs_work_ready (w_runtime w) \<and> pooln = int (unat (work_pooln cw))
             then Some (stratum_fill_api_work_snapshot cw) else None)\<rparr>)"

section \<open>Sequences of runtime steps\<close>

text \<open>
  The critical sections other threads run between two looks of a worker: publications, session
  resets, share results and the generation bump of a RandomX re-key.
\<close>

datatype runtime_op =
    Publish bool work bool
  | Reset_Work
  | Share_Result int bool
  | Share_Submit int int double
  | Work_Height int "string option" u32
  | Rekey_Bump

fun runtime_step :: "runtime_op \<Rightarrow> 'j world \<Rightarrow> 'j world" where
  "runtime_step (Publish alloc nw clean) w = stratum_publish_work alloc nw clean w"
| "runtime_step Reset_Work w = stratum_reset_work_state w"
| "runtime_step (Share_Result pooln accepted) w = stratum_update_share_stats pooln accepted w"
| "runtime_step (Share_Submit now pooln d) w = stratum_record_share_submit now pooln d w"
| "runtime_step (Work_Height pooln job_id h) w =
     fst (stratum_update_active_work_height_locked pooln job_id h w)"
| "runtime_step Rekey_Bump w = miner_work_generation_bump w"

definition runtime_run :: "runtime_op list \<Rightarrow> 'j world \<Rightarrow> 'j world" where
  "runtime_run ops w = fold runtime_step ops w"

lemma runtime_run_simps [simp]:
  "runtime_run [] w = w"
  "runtime_run (op # ops) w = runtime_run ops (runtime_step op w)"
  "runtime_run (ops @ ops') w = runtime_run ops' (runtime_run ops w)"
  by (simp_all add: runtime_run_def)

text \<open>Builders give work a payload exactly when the miner runs Verus.\<close>

fun valid_op :: "algo_t \<Rightarrow> runtime_op \<Rightarrow> bool" where
  "valid_op algo (Publish alloc nw clean) \<longleftrightarrow> (work_verus nw \<noteq> None) = (algo = ALGO_VERUS)"
| "valid_op algo _ \<longleftrightarrow> True"

definition payload_inv :: "algo_t \<Rightarrow> 'j world \<Rightarrow> bool" where
  "payload_inv algo w \<longleftrightarrow>
     (rs_work_ready (w_runtime w) \<and> algo = ALGO_VERUS \<longrightarrow>
      work_verus (rs_current_work (w_runtime w)) \<noteq> None)"

definition publish_ok :: "bool \<Rightarrow> work \<Rightarrow> 'j world \<Rightarrow> bool" where
  "publish_ok alloc nw w \<longleftrightarrow> snd (miner_work_copy alloc (rs_current_work (w_runtime w)) nw)"

lemma publish_ok_iff:
  "publish_ok alloc nw w \<longleftrightarrow>
   work_verus nw = None \<or> work_verus (rs_current_work (w_runtime w)) \<noteq> None \<or> alloc"
  by (simp add: publish_ok_def miner_work_copy_ok)

lemma publish_failed:
  "\<not> publish_ok alloc nw w \<Longrightarrow>
   stratum_publish_work alloc nw clean w =
     w\<lparr>w_runtime := (w_runtime w)\<lparr>rs_current_work :=
        fst (miner_work_copy alloc (rs_current_work (w_runtime w)) nw)\<rparr>\<rparr>"
  by (cases "miner_work_copy alloc (rs_current_work (w_runtime w)) nw")
    (simp add: stratum_publish_work_def publish_ok_def Let_def)

lemma publish_generation:
  "w_generation (stratum_publish_work alloc nw clean w) =
     (if publish_ok alloc nw w \<and> should_restart (w_runtime w) nw clean
      then w_generation w + 1 else w_generation w)"
  by (cases "miner_work_copy alloc (rs_current_work (w_runtime w)) nw")
    (simp add: stratum_publish_work_def publish_ok_def Let_def miner_work_generation_bump_def)

lemma publish_success:
  fixes clean :: bool
  assumes "publish_ok alloc nw w"
  defines "w' \<equiv> stratum_publish_work alloc nw clean w"
  shows "rs_work_ready (w_runtime w')"
    and "rs_current_work (w_runtime w') =
           (fst (miner_work_copy alloc (rs_current_work (w_runtime w)) nw))
             \<lparr>work_restart_generation := w_generation w'\<rparr>"
    and "rs_work_updates_total (w_runtime w') = rs_work_updates_total (w_runtime w) + 1"
  unfolding w'_def using assms(1)
  by (cases "miner_work_copy alloc (rs_current_work (w_runtime w)) nw",
      simp add: stratum_publish_work_def publish_ok_def Let_def miner_work_generation_bump_def
        miner_work_generation_load_def)+

text \<open>The generation moves by at most one per step.\<close>

fun bumps :: "runtime_op list \<Rightarrow> 'j world \<Rightarrow> nat" where
  "bumps [] w = 0"
| "bumps (op # ops) w =
     (if w_generation (runtime_step op w) = w_generation w then 0 else 1) +
     bumps ops (runtime_step op w)"

lemma generation_share_stats [simp]:
  "w_generation (stratum_update_share_stats pooln accepted w) = w_generation w"
  by (simp add: stratum_update_share_stats_def Let_def)

lemma runtime_step_generation:
  "w_generation (runtime_step op w) = w_generation w \<or>
   w_generation (runtime_step op w) = w_generation w + 1"
  by (cases op)
    (auto simp: publish_generation stratum_reset_work_state_def miner_work_generation_bump_def
      stratum_record_share_submit_def stratum_update_active_work_height_locked_def Let_def)

lemma runtime_run_generation:
  "w_generation (runtime_run ops w) = w_generation w + of_nat (bumps ops w)"
proof (induction ops arbitrary: w)
  case (Cons op ops)
  then show ?case using runtime_step_generation [of op w] by auto
qed simp

lemma bumps_le: "bumps ops w \<le> length ops"
  by (induction ops arbitrary: w) (auto intro: le_SucI)

lemma u32_of_nat_nonzero: "0 < n \<Longrightarrow> n < 2 ^ 32 \<Longrightarrow> (of_nat n :: u32) \<noteq> 0"
  by (simp add: word_of_nat_eq_0_iff nat_dvd_not_less)

section \<open>Superseded work is stale\<close>

lemma bumps_positive_stale:
  assumes "0 < bumps ops w" "length ops < 2 ^ 32"
  shows "miner_work_restart_requested (runtime_run ops w) (w_generation w)"
  using assms bumps_le [of ops w] u32_of_nat_nonzero [of "bumps ops w"]
  by (simp add: miner_work_restart_requested_def miner_work_generation_load_def
      runtime_run_generation)

lemma bumps_append: "bumps (ops @ ops') w = bumps ops w + bumps ops' (runtime_run ops w)"
  by (induction ops arbitrary: w) auto


definition witness_options :: "algo_t \<Rightarrow> miner_options" where
  "witness_options algo = \<lparr>
     opt_algo = algo, opt_benchmark = False, opt_nicehash = False, opt_n_threads = 4,
     opt_timeout = 300, opt_retries = - 1, opt_retry_pause = 10\<rparr>"

definition witness_world :: "algo_t \<Rightarrow> unit world" where
  "witness_world algo = initial_world (witness_options algo)"

lemma witness_world_runtime [simp]:
  "w_runtime (witness_world algo) = zero_runtime" "w_generation (witness_world algo) = 0"
  by (simp_all add: witness_world_def initial_world_def)


section \<open>Publication never fails once work is ready\<close>

lemma payload_share_stats [simp]:
  "rs_work_ready (w_runtime (stratum_update_share_stats pooln accepted w)) = rs_work_ready (w_runtime w)"
  "rs_current_work (w_runtime (stratum_update_share_stats pooln accepted w)) =
     rs_current_work (w_runtime w)"
  "rs_work_updates_total (w_runtime (stratum_update_share_stats pooln accepted w)) =
     rs_work_updates_total (w_runtime w)"
  by (simp_all add: stratum_update_share_stats_def Let_def)

lemma payload_share_submit [simp]:
  "w_runtime (stratum_record_share_submit now pooln d w) = w_runtime w"
  "w_generation (stratum_record_share_submit now pooln d w) = w_generation w"
  by (simp_all add: stratum_record_share_submit_def)

lemma payload_bump [simp]: "w_runtime (miner_work_generation_bump w) = w_runtime w"
  by (simp add: miner_work_generation_bump_def)

lemma payload_inv_publish:
  assumes "payload_inv algo w" "(work_verus nw \<noteq> None) = (algo = ALGO_VERUS)"
  shows "payload_inv algo (stratum_publish_work alloc nw clean w)"
proof (cases "publish_ok alloc nw w")
  case True
  then show ?thesis using assms publish_success [OF True]
    by (auto simp: payload_inv_def miner_work_copy_eq publish_ok_def)
next
  case False
  then have "work_verus nw \<noteq> None" "work_verus (rs_current_work (w_runtime w)) = None"
    by (auto simp: publish_ok_iff)
  with assms False show ?thesis
    by (auto simp: payload_inv_def publish_failed)
qed

lemma runtime_step_payload_inv [keeps_inv]:
  "payload_inv algo w \<Longrightarrow> valid_op algo op \<Longrightarrow> payload_inv algo (runtime_step op w)"
proof (cases op)
  case (Publish alloc nw clean)
  assume "payload_inv algo w" "valid_op algo op"
  with Publish show ?thesis by (simp add: payload_inv_publish)
qed (auto simp: payload_inv_def stratum_reset_work_state_def
      stratum_update_active_work_height_locked_def Let_def)

lemma runtime_run_payload_inv [keeps_inv]:
  "payload_inv algo w \<Longrightarrow> list_all (valid_op algo) ops \<Longrightarrow> payload_inv algo (runtime_run ops w)"
  by (induction ops arbitrary: w) (auto intro: keeps_inv)

text \<open>
  Once work was published, a publication cannot fail: from a freshly zeroed runtime state, after
  any sequence of steps that publish work with a payload exactly when the algorithm is Verus, a
  state with work ready holds a payload buffer, so the next publication needs no allocation under
  the lock and installs the new work.
\<close>

lemma ready_publish_needs_no_allocation:
  assumes "w_runtime w = zero_runtime" "list_all (valid_op algo) ops"
    and "rs_work_ready (w_runtime (runtime_run ops w))"
    and "(work_verus nw \<noteq> None) = (algo = ALGO_VERUS)"
  shows "publish_ok False nw (runtime_run ops w)"
proof -
  have "payload_inv algo w" using assms(1) by (simp add: payload_inv_def zero_runtime_def)
  then have "payload_inv algo (runtime_run ops w)" using assms(2) by (rule runtime_run_payload_inv)
  with assms(3,4) show ?thesis by (auto simp: payload_inv_def publish_ok_iff)
qed

section \<open>Exhausted workers\<close>

text \<open>Equal up to the height, which a late \<open>mining.notify\<close> height update may correct in place.\<close>

definition same_but_height :: "work \<Rightarrow> work \<Rightarrow> bool" where
  "same_but_height a b \<longleftrightarrow> a\<lparr>work_height := 0\<rparr> = b\<lparr>work_height := 0\<rparr>"

lemma same_but_height_refl [simp]: "same_but_height a a"
  by (simp add: same_but_height_def)

lemma same_but_height_trans: "same_but_height a b \<Longrightarrow> same_but_height b c \<Longrightarrow> same_but_height a c"
  by (simp add: same_but_height_def)

lemma same_but_height_update [simp]: "same_but_height a (a\<lparr>work_height := h\<rparr>)"
  by (simp add: same_but_height_def)

text \<open>Publications that took effect.\<close>

fun publications :: "runtime_op list \<Rightarrow> 'j world \<Rightarrow> nat" where
  "publications [] w = 0"
| "publications (op # ops) w =
     (case op of Publish alloc nw clean \<Rightarrow> if publish_ok alloc nw w then 1 else 0 | _ \<Rightarrow> 0) +
     publications ops (runtime_step op w)"

lemma publications_le: "publications ops w \<le> length ops"
  by (induction ops arbitrary: w) (auto split: runtime_op.splits intro: le_SucI)

lemma runtime_step_updates:
  "stratum_work_update_count (runtime_step op w) =
     stratum_work_update_count w + of_nat (publications [op] w)"
  by (cases op)
    (auto simp: stratum_work_update_count_def publish_success publish_failed
      stratum_reset_work_state_def stratum_update_active_work_height_locked_def Let_def)

lemma runtime_run_updates:
  "stratum_work_update_count (runtime_run ops w) =
     stratum_work_update_count w + of_nat (publications ops w)"
proof (induction ops arbitrary: w)
  case (Cons op ops)
  then show ?case using runtime_step_updates [of op w] by simp
qed simp

lemma u64_of_nat_zero: "n < 2 ^ 64 \<Longrightarrow> (of_nat n :: u64) = 0 \<Longrightarrow> n = 0"
  by (auto simp: word_of_nat_eq_0_iff dest: dvd_imp_le)

text \<open>A step that neither publishes nor bumps the generation keeps the work, up to its height.\<close>

lemma quiet_step:
  assumes "publications [op] w = 0" "w_generation (runtime_step op w) = w_generation w"
    and "payload_inv algo w" "valid_op algo op" "rs_work_ready (w_runtime w)"
  shows "rs_work_ready (w_runtime (runtime_step op w)) \<and>
         same_but_height (rs_current_work (w_runtime w)) (rs_current_work (w_runtime (runtime_step op w)))"
  using assms
  by (cases op)
    (auto simp: payload_inv_def publish_ok_iff stratum_reset_work_state_def Let_def
      miner_work_generation_bump_def stratum_update_active_work_height_locked_def split: if_splits)

lemma quiet_run:
  "publications ops w = 0 \<Longrightarrow> bumps ops w = 0 \<Longrightarrow> payload_inv algo w \<Longrightarrow>
   list_all (valid_op algo) ops \<Longrightarrow> rs_work_ready (w_runtime w) \<Longrightarrow>
   rs_work_ready (w_runtime (runtime_run ops w)) \<and>
   same_but_height (rs_current_work (w_runtime w)) (rs_current_work (w_runtime (runtime_run ops w)))"
proof (induction ops arbitrary: w)
  case (Cons op ops)
  let ?w = "runtime_step op w"
  have step: "rs_work_ready (w_runtime ?w)"
      "same_but_height (rs_current_work (w_runtime w)) (rs_current_work (w_runtime ?w))"
    using Cons.prems quiet_step [of op w algo] by (auto split: if_splits)
  have "payload_inv algo ?w" using Cons.prems by (auto intro: keeps_inv)
  with Cons.IH [of ?w] Cons.prems step show ?case
    by (auto split: if_splits intro: same_but_height_trans)
qed simp

text \<open>
  An exhausted worker never sleeps through a publication. It reads the update counter, then
  copies the published work; when later the counter still has the value it read and no restart is
  requested, the published work is still the work it copied (up to an in-place height
  correction), whatever other threads did before and after the copy.
\<close>

lemma sleeping_worker_misses_no_publication:
  assumes "payload_inv algo w" "list_all (valid_op algo) ops" "list_all (valid_op algo) ops'"
    and "length ops + length ops' < 2 ^ 32"
    and copied: "stratum_copy_work alloc buf (runtime_run ops w) = (held, True)"
    and "work_restart_generation held = w_generation (runtime_run ops w)"
    and "stratum_work_update_count (runtime_run ops' (runtime_run ops w)) = stratum_work_update_count w"
    and "\<not> miner_work_restart_requested (runtime_run ops' (runtime_run ops w))
            (work_restart_generation held)"
  shows "same_but_height (rs_current_work (w_runtime (runtime_run ops w)))
           (rs_current_work (w_runtime (runtime_run ops' (runtime_run ops w))))"
proof -
  let ?v = "runtime_run ops w"
  have "publications (ops @ ops') w = 0"
    using assms(4,7) runtime_run_updates [of "ops @ ops'" w] publications_le [of "ops @ ops'" w]
    by (intro u64_of_nat_zero) auto
  moreover have "publications (ops @ ops') w = publications ops w + publications ops' ?v"
    by (induction ops arbitrary: w) auto
  ultimately have "publications ops' ?v = 0" by simp
  moreover have "bumps ops' ?v = 0"
    using assms(4,6,8) bumps_positive_stale [of ops' ?v] by (cases "bumps ops' ?v") auto
  moreover have "rs_work_ready (w_runtime ?v)"
    using copied by (auto simp: stratum_copy_work_def split: if_splits)
  moreover have "payload_inv algo ?v" using assms(1,2) by (rule runtime_run_payload_inv)
  ultimately show ?thesis using assms(3) quiet_run [of ops' ?v algo] by blast
qed

definition witness_published :: "unit world" where
  "witness_published = stratum_publish_work False zero_work True (witness_world ALGO_SHA256D)"

lemma witness_published_simps:
  "rs_work_ready (w_runtime witness_published)"
  "rs_current_work (w_runtime witness_published) = zero_work\<lparr>work_restart_generation := 1\<rparr>"
  "rs_work_updates_total (w_runtime witness_published) = 1"
  "w_generation witness_published = 1"
proof -
  have ok: "publish_ok False zero_work (witness_world ALGO_SHA256D)"
    by (simp add: publish_ok_iff zero_work_def)
  show "w_generation witness_published = 1"
    using ok by (simp add: witness_published_def publish_generation should_restart_def zero_runtime_def)
  with publish_success [OF ok, where clean = True]
  show "rs_work_ready (w_runtime witness_published)"
    "rs_current_work (w_runtime witness_published) = zero_work\<lparr>work_restart_generation := 1\<rparr>"
    "rs_work_updates_total (w_runtime witness_published) = 1"
    by (simp_all add: witness_published_def miner_work_copy_def zero_work_def zero_runtime_def)
qed

section \<open>Share totals\<close>

definition share_results :: "(int \<times> bool) list \<Rightarrow> 'j world \<Rightarrow> 'j world" where
  "share_results evs w = fold (\<lambda>(pooln, accepted). stratum_update_share_stats pooln accepted) evs w"

lemma share_stats_frame [frame_simps]:
  "w_devfee (stratum_update_share_stats pooln accepted w) = w_devfee w"
  "w_num_pools (stratum_update_share_stats pooln accepted w) = w_num_pools w"
  "length (w_pools (stratum_update_share_stats pooln accepted w)) = length (w_pools w)"
  by (simp_all add: stratum_update_share_stats_def Let_def)

lemma share_stats_total:
  "rs_share_accepted_total (w_runtime (stratum_update_share_stats pooln accepted w)) =
     rs_share_accepted_total (w_runtime w) +
     (if accepted \<and> \<not> devfee_is_dev_pool w pooln then 1 else 0)"
  "rs_share_rejected_total (w_runtime (stratum_update_share_stats pooln accepted w)) =
     rs_share_rejected_total (w_runtime w) +
     (if \<not> accepted \<and> \<not> devfee_is_dev_pool w pooln then 1 else 0)"
  by (simp_all add: stratum_update_share_stats_def devfee_is_dev_pool_def Let_def)

lemma share_stats_pool:
  assumes "i < w_num_pools w" "w_num_pools w \<le> length (w_pools w)"
  shows "pool_accepted_count (pool_at (stratum_update_share_stats pooln accepted w) i) =
           pool_accepted_count (pool_at w i) + (if pooln = int i \<and> accepted then 1 else 0)"
    and "pool_rejected_count (pool_at (stratum_update_share_stats pooln accepted w) i) =
           pool_rejected_count (pool_at w i) + (if pooln = int i \<and> \<not> accepted then 1 else 0)"
  using assms
  by (auto simp: stratum_update_share_stats_def Let_def pool_at_def upd_pool_def nth_list_update)

text \<open>
  Share accounting is exact and keeps the dev fee out of the user's totals: after any sequence
  of share results each pool's counters grew by exactly its own results, and the user-facing
  totals grew by exactly the results of pools other than the dev-fee pool (all modulo \<open>2 ^ 32\<close>,
  the width of the counters).
\<close>

lemma share_accounting:
  assumes "i < w_num_pools w" "w_num_pools w \<le> length (w_pools w)"
  shows "pool_accepted_count (pool_at (share_results evs w) i) = pool_accepted_count (pool_at w i) +
           of_nat (length (filter (\<lambda>(p, a). p = int i \<and> a) evs)) \<and>
         pool_rejected_count (pool_at (share_results evs w) i) = pool_rejected_count (pool_at w i) +
           of_nat (length (filter (\<lambda>(p, a). p = int i \<and> \<not> a) evs)) \<and>
         rs_share_accepted_total (w_runtime (share_results evs w)) =
           rs_share_accepted_total (w_runtime w) +
           of_nat (length (filter (\<lambda>(p, a). a \<and> \<not> devfee_is_dev_pool w p) evs)) \<and>
         rs_share_rejected_total (w_runtime (share_results evs w)) =
           rs_share_rejected_total (w_runtime w) +
           of_nat (length (filter (\<lambda>(p, a). \<not> a \<and> \<not> devfee_is_dev_pool w p) evs))"
  using assms
proof (induction evs arbitrary: w)
  case (Cons e evs)
  obtain p a where e: "e = (p, a)" by (cases e)
  have dev: "devfee_is_dev_pool (stratum_update_share_stats p a w) = devfee_is_dev_pool w"
    by (simp add: devfee_is_dev_pool_def fun_eq_iff frame_simps)
  show ?case
    using Cons.IH [of "stratum_update_share_stats p a w"] Cons.prems
      share_stats_pool [OF Cons.prems, of p a]
    by (simp add: e share_results_def frame_simps dev share_stats_total algebra_simps)
qed (simp add: share_results_def)

end
