(* ===== verification/Config.thy ===== *)
theory Config
  imports Json Runtime
begin

text \<open>
  The configuration of \<open>src/config.cpp\<close>: the command-line options and the JSON file, the pool table they
  fill, and the checks at the end of \<open>parse_cmdline\<close>. \<open>exit\<close> ends the process, so a computation returns
  either the exit status (\<open>Inl\<close>) or its result (\<open>Inr\<close>). \<open>getopt_long\<close> of the C library is an argument
  that gives the keys and arguments found in an argument vector; the JSON library, the file system,
  \<open>inet_pton\<close> and the processor count are arguments too. Log output is left out.
\<close>

section \<open>State\<close>

definition POOL_NAME_FIELD_LEN :: nat where "POOL_NAME_FIELD_LEN = 64"
definition POOL_URL_FIELD_LEN :: nat where "POOL_URL_FIELD_LEN = 512"
definition POOL_SHORT_URL_FIELD_LEN :: nat where "POOL_SHORT_URL_FIELD_LEN = 64"
definition POOL_USER_FIELD_LEN :: nat where "POOL_USER_FIELD_LEN = 192"
definition POOL_PASS_FIELD_LEN :: nat where "POOL_PASS_FIELD_LEN = 384"

lemmas field_sizes = POOL_NAME_FIELD_LEN_def POOL_URL_FIELD_LEN_def POOL_SHORT_URL_FIELD_LEN_def
  POOL_USER_FIELD_LEN_def POOL_PASS_FIELD_LEN_def

record pool_option_defaults =
  pd_url :: string
  pd_user :: string
  pd_pass :: string
  pd_url_set :: bool
  pd_user_set :: bool
  pd_pass_set :: bool

text \<open>The globals of \<open>config.cpp\<close>; the pool table, the current pool and the shared options are in the world.\<close>

record 'j config =
  cf_world :: "'j world"
  cf_debug :: bool
  cf_quiet :: bool
  cf_protocol :: bool
  cf_api_bind :: "string option"
  cf_api_port :: int
  cf_api_port_explicit :: bool
  cf_statsavg :: int
  cf_priority :: int
  cf_affinity_set :: bool
  cf_affinity_mask :: nat
  cf_defaults :: pool_option_defaults
  cf_uses_pool_array :: bool
  cf_cli_phase :: bool
  cf_cli_url_seen :: bool
  cf_user_set :: "bool list"
  cf_pass_set :: "bool list"

type_synonym 'a exits = "int + 'a"

definition exit_with_usage :: "int \<Rightarrow> 'a exits" where
  "exit_with_usage status = Inl status"

definition then_run :: "'a exits \<Rightarrow> ('a \<Rightarrow> 'b exits) \<Rightarrow> 'b exits" where
  "then_run m f = (case m of Inl status \<Rightarrow> Inl status | Inr x \<Rightarrow> f x)"

definition upd_world :: "('j world \<Rightarrow> 'j world) \<Rightarrow> 'j config \<Rightarrow> 'j config" where
  "upd_world f c = c\<lparr>cf_world := f (cf_world c)\<rparr>"

definition upd_opts :: "(miner_options \<Rightarrow> miner_options) \<Rightarrow> 'j config \<Rightarrow> 'j config" where
  "upd_opts f = upd_world (\<lambda>w. w\<lparr>w_opts := f (w_opts w)\<rparr>)"

text \<open>The initial values of the globals.\<close>

definition default_options :: miner_options where
  "default_options = \<lparr>opt_algo = ALGO_VERUS, opt_benchmark = False, opt_nicehash = False, opt_n_threads = 0,
     opt_timeout = 300, opt_retries = - 1, opt_retry_pause = 30\<rparr>"

definition zero_defaults :: pool_option_defaults where
  "zero_defaults = \<lparr>pd_url = [], pd_user = [], pd_pass = [], pd_url_set = False, pd_user_set = False, pd_pass_set = False\<rparr>"

definition initial_config :: "'j config" where
  "initial_config = \<lparr>cf_world = initial_world default_options, cf_debug = False, cf_quiet = False, cf_protocol = False,
     cf_api_bind = None, cf_api_port = 4068, cf_api_port_explicit = False, cf_statsavg = 30, cf_priority = 0,
     cf_affinity_set = False, cf_affinity_mask = 0, cf_defaults = zero_defaults, cf_uses_pool_array = False,
     cf_cli_phase = False, cf_cli_url_seen = False, cf_user_set = replicate MAX_POOLS False,
     cf_pass_set = replicate MAX_POOLS False\<rparr>"

section \<open>Option values\<close>

definition normalize_thread_count :: "int \<Rightarrow> nat" where
  "normalize_thread_count requested =
     (if requested < 1 then 1 else if int MAX_THREADS < requested then MAX_THREADS else nat requested)"

definition parse_cli_int_option :: "string \<Rightarrow> int exits" where
  "parse_cli_int_option arg =
     (case strtol arg of
        (parsed, end_ptr, overflow) \<Rightarrow>
          if overflow \<or> end_ptr = arg \<or> end_ptr \<noteq> [] \<or> parsed < - (2 ^ 31) \<or> 2 ^ 31 - 1 < parsed
          then exit_with_usage 1 else Inr parsed)"

definition copy_pool_string :: "nat \<Rightarrow> string option \<Rightarrow> string \<Rightarrow> string" where
  "copy_pool_string dst_size src dst =
     (if dst_size = 0 then dst else case src of None \<Rightarrow> [] | Some s \<Rightarrow> snprintf_s dst_size s)"

definition clear_pool_option_defaults :: "'j config \<Rightarrow> 'j config" where
  "clear_pool_option_defaults c = c\<lparr>cf_defaults := zero_defaults\<rparr>"

definition set_pool_default_url :: "string option \<Rightarrow> 'j config \<Rightarrow> 'j config" where
  "set_pool_default_url v c =
     (let d = cf_defaults c
      in c\<lparr>cf_defaults := d\<lparr>pd_url := copy_pool_string POOL_URL_FIELD_LEN v (pd_url d),
                          pd_url_set := (case v of None \<Rightarrow> False | Some s \<Rightarrow> s \<noteq> [])\<rparr>\<rparr>)"

definition set_pool_default_user :: "string option \<Rightarrow> 'j config \<Rightarrow> 'j config" where
  "set_pool_default_user v c =
     (let d = cf_defaults c
      in c\<lparr>cf_defaults := d\<lparr>pd_user := copy_pool_string POOL_USER_FIELD_LEN v (pd_user d), pd_user_set := v \<noteq> None\<rparr>\<rparr>)"

definition set_pool_default_user_span :: "string option \<Rightarrow> nat \<Rightarrow> 'j config \<Rightarrow> 'j config" where
  "set_pool_default_user_span v value_len c =
     (case v of
        None \<Rightarrow> set_pool_default_user None c
      | Some s \<Rightarrow>
          (let copy_len = (if POOL_USER_FIELD_LEN \<le> value_len then POOL_USER_FIELD_LEN - 1 else value_len)
           in c\<lparr>cf_defaults := (cf_defaults c)\<lparr>pd_user := take copy_len s, pd_user_set := True\<rparr>\<rparr>))"

definition set_pool_default_pass :: "string option \<Rightarrow> 'j config \<Rightarrow> 'j config" where
  "set_pool_default_pass v c =
     (let d = cf_defaults c
      in c\<lparr>cf_defaults := d\<lparr>pd_pass := copy_pool_string POOL_PASS_FIELD_LEN (Some (case v of None \<Rightarrow> [] | Some s \<Rightarrow> s)) (pd_pass d),
                          pd_pass_set := v \<noteq> None\<rparr>\<rparr>)"

definition reset_pool_arrays :: "'j config \<Rightarrow> 'j config" where
  "reset_pool_arrays c =
     upd_world (\<lambda>w. w\<lparr>w_pools := replicate MAX_POOLS zero_pool\<rparr>)
       (c\<lparr>cf_user_set := replicate MAX_POOLS False, cf_pass_set := replicate MAX_POOLS False\<rparr>)"

definition clear_configured_pool_set :: "'j config \<Rightarrow> 'j config" where
  "clear_configured_pool_set c =
     upd_world (\<lambda>w. miner_set_current_pool_index 0 (w\<lparr>w_num_pools := 0\<rparr>)) ((reset_pool_arrays c)\<lparr>cf_uses_pool_array := False\<rparr>)"

definition derive_pool_short_url :: "int \<Rightarrow> 'j config \<Rightarrow> 'j config" where
  "derive_pool_short_url pool_index c =
     (if pool_index < 0 \<or> int MAX_POOLS \<le> pool_index then c
      else upd_world (upd_pool (nat pool_index) (\<lambda>q.
             let url = pool_url q;
                 short_url = (case strstr url ''://'' of Some s \<Rightarrow> drop 3 s | None \<Rightarrow> url)
             in q\<lparr>pool_short_url := copy_pool_string POOL_SHORT_URL_FIELD_LEN (Some short_url) (pool_short_url q)\<rparr>)) c)"

section \<open>Pools\<close>

definition apply_pool_default_credentials :: "int \<Rightarrow> bool \<Rightarrow> bool \<Rightarrow> bool \<Rightarrow> 'j config \<Rightarrow> 'j config" where
  "apply_pool_default_credentials pool_index update_user update_pass only_missing c =
     (if pool_index < 0 \<or> int MAX_POOLS \<le> pool_index then c
      else let p = nat pool_index; d = cf_defaults c;
               c1 = (if update_user \<and> pd_user_set d \<and> (\<not> only_missing \<or> \<not> cf_user_set c ! p)
                     then upd_world (upd_pool p (\<lambda>q. q\<lparr>pool_user := copy_pool_string POOL_USER_FIELD_LEN (Some (pd_user d)) (pool_user q)\<rparr>)) c
                     else c)
           in if update_pass \<and> pd_pass_set d \<and> (\<not> only_missing \<or> \<not> cf_pass_set c ! p)
              then upd_world (upd_pool p (\<lambda>q. q\<lparr>pool_pass := copy_pool_string POOL_PASS_FIELD_LEN (Some (pd_pass d)) (pool_pass q)\<rparr>)) c1
              else c1)"

definition sync_configured_pool_defaults :: "bool \<Rightarrow> bool \<Rightarrow> 'j config \<Rightarrow> 'j config" where
  "sync_configured_pool_defaults update_user update_pass c =
     foldl (\<lambda>c p. if pool_configured (pool_at (cf_world c) p)
                  then apply_pool_default_credentials (int p) update_user update_pass False c else c)
       c [0..<w_num_pools (cf_world c)]"

definition sync_configured_pool_timeouts :: "int \<Rightarrow> 'j config \<Rightarrow> 'j config" where
  "sync_configured_pool_timeouts timeout c =
     foldl (\<lambda>c p. if \<not> pool_configured (pool_at (cf_world c) p) then c
                  else upd_world (upd_pool p (\<lambda>q. q\<lparr>pool_timeout := timeout\<rparr>)) c)
       c [0..<w_num_pools (cf_world c)]"

definition register_pool_index :: "int \<Rightarrow> 'j config \<Rightarrow> 'j config" where
  "register_pool_index pool_index c =
     (if pool_index < 0 \<or> int MAX_USER_POOLS \<le> pool_index then c
      else upd_world (\<lambda>w. let w1 = upd_pool (nat pool_index) (\<lambda>q. q\<lparr>pool_configured := True\<rparr>) w
                         in if int (w_num_pools w1) < pool_index + 1 then w1\<lparr>w_num_pools := nat pool_index + 1\<rparr> else w1) c)"

definition parse_json_boolish :: "'j jansson \<Rightarrow> 'j option \<Rightarrow> bool" where
  "parse_json_boolish J v =
     (if v = None then False
      else if json_is_true J v then True
      else if json_is_integer J v then json_integer_value J v \<noteq> 0
      else False)"

text \<open>\<open>(int)raw\<close> keeps the low 32 bits.\<close>

definition parse_pool_timeout_json :: "'j jansson \<Rightarrow> 'j option \<Rightarrow> int" where
  "parse_pool_timeout_json J v =
     (if v = None \<or> \<not> json_is_integer J v then 0
      else let raw = json_integer_value J v
           in if 2 ^ 31 - 1 < raw then 0
              else let parsed = c_int raw in if 0 < parsed then parsed else 0)"

section \<open>The affinity mask\<close>

definition hex_digit_value :: "char \<Rightarrow> nat option" where
  "hex_digit_value c =
     (let k = char_code c
      in if 48 \<le> k \<and> k \<le> 57 then Some (k - 48)
         else if 97 \<le> k \<and> k \<le> 102 then Some (k - 87)
         else if 65 \<le> k \<and> k \<le> 70 then Some (k - 55) else None)"

definition digit_in :: "nat \<Rightarrow> char \<Rightarrow> bool" where
  "digit_in radix c \<longleftrightarrow> (case hex_digit_value c of None \<Rightarrow> False | Some d \<Rightarrow> d < radix)"

text \<open>
  \<open>strtoul\<close> with the bases the code passes (0 and 16): the value, the rest of the string, and whether
  \<open>errno\<close> was set.
\<close>

definition strtoul_base :: "nat \<Rightarrow> string \<Rightarrow> nat \<times> string \<times> bool" where
  "strtoul_base base s =
     (let t = dropWhile is_space s;
          neg = (t \<noteq> [] \<and> hd t = CHR ''-'');
          u = (if t \<noteq> [] \<and> (hd t = CHR ''-'' \<or> hd t = CHR ''+'') then tl t else t);
          hex = ((base = 16 \<or> base = 0) \<and> strncasecmp_eq u ''0x'' 2 \<and> 2 < length u \<and> digit_in 16 (u ! 2));
          radix = (if base \<noteq> 0 then base else if hex then 16 else if u \<noteq> [] \<and> hd u = CHR ''0'' then 8 else 10);
          v = (if hex then drop 2 u else u);
          ds = takeWhile (digit_in radix) v;
          n = foldl (\<lambda>n c. radix * n + the (hex_digit_value c)) 0 ds
      in if ds = [] then (0, s, False)
         else if ulong_max < n then (ulong_max, dropWhile (digit_in radix) v, True)
         else (if neg then (2 ^ 64 - n) mod 2 ^ 64 else n, dropWhile (digit_in radix) v, False))"

definition affinity_mask_has_hex_alpha :: "string \<Rightarrow> bool" where
  "affinity_mask_has_hex_alpha arg \<longleftrightarrow> list_ex (\<lambda>c. digit_in 16 c \<and> \<not> is_digit c) arg"

definition parse_affinity_mask_argument :: "string \<Rightarrow> nat exits" where
  "parse_affinity_mask_argument arg =
     (if arg = [] then exit_with_usage 1
      else if arg = ''-1'' \<or> strcasecmp_eq arg ''all'' then Inr ulong_max
      else let base = (if strncasecmp_eq arg ''0x'' 2 \<or> affinity_mask_has_hex_alpha arg then 16 else 0)
           in case strtoul_base base arg of
                (parsed, end_ptr, err) \<Rightarrow> if err \<or> end_ptr \<noteq> [] then exit_with_usage 1 else Inr parsed)"

section \<open>Algorithm names and the API address\<close>

text \<open>The build has RandomX (\<open>PRIMO_RANDOMX\<close> defaults to on).\<close>

definition parse_algorithm_name :: "string \<Rightarrow> algo_t option" where
  "parse_algorithm_name name =
     (if strcasecmp_eq name ''verus'' then Some ALGO_VERUS
      else if strcasecmp_eq name ''sha256d'' \<or> strcasecmp_eq name ''sha256'' \<or> strcasecmp_eq name ''btc'' \<or> strcasecmp_eq name ''bitcoin''
      then Some ALGO_SHA256D
      else if strcasecmp_eq name ''scrypt'' \<or> strcasecmp_eq name ''ltc'' \<or> strcasecmp_eq name ''litecoin'' then Some ALGO_SCRYPT
      else if strcasecmp_eq name ''randomx'' \<or> strcasecmp_eq name ''rx'' \<or> strcasecmp_eq name ''rx/0'' \<or> strcasecmp_eq name ''xmr'' \<or>
        strcasecmp_eq name ''monero'' then Some ALGO_RANDOMX
      else None)"

definition INET_ADDRSTRLEN :: nat where "INET_ADDRSTRLEN = 16"

definition validate_ipv4_address :: "(string \<Rightarrow> bool) \<Rightarrow> string \<Rightarrow> bool" where
  "validate_ipv4_address inet_pton address \<longleftrightarrow> address \<noteq> [] \<and> inet_pton address"

definition parse_api_port_value :: "string \<Rightarrow> int option" where
  "parse_api_port_value arg =
     (if arg = [] then None
      else case strtol arg of
        (parsed, end_ptr, overflow) \<Rightarrow>
          if overflow \<or> end_ptr \<noteq> [] \<or> parsed < 0 \<or> 65535 < parsed then None else Some parsed)"

definition api_bind_argument_is_port_only :: "string \<Rightarrow> bool" where
  "api_bind_argument_is_port_only arg \<longleftrightarrow> arg \<noteq> [] \<and> list_all is_digit arg"

definition parse_api_bind_argument :: "(string \<Rightarrow> bool) \<Rightarrow> string \<Rightarrow> 'j config \<Rightarrow> 'j config exits" where
  "parse_api_bind_argument inet_pton arg c =
     (if arg = [] then exit_with_usage 1
      else if CHR '':'' \<in> set arg then
        let host = takeWhile (\<lambda>x. x \<noteq> CHR '':'') arg; port = tl (dropWhile (\<lambda>x. x \<noteq> CHR '':'') arg)
        in if host = [] \<or> port = [] \<or> CHR '':'' \<in> set port then exit_with_usage 1
           else if INET_ADDRSTRLEN \<le> length host then exit_with_usage 1
           else if \<not> validate_ipv4_address inet_pton host then exit_with_usage 1
           else (case parse_api_port_value port of
                   None \<Rightarrow> exit_with_usage 1
                 | Some p \<Rightarrow> Inr (c\<lparr>cf_api_bind := Some host, cf_api_port := p, cf_api_port_explicit := True\<rparr>))
      else if api_bind_argument_is_port_only arg then
        (case parse_api_port_value arg of
           None \<Rightarrow> exit_with_usage 1
         | Some p \<Rightarrow> Inr (c\<lparr>cf_api_port := p, cf_api_port_explicit := True\<rparr>))
      else if validate_ipv4_address inet_pton arg then Inr (c\<lparr>cf_api_bind := Some arg\<rparr>)
      else exit_with_usage 1)"

section \<open>Options\<close>

text \<open>The keys of the option table: a short option or a value of \<open>cli_option_id\<close>.\<close>

datatype cli_option_id =
    Key char
  | CLI_OPT_BENCHMARK
  | CLI_OPT_CPU_AFFINITY
  | CLI_OPT_CPU_PRIORITY
  | CLI_OPT_NICEHASH

definition g_cli_options :: "(string \<times> bool \<times> cli_option_id) list" where
  "g_cli_options = [
     (''algo'', True, Key CHR ''a''), (''api-bind'', True, Key CHR ''b''), (''benchmark'', False, CLI_OPT_BENCHMARK),
     (''config'', True, Key CHR ''c''), (''cpu-affinity'', True, CLI_OPT_CPU_AFFINITY),
     (''cpu-priority'', True, CLI_OPT_CPU_PRIORITY), (''debug'', False, Key CHR ''D''), (''help'', False, Key CHR ''h''),
     (''nicehash'', False, CLI_OPT_NICEHASH), (''pass'', True, Key CHR ''p''), (''protocol-dump'', False, Key CHR ''P''),
     (''quiet'', False, Key CHR ''q''), (''retries'', True, Key CHR ''r''), (''retry-pause'', True, Key CHR ''R''),
     (''statsavg'', True, Key CHR ''N''), (''threads'', True, Key CHR ''t''), (''timeout'', True, Key CHR ''T''),
     (''url'', True, Key CHR ''o''), (''user'', True, Key CHR ''u''), (''userpass'', True, Key CHR ''O''),
     (''version'', False, Key CHR ''V'')]"

definition apply_url_option :: "string \<Rightarrow> 'j config \<Rightarrow> 'j config" where
  "apply_url_option arg c =
     (let c1 = (if cf_uses_pool_array c then clear_configured_pool_set c else c);
          c2 = (if cf_cli_phase c1 then c1\<lparr>cf_cli_url_seen := True\<rparr> else c1);
          c3 = set_pool_default_url (Some arg) c2;
          cur = w_current_pool (cf_world c3)
      in if 0 \<le> cur \<and> cur < int MAX_POOLS
         then apply_pool_default_credentials cur True True False
                (derive_pool_short_url cur
                  (upd_world (upd_pool (nat cur) (\<lambda>q. q\<lparr>pool_url := copy_pool_string POOL_URL_FIELD_LEN (Some arg) (pool_url q)\<rparr>)) c3))
         else c3)"

definition apply_userpass_option :: "string \<Rightarrow> 'j config \<Rightarrow> 'j config exits" where
  "apply_userpass_option arg c =
     (if CHR '':'' \<notin> set arg then exit_with_usage 1
      else let user_len = length (takeWhile (\<lambda>x. x \<noteq> CHR '':'') arg)
           in Inr (sync_configured_pool_defaults True True
                (set_pool_default_pass (Some (drop (Suc user_len) arg)) (set_pool_default_user_span (Some arg) user_len c))))"

text \<open>\<open>if (value < lo) value = lo;\<close> and \<open>if (value > hi) value = hi;\<close>\<close>

definition at_least :: "int \<Rightarrow> int \<Rightarrow> int" where
  "at_least lo v = (if v < lo then lo else v)"

definition at_most :: "int \<Rightarrow> int \<Rightarrow> int" where
  "at_most hi v = (if hi < v then hi else v)"

definition apply_option :: "(string \<Rightarrow> bool) \<Rightarrow> cli_option_id \<Rightarrow> string \<Rightarrow> 'j config \<Rightarrow> 'j config exits" where
  "apply_option inet_pton key arg c =
     (case key of
        Key k \<Rightarrow>
          if k = CHR ''a'' then
            (case parse_algorithm_name arg of
               None \<Rightarrow> exit_with_usage 1
             | Some parsed_algo \<Rightarrow> Inr (upd_opts (\<lambda>opts. opts\<lparr>opt_algo := parsed_algo\<rparr>) c))
          else if k = CHR ''b'' then parse_api_bind_argument inet_pton arg c
          else if k = CHR ''D'' then Inr (c\<lparr>cf_debug := True\<rparr>)
          else if k = CHR ''N'' then
            then_run (parse_cli_int_option arg) (\<lambda>v. Inr (c\<lparr>cf_statsavg := at_least 1 v\<rparr>))
          else if k = CHR ''o'' then Inr (apply_url_option arg c)
          else if k = CHR ''O'' then apply_userpass_option arg c
          else if k = CHR ''p'' then Inr (sync_configured_pool_defaults False True (set_pool_default_pass (Some arg) c))
          else if k = CHR ''P'' then Inr (c\<lparr>cf_protocol := True\<rparr>)
          else if k = CHR ''q'' then Inr (c\<lparr>cf_quiet := True\<rparr>)
          else if k = CHR ''r'' then
            then_run (parse_cli_int_option arg) (\<lambda>v. Inr (upd_opts (\<lambda>opts. opts\<lparr>opt_retries := at_least (- 1) v\<rparr>) c))
          else if k = CHR ''R'' then
            then_run (parse_cli_int_option arg) (\<lambda>v. Inr (upd_opts (\<lambda>opts. opts\<lparr>opt_retry_pause := at_least 1 v\<rparr>) c))
          else if k = CHR ''t'' then
            then_run (parse_cli_int_option arg) (\<lambda>v.
              if v < 1 \<or> int MAX_THREADS < v then exit_with_usage 1
              else Inr (upd_opts (\<lambda>opts. opts\<lparr>opt_n_threads := nat v\<rparr>) c))
          else if k = CHR ''T'' then
            then_run (parse_cli_int_option arg) (\<lambda>v.
              let v' = at_least 1 v
              in Inr (sync_configured_pool_timeouts v' (upd_opts (\<lambda>opts. opts\<lparr>opt_timeout := v'\<rparr>) c)))
          else if k = CHR ''u'' then Inr (sync_configured_pool_defaults True False (set_pool_default_user (Some arg) c))
          else if k = CHR ''V'' then Inl 0
          else if k = CHR ''h'' then exit_with_usage 0
          else exit_with_usage 1
      | CLI_OPT_BENCHMARK \<Rightarrow> Inr (upd_opts (\<lambda>opts. opts\<lparr>opt_benchmark := True\<rparr>) c)
      | CLI_OPT_NICEHASH \<Rightarrow> Inr (upd_opts (\<lambda>opts. opts\<lparr>opt_nicehash := True\<rparr>) c)
      | CLI_OPT_CPU_AFFINITY \<Rightarrow>
          then_run (parse_affinity_mask_argument arg) (\<lambda>m. Inr (c\<lparr>cf_affinity_mask := m, cf_affinity_set := True\<rparr>))
      | CLI_OPT_CPU_PRIORITY \<Rightarrow>
          then_run (parse_cli_int_option arg) (\<lambda>v. Inr (c\<lparr>cf_priority := at_most 5 (at_least 0 v)\<rparr>)))"

section \<open>The configuration file\<close>

definition apply_configured_pool :: "'j jansson \<Rightarrow> 'j option \<Rightarrow> nat \<Rightarrow> 'j config \<Rightarrow> 'j config" where
  "apply_configured_pool J pool_config pool_index c =
     (let field = json_object_get J pool_config;
          str = (\<lambda>v. if v \<noteq> None \<and> json_is_string J v then json_string_value J v else None);
          url_value = str (field ''url'')
      in if MAX_USER_POOLS \<le> pool_index then c
         else case url_value of
                None \<Rightarrow> c
              | Some [] \<Rightarrow> c
              | Some url \<Rightarrow>
                  (let set_pool = (\<lambda>f. upd_world (upd_pool pool_index f));
                       is_str = (\<lambda>v. v \<noteq> None \<and> json_is_string J v);
                       c1 = (if is_str (field ''name'')
                             then set_pool (\<lambda>q. q\<lparr>pool_name := copy_pool_string POOL_NAME_FIELD_LEN (str (field ''name'')) (pool_name q)\<rparr>) c
                             else c);
                       c2 = derive_pool_short_url (int pool_index)
                              (set_pool (\<lambda>q. q\<lparr>pool_url := copy_pool_string POOL_URL_FIELD_LEN (Some url) (pool_url q)\<rparr>) c1);
                       c3 = c2\<lparr>cf_user_set := (cf_user_set c2)[pool_index := is_str (field ''user'')],
                               cf_pass_set := (cf_pass_set c2)[pool_index := is_str (field ''pass'')]\<rparr>;
                       c4 = (if is_str (field ''user'')
                             then set_pool (\<lambda>q. q\<lparr>pool_user := copy_pool_string POOL_USER_FIELD_LEN (str (field ''user'')) (pool_user q)\<rparr>) c3
                             else c3);
                       c5 = (if is_str (field ''pass'')
                             then set_pool (\<lambda>q. q\<lparr>pool_pass := copy_pool_string POOL_PASS_FIELD_LEN (str (field ''pass'')) (pool_pass q)\<rparr>) c4
                             else c4);
                       c6 = apply_pool_default_credentials (int pool_index) True True True c5;
                       c7 = set_pool (\<lambda>q. q\<lparr>pool_disabled := parse_json_boolish J (field ''disabled''),
                                             pool_timeout := parse_pool_timeout_json J (field ''timeout'')\<rparr>) c6
                   in register_pool_index (int pool_index) c7))"

text \<open>\<open>snprintf(buf, 16, "%d", ...)\<close>; eleven characters suffice.\<close>

definition show_int :: "int \<Rightarrow> string" where
  "show_int i = (if i < 0 then CHR ''-'' # show_nat (nat (- i)) else show_nat (nat i))"

definition apply_json_scalar_option ::
  "(string \<Rightarrow> bool) \<Rightarrow> 'j jansson \<Rightarrow> string \<times> bool \<times> cli_option_id \<Rightarrow> 'j option \<Rightarrow> 'j config \<Rightarrow> 'j config exits" where
  "apply_json_scalar_option inet_pton J = (\<lambda>(name, has_arg, key) v c.
     if has_arg \<and> json_is_string J v
     then apply_option inet_pton key (case json_string_value J v of Some s \<Rightarrow> s | None \<Rightarrow> []) c
     else if has_arg \<and> json_is_integer J v then
       let raw = json_integer_value J v
       in if raw < - (2 ^ 31) \<or> 2 ^ 31 - 1 < raw then exit_with_usage 1
          else apply_option inet_pton key (snprintf_s 16 (show_int raw)) c
     else if \<not> has_arg \<and> json_is_true J v then apply_option inet_pton key [] c
     else Inr c)"

fun apply_scalar_options ::
  "(string \<Rightarrow> bool) \<Rightarrow> 'j jansson \<Rightarrow> 'j option \<Rightarrow> (string \<times> bool \<times> cli_option_id) list \<Rightarrow> 'j config \<Rightarrow> 'j config exits" where
  "apply_scalar_options inet_pton J config [] c = Inr c"
| "apply_scalar_options inet_pton J config (option # options) c =
     (if fst option = ''config'' then apply_scalar_options inet_pton J config options c
      else case json_object_get J config (fst option) of
             None \<Rightarrow> apply_scalar_options inet_pton J config options c
           | Some v \<Rightarrow> then_run (apply_json_scalar_option inet_pton J option (Some v) c)
                        (apply_scalar_options inet_pton J config options))"

definition apply_config_object :: "(string \<Rightarrow> bool) \<Rightarrow> 'j jansson \<Rightarrow> 'j option \<Rightarrow> 'j config \<Rightarrow> 'j config exits" where
  "apply_config_object inet_pton J config c =
     (if \<not> json_is_object J config then Inr c
      else then_run (apply_scalar_options inet_pton J config g_cli_options c) (\<lambda>c1.
        let pools_arr = json_object_get J config ''pools''
        in if pools_arr \<noteq> None \<and> json_is_array J pools_arr then
             let pool_count = json_array_size J pools_arr;
                 c2 = (if 0 < pool_count then c1\<lparr>cf_uses_pool_array := True\<rparr> else c1)
             in Inr (foldl (\<lambda>c i. let pool_config = json_array_get J pools_arr i
                                  in if json_is_object J pool_config then apply_configured_pool J pool_config i c else c)
                      c2 [0..<min pool_count MAX_USER_POOLS])
           else Inr c1))"

section \<open>The command line\<close>

definition normalize_legacy_arguments :: "string list \<Rightarrow> string list" where
  "normalize_legacy_arguments argv =
     (case argv of [] \<Rightarrow> [] | prog # args \<Rightarrow> prog # map (\<lambda>a. if a = ''-benchmark'' then ''--benchmark'' else a) args)"

text \<open>Whether the process will exit at once, and the path of the configuration file.\<close>

fun preparse_cmdline :: "(cli_option_id \<times> string) list \<Rightarrow> string option \<Rightarrow> bool \<times> string option" where
  "preparse_cmdline [] config_path = (False, config_path)"
| "preparse_cmdline ((key, optarg) # opts) config_path =
     (if key = Key CHR ''c'' \<and> optarg \<noteq> [] then preparse_cmdline opts (Some optarg)
      else if key = Key CHR ''h'' \<or> key = Key CHR ''V'' then (True, config_path)
      else preparse_cmdline opts config_path)"

definition load_config_file :: "'j jansson \<Rightarrow> 'j option \<Rightarrow> 'j exits" where
  "load_config_file J loaded =
     (case loaded of None \<Rightarrow> Inl 1 | Some j \<Rightarrow> if json_is_object J (Some j) then Inr j else Inl 1)"

fun find_first_usable_pool_index :: "'j world \<Rightarrow> nat list \<Rightarrow> int" where
  "find_first_usable_pool_index w [] = - 1"
| "find_first_usable_pool_index w (p # ps) = (if miner_pool_is_usable w (int p) then int p else find_first_usable_pool_index w ps)"

definition pool_init_defaults :: "'j config \<Rightarrow> 'j config" where
  "pool_init_defaults c = clear_pool_option_defaults (clear_configured_pool_set c)"

definition ensure_cli_pool_is_registered :: "'j config \<Rightarrow> 'j config" where
  "ensure_cli_pool_is_registered c =
     (if w_num_pools (cf_world c) \<noteq> 0 \<or> \<not> pd_url_set (cf_defaults c) then c
      else register_pool_index 0
             (apply_pool_default_credentials 0 True True False
               (derive_pool_short_url 0
                 (upd_world (upd_pool 0 (\<lambda>q. q\<lparr>pool_url := copy_pool_string POOL_URL_FIELD_LEN (Some (pd_url (cf_defaults c))) (pool_url q)\<rparr>)) c))))"

fun apply_cli_options :: "(string \<Rightarrow> bool) \<Rightarrow> (cli_option_id \<times> string) list \<Rightarrow> 'j config \<Rightarrow> 'j config exits" where
  "apply_cli_options inet_pton [] c = Inr c"
| "apply_cli_options inet_pton ((key, optarg) # opts) c =
     (if key = Key CHR ''c'' then apply_cli_options inet_pton opts c
      else then_run (apply_option inet_pton key optarg c) (apply_cli_options inet_pton opts))"

text \<open>
  \<open>read_file\<close> is \<open>json_load_file\<close>, \<open>default_readable\<close> the answer of \<open>access\<close> for \<open>config.json\<close>, and \<open>nprocs\<close>
  the answer of \<open>sysconf\<close>.
\<close>

definition load_configured ::
  "(string \<Rightarrow> bool) \<Rightarrow> 'j jansson \<Rightarrow> (string \<Rightarrow> 'j option) \<Rightarrow> bool \<Rightarrow> (cli_option_id \<times> string) list \<Rightarrow> 'j config \<Rightarrow> 'j config exits" where
  "load_configured inet_pton J read_file default_readable opts c =
     (case preparse_cmdline opts None of
        (True, _) \<Rightarrow> Inr c
      | (False, Some path) \<Rightarrow> then_run (load_config_file J (read_file path)) (\<lambda>j. apply_config_object inet_pton J (Some j) c)
      | (False, None) \<Rightarrow>
          if default_readable
          then then_run (load_config_file J (read_file ''config.json'')) (\<lambda>j. apply_config_object inet_pton J (Some j) c)
          else Inr c)"

definition finish_cmdline :: "int \<Rightarrow> 'j config \<Rightarrow> 'j config exits" where
  "finish_cmdline nprocs c =
     (let n = opt_n_threads (w_opts (cf_world c));
          c1 = upd_opts (\<lambda>opts. opts\<lparr>opt_n_threads := normalize_thread_count (if n = 0 then nprocs else int n)\<rparr>) c;
          c2 = ensure_cli_pool_is_registered c1
      in if opt_benchmark (w_opts (cf_world c2)) then Inr c2
         else if w_num_pools (cf_world c2) = 0 then exit_with_usage 1
         else let key = find_first_usable_pool_index (cf_world c2) [0..<w_num_pools (cf_world c2)]
              in if key < 0 then exit_with_usage 1
                 else Inr (upd_world (miner_set_current_pool_index key) c2))"

definition parse_cmdline ::
  "(string list \<Rightarrow> (cli_option_id \<times> string) list) \<Rightarrow> (string \<Rightarrow> bool) \<Rightarrow> 'j jansson \<Rightarrow> (string \<Rightarrow> 'j option) \<Rightarrow> bool \<Rightarrow> int \<Rightarrow>
   string list \<Rightarrow> 'j config \<Rightarrow> 'j config exits" where
  "parse_cmdline getopt_long inet_pton J read_file default_readable nprocs argv c =
     (let argv1 = normalize_legacy_arguments argv;
          c1 = upd_world (miner_set_current_pool_index 0) (pool_init_defaults c);
          opts = getopt_long argv1
      in then_run (load_configured inet_pton J read_file default_readable opts c1) (\<lambda>c2.
         then_run (apply_cli_options inet_pton opts (c2\<lparr>cf_cli_phase := True, cf_cli_url_seen := False\<rparr>)) (\<lambda>c3.
         finish_cmdline nprocs (c3\<lparr>cf_cli_phase := False\<rparr>))))"

section \<open>What every configuration satisfies\<close>

text \<open>The strings of a pool and of the defaults fit their fields, and the session is still zeroed.\<close>

definition pool_fits :: "pool_infos \<Rightarrow> bool" where
  "pool_fits q \<longleftrightarrow>
     length (pool_name q) < POOL_NAME_FIELD_LEN \<and> length (pool_url q) < POOL_URL_FIELD_LEN \<and>
     length (pool_short_url q) < POOL_SHORT_URL_FIELD_LEN \<and> length (pool_user q) < POOL_USER_FIELD_LEN \<and>
     length (pool_pass q) < POOL_PASS_FIELD_LEN \<and> 0 \<le> pool_timeout q \<and> pool_stratum q = zero_sctx"

definition pools_ok :: "'j world \<Rightarrow> bool" where
  "pools_ok w \<longleftrightarrow> length (w_pools w) = MAX_POOLS \<and> w_num_pools w \<le> MAX_USER_POOLS \<and> list_all pool_fits (w_pools w)"

definition options_ok :: "'j config \<Rightarrow> bool" where
  "options_ok c \<longleftrightarrow>
     (let opts = w_opts (cf_world c)
      in opt_n_threads opts \<le> MAX_THREADS \<and> 1 \<le> opt_timeout opts \<and> - 1 \<le> opt_retries opts \<and> 1 \<le> opt_retry_pause opts \<and>
         1 \<le> cf_statsavg c \<and> 0 \<le> cf_priority c \<and> cf_priority c \<le> 5 \<and> 0 \<le> cf_api_port c \<and> cf_api_port c \<le> 65535)"

definition config_ok :: "'j config \<Rightarrow> bool" where
  "config_ok c \<longleftrightarrow> pools_ok (cf_world c) \<and> options_ok c"

lemma length_copy_pool_string: "0 < n \<Longrightarrow> length (copy_pool_string n src dst) < n"
  by (auto simp: copy_pool_string_def length_snprintf_s split: option.splits)

lemma pools_ok_upd:
  assumes "pools_ok w" "\<And>q. pool_fits q \<Longrightarrow> pool_fits (f q)"
  shows "pools_ok (upd_pool p f w)"
proof (cases "p < length (w_pools w)")
  case True
  then show ?thesis using assms
    by (auto simp: pools_ok_def upd_pool_def list_all_iff dest: subsetD [OF set_update_subset_insert])
next
  case False
  then show ?thesis using assms(1) by (simp add: pools_ok_def upd_pool_def list_update_beyond)
qed

lemma config_ok_upd_pool:
  assumes "config_ok c" "\<And>q. pool_fits q \<Longrightarrow> pool_fits (f q)"
  shows "config_ok (upd_world (upd_pool p f) c)"
  using assms(1) pools_ok_upd [of "cf_world c" f p] assms(2) by (simp add: config_ok_def options_ok_def upd_world_def Let_def)

lemma pool_fits_updates:
  assumes "pool_fits q"
  shows "pool_fits (q\<lparr>pool_name := copy_pool_string POOL_NAME_FIELD_LEN v x\<rparr>)"
    "pool_fits (q\<lparr>pool_url := copy_pool_string POOL_URL_FIELD_LEN v x\<rparr>)"
    "pool_fits (q\<lparr>pool_short_url := copy_pool_string POOL_SHORT_URL_FIELD_LEN v x\<rparr>)"
    "pool_fits (q\<lparr>pool_user := copy_pool_string POOL_USER_FIELD_LEN v x\<rparr>)"
    "pool_fits (q\<lparr>pool_pass := copy_pool_string POOL_PASS_FIELD_LEN v x\<rparr>)"
    "pool_fits (q\<lparr>pool_configured := b\<rparr>)"
    "0 \<le> t \<Longrightarrow> pool_fits (q\<lparr>pool_timeout := t\<rparr>)" "0 \<le> t \<Longrightarrow> pool_fits (q\<lparr>pool_disabled := b, pool_timeout := t\<rparr>)"
  using assms length_copy_pool_string [of POOL_NAME_FIELD_LEN v x] length_copy_pool_string [of POOL_URL_FIELD_LEN v x]
    length_copy_pool_string [of POOL_SHORT_URL_FIELD_LEN v x] length_copy_pool_string [of POOL_USER_FIELD_LEN v x]
    length_copy_pool_string [of POOL_PASS_FIELD_LEN v x]
  by (simp_all add: pool_fits_def field_sizes)

lemma config_ok_frame [simp]:
  "config_ok (c\<lparr>cf_debug := b\<rparr>) = config_ok c" "config_ok (c\<lparr>cf_quiet := b\<rparr>) = config_ok c"
  "config_ok (c\<lparr>cf_protocol := b\<rparr>) = config_ok c" "config_ok (c\<lparr>cf_defaults := d\<rparr>) = config_ok c"
  "config_ok (c\<lparr>cf_uses_pool_array := b\<rparr>) = config_ok c" "config_ok (c\<lparr>cf_cli_phase := b\<rparr>) = config_ok c"
  "config_ok (c\<lparr>cf_cli_url_seen := b\<rparr>) = config_ok c" "config_ok (c\<lparr>cf_user_set := l\<rparr>) = config_ok c"
  "config_ok (c\<lparr>cf_pass_set := l\<rparr>) = config_ok c" "config_ok (c\<lparr>cf_affinity_mask := m\<rparr>) = config_ok c"
  "config_ok (c\<lparr>cf_affinity_set := b\<rparr>) = config_ok c" "config_ok (c\<lparr>cf_api_bind := h\<rparr>) = config_ok c"
  "config_ok (c\<lparr>cf_api_port_explicit := b\<rparr>) = config_ok c"
  by (simp_all add: config_ok_def options_ok_def)

text \<open>Every operation on the pools keeps a configuration well-formed.\<close>

named_theorems keeps_config

lemma derive_pool_short_url_ok [keeps_config]: "config_ok c \<Longrightarrow> config_ok (derive_pool_short_url i c)"
  by (auto simp: derive_pool_short_url_def Let_def intro!: config_ok_upd_pool pool_fits_updates)

lemma apply_credentials_ok [keeps_config]: "config_ok c \<Longrightarrow> config_ok (apply_pool_default_credentials i a b m c)"
  by (auto simp: apply_pool_default_credentials_def Let_def intro!: config_ok_upd_pool pool_fits_updates)

lemma foldl_ok:
  assumes "P c" "\<And>c x. P c \<Longrightarrow> P (f c x)"
  shows "P (foldl f c xs)"
  using assms(1) by (induction xs arbitrary: c) (auto intro: assms(2))

lemma sync_defaults_ok [keeps_config]: "config_ok c \<Longrightarrow> config_ok (sync_configured_pool_defaults a b c)"
  unfolding sync_configured_pool_defaults_def by (rule foldl_ok) (auto intro: keeps_config)

lemma sync_timeouts_ok [keeps_config]: "config_ok c \<Longrightarrow> 0 \<le> t \<Longrightarrow> config_ok (sync_configured_pool_timeouts t c)"
  unfolding sync_configured_pool_timeouts_def
  by (rule foldl_ok) (auto intro!: config_ok_upd_pool pool_fits_updates)

lemma register_ok [keeps_config]:
  assumes "config_ok c"
  shows "config_ok (register_pool_index i c)"
proof -
  let ?w = "upd_pool (nat i) (\<lambda>q. q\<lparr>pool_configured := True\<rparr>) (cf_world c)"
  have "pools_ok ?w" using assms by (intro pools_ok_upd pool_fits_updates) (simp_all add: config_ok_def)
  then show ?thesis using assms
    by (auto simp: register_pool_index_def config_ok_def options_ok_def upd_world_def Let_def pools_ok_def size_consts)
qed

lemma clear_set_ok [keeps_config]:
  assumes "config_ok c"
  shows "config_ok (clear_configured_pool_set c)"
proof -
  have "pool_fits zero_pool" by (simp add: pool_fits_def zero_pool_def field_sizes)
  then show ?thesis using assms
    by (simp add: clear_configured_pool_set_def reset_pool_arrays_def config_ok_def options_ok_def upd_world_def
        pools_ok_def miner_set_current_pool_index_def list_all_iff Let_def)
qed

lemma set_defaults_ok [keeps_config]:
  "config_ok c \<Longrightarrow> config_ok (set_pool_default_url v c)" "config_ok c \<Longrightarrow> config_ok (set_pool_default_user v c)"
  "config_ok c \<Longrightarrow> config_ok (set_pool_default_pass v c)" "config_ok c \<Longrightarrow> config_ok (set_pool_default_user_span v n c)"
  by (simp_all add: set_pool_default_url_def set_pool_default_user_def set_pool_default_pass_def
      set_pool_default_user_span_def Let_def split: option.split)

lemma apply_url_option_ok [keeps_config]: "config_ok c \<Longrightarrow> config_ok (apply_url_option arg c)"
  unfolding apply_url_option_def Let_def
  by (auto intro!: keeps_config config_ok_upd_pool pool_fits_updates)

section \<open>Options keep a configuration well-formed\<close>

lemma then_run_Inr: "then_run m f = Inr y \<longleftrightarrow> (\<exists>x. m = Inr x \<and> f x = Inr y)"
  by (cases m) (simp_all add: then_run_def)

lemma exit_not_Inr [simp]: "exit_with_usage s \<noteq> Inr x"
  by (simp add: exit_with_usage_def)

lemma config_ok_opts:
  assumes "config_ok c" "\<And>opts. \<lbrakk>opt_n_threads opts \<le> MAX_THREADS; 1 \<le> opt_timeout opts; - 1 \<le> opt_retries opts; 1 \<le> opt_retry_pause opts\<rbrakk> \<Longrightarrow>
    opt_n_threads (f opts) \<le> MAX_THREADS \<and> 1 \<le> opt_timeout (f opts) \<and> - 1 \<le> opt_retries (f opts) \<and> 1 \<le> opt_retry_pause (f opts)"
  shows "config_ok (upd_opts f c)"
  using assms by (simp add: config_ok_def options_ok_def upd_opts_def upd_world_def pools_ok_def Let_def)

lemma config_ok_numbers:
  "config_ok c \<Longrightarrow> 1 \<le> v \<Longrightarrow> config_ok (c\<lparr>cf_statsavg := v\<rparr>)"
  "config_ok c \<Longrightarrow> 0 \<le> v \<Longrightarrow> v \<le> 5 \<Longrightarrow> config_ok (c\<lparr>cf_priority := v\<rparr>)"
  "config_ok c \<Longrightarrow> 0 \<le> v \<Longrightarrow> v \<le> 65535 \<Longrightarrow> config_ok (c\<lparr>cf_api_port := v\<rparr>)"
  by (simp_all add: config_ok_def options_ok_def Let_def)

lemma clamped [simp]: "lo \<le> at_least lo v" "at_most hi v \<le> hi" "0 \<le> at_most 5 (at_least 0 v)"
  by (simp_all add: at_least_def at_most_def)

lemma at_least_pos [simp]: "0 \<le> at_least 1 v"
  by (simp add: at_least_def)

lemma parse_api_port_bound: "parse_api_port_value arg = Some p \<Longrightarrow> 0 \<le> p \<and> p \<le> 65535"
  by (auto simp: parse_api_port_value_def split: if_splits prod.splits)

lemma parse_api_bind_ok:
  assumes "parse_api_bind_argument inet_pton arg c = Inr c'" "config_ok c"
  shows "config_ok c'"
proof -
  have port: "config_ok (c\<lparr>cf_api_port := p\<rparr>)" if "parse_api_port_value a = Some p" for a p
    using parse_api_port_bound [OF that] assms(2) by (simp add: config_ok_numbers)
  have host: "config_ok (c\<lparr>cf_api_bind := h, cf_api_port := p\<rparr>)" if "parse_api_port_value a = Some p" for a p h
    using parse_api_port_bound [OF that] assms(2) by (simp add: config_ok_numbers)
  show ?thesis
    using assms port host by (auto simp: parse_api_bind_argument_def Let_def split: if_splits option.splits)
qed

lemma apply_userpass_ok: "apply_userpass_option arg c = Inr c' \<Longrightarrow> config_ok c \<Longrightarrow> config_ok c'"
  by (auto simp: apply_userpass_option_def Let_def intro!: keeps_config split: if_splits)

lemma apply_option_ok:
  assumes "apply_option inet_pton key arg c = Inr c'" "config_ok c"
  shows "config_ok c'"
proof (cases key)
  case (Key k)
  note step = assms(1) [unfolded apply_option_def Key cli_option_id.case]
  show ?thesis
    using step assms(2) parse_api_bind_ok [of inet_pton arg c c'] apply_userpass_ok [of arg c c']
    by (auto simp: then_run_Inr Let_def size_consts split: if_splits option.splits
        intro!: keeps_config config_ok_opts config_ok_numbers)
qed (use assms in \<open>auto simp: apply_option_def then_run_Inr intro!: config_ok_opts config_ok_numbers\<close>)

lemma apply_json_scalar_ok:
  "apply_json_scalar_option inet_pton J option v c = Inr c' \<Longrightarrow> config_ok c \<Longrightarrow> config_ok c'"
  by (auto simp: apply_json_scalar_option_def Let_def split: prod.splits if_splits dest: apply_option_ok)

lemma apply_scalar_options_ok:
  "apply_scalar_options inet_pton J config options c = Inr c' \<Longrightarrow> config_ok c \<Longrightarrow> config_ok c'"
  by (induction options arbitrary: c) (auto simp: then_run_Inr split: if_splits option.splits dest: apply_json_scalar_ok)

lemma parse_pool_timeout_nonneg: "0 \<le> parse_pool_timeout_json J v"
  by (simp add: parse_pool_timeout_json_def Let_def)

lemma apply_configured_pool_ok: "config_ok c \<Longrightarrow> config_ok (apply_configured_pool J pool_config i c)"
  unfolding apply_configured_pool_def Let_def
  by (auto intro!: keeps_config config_ok_upd_pool pool_fits_updates parse_pool_timeout_nonneg split: option.split list.split)

lemma apply_config_object_ok:
  assumes "apply_config_object inet_pton J config c = Inr c'" "config_ok c"
  shows "config_ok c'"
proof -
  have pools: "config_ok (foldl (\<lambda>c i. let pool_config = json_array_get J arr i
      in if json_is_object J pool_config then apply_configured_pool J pool_config i c else c) c1 is)"
    if "config_ok c1" for c1 arr "is"
    by (rule foldl_ok [where P = config_ok, OF that]) (simp add: Let_def apply_configured_pool_ok)
  show ?thesis
    using assms apply_scalar_options_ok
    by (fastforce simp: apply_config_object_def then_run_Inr Let_def intro!: pools [unfolded Let_def] split: if_splits)
qed

lemma apply_cli_options_ok: "apply_cli_options inet_pton opts c = Inr c' \<Longrightarrow> config_ok c \<Longrightarrow> config_ok c'"
  by (induction inet_pton opts c rule: apply_cli_options.induct)
    (auto simp: then_run_Inr split: if_splits dest: apply_option_ok)

lemma load_configured_ok:
  "load_configured inet_pton J read_file default_readable opts c = Inr c' \<Longrightarrow> config_ok c \<Longrightarrow> config_ok c'"
  by (auto simp: load_configured_def then_run_Inr split: prod.splits bool.splits option.splits if_splits
      dest: apply_config_object_ok)

lemma ensure_registered_ok: "config_ok c \<Longrightarrow> config_ok (ensure_cli_pool_is_registered c)"
  unfolding ensure_cli_pool_is_registered_def by (auto intro!: keeps_config config_ok_upd_pool pool_fits_updates)

lemma find_first_usable:
  "find_first_usable_pool_index w ps = k \<Longrightarrow> 0 \<le> k \<Longrightarrow> miner_pool_is_usable w k"
  by (induction ps) (auto split: if_splits)

section \<open>Numbers of the JSON file\<close>

lemma scan_number_neg_show: "scan_number (CHR ''-'' # show_nat n) = Some (True, show_nat n, [])"
proof -
  have tw: "takeWhile is_digit (show_nat n) = show_nat n" "dropWhile is_digit (show_nat n) = []"
    using is_digit_show_nat by (auto simp: takeWhile_eq_all_conv)
  have sp: "\<not> is_space CHR ''-''" by (simp add: is_space_def char_code_def)
  show ?thesis by (simp add: scan_number_def Let_def sp tw)
qed

lemma length_show_int:
  assumes "- (2 ^ 31) \<le> i" "i \<le> 2 ^ 31 - 1"
  shows "length (show_int i) \<le> 11"
proof -
  have "nat (- i) < 10 ^ 10" "nat i < 10 ^ 10" using assms by (simp_all add: nat_less_iff)
  then have "length (show_nat (nat (- i))) \<le> 10" "length (show_nat (nat i)) \<le> 10" by (simp_all only: length_show_nat zero_less_numeral)
  then show ?thesis by (simp add: show_int_def)
qed

lemma parse_show_int:
  assumes "- (2 ^ 31) \<le> i" "i \<le> 2 ^ 31 - 1"
  shows "parse_cli_int_option (snprintf_s 16 (show_int i)) = Inr i"
proof -
  have id: "snprintf_s 16 (show_int i) = show_int i" using length_show_int [OF assms] by (intro snprintf_s_id) simp
  have "strtol (show_int i) = (i, [], False)"
    using assms strtol_show_nat [of "nat i" "[]"]
    by (auto simp: show_int_def strtol_def scan_number_neg_show Let_def)
  moreover have "show_int i \<noteq> []" by (simp add: show_int_def)
  ultimately show ?thesis using assms by (simp add: id parse_cli_int_option_def)
qed

text \<open>
  A number in the JSON file is the number on the command line: an integer option is printed into a
  16-byte buffer and parsed back, and for every value of \<open>int\<close> the option is applied with exactly that
  value, the buffer being large enough; a value outside \<open>int\<close> ends the program instead of being
  narrowed.
\<close>

lemma json_integer_option_exact:
  assumes "json_is_integer J v" "\<not> json_is_string J v" "json_integer_value J v = raw" "json_is_string J v' "
    and "json_string_value J v' = Some (show_int raw)"
  shows "apply_json_scalar_option inet_pton J (name, True, key) v c =
    (if - (2 ^ 31) \<le> raw \<and> raw \<le> 2 ^ 31 - 1 then apply_json_scalar_option inet_pton J (name, True, key) v' c else Inl 1) \<and>
    (- (2 ^ 31) \<le> raw \<and> raw \<le> 2 ^ 31 - 1 \<longrightarrow> parse_cli_int_option (snprintf_s 16 (show_int raw)) = Inr raw)"
proof -
  have id: "- (2 ^ 31) \<le> raw \<and> raw \<le> 2 ^ 31 - 1 \<Longrightarrow> snprintf_s 16 (show_int raw) = show_int raw"
    using length_show_int [of raw] by (intro snprintf_s_id) simp
  show ?thesis
    using assms id parse_show_int [of raw]
    by (auto simp: apply_json_scalar_option_def exit_with_usage_def Let_def not_le not_less)
qed

text \<open>
  A negative time-out of a pool in the JSON file can become a short positive one: the range check only
  looks at the upper end, so below the range of \<open>int\<close> the narrowing wraps around, and
  \<open>- 4294967295\<close> is a time-out of one second although a value that is not positive is documented to
  mean the global time-out.
\<close>

lemma negative_pool_timeout_wraps:
  assumes "json_is_integer J (Some j)" "json_integer_value J (Some j) = t - 2 ^ 32" "0 < t" "t < 2 ^ 31"
  shows "parse_pool_timeout_json J (Some j) = t"
proof -
  have "(word_of_int (t - 2 ^ 32) :: u32) = word_of_int t" by (simp add: word_of_int_eq_iff take_bit_eq_mod)
  then have "c_int (t - 2 ^ 32) = c_int t" by (simp only: c_int_def)
  also have "\<dots> = t" using assms(3,4) by (intro c_int_id) simp_all
  finally have "c_int (t - 2 ^ 32) = t" .
  then show ?thesis using assms by (simp add: parse_pool_timeout_json_def Let_def)
qed

section \<open>The result of the command line\<close>

lemma config_ok_initial: "config_ok (upd_world (miner_set_current_pool_index 0) (pool_init_defaults initial_config))"
proof -
  have "config_ok (clear_configured_pool_set initial_config)"
    by (rule clear_set_ok)
      (simp add: config_ok_def options_ok_def initial_config_def initial_world_def pools_ok_def default_options_def
        pool_fits_def zero_pool_def field_sizes list_all_iff size_consts)
  then show ?thesis
    by (simp add: pool_init_defaults_def clear_pool_option_defaults_def upd_world_def config_ok_def options_ok_def pools_ok_def
        miner_set_current_pool_index_def)
qed

lemma miner_set_current_usable [simp]:
  "miner_pool_is_usable (miner_set_current_pool_index k w) i = miner_pool_is_usable w i"
  by (simp add: miner_pool_is_usable_def miner_set_current_pool_index_def)

lemma ensure_registered_opts [simp]: "w_opts (cf_world (ensure_cli_pool_is_registered c)) = w_opts (cf_world c)"
  by (simp add: ensure_cli_pool_is_registered_def register_pool_index_def apply_pool_default_credentials_def
      derive_pool_short_url_def upd_world_def Let_def)

lemma finish_cmdline_result:
  assumes "finish_cmdline nprocs c = Inr c'" "config_ok c"
  shows "config_ok c' \<and> 1 \<le> opt_n_threads (w_opts (cf_world c')) \<and>
    (opt_benchmark (w_opts (cf_world c')) \<or> miner_pool_is_usable (cf_world c') (w_current_pool (cf_world c')))"
proof -
  define n where "n = normalize_thread_count (if opt_n_threads (w_opts (cf_world c)) = 0 then nprocs else int (opt_n_threads (w_opts (cf_world c))))"
  define c1 where "c1 = upd_opts (\<lambda>opts. opts\<lparr>opt_n_threads := n\<rparr>) c"
  define c2 where "c2 = ensure_cli_pool_is_registered c1"
  define k where "k = find_first_usable_pool_index (cf_world c2) [0..<w_num_pools (cf_world c2)]"
  have n: "1 \<le> n" "n \<le> MAX_THREADS" by (auto simp: n_def normalize_thread_count_def size_consts)
  have ok: "config_ok c2" unfolding c2_def c1_def using assms(2) n by (intro ensure_registered_ok config_ok_opts) simp_all
  have t: "opt_n_threads (w_opts (cf_world c2)) = n" by (simp add: c2_def c1_def upd_opts_def upd_world_def)
  let ?c3 = "upd_world (miner_set_current_pool_index k) c2"
  have w3: "cf_world ?c3 = miner_set_current_pool_index k (cf_world c2)" by (simp add: upd_world_def)
  have ok3: "config_ok ?c3"
    using ok by (simp add: config_ok_def options_ok_def pools_ok_def upd_world_def miner_set_current_pool_index_def)
  have "c' = c2 \<and> opt_benchmark (w_opts (cf_world c2)) \<or> c' = ?c3 \<and> 0 \<le> k"
    using assms(1) unfolding finish_cmdline_def Let_def n_def [symmetric] c1_def [symmetric] c2_def [symmetric] k_def [symmetric]
    by (auto split: if_splits)
  then show ?thesis
  proof
    assume "c' = ?c3 \<and> 0 \<le> k"
    moreover have "miner_pool_is_usable (cf_world c2) k" if "0 \<le> k" using find_first_usable [OF k_def [symmetric] that] .
    moreover have "w_current_pool (cf_world ?c3) = k" "w_opts (cf_world ?c3) = w_opts (cf_world c2)"
      unfolding w3 by (simp_all add: miner_set_current_pool_index_def)
    ultimately show ?thesis using ok3 n(1) t by (simp add: w3)
  qed (use ok n(1) t in simp)
qed

text \<open>
  C26. A configuration that \<open>parse_cmdline\<close> accepts can be run as it stands, whatever the command line and
  the JSON file hold. It has between one and \<open>MAX_THREADS\<close> threads, a time-out and a retry pause of at
  least a second, a statistics window of at least a second, a priority between 0 and 5 and a port of
  16 bits; at most \<open>MAX_USER_POOLS\<close> pools, whose strings fit their fields with the terminator and whose
  time-outs are not negative; and outside benchmark mode the current pool is usable: configured,
  enabled and with a URL.
\<close>

theorem accepted_configuration_runs:
  assumes "parse_cmdline getopt_long inet_pton J read_file default_readable nprocs argv initial_config = Inr c"
  shows "1 \<le> opt_n_threads (w_opts (cf_world c)) \<and> config_ok c \<and>
    (\<not> opt_benchmark (w_opts (cf_world c)) \<longrightarrow> miner_pool_is_usable (cf_world c) (w_current_pool (cf_world c)))"
proof -
  let ?c1 = "upd_world (miner_set_current_pool_index 0) (pool_init_defaults initial_config)"
  let ?opts = "getopt_long (normalize_legacy_arguments argv)"
  obtain c2 c3 where c: "load_configured inet_pton J read_file default_readable ?opts ?c1 = Inr c2"
    "apply_cli_options inet_pton ?opts (c2\<lparr>cf_cli_phase := True, cf_cli_url_seen := False\<rparr>) = Inr c3"
    "finish_cmdline nprocs (c3\<lparr>cf_cli_phase := False\<rparr>) = Inr c"
    using assms by (auto simp: parse_cmdline_def Let_def then_run_Inr)
  have "config_ok c2" by (rule load_configured_ok [OF c(1) config_ok_initial])
  then have "config_ok c3" using apply_cli_options_ok [OF c(2)] by simp
  then show ?thesis using finish_cmdline_result [OF c(3)] by auto
qed

section \<open>A URL on the command line\<close>

text \<open>Without a pool array no pool is registered before the end of the command line.\<close>

definition unregistered :: "'j config \<Rightarrow> bool" where
  "unregistered c \<longleftrightarrow> w_num_pools (cf_world c) = 0 \<and> w_current_pool (cf_world c) = 0 \<and> length (w_pools (cf_world c)) = MAX_POOLS \<and>
     \<not> pool_disabled (pool_at (cf_world c) 0)"

definition array_or_none :: "'j config \<Rightarrow> bool" where
  "array_or_none c \<longleftrightarrow> cf_uses_pool_array c \<or> unregistered c"

definition single_pool :: "string \<Rightarrow> 'j config \<Rightarrow> bool" where
  "single_pool url c \<longleftrightarrow> unregistered c \<and> \<not> cf_uses_pool_array c \<and> pd_url (cf_defaults c) = url \<and> pd_url_set (cf_defaults c)"

lemma unregistered_sync [simp]:
  "unregistered c \<Longrightarrow> sync_configured_pool_defaults a b c = c" "unregistered c \<Longrightarrow> sync_configured_pool_timeouts t c = c"
  by (simp_all add: unregistered_def sync_configured_pool_defaults_def sync_configured_pool_timeouts_def)

lemma unregistered_upd_pool:
  assumes "unregistered c" "\<And>q. pool_disabled (f q) = pool_disabled q"
  shows "unregistered (upd_world (upd_pool p f) c)"
  using assms by (cases "p = 0") (simp_all add: unregistered_def upd_world_def upd_pool_def pool_at_def size_consts)

lemma unregistered_frame [simp]:
  "unregistered (c\<lparr>cf_defaults := d\<rparr>) = unregistered c" "unregistered (c\<lparr>cf_cli_phase := b\<rparr>) = unregistered c"
  "unregistered (c\<lparr>cf_cli_url_seen := b\<rparr>) = unregistered c" "unregistered (c\<lparr>cf_debug := b\<rparr>) = unregistered c"
  "unregistered (c\<lparr>cf_quiet := b\<rparr>) = unregistered c" "unregistered (c\<lparr>cf_protocol := b\<rparr>) = unregistered c"
  "unregistered (c\<lparr>cf_statsavg := v\<rparr>) = unregistered c" "unregistered (c\<lparr>cf_priority := v\<rparr>) = unregistered c"
  "unregistered (c\<lparr>cf_api_port := v\<rparr>) = unregistered c" "unregistered (c\<lparr>cf_api_port_explicit := b\<rparr>) = unregistered c"
  "unregistered (c\<lparr>cf_api_bind := h\<rparr>) = unregistered c" "unregistered (c\<lparr>cf_affinity_mask := m\<rparr>) = unregistered c"
  "unregistered (c\<lparr>cf_affinity_set := b\<rparr>) = unregistered c" "unregistered (upd_opts f c) = unregistered c"
  by (simp_all add: unregistered_def upd_opts_def upd_world_def pool_at_def)

lemma unregistered_ops:
  "unregistered c \<Longrightarrow> unregistered (derive_pool_short_url i c)"
  "unregistered c \<Longrightarrow> unregistered (apply_pool_default_credentials i a b m c)"
  "unregistered c \<Longrightarrow> unregistered (set_pool_default_url v c)"
  "unregistered c \<Longrightarrow> unregistered (set_pool_default_user v c)"
  "unregistered c \<Longrightarrow> unregistered (set_pool_default_pass v c)"
  "unregistered c \<Longrightarrow> unregistered (set_pool_default_user_span v n c)"
  by (auto simp: derive_pool_short_url_def apply_pool_default_credentials_def set_pool_default_url_def set_pool_default_user_def
      set_pool_default_pass_def set_pool_default_user_span_def Let_def intro!: unregistered_upd_pool split: option.split)

text \<open>What no pool operation touches.\<close>

lemma defaults_frame [simp]:
  "cf_defaults (derive_pool_short_url i c) = cf_defaults c"
  "cf_defaults (apply_pool_default_credentials i a b m c) = cf_defaults c"
  "cf_defaults (upd_world f c) = cf_defaults c" "cf_defaults (upd_opts g c) = cf_defaults c"
  "cf_uses_pool_array (derive_pool_short_url i c) = cf_uses_pool_array c"
  "cf_uses_pool_array (apply_pool_default_credentials i a b m c) = cf_uses_pool_array c"
  "cf_uses_pool_array (upd_world f c) = cf_uses_pool_array c" "cf_uses_pool_array (upd_opts g c) = cf_uses_pool_array c"
  by (simp_all add: derive_pool_short_url_def apply_pool_default_credentials_def upd_world_def upd_opts_def Let_def)

lemma set_default_frame [simp]:
  "cf_uses_pool_array (set_pool_default_url v c) = cf_uses_pool_array c"
  "cf_uses_pool_array (set_pool_default_user v c) = cf_uses_pool_array c"
  "cf_uses_pool_array (set_pool_default_pass v c) = cf_uses_pool_array c"
  "cf_uses_pool_array (set_pool_default_user_span v n c) = cf_uses_pool_array c"
  "pd_url (cf_defaults (set_pool_default_user v c)) = pd_url (cf_defaults c)"
  "pd_url (cf_defaults (set_pool_default_pass v c)) = pd_url (cf_defaults c)"
  "pd_url (cf_defaults (set_pool_default_user_span v n c)) = pd_url (cf_defaults c)"
  "pd_url_set (cf_defaults (set_pool_default_user v c)) = pd_url_set (cf_defaults c)"
  "pd_url_set (cf_defaults (set_pool_default_pass v c)) = pd_url_set (cf_defaults c)"
  "pd_url_set (cf_defaults (set_pool_default_user_span v n c)) = pd_url_set (cf_defaults c)"
  by (simp_all add: set_pool_default_url_def set_pool_default_user_def set_pool_default_pass_def
      set_pool_default_user_span_def Let_def split: option.split)

lemma cleared_unregistered: "unregistered (clear_configured_pool_set c)" "cf_uses_pool_array (clear_configured_pool_set c) = False"
  by (simp_all add: unregistered_def clear_configured_pool_set_def reset_pool_arrays_def upd_world_def miner_set_current_pool_index_def
      pool_at_def zero_pool_def size_consts)

lemma url_option_single:
  assumes "array_or_none c" "url \<noteq> []" "length url < POOL_URL_FIELD_LEN"
  shows "single_pool url (apply_url_option url c)"
proof -
  define c1 where "c1 = (if cf_uses_pool_array c then clear_configured_pool_set c else c)"
  define c2 where "c2 = (if cf_cli_phase c1 then c1\<lparr>cf_cli_url_seen := True\<rparr> else c1)"
  define c3 where "c3 = set_pool_default_url (Some url) c2"
  have "unregistered c1" "\<not> cf_uses_pool_array c1"
    using assms(1) cleared_unregistered [of c] by (auto simp: array_or_none_def c1_def)
  then have u: "unregistered c3" "\<not> cf_uses_pool_array c3" by (auto simp: c3_def c2_def intro!: unregistered_ops)
  have d: "pd_url (cf_defaults c3) = url" "pd_url_set (cf_defaults c3)"
    using assms(2,3) by (simp_all add: c3_def set_pool_default_url_def copy_pool_string_def snprintf_s_id Let_def field_sizes)
  show ?thesis
    using u d unfolding single_pool_def apply_url_option_def Let_def c1_def [symmetric] c2_def [symmetric] c3_def [symmetric]
    by (auto intro!: unregistered_ops unregistered_upd_pool)
qed

text \<open>Every other option leaves the mode alone.\<close>

lemma api_bind_keeps:
  assumes "parse_api_bind_argument inet_pton arg c = Inr c'"
  shows "unregistered c \<Longrightarrow> unregistered c'" "cf_uses_pool_array c' = cf_uses_pool_array c" "cf_defaults c' = cf_defaults c"
  using assms by (auto simp: parse_api_bind_argument_def Let_def split: if_splits option.splits)

lemma sync_array [simp]:
  "cf_uses_pool_array (sync_configured_pool_defaults a b c) = cf_uses_pool_array c"
  "cf_uses_pool_array (sync_configured_pool_timeouts t c) = cf_uses_pool_array c"
  unfolding sync_configured_pool_defaults_def sync_configured_pool_timeouts_def
  by (rule foldl_ok [where P = "\<lambda>x. cf_uses_pool_array x = cf_uses_pool_array c"]; simp)+

lemma userpass_keeps:
  assumes "apply_userpass_option arg c = Inr c'"
  shows "cf_uses_pool_array c' = cf_uses_pool_array c"
    and "unregistered c \<Longrightarrow> unregistered c' \<and> pd_url (cf_defaults c') = pd_url (cf_defaults c) \<and> pd_url_set (cf_defaults c') = pd_url_set (cf_defaults c)"
  using assms by (auto simp: apply_userpass_option_def Let_def unregistered_ops split: if_splits)

lemma option_keeps_mode:
  assumes "apply_option inet_pton key arg c = Inr c'" "key \<noteq> Key CHR ''o''"
  shows "cf_uses_pool_array c' = cf_uses_pool_array c"
    and "unregistered c \<Longrightarrow> unregistered c' \<and> pd_url (cf_defaults c') = pd_url (cf_defaults c) \<and> pd_url_set (cf_defaults c') = pd_url_set (cf_defaults c)"
proof -
  have "cf_uses_pool_array c' = cf_uses_pool_array c \<and>
    (unregistered c \<longrightarrow> unregistered c' \<and> pd_url (cf_defaults c') = pd_url (cf_defaults c) \<and> pd_url_set (cf_defaults c') = pd_url_set (cf_defaults c))"
  proof (cases key)
    case (Key k)
    then have "k \<noteq> CHR ''o''" using assms(2) by simp
    note step = assms(1) [unfolded apply_option_def Key cli_option_id.case if_not_P [OF this]]
    show ?thesis
      using step api_bind_keeps [of inet_pton arg c c'] userpass_keeps [of arg c c']
      by (auto simp: then_run_Inr Let_def unregistered_ops split: if_splits option.splits)
  qed (use assms in \<open>auto simp: apply_option_def then_run_Inr\<close>)
  then show "cf_uses_pool_array c' = cf_uses_pool_array c"
    and "unregistered c \<Longrightarrow> unregistered c' \<and> pd_url (cf_defaults c') = pd_url (cf_defaults c) \<and> pd_url_set (cf_defaults c') = pd_url_set (cf_defaults c)"
    by blast+
qed

lemma url_option_keeps:
  assumes "array_or_none c"
  shows "array_or_none (apply_url_option arg c)"
proof -
  define c1 where "c1 = (if cf_uses_pool_array c then clear_configured_pool_set c else c)"
  have "unregistered c1" using assms cleared_unregistered [of c] by (auto simp: array_or_none_def c1_def)
  then show ?thesis unfolding array_or_none_def apply_url_option_def Let_def c1_def [symmetric]
    by (auto intro!: unregistered_ops unregistered_upd_pool)
qed

lemma option_array_or_none:
  assumes "apply_option inet_pton key arg c = Inr c'" "array_or_none c"
  shows "array_or_none c'"
proof (cases "key = Key CHR ''o''")
  case True
  then show ?thesis using assms url_option_keeps [of c arg] by (simp add: apply_option_def)
next
  case False
  then show ?thesis using assms option_keeps_mode [OF assms(1) False] by (auto simp: array_or_none_def)
qed

lemma scalar_array_or_none:
  "apply_json_scalar_option inet_pton J option v c = Inr c' \<Longrightarrow> array_or_none c \<Longrightarrow> array_or_none c'"
  by (auto simp: apply_json_scalar_option_def Let_def split: prod.splits if_splits dest: option_array_or_none)

lemma scalars_array_or_none:
  "apply_scalar_options inet_pton J config options c = Inr c' \<Longrightarrow> array_or_none c \<Longrightarrow> array_or_none c'"
  by (induction options arbitrary: c) (auto simp: then_run_Inr split: if_splits option.splits dest: scalar_array_or_none)

lemma configured_pool_array [simp]: "cf_uses_pool_array (apply_configured_pool J p i c) = cf_uses_pool_array c"
  by (simp add: apply_configured_pool_def register_pool_index_def Let_def split: option.split list.split)

lemma config_array_or_none:
  assumes "apply_config_object inet_pton J config c = Inr c'" "array_or_none c"
  shows "array_or_none c'"
proof -
  have fold: "cf_uses_pool_array (foldl (\<lambda>c i. let pool_config = json_array_get J arr i
      in if json_is_object J pool_config then apply_configured_pool J pool_config i c else c) c1 is) = cf_uses_pool_array c1" for c1 arr "is"
    by (rule foldl_ok [where P = "\<lambda>x. cf_uses_pool_array x = cf_uses_pool_array c1"]) (simp_all add: Let_def)
  show ?thesis
  proof (cases "json_is_object J config")
    case True
    then obtain c1 where c1: "apply_scalar_options inet_pton J config g_cli_options c = Inr c1"
      using assms(1) by (auto simp: apply_config_object_def then_run_Inr)
    have a: "array_or_none c1" by (rule scalars_array_or_none [OF c1 assms(2)])
    show ?thesis
    proof (cases "c' = c1")
      case False
      then have "cf_uses_pool_array c'"
        using True assms(1) c1 fold by (auto simp: apply_config_object_def then_run_def Let_def split: if_splits)
      then show ?thesis by (simp add: array_or_none_def)
    qed (use a in simp)
  qed (use assms in \<open>simp add: apply_config_object_def\<close>)
qed

lemma load_array_or_none:
  "load_configured inet_pton J read_file default_readable opts c = Inr c' \<Longrightarrow> array_or_none c \<Longrightarrow> array_or_none c'"
  by (auto simp: load_configured_def then_run_Inr split: prod.splits bool.splits option.splits if_splits
      dest: config_array_or_none)

lemma cli_array_or_none: "apply_cli_options inet_pton opts c = Inr c' \<Longrightarrow> array_or_none c \<Longrightarrow> array_or_none c'"
  by (induction inet_pton opts c rule: apply_cli_options.induct)
    (auto simp: then_run_Inr split: if_splits dest: option_array_or_none)

lemma cli_single:
  "apply_cli_options inet_pton opts c = Inr c' \<Longrightarrow> list_all (\<lambda>(k, _). k \<noteq> Key CHR ''o'') opts \<Longrightarrow> single_pool url c \<Longrightarrow> single_pool url c'"
proof (induction inet_pton opts c rule: apply_cli_options.induct)
  case (2 inet_pton key optarg opts c)
  show ?case
  proof (cases "key = Key CHR ''c''")
    case False
    then obtain c1 where c1: "apply_option inet_pton key optarg c = Inr c1" "apply_cli_options inet_pton opts c1 = Inr c'"
      using 2(3) by (auto simp: then_run_Inr)
    have "single_pool url c1" using option_keeps_mode [OF c1(1)] 2(4,5) by (simp add: single_pool_def)
    then show ?thesis using 2(2) [OF False] c1(2) 2(4) by simp
  qed (use 2 in simp)
qed simp

lemma cli_append:
  "apply_cli_options inet_pton (pre @ post) c = then_run (apply_cli_options inet_pton pre c) (apply_cli_options inet_pton post)"
  by (induction inet_pton pre c rule: apply_cli_options.induct) (auto simp: then_run_def split: sum.splits)

lemma register_first:
  assumes "single_pool url c" "url \<noteq> []"
  shows "w_num_pools (cf_world (ensure_cli_pool_is_registered c)) = 1"
    and "pool_url (pool_at (cf_world (ensure_cli_pool_is_registered c)) 0) = snprintf_s POOL_URL_FIELD_LEN url"
    and "miner_pool_is_usable (cf_world (ensure_cli_pool_is_registered c)) 0"
proof -
  have c: "w_num_pools (cf_world c) = 0" "pd_url_set (cf_defaults c)" "pd_url (cf_defaults c) = url" "length (w_pools (cf_world c)) = 9"
    "\<not> pool_disabled (w_pools (cf_world c) ! 0)"
    using assms(1) by (simp_all add: single_pool_def unregistered_def pool_at_def size_consts)
  have ne: "take 511 url \<noteq> []" using assms(2) by simp
  show "w_num_pools (cf_world (ensure_cli_pool_is_registered c)) = 1"
    and "pool_url (pool_at (cf_world (ensure_cli_pool_is_registered c)) 0) = snprintf_s POOL_URL_FIELD_LEN url"
    and "miner_pool_is_usable (cf_world (ensure_cli_pool_is_registered c)) 0"
    using c ne
    by (auto simp: ensure_cli_pool_is_registered_def register_pool_index_def apply_pool_default_credentials_def Let_def
        derive_pool_short_url_def upd_world_def upd_pool_def pool_at_def copy_pool_string_def snprintf_s_def field_sizes
        miner_pool_is_usable_def size_consts)
qed

lemma find_first_zero: "0 < n \<Longrightarrow> miner_pool_is_usable w 0 \<Longrightarrow> find_first_usable_pool_index w [0..<n] = 0"
  by (simp add: upt_conv_Cons)

lemma finish_single:
  assumes "single_pool url c" "url \<noteq> []" "length url < POOL_URL_FIELD_LEN"
  shows "\<exists>c'. finish_cmdline nprocs c = Inr c' \<and> w_num_pools (cf_world c') = 1 \<and> pool_url (pool_at (cf_world c') 0) = url \<and>
    w_current_pool (cf_world c') = 0 \<and> miner_pool_is_usable (cf_world c') 0"
proof -
  define n where "n = normalize_thread_count (if opt_n_threads (w_opts (cf_world c)) = 0 then nprocs else int (opt_n_threads (w_opts (cf_world c))))"
  define c1 where "c1 = upd_opts (\<lambda>opts. opts\<lparr>opt_n_threads := n\<rparr>) c"
  define c2 where "c2 = ensure_cli_pool_is_registered c1"
  have s: "single_pool url c1" using assms(1) by (simp add: single_pool_def c1_def)
  note r = register_first [OF s assms(2), folded c2_def]
  have cur: "w_current_pool (cf_world c2) = 0"
    using s by (auto simp: c2_def single_pool_def unregistered_def ensure_cli_pool_is_registered_def register_pool_index_def
        apply_pool_default_credentials_def derive_pool_short_url_def upd_world_def Let_def)
  have "find_first_usable_pool_index (cf_world c2) [0..<w_num_pools (cf_world c2)] = 0"
    by (rule find_first_zero) (use r in simp_all)
  then have "finish_cmdline nprocs c = Inr c2 \<or> finish_cmdline nprocs c = Inr (upd_world (miner_set_current_pool_index 0) c2)"
    using r(1) unfolding finish_cmdline_def Let_def n_def [symmetric] c1_def [symmetric] c2_def [symmetric] by simp
  moreover have "upd_world (miner_set_current_pool_index 0) c2 = c2"
    using cur by (simp add: upd_world_def miner_set_current_pool_index_def)
  ultimately show ?thesis using r cur assms(3) by (auto simp: snprintf_s_id)
qed

lemma single_phase [simp]:
  "single_pool url (c\<lparr>cf_cli_phase := b\<rparr>) = single_pool url c" "single_pool url (c\<lparr>cf_cli_url_seen := b\<rparr>) = single_pool url c"
  "array_or_none (c\<lparr>cf_cli_phase := b\<rparr>) = array_or_none c" "array_or_none (c\<lparr>cf_cli_url_seen := b\<rparr>) = array_or_none c"
  by (simp_all add: single_pool_def array_or_none_def)

lemma initial_array_or_none: "array_or_none (upd_world (miner_set_current_pool_index 0) (pool_init_defaults c))"
  using cleared_unregistered [of c]
  by (simp add: array_or_none_def pool_init_defaults_def clear_pool_option_defaults_def unregistered_def upd_world_def
      miner_set_current_pool_index_def)

text \<open>
  The last pool URL on the command line wins over everything else. When the configuration file could be
  applied and the options parse, the program goes on with exactly one pool, that URL and the pool as
  current and usable, whatever pools, URLs or disabled flags the file holds and in whatever order the
  options come.
\<close>

lemma command_line_url_selects_pool:
  assumes "getopt_long (normalize_legacy_arguments argv) = pre @ (Key CHR ''o'', url) # post"
    and "list_all (\<lambda>(k, _). k \<noteq> Key CHR ''o'') post" "url \<noteq> []" "length url < POOL_URL_FIELD_LEN"
    and "load_configured inet_pton J read_file default_readable (pre @ (Key CHR ''o'', url) # post)
      (upd_world (miner_set_current_pool_index 0) (pool_init_defaults initial_config)) = Inr c2"
    and "apply_cli_options inet_pton (pre @ (Key CHR ''o'', url) # post) (c2\<lparr>cf_cli_phase := True, cf_cli_url_seen := False\<rparr>) = Inr c3"
  shows "\<exists>c. parse_cmdline getopt_long inet_pton J read_file default_readable nprocs argv initial_config = Inr c \<and>
    w_num_pools (cf_world c) = 1 \<and> pool_url (pool_at (cf_world c) 0) = url \<and> w_current_pool (cf_world c) = 0 \<and>
    miner_pool_is_usable (cf_world c) 0"
proof -
  have "array_or_none c2" by (rule load_array_or_none [OF assms(5) initial_array_or_none])
  then have a: "array_or_none (c2\<lparr>cf_cli_phase := True, cf_cli_url_seen := False\<rparr>)" by simp
  obtain c4 where c4: "apply_cli_options inet_pton pre (c2\<lparr>cf_cli_phase := True, cf_cli_url_seen := False\<rparr>) = Inr c4"
    "apply_cli_options inet_pton ((Key CHR ''o'', url) # post) c4 = Inr c3"
    using assms(6) by (auto simp: cli_append then_run_Inr)
  have "single_pool url (apply_url_option url c4)"
    by (rule url_option_single [OF cli_array_or_none [OF c4(1) a] assms(3,4)])
  moreover have "apply_cli_options inet_pton post (apply_url_option url c4) = Inr c3"
    using c4(2) by (simp add: apply_option_def then_run_def)
  ultimately have "single_pool url c3" using cli_single assms(2) by blast
  then have "\<exists>c. finish_cmdline nprocs (c3\<lparr>cf_cli_phase := False\<rparr>) = Inr c \<and> w_num_pools (cf_world c) = 1 \<and>
    pool_url (pool_at (cf_world c) 0) = url \<and> w_current_pool (cf_world c) = 0 \<and> miner_pool_is_usable (cf_world c) 0"
    using finish_single [of url "c3\<lparr>cf_cli_phase := False\<rparr>"] assms(3,4) by simp
  then show ?thesis using assms(1,5,6) by (simp add: parse_cmdline_def then_run_def Let_def)
qed

definition witness_url_opts :: "(cli_option_id \<times> string) list" where
  "witness_url_opts = [(Key CHR ''D'', ''''), (Key CHR ''o'', ''stratum+tcp://a:1''), (Key CHR ''u'', ''w'')]"

lemma witness_preparse: "preparse_cmdline witness_url_opts None = (False, None)"
  by (simp add: witness_url_opts_def)

lemma witness_url_run:
  "\<exists>c3. apply_cli_options inet_pton witness_url_opts c = Inr c3"
  by (simp add: witness_url_opts_def apply_option_def then_run_def)

theorem accepted_configuration_runs_witness:
  "\<exists>c. parse_cmdline (\<lambda>_. witness_url_opts) (\<lambda>_. False) jval_lib (\<lambda>_. None) False 4 [''miner''] initial_config = Inr c \<and>
     1 \<le> opt_n_threads (w_opts (cf_world c)) \<and> config_ok c"
proof -
  let ?c1 = "upd_world (miner_set_current_pool_index 0) (pool_init_defaults (initial_config :: jval config))"
  obtain c3 where c3: "apply_cli_options (\<lambda>_. False) witness_url_opts (?c1\<lparr>cf_cli_phase := True, cf_cli_url_seen := False\<rparr>) = Inr c3"
    using witness_url_run by blast
  have "single_pool ''stratum+tcp://a:1'' c3"
  proof -
    have "single_pool ''stratum+tcp://a:1'' (apply_url_option ''stratum+tcp://a:1'' (?c1\<lparr>cf_cli_phase := True, cf_cli_url_seen := False, cf_debug := True\<rparr>))"
      by (rule url_option_single) (use initial_array_or_none [of initial_config] in \<open>simp_all add: array_or_none_def field_sizes\<close>)
    then show ?thesis
      using c3 cli_single [of "\<lambda>_. False" "[(Key CHR ''u'', ''w'')]" _ c3]
      by (auto simp: witness_url_opts_def apply_option_def then_run_def)
  qed
  then obtain c where "finish_cmdline 4 (c3\<lparr>cf_cli_phase := False\<rparr>) = Inr c"
    using finish_single [of "''stratum+tcp://a:1''" "c3\<lparr>cf_cli_phase := False\<rparr>" 4] by (auto simp: field_sizes)
  then have run: "parse_cmdline (\<lambda>_. witness_url_opts) (\<lambda>_. False) jval_lib (\<lambda>_. None) False 4 [''miner''] initial_config = Inr c"
    using c3 by (simp add: parse_cmdline_def load_configured_def witness_url_opts_def then_run_def Let_def)
  then show ?thesis using accepted_configuration_runs [OF run] by blast
qed

end
