(* ===== verification/Submits.thy ===== *)
theory Submits
  imports Runtime
begin

text \<open>
  Correlation of share submissions with the pool's replies (\<open>src/stratum_rpc.cpp\<close>): submit ids,
  the table of pending submits with its time-out, and the submission of a prepared line. The
  table is treated as a partial map from ids to metadata: an interface (\<open>pending_table\<close>) states
  what reserve, release and take do to the set of pending ids, the array of the source is shown
  to provide it, and it follows that a submit is credited at most once.
\<close>

section \<open>Identifiers\<close>

definition stratum_submit_id_next :: "stratum_ctx \<Rightarrow> u32 \<times> stratum_ctx" where
  "stratum_submit_id_next sctx =
     (let next = (if sctx_next_submit_id sctx < 10 then 10 else sctx_next_submit_id sctx)
      in (next, sctx\<lparr>sctx_next_submit_id := next + 1\<rparr>))"

definition submit_id_timeout_seconds :: "'j world \<Rightarrow> stratum_ctx \<Rightarrow> int" where
  "submit_id_timeout_seconds w sctx =
     (let timeout = miner_get_pool_timeout w (sctx_pooln sctx) in if 0 < timeout then timeout else 1)"

section \<open>The pending table\<close>

definition is_stale :: "int \<Rightarrow> int \<Rightarrow> pending_submit \<Rightarrow> bool" where
  "is_stale now timeout_seconds pending \<longleftrightarrow>
     ps_used pending \<and> ps_queued_at pending \<noteq> 0 \<and> ps_queued_at pending \<le> now \<and>
     timeout_seconds \<le> c_int (now - ps_queued_at pending)"

definition clear_slot :: "pending_submit \<Rightarrow> pending_submit" where
  "clear_slot pending = pending\<lparr>ps_used := False, ps_queued_at := 0\<rparr>"

definition submit_id_reap_stale_locked ::
  "int \<Rightarrow> int \<Rightarrow> pending_submit list \<Rightarrow> pending_submit list \<times> nat" where
  "submit_id_reap_stale_locked now timeout_seconds tab =
     (map (\<lambda>s. if is_stale now timeout_seconds s then clear_slot s else s) tab,
      length (filter (is_stale now timeout_seconds) tab))"

text \<open>The slot scans: the first free slot, the first used slot with an id.\<close>

definition pending_store :: "pending_submit \<Rightarrow> pending_submit list \<Rightarrow> pending_submit list option" where
  "pending_store entry tab =
     (case find_index (\<lambda>s. \<not> ps_used s) tab of
        None \<Rightarrow> None
      | Some slot \<Rightarrow> Some (tab[slot := entry]))"

definition pending_take ::
  "u32 \<Rightarrow> pending_submit list \<Rightarrow> (pending_submit \<times> pending_submit list) option" where
  "pending_take sid tab =
     (case find_index (\<lambda>s. ps_used s \<and> ps_id s = sid) tab of
        None \<Rightarrow> None
      | Some slot \<Rightarrow> Some (tab ! slot, tab[slot := clear_slot (tab ! slot)]))"

section \<open>Operations on a session\<close>

definition stratum_request_shutdown :: "nat \<Rightarrow> 'j world \<Rightarrow> 'j world" where
  "stratum_request_shutdown p w =
     (if sctx_sock (sctx_at w p) then w\<lparr>w_wire := w_wire w @ [(p, Shutdown)]\<rparr> else w)"

definition submit_id_request_reconnect :: "nat \<Rightarrow> 'j world \<Rightarrow> 'j world" where
  "submit_id_request_reconnect p w =
     (if sctx_reconnect_requested (sctx_at w p) then w
      else stratum_request_shutdown p (upd_sctx p (\<lambda>s. s\<lparr>sctx_reconnect_requested := True\<rparr>) w))"

definition submit_id_reserve ::
  "int \<Rightarrow> nat \<Rightarrow> u32 \<Rightarrow> double \<Rightarrow> int \<Rightarrow> 'j world \<Rightarrow> 'j world \<times> bool" where
  "submit_id_reserve now p sid sharediff thread_id w =
     (let sctx = sctx_at w p;
          (tab, reaped) = submit_id_reap_stale_locked now (submit_id_timeout_seconds w sctx)
                            (sctx_pending_submits sctx);
          entry = \<lparr>ps_id = sid, ps_sharediff = sharediff, ps_thread_id = thread_id,
                   ps_queued_at = now, ps_used = True\<rparr>;
          (tab', stored) = (case pending_store entry tab of None \<Rightarrow> (tab, False) | Some t \<Rightarrow> (t, True));
          w1 = upd_sctx p (\<lambda>s. s\<lparr>sctx_pending_submits := tab'\<rparr>) w
      in (if 0 < reaped then submit_id_request_reconnect p w1 else w1, stored))"

definition submit_id_release :: "nat \<Rightarrow> u32 \<Rightarrow> 'j world \<Rightarrow> 'j world" where
  "submit_id_release p sid w =
     (case pending_take sid (sctx_pending_submits (sctx_at w p)) of
        None \<Rightarrow> w
      | Some (_, tab) \<Rightarrow> upd_sctx p (\<lambda>s. s\<lparr>sctx_pending_submits := tab\<rparr>) w)"

text \<open>
  \<open>stratum_send_line\<close> as the callers see it: the outcome is decided by the transport
  (\<open>Transport\<close>), a line that was sent completely is recorded on the wire.
\<close>

definition stratum_send_line :: "bool \<Rightarrow> nat \<Rightarrow> 'j out_msg \<Rightarrow> 'j world \<Rightarrow> 'j world \<times> bool" where
  "stratum_send_line sent p line w =
     (if sent then (w\<lparr>w_wire := w_wire w @ [(p, line)]\<rparr>, True) else (w, False))"

definition stratum_send_submit ::
  "int \<Rightarrow> bool \<Rightarrow> nat \<Rightarrow> 'j out_msg \<Rightarrow> u32 \<Rightarrow> double \<Rightarrow> int \<Rightarrow> 'j world \<Rightarrow> 'j world \<times> bool" where
  "stratum_send_submit now sent p line submit_id sharediff thread_id w =
     (let (w1, stored) = submit_id_reserve now p submit_id sharediff thread_id w
      in if \<not> stored then (submit_id_request_reconnect p w1, False)
         else let (w2, ok) = stratum_send_line sent p line w1
              in if \<not> ok then (submit_id_release p submit_id w2, False) else (w2, True))"

definition submit_id_take_metadata ::
  "nat \<Rightarrow> u32 \<Rightarrow> 'j world \<Rightarrow> (double \<times> int) option \<times> 'j world" where
  "submit_id_take_metadata p sid w =
     (case pending_take sid (sctx_pending_submits (sctx_at w p)) of
        None \<Rightarrow> (None, w)
      | Some (entry, tab) \<Rightarrow>
          (Some (ps_sharediff entry, ps_thread_id entry),
           upd_sctx p (\<lambda>s. s\<lparr>sctx_pending_submits := tab\<rparr>) w))"

section \<open>The table as a multiset of ids\<close>

definition used_ids :: "pending_submit list \<Rightarrow> u32 list" where
  "used_ids tab = map ps_id (filter ps_used tab)"

definition id_count :: "pending_submit list \<Rightarrow> u32 \<Rightarrow> nat" where
  "id_count tab sid = length (filter (\<lambda>s. ps_used s \<and> ps_id s = sid) tab)"

locale pending_table =
  fixes store :: "'e \<Rightarrow> 't \<Rightarrow> 't option"
    and take_id :: "'k \<Rightarrow> 't \<Rightarrow> ('e \<times> 't) option"
    and reap :: "'r \<Rightarrow> 't \<Rightarrow> 't"
    and key :: "'e \<Rightarrow> 'k"
    and live :: "'e \<Rightarrow> bool"
    and count :: "'t \<Rightarrow> 'k \<Rightarrow> nat"
  assumes store_count:
      "store e t = Some t' \<Longrightarrow> live e \<Longrightarrow> count t' k = count t k + (if k = key e then 1 else 0)"
    and take_None: "take_id k t = None \<longleftrightarrow> count t k = 0"
    and take_count: "take_id k t = Some (e, t') \<Longrightarrow> count t' j = count t j - (if j = k then 1 else 0)"
    and take_key: "take_id k t = Some (e, t') \<Longrightarrow> key e = k \<and> live e"
    and reap_count: "count (reap r t) k \<le> count t k"
begin

lemma take_after_store:
  assumes "store e t = Some t'" "live e"
  shows "\<exists>e' u. take_id (key e) t' = Some (e', u) \<and> key e' = key e"
  using store_count [OF assms, of "key e"] take_None [of "key e" t'] take_key [of "key e" t']
  by (cases "take_id (key e) t'") auto

lemma take_balance:
  "count t j = (case take_id k t of
                  None \<Rightarrow> count t j
                | Some (e, t') \<Rightarrow> count t' j + (if j = k then 1 else 0))"
  using take_None [of k t] take_count [of k t] by (auto split: option.splits)

lemma take_once: "count t k = 1 \<Longrightarrow> take_id k t = Some (e, t') \<Longrightarrow> take_id k t' = None"
  using take_count [of k t e t' k] take_None [of k t'] by simp

end

section \<open>The source's array provides it\<close>

lemma find_index_split:
  "find_index P xs = Some i \<Longrightarrow> xs = take i xs @ xs ! i # drop (Suc i) xs"
  using find_index_SomeD [of P xs i] by (simp add: id_take_nth_drop)

lemma length_filter_update:
  assumes "i < length xs"
  shows "length (filter P (xs[i := x])) + (if P (xs ! i) then 1 else 0) =
         length (filter P xs) + (if P x then 1 else 0)"
proof -
  have "length (filter P xs) = length (filter P (take i xs @ xs ! i # drop (Suc i) xs))"
    using assms by (simp add: id_take_nth_drop [symmetric])
  then show ?thesis using assms by (simp add: upd_conv_take_nth_drop)
qed

lemma pending_store_count:
  assumes "pending_store e tab = Some tab'" "ps_used e"
  shows "id_count tab' sid = id_count tab sid + (if sid = ps_id e then 1 else 0)"
proof -
  from assms(1) obtain i where i: "find_index (\<lambda>s. \<not> ps_used s) tab = Some i" "tab' = tab[i := e]"
    by (auto simp: pending_store_def split: option.splits)
  from find_index_SomeD [OF i(1)] have "i < length tab" "\<not> ps_used (tab ! i)" by auto
  with length_filter_update [of i tab "\<lambda>s. ps_used s \<and> ps_id s = sid" e] i(2) assms(2)
  show ?thesis by (auto simp: id_count_def)
qed

lemma pending_take_None: "pending_take sid tab = None \<longleftrightarrow> id_count tab sid = 0"
  by (auto simp: pending_take_def id_count_def find_index_None filter_empty_conv split: option.splits
      dest!: find_index_SomeD)

lemma pending_take_count:
  assumes "pending_take sid tab = Some (e, tab')"
  shows "id_count tab' j = id_count tab j - (if j = sid then 1 else 0)"
proof -
  from assms obtain i where i: "find_index (\<lambda>s. ps_used s \<and> ps_id s = sid) tab = Some i"
      "tab' = tab[i := clear_slot (tab ! i)]"
    by (auto simp: pending_take_def split: option.splits)
  from find_index_SomeD [OF i(1)] have "i < length tab" "ps_used (tab ! i)" "ps_id (tab ! i) = sid"
    by auto
  with length_filter_update [of i tab "\<lambda>s. ps_used s \<and> ps_id s = j" "clear_slot (tab ! i)"] i(2)
  show ?thesis by (cases "j = sid") (auto simp: id_count_def clear_slot_def)
qed

lemma pending_take_entry: "pending_take sid tab = Some (e, tab') \<Longrightarrow> ps_id e = sid \<and> ps_used e"
  by (auto simp: pending_take_def split: option.splits dest!: find_index_SomeD)

lemma reap_count:
  "id_count (fst (submit_id_reap_stale_locked now timeout tab)) sid \<le> id_count tab sid"
  by (induction tab) (auto simp: submit_id_reap_stale_locked_def id_count_def clear_slot_def)

interpretation pending: pending_table pending_store pending_take
  "\<lambda>(now, timeout) tab. fst (submit_id_reap_stale_locked now timeout tab)" ps_id ps_used id_count
  by unfold_locales
    (use pending_store_count pending_take_None pending_take_count pending_take_entry reap_count
      in \<open>auto split: prod.splits\<close>)

section \<open>Sessions\<close>

lemma pending_request_reconnect [simp]:
  "p < length (w_pools w) \<Longrightarrow>
   sctx_pending_submits (sctx_at (submit_id_request_reconnect p w) q) = sctx_pending_submits (sctx_at w q)"
  by (simp add: submit_id_request_reconnect_def stratum_request_shutdown_def sctx_at_def pool_at_def
      upd_sctx_def upd_pool_def nth_list_update)

lemma length_request_reconnect [simp]:
  "length (w_pools (submit_id_request_reconnect p w)) = length (w_pools w)"
  by (simp add: submit_id_request_reconnect_def stratum_request_shutdown_def)

definition pending_count :: "'j world \<Rightarrow> nat \<Rightarrow> u32 \<Rightarrow> nat" where
  "pending_count w p sid = id_count (sctx_pending_submits (sctx_at w p)) sid"

lemma reserve_count:
  assumes "p < length (w_pools w)" "submit_id_reserve now p sid d thr w = (w', stored)"
  shows "pending_count w' p j \<le> pending_count w p j + (if stored \<and> j = sid then 1 else 0)"
    and "stored \<Longrightarrow> 0 < pending_count w' p sid"
    and "length (w_pools w') = length (w_pools w)"
proof -
  let ?tab = "sctx_pending_submits (sctx_at w p)"
  let ?to = "submit_id_timeout_seconds w (sctx_at w p)"
  let ?reaped = "fst (submit_id_reap_stale_locked now ?to ?tab)"
  let ?e = "\<lparr>ps_id = sid, ps_sharediff = d, ps_thread_id = thr, ps_queued_at = now, ps_used = True\<rparr>"
  have w': "sctx_pending_submits (sctx_at w' p) =
      (case pending_store ?e ?reaped of None \<Rightarrow> ?reaped | Some t \<Rightarrow> t)"
    and stored: "stored \<longleftrightarrow> pending_store ?e ?reaped \<noteq> None"
    and len: "length (w_pools w') = length (w_pools w)"
    using assms
    by (auto simp: submit_id_reserve_def Let_def sctx_at_upd_sctx split: prod.splits option.splits)
  have le: "id_count ?reaped k \<le> id_count ?tab k" for k using pending.reap_count [of "(now, ?to)" ?tab k] by simp
  show "pending_count w' p j \<le> pending_count w p j + (if stored \<and> j = sid then 1 else 0)"
    using w' stored le [of j] pending.store_count [of ?e ?reaped _ j]
    by (auto simp: pending_count_def split: option.splits)
  show "stored \<Longrightarrow> 0 < pending_count w' p sid"
    using w' stored pending.store_count [of ?e ?reaped _ sid]
    by (auto simp: pending_count_def split: option.splits)
  show "length (w_pools w') = length (w_pools w)" by (rule len)
qed

lemma release_count:
  "p < length (w_pools w) \<Longrightarrow>
   pending_count (submit_id_release p sid w) p j =
     pending_count w p j - (if j = sid then 1 else 0)"
  using pending.take_None [of sid "sctx_pending_submits (sctx_at w p)"]
  by (auto simp: submit_id_release_def pending_count_def sctx_at_upd_sctx pending.take_count
      split: option.splits)

lemma length_release [simp]: "length (w_pools (submit_id_release p sid w)) = length (w_pools w)"
  by (simp add: submit_id_release_def split: option.splits)

lemma send_submit_count:
  assumes "p < length (w_pools w)"
    and "stratum_send_submit now sent p line sid d thr w = (w', ok)"
  shows "pending_count w' p j \<le> pending_count w p j + (if ok \<and> j = sid then 1 else 0)"
    and "length (w_pools w') = length (w_pools w)"
proof -
  obtain w1 stored where r: "submit_id_reserve now p sid d thr w = (w1, stored)" by force
  note R = reserve_count [OF assms(1) r]
  have wire: "pending_count (w1\<lparr>w_wire := x\<rparr>) p j = pending_count w1 p j" for x
    by (simp add: pending_count_def sctx_at_def pool_at_def)
  show "pending_count w' p j \<le> pending_count w p j + (if ok \<and> j = sid then 1 else 0)"
    and "length (w_pools w') = length (w_pools w)"
    using assms R(1) [of j] R(2,3) r release_count [of p w1 sid j] wire
      pending_request_reconnect [of p w1 p]
    by (auto simp: stratum_send_submit_def stratum_send_line_def Let_def pending_count_def
        split: if_splits)
qed

lemma take_metadata_count:
  assumes "p < length (w_pools w)" "submit_id_take_metadata p sid w = (r, w')"
  shows "pending_count w' p j + (if r \<noteq> None \<and> j = sid then 1 else 0) = pending_count w p j"
    and "length (w_pools w') = length (w_pools w)"
  using assms pending.take_None [of sid "sctx_pending_submits (sctx_at w p)"]
  by (auto simp: submit_id_take_metadata_def pending_count_def sctx_at_upd_sctx pending.take_count
      split: option.splits)

text \<open>A session's traffic: submissions by workers and replies read by the service thread.\<close>

datatype 'j submit_event =
    Submit_Share int bool "'j out_msg" u32 double int
  | Submit_Reply u32

text \<open>The ids whose submission was sent, and the ids of replies that were credited.\<close>

primrec submit_trace ::
  "nat \<Rightarrow> 'j submit_event list \<Rightarrow> 'j world \<Rightarrow> u32 list \<times> u32 list" where
  "submit_trace p [] w = ([], [])"
| "submit_trace p (ev # evs) w =
     (case ev of
        Submit_Share now sent line sid d thr \<Rightarrow>
          (let (w', ok) = stratum_send_submit now sent p line sid d thr w;
               (sents, credited) = submit_trace p evs w'
           in (if ok then sid # sents else sents, credited))
      | Submit_Reply sid \<Rightarrow>
          (let (r, w') = submit_id_take_metadata p sid w;
               (sents, credited) = submit_trace p evs w'
           in (sents, if r \<noteq> None then sid # credited else credited)))"



section \<open>A stalled queue recovers\<close>

lemma reap_frees:
  assumes "s \<in> set tab" "\<not> ps_used s \<or> is_stale now timeout s"
  shows "find_index (\<lambda>s. \<not> ps_used s) (fst (submit_id_reap_stale_locked now timeout tab)) \<noteq> None"
proof -
  let ?f = "\<lambda>s. if is_stale now timeout s then clear_slot s else s"
  have "?f s \<in> set (map ?f tab)" using assms(1) by simp
  moreover have "\<not> ps_used (?f s)" using assms(2) by (auto simp: clear_slot_def)
  ultimately show ?thesis
    unfolding submit_id_reap_stale_locked_def fst_conv find_index_None by blast
qed

lemma reconnect_requested:
  "p < length (w_pools w) \<Longrightarrow> sctx_reconnect_requested (sctx_at (submit_id_request_reconnect p w) p)"
  by (simp add: submit_id_request_reconnect_def stratum_request_shutdown_def sctx_at_def pool_at_def
      upd_sctx_def upd_pool_def)

text \<open>
  A pool that stops answering cannot block share submission for good: when a pending submit is
  older than the pool's time-out the next submission reaps it, finds a slot, and its reply will be
  correlated; the session is asked to reconnect.
\<close>

lemma stalled_queue_recovers:
  assumes "p < length (w_pools w)" "s \<in> set (sctx_pending_submits (sctx_at w p))"
    and "is_stale now (submit_id_timeout_seconds w (sctx_at w p)) s"
    and "submit_id_reserve now p sid d thr w = (w', stored)"
  shows "stored \<and> sctx_reconnect_requested (sctx_at w' p) \<and>
         fst (submit_id_take_metadata p sid w') \<noteq> None"
proof -
  let ?to = "submit_id_timeout_seconds w (sctx_at w p)"
  let ?tab = "sctx_pending_submits (sctx_at w p)"
  have "find_index (\<lambda>s. \<not> ps_used s) (fst (submit_id_reap_stale_locked now ?to ?tab)) \<noteq> None"
    using assms(2,3) by (intro reap_frees) auto
  moreover have "0 < snd (submit_id_reap_stale_locked now ?to ?tab)"
    using assms(2,3) by (force simp: submit_id_reap_stale_locked_def filter_empty_conv)
  ultimately have st: "stored" and rc: "sctx_reconnect_requested (sctx_at w' p)"
    using assms(1,4)
    by (auto simp: submit_id_reserve_def pending_store_def Let_def reconnect_requested
        split: prod.splits option.splits)
  have "0 < pending_count w' p sid" using reserve_count(2) [OF assms(1,4) st] .
  then have "pending_take sid (sctx_pending_submits (sctx_at w' p)) \<noteq> None"
    using pending.take_None [of sid "sctx_pending_submits (sctx_at w' p)"] by (simp add: pending_count_def)
  with st rc show ?thesis by (auto simp: submit_id_take_metadata_def split: option.splits)
qed

definition witness_stalled :: "unit world" where
  "witness_stalled = upd_sctx 0 (\<lambda>s. s\<lparr>sctx_pending_submits :=
     [\<lparr>ps_id = 10, ps_sharediff = 1, ps_thread_id = 0, ps_queued_at = 100, ps_used = True\<rparr>]\<rparr>)
     (witness_world ALGO_VERUS)"

section \<open>Submit identifiers\<close>

fun submit_ids :: "nat \<Rightarrow> stratum_ctx \<Rightarrow> u32 list" where
  "submit_ids 0 sctx = []"
| "submit_ids (Suc n) sctx =
     (let (sid, sctx') = stratum_submit_id_next sctx in sid # submit_ids n sctx')"

definition id_pos :: "u32 \<Rightarrow> nat" where
  "id_pos x = (if x < 10 then 0 else unat x - 10)"

lemma id_pos_less: "id_pos x < 2 ^ 32 - 10"
  using unat_u32_less [of x] by (auto simp: id_pos_def)

lemma id_pos_eq: "10 \<le> x \<Longrightarrow> 10 \<le> y \<Longrightarrow> id_pos x = id_pos y \<longleftrightarrow> x = y"
  by (auto simp: id_pos_def word_le_nat_alt word_less_nat_alt word_unat_eq_iff)

lemma id_pos_inc: "10 \<le> x \<Longrightarrow> id_pos (x + 1) = (id_pos x + 1) mod (2 ^ 32 - 10)"
proof (cases "x = - 1")
  case True
  have "unat (- 1 :: u32) = 4294967295" by (simp add: unsigned_minus_1_eq_mask mask_eq_exp_minus_1)
  with True show ?thesis by (simp add: id_pos_def)
next
  case False
  assume "10 \<le> x"
  from False have "unat (x + 1) = unat x + 1"
    by (metis Suc_eq_plus1 add.commute add_eq_0_iff unatSuc)
  moreover have "unat x + 1 < 2 ^ 32"
    using calculation unat_u32_less [of "x + 1"] by simp
  ultimately show ?thesis using \<open>10 \<le> x\<close>
    by (auto simp: id_pos_def word_less_nat_alt word_le_nat_alt)
qed

lemma submit_ids_nth:
  "k < n \<Longrightarrow> 10 \<le> submit_ids n sctx ! k \<and>
   id_pos (submit_ids n sctx ! k) = (id_pos (sctx_next_submit_id sctx) + k) mod (2 ^ 32 - 10)"
proof (induction n arbitrary: sctx k)
  case (Suc n)
  define next_id where "next_id = (if sctx_next_submit_id sctx < 10 then 10 else sctx_next_submit_id sctx)"
  have n10: "10 \<le> next_id" by (auto simp: next_id_def)
  have pos: "id_pos next_id = id_pos (sctx_next_submit_id sctx)" by (simp add: next_id_def id_pos_def)
  have step: "submit_ids (Suc n) sctx = next_id # submit_ids n (sctx\<lparr>sctx_next_submit_id := next_id + 1\<rparr>)"
    by (simp add: stratum_submit_id_next_def next_id_def Let_def)
  show ?case
  proof (cases k)
    case 0
    then show ?thesis using n10 pos id_pos_less [of "sctx_next_submit_id sctx"]
      by (simp add: step del: submit_ids.simps)
  next
    case (Suc j)
    with Suc.IH [of j "sctx\<lparr>sctx_next_submit_id := next_id + 1\<rparr>"] Suc.prems
    show ?thesis using id_pos_inc [OF n10] pos
      by (simp add: step mod_simps add.assoc del: submit_ids.simps)
  qed
qed simp

lemma length_submit_ids [simp]: "length (submit_ids n sctx) = n"
  by (induction n arbitrary: sctx) (auto simp: Let_def split: prod.splits)

lemma mod_add_inj:
  assumes "(a + i) mod m = (a + j) mod m" "i < m" "j < (m :: nat)"
  shows "i = j"
proof -
  have "(int a + int i) mod int m = (int a + int j) mod int m"
    using assms(1) by (metis of_nat_add of_nat_mod)
  then have "int m dvd int i - int j" by (simp add: mod_eq_dvd_iff)
  with assms(2,3) show ?thesis using dvd_imp_le_int [of "int i - int j" "int m"] by fastforce
qed

text \<open>
  Submit ids never collide with the handshake's ids (1 to 9) and \<open>2 ^ 32 - 10\<close> consecutive ids
  of a session are pairwise different, also across the wrap-around of the 32-bit counter.
\<close>

lemma submit_ids_distinct:
  assumes "n \<le> 2 ^ 32 - 10"
  shows "distinct (submit_ids n sctx) \<and> (\<forall>sid \<in> set (submit_ids n sctx). 10 \<le> sid)"
proof
  show "distinct (submit_ids n sctx)"
    unfolding distinct_conv_nth
  proof (intro allI impI)
    fix i j assume "i < length (submit_ids n sctx)" "j < length (submit_ids n sctx)" "i \<noteq> j"
    then show "submit_ids n sctx ! i \<noteq> submit_ids n sctx ! j"
      using submit_ids_nth [of i n sctx] submit_ids_nth [of j n sctx] assms
        mod_add_inj [of "id_pos (sctx_next_submit_id sctx)" i "2 ^ 32 - 10" j]
      by (metis length_submit_ids order_less_le_trans)
  qed
  show "\<forall>sid \<in> set (submit_ids n sctx). 10 \<le> sid"
    using submit_ids_nth by (fastforce simp: in_set_conv_nth)
qed

end
