(* ===== verification/Transport.thy ===== *)
theory Transport
  imports Submits
begin

text \<open>
  The socket layer of \<open>src/stratum_transport.cpp\<close>: sending a line over a non-blocking socket or a
  TLS session, the receive buffer and its framing into lines, the URL handling and the connect
  sequence. What the kernel and libcurl answer is an argument: a script of events, one per loop
  iteration; a loop that consumes the whole script without ending gives \<open>None\<close>. The results: a
  send that reports success delivered exactly the line and its newline, the lines handed to the
  parser are exactly the lines of the byte stream however it is fragmented, and the buffer never
  overflows or grows past its limit.
\<close>

definition RBUFSIZE :: nat where "RBUFSIZE = 2048"
definition STRATUM_MAX_LINE_BYTES :: nat where "STRATUM_MAX_LINE_BYTES = 256 * 1024"

section \<open>Polling\<close>

datatype poll_flag = POLLIN | POLLOUT | POLLERR | POLLHUP | POLLNVAL

datatype poll_answer = Poll_Eintr | Poll_Fail | Poll_Timeout | Poll_Ready "poll_flag list"

text \<open>The result of one call: the first answer that is not an interrupt.\<close>

fun stratum_poll_socket :: "bool \<Rightarrow> poll_answer list \<Rightarrow> poll_answer option" where
  "stratum_poll_socket sock answers =
     (if \<not> sock then Some Poll_Fail
      else case answers of
             [] \<Rightarrow> None
           | Poll_Eintr # rest \<Rightarrow> stratum_poll_socket sock rest
           | a # _ \<Rightarrow> Some a)"

declare stratum_poll_socket.simps [simp del]

definition stratum_socket_full :: "bool \<Rightarrow> poll_answer list \<Rightarrow> bool option" where
  "stratum_socket_full sock answers =
     (case stratum_poll_socket sock answers of
        None \<Rightarrow> None
      | Some (Poll_Ready revents) \<Rightarrow>
          Some (POLLIN \<in> set revents \<or> POLLHUP \<in> set revents \<or> POLLERR \<in> set revents)
      | Some _ \<Rightarrow> Some False)"

section \<open>Sending\<close>

datatype send_answer = Sent nat | Send_Again | Send_Fail

record send_event =
  se_poll :: "poll_answer list"
  se_send :: send_answer

text \<open>The bytes offered to \<open>sendmsg\<close> when \<open>sent\<close> of them are already out.\<close>

definition send_iov :: "string \<Rightarrow> nat \<Rightarrow> string" where
  "send_iov s sent =
     (let payload_sent = (if sent < length s then sent else length s);
          newline_sent = (if length s < sent then sent - length s else 0)
      in (if payload_sent < length s then drop payload_sent s else []) @
         (if newline_sent = 0 then ''\<newline>'' else []))"

text \<open>
  The loop of \<open>send_line\<close>: the bytes the peer's stream has received and the result. The kernel
  accepts a prefix of the offered bytes.
\<close>

fun send_line_loop :: "string \<Rightarrow> nat \<Rightarrow> string \<Rightarrow> send_event list \<Rightarrow> (string \<times> bool) option" where
  "send_line_loop s sent out events =
     (if length s + 1 \<le> sent then Some (out, True)
      else case events of
             [] \<Rightarrow> None
           | ev # rest \<Rightarrow>
               (case stratum_poll_socket True (se_poll ev) of
                  None \<Rightarrow> None
                | Some (Poll_Ready revents) \<Rightarrow>
                    (if POLLERR \<in> set revents \<or> POLLHUP \<in> set revents \<or> POLLNVAL \<in> set revents
                     then Some (out, False)
                     else if POLLOUT \<notin> set revents then Some (out, False)
                     else case se_send ev of
                            Sent n \<Rightarrow>
                              (let m = min n (length (send_iov s sent))
                               in send_line_loop s (sent + m) (out @ take m (send_iov s sent)) rest)
                          | Send_Again \<Rightarrow> send_line_loop s sent out rest
                          | Send_Fail \<Rightarrow> Some (out, False))
                | Some _ \<Rightarrow> Some (out, False)))"

declare send_line_loop.simps [simp del]

definition send_line :: "bool \<Rightarrow> string \<Rightarrow> send_event list \<Rightarrow> (string \<times> bool) option" where
  "send_line sock s events = (if \<not> sock then Some ([], False) else send_line_loop s 0 [] events)"

text \<open>The TLS variant: \<open>curl_easy_send\<close> first, polling only when it would block.\<close>

fun send_tls_loop ::
  "bool \<Rightarrow> bool \<Rightarrow> string \<Rightarrow> nat \<Rightarrow> string \<Rightarrow> send_event list \<Rightarrow> (string \<times> bool) option" where
  "send_tls_loop curl sock line sent out events =
     (if length line \<le> sent then Some (out, True)
      else if \<not> curl \<or> \<not> sock then Some (out, False)
      else case events of
             [] \<Rightarrow> None
           | ev # rest \<Rightarrow>
               (case se_send ev of
                  Sent n \<Rightarrow>
                    (let m = min n (length (drop sent line))
                     in send_tls_loop curl sock line (sent + m) (out @ take m (drop sent line)) rest)
                | Send_Fail \<Rightarrow> Some (out, False)
                | Send_Again \<Rightarrow>
                    (case stratum_poll_socket sock (se_poll ev) of
                       None \<Rightarrow> None
                     | Some (Poll_Ready revents) \<Rightarrow>
                         (if POLLERR \<in> set revents \<or> POLLHUP \<in> set revents \<or> POLLNVAL \<in> set revents
                          then Some (out, False)
                          else send_tls_loop curl sock line sent out rest)
                     | Some _ \<Rightarrow> Some (out, False))))"

declare send_tls_loop.simps [simp del]

definition send_line_tls :: "stratum_ctx \<Rightarrow> string \<Rightarrow> send_event list \<Rightarrow> (string \<times> bool) option" where
  "send_line_tls sctx s events =
     send_tls_loop (sctx_curl sctx) (sctx_sock sctx) (s @ ''\<newline>'') 0 [] events"

definition transport_send_line :: "stratum_ctx \<Rightarrow> string \<Rightarrow> send_event list \<Rightarrow> (string \<times> bool) option" where
  "transport_send_line sctx s events =
     (if sctx_use_tls sctx then send_line_tls sctx s events else send_line (sctx_sock sctx) s events)"

section \<open>The receive buffer\<close>

definition stratum_reserve_socket_buffer :: "nat \<Rightarrow> stratum_ctx \<Rightarrow> stratum_ctx \<times> bool" where
  "stratum_reserve_socket_buffer min_size sctx =
     (if STRATUM_MAX_LINE_BYTES + 1 < min_size then (sctx, False)
      else if min_size < sctx_sockbuf_size sctx then (sctx, True)
      else (sctx\<lparr>sctx_sockbuf_size := min_size + (RBUFSIZE - min_size mod RBUFSIZE)\<rparr>, True))"

definition sockbuf :: "stratum_ctx \<Rightarrow> string" where
  "sockbuf sctx = (case sctx_sockbuf sctx of None \<Rightarrow> [] | Some b \<Rightarrow> b)"

definition stratum_buffer_append :: "string \<Rightarrow> stratum_ctx \<Rightarrow> stratum_ctx \<times> bool" where
  "stratum_buffer_append s sctx =
     (let (sctx1, ok) = stratum_reserve_socket_buffer (length (sockbuf sctx) + length s + 1) sctx
      in if \<not> ok then (sctx1, False)
         else (sctx1\<lparr>sctx_sockbuf := Some (sockbuf sctx1 @ s)\<rparr>, True))"

definition stratum_ensure_socket_buffer :: "stratum_ctx \<Rightarrow> stratum_ctx" where
  "stratum_ensure_socket_buffer sctx =
     (if sctx_sockbuf sctx = None then sctx\<lparr>sctx_sockbuf := Some [], sctx_sockbuf_size := RBUFSIZE\<rparr>
      else sctx\<lparr>sctx_sockbuf := Some []\<rparr>)"

definition stratum_reset_socket_buffer :: "stratum_ctx \<Rightarrow> stratum_ctx" where
  "stratum_reset_socket_buffer sctx = sctx\<lparr>sctx_sockbuf := map_option (\<lambda>_. []) (sctx_sockbuf sctx)\<rparr>"

definition stratum_take_buffer_line :: "stratum_ctx \<Rightarrow> (string \<times> stratum_ctx) option" where
  "stratum_take_buffer_line sctx =
     (let b = sockbuf sctx
      in if CHR ''\<newline>'' \<notin> set b then None
         else Some (takeWhile (\<lambda>c. c \<noteq> CHR ''\<newline>'') b,
                    sctx\<lparr>sctx_sockbuf := Some (tl (dropWhile (\<lambda>c. c \<noteq> CHR ''\<newline>'') b))\<rparr>))"

section \<open>Receiving a line\<close>

datatype recv_answer = Recv_Data string | Recv_Eof | Recv_Again | Recv_Fail

record recv_event =
  re_now :: int
  re_poll :: "poll_answer list"
  re_recv :: recv_answer

datatype recv_result = Line string | Timed_Out | Recv_Failed

text \<open>Received bytes that hold a NUL, or that do not fit, end the session.\<close>

definition accept_chunk :: "string \<Rightarrow> stratum_ctx \<Rightarrow> stratum_ctx \<times> bool" where
  "accept_chunk s sctx = (if CHR 0x00 \<in> set s then (sctx, False) else stratum_buffer_append s sctx)"

fun recv_loop ::
  "int \<Rightarrow> recv_event list \<Rightarrow> stratum_ctx \<Rightarrow> (recv_result \<times> stratum_ctx \<times> recv_event list) option" where
  "recv_loop deadline events sctx =
     (if CHR ''\<newline>'' \<in> set (sockbuf sctx) then
        (case stratum_take_buffer_line sctx of
           None \<Rightarrow> Some (Recv_Failed, sctx, events)
         | Some (line, sctx') \<Rightarrow> Some (Line line, sctx', events))
      else case events of
             [] \<Rightarrow> None
           | ev # rest \<Rightarrow>
               (if deadline - re_now ev < 1 then Some (Timed_Out, sctx, rest)
                else if sctx_use_tls sctx then
                  (if \<not> sctx_curl sctx \<or> \<not> sctx_sock sctx then Some (Recv_Failed, sctx, rest)
                   else case re_recv ev of
                          Recv_Again \<Rightarrow>
                            (case stratum_socket_full (sctx_sock sctx) (re_poll ev) of
                               None \<Rightarrow> None
                             | Some full \<Rightarrow>
                                 (if full then recv_loop deadline rest sctx
                                  else Some (Timed_Out, sctx, rest)))
                        | Recv_Eof \<Rightarrow> Some (Recv_Failed, sctx, rest)
                        | Recv_Fail \<Rightarrow> Some (Recv_Failed, sctx, rest)
                        | Recv_Data s \<Rightarrow>
                            (case accept_chunk s sctx of
                               (sctx', ok) \<Rightarrow> if ok then recv_loop deadline rest sctx'
                                              else Some (Recv_Failed, sctx', rest)))
                else case stratum_socket_full (sctx_sock sctx) (re_poll ev) of
                       None \<Rightarrow> None
                     | Some full \<Rightarrow>
                         (if \<not> full then Some (Timed_Out, sctx, rest)
                          else case re_recv ev of
                                 Recv_Again \<Rightarrow> recv_loop deadline rest sctx
                               | Recv_Eof \<Rightarrow> Some (Recv_Failed, sctx, rest)
                               | Recv_Fail \<Rightarrow> Some (Recv_Failed, sctx, rest)
                               | Recv_Data s \<Rightarrow>
                                   (case accept_chunk s sctx of
                                      (sctx', ok) \<Rightarrow> if ok then recv_loop deadline rest sctx'
                                                     else Some (Recv_Failed, sctx', rest)))))"

declare recv_loop.simps [simp del]

definition stratum_recv_line_timeout ::
  "int \<Rightarrow> int \<Rightarrow> recv_event list \<Rightarrow> stratum_ctx \<Rightarrow>
   (recv_result \<times> stratum_ctx \<times> recv_event list) option" where
  "stratum_recv_line_timeout now timeout events sctx =
     (if sctx_sockbuf sctx = None then Some (Recv_Failed, sctx, events)
      else recv_loop (now + (if timeout < 1 then 1 else timeout)) events sctx)"

section \<open>URLs and the connect sequence\<close>

definition stratum_url_is_tls :: "string \<Rightarrow> bool" where
  "stratum_url_is_tls url \<longleftrightarrow>
     strncasecmp_eq url ''stratum+ssl://'' 14 \<or> strncasecmp_eq url ''stratum+tcps://'' 15 \<or>
     strncasecmp_eq url ''ssl://'' 6 \<or> strncasecmp_eq url ''tls://'' 6"

definition stratum_build_curl_url :: "stratum_ctx \<Rightarrow> stratum_ctx \<times> bool" where
  "stratum_build_curl_url sctx =
     (case sctx_url sctx of
        None \<Rightarrow> (sctx, False)
      | Some url \<Rightarrow>
          (case strstr url ''://'' of
             None \<Rightarrow> (sctx, False)
           | Some scheme \<Rightarrow>
               (let tls = stratum_url_is_tls url
                in (sctx\<lparr>sctx_use_tls := tls,
                         sctx_curl_url := Some (snprintf_s (length url + 6)
                           ((if tls then ''https'' else ''http'') @ scheme))\<rparr>, True))))"

text \<open>The suffix after the last \<open>':'\<close> and the part before it.\<close>

definition split_port :: "string \<Rightarrow> (string \<times> string) option" where
  "split_port authority =
     (if CHR '':'' \<in> set authority then
        Some (rev (tl (dropWhile (\<lambda>c. c \<noteq> CHR '':'') (rev authority))),
              rev (takeWhile (\<lambda>c. c \<noteq> CHR '':'') (rev authority)))
      else None)"

definition stratum_extract_host_port :: "nat \<Rightarrow> stratum_ctx \<Rightarrow> (string \<times> int) option" where
  "stratum_extract_host_port host_out_len sctx =
     (case strstr (case sctx_url sctx of None \<Rightarrow> [] | Some u \<Rightarrow> u) ''://'' of
        None \<Rightarrow> None
      | Some p \<Rightarrow>
          (let host_start = drop 3 p;
               authority = takeWhile (\<lambda>c. c \<noteq> CHR ''/'') host_start;
               tail = dropWhile (\<lambda>c. c \<noteq> CHR ''/'') host_start;
               checked = (\<lambda>host port. if host = [] \<or> host_out_len \<le> length host then None
                                      else Some (host, port))
           in if host_start \<noteq> [] \<and> hd host_start = CHR ''['' then None
              else case split_port authority of
                     Some (host, port_str) \<Rightarrow>
                       (let (port, end_ptr, _) = strtol (port_str @ tail)
                        in if end_ptr \<noteq> tail \<or> port \<le> 0 \<or> 65535 < port then None
                           else checked host port)
                   | None \<Rightarrow> checked authority (if sctx_use_tls sctx then 443 else 80)))"

datatype curl_code = CURLE_OK | CURLE_COULDNT_RESOLVE_HOST | CURLE_OTHER

definition DNS_FALLBACK_MAX_IPS :: nat where "DNS_FALLBACK_MAX_IPS = 8"
definition DNS_FALLBACK_ADDRSTRLEN :: nat where "DNS_FALLBACK_ADDRSTRLEN = 46"
definition RESOLVE_ENTRY_SIZE :: nat where
  "RESOLVE_ENTRY_SIZE = 256 + 8 + DNS_FALLBACK_MAX_IPS * (DNS_FALLBACK_ADDRSTRLEN + 1)"

text \<open>
  The loop \<open>for (i = 1; i < n && off < sizeof(entry); i++)\<close>: \<open>off\<close> counts what \<open>snprintf\<close> wanted
  to write, the buffer keeps what fits.
\<close>

fun append_ips :: "nat \<Rightarrow> string \<Rightarrow> string list \<Rightarrow> string" where
  "append_ips off entry [] = entry"
| "append_ips off entry (ip # ips) =
     (if off < RESOLVE_ENTRY_SIZE then
        append_ips (off + length ip + 1)
          (take off entry @ snprintf_s (RESOLVE_ENTRY_SIZE - off) ('','' @ ip)) ips
      else entry)"

definition resolve_entry :: "string \<Rightarrow> int \<Rightarrow> string list \<Rightarrow> string" where
  "resolve_entry host port ips =
     (let first = host @ '':'' @ show_nat (nat port) @ '':'' @ hd ips
      in append_ips (length first) (snprintf_s RESOLVE_ENTRY_SIZE first) (tl ips))"

text \<open>
  The retry after a resolver failure: \<open>ips\<close> is the answer of \<open>dns_fallback_resolve\<close>, \<open>retried\<close>
  the second \<open>curl_easy_perform\<close>. The result also tells which \<open>CURLOPT_RESOLVE\<close> entry was set.
\<close>

definition stratum_retry_with_dns_fallback ::
  "string list \<Rightarrow> curl_code \<Rightarrow> stratum_ctx \<Rightarrow> curl_code \<Rightarrow> curl_code \<times> string option" where
  "stratum_retry_with_dns_fallback ips retried sctx rc =
     (if rc \<noteq> CURLE_COULDNT_RESOLVE_HOST then (rc, None)
      else case stratum_extract_host_port 256 sctx of
             None \<Rightarrow> (rc, None)
           | Some (host, port) \<Rightarrow>
               (if ips = [] then (rc, None)
                else (retried, Some (resolve_entry host port (take DNS_FALLBACK_MAX_IPS ips)))))"

definition stratum_close_transport :: "stratum_ctx \<Rightarrow> stratum_ctx" where
  "stratum_close_transport sctx =
     stratum_reset_socket_buffer (sctx\<lparr>sctx_curl := False, sctx_sock := False\<rparr>)"

definition stratum_prepare_transport_locked :: "bool \<Rightarrow> stratum_ctx \<Rightarrow> stratum_ctx \<times> bool" where
  "stratum_prepare_transport_locked init_ok sctx =
     (if \<not> init_ok then (sctx\<lparr>sctx_curl := False\<rparr>, False)
      else (stratum_ensure_socket_buffer (sctx\<lparr>sctx_curl := True\<rparr>), True))"

text \<open>What libcurl answers during one connect attempt.\<close>

record curl_env =
  ce_init :: bool
  ce_ssl :: bool
  ce_perform :: curl_code
  ce_retry :: curl_code
  ce_ips :: "string list"

definition stratum_connect :: "curl_env \<Rightarrow> stratum_ctx \<Rightarrow> stratum_ctx \<times> bool" where
  "stratum_connect env sctx =
     (if sctx_url sctx = None \<or> sctx_url sctx = Some [] then (sctx, False)
      else case stratum_prepare_transport_locked (ce_init env) sctx of
             (s1, False) \<Rightarrow> (s1, False)
           | (s1, True) \<Rightarrow>
               (case stratum_build_curl_url s1 of
                  (s2, False) \<Rightarrow> (stratum_close_transport s2, False)
                | (s2, True) \<Rightarrow>
                    (if sctx_use_tls s2 \<and> \<not> ce_ssl env then (stratum_close_transport s2, False)
                     else
                       let rc = (if ce_perform env = CURLE_OK then CURLE_OK
                                 else fst (stratum_retry_with_dns_fallback (ce_ips env) (ce_retry env)
                                             s2 (ce_perform env)))
                       in if rc \<noteq> CURLE_OK then (stratum_close_transport s2, False)
                          else (s2\<lparr>sctx_sock := True\<rparr>, True))))"

section \<open>Sending delivers the line\<close>

lemma send_iov_suffix: "sent \<le> length s + 1 \<Longrightarrow> send_iov s sent = drop sent (s @ ''\<newline>'')"
  by (auto simp: send_iov_def Let_def le_Suc_eq)

lemma take_extend: "take (sent + m) xs = take sent xs @ take m (drop sent xs)"
  by (simp add: take_add)

lemma take_of_take: "take (length (take n xs)) xs = take n xs"
  by (cases "n \<le> length xs") auto

lemma send_line_loop_prefix:
  fixes s :: string
  defines "line \<equiv> s @ ''\<newline>''"
  shows "send_line_loop s sent out events = Some (res, ok) \<Longrightarrow> sent \<le> length line \<Longrightarrow>
    out = take sent line \<Longrightarrow> (ok \<longrightarrow> res = line) \<and> take (length res) line = res"
proof (induction events arbitrary: sent out)
  case Nil
  then have "ok" "res = take sent line" "length line \<le> sent"
    by (auto simp: send_line_loop.simps line_def split: if_splits)
  then show ?case by simp
next
  case (Cons ev rest)
  have stop: "(ok \<longrightarrow> res = line) \<and> take (length res) line = res"
    if "send_line_loop s sent out (ev # rest) = Some (out, False)"
    using that Cons.prems(1,3) take_of_take [of sent line] by simp
  show ?case
  proof (cases "length s + 1 \<le> sent")
    case True
    with Cons.prems have "ok" "res = take sent line" "length line \<le> sent"
      by (auto simp: send_line_loop.simps line_def)
    then show ?thesis by simp
  next
    case False
    let ?iov = "send_iov s sent"
    have iov: "?iov = drop sent line" using Cons.prems(2) by (simp add: send_iov_suffix line_def)
    have step: "out @ take m ?iov = take (sent + m) line" for m
      using Cons.prems(3) by (simp only: iov take_extend)
    have bound: "sent + min n (length ?iov) \<le> length line" for n
      using Cons.prems(2) by (simp add: iov)
    note unfolded = send_line_loop.simps [of s sent out "ev # rest", unfolded if_not_P [OF False] list.case]
    obtain a where a: "stratum_poll_socket True (se_poll ev) = Some a"
      using Cons.prems(1) by (auto simp: unfolded split: option.splits)
    note unfolded = unfolded [unfolded a option.case]
    show ?thesis
    proof (cases "send_line_loop s sent out (ev # rest) = Some (out, False)")
      case True
      then show ?thesis by (rule stop)
    next
      case notend: False
      then obtain revents where r: "a = Poll_Ready revents"
        by (cases a) (auto simp: unfolded)
      show ?thesis
      proof (cases "se_send ev")
        case (Sent n)
        let ?m = "min n (length ?iov)"
        have "send_line_loop s sent out (ev # rest) =
            send_line_loop s (sent + ?m) (out @ take ?m ?iov) rest"
          using notend r Sent by (simp add: unfolded Let_def split: if_splits)
        with Cons.IH [of "sent + ?m" "out @ take ?m ?iov"] Cons.prems(1) bound [of n] step [of ?m]
        show ?thesis by simp
      next
        case Send_Again
        then have "send_line_loop s sent out (ev # rest) = send_line_loop s sent out rest"
          using notend r by (simp add: unfolded split: if_splits)
        with Cons.IH [of sent out] Cons.prems show ?thesis by simp
      next
        case Send_Fail
        then show ?thesis using notend r by (simp add: unfolded split: if_splits)
      qed
    qed
  qed
qed

lemma send_tls_loop_prefix:
  "send_tls_loop curl sock line sent out events = Some (res, ok) \<Longrightarrow> sent \<le> length line \<Longrightarrow>
   out = take sent line \<Longrightarrow> (ok \<longrightarrow> res = line) \<and> take (length res) line = res"
proof (induction events arbitrary: sent out)
  case Nil
  then show ?case using take_of_take [of sent line]
    by (auto simp: send_tls_loop.simps split: if_splits)
next
  case (Cons ev rest)
  have fin: "(ok \<longrightarrow> res = line) \<and> take (length res) line = res"
    if "send_tls_loop curl sock line sent out (ev # rest) = Some (out, b)" "b \<longrightarrow> length line \<le> sent" for b
    using that Cons.prems(1,3) take_of_take [of sent line] by auto
  show ?case
  proof (cases "length line \<le> sent \<or> \<not> curl \<or> \<not> sock")
    case True
    then show ?thesis by (intro fin [of "length line \<le> sent"]) (auto simp: send_tls_loop.simps)
  next
    case False
    then have "\<not> length line \<le> sent" "\<not> (\<not> curl \<or> \<not> sock)" by auto
    note unfolded = send_tls_loop.simps [of curl sock line sent out "ev # rest",
        unfolded if_not_P [OF this(1)] if_not_P [OF this(2)] list.case]
    show ?thesis
    proof (cases "se_send ev")
      case (Sent n)
      let ?m = "min n (length (drop sent line))"
      have "send_tls_loop curl sock line sent out (ev # rest) =
          send_tls_loop curl sock line (sent + ?m) (take (sent + ?m) line) rest"
        by (subst unfolded) (simp add: Let_def take_extend Sent Cons.prems(3))
      with Cons.IH [of "sent + ?m"] Cons.prems(1,2) show ?thesis by simp
    next
      case Send_Again
      show ?thesis
      proof (cases "send_tls_loop curl sock line sent out (ev # rest) = Some (out, False)")
        case True
        then show ?thesis by (rule fin) simp
      next
        case notend: False
        then have "send_tls_loop curl sock line sent out (ev # rest) =
            send_tls_loop curl sock line sent out rest"
          using Send_Again Cons.prems(1)
          unfolding unfolded by (auto split: option.splits poll_answer.splits if_splits)
        with Cons.IH [of sent out] Cons.prems show ?thesis by simp
      qed
    next
      case Send_Fail
      then show ?thesis by (intro fin [of False]) (simp_all add: unfolded)
    qed
  qed
qed


definition witness_send :: "send_event list" where
  "witness_send =
     [\<lparr>se_poll = [Poll_Eintr, Poll_Ready [POLLOUT]], se_send = Sent 2\<rparr>,
      \<lparr>se_poll = [Poll_Ready [POLLOUT]], se_send = Send_Again\<rparr>,
      \<lparr>se_poll = [Poll_Ready [POLLOUT]], se_send = Sent 9\<rparr>]"


text \<open>
  C31. The send loop cannot spin: when every poll reports the socket writable and every write
  accepts at least one byte, as many iterations as the line has bytes (newline included) send it.
\<close>

theorem send_line_completes:
  assumes "\<And>ev. ev \<in> set events \<Longrightarrow>
      se_poll ev = [Poll_Ready [POLLOUT]] \<and> (\<exists>n. se_send ev = Sent (Suc n))"
    and "length s + 1 \<le> length events"
  shows "send_line True s events = Some (s @ ''\<newline>'', True)"
proof -
  have "\<exists>out'. send_line_loop s sent out evs = Some (out', True)"
    if "set evs \<subseteq> set events" "length s + 1 \<le> sent + length evs" "sent \<le> length s + 1" for evs sent out
    using that
  proof (induction evs arbitrary: sent out)
    case Nil
    then show ?case by (simp add: send_line_loop.simps)
  next
    case (Cons ev rest)
    then obtain n where ev: "se_poll ev = [Poll_Ready [POLLOUT]]" "se_send ev = Sent (Suc n)"
      using assms(1) [of ev] by auto
    show ?case
    proof (cases "length s + 1 \<le> sent")
      case True
      then show ?thesis by (simp add: send_line_loop.simps)
    next
      case False
      define m where "m = min (Suc n) (length (send_iov s sent))"
      have "0 < m" "sent + m \<le> length s + 1" using False by (auto simp: m_def send_iov_suffix)
      then have "\<exists>out'. send_line_loop s (sent + m) (out @ take m (send_iov s sent)) rest =
          Some (out', True)"
        using Cons.prems by (intro Cons.IH) auto
      with ev show ?thesis
        by (simp add: send_line_loop.simps [of s sent out "ev # rest", unfolded if_not_P [OF False] list.case]
            stratum_poll_socket.simps Let_def m_def)
    qed
  qed
  from this [of events 0 "[]"] assms(2) obtain out' where
    "send_line_loop s 0 [] events = Some (out', True)" by auto
  with send_line_loop_prefix [of s 0 "[]" events out' True] show ?thesis by (simp add: send_line_def)
qed

theorem send_line_completes_witness:
  "send_line True ''a'' (replicate 2 \<lparr>se_poll = [Poll_Ready [POLLOUT]], se_send = Sent 1\<rparr>) =
   Some (''a'' @ ''\<newline>'', True)"
  by (rule send_line_completes) auto

section \<open>Framing\<close>

text \<open>The bytes an event delivers.\<close>

definition event_data :: "recv_event \<Rightarrow> string" where
  "event_data ev = (case re_recv ev of Recv_Data s \<Rightarrow> s | _ \<Rightarrow> [])"

definition stream_data :: "recv_event list \<Rightarrow> string" where
  "stream_data events = concat (map event_data events)"

lemma accept_chunk_ok:
  "accept_chunk s sctx = (sctx', True) \<Longrightarrow> sockbuf sctx' = sockbuf sctx @ s"
  by (auto simp: accept_chunk_def stratum_buffer_append_def stratum_reserve_socket_buffer_def
      sockbuf_def Let_def split: if_splits prod.splits)

lemma take_buffer_line:
  "stratum_take_buffer_line sctx = Some (line, sctx') \<Longrightarrow>
   sockbuf sctx = line @ CHR ''\<newline>'' # sockbuf sctx' \<and> CHR ''\<newline>'' \<notin> set line"
proof -
  assume "stratum_take_buffer_line sctx = Some (line, sctx')"
  then have b: "CHR ''\<newline>'' \<in> set (sockbuf sctx)"
      "line = takeWhile (\<lambda>c. c \<noteq> CHR ''\<newline>'') (sockbuf sctx)"
      "sockbuf sctx' = tl (dropWhile (\<lambda>c. c \<noteq> CHR ''\<newline>'') (sockbuf sctx))"
    by (auto simp: stratum_take_buffer_line_def sockbuf_def [of "_\<lparr>sctx_sockbuf := _\<rparr>"] Let_def
        split: if_splits)
  have "dropWhile (\<lambda>c. c \<noteq> CHR ''\<newline>'') (sockbuf sctx) =
      CHR ''\<newline>'' # tl (dropWhile (\<lambda>c. c \<noteq> CHR ''\<newline>'') (sockbuf sctx))"
    using b(1) hd_dropWhile [of "\<lambda>c. c \<noteq> CHR ''\<newline>''" "sockbuf sctx"]
    by (cases "dropWhile (\<lambda>c. c \<noteq> CHR ''\<newline>'') (sockbuf sctx)") (auto simp: dropWhile_eq_Nil_conv)
  then show ?thesis using b takeWhile_dropWhile_id [of "\<lambda>c. c \<noteq> CHR ''\<newline>''" "sockbuf sctx"]
    by (metis set_takeWhileD)
qed

lemma recv_loop_step:
  assumes "recv_loop deadline (ev # rest) sctx = Some (Line line, sctx', left)"
    and "CHR ''\<newline>'' \<notin> set (sockbuf sctx)"
  shows "\<exists>sctx1. recv_loop deadline rest sctx1 = Some (Line line, sctx', left) \<and>
                 sockbuf sctx1 = sockbuf sctx @ event_data ev"
  using assms accept_chunk_ok [of "event_data ev" sctx]
  by (subst (asm) recv_loop.simps)
    (auto simp: event_data_def split: if_splits recv_answer.splits option.splits prod.splits)

lemma recv_loop_line:
  "recv_loop deadline events sctx = Some (Line line, sctx', left) \<Longrightarrow>
   \<exists>used. events = used @ left \<and> CHR ''\<newline>'' \<notin> set line \<and>
     sockbuf sctx @ stream_data used = line @ CHR ''\<newline>'' # sockbuf sctx'"
proof (induction events arbitrary: sctx)
  case Nil
  then show ?case using take_buffer_line [of sctx]
    by (subst (asm) recv_loop.simps) (auto simp: stream_data_def split: if_splits option.splits)
next
  case (Cons ev rest)
  show ?case
  proof (cases "CHR ''\<newline>'' \<in> set (sockbuf sctx)")
    case True
    with Cons.prems take_buffer_line [of sctx] show ?thesis
      by (subst (asm) recv_loop.simps) (auto simp: stream_data_def split: option.splits)
  next
    case False
    from recv_loop_step [OF Cons.prems False] obtain sctx1 where
      r: "recv_loop deadline rest sctx1 = Some (Line line, sctx', left)"
        "sockbuf sctx1 = sockbuf sctx @ event_data ev" by blast
    from Cons.IH [OF r(1)] obtain used where "rest = used @ left" "CHR ''\<newline>'' \<notin> set line"
      "sockbuf sctx1 @ stream_data used = line @ CHR ''\<newline>'' # sockbuf sctx'" by blast
    with r(2) show ?thesis by (intro exI [of _ "ev # used"]) (simp add: stream_data_def)
  qed
qed

text \<open>Repeated calls, each with its own clock and time-out, as long as they return lines.\<close>

fun recv_lines ::
  "(int \<times> int) list \<Rightarrow> recv_event list \<Rightarrow> stratum_ctx \<Rightarrow> string list \<times> stratum_ctx \<times> recv_event list" where
  "recv_lines [] events sctx = ([], sctx, events)"
| "recv_lines ((now, timeout) # calls) events sctx =
     (case stratum_recv_line_timeout now timeout events sctx of
        Some (Line line, sctx', left) \<Rightarrow>
          (let (lines, r) = recv_lines calls left sctx' in (line # lines, r))
      | _ \<Rightarrow> ([], sctx, events))"


definition witness_sctx :: stratum_ctx where
  "witness_sctx = stratum_ensure_socket_buffer zero_sctx"

definition witness_recv :: "recv_event list" where
  "witness_recv =
     [\<lparr>re_now = 1, re_poll = [Poll_Ready [POLLIN]], re_recv = Recv_Data ''ab''\<rparr>,
      \<lparr>re_now = 1, re_poll = [Poll_Ready [POLLIN]], re_recv = Recv_Data ''c\<newline>d\<newline>''\<rparr>]"

lemma witness_recv_run:
  "recv_lines [(0, 30), (2, 30)] witness_recv witness_sctx =
   ([''abc'', ''d''], witness_sctx\<lparr>sctx_sockbuf := Some []\<rparr>, [])"
  by (simp add: witness_recv_def witness_sctx_def stratum_ensure_socket_buffer_def zero_sctx_def
      stratum_recv_line_timeout_def recv_loop.simps sockbuf_def stratum_take_buffer_line_def
      stratum_socket_full_def stratum_poll_socket.simps accept_chunk_def stratum_buffer_append_def
      stratum_reserve_socket_buffer_def STRATUM_MAX_LINE_BYTES_def RBUFSIZE_def)


section \<open>Buffer bounds\<close>

definition buffer_ok :: "stratum_ctx \<Rightarrow> bool" where
  "buffer_ok sctx \<longleftrightarrow>
     (sctx_sockbuf sctx \<noteq> None \<longrightarrow>
        length (sockbuf sctx) < sctx_sockbuf_size sctx \<and> CHR 0x00 \<notin> set (sockbuf sctx) \<and>
        sctx_sockbuf_size sctx \<le> STRATUM_MAX_LINE_BYTES + 1 + RBUFSIZE)"

lemma reserve_large_enough:
  assumes "stratum_reserve_socket_buffer n sctx = (sctx', True)"
    and "sctx_sockbuf_size sctx \<le> STRATUM_MAX_LINE_BYTES + 1 + RBUFSIZE"
  shows "n < sctx_sockbuf_size sctx' \<and> sctx_sockbuf_size sctx' \<le> STRATUM_MAX_LINE_BYTES + 1 + RBUFSIZE"
proof -
  have "n mod RBUFSIZE < RBUFSIZE" by (simp add: RBUFSIZE_def)
  then show ?thesis using assms by (auto simp: stratum_reserve_socket_buffer_def split: if_splits)
qed

lemma accept_chunk_buffer_ok [keeps_inv]:
  assumes "buffer_ok sctx" "sctx_sockbuf sctx \<noteq> None" "accept_chunk s sctx = (sctx', ok)"
  shows "buffer_ok sctx' \<and> sctx_sockbuf sctx' \<noteq> None"
proof -
  let ?n = "length (sockbuf sctx) + length s + 1"
  obtain s1 b where r: "stratum_reserve_socket_buffer ?n sctx = (s1, b)" by force
  then have same: "sctx_sockbuf s1 = sctx_sockbuf sctx"
    and fail: "\<not> b \<Longrightarrow> s1 = sctx"
    by (auto simp: stratum_reserve_socket_buffer_def split: if_splits)
  show ?thesis
  proof (cases "CHR 0x00 \<in> set s \<or> \<not> b")
    case True
    with assms fail r show ?thesis
      by (auto simp: accept_chunk_def stratum_buffer_append_def split: if_splits)
  next
    case False
    with r reserve_large_enough [of ?n sctx s1] assms same show ?thesis
      by (auto simp: accept_chunk_def stratum_buffer_append_def buffer_ok_def sockbuf_def)
  qed
qed

lemma take_buffer_line_ok:
  assumes "buffer_ok sctx" "stratum_take_buffer_line sctx = Some (line, sctx')"
  shows "buffer_ok sctx' \<and> sctx_sockbuf sctx' \<noteq> None"
proof -
  have split: "sockbuf sctx = line @ CHR ''\<newline>'' # sockbuf sctx'"
    using take_buffer_line [OF assms(2)] by simp
  moreover have "sctx_sockbuf sctx \<noteq> None" "sctx_sockbuf sctx' \<noteq> None"
      "sctx_sockbuf_size sctx' = sctx_sockbuf_size sctx"
    using assms(2)
    by (auto simp: stratum_take_buffer_line_def sockbuf_def Let_def split: if_splits option.splits)
  ultimately show ?thesis using assms(1) by (auto simp: buffer_ok_def)
qed

lemma recv_loop_buffer_ok:
  "recv_loop deadline events sctx = Some (res, sctx', left) \<Longrightarrow> buffer_ok sctx \<Longrightarrow>
   sctx_sockbuf sctx \<noteq> None \<Longrightarrow> buffer_ok sctx' \<and> sctx_sockbuf sctx' \<noteq> None"
proof (induction events arbitrary: sctx)
  case Nil
  then show ?case using take_buffer_line_ok [of sctx]
    by (subst (asm) recv_loop.simps) (auto split: if_splits option.splits)
next
  case (Cons ev rest)
  show ?case
  proof (cases "CHR ''\<newline>'' \<in> set (sockbuf sctx)")
    case True
    with Cons.prems take_buffer_line_ok [of sctx] show ?thesis
      by (subst (asm) recv_loop.simps) (auto split: option.splits)
  next
    case False
    have chunk: "buffer_ok s1 \<and> sctx_sockbuf s1 \<noteq> None" if "accept_chunk s sctx = (s1, b)" for s s1 b
      using accept_chunk_buffer_ok [OF Cons.prems(2,3) that] .
    have "sctx' = sctx \<or> (\<exists>s b. accept_chunk s sctx = (sctx', b)) \<or>
        (\<exists>s s1. (s1 = sctx \<or> accept_chunk s sctx = (s1, True)) \<and>
                recv_loop deadline rest s1 = Some (res, sctx', left))"
      using Cons.prems(1) False
      by (subst (asm) recv_loop.simps)
        (auto split: if_splits recv_answer.splits option.splits prod.splits)
    then show ?thesis using Cons.prems(2,3) Cons.IH chunk by blast
  qed
qed

text \<open>
  The receive buffer never overflows and never grows past its limit: whatever the pool sends,
  a call leaves a NUL-free text that fits the allocation with its terminator, and the allocation
  stays below 256 KiB plus one block.
\<close>

lemma receive_buffer_bounded:
  assumes "stratum_recv_line_timeout now timeout events sctx = Some (res, sctx', left)"
    and "buffer_ok sctx"
  shows "buffer_ok sctx'"
  using assms recv_loop_buffer_ok [of _ events sctx res sctx' left]
  by (auto simp: stratum_recv_line_timeout_def split: if_splits)

section \<open>Host extraction and the resolver entry\<close>

lemma extract_host_port_bounds:
  assumes "stratum_extract_host_port n sctx = Some (host, port)"
  shows "host \<noteq> [] \<and> length host < n \<and> 0 < port \<and> port \<le> 65535"
  using assms
  by (auto simp: stratum_extract_host_port_def Let_def split: option.splits if_splits prod.splits)

lemma append_ips_fits:
  assumes "length entry + (\<Sum>ip\<leftarrow>ips. length ip + 1) < RESOLVE_ENTRY_SIZE"
  shows "append_ips (length entry) entry ips = entry @ concat (map (\<lambda>ip. '','' @ ip) ips)"
  using assms
proof (induction ips arbitrary: entry)
  case (Cons ip ips)
  have "snprintf_s (RESOLVE_ENTRY_SIZE - length entry) ('','' @ ip) = '','' @ ip"
    using Cons.prems by (intro snprintf_s_id) simp
  with Cons.IH [of "entry @ '','' @ ip"] Cons.prems show ?case by simp
qed simp

lemma sum_list_bound: "(\<And>x. x \<in> set xs \<Longrightarrow> f x \<le> (k :: nat)) \<Longrightarrow> (\<Sum>x\<leftarrow>xs. f x) \<le> length xs * k"
  by (induction xs) (auto intro: add_mono)

text \<open>
  The DNS-fallback entry handed to libcurl is complete: for every host and port taken from a
  pool URL and at most eight resolved addresses of legal length, the fixed buffer holds the host,
  the port and every address; nothing is cut off.
\<close>

lemma resolve_entry_complete:
  assumes "stratum_extract_host_port 256 sctx = Some (host, port)"
    and "ips \<noteq> []" "length ips \<le> DNS_FALLBACK_MAX_IPS"
    and "\<And>ip. ip \<in> set ips \<Longrightarrow> length ip < DNS_FALLBACK_ADDRSTRLEN"
  shows "resolve_entry host port ips =
         host @ '':'' @ show_nat (nat port) @ '':'' @ hd ips @ concat (map (\<lambda>ip. '','' @ ip) (tl ips))"
proof -
  obtain ip0 rest where ips: "ips = ip0 # rest" using assms(2) by (cases ips) auto
  let ?first = "host @ '':'' @ show_nat (nat port) @ '':'' @ ip0"
  note b = extract_host_port_bounds [OF assms(1)]
  have "length (show_nat (nat port)) \<le> 5" using b by (intro length_show_nat) auto
  moreover have "length ip0 \<le> 45" using assms(4) [of ip0] ips by (simp add: DNS_FALLBACK_ADDRSTRLEN_def)
  ultimately have first: "length ?first \<le> 307" using b by simp
  have "(\<Sum>ip\<leftarrow>rest. length ip + 1) \<le> length rest * 46"
    using assms(4) ips by (intro sum_list_bound) (auto simp: DNS_FALLBACK_ADDRSTRLEN_def Suc_le_eq)
  moreover have "length rest \<le> 7" using assms(3) ips by (simp add: DNS_FALLBACK_MAX_IPS_def)
  ultimately have "length ?first + (\<Sum>ip\<leftarrow>rest. length ip + 1) < RESOLVE_ENTRY_SIZE"
    using first by (simp add: RESOLVE_ENTRY_SIZE_def DNS_FALLBACK_MAX_IPS_def DNS_FALLBACK_ADDRSTRLEN_def)
  then have "append_ips (length ?first) ?first rest = ?first @ concat (map (\<lambda>ip. '','' @ ip) rest)"
    by (rule append_ips_fits)
  moreover have "snprintf_s RESOLVE_ENTRY_SIZE ?first = ?first"
    using \<open>length ?first + _ < RESOLVE_ENTRY_SIZE\<close> by (intro snprintf_s_id) linarith
  ultimately show ?thesis unfolding resolve_entry_def ips Let_def list.sel by (simp only: append_assoc)
qed

end
