(* ===== verification/Jobs.thy ===== *)
theory Jobs
  imports Submits Json
begin

text \<open>
  Helpers shared by the three dialects: the request lines and field checks of \<open>src/stratum.cpp\<close>
  and the job helpers of \<open>src/stratum_job.cpp\<close>, ending in \<open>stratum_commit_job_update\<close>, which
  applies a decoded job to the session and publishes the work built from it.
\<close>

section \<open>Requests and field checks\<close>

definition stratum_build_request_line :: "string \<Rightarrow> u32 \<Rightarrow> string list \<Rightarrow> 'j out_msg" where
  "stratum_build_request_line meth rid params = Request rid meth params"

definition stratum_build_submit_request_line ::
  "u32 \<Rightarrow> string \<Rightarrow> string \<Rightarrow> string \<Rightarrow> string \<Rightarrow> string \<Rightarrow> 'j out_msg" where
  "stratum_build_submit_request_line submit_id user job_id param2 param3 param4 =
     stratum_build_request_line ''mining.submit'' submit_id [user, job_id, param2, param3, param4]"

definition stratum_decode_hex_field :: "string \<Rightarrow> nat \<Rightarrow> bytes option" where
  "stratum_decode_hex_field hexstr len = hex2bin hexstr len"

definition stratum_check_job_id_length :: "string \<Rightarrow> bool" where
  "stratum_check_job_id_length job_id \<longleftrightarrow> length job_id \<le> JOB_ID_SIZE - 1"

section \<open>Job helpers\<close>

definition stratum_update_time_offset ::
  "int \<Rightarrow> string \<Rightarrow> bool \<Rightarrow> stratum_ctx \<Rightarrow> stratum_ctx \<times> bool" where
  "stratum_update_time_offset now stime swap32 sctx =
     (if length stime \<noteq> 8 then (sctx, False)
      else case hex2bin stime 4 of
             None \<Rightarrow> (sctx, False)
           | Some raw \<Rightarrow>
               (let raw_time = le32dec raw;
                    t = (if swap32 then stratum_bswap32 raw_time else raw_time);
                    delta = c_int (sint t - c_int now)
                in (if sctx_srvtime_diff sctx < delta then sctx\<lparr>sctx_srvtime_diff := delta\<rparr> else sctx,
                    True)))"

definition stratum_job_clear_merkle :: "stratum_job \<Rightarrow> stratum_job" where
  "stratum_job_clear_merkle job = job\<lparr>job_merkle := []\<rparr>"

definition stratum_capture_next_diff_locked :: "stratum_ctx \<Rightarrow> stratum_ctx" where
  "stratum_capture_next_diff_locked sctx =
     sctx\<lparr>sctx_job := (sctx_job sctx)\<lparr>job_diff := sctx_next_diff sctx\<rparr>\<rparr>"

text \<open>The branches of a notification, in order; any malformed one rejects the array.\<close>

fun decode_branches :: "'j jansson \<Rightarrow> 'j option \<Rightarrow> nat \<Rightarrow> nat \<Rightarrow> bytes list option" where
  "decode_branches J arr i 0 = Some []"
| "decode_branches J arr i (Suc n) =
     (case json_string_value J (json_array_get J arr i) of
        None \<Rightarrow> None
      | Some branch \<Rightarrow>
          (if length branch \<noteq> 64 then None
           else case hex2bin branch 32 of
                  None \<Rightarrow> None
                | Some b \<Rightarrow> map_option (Cons b) (decode_branches J arr (Suc i) n)))"

definition stratum_decode_merkle_array :: "'j jansson \<Rightarrow> 'j option \<Rightarrow> bytes list option" where
  "stratum_decode_merkle_array J merkle_arr =
     (if merkle_arr = None \<or> \<not> json_is_array J merkle_arr then None
      else decode_branches J merkle_arr 0 (nat (c_int (int (json_array_size J merkle_arr)))))"

definition stratum_free_job :: "stratum_ctx \<Rightarrow> stratum_ctx" where
  "stratum_free_job sctx = sctx\<lparr>sctx_job := zero_job\<rparr>"

definition stratum_commit_job_update ::
  "bool \<Rightarrow> (stratum_ctx \<Rightarrow> stratum_ctx \<times> bool) \<Rightarrow> (stratum_ctx \<Rightarrow> work \<Rightarrow> work) \<Rightarrow> bool \<Rightarrow> nat \<Rightarrow>
   'j world \<Rightarrow> 'j world \<times> bool" where
  "stratum_commit_job_update alloc apply_job_locked build_work_locked clean p w =
     (case miner_work_init (opt_algo (w_opts w)) alloc of
        (_, False) \<Rightarrow> (w, False)
      | (nw, True) \<Rightarrow>
          (case apply_job_locked (sctx_at w p) of
             (sctx', False) \<Rightarrow> (upd_sctx p (\<lambda>_. sctx') w, False)
           | (sctx', True) \<Rightarrow>
               (let w1 = upd_sctx p (\<lambda>_. sctx') w
                in (stratum_publish_work alloc (build_work_locked sctx' nw) clean w1, True))))"

lemma decode_branches_shape:
  "decode_branches J arr i n = Some bs \<Longrightarrow> length bs = n \<and> (\<forall>b \<in> set bs. length b = 32)"
  by (induction n arbitrary: i bs)
    (auto split: option.splits if_splits dest: hex2bin_lengths)

lemma stratum_decode_merkle_array_shape:
  "stratum_decode_merkle_array J arr = Some bs \<Longrightarrow> \<forall>b \<in> set bs. length b = 32"
  by (auto simp: stratum_decode_merkle_array_def split: if_splits dest: decode_branches_shape)

end
