(* ===== verification/Session.thy ===== *)
theory Session
  imports Transport Jobs
begin

text \<open>
  The per-pool session state: the setters and the teardown of \<open>src/stratum_session.cpp\<close>, and the
  extranonce negotiation of \<open>src/stratum_handshake.cpp\<close>. The negotiation is the gate for sizes
  that later index fixed buffers: an accepted pair always fits the 32-byte nonce area.
\<close>

section \<open>Setters\<close>

definition stratum_store_next_diff :: "double \<Rightarrow> stratum_ctx \<Rightarrow> stratum_ctx" where
  "stratum_store_next_diff diff sctx = sctx\<lparr>sctx_next_diff := diff\<rparr>"

definition stratum_set_extranonce :: "string option \<Rightarrow> nat \<Rightarrow> stratum_ctx \<Rightarrow> stratum_ctx \<times> bool" where
  "stratum_set_extranonce xnonce1 xn2_size sctx =
     (case xnonce1 of
        None \<Rightarrow> (sctx, False)
      | Some hex \<Rightarrow>
          (let xnonce1_size = length hex div 2
           in case hex2bin hex xnonce1_size of
                None \<Rightarrow> (sctx, False)
              | Some buf \<Rightarrow>
                  (sctx\<lparr>sctx_xnonce1 := buf, sctx_xnonce1_size := xnonce1_size,
                        sctx_xnonce2_size := xn2_size\<rparr>, True)))"

definition stratum_set_url :: "string \<Rightarrow> stratum_ctx \<Rightarrow> stratum_ctx \<times> bool" where
  "stratum_set_url url sctx = (if url = [] then (sctx, False) else (sctx\<lparr>sctx_url := Some url\<rparr>, True))"

definition stratum_store_session_id :: "string option \<Rightarrow> stratum_ctx \<Rightarrow> stratum_ctx" where
  "stratum_store_session_id session_id sctx =
     stratum_store_next_diff 1 (sctx\<lparr>sctx_session_id := session_id\<rparr>)"

definition stratum_set_authenticated :: "bool \<Rightarrow> stratum_ctx \<Rightarrow> stratum_ctx" where
  "stratum_set_authenticated authenticated sctx = sctx\<lparr>sctx_authenticated := authenticated\<rparr>"

definition stratum_is_authenticated :: "stratum_ctx \<Rightarrow> bool" where
  "stratum_is_authenticated sctx = sctx_authenticated sctx"

definition stratum_is_verus_protocol_store :: "bool \<Rightarrow> stratum_ctx \<Rightarrow> stratum_ctx" where
  "stratum_is_verus_protocol_store v sctx = sctx\<lparr>sctx_is_verus_protocol := v\<rparr>"

definition stratum_reset_session_runtime :: "stratum_ctx \<Rightarrow> stratum_ctx" where
  "stratum_reset_session_runtime sctx =
     stratum_set_authenticated False
       ((stratum_store_next_diff 1 sctx)
          \<lparr>sctx_srvtime_diff := 0,
           sctx_pending_submits := replicate MAX_PENDING_SUBMITS zero_pending,
           sctx_next_submit_id := 10\<rparr>)"

definition stratum_disconnect :: "nat \<Rightarrow> 'j world \<Rightarrow> 'j world" where
  "stratum_disconnect p w =
     upd_sctx p (\<lambda>s. stratum_reset_session_runtime (stratum_free_job s))
       (stratum_reset_work_state (upd_sctx p stratum_close_transport w))"

definition stratum_init_context :: "int \<Rightarrow> bool \<Rightarrow> stratum_ctx \<Rightarrow> stratum_ctx" where
  "stratum_init_context pooln is_verus_protocol sctx =
     (stratum_is_verus_protocol_store is_verus_protocol (sctx\<lparr>sctx_pooln := pooln\<rparr>))
       \<lparr>sctx_sock := False, sctx_use_tls := False, sctx_next_submit_id := 10,
        sctx_reconnect_requested := False, sctx_thread_active := False,
        sctx_pending_submits := replicate MAX_PENDING_SUBMITS zero_pending\<rparr>"

text \<open>The parts of \<open>stratum_destroy_context\<close> after the service thread was joined.\<close>

definition stratum_destroy_context :: "nat \<Rightarrow> 'j world \<Rightarrow> 'j world" where
  "stratum_destroy_context p w =
     upd_sctx p (\<lambda>s. s\<lparr>sctx_url := None, sctx_curl_url := None, sctx_session_id := None,
                       sctx_xnonce1 := [], sctx_xnonce1_size := 0, sctx_xnonce2_size := 0,
                       sctx_sockbuf := None, sctx_sockbuf_size := 0\<rparr>)
       (stratum_disconnect p
          (upd_sctx p (\<lambda>s. s\<lparr>sctx_thread_active := False\<rparr>) (stratum_request_shutdown p w)))"

section \<open>Extranonce negotiation\<close>

text \<open>The size field: its value when it is well-formed.\<close>

definition parse_xn2_size :: "'j jansson \<Rightarrow> 'j option \<Rightarrow> nat option" where
  "parse_xn2_size J xn2_val =
     (if json_is_integer J xn2_val then
        (let parsed = json_integer_value J xn2_val
         in if 0 \<le> parsed \<and> parsed \<le> 32 then Some (nat parsed) else None)
      else if json_is_string J xn2_val then
        (case json_string_value J xn2_val of
           None \<Rightarrow> None
         | Some [] \<Rightarrow> None
         | Some xn2_str \<Rightarrow>
             (let (parsed, end_ptr, err) = strtol xn2_str
              in if \<not> err \<and> end_ptr = [] \<and> 0 \<le> parsed \<and> parsed \<le> 32 then Some (nat parsed) else None))
      else None)"

definition stratum_parse_extranonce ::
  "algo_t \<Rightarrow> 'j jansson \<Rightarrow> 'j option \<Rightarrow> nat \<Rightarrow> stratum_ctx \<Rightarrow> stratum_ctx \<times> bool" where
  "stratum_parse_extranonce algo J params pndx sctx =
     (let xnonce1 = json_string_value J (json_array_get J params pndx);
          xn2_val = json_array_get J params (pndx + 1);
          is_verus = (algo = ALGO_VERUS \<or> sctx_is_verus_protocol sctx);
          xn2_present = (xn2_val \<noteq> None \<and> \<not> json_is_null J xn2_val);
          parsed = parse_xn2_size J xn2_val
      in case xnonce1 of
           None \<Rightarrow> (sctx, False)
         | Some hex \<Rightarrow>
             (let xn1_size = length hex div 2
              in if odd (length hex) \<or> 32 < xn1_size then (sctx, False)
                 else if xn2_present \<and> parsed = None then (sctx, False)
                 else
                   let given = (case parsed of None \<Rightarrow> 0 | Some n \<Rightarrow> n)
                   in if given = 0 \<and> (\<not> is_verus \<or> 32 - xn1_size < 1) then (sctx, False)
                      else
                        let xn2_size = (if given = 0 then 32 - xn1_size else given)
                        in if is_verus then
                             (if xn2_size < 1 \<or> xn1_size + xn2_size \<noteq> 32 then (sctx, False)
                              else stratum_set_extranonce xnonce1 xn2_size sctx)
                           else if xn2_size < 2 \<or> 16 < xn2_size \<or> 12 < xn1_size then (sctx, False)
                           else stratum_set_extranonce xnonce1 xn2_size sctx))"

section \<open>Sizes\<close>

definition xn_ok :: "stratum_ctx \<Rightarrow> bool" where
  "xn_ok sctx \<longleftrightarrow>
     length (sctx_xnonce1 sctx) = sctx_xnonce1_size sctx \<and>
     sctx_xnonce1_size sctx + sctx_xnonce2_size sctx \<le> 32"

lemma set_extranonce_cases:
  assumes "stratum_set_extranonce x n sctx = (sctx', ok)"
  shows "(ok \<and> (\<exists>hex buf. x = Some hex \<and> hex2bin hex (length hex div 2) = Some buf \<and>
            sctx' = sctx\<lparr>sctx_xnonce1 := buf, sctx_xnonce1_size := length hex div 2,
                         sctx_xnonce2_size := n\<rparr>)) \<or>
         (\<not> ok \<and> sctx' = sctx)"
  using assms by (auto simp: stratum_set_extranonce_def Let_def split: option.splits)

lemma parse_extranonce_cases:
  "stratum_parse_extranonce algo J params pndx sctx = (sctx, False) \<or>
   (\<exists>hex n. stratum_parse_extranonce algo J params pndx sctx = stratum_set_extranonce (Some hex) n sctx \<and>
      (if algo = ALGO_VERUS \<or> sctx_is_verus_protocol sctx
       then length hex div 2 + n = 32 \<and> 1 \<le> n
       else length hex div 2 \<le> 12 \<and> 2 \<le> n \<and> n \<le> 16))"
proof (cases "json_string_value J (json_array_get J params pndx)")
  case None
  then show ?thesis by (simp add: stratum_parse_extranonce_def)
next
  case (Some hex)
  define given where
    "given = (case parse_xn2_size J (json_array_get J params (pndx + 1)) of None \<Rightarrow> 0 | Some n \<Rightarrow> n)"
  define n where "n = (if given = 0 then 32 - length hex div 2 else given)"
  have "stratum_parse_extranonce algo J params pndx sctx = (sctx, False) \<or>
     stratum_parse_extranonce algo J params pndx sctx = stratum_set_extranonce (Some hex) n sctx \<and>
      (if algo = ALGO_VERUS \<or> sctx_is_verus_protocol sctx
       then length hex div 2 + n = 32 \<and> 1 \<le> n
       else length hex div 2 \<le> 12 \<and> 2 \<le> n \<and> n \<le> 16)"
    unfolding stratum_parse_extranonce_def Let_def Some option.case
      given_def [symmetric] n_def [symmetric]
    by (simp only: split: if_split) auto
  then show ?thesis by blast
qed

lemma parse_extranonce_xn:
  assumes "stratum_parse_extranonce algo J params pndx sctx = (sctx', ok)"
  shows "if ok then
         xn_ok sctx' \<and>
         (if algo = ALGO_VERUS \<or> sctx_is_verus_protocol sctx
          then sctx_xnonce1_size sctx' + sctx_xnonce2_size sctx' = 32 \<and> 1 \<le> sctx_xnonce2_size sctx'
          else sctx_xnonce1_size sctx' \<le> 12 \<and> 2 \<le> sctx_xnonce2_size sctx' \<and> sctx_xnonce2_size sctx' \<le> 16)
       else sctx' = sctx"
  using parse_extranonce_cases [of algo J params pndx sctx]
proof
  assume "stratum_parse_extranonce algo J params pndx sctx = (sctx, False)"
  with assms show ?thesis by simp
next
  assume "\<exists>hex n. stratum_parse_extranonce algo J params pndx sctx = stratum_set_extranonce (Some hex) n sctx \<and>
      (if algo = ALGO_VERUS \<or> sctx_is_verus_protocol sctx
       then length hex div 2 + n = 32 \<and> 1 \<le> n
       else length hex div 2 \<le> 12 \<and> 2 \<le> n \<and> n \<le> 16)"
  then obtain hex n where call: "stratum_set_extranonce (Some hex) n sctx = (sctx', ok)"
    and sizes: "if algo = ALGO_VERUS \<or> sctx_is_verus_protocol sctx
       then length hex div 2 + n = 32 \<and> 1 \<le> n
       else length hex div 2 \<le> 12 \<and> 2 \<le> n \<and> n \<le> 16"
    using assms by metis
  from set_extranonce_cases [OF call] sizes show ?thesis
    by (elim disjE) (auto simp: xn_ok_def dest!: hex2bin_lengths split: if_splits)
qed

text \<open>
  An accepted extranonce always fits: after \<open>stratum_parse_extranonce\<close> succeeds, the stored
  prefix has its recorded length and prefix and counter together fill at most the 32-byte nonce
  area (exactly 32 for Verus; at most 12 and between 2 and 16 bytes otherwise). A rejected
  message leaves the session as it was.
\<close>

lemma parse_extranonce_bounds:
  "case stratum_parse_extranonce algo J params pndx sctx of
     (sctx', ok) \<Rightarrow>
       if ok then
         xn_ok sctx' \<and>
         (if algo = ALGO_VERUS \<or> sctx_is_verus_protocol sctx
          then sctx_xnonce1_size sctx' + sctx_xnonce2_size sctx' = 32 \<and> 1 \<le> sctx_xnonce2_size sctx'
          else sctx_xnonce1_size sctx' \<le> 12 \<and> 2 \<le> sctx_xnonce2_size sctx' \<and> sctx_xnonce2_size sctx' \<le> 16)
       else sctx' = sctx"
  by (simp only: split: prod.split) (blast intro: parse_extranonce_xn)

text \<open>Every other session operation keeps the sizes.\<close>

lemma xn_ok_parse_extranonce [keeps_inv]:
  "xn_ok sctx \<Longrightarrow> xn_ok (fst (stratum_parse_extranonce algo J params pndx sctx))"
  using parse_extranonce_xn [of algo J params pndx sctx]
  by (cases "stratum_parse_extranonce algo J params pndx sctx") (auto split: if_splits)

lemma xn_ok_keeps [keeps_inv]:
  "xn_ok sctx \<Longrightarrow> xn_ok (stratum_reset_session_runtime (stratum_free_job sctx))"
  "xn_ok sctx \<Longrightarrow> xn_ok (stratum_close_transport sctx)"
  "xn_ok sctx \<Longrightarrow> xn_ok (stratum_store_session_id session_id sctx)"
  "xn_ok sctx \<Longrightarrow> xn_ok (stratum_init_context pooln v sctx)"
  "xn_ok zero_sctx"
  by (simp_all add: xn_ok_def stratum_reset_session_runtime_def stratum_free_job_def
    stratum_set_authenticated_def stratum_store_next_diff_def stratum_close_transport_def
    stratum_reset_socket_buffer_def stratum_store_session_id_def stratum_init_context_def
    stratum_is_verus_protocol_store_def zero_sctx_def)

text \<open>
  A disconnect leaves nothing of the session behind that could be mixed with the next one: the
  socket is closed, the receive buffer empty, the job zeroed, no submit pending, the session not
  authenticated, the published work withdrawn and every worker's generation outdated.
\<close>

lemma disconnect_clears_session:
  assumes "p < length (w_pools w)" "w' = stratum_disconnect p w"
  shows "\<not> sctx_sock (sctx_at w' p) \<and> sockbuf (sctx_at w' p) = [] \<and>
         sctx_job (sctx_at w' p) = zero_job \<and> used_ids (sctx_pending_submits (sctx_at w' p)) = [] \<and>
         \<not> stratum_is_authenticated (sctx_at w' p) \<and> \<not> stratum_has_published_work w' \<and>
         w_generation w' = w_generation w + 1"
  using assms
  by (simp add: stratum_disconnect_def sctx_at_upd_sctx stratum_reset_work_state_def
      stratum_reset_session_runtime_def stratum_free_job_def stratum_close_transport_def
      stratum_reset_socket_buffer_def stratum_set_authenticated_def stratum_store_next_diff_def
      stratum_is_authenticated_def stratum_has_published_work_def used_ids_def zero_pending_def
      miner_work_generation_bump_def sockbuf_def split: option.splits)

end
