(* ===== verification/Standard.thy ===== *)
theory Standard
  imports Session
begin

text \<open>
  The standard dialect (\<open>src/stratum_standard.cpp\<close>, Bitcoin and Litecoin pools): decoding of
  \<open>mining.notify\<close>, the coinbase and Merkle root, the header words of the work unit and the share
  submission; and the header bytes \<open>scanhash_sha256d\<close> (\<open>src/algorithm/sha256_neon.c\<close>) hashes. The
  double SHA-256 is an argument of the definitions. The main result is end to end: the 80 bytes a
  worker hashes are the header the pool rebuilds from the notification and the submitted strings.
\<close>

section \<open>Block height\<close>

text \<open>Reads are checked: \<open>None\<close> is an access outside the coinbase.\<close>

function scan_while :: "(u8 \<Rightarrow> bool) \<Rightarrow> bytes \<Rightarrow> nat \<Rightarrow> nat \<Rightarrow> nat option" where
  "scan_while P coinbase scan_end p =
     (if p < scan_end then
        (case oget coinbase p of
           None \<Rightarrow> None
         | Some b \<Rightarrow> if P b then scan_while P coinbase scan_end (p + 1) else Some p)
      else Some p)"
  by auto

termination by (relation "measure (\<lambda>(P, coinbase, scan_end, p). scan_end - p)") auto

declare scan_while.simps [simp del]

definition read16 :: "bytes \<Rightarrow> nat \<Rightarrow> u32 option" where
  "read16 coinbase p =
     (case (oget coinbase p, oget coinbase (p + 1)) of
        (Some a, Some b) \<Rightarrow> Some (ucast (le16dec [a, b]))
      | _ \<Rightarrow> None)"

text \<open>The bytes after the run of \<open>0xff\<close>: script length, height length, height.\<close>

definition decode_script_height :: "bytes \<Rightarrow> nat \<Rightarrow> nat \<Rightarrow> u32 option" where
  "decode_script_height coinbase scan_end p =
     (case (oget coinbase (p - 1), oget coinbase (p - 2)) of
        (Some a, Some b) \<Rightarrow>
          (if a = 0xff \<and> b = 0xff then
             (if scan_end - p < 4 then Some 0
              else case (oget coinbase (p + 1), read16 coinbase (p + 2)) of
                     (Some hlen, Some height) \<Rightarrow>
                       (if hlen = 4 then
                          (if scan_end - (p + 4) < 2 then Some 0
                           else map_option (\<lambda>hi. height + 0x10000 * hi) (read16 coinbase (p + 4)))
                        else if hlen = 3 then
                          (if scan_end \<le> p + 4 then Some 0
                           else map_option (\<lambda>b. height + 0x10000 * ucast b) (oget coinbase (p + 4)))
                        else Some height)
                   | _ \<Rightarrow> None)
           else Some 0)
      | _ \<Rightarrow> None)"

definition get_block_height :: "bytes \<Rightarrow> nat \<Rightarrow> u32 option" where
  "get_block_height coinbase coinbase_size =
     (if coinbase_size \<le> 32 then Some 0
      else
        let scan_end = 32 + (if 128 < coinbase_size - 32 then 128 else coinbase_size - 32)
        in case scan_while (\<lambda>b. b \<noteq> 0xff) coinbase scan_end 32 of
             None \<Rightarrow> None
           | Some q \<Rightarrow>
               (case scan_while (\<lambda>b. b = 0xff) coinbase scan_end q of
                  None \<Rightarrow> None
                | Some p \<Rightarrow>
                    (if p < 34 \<or> scan_end \<le> p then Some 0
                     else decode_script_height coinbase scan_end p)))"

section \<open>Notifications\<close>

record 'j standard_notify_view =
  sn_job_id :: string
  sn_prevhash :: string
  sn_coinb1 :: string
  sn_coinb2 :: string
  sn_version :: string
  sn_nbits :: string
  sn_stime :: string
  sn_merkle_arr :: "'j option"
  sn_clean :: bool

definition parse_standard_notify :: "'j jansson \<Rightarrow> 'j option \<Rightarrow> 'j standard_notify_view option" where
  "parse_standard_notify J params =
     (let str = (\<lambda>i. json_string_value J (json_array_get J params i));
          merkle_arr = json_array_get J params 4
      in case (str 0, str 1, str 2, str 3, str 5, str 6, str 7) of
           (Some job_id, Some prevhash, Some coinb1, Some coinb2, Some version, Some nbits, Some stime) \<Rightarrow>
             (if merkle_arr = None \<or> \<not> json_is_array J merkle_arr then None
              else if odd (length coinb1) \<or> odd (length coinb2) then None
              else if length prevhash \<noteq> 64 \<or> length version \<noteq> 8 \<or> length nbits \<noteq> 8 \<or>
                      length stime \<noteq> 8 then None
              else Some \<lparr>sn_job_id = job_id, sn_prevhash = prevhash, sn_coinb1 = coinb1,
                         sn_coinb2 = coinb2, sn_version = version, sn_nbits = nbits,
                         sn_stime = stime, sn_merkle_arr = merkle_arr,
                         sn_clean = json_is_true J (json_array_get J params 8)\<rparr>)
         | _ \<Rightarrow> None)"

text \<open>The bytes written into the pre-allocated coinbase buffer, in order.\<close>

definition coinbase_bytes :: "stratum_ctx \<Rightarrow> bytes \<Rightarrow> bytes \<Rightarrow> bytes" where
  "coinbase_bytes sctx c1 c2 =
     c1 @ take (sctx_xnonce1_size sctx) (sctx_xnonce1 sctx) @ replicate (sctx_xnonce2_size sctx) 0 @ c2"

definition coinbase_prealloc :: "'j standard_notify_view \<Rightarrow> nat" where
  "coinbase_prealloc msg = length (sn_coinb1 msg) div 2 + 32 + length (sn_coinb2 msg) div 2"

definition apply_standard_job_locked ::
  "'j standard_notify_view \<Rightarrow> bytes list \<Rightarrow> stratum_ctx \<Rightarrow> stratum_ctx \<times> bool" where
  "apply_standard_job_locked msg merkle sctx =
     (let coinb1_size = length (sn_coinb1 msg) div 2;
          coinb2_size = length (sn_coinb2 msg) div 2;
          coinbase_size = coinb1_size + sctx_xnonce1_size sctx + sctx_xnonce2_size sctx + coinb2_size
      in case (stratum_decode_hex_field (sn_coinb1 msg) coinb1_size,
               stratum_decode_hex_field (sn_coinb2 msg) coinb2_size,
               stratum_decode_hex_field (sn_prevhash msg) 32,
               stratum_decode_hex_field (sn_version msg) 4,
               stratum_decode_hex_field (sn_nbits msg) 4,
               stratum_decode_hex_field (sn_stime msg) 4) of
           (Some c1, Some c2, Some prevhash, Some version, Some nbits, Some ntime) \<Rightarrow>
             (let coinbase = coinbase_bytes sctx c1 c2;
                  height = (case get_block_height coinbase coinbase_size of None \<Rightarrow> 0 | Some h \<Rightarrow> h);
                  job = (sctx_job sctx)
                    \<lparr>job_job_id := Some (sn_job_id msg), job_coinbase := coinbase,
                     job_coinbase_size := coinbase_size,
                     job_xnonce2 := Some (coinb1_size + sctx_xnonce1_size sctx),
                     job_prevhash := prevhash, job_height := height, job_merkle := merkle,
                     job_version := version, job_nbits := nbits, job_ntime := ntime\<rparr>
              in (stratum_capture_next_diff_locked (sctx\<lparr>sctx_job := job\<rparr>), True))
         | _ \<Rightarrow> (sctx, False))"

section \<open>Building the work\<close>

definition build_merkle_root :: "(bytes \<Rightarrow> bytes) \<Rightarrow> stratum_ctx \<Rightarrow> bytes" where
  "build_merkle_root sha256d sctx =
     fold (\<lambda>branch hash. sha256d (hash @ branch)) (job_merkle (sctx_job sctx))
       (sha256d (take (job_coinbase_size (sctx_job sctx)) (job_coinbase (sctx_job sctx))))"

text \<open>Eight words read from 32 bytes.\<close>

definition words_of :: "bytes \<Rightarrow> u32 list" where
  "words_of bs = map (\<lambda>i. le32dec (take 4 (drop (i * 4) bs))) [0..<8]"

definition build_standard_work ::
  "(bytes \<Rightarrow> bytes) \<Rightarrow> algo_t \<Rightarrow> stratum_ctx \<Rightarrow> work \<Rightarrow> work" where
  "build_standard_work sha256d algo sctx new_work =
     (let w0 = miner_work_reset new_work;
          job = sctx_job sctx;
          merkle_root = build_merkle_root sha256d sctx;
          header = [le32dec (job_version job)] @ words_of (job_prevhash job) @ words_of merkle_root @
                   [le32dec (job_ntime job), le32dec (job_nbits job), 0];
          xnonce2 = take (sctx_xnonce2_size sctx)
                      (drop (case job_xnonce2 job of None \<Rightarrow> 0 | Some i \<Rightarrow> i) (job_coinbase job));
          target_diff = (if algo = ALGO_SCRYPT then fl (job_diff job / 65536) else job_diff job)
      in w0\<lparr>work_job_id := (case job_job_id job of
                              None \<Rightarrow> work_job_id w0
                            | Some job_id \<Rightarrow> snprintf_s JOB_ID_SIZE job_id),
            work_height := job_height job,
            work_pooln := word_of_int (sctx_pooln sctx),
            work_data := memcpy (work_data w0) 0 header,
            work_xnonce2 := memcpy (work_xnonce2 w0) 0 xnonce2,
            work_xnonce2_len := sctx_xnonce2_size sctx,
            work_target := diff_to_target target_diff,
            work_targetdiff := job_diff job\<rparr>)"

definition apply_standard_notify ::
  "(bytes \<Rightarrow> bytes) \<Rightarrow> 'j jansson \<Rightarrow> int \<Rightarrow> bool \<Rightarrow> 'j standard_notify_view \<Rightarrow> nat \<Rightarrow>
   'j world \<Rightarrow> 'j world \<times> bool" where
  "apply_standard_notify sha256d J now alloc msg p w =
     (case stratum_update_time_offset now (sn_stime msg) True (sctx_at w p) of
        (sctx1, timed) \<Rightarrow>
          (let w1 = upd_sctx p (\<lambda>_. sctx1) w
           in if \<not> timed then (w1, False)
              else case stratum_decode_merkle_array J (sn_merkle_arr msg) of
                     None \<Rightarrow> (w1, False)
                   | Some merkle \<Rightarrow>
                       (if \<not> stratum_check_job_id_length (sn_job_id msg) then (w1, False)
                        else stratum_commit_job_update alloc (apply_standard_job_locked msg merkle)
                               (build_standard_work sha256d (opt_algo (w_opts w))) (sn_clean msg) p w1)))"

definition stratum_notify_standard ::
  "(bytes \<Rightarrow> bytes) \<Rightarrow> 'j jansson \<Rightarrow> int \<Rightarrow> bool \<Rightarrow> 'j option \<Rightarrow> nat \<Rightarrow> 'j world \<Rightarrow> 'j world \<times> bool" where
  "stratum_notify_standard sha256d J now alloc params p w =
     (case parse_standard_notify J params of
        None \<Rightarrow> (w, False)
      | Some msg \<Rightarrow> apply_standard_notify sha256d J now alloc msg p w)"

section \<open>Submitting a share\<close>

record standard_submit_view =
  sv_xnonce2str :: string
  sv_ntimestr :: string
  sv_noncestr :: string

definition build_standard_submit_view :: "work \<Rightarrow> standard_submit_view" where
  "build_standard_submit_view work =
     \<lparr>sv_xnonce2str = bin2hex (take (work_xnonce2_len work) (work_xnonce2 work)),
      sv_ntimestr = cbin2hex (le32enc (work_data work ! 17)),
      sv_noncestr = cbin2hex (le32enc (work_data work ! 19))\<rparr>"

definition stratum_submit_standard ::
  "int \<Rightarrow> bool \<Rightarrow> nat \<Rightarrow> work \<Rightarrow> 'j world \<Rightarrow> work \<times> 'j world \<times> bool" where
  "stratum_submit_standard now sent p work w =
     (let i = unat (work_submit_nonce_id work);
          work1 = work\<lparr>work_data := (work_data work)[19 := work_nonces work ! i]\<rparr>;
          msg = build_standard_submit_view work1;
          (submit_id, sctx1) = stratum_submit_id_next (sctx_at w p);
          request = stratum_build_submit_request_line submit_id (pool_user (pool_at w p))
                      (work_job_id work1) (sv_xnonce2str msg) (sv_ntimestr msg) (sv_noncestr msg)
      in (work1, stratum_send_submit now sent p request submit_id (work_sharediff work1 ! i)
                   (int (unat (work_thread_id work1))) (upd_sctx p (\<lambda>_. sctx1) w)))"

section \<open>The header a worker hashes\<close>

text \<open>The 80 bytes \<open>scanhash_sha256d\<close> assembles from the work's words.\<close>

definition sha256d_header :: "u32 list \<Rightarrow> bytes" where
  "sha256d_header pdata =
     concat (map (\<lambda>i. be32enc (pdata ! i)) [0..<9]) @
     concat (map (\<lambda>i. le32enc (pdata ! i)) [9..<17]) @
     concat (map (\<lambda>i. be32enc (pdata ! i)) [17..<20])"

section \<open>The height scan stays inside the coinbase\<close>

lemma scan_while_in_range:
  "scan_end \<le> length coinbase \<Longrightarrow> p \<le> scan_end \<Longrightarrow>
   \<exists>q. scan_while P coinbase scan_end p = Some q \<and> p \<le> q \<and> q \<le> scan_end"
proof (induction P coinbase scan_end p rule: scan_while.induct)
  case (1 P coinbase scan_end p)
  show ?case
  proof (cases "p < scan_end")
    case True
    with 1 have b: "oget coinbase p = Some (coinbase ! p)" by (simp add: oget_def)
    show ?thesis
    proof (cases "P (coinbase ! p)")
      case True
      with 1 \<open>p < scan_end\<close> b obtain q where
        "scan_while P coinbase scan_end (p + 1) = Some q" "p + 1 \<le> q" "q \<le> scan_end" by fastforce
      with True b \<open>p < scan_end\<close> show ?thesis by (subst scan_while.simps) simp
    next
      case False
      with b \<open>p < scan_end\<close> show ?thesis by (subst scan_while.simps) simp
    qed
  next
    case False
    with 1 show ?thesis by (subst scan_while.simps) simp
  qed
qed

lemma decode_script_height_in_range:
  assumes "34 \<le> p" "p < e" "e \<le> length coinbase"
  shows "\<exists>h. decode_script_height coinbase e p = Some h"
proof -
  have rd: "oget coinbase i = Some (coinbase ! i)" if "i < e" for i
    using that assms(3) by (simp add: oget_def)
  have "oget coinbase (p - 1) = Some (coinbase ! (p - 1))" "oget coinbase (p - 2) = Some (coinbase ! (p - 2))"
    using assms by (auto intro!: rd)
  moreover have "oget coinbase (p + 1) = Some (coinbase ! (p + 1)) \<and> (\<exists>h. read16 coinbase (p + 2) = Some h)"
    if "\<not> e - p < 4" using that rd [of "p + 1"] rd [of "p + 2"] rd [of "p + 2 + 1"] by (simp add: read16_def)
  moreover have "\<exists>h. read16 coinbase (p + 4) = Some h" if "\<not> e - (p + 4) < 2"
    using that rd [of "p + 4"] rd [of "p + 4 + 1"] by (simp add: read16_def)
  moreover have "oget coinbase (p + 4) = Some (coinbase ! (p + 4))" if "\<not> e \<le> p + 4"
    using that rd [of "p + 4"] by simp
  ultimately show ?thesis
    by (cases "e - p < 4"; cases "e - (p + 4) < 2"; cases "e \<le> p + 4")
      (auto simp: decode_script_height_def)
qed

text \<open>
  The block-height heuristic never reads outside the coinbase, whatever bytes the pool sends:
  on every coinbase it returns a height.
\<close>

lemma get_block_height_in_bounds:
  "\<exists>h. get_block_height coinbase (length coinbase) = Some h"
proof (cases "length coinbase \<le> 32")
  case True
  then show ?thesis by (simp add: get_block_height_def)
next
  case False
  define e where "e = 32 + (if 128 < length coinbase - 32 then 128 else length coinbase - 32)"
  have e: "e \<le> length coinbase" "32 \<le> e" using False by (auto simp: e_def)
  obtain q where q: "scan_while (\<lambda>b. b \<noteq> 0xff) coinbase e 32 = Some q" "32 \<le> q" "q \<le> e"
    using scan_while_in_range [OF e] by blast
  obtain p where p: "scan_while (\<lambda>b. b = 0xff) coinbase e q = Some p" "q \<le> p" "p \<le> e"
    using scan_while_in_range [OF e(1) q(3)] by blast
  have "get_block_height coinbase (length coinbase) =
      (if p < 34 \<or> e \<le> p then Some 0 else decode_script_height coinbase e p)"
    using False q(1) p(1) by (simp add: get_block_height_def Let_def e_def [symmetric])
  then show ?thesis using decode_script_height_in_range [of p e coinbase] e(1)
    by (cases "p < 34 \<or> e \<le> p") auto
qed

section \<open>The coinbase fits its buffer\<close>

lemma apply_standard_job_cases:
  assumes "apply_standard_job_locked msg merkle sctx = (sctx', True)"
  obtains c1 c2 prevhash version nbits ntime where
    "hex2bin (sn_coinb1 msg) (length (sn_coinb1 msg) div 2) = Some c1"
    "hex2bin (sn_coinb2 msg) (length (sn_coinb2 msg) div 2) = Some c2"
    "hex2bin (sn_prevhash msg) 32 = Some prevhash" "hex2bin (sn_version msg) 4 = Some version"
    "hex2bin (sn_nbits msg) 4 = Some nbits" "hex2bin (sn_stime msg) 4 = Some ntime"
    "job_coinbase (sctx_job sctx') = coinbase_bytes sctx c1 c2"
    "job_coinbase_size (sctx_job sctx') = length (sn_coinb1 msg) div 2 + sctx_xnonce1_size sctx +
       sctx_xnonce2_size sctx + length (sn_coinb2 msg) div 2"
    "job_xnonce2 (sctx_job sctx') = Some (length (sn_coinb1 msg) div 2 + sctx_xnonce1_size sctx)"
    "job_prevhash (sctx_job sctx') = prevhash" "job_version (sctx_job sctx') = version"
    "job_nbits (sctx_job sctx') = nbits" "job_ntime (sctx_job sctx') = ntime"
    "job_merkle (sctx_job sctx') = merkle" "job_job_id (sctx_job sctx') = Some (sn_job_id msg)"
    "job_diff (sctx_job sctx') = sctx_next_diff sctx"
    "sctx_xnonce1 sctx' = sctx_xnonce1 sctx" "sctx_xnonce1_size sctx' = sctx_xnonce1_size sctx"
    "sctx_xnonce2_size sctx' = sctx_xnonce2_size sctx" "sctx_pooln sctx' = sctx_pooln sctx"
proof -
  note d = apply_standard_job_locked_def stratum_decode_hex_field_def Let_def
  from assms obtain c1 where 1: "hex2bin (sn_coinb1 msg) (length (sn_coinb1 msg) div 2) = Some c1"
    by (cases "hex2bin (sn_coinb1 msg) (length (sn_coinb1 msg) div 2)") (simp_all add: d)
  from assms 1 obtain c2 where 2: "hex2bin (sn_coinb2 msg) (length (sn_coinb2 msg) div 2) = Some c2"
    by (cases "hex2bin (sn_coinb2 msg) (length (sn_coinb2 msg) div 2)") (simp_all add: d)
  from assms 1 2 obtain prevhash where 3: "hex2bin (sn_prevhash msg) 32 = Some prevhash"
    by (cases "hex2bin (sn_prevhash msg) 32") (simp_all add: d)
  from assms 1 2 3 obtain version where 4: "hex2bin (sn_version msg) 4 = Some version"
    by (cases "hex2bin (sn_version msg) 4") (simp_all add: d)
  from assms 1 2 3 4 obtain nbits where 5: "hex2bin (sn_nbits msg) 4 = Some nbits"
    by (cases "hex2bin (sn_nbits msg) 4") (simp_all add: d)
  from assms 1 2 3 4 5 obtain ntime where 6: "hex2bin (sn_stime msg) 4 = Some ntime"
    by (cases "hex2bin (sn_stime msg) 4") (simp_all add: d)
  have res: "sctx' = fst (apply_standard_job_locked msg merkle sctx)" by (simp add: assms)
  show thesis
    by (rule that [OF 1 2 3 4 5 6])
      (simp_all add: res d 1 2 3 4 5 6 stratum_capture_next_diff_locked_def)
qed

text \<open>
  The coinbase a notification builds has exactly the size the code computes and never exceeds
  the buffer allocated before the session lock was taken, on every session whose extranonce was
  negotiated (or is still empty).
\<close>

lemma standard_coinbase_fits:
  assumes "xn_ok sctx" "apply_standard_job_locked msg merkle sctx = (sctx', True)"
  shows "length (job_coinbase (sctx_job sctx')) = job_coinbase_size (sctx_job sctx') \<and>
         job_coinbase_size (sctx_job sctx') \<le> coinbase_prealloc msg"
  using assms(2)
proof (rule apply_standard_job_cases)
  fix c1 c2
  assume c: "hex2bin (sn_coinb1 msg) (length (sn_coinb1 msg) div 2) = Some c1"
       "hex2bin (sn_coinb2 msg) (length (sn_coinb2 msg) div 2) = Some c2"
    and job: "job_coinbase (sctx_job sctx') = coinbase_bytes sctx c1 c2"
      "job_coinbase_size (sctx_job sctx') = length (sn_coinb1 msg) div 2 + sctx_xnonce1_size sctx +
         sctx_xnonce2_size sctx + length (sn_coinb2 msg) div 2"
  show ?thesis
    using assms(1) job hex2bin_lengths [OF c(1)] hex2bin_lengths [OF c(2)]
    by (simp add: coinbase_bytes_def coinbase_prealloc_def xn_ok_def)
qed

section \<open>The header, end to end\<close>

text \<open>Each four-byte group reversed, as the stratum protocol transmits 32-bit header fields.\<close>

fun swab4 :: "bytes \<Rightarrow> bytes" where
  "swab4 (a # b # c # d # rest) = d # c # b # a # swab4 rest"
| "swab4 bs = bs"

text \<open>
  What the pool hashes to check a share: the coinbase with the worker's extranonce2 between its two
  halves, the Merkle root over it, and the header from the notified fields and the submitted time
  and nonce.
\<close>

definition pool_header ::
  "(bytes \<Rightarrow> bytes) \<Rightarrow> 'j standard_notify_view \<Rightarrow> bytes list \<Rightarrow> bytes \<Rightarrow> string \<Rightarrow> string \<Rightarrow> string \<Rightarrow>
   bytes option" where
  "pool_header sha256d msg merkle xnonce1 xnonce2str ntimestr noncestr =
     (case (hex2bin (sn_coinb1 msg) (length (sn_coinb1 msg) div 2),
            hex2bin xnonce2str (length xnonce2str div 2),
            hex2bin (sn_coinb2 msg) (length (sn_coinb2 msg) div 2),
            hex2bin (sn_version msg) 4, hex2bin (sn_prevhash msg) 32, hex2bin ntimestr 4,
            hex2bin (sn_nbits msg) 4, hex2bin noncestr 4) of
        (Some c1, Some x2, Some c2, Some version, Some prevhash, Some ntime, Some nbits, Some nonce) \<Rightarrow>
          (let root = fold (\<lambda>branch hash. sha256d (hash @ branch)) merkle
                        (sha256d (c1 @ xnonce1 @ x2 @ c2))
           in Some (swab4 version @ swab4 prevhash @ root @ swab4 ntime @ swab4 nbits @ swab4 nonce))
      | _ \<Rightarrow> None)"

lemma be32enc_le32dec: "length p = 4 \<Longrightarrow> be32enc (le32dec p) = rev p"
proof -
  assume p: "length p = 4"
  have "rev (le32enc x) = be32enc x" for x by (simp add: le32enc_def be32enc_def)
  then have "be32enc (le32dec p) = rev (le32enc (le32dec p))" by simp
  then show ?thesis using p by (simp add: le32enc_dec)
qed


lemma swab4_append4: "length p = 4 \<Longrightarrow> swab4 (p @ q) = rev p @ swab4 q"
proof -
  assume "length p = 4"
  then obtain a b c d where "p = [a, b, c, d]" by (metis length4)
  then show ?thesis by simp
qed

lemma swab4_eq_rev: "length p = 4 \<Longrightarrow> swab4 p = rev p"
  using swab4_append4 [of p "[]"] by simp

lemma split_fours:
  assumes "length bs = 4 * n"
  shows "concat (map (\<lambda>i. rev (take 4 (drop (i * 4) bs))) [0..<n]) = swab4 bs \<and>
         concat (map (\<lambda>i. take 4 (drop (i * 4) bs)) [0..<n]) = bs"
  using assms
proof (induction n arbitrary: bs)
  case (Suc n)
  have idx: "[0..<Suc n] = 0 # map Suc [0..<n]" by (simp add: upt_conv_Cons map_Suc_upt del: upt_Suc)
  have "length (drop 4 bs) = 4 * n" "length (take 4 bs) = 4" using Suc.prems by simp_all
  with Suc.IH [of "drop 4 bs"] swab4_append4 [of "take 4 bs" "drop 4 bs"]
  show ?case unfolding idx by (simp add: o_def add.commute)
qed simp

lemma words_of_bytes:
  assumes "length bs = 32"
  shows "concat (map be32enc (words_of bs)) = swab4 bs" "concat (map le32enc (words_of bs)) = bs"
proof -
  have four: "length (take 4 (drop (i * 4) bs)) = 4" if "i < 8" for i using assms that by simp
  have "map be32enc (words_of bs) = map (\<lambda>i. rev (take 4 (drop (i * 4) bs))) [0..<8]"
    unfolding words_of_def map_map by (rule map_cong) (simp_all add: be32enc_le32dec [OF four])
  moreover have "map le32enc (words_of bs) = map (\<lambda>i. take 4 (drop (i * 4) bs)) [0..<8]"
    unfolding words_of_def map_map by (rule map_cong) (simp_all add: le32enc_dec [OF four])
  ultimately show "concat (map be32enc (words_of bs)) = swab4 bs"
    "concat (map le32enc (words_of bs)) = bs"
    using split_fours [of bs 8] assms by simp_all
qed

lemma map_nth_segment: "b \<le> length xs \<Longrightarrow> map (\<lambda>i. f (xs ! i)) [a..<b] = map f (take (b - a) (drop a xs))"
  by (rule nth_equalityI) auto

lemma sha256d_header_words:
  assumes "length p = 8" "length r = 8"
  shows "sha256d_header (v # p @ r @ t # b # n # rest) =
         be32enc v @ concat (map be32enc p) @ concat (map le32enc r) @ be32enc t @ be32enc b @ be32enc n"
proof -
  let ?d = "v # p @ r @ t # b # n # rest"
  have "take 9 ?d = v # p" "take 8 (drop 9 ?d) = r" "take 3 (drop 17 ?d) = [t, b, n]"
    using assms by (simp_all add: numeral_eq_Suc)
  moreover have "20 \<le> length ?d" using assms by simp
  ultimately show ?thesis
    unfolding sha256d_header_def using map_nth_segment [of 9 ?d be32enc 0]
      map_nth_segment [of 17 ?d le32enc 9] map_nth_segment [of 20 ?d be32enc 17] by simp
qed

lemma length_words_of [simp]: "length (words_of bs) = 8"
  by (simp add: words_of_def)

lemma build_standard_work_data:
  assumes "length (build_merkle_root sha256d sctx) = 32"
  shows "\<exists>rest. work_data (build_standard_work sha256d algo sctx nw) =
           le32dec (job_version (sctx_job sctx)) # words_of (job_prevhash (sctx_job sctx)) @
           words_of (build_merkle_root sha256d sctx) @
           le32dec (job_ntime (sctx_job sctx)) # le32dec (job_nbits (sctx_job sctx)) # 0 # rest"
  by (intro exI) (simp add: build_standard_work_def Let_def memcpy_def)

lemma length_merkle_fold:
  "(\<And>x. length (sha256d x) = 32) \<Longrightarrow> length h = 32 \<Longrightarrow>
   length (fold (\<lambda>branch hash. sha256d (hash @ branch)) bs h) = 32"
  by (induction bs arbitrary: h) auto

lemma standard_work_xnonce2:
  assumes "xn_ok sctx" "job_coinbase (sctx_job sctx) = c1 @ x1 @ replicate (sctx_xnonce2_size sctx) 0 @ c2"
    and "job_xnonce2 (sctx_job sctx) = Some (length c1 + length x1)"
  shows "take (work_xnonce2_len (build_standard_work sha256d algo sctx nw))
           (work_xnonce2 (build_standard_work sha256d algo sctx nw)) = replicate (sctx_xnonce2_size sctx) 0"
  using assms by (simp add: build_standard_work_def Let_def memcpy_def miner_work_reset_def)

lemma update_header_nonce:
  assumes "length p = 8" "length r = 8"
  shows "(v # p @ r @ t # b # m # rest)[19 := n] = v # p @ r @ t # b # n # rest"
proof -
  have "list_update (v # p @ r @ t # b # m # rest) (Suc (length p + length r + 2)) n =
      v # p @ r @ t # b # n # rest"
    by (simp add: list_update_append numeral_eq_Suc)
  then show ?thesis using assms by simp
qed

text \<open>
  C1. End to end, a share is checked by the pool on exactly the bytes the worker hashed: for every
  accepted notification and every nonce, the header that \<open>scanhash_sha256d\<close> assembles from the
  published work is the header the pool rebuilds from its own notification, the negotiated
  extranonce1 and the extranonce2, time and nonce strings of the submission. (The double SHA-256
  is only assumed to return 32 bytes.)
\<close>

theorem submitted_header_is_hashed_header:
  assumes digest: "\<And>x. length (sha256d x) = 32"
    and "xn_ok sctx" and job: "apply_standard_job_locked msg merkle sctx = (sctx', True)"
    and work: "work = (build_standard_work sha256d algo sctx' nw)
           \<lparr>work_data := (work_data (build_standard_work sha256d algo sctx' nw))[19 := nonce]\<rparr>"
  shows "pool_header sha256d msg merkle (sctx_xnonce1 sctx) (sv_xnonce2str (build_standard_submit_view work))
           (sv_ntimestr (build_standard_submit_view work)) (sv_noncestr (build_standard_submit_view work)) =
         Some (sha256d_header (work_data work))"
  using job
proof (rule apply_standard_job_cases)
  fix c1 c2 prevhash version nbits ntime
  assume hex: "hex2bin (sn_coinb1 msg) (length (sn_coinb1 msg) div 2) = Some c1"
      "hex2bin (sn_coinb2 msg) (length (sn_coinb2 msg) div 2) = Some c2"
      "hex2bin (sn_prevhash msg) 32 = Some prevhash" "hex2bin (sn_version msg) 4 = Some version"
      "hex2bin (sn_nbits msg) 4 = Some nbits" "hex2bin (sn_stime msg) 4 = Some ntime"
    and jb: "job_coinbase (sctx_job sctx') = coinbase_bytes sctx c1 c2"
      "job_coinbase_size (sctx_job sctx') = length (sn_coinb1 msg) div 2 + sctx_xnonce1_size sctx +
         sctx_xnonce2_size sctx + length (sn_coinb2 msg) div 2"
      "job_xnonce2 (sctx_job sctx') = Some (length (sn_coinb1 msg) div 2 + sctx_xnonce1_size sctx)"
    and fields: "job_prevhash (sctx_job sctx') = prevhash" "job_version (sctx_job sctx') = version"
      "job_nbits (sctx_job sctx') = nbits" "job_ntime (sctx_job sctx') = ntime"
      "job_merkle (sctx_job sctx') = merkle"
    and xn: "sctx_xnonce1 sctx' = sctx_xnonce1 sctx" "sctx_xnonce1_size sctx' = sctx_xnonce1_size sctx"
      "sctx_xnonce2_size sctx' = sctx_xnonce2_size sctx"
  note len = hex [THEN hex2bin_lengths]
  have "xn_ok sctx'" using assms(2) xn by (simp add: xn_ok_def)
  let ?x1 = "sctx_xnonce1 sctx" and ?n2 = "sctx_xnonce2_size sctx"
  let ?root = "build_merkle_root sha256d sctx'"
  have cb: "coinbase_bytes sctx c1 c2 = c1 @ ?x1 @ replicate ?n2 0 @ c2"
    using assms(2) by (simp add: coinbase_bytes_def xn_ok_def)
  have root: "?root = fold (\<lambda>branch hash. sha256d (hash @ branch)) merkle (sha256d (c1 @ ?x1 @ replicate ?n2 0 @ c2))"
    using assms(2) len by (simp add: build_merkle_root_def jb cb fields xn_ok_def)
  then have root32: "length ?root = 32" using digest by (simp add: length_merkle_fold)
  obtain rest where data: "work_data work = le32dec version # words_of prevhash @ words_of ?root @
      le32dec ntime # le32dec nbits # nonce # rest"
  proof -
    obtain rest where "work_data (build_standard_work sha256d algo sctx' nw) =
        le32dec version # words_of prevhash @ words_of ?root @ le32dec ntime # le32dec nbits # 0 # rest"
      using build_standard_work_data [OF root32, of algo nw] unfolding fields by blast
    then have "work_data work = (le32dec version # words_of prevhash @ words_of ?root @
        le32dec ntime # le32dec nbits # 0 # rest)[19 := nonce]" by (simp only: work) simp
    then show thesis by (intro that) (simp only: update_header_nonce length_words_of)
  qed
  have nth: "work_data work ! 17 = le32dec ntime" "work_data work ! 19 = nonce"
    by (simp_all add: data nth_append numeral_eq_Suc)
  have x2: "take (work_xnonce2_len work) (work_xnonce2 work) = replicate ?n2 0"
    using standard_work_xnonce2 [OF \<open>xn_ok sctx'\<close>, of c1 ?x1 c2 sha256d algo nw] jb cb xn len assms(2) work
    by (simp add: xn_ok_def)
  have strs: "sv_xnonce2str (build_standard_submit_view work) = bin2hex (replicate ?n2 0)"
    "sv_ntimestr (build_standard_submit_view work) = bin2hex ntime"
    "sv_noncestr (build_standard_submit_view work) = bin2hex (le32enc nonce)"
    using len by (simp_all add: build_standard_submit_view_def nth x2 bin2hex_def le32enc_dec)
  have nonce4: "swab4 (le32enc nonce) = be32enc nonce"
    by (simp add: swab4_eq_rev) (simp add: le32enc_def be32enc_def)
  have hex_strs: "hex2bin (bin2hex (replicate ?n2 0)) (length (bin2hex (replicate ?n2 0)) div 2) =
      Some (replicate ?n2 0)" "hex2bin (bin2hex ntime) 4 = Some ntime"
      "hex2bin (bin2hex (le32enc nonce)) 4 = Some (le32enc nonce)"
    using hex2bin_bin2hex [of "replicate ?n2 0"] hex2bin_bin2hex [of ntime]
      hex2bin_bin2hex [of "le32enc nonce"] len by (simp_all add: bin2hex_def)
  have "pool_header sha256d msg merkle ?x1 (bin2hex (replicate ?n2 0)) (bin2hex ntime) (bin2hex (le32enc nonce)) =
      Some (swab4 version @ swab4 prevhash @ ?root @ swab4 ntime @ swab4 nbits @ swab4 (le32enc nonce))"
    unfolding pool_header_def hex hex_strs root by simp
  also have "swab4 version @ swab4 prevhash @ ?root @ swab4 ntime @ swab4 nbits @ swab4 (le32enc nonce) =
      sha256d_header (work_data work)"
    using len root32
    by (simp add: data sha256d_header_words words_of_bytes be32enc_le32dec swab4_eq_rev nonce4)
  finally show ?thesis unfolding strs .
qed

definition witness_notify :: "unit standard_notify_view" where
  "witness_notify = \<lparr>
     sn_job_id = ''job7'', sn_prevhash = bin2hex (map word_of_nat [0..<32]), sn_coinb1 = ''0102'',
     sn_coinb2 = ''ff'', sn_version = ''20000000'', sn_nbits = ''1d00ffff'', sn_stime = ''68000000'',
     sn_merkle_arr = None, sn_clean = True\<rparr>"

definition witness_session :: stratum_ctx where
  "witness_session = zero_sctx\<lparr>sctx_xnonce1 := [0xaa, 0xbb], sctx_xnonce1_size := 2, sctx_xnonce2_size := 4\<rparr>"

lemma witness_notify_applies: "snd (apply_standard_job_locked witness_notify [] witness_session)"
  by code_simp

lemma witness_session_ok: "xn_ok witness_session"
  by (simp add: xn_ok_def witness_session_def)

theorem submitted_header_is_hashed_header_witness:
  "\<exists>work. pool_header (\<lambda>x. replicate 32 7) witness_notify [] (sctx_xnonce1 witness_session)
     (sv_xnonce2str (build_standard_submit_view work)) (sv_ntimestr (build_standard_submit_view work))
     (sv_noncestr (build_standard_submit_view work)) = Some (sha256d_header (work_data work))"
proof -
  obtain sctx' where "apply_standard_job_locked witness_notify [] witness_session = (sctx', True)"
    using witness_notify_applies by (metis prod.collapse)
  note app = this
  show ?thesis
    by (rule exI, rule submitted_header_is_hashed_header [OF _ witness_session_ok app,
          where algo = ALGO_SHA256D and nw = zero_work and nonce = 5]) (simp, rule refl)
qed

end
