(* ===== verification/Verus_Stratum.thy ===== *)
theory Verus_Stratum
  imports Standard
begin

text \<open>
  The Verus dialect (\<open>src/stratum_verus.cpp\<close>): \<open>mining.set_target\<close>, the notification with its
  1344-byte solution template, the 140-byte header of the work unit and the share submission. The
  bytes of the coinbase buffer that the code leaves as \<open>malloc\<close> returned them are an argument
  (\<open>uninit\<close>). The main result: the header a worker scans is the header the pool rebuilds from its
  notification, the extranonce1 and the submitted time and nonce, whatever those bytes are.
\<close>

definition VERUS_NONCE_FIELD_BYTES :: nat where "VERUS_NONCE_FIELD_BYTES = 32"
definition VERUS_SUBMIT_SOLUTION_SIZE :: nat where "VERUS_SUBMIT_SOLUTION_SIZE = 1347"
definition VERUS_RESTORED_SOLUTION_OFFSET :: nat where "VERUS_RESTORED_SOLUTION_OFFSET = 8"
definition VERUS_RESTORED_SOLUTION_BYTES :: nat where "VERUS_RESTORED_SOLUTION_BYTES = 64"
definition EQNONCE_OFFSET :: nat where "EQNONCE_OFFSET = 30"

lemmas verus_consts = VERUS_NONCE_FIELD_BYTES_def VERUS_SUBMIT_SOLUTION_SIZE_def
  VERUS_RESTORED_SOLUTION_OFFSET_def VERUS_RESTORED_SOLUTION_BYTES_def EQNONCE_OFFSET_def

section \<open>Fields\<close>

definition decode_verus_solution_field :: "nat \<Rightarrow> string \<Rightarrow> bytes option" where
  "decode_verus_solution_field output_size hexstr =
     (if odd (length hexstr) then None
      else
        let solution_size = length hexstr div 2
        in if output_size < solution_size then None
           else if solution_size = 0 then Some (replicate output_size 0)
           else map_option (\<lambda>b. memcpy (replicate output_size 0) 0 b) (hex2bin hexstr solution_size))"

definition verus_validate_nonce_layout :: "stratum_ctx \<Rightarrow> bool" where
  "verus_validate_nonce_layout sctx \<longleftrightarrow>
     sctx_xnonce1_size sctx \<le> VERUS_NONCE_FIELD_BYTES \<and>
     sctx_xnonce1_size sctx + sctx_xnonce2_size sctx = VERUS_NONCE_FIELD_BYTES \<and>
     sctx_xnonce1_size sctx \<le> 12"

definition verus_stratum_set_target ::
  "'j jansson \<Rightarrow> 'j option \<Rightarrow> stratum_ctx \<Rightarrow> stratum_ctx \<times> bool" where
  "verus_stratum_set_target J params sctx =
     (case json_string_value J (json_array_get J params 0) of
        None \<Rightarrow> (sctx, False)
      | Some target_hex \<Rightarrow>
          (if target_hex = [] then (sctx, False)
           else case hex2bin target_hex 32 of
                  None \<Rightarrow> (sctx, False)
                | Some target_bin \<Rightarrow>
                    (let diff = verus_target_diff target_bin
                     in if diff \<le> 0 then (sctx, False) else (stratum_store_next_diff diff sctx, True))))"

section \<open>Notifications\<close>

record verus_notify_view =
  vn_job_id :: string
  vn_version :: string
  vn_prevhash :: string
  vn_coinb1 :: string
  vn_coinb2 :: string
  vn_stime :: string
  vn_nbits :: string
  vn_solution :: "string option"
  vn_clean :: bool

definition parse_verus_notify :: "'j jansson \<Rightarrow> 'j option \<Rightarrow> verus_notify_view option" where
  "parse_verus_notify J params =
     (let str = (\<lambda>i. json_string_value J (json_array_get J params i));
          solution = str 8
      in case (str 0, str 1, str 2, str 3, str 4, str 5, str 6) of
           (Some job_id, Some version, Some prevhash, Some coinb1, Some coinb2, Some stime, Some nbits) \<Rightarrow>
             (if (case solution of None \<Rightarrow> False | Some s \<Rightarrow> odd (length s)) then None
              else if length prevhash \<noteq> 64 \<or> length version \<noteq> 8 \<or> length coinb1 \<noteq> 64 \<or>
                      length coinb2 \<noteq> 64 \<or> length nbits \<noteq> 8 \<or> length stime \<noteq> 8 then None
              else Some \<lparr>vn_job_id = job_id, vn_version = version, vn_prevhash = prevhash,
                         vn_coinb1 = coinb1, vn_coinb2 = coinb2, vn_stime = stime, vn_nbits = nbits,
                         vn_solution = solution,
                         vn_clean = json_is_true J (json_array_get J params 7)\<rparr>)
         | _ \<Rightarrow> None)"

definition apply_verus_job_locked ::
  "bytes \<Rightarrow> verus_notify_view \<Rightarrow> bytes \<Rightarrow> stratum_ctx \<Rightarrow> stratum_ctx \<times> bool" where
  "apply_verus_job_locked uninit msg decoded_solution sctx =
     (let coinb1_size = length (vn_coinb1 msg) div 2;
          coinb2_size = length (vn_coinb2 msg) div 2;
          coinbase_size = coinb1_size + coinb2_size + sctx_xnonce1_size sctx + sctx_xnonce2_size sctx;
          job = sctx_job sctx
      in if \<not> verus_validate_nonce_layout sctx then (sctx, False)
         else case (stratum_decode_hex_field (vn_version msg) 4,
                    stratum_decode_hex_field (vn_prevhash msg) 32,
                    stratum_decode_hex_field (vn_nbits msg) 4,
                    stratum_decode_hex_field (vn_stime msg) 4,
                    stratum_decode_hex_field (vn_coinb1 msg) coinb1_size,
                    stratum_decode_hex_field (vn_coinb2 msg) coinb2_size) of
                (Some version, Some prevhash, Some nbits, Some ntime, Some c1, Some c2) \<Rightarrow>
                  (let preserved_height =
                         (if job_job_id job = None \<or> job_version job \<noteq> version \<or> job_prevhash job \<noteq> prevhash
                          then 0 else job_height job);
                       coinbase = c1 @ c2 @ take (sctx_xnonce1_size sctx) (sctx_xnonce1 sctx) @
                                  take (sctx_xnonce2_size sctx) uninit;
                       job' = (stratum_job_clear_merkle job)
                         \<lparr>job_job_id := Some (vn_job_id msg), job_coinbase := coinbase,
                          job_coinbase_size := coinbase_size, job_solution := decoded_solution,
                          job_version := version, job_prevhash := prevhash, job_nbits := nbits,
                          job_ntime := ntime, job_height := preserved_height\<rparr>
                   in (stratum_capture_next_diff_locked (sctx\<lparr>sctx_job := job'\<rparr>), True))
              | _ \<Rightarrow> (sctx, False))"

section \<open>Building the work\<close>

definition build_verus_work :: "stratum_ctx \<Rightarrow> work \<Rightarrow> work" where
  "build_verus_work sctx new_work =
     (let w0 = miner_work_reset new_work;
          job = sctx_job sctx;
          d1 = store_bytes (work_data w0) 0 (job_version job);
          d2 = store_bytes d1 4 (job_prevhash job);
          d3 = store_bytes d2 36 (take 64 (job_coinbase job));
          d4 = store_bytes d3 100 (job_ntime job);
          d5 = store_bytes d4 104 (job_nbits job);
          d6 = store_bytes d5 108 (take (sctx_xnonce1_size sctx) (sctx_xnonce1 sctx))
      in w0\<lparr>work_job_id := snprintf_s JOB_ID_SIZE (case job_job_id job of None \<Rightarrow> [] | Some j \<Rightarrow> j),
            work_height := job_height job,
            work_pooln := word_of_int (sctx_pooln sctx),
            work_data := d6[35 := 0x80],
            work_verus := map_option (\<lambda>p. p\<lparr>payload_solution := job_solution job\<rparr>) (work_verus w0),
            work_target := bytes_words (diff_to_target_verus (job_diff job)),
            work_targetdiff := job_diff job\<rparr>)"

definition apply_verus_notify ::
  "bytes \<Rightarrow> int \<Rightarrow> bool \<Rightarrow> verus_notify_view \<Rightarrow> nat \<Rightarrow> 'j world \<Rightarrow> 'j world \<times> bool" where
  "apply_verus_notify uninit now alloc msg p w =
     (case stratum_update_time_offset now (vn_stime msg) False (sctx_at w p) of
        (sctx1, timed) \<Rightarrow>
          (let w1 = upd_sctx p (\<lambda>_. sctx1) w;
               decoded = (case vn_solution msg of
                            None \<Rightarrow> Some (replicate VERUS_WORK_SOLUTION_SIZE 0)
                          | Some s \<Rightarrow> if s = [] then Some (replicate VERUS_WORK_SOLUTION_SIZE 0)
                                      else decode_verus_solution_field VERUS_WORK_SOLUTION_SIZE s)
           in if \<not> timed then (w1, False)
              else case decoded of
                     None \<Rightarrow> (w1, False)
                   | Some solution \<Rightarrow>
                       (if \<not> stratum_check_job_id_length (vn_job_id msg) then (w1, False)
                        else stratum_commit_job_update alloc (apply_verus_job_locked uninit msg solution)
                               build_verus_work (vn_clean msg) p w1)))"

definition verus_stratum_notify ::
  "'j jansson \<Rightarrow> bytes \<Rightarrow> int \<Rightarrow> bool \<Rightarrow> 'j option \<Rightarrow> nat \<Rightarrow> 'j world \<Rightarrow> 'j world \<times> bool" where
  "verus_stratum_notify J uninit now alloc params p w =
     (case parse_verus_notify J params of
        None \<Rightarrow> (w, False)
      | Some msg \<Rightarrow> apply_verus_notify uninit now alloc msg p w)"

section \<open>Submitting a share\<close>

record verus_submit_view =
  vs_noncestr :: string
  vs_solhex :: string
  vs_timehex :: string

definition build_verus_submit_view :: "stratum_ctx \<Rightarrow> work \<Rightarrow> verus_submit_view option" where
  "build_verus_submit_view sctx work =
     (if \<not> verus_validate_nonce_layout sctx then None
      else case (miner_work_extra work, miner_work_solution work) of
             (Some work_extra, Some work_solution) \<Rightarrow>
               (let nonce = take VERUS_NONCE_FIELD_BYTES (drop 108 (words_bytes (work_data work)));
                    solhex = cbin2hex (take VERUS_SUBMIT_SOLUTION_SIZE work_extra);
                    restore = cbin2hex (take VERUS_RESTORED_SOLUTION_BYTES
                                          (drop VERUS_RESTORED_SOLUTION_OFFSET work_solution))
                in Some \<lparr>vs_noncestr = bin2hex (drop (sctx_xnonce1_size sctx) nonce),
                         vs_solhex = memcpy solhex (6 + 16) restore,
                         vs_timehex = cbin2hex (be32enc (stratum_bswap32 (work_data work ! 25)))\<rparr>)
           | _ \<Rightarrow> None)"

text \<open>The winning nonce and its solution tail, written back before the request is built.\<close>

definition verus_prepare_submit :: "work \<Rightarrow> work" where
  "verus_prepare_submit work =
     (let i = unat (work_submit_nonce_id work);
          work1 = work\<lparr>work_data := (work_data work)[EQNONCE_OFFSET := work_nonces work ! i]\<rparr>
      in case (work_verus work1, miner_work_verus_nonce_tail work1 i) of
           (Some p, Some tail) \<Rightarrow>
             work1\<lparr>work_verus := Some (p\<lparr>payload_extra :=
               memcpy (payload_extra p) VERUS_SOLUTION_NONCE_OFFSET tail\<rparr>)\<rparr>
         | _ \<Rightarrow> work1)"

definition verus_stratum_submit ::
  "int \<Rightarrow> bool \<Rightarrow> nat \<Rightarrow> work \<Rightarrow> 'j world \<Rightarrow> work \<times> 'j world \<times> bool" where
  "verus_stratum_submit now sent p work w =
     (let work1 = verus_prepare_submit work;
          i = unat (work_submit_nonce_id work)
      in case build_verus_submit_view (sctx_at w p) work1 of
           None \<Rightarrow> (work1, w, False)
         | Some msg \<Rightarrow>
             (let (submit_id, sctx1) = stratum_submit_id_next (sctx_at w p);
                  request = stratum_build_submit_request_line submit_id (pool_user (pool_at w p))
                              (work_job_id work1) (vs_timehex msg) (vs_noncestr msg) (vs_solhex msg)
              in (work1, stratum_send_submit now sent p request submit_id (work_sharediff work1 ! i)
                           (int (unat (work_thread_id work1))) (upd_sctx p (\<lambda>_. sctx1) w))))"

section \<open>The header, end to end\<close>

text \<open>The 140-byte header the pool rebuilds from its notification and a submission.\<close>

definition verus_pool_header :: "verus_notify_view \<Rightarrow> bytes \<Rightarrow> string \<Rightarrow> string \<Rightarrow> bytes option" where
  "verus_pool_header msg xnonce1 timehex noncestr =
     (case (hex2bin (vn_version msg) 4, hex2bin (vn_prevhash msg) 32, hex2bin (vn_coinb1 msg) 32,
            hex2bin (vn_coinb2 msg) 32, hex2bin timehex 4, hex2bin (vn_nbits msg) 4,
            hex2bin noncestr (length noncestr div 2)) of
        (Some version, Some prevhash, Some c1, Some c2, Some ntime, Some nbits, Some nonce) \<Rightarrow>
          Some (version @ prevhash @ c1 @ c2 @ ntime @ nbits @ xnonce1 @ nonce)
      | _ \<Rightarrow> None)"

lemma apply_verus_job_cases:
  assumes "apply_verus_job_locked uninit msg solution sctx = (sctx', True)"
    and "length (vn_coinb1 msg) = 64" "length (vn_coinb2 msg) = 64"
  obtains c1 c2 prevhash version nbits ntime rest where
    "hex2bin (vn_version msg) 4 = Some version" "hex2bin (vn_prevhash msg) 32 = Some prevhash"
    "hex2bin (vn_nbits msg) 4 = Some nbits" "hex2bin (vn_stime msg) 4 = Some ntime"
    "hex2bin (vn_coinb1 msg) 32 = Some c1" "hex2bin (vn_coinb2 msg) 32 = Some c2"
    "job_coinbase (sctx_job sctx') = c1 @ c2 @ rest"
    "job_version (sctx_job sctx') = version" "job_prevhash (sctx_job sctx') = prevhash"
    "job_nbits (sctx_job sctx') = nbits" "job_ntime (sctx_job sctx') = ntime"
    "job_solution (sctx_job sctx') = solution" "job_job_id (sctx_job sctx') = Some (vn_job_id msg)"
    "job_diff (sctx_job sctx') = sctx_next_diff sctx"
    "sctx_xnonce1 sctx' = sctx_xnonce1 sctx" "sctx_xnonce1_size sctx' = sctx_xnonce1_size sctx"
    "sctx_xnonce2_size sctx' = sctx_xnonce2_size sctx" "verus_validate_nonce_layout sctx"
proof -
  note d = apply_verus_job_locked_def stratum_decode_hex_field_def Let_def
  from assms have ok: "verus_validate_nonce_layout sctx" by (auto simp: d split: if_splits)
  from assms ok obtain version where 1: "hex2bin (vn_version msg) 4 = Some version"
    by (cases "hex2bin (vn_version msg) 4") (simp_all add: d)
  from assms ok 1 obtain prevhash where 2: "hex2bin (vn_prevhash msg) 32 = Some prevhash"
    by (cases "hex2bin (vn_prevhash msg) 32") (simp_all add: d)
  from assms ok 1 2 obtain nbits where 3: "hex2bin (vn_nbits msg) 4 = Some nbits"
    by (cases "hex2bin (vn_nbits msg) 4") (simp_all add: d)
  from assms ok 1 2 3 obtain ntime where 4: "hex2bin (vn_stime msg) 4 = Some ntime"
    by (cases "hex2bin (vn_stime msg) 4") (simp_all add: d)
  from assms ok 1 2 3 4 obtain c1 where 5: "hex2bin (vn_coinb1 msg) 32 = Some c1"
    by (cases "hex2bin (vn_coinb1 msg) 32") (simp_all add: d)
  from assms ok 1 2 3 4 5 obtain c2 where 6: "hex2bin (vn_coinb2 msg) 32 = Some c2"
    by (cases "hex2bin (vn_coinb2 msg) 32") (simp_all add: d)
  have res: "sctx' = fst (apply_verus_job_locked uninit msg solution sctx)" by (simp add: assms)
  show thesis
    by (rule that [OF 1 2 3 4 5 6])
      (simp_all add: res d ok 1 2 3 4 5 6 assms(2,3) stratum_capture_next_diff_locked_def
        stratum_job_clear_merkle_def)
qed

lemma memcpy_extend:
  "length ys \<le> n \<Longrightarrow> memcpy (xs @ replicate n 0) (length xs) ys = xs @ ys @ replicate (n - length ys) 0"
  by (simp add: memcpy_def)

lemma words_bytes_zeros: "words_bytes (replicate n 0) = replicate (4 * n) 0"
  by (induction n) (simp_all add: words_bytes_def le32enc_def numeral_eq_Suc)

lemma store_extend:
  assumes "words_bytes ws = xs @ replicate n 0" "length ys \<le> n" "length xs = off"
  shows "words_bytes (store_bytes ws off ys) = (xs @ ys) @ replicate (n - length ys) 0"
proof -
  have "off + length ys \<le> 4 * length ws"
    using assms length_words_bytes [of ws] by simp
  then have "words_bytes (store_bytes ws off ys) = memcpy (xs @ replicate n 0) (length xs) ys"
    using assms by (simp add: words_bytes_store)
  then show ?thesis using assms(2) by (simp add: memcpy_extend)
qed

lemma verus_work_bytes:
  assumes "length (job_version job) = 4" "length (job_prevhash job) = 32" "64 \<le> length (job_coinbase job)"
    and "length (job_ntime job) = 4" "length (job_nbits job) = 4" "job = sctx_job sctx"
    and "length x1 \<le> 12" "x1 = take (sctx_xnonce1_size sctx) (sctx_xnonce1 sctx)"
  shows "\<exists>rest. words_bytes (work_data (build_verus_work sctx nw)) =
      (job_version job @ job_prevhash job @ take 64 (job_coinbase job) @ job_ntime job @ job_nbits job @ x1) @
      rest \<and> 140 \<le> length (words_bytes (work_data (build_verus_work sctx nw)))"
proof -
  let ?w0 = "miner_work_reset nw"
  have z: "words_bytes (work_data ?w0) = [] @ replicate 272 0"
    by (simp add: miner_work_reset_def zero_work_def words_bytes_zeros)

  define d1 where "d1 = store_bytes (work_data ?w0) 0 (job_version job)"
  define d2 where "d2 = store_bytes d1 4 (job_prevhash job)"
  define d3 where "d3 = store_bytes d2 36 (take 64 (job_coinbase job))"
  define d4 where "d4 = store_bytes d3 100 (job_ntime job)"
  define d5 where "d5 = store_bytes d4 104 (job_nbits job)"
  define d6 where "d6 = store_bytes d5 108 x1"
  have b1: "words_bytes d1 = job_version job @ replicate 268 0"
    unfolding d1_def using store_extend [OF z, of "job_version job" 0] assms(1) by simp
  have b2: "words_bytes d2 = (job_version job @ job_prevhash job) @ replicate 236 0"
    unfolding d2_def using store_extend [OF b1, of "job_prevhash job" 4] assms(1,2) by simp
  have b3: "words_bytes d3 = (job_version job @ job_prevhash job @ take 64 (job_coinbase job)) @ replicate 172 0"
    unfolding d3_def using store_extend [OF b2, of "take 64 (job_coinbase job)" 36] assms(1-3) by simp
  have b4: "words_bytes d4 = (job_version job @ job_prevhash job @ take 64 (job_coinbase job) @ job_ntime job) @
      replicate 168 0"
    unfolding d4_def using store_extend [OF b3, of "job_ntime job" 100] assms(1-4) by simp
  have b5: "words_bytes d5 = (job_version job @ job_prevhash job @ take 64 (job_coinbase job) @ job_ntime job @
      job_nbits job) @ replicate 164 0"
    unfolding d5_def using store_extend [OF b4, of "job_nbits job" 104] assms(1-5) by simp
  have b6: "words_bytes d6 = (job_version job @ job_prevhash job @ take 64 (job_coinbase job) @ job_ntime job @
      job_nbits job @ x1) @ replicate (164 - length x1) 0"
    unfolding d6_def using store_extend [OF b5, of x1 108] assms(1-5,7) by simp
  have len: "length d6 = 68" using arg_cong [OF b6, of length] assms(1-5,7) by simp
  have data: "work_data (build_verus_work sctx nw) = d6[35 := 0x80]"
    by (simp add: build_verus_work_def Let_def d1_def d2_def d3_def d4_def d5_def d6_def assms(6,8))
  then have wb: "words_bytes (work_data (build_verus_work sctx nw)) = memcpy (words_bytes d6) 140 (le32enc 0x80)"
    using len by (simp add: words_bytes_update)
  show ?thesis
    unfolding wb b6 using assms(1-5,7) by (simp add: memcpy_def)
qed

lemma take_prefix_eq: "w = xs @ rest \<Longrightarrow> n = length xs \<Longrightarrow> take n w = xs"
  by simp

lemma be32enc_bswap: "be32enc (stratum_bswap32 x) = le32enc x"
proof -
  have "be32enc y = rev (le32enc y)" for y by (simp add: le32enc_def be32enc_def)
  then show ?thesis by (simp add: stratum_bswap32_def be32_rev le32enc_dec)
qed

text \<open>
  C2. End to end for Verus: whatever nonce word a worker rolls into header word 30 and whatever
  exhaustion epoch into word 32, the 140 header bytes it scanned are the header the pool rebuilds
  from its notification, its extranonce1 and the \<open>timehex\<close> and \<open>noncestr\<close> of the submission; the
  uninitialised tail of the coinbase buffer never reaches them.
\<close>

theorem verus_submitted_header_is_scanned_header:
  assumes "parse_verus_notify J params = Some msg" "xn_ok sctx"
    and job: "apply_verus_job_locked uninit msg solution sctx = (sctx', True)"
    and work: "work = (build_verus_work sctx' nw)
           \<lparr>work_data := (work_data (build_verus_work sctx' nw))[EQNONCE_OFFSET := a, 32 := b]\<rparr>"
    and view: "build_verus_submit_view sctx' work = Some v"
  shows "verus_pool_header msg (sctx_xnonce1 sctx) (vs_timehex v) (vs_noncestr v) =
         Some (take 140 (words_bytes (work_data work)))"
proof -
  have lens: "length (vn_coinb1 msg) = 64" "length (vn_coinb2 msg) = 64"
    using assms(1) by (auto simp: parse_verus_notify_def Let_def split: option.splits if_splits)
  from job lens show ?thesis
  proof (rule apply_verus_job_cases)
    fix c1 c2 prevhash version nbits ntime rest
    assume hex: "hex2bin (vn_version msg) 4 = Some version" "hex2bin (vn_prevhash msg) 32 = Some prevhash"
        "hex2bin (vn_nbits msg) 4 = Some nbits" "hex2bin (vn_stime msg) 4 = Some ntime"
        "hex2bin (vn_coinb1 msg) 32 = Some c1" "hex2bin (vn_coinb2 msg) 32 = Some c2"
      and jb: "job_coinbase (sctx_job sctx') = c1 @ c2 @ rest"
        "job_version (sctx_job sctx') = version" "job_prevhash (sctx_job sctx') = prevhash"
        "job_nbits (sctx_job sctx') = nbits" "job_ntime (sctx_job sctx') = ntime"
      and xn: "sctx_xnonce1 sctx' = sctx_xnonce1 sctx" "sctx_xnonce1_size sctx' = sctx_xnonce1_size sctx"
      and layout: "verus_validate_nonce_layout sctx"
    note len = hex [THEN hex2bin_lengths]
    let ?x1 = "sctx_xnonce1 sctx" and ?n = "sctx_xnonce1_size sctx"
    let ?pre = "version @ prevhash @ c1 @ c2 @ ntime @ nbits"
    let ?W = "words_bytes (work_data (build_verus_work sctx' nw))"
    have n: "length ?x1 = ?n" "?n \<le> 12" using assms(2) layout
      by (auto simp: xn_ok_def verus_validate_nonce_layout_def)
    have ex: "\<exists>rest'. ?W = (job_version (sctx_job sctx') @ job_prevhash (sctx_job sctx') @
        take 64 (job_coinbase (sctx_job sctx')) @ job_ntime (sctx_job sctx') @ job_nbits (sctx_job sctx') @
        take (sctx_xnonce1_size sctx') (sctx_xnonce1 sctx')) @ rest' \<and> 140 \<le> length ?W"
      using len jb xn n by (intro verus_work_bytes [OF _ _ _ _ _ refl _ refl]) simp_all
    have c64: "take 64 (job_coinbase (sctx_job sctx')) = c1 @ c2" using jb len by simp
    have "\<exists>rest'. ?W = (?pre @ ?x1) @ rest'"
      using ex unfolding jb(2-) xn c64 by (elim exE conjE, intro exI) (simp add: n)
    then obtain rest' where W1: "?W = (?pre @ ?x1) @ rest'" by blast
    have W2: "140 \<le> length ?W" using ex by blast
    note W = W1 W2
    then have pre108: "length (?pre @ ?x1) = 108 + ?n" using len n by simp
    let ?D = "words_bytes (work_data work)"
    have words: "35 \<le> length (work_data (build_verus_work sctx' nw))" using W(2) by simp
    then have D: "?D = memcpy (memcpy ?W 120 (le32enc a)) 128 (le32enc b)"
      by (simp add: work words_bytes_update EQNONCE_OFFSET_def)
    have keep: "take m ?D = take m ?W" if "m \<le> 120" for m
      using that W(2) by (simp add: D memcpy_def)
    have head: "take (108 + ?n) ?D = ?pre @ ?x1"
      using keep [of "108 + ?n"] n take_prefix_eq [OF W(1) pre108 [symmetric]] by simp
    have lenD: "140 \<le> length ?D" using W(2) by (simp add: D memcpy_def)
    have nonce: "vs_noncestr v = bin2hex (drop ?n (take 32 (drop 108 ?D)))"
      and time: "vs_timehex v = bin2hex (le32enc (work_data work ! 25))"
      using view xn by (auto simp: build_verus_submit_view_def verus_consts Let_def be32enc_bswap
          bin2hex_def split: if_splits option.splits)
    have "le32enc (work_data work ! 25) = take 4 (drop 100 ?D)"
      using words_bytes_nth [of 25 "work_data work"] lenD by simp
    also have "\<dots> = drop 100 (take 104 (take (108 + ?n) ?D))" by (simp add: drop_take)
    also have "\<dots> = ntime" unfolding head using len by simp
    finally have time': "hex2bin (vs_timehex v) 4 = Some ntime"
      using time hex2bin_bin2hex [of ntime] len by simp
    have nonce': "hex2bin (vs_noncestr v) (length (vs_noncestr v) div 2) = Some (drop ?n (take 32 (drop 108 ?D)))"
      using hex2bin_bin2hex [of "drop ?n (take 32 (drop 108 ?D))"] by (simp add: nonce bin2hex_def)
    have "take 140 ?D = take (108 + ?n) ?D @ take (32 - ?n) (drop (108 + ?n) ?D)"
      using n by (simp add: take_add [symmetric])
    also have "take (32 - ?n) (drop (108 + ?n) ?D) = drop ?n (take 32 (drop 108 ?D))"
      by (simp add: drop_take add.commute)
    finally have "take 140 ?D = ?pre @ ?x1 @ drop ?n (take 32 (drop 108 ?D))" by (simp add: head)
    then show ?thesis by (simp only: verus_pool_header_def hex time' nonce' option.case prod.case append_assoc)
  qed
qed

definition witness_verus_params :: jval where
  "witness_verus_params = J_Array
     [J_String ''77'', J_String ''04000100'', J_String (bin2hex (replicate 32 3)),
      J_String (bin2hex (replicate 32 1)), J_String (bin2hex (replicate 32 2)), J_String ''68010203'',
      J_String ''1b00ffff'', J_Bool True]"

definition witness_verus_msg :: verus_notify_view where
  "witness_verus_msg = \<lparr>
     vn_job_id = ''77'', vn_version = ''04000100'', vn_prevhash = bin2hex (replicate 32 3),
     vn_coinb1 = bin2hex (replicate 32 1), vn_coinb2 = bin2hex (replicate 32 2), vn_stime = ''68010203'',
     vn_nbits = ''1b00ffff'', vn_solution = None, vn_clean = True\<rparr>"

definition witness_verus_session :: stratum_ctx where
  "witness_verus_session = zero_sctx\<lparr>sctx_xnonce1 := [1, 2, 3, 4], sctx_xnonce1_size := 4, sctx_xnonce2_size := 28\<rparr>"

lemma witness_verus_parsed: "parse_verus_notify jval_lib (Some witness_verus_params) = Some witness_verus_msg"
  by (simp add: parse_verus_notify_def witness_verus_params_def witness_verus_msg_def oget_def bin2hex_def)

lemma witness_verus_applied:
  "snd (apply_verus_job_locked [] witness_verus_msg [] witness_verus_session)"
  by code_simp

theorem verus_submitted_header_is_scanned_header_witness:
  "\<exists>(v :: verus_submit_view) (work :: work). verus_pool_header witness_verus_msg (sctx_xnonce1 witness_verus_session) (vs_timehex v) (vs_noncestr v) =
     Some (take 140 (words_bytes (work_data work)))"
proof -
  obtain sctx' where app: "apply_verus_job_locked [] witness_verus_msg [] witness_verus_session = (sctx', True)"
    using witness_verus_applied by (metis prod.collapse)
  have xn: "xn_ok witness_verus_session" by (simp add: xn_ok_def witness_verus_session_def)
  let ?nw = "zero_work\<lparr>work_verus := Some zero_payload\<rparr>"
  let ?b = "build_verus_work sctx' ?nw"
  let ?work = "?b\<lparr>work_data := (work_data ?b)[EQNONCE_OFFSET := 7, 32 := 9]\<rparr>"
  have "verus_validate_nonce_layout sctx'"
  proof (rule apply_verus_job_cases [OF app])
    show "length (vn_coinb1 witness_verus_msg) = 64" "length (vn_coinb2 witness_verus_msg) = 64"
      by (simp_all add: witness_verus_msg_def bin2hex_def)
    assume "sctx_xnonce1_size sctx' = sctx_xnonce1_size witness_verus_session"
      "sctx_xnonce2_size sctx' = sctx_xnonce2_size witness_verus_session"
      "verus_validate_nonce_layout witness_verus_session"
    then show ?thesis by (simp add: verus_validate_nonce_layout_def)
  qed
  then obtain v where view: "build_verus_submit_view sctx' ?work = Some v"
    by (auto simp: build_verus_submit_view_def miner_work_extra_def miner_work_solution_def build_verus_work_def
        miner_work_reset_def Let_def)
  show ?thesis
    by (rule exI, rule exI, rule verus_submitted_header_is_scanned_header [OF witness_verus_parsed xn app refl view])
qed

end
