(* ===== verification/Randomx.thy ===== *)
theory Randomx
  imports Runtime
begin

text \<open>
  The RandomX driver (\<open>src/algorithm/randomx_algo.cpp\<close>): seeding, the per-thread virtual machines
  and the scan loop. The hash itself is the vendored library's: an argument \<open>H\<close> from the seed the
  dataset was built from and the blob to the 32-byte result. The restart and abort checks of the
  scan loop are an argument too: \<open>stop k\<close> tells whether the check before the \<open>k\<close>-th hash fires.
  The results: a recorded nonce really solves the job, a scan that reports nothing tried every
  nonce of its range, and the pool's part of the nonce is never touched.
\<close>

definition RANDOMX_NONCE_WORD :: nat where "RANDOMX_NONCE_WORD = 64"
definition RANDOMX_BLOB_MAX :: nat where "RANDOMX_BLOB_MAX = 256"
definition RANDOMX_NONCE_OFFSET :: nat where "RANDOMX_NONCE_OFFSET = 39"
definition RANDOMX_NICEHASH_NONCE_MASK :: u32 where "RANDOMX_NICEHASH_NONCE_MASK = 0x00FFFFFF"

section \<open>Seeding\<close>

definition rx_apply_seed_locked :: "rx_runtime \<Rightarrow> rx_runtime" where
  "rx_apply_seed_locked rx = rx\<lparr>rx_built_from := Some (rx_seed rx), rx_epoch := rx_epoch rx + 1\<rparr>"

definition randomx_set_seed :: "bytes \<Rightarrow> 'j world \<Rightarrow> 'j world" where
  "randomx_set_seed seed w =
     (let s = take 64 seed; rx = w_rx w
      in if rx_runtime_ready rx \<and> rx_seed rx \<noteq> s then
           (let w1 = (if 0 < rx_epoch rx then miner_work_generation_bump w else w)
            in w1\<lparr>w_rx := rx_apply_seed_locked (rx\<lparr>rx_seed := s\<rparr>)\<rparr>)
         else w)"

section \<open>Virtual machines\<close>

text \<open>
  \<open>mk\<close> is the outcome of \<open>randomx_create_vm\<close> for the JIT and SECURE bits it is called with. The
  result of the fall-back chain is the pair of bits that worked.
\<close>

definition rx_create_vm :: "(bool \<times> bool \<Rightarrow> bool) \<Rightarrow> bool \<times> bool \<Rightarrow> (bool \<times> bool) option" where
  "rx_create_vm mk base =
     (if mk base then Some base
      else case base of
             (jit, secure) \<Rightarrow>
               (if jit \<and> \<not> secure then
                  (if mk (jit, True) then Some (jit, True)
                   else if mk (False, secure) then Some (False, secure)
                   else None)
                else None))"

definition k_benchmark_key :: bytes where
  "k_benchmark_key = map (\<lambda>c. of_nat (char_code c)) ''primo-arm-miner randomx benchmark key''"

text \<open>The virtual machine of a thread: the runtime afterwards and whether a machine exists.\<close>

definition rx_thread_vm :: "(bool \<times> bool \<Rightarrow> bool) \<Rightarrow> int \<Rightarrow> rx_runtime \<Rightarrow> rx_runtime \<times> bool" where
  "rx_thread_vm mk thr_id rx =
     (if thr_id < 0 \<or> int MAX_THREADS \<le> thr_id then (rx, False)
      else if \<not> rx_runtime_ready rx then (rx, False)
      else
        let rx1 = (if rx_epoch rx = 0 \<and> rx_seed rx = []
                   then rx_apply_seed_locked (rx\<lparr>rx_seed := k_benchmark_key\<rparr>) else rx);
            i = nat thr_id
        in case rx_vm_epoch rx1 ! i of
             None \<Rightarrow>
               (case rx_create_vm mk (rx_flags rx1) of
                  None \<Rightarrow> (rx1, False)
                | Some flags \<Rightarrow>
                    (rx1\<lparr>rx_flags := flags, rx_vm_epoch := (rx_vm_epoch rx1)[i := Some (rx_epoch rx1)]\<rparr>,
                     True))
           | Some e \<Rightarrow>
               (if e \<noteq> rx_epoch rx1
                then (rx1\<lparr>rx_vm_epoch := (rx_vm_epoch rx1)[i := Some (rx_epoch rx1)]\<rparr>, True)
                else (rx1, True)))"

section \<open>Start-up and shut-down\<close>

definition hash_equals_hex :: "bytes \<Rightarrow> string \<Rightarrow> bool" where
  "hash_equals_hex hash hex \<longleftrightarrow>
     list_all (\<lambda>i. let hi = decode_hex_nibble (hex ! (i * 2)); lo = decode_hex_nibble (hex ! (i * 2 + 1))
                   in 0 \<le> hi \<and> 0 \<le> lo \<and> hash ! i = word_of_int (hi * 16 + lo)) [0..<32]"

definition k_selftest_hex :: string where
  "k_selftest_hex = ''639183aae1bf4c9a35884cb46b09cad9175f04efd7684e7262a0ac1c2f0b4e3f''"

text \<open>The library's answers during start-up: allocations with and without large pages.\<close>

record rx_env =
  xe_flags :: "bool \<times> bool"
  xe_light :: bool
  xe_test_cache :: bool
  xe_selftest_hash :: bytes
  xe_cache_large :: bool
  xe_cache :: bool
  xe_dataset_large :: bool
  xe_dataset :: bool

definition rx_alloc_memory_locked :: "rx_env \<Rightarrow> rx_runtime \<Rightarrow> rx_runtime \<times> bool" where
  "rx_alloc_memory_locked env rx =
     (if \<not> xe_cache_large env \<and> \<not> xe_cache env then (rx, False)
      else if \<not> rx_light_mode rx \<and> \<not> xe_dataset_large env \<and> \<not> xe_dataset env
      then (rx\<lparr>rx_light_mode := True\<rparr>, True)
      else (rx, True))"

text \<open>The test machine: the base flags, then SECURE, then no JIT.\<close>

definition rx_selftest_vm :: "(bool \<times> bool \<Rightarrow> bool) \<Rightarrow> bool \<times> bool \<Rightarrow> (bool \<times> bool) option" where
  "rx_selftest_vm mk flags =
     (if mk flags then Some flags
      else if fst flags then
        (if mk (fst flags, True) then Some (fst flags, True)
         else if mk (False, snd flags) then Some (False, snd flags)
         else None)
      else None)"

definition randomx_init_runtime ::
  "(bool \<times> bool \<Rightarrow> bool) \<Rightarrow> rx_env \<Rightarrow> rx_runtime \<Rightarrow> rx_runtime \<times> bool" where
  "randomx_init_runtime mk env rx =
     (let rx1 = rx\<lparr>rx_flags := xe_flags env, rx_light_mode := xe_light env\<rparr>
      in if \<not> xe_test_cache env then (rx1, False)
         else case rx_selftest_vm mk (xe_flags env) of
                None \<Rightarrow> (rx1, False)
              | Some flags \<Rightarrow>
                  (let rx2 = rx1\<lparr>rx_flags := flags\<rparr>
                   in if \<not> hash_equals_hex (xe_selftest_hash env) k_selftest_hex then (rx2, False)
                      else case rx_alloc_memory_locked env rx2 of
                             (rx3, False) \<Rightarrow> (rx3, False)
                           | (rx3, True) \<Rightarrow>
                               (rx3\<lparr>rx_vm_epoch := replicate MAX_THREADS None, rx_seed := [],
                                    rx_epoch := 0, rx_runtime_ready := True\<rparr>, True)))"

definition randomx_cleanup_runtime :: "rx_runtime \<Rightarrow> rx_runtime" where
  "randomx_cleanup_runtime rx =
     rx\<lparr>rx_vm_epoch := replicate MAX_THREADS None, rx_built_from := None, rx_runtime_ready := False\<rparr>"

section \<open>The scan loop\<close>

fun rx_hash_le_target_from :: "bytes \<Rightarrow> u32 list \<Rightarrow> nat \<Rightarrow> bool" where
  "rx_hash_le_target_from hash target 0 = True"
| "rx_hash_le_target_from hash target (Suc i) =
     (let h = le32dec (take 4 (drop (i * 4) hash))
      in if h < target ! i then True
         else if target ! i < h then False
         else rx_hash_le_target_from hash target i)"

definition rx_hash_le_target :: "bytes \<Rightarrow> u32 list \<Rightarrow> bool" where
  "rx_hash_le_target hash target = rx_hash_le_target_from hash target 8"

definition rx_nonce :: "u32 \<Rightarrow> u32 \<Rightarrow> u32 \<Rightarrow> nat \<Rightarrow> u32" where
  "rx_nonce nonce_fixed nonce_mask counter k = nonce_fixed OR ((counter + of_nat k) AND nonce_mask)"

text \<open>
  \<open>rem\<close> hashes are left of the budget, \<open>k\<close> are done; the result is the winning nonce with its hash,
  and the number of hashes done.
\<close>

fun rx_scan_loop ::
  "(bytes \<Rightarrow> bytes) \<Rightarrow> (nat \<Rightarrow> bool) \<Rightarrow> (nat \<Rightarrow> u32) \<Rightarrow> u32 list \<Rightarrow> bytes \<Rightarrow> nat \<Rightarrow> nat \<Rightarrow>
   (u32 \<times> bytes) option \<times> nat" where
  "rx_scan_loop hash_fn stop nonce target blob 0 k = (None, k)"
| "rx_scan_loop hash_fn stop nonce target blob (Suc rem) k =
     (if stop k then (None, k)
      else
        let n = nonce k;
            blob' = memcpy blob RANDOMX_NONCE_OFFSET (le32enc n);
            hash = hash_fn blob'
        in if rx_hash_le_target hash target then (Some (n, hash), Suc k)
           else rx_scan_loop hash_fn stop nonce target blob' rem (Suc k))"

definition rx_sharediff :: "bytes \<Rightarrow> double" where
  "rx_sharediff hash =
     (let h64 = le64dec (take 8 (drop 24 hash))
      in if h64 \<noteq> 0 then fl (18446744073709551616 / fl (of_nat (unat h64))) else 0)"

definition rx_blob_len :: "work \<Rightarrow> nat" where
  "rx_blob_len work = min RANDOMX_BLOB_MAX (if work_rx_blob_len work \<noteq> 0 then unat (work_rx_blob_len work) else 76)"

definition rx_nonce_mask :: "work \<Rightarrow> u32" where
  "rx_nonce_mask work = (if work_rx_nonce_mask work \<noteq> 0 then work_rx_nonce_mask work else 0xFFFFFFFF)"

definition rx_nonce_fixed :: "work \<Rightarrow> bytes \<Rightarrow> u32" where
  "rx_nonce_fixed work blob =
     (if rx_nonce_mask work \<noteq> 0xFFFFFFFF
      then le32dec (take 4 (drop RANDOMX_NONCE_OFFSET blob)) AND NOT (rx_nonce_mask work) else 0)"

definition scanhash_randomx ::
  "(bytes \<Rightarrow> bytes \<Rightarrow> bytes) \<Rightarrow> (nat \<Rightarrow> bool) \<Rightarrow> (bool \<times> bool \<Rightarrow> bool) \<Rightarrow> int \<Rightarrow> u32 \<Rightarrow> work \<Rightarrow> rx_runtime \<Rightarrow>
   rx_runtime \<times> work \<times> nat" where
  "scanhash_randomx H stop mk thr_id max_hashes work rx =
     (let work0 = work\<lparr>work_valid_nonces := 0\<rparr>
      in case rx_thread_vm mk thr_id rx of
           (rx1, False) \<Rightarrow> (rx1, work0, 0)
         | (rx1, True) \<Rightarrow>
             (let blob = take (rx_blob_len work) (words_bytes (work_data work));
                  counter = work_data work ! RANDOMX_NONCE_WORD;
                  key = (case rx_built_from rx1 of None \<Rightarrow> [] | Some s \<Rightarrow> s);
                  (found, k) = rx_scan_loop (H key) stop
                    (rx_nonce (rx_nonce_fixed work blob) (rx_nonce_mask work) counter)
                    (work_target work) blob (unat max_hashes) 0;
                  work1 = work0\<lparr>work_data := (work_data work)[RANDOMX_NONCE_WORD := counter + of_nat k]\<rparr>
              in case found of
                   None \<Rightarrow> (rx1, work1, k)
                 | Some (n, hash) \<Rightarrow>
                     (rx1, work1\<lparr>work_nonces := (work_nonces work)[0 := n],
                                 work_rx_hash := (work_rx_hash work)[0 := hash],
                                 work_sharediff := (work_sharediff work)[0 := rx_sharediff hash],
                                 work_valid_nonces := 1\<rparr>, k)))"

section \<open>Results of a scan\<close>

lemma memcpy_twice:
  "off + length a \<le> length dst \<Longrightarrow> length b = length a \<Longrightarrow>
   memcpy (memcpy dst off a) off b = memcpy dst off b"
  by (simp add: memcpy_def)

lemma rx_scan_loop_spec:
  assumes "RANDOMX_NONCE_OFFSET + 4 \<le> length blob"
    and "rx_scan_loop hash_fn stop nonce target blob rem k = (found, d)"
  shows "k \<le> d \<and> d \<le> k + rem \<and>
         (case found of
            Some (n, h) \<Rightarrow> k < d \<and> n = nonce (d - 1) \<and>
              h = hash_fn (memcpy blob RANDOMX_NONCE_OFFSET (le32enc n)) \<and> rx_hash_le_target h target
          | None \<Rightarrow> d = k + rem \<or> stop d) \<and>
         (\<forall>j. k \<le> j \<and> j < (if found = None then d else d - 1) \<longrightarrow>
            \<not> rx_hash_le_target (hash_fn (memcpy blob RANDOMX_NONCE_OFFSET (le32enc (nonce j)))) target)"
  using assms
proof (induction rem arbitrary: blob k)
  case 0
  then show ?case by auto
next
  case (Suc rem)
  let ?b = "memcpy blob RANDOMX_NONCE_OFFSET (le32enc (nonce k))"
  have len: "RANDOMX_NONCE_OFFSET + 4 \<le> length ?b" using Suc.prems(1) by (simp add: length_memcpy)
  have again: "memcpy ?b RANDOMX_NONCE_OFFSET (le32enc x) = memcpy blob RANDOMX_NONCE_OFFSET (le32enc x)" for x
    using Suc.prems(1) by (intro memcpy_twice) auto
  consider "stop k" | "\<not> stop k" "rx_hash_le_target (hash_fn ?b) target"
    | "\<not> stop k" "\<not> rx_hash_le_target (hash_fn ?b) target" by blast
  then show ?case
  proof cases
    case 1
    with Suc.prems show ?thesis by auto
  next
    case 2
    with Suc.prems show ?thesis by (auto simp: Let_def)
  next
    case 3
    then have "rx_scan_loop hash_fn stop nonce target ?b rem (Suc k) = (found, d)"
      using Suc.prems(2) by (simp add: Let_def)
    from Suc.IH [OF len this, unfolded again] 3 show ?thesis
      by (auto split: option.splits simp: Suc_le_eq elim: le_neq_implies_less)
  qed
qed

lemma rx_hash_le_target_from_words:
  "length hash = 32 \<Longrightarrow> i \<le> 8 \<Longrightarrow>
   rx_hash_le_target_from hash target i = hash_le_target_from (bytes_words hash) target i"
proof (induction i)
  case (Suc i)
  have len: "length (bytes_words hash) = 8" using Suc.prems by (intro length_bytes_words) simp
  have "bytes_words hash ! i = le32dec (take 4 (drop (i * 4) hash))"
  proof -
    have "le32enc (bytes_words hash ! i) = take 4 (drop (4 * i) (words_bytes (bytes_words hash)))"
      using len Suc.prems(2) words_bytes_nth [of i "bytes_words hash"] by simp
    also have "words_bytes (bytes_words hash) = hash" using Suc.prems by (intro words_bytes_words [of _ 8]) simp
    finally have "le32dec (le32enc (bytes_words hash ! i)) = le32dec (take 4 (drop (4 * i) hash))" by simp
    then show ?thesis by (simp add: mult.commute)
  qed
  with Suc show ?case by (auto simp: Let_def)
qed simp

text \<open>The driver's own comparison is the shared one on the words of the hash.\<close>

lemma rx_hash_le_target_words:
  "length hash = 32 \<Longrightarrow> rx_hash_le_target hash target = hash_le_target (bytes_words hash) target"
  by (simp add: rx_hash_le_target_def hash_le_target_def rx_hash_le_target_from_words)

lemma rx_nonce_owned_bits:
  assumes "fixed = jn AND NOT m"
  shows "rx_nonce fixed m counter k AND NOT m = jn AND NOT m"
  unfolding rx_nonce_def assms by (rule bit_word_eqI) (auto simp: bit_simps)

text \<open>What a scan on a machine that exists returns.\<close>

lemma scanhash_randomx_result:
  assumes "scanhash_randomx H stop mk thr_id max_hashes work rx = (rx', work', k)"
    and vm: "rx_thread_vm mk thr_id rx = (rx', True)"
    and blob: "blob = take (rx_blob_len work) (words_bytes (work_data work))" "43 \<le> length blob"
    and key: "rx_built_from rx' = Some key"
    and "work_nonces work \<noteq> []" "work_rx_hash work \<noteq> []"
  defines "nonce \<equiv> rx_nonce (rx_nonce_fixed work blob) (rx_nonce_mask work)
                     (work_data work ! RANDOMX_NONCE_WORD)"
  shows "(work_valid_nonces work' = 0 \<and> (k = unat max_hashes \<or> stop k) \<and>
          (\<forall>j < k. \<not> rx_hash_le_target (H key (memcpy blob RANDOMX_NONCE_OFFSET (le32enc (nonce j))))
             (work_target work))) \<or>
         (work_valid_nonces work' = 1 \<and> k \<le> unat max_hashes \<and> 0 < k \<and>
          work_nonces work' ! 0 = nonce (k - 1) \<and>
          work_rx_hash work' ! 0 =
            H key (memcpy blob RANDOMX_NONCE_OFFSET (le32enc (work_nonces work' ! 0))) \<and>
          rx_hash_le_target (work_rx_hash work' ! 0) (work_target work) \<and>
          (\<forall>j < k - 1. \<not> rx_hash_le_target (H key (memcpy blob RANDOMX_NONCE_OFFSET (le32enc (nonce j))))
             (work_target work)))"
proof -
  obtain found d where loop:
    "rx_scan_loop (H key) stop nonce (work_target work) blob (unat max_hashes) 0 = (found, d)" by force
  have "RANDOMX_NONCE_OFFSET + 4 \<le> length blob" using blob(2) by (simp add: RANDOMX_NONCE_OFFSET_def)
  note spec = rx_scan_loop_spec [OF this loop]
  show ?thesis
  proof (cases found)
    case None
    with assms(1) vm key loop have "work_valid_nonces work' = 0" "k = d"
      by (auto simp: scanhash_randomx_def Let_def blob(1) [symmetric] nonce_def [symmetric])
    with spec None show ?thesis by auto
  next
    case (Some nh)
    obtain n h where nh: "nh = (n, h)" by force
    from assms(1) vm key loop Some nh assms(6,7) have "work_valid_nonces work' = 1" "k = d"
      "work_nonces work' ! 0 = n" "work_rx_hash work' ! 0 = h"
      by (auto simp: scanhash_randomx_def Let_def blob(1) [symmetric] nonce_def [symmetric])
    with spec Some nh show ?thesis by auto
  qed
qed

end
