(* ===== verification/Xmr.thy ===== *)
theory Xmr
  imports Session Randomx
begin

text \<open>
  The Monero dialect (\<open>src/stratum_xmr.cpp\<close>): decoding a job object, installing it, the work built
  from it, share submission and the idle ping. Together with the scan loop of \<open>Randomx\<close> the result
  is end to end: what is submitted is a nonce whose hash, over the pool's own blob with the pool's
  own seed, meets the pool's boundary.
\<close>

definition xmr_build_request_line :: "string \<Rightarrow> u32 \<Rightarrow> (string \<times> string) list \<Rightarrow> 'j out_msg" where
  "xmr_build_request_line meth rid params = Xmr_Request rid meth params"

section \<open>Jobs\<close>

record xmr_job_view =
  xv_job_id :: string
  xv_blob :: bytes
  xv_target64 :: u64
  xv_diff :: double
  xv_seed :: bytes
  xv_height :: u32

definition xmr_parse_job_view :: "'j jansson \<Rightarrow> 'j option \<Rightarrow> xmr_job_view option" where
  "xmr_parse_job_view J job =
     (let str = (\<lambda>k. json_string_value J (json_object_get J job k));
          height_val = json_object_get J job ''height''
      in case (str ''job_id'', str ''blob'', str ''target'') of
           (Some job_id, Some blob, Some target) \<Rightarrow>
             (if job_id = [] \<or> \<not> stratum_check_job_id_length job_id then None
              else if odd (length blob) \<or> RANDOMX_BLOB_MAX < length blob div 2 \<or> length blob div 2 < 43
              then None
              else case (stratum_decode_hex_field blob (length blob div 2), xmr_parse_target target,
                         str ''seed_hash'') of
                     (Some b, Some (t64, diff), Some seed) \<Rightarrow>
                       (if length seed \<noteq> 64 then None
                        else case stratum_decode_hex_field seed 32 of
                               None \<Rightarrow> None
                             | Some s \<Rightarrow>
                                 Some \<lparr>xv_job_id = job_id, xv_blob = b, xv_target64 = t64, xv_diff = diff,
                                       xv_seed = s,
                                       xv_height = (if json_is_integer J height_val
                                                    then word_of_int (json_integer_value J height_val)
                                                    else 0)\<rparr>)
                   | _ \<Rightarrow> None)
         | _ \<Rightarrow> None)"

definition xmr_apply_job_locked :: "xmr_job_view \<Rightarrow> stratum_ctx \<Rightarrow> stratum_ctx \<times> bool" where
  "xmr_apply_job_locked v sctx =
     (sctx\<lparr>sctx_job := (sctx_job sctx)
        \<lparr>job_job_id := Some (xv_job_id v),
         job_rx_blob := memcpy (job_rx_blob (sctx_job sctx)) 0 (xv_blob v),
         job_rx_blob_len := of_nat (length (xv_blob v)),
         job_rx_target64 := xv_target64 v,
         job_diff := xv_diff v,
         job_height := xv_height v\<rparr>\<rparr>, True)"

definition build_xmr_work :: "stratum_ctx \<Rightarrow> work \<Rightarrow> work" where
  "build_xmr_work sctx new_work =
     (let job = sctx_job sctx
      in new_work
           \<lparr>work_data := store_bytes (replicate 68 0) 0 (take (unat (job_rx_blob_len job)) (job_rx_blob job)),
            work_rx_blob_len := job_rx_blob_len job,
            work_rx_nonce_mask := (if sctx_xmr_nicehash sctx then RANDOMX_NICEHASH_NONCE_MASK else 0),
            work_target := xmr_target_words (job_rx_target64 job),
            work_job_id := snprintf_s JOB_ID_SIZE (case job_job_id job of None \<Rightarrow> [] | Some j \<Rightarrow> j),
            work_targetdiff := job_diff job,
            work_height := job_height job,
            work_pooln := word_of_int (sctx_pooln sctx),
            work_xnonce2_len := 0\<rparr>)"

definition xmr_stratum_handle_job ::
  "'j jansson \<Rightarrow> bool \<Rightarrow> 'j option \<Rightarrow> nat \<Rightarrow> 'j world \<Rightarrow> 'j world \<times> bool" where
  "xmr_stratum_handle_job J alloc params p w =
     (case xmr_parse_job_view J params of
        None \<Rightarrow> (w, False)
      | Some v \<Rightarrow>
          stratum_commit_job_update alloc (xmr_apply_job_locked v) build_xmr_work True p
            (randomx_set_seed (xv_seed v) w))"

section \<open>Submission and keep-alive\<close>

definition xmr_submit_params :: "stratum_ctx \<Rightarrow> work \<Rightarrow> (string \<times> string) list" where
  "xmr_submit_params sctx work =
     (let nonce_id = unat (work_submit_nonce_id work)
      in [(''id'', case sctx_session_id sctx of None \<Rightarrow> [] | Some s \<Rightarrow> s),
          (''job_id'', work_job_id work),
          (''nonce'', cbin2hex (le32enc (work_nonces work ! nonce_id))),
          (''result'', cbin2hex (take 32 (work_rx_hash work ! nonce_id)))])"

definition xmr_stratum_submit ::
  "int \<Rightarrow> bool \<Rightarrow> nat \<Rightarrow> work \<Rightarrow> 'j world \<Rightarrow> 'j world \<times> bool" where
  "xmr_stratum_submit now sent p work w =
     (let sctx = sctx_at w p;
          nonce_id = unat (work_submit_nonce_id work);
          params = xmr_submit_params sctx work;
          (submit_id, sctx1) = stratum_submit_id_next sctx;
          line = xmr_build_request_line ''submit'' submit_id params
      in stratum_send_submit now sent p line submit_id (work_sharediff work ! nonce_id)
           (int (unat (work_thread_id work))) (upd_sctx p (\<lambda>_. sctx1) w))"

definition xmr_stratum_keepalive :: "bool \<Rightarrow> nat \<Rightarrow> 'j world \<Rightarrow> 'j world \<times> bool" where
  "xmr_stratum_keepalive sent p w =
     stratum_send_line sent p
       (xmr_build_request_line ''keepalived'' 5
          [(''id'', case sctx_session_id (sctx_at w p) of None \<Rightarrow> [] | Some s \<Rightarrow> s)]) w"

section \<open>From the job to the blob that is hashed\<close>

lemma xmr_job_view_blob:
  assumes "xmr_parse_job_view J job = Some v"
  shows "43 \<le> length (xv_blob v) \<and> length (xv_blob v) \<le> 256 \<and> length (xv_seed v) = 32"
proof -
  obtain job_id blob target where
    s: "json_string_value J (json_object_get J job ''job_id'') = Some job_id"
       "json_string_value J (json_object_get J job ''blob'') = Some blob"
       "json_string_value J (json_object_get J job ''target'') = Some target"
    using assms by (auto simp: xmr_parse_job_view_def Let_def split: option.splits)
  then show ?thesis
    using assms
    by (auto simp: xmr_parse_job_view_def Let_def stratum_decode_hex_field_def RANDOMX_BLOB_MAX_def
        split: option.splits if_splits prod.splits dest!: hex2bin_lengths)
qed

definition xmr_scan_work :: "xmr_job_view \<Rightarrow> stratum_ctx \<Rightarrow> work \<Rightarrow> u32 \<Rightarrow> work" where
  "xmr_scan_work v sctx nw counter =
     (let work = build_xmr_work (fst (xmr_apply_job_locked v sctx)) nw
      in work\<lparr>work_data := (work_data work)[RANDOMX_NONCE_WORD := counter]\<rparr>)"

lemma take_memcpy_before: "n \<le> off \<Longrightarrow> off \<le> length dst \<Longrightarrow> take n (memcpy dst off src) = take n dst"
  by (simp add: memcpy_def)

lemma xmr_scan_work_blob:
  fixes nw :: work and counter :: u32
  assumes "xmr_parse_job_view J job = Some v" "length (job_rx_blob (sctx_job sctx)) = 256"
  defines "work \<equiv> xmr_scan_work v sctx nw counter"
  shows "rx_blob_len work = length (xv_blob v)"
    and "take (rx_blob_len work) (words_bytes (work_data work)) = xv_blob v"
    and "work_target work = xmr_target_words (xv_target64 v)"
proof -
  let ?b = "xv_blob v"
  note L = xmr_job_view_blob [OF assms(1)]
  have u: "unat (of_nat (length ?b) :: u16) = length ?b"
    using L by (simp add: unat_of_nat take_bit_nat_eq_self)
  have "unat (of_nat (length ?b) :: u16) \<noteq> 0" using L u by auto
  then have nz: "(of_nat (length ?b) :: u16) \<noteq> 0" by (metis unsigned_0)
  show len: "rx_blob_len work = length ?b"
    using L nz u
    by (auto simp: work_def xmr_scan_work_def build_xmr_work_def xmr_apply_job_locked_def rx_blob_len_def
        RANDOMX_BLOB_MAX_def Let_def)
  have stored: "take (unat (of_nat (length ?b) :: u16)) (memcpy (job_rx_blob (sctx_job sctx)) 0 ?b) = ?b"
    unfolding u by (simp add: memcpy_def)
  have fit: "length ?b \<le> 4 * length (replicate 68 (0 :: u32))" using L by simp
  have "words_bytes (work_data work) =
      memcpy (memcpy (words_bytes (replicate 68 0)) 0 ?b) (4 * RANDOMX_NONCE_WORD) (le32enc counter)"
    using fit stored words_bytes_store [of 0 ?b "replicate 68 0"]
    by (simp add: work_def xmr_scan_work_def build_xmr_work_def xmr_apply_job_locked_def
        words_bytes_update length_store_bytes RANDOMX_NONCE_WORD_def)
  moreover have "length ?b \<le> 4 * RANDOMX_NONCE_WORD" using L by (simp add: RANDOMX_NONCE_WORD_def)
  moreover have "4 * RANDOMX_NONCE_WORD \<le> length (memcpy (words_bytes (replicate 68 0)) 0 ?b)"
    using fit by (simp add: length_memcpy RANDOMX_NONCE_WORD_def)
  ultimately show "take (rx_blob_len work) (words_bytes (work_data work)) = ?b"
    unfolding len by (simp add: take_memcpy_before take_memcpy_0)
  show "work_target work = xmr_target_words (xv_target64 v)"
    by (simp add: work_def xmr_scan_work_def build_xmr_work_def xmr_apply_job_locked_def)
qed

text \<open>
  C3. A RandomX share is valid by construction. Let a job be decoded and installed, the dataset be
  keyed with the job's seed, and a worker scan the published work from any counter. If the scan
  reports a share, the submission's \<open>nonce\<close> and \<open>result\<close> strings decode to four nonce bytes and a
  hash such that the hash is the RandomX hash of the pool's blob with these bytes at offset 39,
  and its top 64 bits do not exceed the pool's target.
\<close>

theorem xmr_submitted_share_is_valid:
  assumes digest: "\<And>key b. length (H key b) = 32"
    and job: "xmr_parse_job_view J params = Some v"
    and buf: "length (job_rx_blob (sctx_job sctx)) = 256"
    and work: "work = xmr_scan_work v sctx zero_work counter"
    and scan: "scanhash_randomx H stop mk thr_id max_hashes work rx = (rx', work', k)"
    and vm: "rx_thread_vm mk thr_id rx = (rx', True)"
    and seeded: "rx_built_from rx' = Some (xv_seed v)"
    and found: "work_valid_nonces work' \<noteq> 0"
  shows "\<exists>nonce result.
           (''nonce'', bin2hex nonce) \<in> set (xmr_submit_params sctx' work') \<and>
           (''result'', bin2hex result) \<in> set (xmr_submit_params sctx' work') \<and>
           length nonce = 4 \<and>
           result = H (xv_seed v) (memcpy (xv_blob v) RANDOMX_NONCE_OFFSET nonce) \<and>
           unat (bytes_words result ! 6) + 2 ^ 32 * unat (bytes_words result ! 7) \<le> unat (xv_target64 v)"
proof -
  note B = xmr_scan_work_blob [OF job buf, of zero_work counter, folded work]
  have blob: "xv_blob v = take (rx_blob_len work) (words_bytes (work_data work))" using B(2) by simp
  have big: "43 \<le> length (xv_blob v)" using xmr_job_view_blob [OF job] by simp
  have ids: "work_nonces work \<noteq> []" "work_rx_hash work \<noteq> []" "work_submit_nonce_id work = 0"
    by (simp_all add: work xmr_scan_work_def build_xmr_work_def zero_work_def size_consts Let_def)
  define n where "n = work_nonces work' ! 0"
  define h where "h = work_rx_hash work' ! 0"
  have res: "h = H (xv_seed v) (memcpy (xv_blob v) RANDOMX_NONCE_OFFSET (le32enc n))"
    "rx_hash_le_target h (work_target work)"
    using scanhash_randomx_result [OF scan vm blob big seeded ids(1,2)] found
    by (auto simp: n_def h_def)
  have sid: "work_submit_nonce_id work' = 0"
    using scan ids(3) by (auto simp: scanhash_randomx_def Let_def split: prod.splits bool.splits option.splits)
  have h32: "length h = 32" using res(1) digest by simp
  then have "length (bytes_words h) = 8" by (intro length_bytes_words) simp
  with res(2) h32 B(3) have "unat (bytes_words h ! 6) + 2 ^ 32 * unat (bytes_words h ! 7) \<le> unat (xv_target64 v)"
    using hash_le_xmr_target [of "bytes_words h"] by (simp add: rx_hash_le_target_words)
  moreover have "(''nonce'', bin2hex (le32enc n)) \<in> set (xmr_submit_params sctx' work')"
    "(''result'', bin2hex h) \<in> set (xmr_submit_params sctx' work')"
    using h32 by (simp_all add: xmr_submit_params_def sid n_def h_def bin2hex_def Let_def)
  ultimately show ?thesis using res(1) by (intro exI [of _ "le32enc n"] exI [of _ h]) simp
qed

text \<open>
  On a pool that owns part of the nonce (the \<open>nicehash\<close> extension), no hash of a scan ever
  leaves the pool's slice: every tried nonce has the job's own bits in the byte the mask protects.
\<close>

lemma xmr_nicehash_bits_kept:
  assumes "xmr_parse_job_view J params = Some v" "length (job_rx_blob (sctx_job sctx)) = 256"
    and "sctx_xmr_nicehash sctx" and work: "work = xmr_scan_work v sctx zero_work counter"
  shows "rx_nonce (rx_nonce_fixed work (take (rx_blob_len work) (words_bytes (work_data work))))
           (rx_nonce_mask work) (work_data work ! RANDOMX_NONCE_WORD) k AND 0xFF000000 =
         le32dec (take 4 (drop RANDOMX_NONCE_OFFSET (xv_blob v))) AND 0xFF000000"
proof -
  note B = xmr_scan_work_blob [OF assms(1,2), of zero_work counter, folded work]
  have mask: "rx_nonce_mask work = 0x00FFFFFF"
    using assms(3) by (simp add: work xmr_scan_work_def build_xmr_work_def xmr_apply_job_locked_def
        rx_nonce_mask_def RANDOMX_NICEHASH_NONCE_MASK_def Let_def)
  have owned: "(0xFF000000 :: u32) = NOT 0x00FFFFFF" by simp
  have "rx_nonce_fixed work (xv_blob v) =
      le32dec (take 4 (drop RANDOMX_NONCE_OFFSET (xv_blob v))) AND NOT 0x00FFFFFF"
    by (simp add: rx_nonce_fixed_def mask)
  then show ?thesis unfolding B(2) mask owned by (rule rx_nonce_owned_bits)
qed

definition witness_job :: jval where
  "witness_job = J_Object
     [(''job_id'', J_String ''7''), (''blob'', J_String (bin2hex (replicate 43 0))),
      (''target'', J_String ''ffffffff''), (''seed_hash'', J_String (bin2hex (replicate 32 1)))]"

definition witness_rx :: rx_runtime where
  "witness_rx = initial_rx\<lparr>rx_runtime_ready := True, rx_epoch := 1, rx_seed := replicate 32 1,
     rx_built_from := Some (replicate 32 1)\<rparr>"

lemma witness_job_view:
  "\<exists>v. xmr_parse_job_view jval_lib (Some witness_job) = Some v \<and> xv_seed v = replicate 32 1 \<and>
       xv_target64 v = 0xFFFFFFFFFFFFFFFF"
proof -
  have "hex2bin ''ffffffff'' 4 = Some [0xff, 0xff, 0xff, 0xff]" by code_simp
  moreover have "le32dec [0xff, 0xff, 0xff, 0xff] = 0xFFFFFFFF" by code_simp
  ultimately have "\<exists>d. xmr_parse_target ''ffffffff'' = Some (0xFFFFFFFFFFFFFFFF, d)"
    by (simp add: xmr_parse_target_def Let_def)
  moreover have "hex2bin (bin2hex (replicate 43 0)) 43 = Some (replicate 43 0)"
    "hex2bin (bin2hex (replicate 32 1)) 32 = Some (replicate 32 1)"
    using hex2bin_bin2hex [of "replicate 43 0"] hex2bin_bin2hex [of "replicate 32 1"] by simp_all
  moreover have "length (bin2hex (replicate n x)) = 2 * n" for n x by (simp add: bin2hex_def)
  ultimately show ?thesis
    by (auto simp: xmr_parse_job_view_def witness_job_def stratum_check_job_id_length_def size_consts
        RANDOMX_BLOB_MAX_def stratum_decode_hex_field_def Let_def)
qed

lemma witness_rx_vm:
  "rx_thread_vm (\<lambda>_. True) 0 witness_rx =
     (witness_rx\<lparr>rx_vm_epoch := (replicate MAX_THREADS None)[0 := Some 1]\<rparr>, True)"
  by (simp add: rx_thread_vm_def witness_rx_def initial_rx_def size_consts rx_create_vm_def)

theorem xmr_submitted_share_is_valid_witness:
  "\<exists>v work'. xmr_parse_job_view jval_lib (Some witness_job) = Some v \<and>
     (\<exists>nonce result.
           (''nonce'', bin2hex nonce) \<in> set (xmr_submit_params zero_sctx work') \<and>
           (''result'', bin2hex result) \<in> set (xmr_submit_params zero_sctx work') \<and>
           length nonce = 4 \<and> result = (\<lambda>key b. replicate 32 0) (xv_seed v) (memcpy (xv_blob v) RANDOMX_NONCE_OFFSET nonce) \<and>
           unat (bytes_words result ! 6) + 2 ^ 32 * unat (bytes_words result ! 7) \<le> unat (xv_target64 v))"
proof -
  let ?H = "\<lambda>key b. replicate 32 (0 :: u8)"
  obtain v where v: "xmr_parse_job_view jval_lib (Some witness_job) = Some v"
    "xv_seed v = replicate 32 1" "xv_target64 v = 0xFFFFFFFFFFFFFFFF" using witness_job_view by blast
  have buf: "length (job_rx_blob (sctx_job zero_sctx)) = 256" by (simp add: zero_sctx_def zero_job_def)
  let ?work = "xmr_scan_work v zero_sctx zero_work 0"
  obtain rx' work' k where
    scan: "scanhash_randomx ?H (\<lambda>_. False) (\<lambda>_. True) 0 1 ?work witness_rx = (rx', work', k)"
    by (metis prod_cases3)
  have "rx_hash_le_target (replicate 32 0) (xmr_target_words 0xFFFFFFFFFFFFFFFF)" by code_simp
  with scan have vm: "rx_thread_vm (\<lambda>_. True) 0 witness_rx = (rx', True)"
    and found: "work_valid_nonces work' \<noteq> 0"
    using xmr_scan_work_blob(3) [OF v(1) buf, of zero_work 0] v(3) witness_rx_vm
    by (auto simp: scanhash_randomx_def Let_def split: if_splits)
  have "rx_built_from rx' = Some (xv_seed v)" using vm witness_rx_vm v(2) by (auto simp: witness_rx_def)
  from xmr_submitted_share_is_valid [of ?H, OF _ v(1) buf refl scan vm this found, of zero_sctx] v(1)
  show ?thesis by (intro exI [of _ v] exI [of _ work']) simp
qed

section \<open>Work and dataset agree\<close>

definition rx_inv :: "rx_runtime \<Rightarrow> bool" where
  "rx_inv rx \<longleftrightarrow> 0 \<le> rx_epoch rx \<and> (rx_seed rx \<noteq> [] \<longrightarrow> rx_built_from rx = Some (rx_seed rx))"

lemma rx_inv_thread_vm [keeps_inv]: "rx_inv rx \<Longrightarrow> rx_inv (fst (rx_thread_vm mk thr_id rx))"
  by (auto simp: rx_thread_vm_def rx_inv_def rx_apply_seed_locked_def Let_def split: option.splits)

lemma rx_inv_init [keeps_inv]:
  "randomx_init_runtime mk env rx = (rx', True) \<Longrightarrow> rx_inv rx'"
  by (auto simp: randomx_init_runtime_def rx_inv_def Let_def split: option.splits if_splits prod.splits bool.splits)

lemma rx_inv_set_seed [keeps_inv]: "rx_inv (w_rx w) \<Longrightarrow> rx_inv (w_rx (randomx_set_seed seed w))"
  by (auto simp: randomx_set_seed_def rx_inv_def rx_apply_seed_locked_def Let_def)

lemma commit_job_rx [frame_simps]:
  "w_rx (fst (stratum_commit_job_update alloc app build clean p w)) = w_rx w"
proof -
  have pub: "w_rx (stratum_publish_work alloc nw clean v) = w_rx v" for nw and v :: "'a world"
    by (cases "miner_work_copy alloc (rs_current_work (w_runtime v)) nw")
      (simp add: stratum_publish_work_def Let_def miner_work_generation_bump_def)
  show ?thesis
    by (auto simp: stratum_commit_job_update_def pub Let_def split: prod.splits bool.splits)
qed

text \<open>
  Work is never published for a dataset of another seed: when a RandomX job was handled on a
  running driver, the dataset has been built from exactly that job's seed, and a real change of
  seed during mining outdated every worker's generation before the dataset was touched.
\<close>

lemma xmr_job_is_keyed:
  assumes "xmr_parse_job_view J params = Some v" "rx_inv (w_rx w)" "rx_runtime_ready (w_rx w)"
    and "xmr_stratum_handle_job J alloc params p w = (w', ok)"
  shows "rx_built_from (w_rx w') = Some (xv_seed v) \<and>
         (0 < rx_epoch (w_rx w) \<and> rx_seed (w_rx w) \<noteq> xv_seed v \<longrightarrow>
            w_generation (randomx_set_seed (xv_seed v) w) = w_generation w + 1)"
proof -
  have len: "length (xv_seed v) = 32" using xmr_job_view_blob [OF assms(1)] by simp
  have rx: "w_rx w' = w_rx (randomx_set_seed (xv_seed v) w)"
    using assms(4) commit_job_rx [of alloc "xmr_apply_job_locked v" build_xmr_work True p
        "randomx_set_seed (xv_seed v) w"]
    by (simp add: xmr_stratum_handle_job_def assms(1))
  show ?thesis
    using assms(2,3) len
    by (auto simp: rx randomx_set_seed_def rx_inv_def rx_apply_seed_locked_def Let_def
        miner_work_generation_bump_def)
qed

end
