(* ===== verification/Dialects.thy ===== *)
theory Dialects
  imports Verus_Stratum Xmr
begin

text \<open>
  The interface \<open>struct stratum_protocol_ops\<close> of \<open>src/stratum_internal.h\<close> as a locale: what a
  dialect's notification handler promises to the dispatcher. \<open>session_ok\<close> is the well-formedness of
  a session that every handler relies on and keeps: the negotiated sizes, the fixed buffers of the
  job, the Merkle branches, the identifier that must fit the work unit, the pending table. The
  three dialects interpret the locale.
\<close>

section \<open>Well-formed sessions\<close>

definition job_ok :: "stratum_job \<Rightarrow> bool" where
  "job_ok job \<longleftrightarrow>
     length (job_prevhash job) = 32 \<and> length (job_version job) = 4 \<and> length (job_nbits job) = 4 \<and>
     length (job_ntime job) = 4 \<and> length (job_solution job) = VERUS_WORK_SOLUTION_SIZE \<and>
     length (job_rx_blob job) = RANDOMX_BLOB_MAX \<and> unat (job_rx_blob_len job) \<le> RANDOMX_BLOB_MAX \<and>
     list_all (\<lambda>b. length b = 32) (job_merkle job) \<and>
     (case job_job_id job of None \<Rightarrow> True | Some job_id \<Rightarrow> length job_id < JOB_ID_SIZE)"

definition session_ok :: "stratum_ctx \<Rightarrow> bool" where
  "session_ok sctx \<longleftrightarrow>
     xn_ok sctx \<and> job_ok (sctx_job sctx) \<and> length (sctx_pending_submits sctx) = MAX_PENDING_SUBMITS"

definition sessions_ok :: "'j world \<Rightarrow> bool" where
  "sessions_ok w = list_all (\<lambda>q. session_ok (pool_stratum q)) (w_pools w)"

lemma sessions_okD: "sessions_ok w \<Longrightarrow> p < length (w_pools w) \<Longrightarrow> session_ok (sctx_at w p)"
  by (simp add: sessions_ok_def list_all_length sctx_at_def pool_at_def)

lemma sessions_okI:
  "(\<And>q. q < length (w_pools w) \<Longrightarrow> session_ok (sctx_at w q)) \<Longrightarrow> sessions_ok w"
  by (simp add: sessions_ok_def list_all_length sctx_at_def pool_at_def)

lemma sessions_ok_pools: "w_pools w' = w_pools w \<Longrightarrow> sessions_ok w' = sessions_ok w"
  by (simp add: sessions_ok_def)

lemma sessions_ok_upd_pool:
  assumes "sessions_ok w" "session_ok (sctx_at w p) \<Longrightarrow> session_ok (pool_stratum (f (pool_at w p)))"
  shows "sessions_ok (upd_pool p f w)"
proof (cases "p < length (w_pools w)")
  case True
  then show ?thesis using assms
    by (intro sessions_okI) (auto simp: pool_at_upd_pool sctx_at_def dest: sessions_okD)
next
  case False
  with assms(1) show ?thesis by (simp add: upd_pool_def list_update_beyond)
qed

lemma sessions_ok_upd_sctx [keeps_inv]:
  "sessions_ok w \<Longrightarrow> (session_ok (sctx_at w p) \<Longrightarrow> session_ok (f (sctx_at w p))) \<Longrightarrow> sessions_ok (upd_sctx p f w)"
  unfolding upd_sctx_def by (rule sessions_ok_upd_pool) (simp_all add: sctx_at_def)

lemma job_ok_zero [simp]: "job_ok zero_job"
  by (simp add: job_ok_def zero_job_def size_consts RANDOMX_BLOB_MAX_def)

lemma session_ok_zero [simp]: "session_ok zero_sctx"
  by (simp add: session_ok_def xn_ok_keeps) (simp add: zero_sctx_def size_consts)

text \<open>Fields that carry no part of the invariant.\<close>

lemma session_ok_frame [simp]:
  "session_ok (sctx\<lparr>sctx_next_diff := d\<rparr>) = session_ok sctx"
  "session_ok (sctx\<lparr>sctx_srvtime_diff := t\<rparr>) = session_ok sctx"
  "session_ok (sctx\<lparr>sctx_url := u\<rparr>) = session_ok sctx"
  "session_ok (sctx\<lparr>sctx_reconnect_requested := r\<rparr>) = session_ok sctx"
  "session_ok (sctx\<lparr>sctx_is_verus_protocol := v\<rparr>) = session_ok sctx"
  "session_ok (sctx\<lparr>sctx_authenticated := a\<rparr>) = session_ok sctx"
  "session_ok (sctx\<lparr>sctx_xmr_nicehash := a\<rparr>) = session_ok sctx"
  "session_ok (sctx\<lparr>sctx_session_id := sid\<rparr>) = session_ok sctx"
  "session_ok (sctx\<lparr>sctx_thread_active := a\<rparr>) = session_ok sctx"
  "session_ok (sctx\<lparr>sctx_next_submit_id := n\<rparr>) = session_ok sctx"
  by (simp_all add: session_ok_def xn_ok_def)

lemma session_ok_disconnect [keeps_inv]:
  "session_ok sctx \<Longrightarrow> session_ok (stratum_reset_session_runtime (stratum_free_job sctx))"
  "session_ok sctx \<Longrightarrow> session_ok (stratum_close_transport sctx)"
  by (simp_all add: session_ok_def xn_ok_keeps)
    (simp_all add: stratum_reset_session_runtime_def stratum_free_job_def stratum_set_authenticated_def
      stratum_store_next_diff_def stratum_close_transport_def stratum_reset_socket_buffer_def)

lemma sessions_ok_frame [simp]:
  "sessions_ok (w\<lparr>w_runtime := rs\<rparr>) = sessions_ok w"
  "sessions_ok (w\<lparr>w_generation := g\<rparr>) = sessions_ok w"
  "sessions_ok (w\<lparr>w_wire := l\<rparr>) = sessions_ok w"
  "sessions_ok (w\<lparr>w_threads := t\<rparr>) = sessions_ok w"
  "sessions_ok (w\<lparr>w_stats := ms\<rparr>) = sessions_ok w"
  "sessions_ok (w\<lparr>w_rx := x\<rparr>) = sessions_ok w"
  "sessions_ok (w\<lparr>w_devfee := d\<rparr>) = sessions_ok w"
  "sessions_ok (w\<lparr>w_abort := a\<rparr>) = sessions_ok w"
  "sessions_ok (w\<lparr>w_current_pool := c\<rparr>) = sessions_ok w"
  by (simp_all add: sessions_ok_def)

lemma sessions_ok_reset_work [simp]: "sessions_ok (stratum_reset_work_state w) = sessions_ok w"
  by (simp add: stratum_reset_work_state_def miner_work_generation_bump_def)

lemma sessions_ok_disconnect [keeps_inv]: "sessions_ok w \<Longrightarrow> sessions_ok (stratum_disconnect p w)"
  unfolding stratum_disconnect_def
  by (intro sessions_ok_upd_sctx session_ok_disconnect iffD2 [OF sessions_ok_reset_work])

lemma session_ok_parse_extranonce [keeps_inv]:
  assumes "session_ok sctx"
  shows "session_ok (fst (stratum_parse_extranonce algo J params pndx sctx))"
proof -
  have "\<exists>b i j. fst (stratum_parse_extranonce algo J params pndx sctx) =
      sctx\<lparr>sctx_xnonce1 := b, sctx_xnonce1_size := i, sctx_xnonce2_size := j\<rparr>"
    using parse_extranonce_cases [of algo J params pndx sctx]
  proof
    assume "stratum_parse_extranonce algo J params pndx sctx = (sctx, False)"
    then have "fst (stratum_parse_extranonce algo J params pndx sctx) = sctx
        \<lparr>sctx_xnonce1 := sctx_xnonce1 sctx, sctx_xnonce1_size := sctx_xnonce1_size sctx,
         sctx_xnonce2_size := sctx_xnonce2_size sctx\<rparr>" by simp
    then show ?thesis by blast
  next
    assume "\<exists>hex n. stratum_parse_extranonce algo J params pndx sctx = stratum_set_extranonce (Some hex) n sctx \<and>
      (if algo = ALGO_VERUS \<or> sctx_is_verus_protocol sctx
       then length hex div 2 + n = 32 \<and> 1 \<le> n
       else length hex div 2 \<le> 12 \<and> 2 \<le> n \<and> n \<le> 16)"
    then obtain hex n where
      call: "stratum_parse_extranonce algo J params pndx sctx = stratum_set_extranonce (Some hex) n sctx"
      by blast
    have "\<exists>b i j. fst (stratum_set_extranonce (Some hex) n sctx) =
        sctx\<lparr>sctx_xnonce1 := b, sctx_xnonce1_size := i, sctx_xnonce2_size := j\<rparr>"
      using set_extranonce_cases [of "Some hex" n sctx, OF prod.collapse [symmetric]]
      by (metis stratum_ctx.surjective stratum_ctx.update_convs(9) stratum_ctx.update_convs(10)
          stratum_ctx.update_convs(11))
    with call show ?thesis by simp
  qed
  with assms xn_ok_parse_extranonce [of sctx algo J params pndx] show ?thesis
    by (auto simp: session_ok_def)
qed

text \<open>What identifies the connection of a session: no job changes it.\<close>

definition same_link :: "stratum_ctx \<Rightarrow> stratum_ctx \<Rightarrow> bool" where
  "same_link s t \<longleftrightarrow>
     sctx_authenticated t = sctx_authenticated s \<and> sctx_reconnect_requested t = sctx_reconnect_requested s \<and>
     sctx_url t = sctx_url s \<and> sctx_use_tls t = sctx_use_tls s \<and> sctx_sock t = sctx_sock s \<and>
     sctx_pooln t = sctx_pooln s \<and> sctx_xmr_nicehash t = sctx_xmr_nicehash s \<and>
     sctx_thread_active t = sctx_thread_active s"

lemma same_link_refl [simp]: "same_link s s"
  by (simp add: same_link_def)

lemma same_link_trans: "same_link s t \<Longrightarrow> same_link t u \<Longrightarrow> same_link s u"
  by (simp add: same_link_def)

section \<open>The interface of a dialect\<close>

locale protocol_dialect =
  fixes handle_notify :: "'j option \<Rightarrow> nat \<Rightarrow> 'j world \<Rightarrow> 'j world \<times> bool"
  assumes notify_pools: "handle_notify params p w = (w', ok) \<Longrightarrow> length (w_pools w') = length (w_pools w)"
    and notify_session: "handle_notify params p w = (w', ok) \<Longrightarrow> p < length (w_pools w) \<Longrightarrow>
          session_ok (sctx_at w p) \<Longrightarrow> session_ok (sctx_at w' p)"
    and notify_others: "handle_notify params p w = (w', ok) \<Longrightarrow> p < length (w_pools w) \<Longrightarrow>
          q \<noteq> p \<Longrightarrow> pool_at w' q = pool_at w q"
    and notify_link: "handle_notify params p w = (w', ok) \<Longrightarrow> p < length (w_pools w) \<Longrightarrow>
          same_link (sctx_at w p) (sctx_at w' p)"
    and notify_rejected: "handle_notify params p w = (w', False) \<Longrightarrow> w_runtime w' = w_runtime w"
begin

lemma keeps_sessions:
  assumes "handle_notify params p w = (w', ok)" "p < length (w_pools w)" "sessions_ok w"
  shows "sessions_ok w'"
proof (rule sessions_okI)
  fix q assume "q < length (w_pools w')"
  then show "session_ok (sctx_at w' q)"
    using notify_pools [OF assms(1)] notify_session [OF assms(1,2)] notify_others [OF assms(1,2), of q]
      sessions_okD [OF assms(3)] assms(2)
    by (cases "q = p") (auto simp: sctx_at_def)
qed

lemma rejected_keeps_work:
  "handle_notify params p w = (w', False) \<Longrightarrow> stratum_copy_work alloc buf w' = stratum_copy_work alloc buf w"
  using notify_rejected by (simp add: stratum_copy_work_def)

end


section \<open>The three dialects provide it\<close>

lemma pools_publish_work [frame_simps]:
  "w_pools (stratum_publish_work alloc nw clean w) = w_pools w"
  by (cases "miner_work_copy alloc (rs_current_work (w_runtime w)) nw")
    (simp add: stratum_publish_work_def Let_def miner_work_generation_bump_def)

lemma set_seed_frame [frame_simps]:
  "w_pools (randomx_set_seed seed w) = w_pools w"
  "w_runtime (randomx_set_seed seed w) = w_runtime w"
  by (simp_all add: randomx_set_seed_def Let_def miner_work_generation_bump_def)

lemma pool_at_cong: "w_pools w' = w_pools w \<Longrightarrow> pool_at w' = pool_at w"
  by (simp add: pool_at_def fun_eq_iff)

lemma sctx_at_cong: "w_pools w' = w_pools w \<Longrightarrow> sctx_at w' = sctx_at w"
  by (simp add: sctx_at_def pool_at_def fun_eq_iff)

text \<open>What a commit can change: the session it was called for, by the given update alone, and, when
  it succeeds, the published work.\<close>

lemma commit_job_effect:
  assumes "stratum_commit_job_update alloc app build clean p w = (w', ok)"
  shows "(\<exists>f. (f = (\<lambda>s. s) \<or> f = (\<lambda>_. fst (app (sctx_at w p)))) \<and> w_pools w' = w_pools (upd_sctx p f w)) \<and>
         (ok \<or> w_runtime w' = w_runtime w)"
proof -
  obtain nw alloc_ok where i: "miner_work_init (opt_algo (w_opts w)) alloc = (nw, alloc_ok)" by force
  obtain s applied where a: "app (sctx_at w p) = (s, applied)" by force
  have same: "w_pools (upd_sctx p (\<lambda>s. s) w) = w_pools w" by (simp add: upd_sctx_def upd_pool_def)
  show ?thesis
  proof (cases alloc_ok)
    case True
    with assms i a show ?thesis
      by (intro conjI exI [of _ "\<lambda>_. s"]; cases applied)
        (auto simp: stratum_commit_job_update_def Let_def frame_simps)
  next
    case False
    with assms i have "w' = w" "\<not> ok" by (auto simp: stratum_commit_job_update_def)
    with same show ?thesis by (intro conjI exI [of _ "\<lambda>s. s"]) auto
  qed
qed

lemma session_ok_time_offset [keeps_inv]:
  "session_ok (fst (stratum_update_time_offset now stime swap sctx)) = session_ok sctx"
  by (auto simp: stratum_update_time_offset_def Let_def split: option.splits)

lemma same_link_time_offset:
  "same_link sctx (fst (stratum_update_time_offset now stime swap sctx))"
  by (auto simp: stratum_update_time_offset_def Let_def same_link_def split: option.splits)

lemma same_link_apply_standard: "same_link sctx (fst (apply_standard_job_locked msg merkle sctx))"
  unfolding apply_standard_job_locked_def stratum_decode_hex_field_def Let_def
  by (cases "hex2bin (sn_coinb1 msg) (length (sn_coinb1 msg) div 2)"; simp?;
      cases "hex2bin (sn_coinb2 msg) (length (sn_coinb2 msg) div 2)"; simp?;
      cases "hex2bin (sn_prevhash msg) 32"; simp?; cases "hex2bin (sn_version msg) 4"; simp?;
      cases "hex2bin (sn_nbits msg) 4"; simp?; cases "hex2bin (sn_stime msg) 4"; simp?)
    (simp add: same_link_def stratum_capture_next_diff_locked_def)

lemma same_link_apply_verus: "same_link sctx (fst (apply_verus_job_locked uninit msg solution sctx))"
  unfolding apply_verus_job_locked_def stratum_decode_hex_field_def Let_def
  by (cases "verus_validate_nonce_layout sctx"; simp?;
      cases "hex2bin (vn_version msg) 4"; simp?; cases "hex2bin (vn_prevhash msg) 32"; simp?;
      cases "hex2bin (vn_nbits msg) 4"; simp?; cases "hex2bin (vn_stime msg) 4"; simp?;
      cases "hex2bin (vn_coinb1 msg) (length (vn_coinb1 msg) div 2)"; simp?;
      cases "hex2bin (vn_coinb2 msg) (length (vn_coinb2 msg) div 2)"; simp?)
    (simp add: same_link_def stratum_capture_next_diff_locked_def)

lemma same_link_apply_xmr: "same_link sctx (fst (xmr_apply_job_locked v sctx))"
  by (simp add: xmr_apply_job_locked_def same_link_def)

lemma session_ok_apply_standard:
  assumes "session_ok sctx" "list_all (\<lambda>b. length b = 32) merkle" "stratum_check_job_id_length (sn_job_id msg)"
  shows "session_ok (fst (apply_standard_job_locked msg merkle sctx))"
  using assms unfolding apply_standard_job_locked_def stratum_decode_hex_field_def Let_def
  by (cases "hex2bin (sn_coinb1 msg) (length (sn_coinb1 msg) div 2)"; simp?;
      cases "hex2bin (sn_coinb2 msg) (length (sn_coinb2 msg) div 2)"; simp?;
      cases "hex2bin (sn_prevhash msg) 32"; simp?; cases "hex2bin (sn_version msg) 4"; simp?;
      cases "hex2bin (sn_nbits msg) 4"; simp?; cases "hex2bin (sn_stime msg) 4"; simp?)
    (auto simp: session_ok_def job_ok_def xn_ok_def stratum_capture_next_diff_locked_def
      stratum_check_job_id_length_def size_consts dest!: hex2bin_lengths)

lemma session_ok_apply_verus:
  assumes "session_ok sctx" "length solution = VERUS_WORK_SOLUTION_SIZE"
    and "stratum_check_job_id_length (vn_job_id msg)"
  shows "session_ok (fst (apply_verus_job_locked uninit msg solution sctx))"
  using assms unfolding apply_verus_job_locked_def stratum_decode_hex_field_def Let_def
  by (cases "verus_validate_nonce_layout sctx"; simp?;
      cases "hex2bin (vn_version msg) 4"; simp?; cases "hex2bin (vn_prevhash msg) 32"; simp?;
      cases "hex2bin (vn_nbits msg) 4"; simp?; cases "hex2bin (vn_stime msg) 4"; simp?;
      cases "hex2bin (vn_coinb1 msg) (length (vn_coinb1 msg) div 2)"; simp?;
      cases "hex2bin (vn_coinb2 msg) (length (vn_coinb2 msg) div 2)"; simp?)
    (auto simp: session_ok_def job_ok_def xn_ok_def stratum_capture_next_diff_locked_def
      stratum_check_job_id_length_def stratum_job_clear_merkle_def size_consts dest!: hex2bin_lengths)

lemma session_ok_apply_xmr:
  assumes "session_ok sctx" "xmr_parse_job_view J params = Some v"
  shows "session_ok (fst (xmr_apply_job_locked v sctx))"
proof -
  have "stratum_check_job_id_length (xv_job_id v)"
    using assms(2) by (auto simp: xmr_parse_job_view_def Let_def split: option.splits if_splits prod.splits)
  with assms(1) xmr_job_view_blob [OF assms(2)] show ?thesis
    by (simp add: xmr_apply_job_locked_def session_ok_def job_ok_def xn_ok_def stratum_check_job_id_length_def
        size_consts RANDOMX_BLOB_MAX_def unsigned_of_nat take_bit_nat_eq_self buffer_simps)
qed


text \<open>The laws of the locale for one call, and the two ways the handlers reach them: a change of the
  session alone, or a commit.\<close>

definition handler_effect :: "nat \<Rightarrow> 'j world \<Rightarrow> 'j world \<Rightarrow> bool \<Rightarrow> bool" where
  "handler_effect p w w' ok \<longleftrightarrow>
     length (w_pools w') = length (w_pools w) \<and>
     (p < length (w_pools w) \<longrightarrow> session_ok (sctx_at w p) \<longrightarrow> session_ok (sctx_at w' p)) \<and>
     (p < length (w_pools w) \<longrightarrow> (\<forall>q. q \<noteq> p \<longrightarrow> pool_at w' q = pool_at w q)) \<and>
     (p < length (w_pools w) \<longrightarrow> same_link (sctx_at w p) (sctx_at w' p)) \<and>
     (\<not> ok \<longrightarrow> w_runtime w' = w_runtime w)"

lemma handler_effect_refl [simp]: "handler_effect p w w ok"
  by (simp add: handler_effect_def)

lemma session_effect:
  assumes "session_ok (sctx_at w p) \<Longrightarrow> session_ok (g (sctx_at w p))" "same_link (sctx_at w p) (g (sctx_at w p))"
  shows "handler_effect p w (upd_sctx p g w) ok"
  using assms
  by (simp add: handler_effect_def sctx_at_upd_sctx) (simp add: upd_sctx_def pool_at_upd_pool)

lemma commit_effect:
  assumes c: "stratum_commit_job_update alloc app build clean p (upd_sctx p g v) = (w', ok)"
    and v: "w_pools v = w_pools w" "w_runtime v = w_runtime w"
    and g: "session_ok (sctx_at w p) \<Longrightarrow> session_ok (g (sctx_at w p))" "same_link (sctx_at w p) (g (sctx_at w p))"
    and app: "session_ok (g (sctx_at w p)) \<Longrightarrow> session_ok (fst (app (g (sctx_at w p))))"
      "same_link (g (sctx_at w p)) (fst (app (g (sctx_at w p))))"
  shows "handler_effect p w w' ok"
proof -
  let ?u = "upd_sctx p g v"
  obtain f where f: "f = (\<lambda>s. s) \<or> f = (\<lambda>_. fst (app (sctx_at ?u p)))" "w_pools w' = w_pools (upd_sctx p f ?u)"
    and rt: "ok \<or> w_runtime w' = w_runtime ?u"
    using commit_job_effect [OF c] by blast
  have at: "sctx_at ?u p = g (sctx_at w p)" "sctx_at w' p = f (g (sctx_at w p))" if "p < length (w_pools w)"
    using v that by (simp_all add: sctx_at_cong [OF f(2)] sctx_at_upd_sctx sctx_at_cong [OF v(1)])
  have "session_ok (sctx_at w' p)" if "p < length (w_pools w)" "session_ok (sctx_at w p)"
    using that f(1) at g app by auto
  moreover have "same_link (sctx_at w p) (sctx_at w' p)" if "p < length (w_pools w)"
    using that f(1) at g(2) app(2) same_link_trans by auto
  moreover have "pool_at w' q = pool_at w q" if "p < length (w_pools w)" "q \<noteq> p" for q
    using that v by (simp add: pool_at_cong [OF f(2)] upd_sctx_def pool_at_upd_pool pool_at_cong [OF v(1)])
  ultimately show ?thesis using f(2) rt v by (auto simp: handler_effect_def)
qed

lemma standard_effect:
  assumes "stratum_notify_standard sha256d J now alloc params p w = (w', ok)"
  shows "handler_effect p w w' ok"
proof (cases "parse_standard_notify J params")
  case None
  with assms show ?thesis by (simp add: stratum_notify_standard_def)
next
  case (Some msg)
  obtain s timed where t: "stratum_update_time_offset now (sn_stime msg) True (sctx_at w p) = (s, timed)" by force
  have s: "session_ok (sctx_at w p) \<Longrightarrow> session_ok s" "same_link (sctx_at w p) s"
    using session_ok_time_offset [of now "sn_stime msg" True "sctx_at w p"]
      same_link_time_offset [of "sctx_at w p" now "sn_stime msg" True] by (simp_all add: t)
  show ?thesis
  proof (cases "\<not> timed \<or> stratum_decode_merkle_array J (sn_merkle_arr msg) = None \<or>
      \<not> stratum_check_job_id_length (sn_job_id msg)")
    case True
    with assms Some t have "w' = upd_sctx p (\<lambda>_. s) w"
      by (auto simp: stratum_notify_standard_def apply_standard_notify_def Let_def split: option.splits if_splits)
    with s show ?thesis by (simp add: session_effect)
  next
    case False
    then obtain merkle where m: "stratum_decode_merkle_array J (sn_merkle_arr msg) = Some merkle" by auto
    with False assms Some t have "stratum_commit_job_update alloc (apply_standard_job_locked msg merkle)
        (build_standard_work sha256d (opt_algo (w_opts w))) (sn_clean msg) p (upd_sctx p (\<lambda>_. s) w) = (w', ok)"
      by (simp add: stratum_notify_standard_def apply_standard_notify_def Let_def)
    then show ?thesis
      by (rule commit_effect)
        (use False s stratum_decode_merkle_array_shape [OF m] in
          \<open>auto simp: list_all_iff intro: session_ok_apply_standard same_link_apply_standard\<close>)
  qed
qed

lemma decoded_solution_length:
  "decode_verus_solution_field n hex = Some b \<Longrightarrow> length b = n"
  by (auto simp: decode_verus_solution_field_def Let_def buffer_simps memcpy_def split: if_splits dest!: hex2bin_lengths)

lemma verus_effect:
  assumes "verus_stratum_notify J uninit now alloc params p w = (w', ok)"
  shows "handler_effect p w w' ok"
proof (cases "parse_verus_notify J params")
  case None
  with assms show ?thesis by (simp add: verus_stratum_notify_def)
next
  case (Some msg)
  define decoded where "decoded = (case vn_solution msg of
      None \<Rightarrow> Some (replicate VERUS_WORK_SOLUTION_SIZE 0)
    | Some s \<Rightarrow> if s = [] then Some (replicate VERUS_WORK_SOLUTION_SIZE 0)
                else decode_verus_solution_field VERUS_WORK_SOLUTION_SIZE s)"
  obtain s timed where t: "stratum_update_time_offset now (vn_stime msg) False (sctx_at w p) = (s, timed)" by force
  have s: "session_ok (sctx_at w p) \<Longrightarrow> session_ok s" "same_link (sctx_at w p) s"
    using session_ok_time_offset [of now "vn_stime msg" False "sctx_at w p"]
      same_link_time_offset [of "sctx_at w p" now "vn_stime msg" False] by (simp_all add: t)
  note d = verus_stratum_notify_def apply_verus_notify_def Let_def decoded_def [symmetric]
  show ?thesis
  proof (cases "\<not> timed \<or> decoded = None \<or> \<not> stratum_check_job_id_length (vn_job_id msg)")
    case True
    with assms Some t have "w' = upd_sctx p (\<lambda>_. s) w"
      by (auto simp: d split: option.splits if_splits)
    with s show ?thesis by (simp add: session_effect)
  next
    case False
    then obtain solution where m: "decoded = Some solution" by auto
    then have "length solution = VERUS_WORK_SOLUTION_SIZE"
      by (auto simp: decoded_def decoded_solution_length split: option.splits if_splits)
    note len = this
    from False m assms Some t have
      "stratum_commit_job_update alloc (apply_verus_job_locked uninit msg solution) build_verus_work
         (vn_clean msg) p (upd_sctx p (\<lambda>_. s) w) = (w', ok)"
      by (simp add: d)
    then show ?thesis
      by (rule commit_effect) (use False s len in \<open>auto intro: session_ok_apply_verus same_link_apply_verus\<close>)
  qed
qed

lemma xmr_effect:
  assumes "xmr_stratum_handle_job J alloc params p w = (w', ok)"
  shows "handler_effect p w w' ok"
proof (cases "xmr_parse_job_view J params")
  case None
  with assms show ?thesis by (simp add: xmr_stratum_handle_job_def)
next
  case (Some v)
  have "upd_sctx p (\<lambda>s. s) u = u" for u :: "'a world" by (simp add: upd_sctx_def upd_pool_def)
  with assms Some have "stratum_commit_job_update alloc (xmr_apply_job_locked v) build_xmr_work True p
      (upd_sctx p (\<lambda>s. s) (randomx_set_seed (xv_seed v) w)) = (w', ok)"
    by (simp add: xmr_stratum_handle_job_def)
  then show ?thesis
    by (rule commit_effect) (simp_all add: frame_simps session_ok_apply_xmr [OF _ Some] same_link_apply_xmr)
qed

interpretation standard: protocol_dialect "stratum_notify_standard sha256d J now alloc" for sha256d J now alloc
  by unfold_locales (auto dest!: standard_effect simp: handler_effect_def)

interpretation verus: protocol_dialect "verus_stratum_notify J uninit now alloc" for J uninit now alloc
  by unfold_locales (auto dest!: verus_effect simp: handler_effect_def)

interpretation xmr: protocol_dialect "xmr_stratum_handle_job J alloc" for J alloc
  by unfold_locales (auto dest!: xmr_effect simp: handler_effect_def)

end
