(* ===== verification/Rpc.thy ===== *)
theory Rpc
  imports Dialects
begin

text \<open>
  Message dispatch (\<open>src/stratum_rpc.cpp\<close>, with the protocol table of \<open>src/stratum.cpp\<close>): replies to
  submissions, the methods a pool may call, and \<open>stratum_handle_message\<close>. Everything a message
  handler takes from outside the program is gathered in a record: the JSON accessors, the double
  SHA-256, the clock, whether memory and the socket are available, and the uninitialised bytes.
\<close>

record 'j rpc_env =
  env_json :: "'j jansson"
  env_sha256d :: "bytes \<Rightarrow> bytes"
  env_uninit :: bytes
  env_now :: int
  env_alloc :: bool
  env_sent :: bool

datatype stratum_message_status = STRATUM_MESSAGE_OK | STRATUM_MESSAGE_IGNORED | STRATUM_MESSAGE_FATAL

definition stratum_status_from_bool :: "bool \<Rightarrow> stratum_message_status" where
  "stratum_status_from_bool ok = (if ok then STRATUM_MESSAGE_OK else STRATUM_MESSAGE_FATAL)"

section \<open>Protocol selection\<close>

datatype stratum_protocol_ops = Standard_Ops | Verus_Ops | Xmr_Ops

definition stratum_get_protocol_ops :: "'j world \<Rightarrow> nat \<Rightarrow> stratum_protocol_ops" where
  "stratum_get_protocol_ops w p =
     (if opt_algo (w_opts w) = ALGO_VERUS \<or> sctx_is_verus_protocol (sctx_at w p) then Verus_Ops
      else if opt_algo (w_opts w) = ALGO_RANDOMX then Xmr_Ops
      else Standard_Ops)"

definition ops_handle_notify ::
  "stratum_protocol_ops \<Rightarrow> 'j rpc_env \<Rightarrow> 'j option \<Rightarrow> nat \<Rightarrow> 'j world \<Rightarrow> 'j world \<times> bool" where
  "ops_handle_notify ops env params p w =
     (case ops of
        Standard_Ops \<Rightarrow> stratum_notify_standard (env_sha256d env) (env_json env) (env_now env)
                          (env_alloc env) params p w
      | Verus_Ops \<Rightarrow> verus_stratum_notify (env_json env) (env_uninit env) (env_now env)
                       (env_alloc env) params p w
      | Xmr_Ops \<Rightarrow> xmr_stratum_handle_job (env_json env) (env_alloc env) params p w)"

definition stratum_submit ::
  "int \<Rightarrow> bool \<Rightarrow> nat \<Rightarrow> work \<Rightarrow> 'j world \<Rightarrow> work \<times> 'j world \<times> bool" where
  "stratum_submit now sent p work w =
     (case stratum_get_protocol_ops w p of
        Standard_Ops \<Rightarrow> stratum_submit_standard now sent p work w
      | Verus_Ops \<Rightarrow> verus_stratum_submit now sent p work w
      | Xmr_Ops \<Rightarrow> (work, xmr_stratum_submit now sent p work w))"

section \<open>Identifiers and replies\<close>

definition stratum_parse_rpc_id :: "'j jansson \<Rightarrow> 'j option \<Rightarrow> u32 option" where
  "stratum_parse_rpc_id J id_val =
     (if id_val = None \<or> json_is_null J id_val then None
      else if json_is_integer J id_val then
        (let i = json_integer_value J id_val
         in if i < 0 \<or> 4294967295 < i then None else Some (word_of_int i))
      else if \<not> json_is_string J id_val then None
      else case json_string_value J id_val of
             None \<Rightarrow> None
           | Some id_str \<Rightarrow>
               (if id_str = [] \<or> hd id_str = CHR ''-'' then None
                else let (parsed, end_ptr) = strtoul id_str
                     in if end_ptr = id_str \<or> end_ptr \<noteq> [] \<or> 4294967295 < parsed then None
                        else Some (of_nat parsed)))"

definition stratum_send_rpc_bool_result ::
  "'j rpc_env \<Rightarrow> nat \<Rightarrow> 'j option \<Rightarrow> bool \<Rightarrow> 'j world \<Rightarrow> 'j world \<times> bool" where
  "stratum_send_rpc_bool_result env p rid result w =
     (case rid of
        None \<Rightarrow> (w, False)
      | Some j \<Rightarrow> if json_is_null (env_json env) rid then (w, False)
                  else stratum_send_line (env_sent env) p (Result_Bool j result) w)"

definition stratum_send_rpc_string_result ::
  "'j rpc_env \<Rightarrow> nat \<Rightarrow> 'j option \<Rightarrow> string \<Rightarrow> 'j world \<Rightarrow> 'j world \<times> bool" where
  "stratum_send_rpc_string_result env p rid result w =
     (case rid of
        None \<Rightarrow> (w, False)
      | Some j \<Rightarrow> if json_is_null (env_json env) rid then (w, False)
                  else stratum_send_line (env_sent env) p (Result_String j result) w)"

definition stratum_send_rpc_error ::
  "'j rpc_env \<Rightarrow> nat \<Rightarrow> 'j option \<Rightarrow> int \<Rightarrow> string \<Rightarrow> 'j world \<Rightarrow> 'j world \<times> bool" where
  "stratum_send_rpc_error env p rid code message w =
     (case rid of
        None \<Rightarrow> (w, False)
      | Some j \<Rightarrow> if json_is_null (env_json env) rid then (w, False)
                  else stratum_send_line (env_sent env) p (Rpc_Error j code message) w)"

section \<open>Submit responses\<close>

record 'j stratum_response_view =
  sr_id :: u32
  sr_result :: "'j option"
  sr_error :: "'j option"

definition stratum_parse_response_view :: "'j jansson \<Rightarrow> 'j option \<Rightarrow> 'j stratum_response_view option" where
  "stratum_parse_response_view J val =
     (if json_string_value J (json_object_get J val ''method'') \<noteq> None then None
      else case stratum_parse_rpc_id J (json_object_get J val ''id'') of
             None \<Rightarrow> None
           | Some rid \<Rightarrow> Some \<lparr>sr_id = rid, sr_result = json_object_get J val ''result'',
                               sr_error = json_object_get J val ''error''\<rparr>)"

definition submit_result_ok :: "'j jansson \<Rightarrow> 'j option \<Rightarrow> bool" where
  "submit_result_ok J result \<longleftrightarrow>
     json_is_true J result \<or>
     (json_is_object J result \<and>
      (case json_string_value J (json_object_get J result ''status'') of
         None \<Rightarrow> False
       | Some status \<Rightarrow> strcasecmp_eq status ''OK''))"

definition stratum_handle_submit_response ::
  "'j rpc_env \<Rightarrow> 'j stratum_response_view \<Rightarrow> nat \<Rightarrow> 'j world \<Rightarrow> 'j world \<times> bool" where
  "stratum_handle_submit_response env response p w =
     (case submit_id_take_metadata p (sr_id response) w of
        (None, w1) \<Rightarrow> (w1, True)
      | (Some (sharediff, thread_id), w1) \<Rightarrow>
          (let result_ok = submit_result_ok (env_json env) (sr_result response);
               pooln = sctx_pooln (sctx_at w1 p)
           in if devfee_is_dev_pool w1 pooln then (stratum_update_share_stats pooln result_ok w1, True)
              else (stratum_update_share_stats pooln result_ok
                      (miner_record_thread_share_result thread_id result_ok w1), True)))"

section \<open>Methods\<close>

definition stratum_set_difficulty :: "'j jansson \<Rightarrow> 'j option \<Rightarrow> stratum_ctx \<Rightarrow> stratum_ctx \<times> bool" where
  "stratum_set_difficulty J params sctx =
     (let diff = json_number_value J (json_array_get J params 0)
      in if diff \<le> 0 then (sctx, False) else (stratum_store_next_diff diff sctx, True))"

definition reconnect_port :: "'j jansson \<Rightarrow> 'j option \<Rightarrow> int" where
  "reconnect_port J port_val =
     (if json_is_string J port_val then
        (case json_string_value J port_val of
           None \<Rightarrow> 0
         | Some port_str \<Rightarrow>
             (let (parsed, end_ptr, _) = strtol port_str
              in if end_ptr = [] \<and> end_ptr \<noteq> port_str \<and> 0 < parsed \<and> parsed \<le> 65535 then parsed else 0))
      else if json_is_integer J port_val then
        (let parsed = json_integer_value J port_val in if 0 < parsed \<and> parsed \<le> 65535 then parsed else 0)
      else 0)"

definition reconnect_url :: "bool \<Rightarrow> string \<Rightarrow> int \<Rightarrow> string" where
  "reconnect_url use_tls host port =
     snprintf_s (32 + length host)
       ((if use_tls then ''stratum+ssl'' else ''stratum+tcp'') @ ''://'' @ host @ '':'' @ show_nat (nat port))"

definition stratum_reconnect ::
  "'j rpc_env \<Rightarrow> 'j option \<Rightarrow> nat \<Rightarrow> 'j world \<Rightarrow> 'j world \<times> bool" where
  "stratum_reconnect env params p w =
     (let J = env_json env;
          port = reconnect_port J (json_array_get J params 1)
      in case json_string_value J (json_array_get J params 0) of
           None \<Rightarrow> (w, False)
         | Some host \<Rightarrow>
             (if host = [] \<or> port \<le> 0 \<or> 65535 < port then (w, False)
              else
                let sctx = sctx_at w p;
                    url = reconnect_url (sctx_use_tls sctx) host port;
                    (sctx1, stored) = stratum_set_url url sctx;
                    w1 = upd_sctx p (\<lambda>_. sctx1) w
                in if \<not> stored then (w, False)
                   else
                     let pooln = sctx_pooln sctx1;
                         short_url = (case strstr url ''://'' of None \<Rightarrow> url | Some t \<Rightarrow> drop 3 t);
                         w2 = (if 0 \<le> pooln \<and> pooln < int (w_num_pools w1) then
                                 upd_pool (nat pooln)
                                   (\<lambda>q. q\<lparr>pool_url := snprintf_s 512 url,
                                          pool_short_url := snprintf_s 64 short_url\<rparr>) w1
                               else w1);
                         w3 = upd_sctx p (\<lambda>s. s\<lparr>sctx_reconnect_requested := True\<rparr>) w2
                     in (stratum_disconnect p w3, True)))"

text \<open>
  \<open>sscanf(data, "equihash %31s block %u", symbol, &height)\<close>: the number of conversions and the
  height read.
\<close>

definition scan_equihash_message :: "string \<Rightarrow> nat \<times> u32" where
  "scan_equihash_message data =
     (if take 8 data \<noteq> ''equihash'' then (0, 0)
      else
        let rest = dropWhile is_space (drop 8 data);
            symbol = take 31 (takeWhile (\<lambda>c. \<not> is_space c) rest);
            rest1 = dropWhile is_space (drop (length symbol) rest)
        in if symbol = [] then (0, 0)
           else if take 5 rest1 \<noteq> ''block'' then (1, 0)
           else case scan_number (drop 5 rest1) of
                  None \<Rightarrow> (1, 0)
                | Some _ \<Rightarrow> (2, of_nat (fst (strtoul (drop 5 rest1)))))"

definition stratum_show_message ::
  "'j rpc_env \<Rightarrow> 'j option \<Rightarrow> 'j option \<Rightarrow> nat \<Rightarrow> 'j world \<Rightarrow> 'j world \<times> bool" where
  "stratum_show_message env rid params p w =
     (let J = env_json env;
          w1 = (case json_string_value J (json_array_get J params 0) of
                  None \<Rightarrow> w
                | Some data \<Rightarrow>
                    (let (ss, height) = scan_equihash_message data
                     in if data \<noteq> [] \<and> height \<noteq> 0 \<and> 1 < ss then
                          (let v = upd_sctx p (\<lambda>s. s\<lparr>sctx_job := (sctx_job s)\<lparr>job_height := height\<rparr>\<rparr>) w
                           in case job_job_id (sctx_job (sctx_at v p)) of
                                None \<Rightarrow> v
                              | Some job_id \<Rightarrow>
                                  fst (stratum_update_active_work_height_locked (sctx_pooln (sctx_at v p))
                                         (Some (snprintf_s 128 job_id)) height v))
                        else w))
      in if rid = None \<or> json_is_null J rid then (w1, True)
         else stratum_send_rpc_bool_result env p rid True w1)"

definition algo_names :: "algo_t \<Rightarrow> string" where
  "algo_names a = (case a of ALGO_VERUS \<Rightarrow> ''verus'' | ALGO_SHA256D \<Rightarrow> ''sha256d''
                           | ALGO_SCRYPT \<Rightarrow> ''scrypt'' | ALGO_RANDOMX \<Rightarrow> ''randomx'')"

definition USER_AGENT :: string where
  "USER_AGENT = ''primo-arm-miner/1.1.0''"

datatype stratum_method =
    Method_Notify | Method_Ping | Method_Set_Difficulty | Method_Set_Target | Method_Set_Extranonce
  | Method_Reconnect | Method_Get_Algo | Method_Get_Version | Method_Show_Message

definition stratum_method_handlers :: "(string \<times> stratum_method) list" where
  "stratum_method_handlers =
     [(''mining.notify'', Method_Notify), (''job'', Method_Notify), (''mining.ping'', Method_Ping),
      (''mining.set_difficulty'', Method_Set_Difficulty), (''mining.set_target'', Method_Set_Target),
      (''mining.set_extranonce'', Method_Set_Extranonce), (''client.reconnect'', Method_Reconnect),
      (''client.get_algo'', Method_Get_Algo), (''client.get_version'', Method_Get_Version),
      (''client.show_message'', Method_Show_Message)]"

definition find_stratum_method_handler :: "string \<Rightarrow> stratum_method option" where
  "find_stratum_method_handler meth =
     map_option snd (find (\<lambda>(name, _). strcasecmp_eq meth name) stratum_method_handlers)"

definition lift_session ::
  "(stratum_ctx \<Rightarrow> stratum_ctx \<times> bool) \<Rightarrow> nat \<Rightarrow> 'j world \<Rightarrow> 'j world \<times> bool" where
  "lift_session f p w = (case f (sctx_at w p) of (sctx', ok) \<Rightarrow> (upd_sctx p (\<lambda>_. sctx') w, ok))"

definition run_method ::
  "'j rpc_env \<Rightarrow> stratum_method \<Rightarrow> 'j option \<Rightarrow> 'j option \<Rightarrow> nat \<Rightarrow> 'j world \<Rightarrow>
   'j world \<times> stratum_message_status" where
  "run_method env m rid params p w =
     (let J = env_json env; ops = stratum_get_protocol_ops w p
      in case m of
           Method_Notify \<Rightarrow> apsnd stratum_status_from_bool (ops_handle_notify ops env params p w)
         | Method_Ping \<Rightarrow>
             apsnd stratum_status_from_bool (stratum_send_rpc_string_result env p rid ''pong'' w)
         | Method_Set_Difficulty \<Rightarrow>
             apsnd stratum_status_from_bool (lift_session (stratum_set_difficulty J params) p w)
         | Method_Set_Target \<Rightarrow>
             (if ops \<noteq> Verus_Ops then (w, STRATUM_MESSAGE_IGNORED)
              else case lift_session (verus_stratum_set_target J params) p w of
                     (w1, False) \<Rightarrow> (w1, STRATUM_MESSAGE_FATAL)
                   | (w1, True) \<Rightarrow>
                       (upd_sctx p (stratum_is_verus_protocol_store True) w1, STRATUM_MESSAGE_OK))
         | Method_Set_Extranonce \<Rightarrow>
             apsnd stratum_status_from_bool
               (lift_session (stratum_parse_extranonce (opt_algo (w_opts w)) J params 0) p w)
         | Method_Reconnect \<Rightarrow> apsnd stratum_status_from_bool (stratum_reconnect env params p w)
         | Method_Get_Algo \<Rightarrow>
             apsnd stratum_status_from_bool
               (stratum_send_rpc_string_result env p rid (algo_names (opt_algo (w_opts w))) w)
         | Method_Get_Version \<Rightarrow>
             apsnd stratum_status_from_bool (stratum_send_rpc_string_result env p rid USER_AGENT w)
         | Method_Show_Message \<Rightarrow>
             apsnd stratum_status_from_bool (stratum_show_message env rid params p w))"

section \<open>Dispatch\<close>

definition stratum_handle_method_value ::
  "'j rpc_env \<Rightarrow> 'j option \<Rightarrow> nat \<Rightarrow> 'j world \<Rightarrow> 'j world \<times> stratum_message_status" where
  "stratum_handle_method_value env val p w =
     (let J = env_json env;
          rid = json_object_get J val ''id'';
          params = json_object_get J val ''params''
      in case json_string_value J (json_object_get J val ''method'') of
           None \<Rightarrow> (w, STRATUM_MESSAGE_FATAL)
         | Some meth \<Rightarrow>
             (case find_stratum_method_handler meth of
                None \<Rightarrow>
                  (if rid = None \<or> json_is_null J rid then (w, STRATUM_MESSAGE_IGNORED)
                   else case stratum_send_rpc_error env p rid (- 32601) ''Method not found'' w of
                          (w1, ok) \<Rightarrow> (w1, if ok then STRATUM_MESSAGE_IGNORED else STRATUM_MESSAGE_FATAL))
              | Some m \<Rightarrow> run_method env m rid params p w))"

definition stratum_handle_response_value ::
  "'j rpc_env \<Rightarrow> 'j option \<Rightarrow> nat \<Rightarrow> 'j world \<Rightarrow> 'j world \<times> stratum_message_status" where
  "stratum_handle_response_value env val p w =
     (case stratum_parse_response_view (env_json env) val of
        None \<Rightarrow> (w, STRATUM_MESSAGE_FATAL)
      | Some response \<Rightarrow>
          (if sr_id response < 10 then (w, STRATUM_MESSAGE_IGNORED)
           else case stratum_handle_submit_response env response p w of
                  (w1, ok) \<Rightarrow> (w1, if ok then STRATUM_MESSAGE_OK else STRATUM_MESSAGE_FATAL)))"

definition stratum_dispatch_json_message ::
  "'j rpc_env \<Rightarrow> 'j option \<Rightarrow> nat \<Rightarrow> 'j world \<Rightarrow> 'j world \<times> stratum_message_status" where
  "stratum_dispatch_json_message env val p w =
     (if json_string_value (env_json env) (json_object_get (env_json env) val ''method'') \<noteq> None
      then stratum_handle_method_value env val p w
      else stratum_handle_response_value env val p w)"

definition stratum_handle_json_message ::
  "'j rpc_env \<Rightarrow> 'j option \<Rightarrow> nat \<Rightarrow> 'j world \<Rightarrow> 'j world \<times> bool" where
  "stratum_handle_json_message env val p w =
     apsnd (\<lambda>status. status \<noteq> STRATUM_MESSAGE_FATAL) (stratum_dispatch_json_message env val p w)"

definition stratum_handle_message ::
  "'j rpc_env \<Rightarrow> string \<Rightarrow> nat \<Rightarrow> 'j world \<Rightarrow> 'j world \<times> bool" where
  "stratum_handle_message env s p w =
     (case json_loads (env_json env) s of
        None \<Rightarrow> (w, False)
      | Some val \<Rightarrow> stratum_handle_json_message env (Some val) p w)"


section \<open>Every message keeps every session well-formed\<close>

lemma sessions_ok_send_line [keeps_inv]: "sessions_ok w \<Longrightarrow> sessions_ok (fst (stratum_send_line sent p line w))"
  by (simp add: stratum_send_line_def)

lemma sessions_ok_replies [keeps_inv]:
  "sessions_ok w \<Longrightarrow> sessions_ok (fst (stratum_send_rpc_bool_result env p rid b w))"
  "sessions_ok w \<Longrightarrow> sessions_ok (fst (stratum_send_rpc_string_result env p rid s w))"
  "sessions_ok w \<Longrightarrow> sessions_ok (fst (stratum_send_rpc_error env p rid code m w))"
  by (simp_all add: stratum_send_rpc_bool_result_def stratum_send_rpc_string_result_def
      stratum_send_rpc_error_def sessions_ok_send_line split: option.split)

lemma length_pending_take:
  "pending_take sid tab = Some (e, tab') \<Longrightarrow> length tab' = length tab"
  by (auto simp: pending_take_def split: option.splits)

lemma sessions_ok_take_metadata [keeps_inv]:
  "sessions_ok w \<Longrightarrow> sessions_ok (snd (submit_id_take_metadata p sid w))"
  by (auto simp: submit_id_take_metadata_def session_ok_def xn_ok_def length_pending_take
      split: option.splits intro!: sessions_ok_upd_sctx)

lemma sessions_ok_share_stats [keeps_inv]:
  "sessions_ok w \<Longrightarrow> sessions_ok (stratum_update_share_stats pooln ok w)"
  "sessions_ok w \<Longrightarrow> sessions_ok (miner_record_thread_share_result t ok w)"
  by (auto simp: stratum_update_share_stats_def miner_record_thread_share_result_def Let_def sctx_at_def
      intro!: sessions_ok_upd_pool)

lemma sessions_ok_submit_response [keeps_inv]:
  assumes "sessions_ok w"
  shows "sessions_ok (fst (stratum_handle_submit_response env response p w))"
  using sessions_ok_take_metadata [OF assms, of p "sr_id response"]
  by (auto simp: stratum_handle_submit_response_def Let_def keeps_inv split: prod.splits option.splits)

lemma sessions_ok_lift [keeps_inv]:
  "sessions_ok w \<Longrightarrow> (\<And>s. session_ok s \<Longrightarrow> session_ok (fst (f s))) \<Longrightarrow> sessions_ok (fst (lift_session f p w))"
  by (auto simp: lift_session_def split: prod.splits intro!: sessions_ok_upd_sctx) (metis fst_conv)

lemma session_ok_setters [keeps_inv]:
  "session_ok s \<Longrightarrow> session_ok (fst (stratum_set_difficulty J params s))"
  "session_ok s \<Longrightarrow> session_ok (fst (verus_stratum_set_target J params s))"
  by (auto simp: stratum_set_difficulty_def verus_stratum_set_target_def stratum_store_next_diff_def Let_def
      split: option.splits)

lemma sessions_ok_reconnect [keeps_inv]:
  assumes "sessions_ok w"
  shows "sessions_ok (fst (stratum_reconnect env params p w))"
proof (cases "json_string_value (env_json env) (json_array_get (env_json env) params 0)")
  case None
  with assms show ?thesis by (simp add: stratum_reconnect_def Let_def)
next
  case (Some host)
  with assms show ?thesis
    by (auto simp: stratum_reconnect_def stratum_set_url_def Let_def sctx_at_def
        intro!: sessions_ok_disconnect sessions_ok_upd_sctx sessions_ok_upd_pool)
qed

lemma sessions_ok_show_message [keeps_inv]:
  assumes "sessions_ok w"
  shows "sessions_ok (fst (stratum_show_message env rid params p w))"
proof -
  have h: "sessions_ok (fst (stratum_update_active_work_height_locked pooln job_id height v)) = sessions_ok v"
    for pooln job_id height and v :: "'a world"
    by (simp add: stratum_update_active_work_height_locked_def Let_def)
  have u: "sessions_ok (upd_sctx p (\<lambda>s. s\<lparr>sctx_job := (sctx_job s)\<lparr>job_height := height\<rparr>\<rparr>) w)" for height
    using assms by (rule sessions_ok_upd_sctx) (simp add: session_ok_def xn_ok_def job_ok_def)
  show ?thesis
    using assms u unfolding stratum_show_message_def Let_def
    by (auto simp: h keeps_inv split: option.splits prod.splits)
qed

lemma sessions_ok_notify [keeps_inv]:
  assumes "p < length (w_pools w)" "sessions_ok w"
  shows "sessions_ok (fst (ops_handle_notify ops env params p w))"
proof (cases ops)
  case Standard_Ops
  then show ?thesis using standard.keeps_sessions [OF prod.collapse [symmetric] assms]
    by (simp add: ops_handle_notify_def)
next
  case Verus_Ops
  then show ?thesis using verus.keeps_sessions [OF prod.collapse [symmetric] assms]
    by (simp add: ops_handle_notify_def)
next
  case Xmr_Ops
  then show ?thesis using xmr.keeps_sessions [OF prod.collapse [symmetric] assms]
    by (simp add: ops_handle_notify_def)
qed

lemma sessions_ok_run_method:
  assumes "p < length (w_pools w)" "sessions_ok w"
  shows "sessions_ok (fst (run_method env m rid params p w))"
proof (cases m)
  case Method_Set_Target
  have "sessions_ok (fst (lift_session (verus_stratum_set_target (env_json env) params) p w))"
    using assms(2) by (intro keeps_inv)
  then show ?thesis
    using assms by (auto simp: run_method_def Method_Set_Target Let_def stratum_is_verus_protocol_store_def
        split: prod.splits bool.splits intro!: sessions_ok_upd_sctx)
qed (use assms in \<open>auto simp: run_method_def Let_def intro: keeps_inv\<close>)


lemma sessions_ok_json_message:
  assumes "p < length (w_pools w)" "sessions_ok w"
  shows "sessions_ok (fst (stratum_handle_json_message env val p w))"
proof -
  have "sessions_ok (fst (stratum_handle_method_value env val p w))"
    using assms by (simp add: stratum_handle_method_value_def Let_def split_beta sessions_ok_run_method keeps_inv
        split: option.split)
  moreover have "sessions_ok (fst (stratum_handle_response_value env val p w))"
    using assms by (simp add: stratum_handle_response_value_def split_beta keeps_inv split: option.split)
  ultimately show ?thesis
    by (simp add: stratum_handle_json_message_def stratum_dispatch_json_message_def)
qed

lemma sessions_ok_message:
  "p < length (w_pools w) \<Longrightarrow> sessions_ok w \<Longrightarrow> sessions_ok (fst (stratum_handle_message env s p w))"
  by (simp add: stratum_handle_message_def sessions_ok_json_message split: option.split)

text \<open>
  No line a pool can send, well-formed or not, on whichever dialect and whatever the JSON
  library makes of it, breaks a session: after the message is handled every session still has an
  extranonce that fits its area, job buffers of their fixed sizes, Merkle branches of 32 bytes, a
  job identifier that fits the work unit and a full-size pending table.
\<close>

lemma message_keeps_sessions:
  assumes "p < length (w_pools w)" "sessions_ok w"
  shows "sessions_ok (fst (stratum_handle_message env s p w))"
  using assms by (rule sessions_ok_message)

definition witness_env :: "jval rpc_env" where
  "witness_env = \<lparr>env_json = jval_lib, env_sha256d = (\<lambda>_. replicate 32 0), env_uninit = [], env_now = 0,
     env_alloc = True, env_sent = True\<rparr>"

lemma sessions_ok_initial [simp]: "sessions_ok (initial_world opts)"
  by (simp add: sessions_ok_def initial_world_def zero_pool_def list_all_iff)

definition witness_rpc_world :: "algo_t \<Rightarrow> jval world" where
  "witness_rpc_world a = (initial_world (witness_options a))\<lparr>w_num_pools := 1\<rparr>"

lemma witness_rpc_world_sessions [simp]: "sessions_ok (witness_rpc_world a)" "length (w_pools (witness_rpc_world a)) = 9"
  by (simp_all add: witness_rpc_world_def sessions_ok_def initial_world_def zero_pool_def list_all_iff size_consts)

text \<open>
  A notification that a dialect rejects publishes nothing: the work a worker would copy is the
  work it would have copied before, on every error path of the three handlers.
\<close>

lemma rejected_notify_keeps_work:
  assumes "ops_handle_notify ops env params p w = (w', False)"
  shows "stratum_copy_work alloc buf w' = stratum_copy_work alloc buf w"
  using assms standard.rejected_keeps_work verus.rejected_keeps_work xmr.rejected_keeps_work
  unfolding ops_handle_notify_def by (cases ops) auto

section \<open>Replies, unknown methods and redirects\<close>

lemma take_metadata_pools:
  assumes "submit_id_take_metadata p sid w = (r, w1)"
  shows "r = None \<longleftrightarrow> pending_count w p sid = 0" "r = None \<Longrightarrow> w1 = w"
    "p < length (w_pools w) \<Longrightarrow> pool_accepted_count (pool_at w1 q) = pool_accepted_count (pool_at w q) \<and>
      pool_rejected_count (pool_at w1 q) = pool_rejected_count (pool_at w q) \<and>
      sctx_pooln (sctx_at w1 q) = sctx_pooln (sctx_at w q)"
    "w_num_pools w1 = w_num_pools w" "w_devfee w1 = w_devfee w"
  using assms pending.take_None [of sid "sctx_pending_submits (sctx_at w p)"]
  by (auto simp: submit_id_take_metadata_def pending_count_def pool_at_upd_pool upd_sctx_def sctx_at_def
      split: option.splits)

lemma reply_stats_pool:
  assumes "p < w_num_pools w" "w_num_pools w \<le> length (w_pools w)"
  shows "pool_accepted_count (pool_at (stratum_update_share_stats (int p) a w) p) =
           pool_accepted_count (pool_at w p) + (if a then 1 else 0) \<and>
         pool_rejected_count (pool_at (stratum_update_share_stats (int p) a w) p) =
           pool_rejected_count (pool_at w p) + (if a then 0 else 1) \<and>
         pending_count (stratum_update_share_stats (int p) a w) q sid = pending_count w q sid"
  using assms
  by (auto simp: stratum_update_share_stats_def Let_def pool_at_upd_pool pending_count_def sctx_at_def)

lemma record_share_frame [frame_simps]:
  "w_pools (miner_record_thread_share_result t a w) = w_pools w"
  "w_num_pools (miner_record_thread_share_result t a w) = w_num_pools w"
  by (simp_all add: miner_record_thread_share_result_def)

text \<open>
  A submit reply is counted exactly when it is correlated. With a share of that identifier
  pending, handling the reply removes one pending entry and adds one to exactly one of the pool's
  counters: accepted for \<open>true\<close> or a \<open>status\<close> of \<open>OK\<close>, rejected for anything else, a missing
  result included. Without one, the reply changes nothing at all. In neither case does the reply
  end the connection.
\<close>

lemma submit_reply_counted_once:
  assumes "p < w_num_pools w" "w_num_pools w \<le> length (w_pools w)" "sctx_pooln (sctx_at w p) = int p"
    and "stratum_handle_submit_response env r p w = (w', ok)"
  shows "ok \<and>
    (if pending_count w p (sr_id r) = 0 then w' = w
     else pending_count w' p (sr_id r) = pending_count w p (sr_id r) - 1 \<and>
       pool_accepted_count (pool_at w' p) =
         pool_accepted_count (pool_at w p) + (if submit_result_ok (env_json env) (sr_result r) then 1 else 0) \<and>
       pool_rejected_count (pool_at w' p) =
         pool_rejected_count (pool_at w p) + (if submit_result_ok (env_json env) (sr_result r) then 0 else 1))"
proof -
  obtain m w1 where t: "submit_id_take_metadata p (sr_id r) w = (m, w1)" by force
  have p: "p < length (w_pools w)" using assms by simp
  note tm = take_metadata_pools [OF t]
  show ?thesis
  proof (cases m)
    case None
    with assms(4) t tm show ?thesis by (simp add: stratum_handle_submit_response_def)
  next
    case (Some sd)
    obtain d thr where sd: "m = Some (d, thr)" using Some by (cases sd) auto
    let ?a = "submit_result_ok (env_json env) (sr_result r)"
    let ?w2 = "if devfee_is_dev_pool w1 (int p) then w1 else miner_record_thread_share_result thr ?a w1"
    have w': "ok" "w' = stratum_update_share_stats (int p) ?a ?w2"
      using assms(3,4) t sd tm(3) [OF p, of p]
      by (auto simp: stratum_handle_submit_response_def Let_def split: if_splits)
    have "w_num_pools ?w2 = w_num_pools w" "w_pools ?w2 = w_pools w1" "length (w_pools w1) = length (w_pools w)"
      using tm(4) take_metadata_count(2) [OF p t] by (simp_all add: frame_simps)
    with reply_stats_pool [of p ?w2 ?a p "sr_id r"] tm(3) [OF p, of p] take_metadata_count(1) [OF p t, of "sr_id r"]
      sd w' assms show ?thesis
      by (auto simp: pool_at_def pending_count_def sctx_at_def)
  qed
qed

definition witness_pending_world :: "jval world" where
  "witness_pending_world =
     upd_sctx 0 (\<lambda>s. s\<lparr>sctx_pending_submits := (replicate 256 zero_pending)
       [0 := \<lparr>ps_id = 12, ps_sharediff = 1, ps_thread_id = 0, ps_queued_at = 5, ps_used = True\<rparr>]\<rparr>)
       (witness_rpc_world ALGO_VERUS)"

text \<open>
  An unknown request is answered and harmless: a message whose method is not in the table but
  carries an identifier gets exactly one reply, the error \<open>-32601\<close> with that identifier, and changes
  nothing else; it ends the connection only when the reply cannot be sent.
\<close>

lemma unknown_method_answered:
  assumes "json_loads (env_json env) s = Some val"
    and "json_string_value (env_json env) (json_object_get (env_json env) (Some val) ''method'') = Some meth"
    and "find_stratum_method_handler meth = None"
    and "json_object_get (env_json env) (Some val) ''id'' = Some rid" "\<not> json_is_null (env_json env) (Some rid)"
  shows "stratum_handle_message env s p w =
    (if env_sent env then (w\<lparr>w_wire := w_wire w @ [(p, Rpc_Error rid (- 32601) ''Method not found'')]\<rparr>, True)
     else (w, False))"
  using assms
  by (simp add: stratum_handle_message_def stratum_handle_json_message_def stratum_dispatch_json_message_def
      stratum_handle_method_value_def stratum_send_rpc_error_def stratum_send_line_def Let_def)

definition witness_unknown :: jval where
  "witness_unknown = J_Object [(''id'', J_Int 7), (''method'', J_String ''mining.unknown'')]"

lemma sctx_at_upd_pool:
  "(\<And>q. pool_stratum (f q) = pool_stratum q) \<Longrightarrow> sctx_at (upd_pool i f w) p = sctx_at w p"
  by (cases "i < length (w_pools w)")
    (auto simp: sctx_at_def pool_at_def upd_pool_def nth_list_update list_update_beyond)

lemma reconnect_port_range: "0 < reconnect_port J v \<Longrightarrow> reconnect_port J v \<le> 65535"
  by (auto simp: reconnect_port_def Let_def split: option.splits prod.splits if_splits)

lemma reconnect_url_full:
  assumes "0 < port" "port \<le> 65535"
  shows "reconnect_url tls host port =
    (if tls then ''stratum+ssl://'' else ''stratum+tcp://'') @ host @ '':'' @ show_nat (nat port)"
proof -
  have "length (show_nat (nat port)) \<le> 5" using assms by (intro length_show_nat) auto
  then show ?thesis unfolding reconnect_url_def by (subst snprintf_s_id) auto
qed

lemma tls_scheme:
  "stratum_url_is_tls ((if tls then ''stratum+ssl://'' else ''stratum+tcp://'') @ rest) = tls"
  by (simp add: stratum_url_is_tls_def strncasecmp_eq_def strcasecmp_eq_def tolower_def char_code_def)

lemma disconnect_keeps_url:
  "p < length (w_pools w) \<Longrightarrow> sctx_url (sctx_at (stratum_disconnect p w) p) = sctx_url (sctx_at w p) \<and>
   sctx_reconnect_requested (sctx_at (stratum_disconnect p w) p) = sctx_reconnect_requested (sctx_at w p) \<and>
   \<not> sctx_sock (sctx_at (stratum_disconnect p w) p)"
  by (simp add: stratum_disconnect_def sctx_at_upd_sctx stratum_reset_work_state_def miner_work_generation_bump_def
      stratum_reset_session_runtime_def stratum_free_job_def stratum_close_transport_def
      stratum_reset_socket_buffer_def stratum_set_authenticated_def stratum_store_next_diff_def)

text \<open>
  A server redirect never weakens the transport: when \<open>client.reconnect\<close> is accepted the session's
  new address is the named host with a port between 1 and 65535, printed in full, and it selects
  TLS exactly when the session used TLS before; the session is disconnected and marked to
  reconnect.
\<close>

lemma reconnect_keeps_transport:
  assumes "p < length (w_pools w)" "stratum_reconnect env params p w = (w', True)"
  shows "\<exists>host port url. json_string_value (env_json env) (json_array_get (env_json env) params 0) = Some host \<and>
    0 < port \<and> port \<le> 65535 \<and> sctx_url (sctx_at w' p) = Some url \<and>
    url = (if sctx_use_tls (sctx_at w p) then ''stratum+ssl://'' else ''stratum+tcp://'') @ host @ '':'' @ show_nat port \<and>
    stratum_url_is_tls url = sctx_use_tls (sctx_at w p) \<and>
    sctx_reconnect_requested (sctx_at w' p) \<and> \<not> sctx_sock (sctx_at w' p)"
proof -
  let ?J = "env_json env" and ?s = "sctx_at w p"
  let ?port = "reconnect_port ?J (json_array_get ?J params 1)"
  obtain host where h: "json_string_value ?J (json_array_get ?J params 0) = Some host"
    using assms(2) by (auto simp: stratum_reconnect_def Let_def split: option.splits)
  have port: "0 < ?port" "?port \<le> 65535"
    using assms(2) h by (auto simp: stratum_reconnect_def Let_def split: if_splits)
  define url where "url = reconnect_url (sctx_use_tls ?s) host ?port"
  note full = reconnect_url_full [OF port, of "sctx_use_tls ?s" host, folded url_def]
  have ne: "url \<noteq> []" using full by simp
  let ?w1 = "upd_sctx p (\<lambda>_. ?s\<lparr>sctx_url := Some url\<rparr>) w"
  define w2 where "w2 = (if 0 \<le> sctx_pooln ?s \<and> sctx_pooln ?s < int (w_num_pools w) then
      upd_pool (nat (sctx_pooln ?s)) (\<lambda>q. q\<lparr>pool_url := snprintf_s 512 url,
        pool_short_url := snprintf_s 64 (case strstr url ''://'' of None \<Rightarrow> url | Some t \<Rightarrow> drop 3 t)\<rparr>) ?w1
      else ?w1)"
  have w2': "w' = stratum_disconnect p (upd_sctx p (\<lambda>s. s\<lparr>sctx_reconnect_requested := True\<rparr>) w2)"
    using assms(2) h ne
    by (auto simp: stratum_reconnect_def stratum_set_url_def Let_def url_def [symmetric] w2_def
        simp del: One_nat_def cong: option.case_cong split: if_splits)
  have "sctx_at w2 p = sctx_at ?w1 p \<and> length (w_pools w2) = length (w_pools w)"
    by (simp add: w2_def sctx_at_upd_pool)
  with w2' assms(1) have "sctx_url (sctx_at w' p) = Some url \<and> sctx_reconnect_requested (sctx_at w' p) \<and>
      \<not> sctx_sock (sctx_at w' p)"
    by (simp add: disconnect_keeps_url sctx_at_upd_sctx)
  with h port full tls_scheme show ?thesis
    by (intro exI [of _ host] exI [of _ "nat ?port"] exI [of _ url]) auto
qed

lemma strstr_scheme:
  "strstr ((if tls then ''stratum+ssl://'' else ''stratum+tcp://'') @ rest) ''://'' = Some (''://'' @ rest)"
  by simp

lemma split_port_host_port:
  assumes "CHR '':'' \<notin> set port_str"
  shows "split_port (host @ '':'' @ port_str) = Some (host, port_str)"
proof -
  have "takeWhile (\<lambda>c. c \<noteq> CHR '':'') (rev port_str @ CHR '':'' # rev host) = rev port_str"
    "dropWhile (\<lambda>c. c \<noteq> CHR '':'') (rev port_str @ CHR '':'' # rev host) = CHR '':'' # rev host"
    using assms by (subst takeWhile_append2 dropWhile_append2; auto)+
  then show ?thesis by (simp add: split_port_def)
qed

text \<open>
  The address a redirect stores is read back exactly: for every host that is not an IPv6 literal,
  has no slash and fits the 256-byte buffer, and every port, the DNS-fallback code extracts from the
  stored URL the very host and port the redirect named, a host with colons in it included.
\<close>

lemma redirect_url_roundtrip:
  assumes "sctx_url sctx = Some (reconnect_url tls host port)" "0 < port" "port \<le> 65535"
    and "host \<noteq> []" "length host < 256" "CHR ''/'' \<notin> set host" "hd host \<noteq> CHR ''[''"
  shows "stratum_extract_host_port 256 sctx = Some (host, port)"
proof -
  define auth where "auth = host @ '':'' @ show_nat (nat port)"
  have d: "is_digit c" if "c \<in> set (show_nat (nat port))" for c using that is_digit_show_nat by blast
  have "\<forall>c \<in> set auth. c \<noteq> CHR ''/''"
    using assms(6) d [of "CHR ''/''"] by (auto simp: auth_def is_digit_def char_code_def)
  then have whole: "takeWhile (\<lambda>c. c \<noteq> CHR ''/'') auth = auth" "dropWhile (\<lambda>c. c \<noteq> CHR ''/'') auth = []"
    by (simp_all only: takeWhile_eq_all_conv dropWhile_eq_Nil_conv)
  have "CHR '':'' \<notin> set (show_nat (nat port))" using d is_digit_not_special by blast
  then have split: "split_port auth = Some (host, show_nat (nat port))"
    unfolding auth_def by (rule split_port_host_port)
  have url: "strstr (reconnect_url tls host port) ''://'' = Some (''://'' @ auth)"
    using assms(2,3) by (simp only: reconnect_url_full strstr_scheme auth_def)
  have "strtol (show_nat (nat port)) = (port, [], False)"
    using strtol_show_nat [of "nat port" "[]"] assms(2,3) by simp
  moreover have "hd auth \<noteq> CHR ''[''" using assms(4,7) by (simp add: auth_def)
  ultimately show ?thesis
    using assms(1-5) split by (simp add: stratum_extract_host_port_def url whole)
qed



section \<open>The connection survives a message or asks to be renewed\<close>

text \<open>
  \<open>link_kept p w w'\<close>: the pool table keeps its size, and the connection of session \<open>p\<close> is the same
  or the session asks for a reconnect.
\<close>

definition link_kept :: "nat \<Rightarrow> 'j world \<Rightarrow> 'j world \<Rightarrow> bool" where
  "link_kept p w w' \<longleftrightarrow>
     length (w_pools w') = length (w_pools w) \<and>
     (p < length (w_pools w) \<longrightarrow>
        same_link (sctx_at w p) (sctx_at w' p) \<or> sctx_reconnect_requested (sctx_at w' p))"

lemma link_kept_refl [simp]: "link_kept p w w"
  by (simp add: link_kept_def)

lemma link_kept_session: "(\<And>s. same_link s (f s)) \<Longrightarrow> link_kept p w (upd_sctx p f w)"
  by (simp add: link_kept_def sctx_at_upd_sctx)

lemma link_kept_wire [simp]: "link_kept p w (fst (stratum_send_line sent q line w))"
  by (simp add: stratum_send_line_def link_kept_def)

lemma link_kept_replies [simp]:
  "link_kept p w (fst (stratum_send_rpc_bool_result env q rid b w))"
  "link_kept p w (fst (stratum_send_rpc_string_result env q rid s w))"
  "link_kept p w (fst (stratum_send_rpc_error env q rid code m w))"
  by (simp_all add: stratum_send_rpc_bool_result_def stratum_send_rpc_string_result_def
      stratum_send_rpc_error_def split: option.split)

lemma link_kept_submit_response [simp]:
  "link_kept p w (fst (stratum_handle_submit_response env r p w))"
proof -
  obtain m w1 where t: "submit_id_take_metadata p (sr_id r) w = (m, w1)" by force
  have "link_kept p w w1"
    using t by (auto simp: submit_id_take_metadata_def same_link_def split: option.splits
        intro: link_kept_session)
  moreover have "sctx_at (stratum_update_share_stats i a v) p = sctx_at v p"
    "length (w_pools (stratum_update_share_stats i a v)) = length (w_pools v)"
    "w_pools (miner_record_thread_share_result thr a v) = w_pools v" for i a thr and v :: "'a world"
    by (simp_all add: stratum_update_share_stats_def Let_def sctx_at_upd_pool frame_simps)
  ultimately show ?thesis
    using t by (auto simp: stratum_handle_submit_response_def Let_def link_kept_def sctx_at_def pool_at_def
        split: option.splits prod.splits)
qed

lemma link_kept_lift: "(\<And>s. same_link s (fst (f s))) \<Longrightarrow> link_kept p w (fst (lift_session f p w))"
  by (simp add: lift_session_def link_kept_def sctx_at_upd_sctx split: prod.splits) (metis fst_conv)

lemma same_link_setters [simp]:
  "same_link s (fst (stratum_set_difficulty J params s))"
  "same_link s (fst (verus_stratum_set_target J params s))"
  "same_link s (fst (stratum_parse_extranonce algo J params pndx s))"
proof -
  show "same_link s (fst (stratum_parse_extranonce algo J params pndx s))"
    using parse_extranonce_cases [of algo J params pndx s]
    by (auto simp: stratum_set_extranonce_def same_link_def Let_def split: option.splits)
qed (auto simp: stratum_set_difficulty_def verus_stratum_set_target_def stratum_store_next_diff_def Let_def
      same_link_def split: option.splits)

lemma link_kept_notify [simp]: "link_kept p w (fst (ops_handle_notify ops env params p w))"
proof -
  have "link_kept p w (fst (ops_handle_notify Standard_Ops env params p w))"
    by (cases "stratum_notify_standard (env_sha256d env) (env_json env) (env_now env) (env_alloc env) params p w")
      (auto simp: ops_handle_notify_def link_kept_def dest: standard.notify_pools standard.notify_link)
  moreover have "link_kept p w (fst (ops_handle_notify Verus_Ops env params p w))"
    by (cases "verus_stratum_notify (env_json env) (env_uninit env) (env_now env) (env_alloc env) params p w")
      (auto simp: ops_handle_notify_def link_kept_def dest: verus.notify_pools verus.notify_link)
  moreover have "link_kept p w (fst (ops_handle_notify Xmr_Ops env params p w))"
    by (cases "xmr_stratum_handle_job (env_json env) (env_alloc env) params p w")
      (auto simp: ops_handle_notify_def link_kept_def dest: xmr.notify_pools xmr.notify_link)
  ultimately show ?thesis by (cases ops) auto
qed

lemma link_kept_show_message [simp]: "link_kept p w (fst (stratum_show_message env rid params p w))"
proof -
  define w1 where "w1 = fst (stratum_show_message env None params p w)"
  have h: "w_pools (fst (stratum_update_active_work_height_locked pooln job_id height v)) = w_pools v"
    for pooln job_id height and v :: "'a world"
    by (simp add: stratum_update_active_work_height_locked_def Let_def)
  have "link_kept p w w1"
    by (auto simp: w1_def stratum_show_message_def Let_def link_kept_def h sctx_at_cong [OF h] sctx_at_upd_sctx
        same_link_def split: option.split prod.split)
  moreover have "fst (stratum_show_message env rid params p w) = w1 \<or>
      fst (stratum_show_message env rid params p w) = fst (stratum_send_rpc_bool_result env p rid True w1)"
    by (simp add: w1_def stratum_show_message_def Let_def)
  moreover have "w_pools (fst (stratum_send_rpc_bool_result env p rid True w1)) = w_pools w1"
    by (simp add: stratum_send_rpc_bool_result_def stratum_send_line_def split: option.split)
  ultimately show ?thesis by (auto simp: link_kept_def sctx_at_def pool_at_def)
qed

lemma link_kept_reconnect [simp]: "link_kept p w (fst (stratum_reconnect env params p w))"
proof -
  obtain w' ok where c: "stratum_reconnect env params p w = (w', ok)" by force
  have "length (w_pools (stratum_disconnect p v)) = length (w_pools v)" for v :: "'a world"
    by (simp add: stratum_disconnect_def stratum_reset_work_state_def miner_work_generation_bump_def)
  with c show ?thesis
    by (auto simp: stratum_reconnect_def stratum_set_url_def Let_def link_kept_def disconnect_keeps_url
        sctx_at_upd_sctx split: option.splits if_splits)
qed

lemma link_kept_run_method [simp]: "link_kept p w (fst (run_method env m rid params p w))"
proof (cases m)
  case Method_Set_Target
  have "link_kept p w (fst (lift_session (verus_stratum_set_target (env_json env) params) p w))"
    by (simp add: link_kept_lift)
  then show ?thesis
    by (cases "lift_session (verus_stratum_set_target (env_json env) params) p w"; cases "snd (lift_session (verus_stratum_set_target (env_json env) params) p w)")
      (simp_all add: run_method_def Method_Set_Target Let_def stratum_is_verus_protocol_store_def link_kept_def
        sctx_at_upd_sctx same_link_def)
qed (simp_all add: run_method_def Let_def link_kept_lift)

lemma link_kept_json_message [simp]: "link_kept p w (fst (stratum_handle_json_message env val p w))"
proof -
  have "link_kept p w (fst (stratum_handle_method_value env val p w))"
    by (simp add: stratum_handle_method_value_def Let_def split_beta split: option.split)
  moreover have "link_kept p w (fst (stratum_handle_response_value env val p w))"
    by (simp add: stratum_handle_response_value_def split_beta split: option.split)
  ultimately show ?thesis
    by (simp add: stratum_handle_json_message_def stratum_dispatch_json_message_def)
qed

end
