(* ===== verification/Handshake.thy ===== *)
theory Handshake
  imports Rpc
begin

text \<open>
  The handshake (\<open>src/stratum_handshake.cpp\<close>): a request is sent and lines are received until the
  reply with its identifier arrives; other messages are dispatched meanwhile. Subscribe (with one
  retry), authorize, the optional extranonce subscription and the single login call of the Monero
  dialect are built on it. The clock, the kernel and the messages' environments are given per
  iteration; a loop whose events are used up is still waiting and returns \<open>None\<close>.
\<close>

datatype stratum_wait_status =
    STRATUM_WAIT_OK | STRATUM_WAIT_TIMEOUT | STRATUM_WAIT_RECV_ERROR | STRATUM_WAIT_JSON_ERROR
  | STRATUM_WAIT_SEND_ERROR

definition STRATUM_REQUEST_SUBSCRIBE :: u32 where "STRATUM_REQUEST_SUBSCRIBE = 1"
definition STRATUM_REQUEST_AUTHORIZE :: u32 where "STRATUM_REQUEST_AUTHORIZE = 2"
definition STRATUM_REQUEST_EXTRANONCE_SUBSCRIBE :: u32 where "STRATUM_REQUEST_EXTRANONCE_SUBSCRIBE = 3"
definition STRATUM_REQUEST_LOGIN :: u32 where "STRATUM_REQUEST_LOGIN = 4"

lemmas request_ids = STRATUM_REQUEST_SUBSCRIBE_def STRATUM_REQUEST_AUTHORIZE_def
  STRATUM_REQUEST_EXTRANONCE_SUBSCRIBE_def STRATUM_REQUEST_LOGIN_def

text \<open>
  One iteration: \<open>time(NULL)\<close> at the deadline check and at the receive call, what the kernel
  delivers, and the environment of the handler if the line is dispatched. One request: whether the
  line was sent, the clock when the wait starts, and the iterations.
\<close>

record 'j wait_event =
  we_now :: int
  we_recv_now :: int
  we_recv :: "recv_event list"
  we_env :: "'j rpc_env"

record 'j request_env =
  rq_sent :: bool
  rq_now :: int
  rq_events :: "'j wait_event list"

section \<open>Waiting for a reply\<close>

definition stratum_reply_matches_id :: "'j jansson \<Rightarrow> 'j option \<Rightarrow> u32 \<Rightarrow> bool" where
  "stratum_reply_matches_id J reply expected_id \<longleftrightarrow>
     stratum_parse_rpc_id J (json_object_get J reply ''id'') = Some expected_id"

definition wait_timeout :: "int \<Rightarrow> int \<Rightarrow> 'j world \<Rightarrow> nat \<Rightarrow> int" where
  "wait_timeout deadline now w p =
     (if 0 < deadline then (if deadline - now < 1 then 1 else deadline - now)
      else miner_get_pool_timeout w (sctx_pooln (sctx_at w p)))"

fun wait_loop ::
  "'j jansson \<Rightarrow> u32 \<Rightarrow> int \<Rightarrow> nat \<Rightarrow> 'j wait_event list \<Rightarrow> 'j world \<Rightarrow>
   (stratum_wait_status \<times> 'j option \<times> 'j world) option" where
  "wait_loop J expected_id deadline p [] w = None"
| "wait_loop J expected_id deadline p (ev # rest) w =
     (if 0 < deadline \<and> deadline \<le> we_now ev then Some (STRATUM_WAIT_TIMEOUT, None, w)
      else case stratum_recv_line_timeout (we_recv_now ev) (wait_timeout deadline (we_now ev) w p)
                  (we_recv ev) (sctx_at w p) of
             None \<Rightarrow> None
           | Some (res, sctx', _) \<Rightarrow>
               (let w1 = upd_sctx p (\<lambda>_. sctx') w
                in case res of
                     Timed_Out \<Rightarrow> Some (STRATUM_WAIT_TIMEOUT, None, w1)
                   | Recv_Failed \<Rightarrow> Some (STRATUM_WAIT_RECV_ERROR, None, w1)
                   | Line line \<Rightarrow>
                       (case json_loads J line of
                          None \<Rightarrow> Some (STRATUM_WAIT_JSON_ERROR, None, w1)
                        | Some val \<Rightarrow>
                            (if stratum_reply_matches_id J (Some val) expected_id
                             then Some (STRATUM_WAIT_OK, Some val, w1)
                             else wait_loop J expected_id deadline p rest
                                    (fst (stratum_handle_json_message (we_env ev\<lparr>env_json := J\<rparr>) (Some val)
                                            p w1))))))"

definition stratum_wait_for_response ::
  "'j jansson \<Rightarrow> u32 \<Rightarrow> int \<Rightarrow> int \<Rightarrow> nat \<Rightarrow> 'j wait_event list \<Rightarrow> 'j world \<Rightarrow>
   (stratum_wait_status \<times> 'j option \<times> 'j world) option" where
  "stratum_wait_for_response J expected_id timeout now p events w =
     wait_loop J expected_id (if 0 < timeout then now + timeout else 0) p events w"

definition stratum_send_request_and_wait ::
  "'j jansson \<Rightarrow> 'j out_msg \<Rightarrow> u32 \<Rightarrow> int \<Rightarrow> nat \<Rightarrow> 'j request_env \<Rightarrow> 'j world \<Rightarrow>
   (stratum_wait_status \<times> 'j option \<times> 'j world) option" where
  "stratum_send_request_and_wait J request expected_id timeout p rq w =
     (case stratum_send_line (rq_sent rq) p request w of
        (w1, False) \<Rightarrow> Some (STRATUM_WAIT_SEND_ERROR, None, w1)
      | (w1, True) \<Rightarrow> stratum_wait_for_response J expected_id timeout (rq_now rq) p (rq_events rq) w1)"

section \<open>Requests and replies\<close>

definition stratum_build_subscribe_request :: "stratum_ctx \<Rightarrow> bool \<Rightarrow> 'j out_msg" where
  "stratum_build_subscribe_request sctx retry =
     stratum_build_request_line ''mining.subscribe'' STRATUM_REQUEST_SUBSCRIBE
       (if retry then []
        else [USER_AGENT] @ (case sctx_session_id sctx of None \<Rightarrow> [] | Some sid \<Rightarrow> [sid]))"

definition stratum_build_authorize_request :: "string \<Rightarrow> string \<Rightarrow> 'j out_msg" where
  "stratum_build_authorize_request user pass =
     stratum_build_request_line ''mining.authorize'' STRATUM_REQUEST_AUTHORIZE [user, pass]"

definition stratum_build_extranonce_subscribe_request :: "'j out_msg" where
  "stratum_build_extranonce_subscribe_request =
     stratum_build_request_line ''mining.extranonce.subscribe'' STRATUM_REQUEST_EXTRANONCE_SUBSCRIBE []"

definition stratum_reply_has_rpc_error :: "'j jansson \<Rightarrow> 'j option \<Rightarrow> bool \<Rightarrow> bool" where
  "stratum_reply_has_rpc_error J reply allow_false_result \<longleftrightarrow>
     (let result = json_object_get J reply ''result'';
          error = json_object_get J reply ''error''
      in (result = None \<or> json_is_null J result \<or> (\<not> allow_false_result \<and> json_is_false J result)) \<or>
         (error \<noteq> None \<and> \<not> json_is_null J error))"

text \<open>The scan over the subscription pairs; \<open>n\<close> entries are left from index \<open>i\<close>.\<close>

fun scan_session_id :: "'j jansson \<Rightarrow> 'j option \<Rightarrow> nat \<Rightarrow> nat \<Rightarrow> string option" where
  "scan_session_id J arr_val i 0 = None"
| "scan_session_id J arr_val i (Suc n) =
     (let arr = json_array_get J arr_val i
      in if arr = None \<or> \<not> json_is_array J arr then None
         else case json_string_value J (json_array_get J arr 0) of
                None \<Rightarrow> scan_session_id J arr_val (Suc i) n
              | Some notify \<Rightarrow>
                  (if strcasecmp_eq notify ''mining.notify'' then json_string_value J (json_array_get J arr 1)
                   else scan_session_id J arr_val (Suc i) n))"

definition get_stratum_session_id :: "'j jansson \<Rightarrow> 'j option \<Rightarrow> string option" where
  "get_stratum_session_id J val =
     (let arr_val = json_array_get J val 0
      in if arr_val = None \<or> \<not> json_is_array J arr_val then None
         else scan_session_id J arr_val 0 (nat (c_int (int (json_array_size J arr_val)))))"

definition stratum_apply_subscribe_reply ::
  "algo_t \<Rightarrow> 'j jansson \<Rightarrow> 'j option \<Rightarrow> stratum_ctx \<Rightarrow> stratum_ctx \<times> bool" where
  "stratum_apply_subscribe_reply algo J reply sctx =
     (let res_val = json_object_get J reply ''result''
      in case stratum_parse_extranonce algo J res_val 1 sctx of
           (s1, False) \<Rightarrow> (s1, False)
         | (s1, True) \<Rightarrow> (stratum_store_session_id (get_stratum_session_id J res_val) s1, True))"

section \<open>Subscribe and authorize\<close>

text \<open>One attempt: the world, and whether to go on (\<open>None\<close>), or the result.\<close>

definition subscribe_attempt ::
  "'j jansson \<Rightarrow> bool \<Rightarrow> nat \<Rightarrow> 'j request_env \<Rightarrow> 'j world \<Rightarrow> ('j world \<times> bool option) option" where
  "subscribe_attempt J retry p rq w =
     (case stratum_send_request_and_wait J (stratum_build_subscribe_request (sctx_at w p) retry)
             STRATUM_REQUEST_SUBSCRIBE 30 p rq w of
        None \<Rightarrow> None
      | Some (status, val, w1) \<Rightarrow>
          (if status \<noteq> STRATUM_WAIT_OK then Some (w1, Some False)
           else if stratum_reply_has_rpc_error J val True then Some (w1, None)
           else case lift_session (stratum_apply_subscribe_reply (opt_algo (w_opts w1)) J val) p w1 of
                  (w2, ok) \<Rightarrow> Some (w2, Some ok)))"

definition stratum_subscribe ::
  "'j jansson \<Rightarrow> nat \<Rightarrow> 'j request_env \<Rightarrow> 'j request_env \<Rightarrow> 'j world \<Rightarrow> ('j world \<times> bool) option" where
  "stratum_subscribe J p first second w =
     (case subscribe_attempt J False p first w of
        None \<Rightarrow> None
      | Some (w1, Some ok) \<Rightarrow> Some (w1, ok)
      | Some (w1, None) \<Rightarrow>
          (case subscribe_attempt J True p second w1 of
             None \<Rightarrow> None
           | Some (w2, Some ok) \<Rightarrow> Some (w2, ok)
           | Some (w2, None) \<Rightarrow> Some (w2, False)))"

definition stratum_apply_authorize_reply :: "'j jansson \<Rightarrow> 'j option \<Rightarrow> stratum_ctx \<Rightarrow> stratum_ctx \<times> bool" where
  "stratum_apply_authorize_reply J reply sctx =
     (if stratum_reply_has_rpc_error J reply False then (stratum_set_authenticated False sctx, False)
      else (stratum_set_authenticated True sctx, True))"

definition stratum_try_extranonce_subscribe ::
  "'j jansson \<Rightarrow> nat \<Rightarrow> 'j request_env \<Rightarrow> 'j world \<Rightarrow> 'j world option" where
  "stratum_try_extranonce_subscribe J p rq w =
     map_option (\<lambda>(status, extra, w1). w1)
       (stratum_send_request_and_wait J stratum_build_extranonce_subscribe_request
          STRATUM_REQUEST_EXTRANONCE_SUBSCRIBE 2 p rq w)"

definition stratum_authorize ::
  "'j jansson \<Rightarrow> string \<Rightarrow> string \<Rightarrow> nat \<Rightarrow> 'j request_env \<Rightarrow> 'j request_env \<Rightarrow> 'j world \<Rightarrow>
   ('j world \<times> bool) option" where
  "stratum_authorize J user pass p rq extra w =
     (case stratum_send_request_and_wait J (stratum_build_authorize_request user pass)
             STRATUM_REQUEST_AUTHORIZE 0 p rq w of
        None \<Rightarrow> None
      | Some (status, val, w1) \<Rightarrow>
          (if status \<noteq> STRATUM_WAIT_OK then Some (w1, False)
           else case lift_session (stratum_apply_authorize_reply J val) p w1 of
                  (w2, False) \<Rightarrow> Some (w2, False)
                | (w2, True) \<Rightarrow>
                    map_option (\<lambda>w3. (w3, True)) (stratum_try_extranonce_subscribe J p extra w2)))"

section \<open>The Monero login\<close>

definition has_nicehash_extension :: "'j jansson \<Rightarrow> 'j option \<Rightarrow> bool" where
  "has_nicehash_extension J extensions \<longleftrightarrow>
     json_is_array J extensions \<and>
     list_ex (\<lambda>i. case json_string_value J (json_array_get J extensions i) of
                    None \<Rightarrow> False
                  | Some name \<Rightarrow> strcasecmp_eq name ''nicehash'') [0..<json_array_size J extensions]"

definition login_request :: "string \<Rightarrow> string \<Rightarrow> 'j out_msg" where
  "login_request user pass =
     Xmr_Login STRATUM_REQUEST_LOGIN user (if pass = [] then ''x'' else pass) USER_AGENT [''rx/0'']"

text \<open>\<open>alloc\<close> is the allocation flag of the first job's publication.\<close>

definition xmr_stratum_login ::
  "'j jansson \<Rightarrow> bool \<Rightarrow> string \<Rightarrow> string \<Rightarrow> nat \<Rightarrow> 'j request_env \<Rightarrow> 'j world \<Rightarrow> ('j world \<times> bool) option" where
  "xmr_stratum_login J alloc user pass p rq w =
     (case stratum_send_request_and_wait J (login_request user pass) STRATUM_REQUEST_LOGIN 30 p rq w of
        None \<Rightarrow> None
      | Some (status, val, w1) \<Rightarrow>
          (if status \<noteq> STRATUM_WAIT_OK then Some (w1, False)
           else if stratum_reply_has_rpc_error J val False then Some (w1, False)
           else
             let result = json_object_get J val ''result'';
                 rpc_session_id = json_string_value J (json_object_get J result ''id'');
                 job = json_object_get J result ''job''
             in if rpc_session_id = None \<or> rpc_session_id = Some [] then Some (w1, False)
                else
                  let nicehash = (opt_nicehash (w_opts w1) \<or>
                                  has_nicehash_extension J (json_object_get J result ''extensions''));
                      w2 = upd_sctx p (\<lambda>s. (stratum_set_authenticated True
                             (stratum_store_session_id rpc_session_id s))\<lparr>sctx_xmr_nicehash := nicehash\<rparr>) w1
                  in if \<not> json_is_object J job then Some (w2, True)
                     else Some (xmr_stratum_handle_job J alloc job p w2)))"


section \<open>What survives a wait\<close>

text \<open>Receiving touches the socket buffer only.\<close>

definition only_buffer :: "stratum_ctx \<Rightarrow> stratum_ctx \<Rightarrow> bool" where
  "only_buffer s t \<longleftrightarrow>
     t\<lparr>sctx_sockbuf := sctx_sockbuf s, sctx_sockbuf_size := sctx_sockbuf_size s\<rparr> = s"

lemma only_buffer_refl [simp]: "only_buffer s s"
  by (simp add: only_buffer_def)

lemma only_buffer_trans:
  assumes "only_buffer s t" "only_buffer t u"
  shows "only_buffer s u"
proof -
  have "u\<lparr>sctx_sockbuf := sctx_sockbuf s, sctx_sockbuf_size := sctx_sockbuf_size s\<rparr> =
    (u\<lparr>sctx_sockbuf := sctx_sockbuf t, sctx_sockbuf_size := sctx_sockbuf_size t\<rparr>)
      \<lparr>sctx_sockbuf := sctx_sockbuf s, sctx_sockbuf_size := sctx_sockbuf_size s\<rparr>" by simp
  also have "\<dots> = s" using assms unfolding only_buffer_def by simp
  finally show ?thesis unfolding only_buffer_def .
qed

lemma only_buffer_session:
  assumes "only_buffer s t"
  shows "session_ok t = session_ok s" "same_link s t"
proof -
  have "session_ok (t\<lparr>sctx_sockbuf := b, sctx_sockbuf_size := n\<rparr>) = session_ok t"
    "same_link (t\<lparr>sctx_sockbuf := b, sctx_sockbuf_size := n\<rparr>) t" for b n
    by (simp_all add: session_ok_def xn_ok_def same_link_def)
  with assms show "session_ok t = session_ok s" "same_link s t" unfolding only_buffer_def by metis+
qed

lemma buffer_append_only_buffer: "only_buffer sctx (fst (stratum_buffer_append s sctx))"
  by (simp add: stratum_buffer_append_def stratum_reserve_socket_buffer_def only_buffer_def Let_def)

lemma accept_chunk_only_buffer: "accept_chunk s sctx = (sctx', ok) \<Longrightarrow> only_buffer sctx sctx'"
  using buffer_append_only_buffer [of sctx s] by (auto simp: accept_chunk_def split: if_splits)

lemma take_line_only_buffer: "stratum_take_buffer_line sctx = Some (line, sctx') \<Longrightarrow> only_buffer sctx sctx'"
  by (auto simp: stratum_take_buffer_line_def only_buffer_def Let_def split: if_splits)

lemma recv_loop_only_buffer:
  "recv_loop deadline events sctx = Some (res, sctx', left) \<Longrightarrow> only_buffer sctx sctx'"
proof (induction events arbitrary: sctx)
  case Nil
  then show ?case
    by (auto simp: recv_loop.simps [of _ "[]"] split: if_splits option.splits prod.splits intro: take_line_only_buffer)
next
  case (Cons ev rest)
  note step = accept_chunk_only_buffer Cons.IH only_buffer_trans take_line_only_buffer
  from Cons.prems show ?case
    by (subst (asm) recv_loop.simps)
      (auto split: if_splits option.splits prod.splits recv_answer.splits intro: step)
qed

lemma recv_line_only_buffer:
  "stratum_recv_line_timeout now timeout events sctx = Some (res, sctx', left) \<Longrightarrow> only_buffer sctx sctx'"
  by (auto simp: stratum_recv_line_timeout_def split: if_splits intro: recv_loop_only_buffer)

text \<open>
  A property of the world that receiving, dispatching a message and sending a line keep is kept by
  every handshake step.
\<close>

locale kept_by_messages =
  fixes Inv :: "nat \<Rightarrow> 'j world \<Rightarrow> bool"
  assumes kept_recv: "Inv p w \<Longrightarrow> only_buffer (sctx_at w p) s \<Longrightarrow> Inv p (upd_sctx p (\<lambda>_. s) w)"
    and kept_message: "Inv p w \<Longrightarrow> Inv p (fst (stratum_handle_json_message env val p w))"
    and kept_send: "Inv p w \<Longrightarrow> Inv p (fst (stratum_send_line sent p line w))"
begin

lemma kept_wait_loop:
  "wait_loop J expected_id deadline p events w = Some (status, val, w') \<Longrightarrow> Inv p w \<Longrightarrow> Inv p w'"
proof (induction events arbitrary: w)
  case Nil
  then show ?case by simp
next
  case (Cons ev rest)
  show ?case
  proof (cases "0 < deadline \<and> deadline \<le> we_now ev")
    case True
    with Cons.prems show ?thesis by simp
  next
    case False
    with Cons.prems(1) obtain res s' l where
      r: "stratum_recv_line_timeout (we_recv_now ev) (wait_timeout deadline (we_now ev) w p) (we_recv ev) (sctx_at w p)
        = Some (res, s', l)"
      by (auto split: option.splits)
    have "Inv p (upd_sctx p (\<lambda>_. s') w)"
      using Cons.prems(2) recv_line_only_buffer [OF r] by (rule kept_recv)
    with Cons.prems(1) False r show ?thesis
      by (auto simp: Let_def split: recv_result.splits option.splits if_splits intro: Cons.IH kept_message)
  qed
qed

lemma kept_request:
  "stratum_send_request_and_wait J request expected_id timeout p rq w = Some (status, val, w') \<Longrightarrow> Inv p w \<Longrightarrow>
   Inv p w'"
  using kept_send [of p w "rq_sent rq" request]
  by (auto simp: stratum_send_request_and_wait_def stratum_wait_for_response_def
      split: prod.splits bool.splits intro: kept_wait_loop)

end


definition sessions_inv :: "nat \<Rightarrow> 'j world \<Rightarrow> bool" where
  "sessions_inv p w \<longleftrightarrow> p < length (w_pools w) \<and> sessions_ok w"

text \<open>The session is authenticated or asks for a reconnect.\<close>

definition auth_inv :: "nat \<Rightarrow> 'j world \<Rightarrow> bool" where
  "auth_inv p w \<longleftrightarrow> p < length (w_pools w) \<and>
     (stratum_is_authenticated (sctx_at w p) \<or> sctx_reconnect_requested (sctx_at w p))"

lemma length_json_message [simp]:
  "length (w_pools (fst (stratum_handle_json_message env val p w))) = length (w_pools w)"
  using link_kept_json_message [of p w env val] by (simp add: link_kept_def)

lemma auth_inv_link: "auth_inv p w \<Longrightarrow> link_kept p w w' \<Longrightarrow> auth_inv p w'"
  by (auto simp: auth_inv_def link_kept_def same_link_def stratum_is_authenticated_def)

interpretation hs_sessions: kept_by_messages sessions_inv
proof
  fix p s and w :: "'a world"
  assume "sessions_inv p w" "only_buffer (sctx_at w p) s"
  then show "sessions_inv p (upd_sctx p (\<lambda>_. s) w)"
    using only_buffer_session by (auto simp: sessions_inv_def intro!: sessions_ok_upd_sctx)
qed (auto simp: sessions_inv_def sessions_ok_json_message stratum_send_line_def)

interpretation hs_auth: kept_by_messages auth_inv
proof
  fix p s and w :: "'a world"
  assume "auth_inv p w" "only_buffer (sctx_at w p) s"
  then show "auth_inv p (upd_sctx p (\<lambda>_. s) w)"
    using only_buffer_session(2) by (auto simp: auth_inv_def sctx_at_upd_sctx same_link_def stratum_is_authenticated_def)
qed (auto intro: auth_inv_link)

text \<open>The handshakes as a whole.\<close>

lemma subscribe_attempt_sessions:
  assumes "subscribe_attempt J retry p rq w = Some (w', r)" "sessions_inv p w"
  shows "sessions_inv p w'"
proof -
  obtain status val w1 where q: "stratum_send_request_and_wait J (stratum_build_subscribe_request (sctx_at w p) retry)
      STRATUM_REQUEST_SUBSCRIBE 30 p rq w = Some (status, val, w1)"
    using assms(1) by (auto simp: subscribe_attempt_def split: option.splits)
  note w1 = hs_sessions.kept_request [OF q assms(2)]
  have "session_ok (fst (stratum_apply_subscribe_reply algo J val s))" if "session_ok s" for algo s
    using session_ok_parse_extranonce [OF that, of algo J "json_object_get J val ''result''" 1]
    by (auto simp: stratum_apply_subscribe_reply_def Let_def stratum_store_session_id_def stratum_store_next_diff_def
        split: prod.splits bool.splits)
  then have "sessions_ok (fst (lift_session (stratum_apply_subscribe_reply (opt_algo (w_opts w1)) J val) p w1))"
    using w1 by (intro sessions_ok_lift) (auto simp: sessions_inv_def)
  with assms(1) q w1 show ?thesis
    by (auto simp: subscribe_attempt_def sessions_inv_def lift_session_def split: if_splits prod.splits)
qed

lemma subscribe_sessions:
  "stratum_subscribe J p first second w = Some (w', ok) \<Longrightarrow> sessions_inv p w \<Longrightarrow> sessions_inv p w'"
  by (auto simp: stratum_subscribe_def split: option.splits prod.splits dest: subscribe_attempt_sessions)

lemma authorize_sessions:
  assumes "stratum_authorize J user pass p rq extra w = Some (w', ok)" "sessions_inv p w"
  shows "sessions_inv p w'"
proof -
  obtain status val w1 where q: "stratum_send_request_and_wait J (stratum_build_authorize_request user pass)
      STRATUM_REQUEST_AUTHORIZE 0 p rq w = Some (status, val, w1)"
    using assms(1) by (auto simp: stratum_authorize_def split: option.splits)
  note w1 = hs_sessions.kept_request [OF q assms(2)]
  obtain w2 r where a: "lift_session (stratum_apply_authorize_reply J val) p w1 = (w2, r)" by force
  have "sessions_ok (fst (lift_session (stratum_apply_authorize_reply J val) p w1))"
    using w1 by (intro sessions_ok_lift)
      (auto simp: sessions_inv_def stratum_apply_authorize_reply_def stratum_set_authenticated_def)
  with a w1 have w2: "sessions_inv p w2" by (auto simp: sessions_inv_def lift_session_def split: prod.splits)
  from assms(1) q a w1 w2 show ?thesis
    by (auto simp: stratum_authorize_def stratum_try_extranonce_subscribe_def split: if_splits bool.splits
        dest: hs_sessions.kept_request)
qed

lemma login_sessions:
  assumes "xmr_stratum_login J alloc user pass p rq w = Some (w', ok)" "sessions_inv p w"
  shows "sessions_inv p w'"
proof -
  obtain status val w1 where q: "stratum_send_request_and_wait J (login_request user pass)
      STRATUM_REQUEST_LOGIN 30 p rq w = Some (status, val, w1)"
    using assms(1) by (auto simp: xmr_stratum_login_def split: option.splits)
  note w1 = hs_sessions.kept_request [OF q assms(2)]
  define job where "job = json_object_get J (json_object_get J val ''result'') ''job''"
  let ?w2 = "\<lambda>sid nh. upd_sctx p (\<lambda>s. (stratum_set_authenticated True (stratum_store_session_id sid s))
    \<lparr>sctx_xmr_nicehash := nh\<rparr>) w1"
  have w2: "sessions_inv p (?w2 sid nh)" for sid nh
    using w1 by (auto simp: sessions_inv_def stratum_set_authenticated_def stratum_store_session_id_def
        stratum_store_next_diff_def intro!: sessions_ok_upd_sctx)
  have "w' = w1 \<or> (\<exists>sid nh. w' = ?w2 sid nh \<or> xmr_stratum_handle_job J alloc job p (?w2 sid nh) = (w', ok))"
    using assms(1) q by (auto simp: xmr_stratum_login_def Let_def job_def [symmetric] split: if_splits)
  then show ?thesis
    using w1 w2 xmr.keeps_sessions xmr.notify_pools by (fastforce simp: sessions_inv_def)
qed

interpretation hs_size: kept_by_messages "\<lambda>p w. p < length (w_pools w)"
  by unfold_locales (auto simp: stratum_send_line_def)

lemma authorize_auth:
  assumes "stratum_authorize J user pass p rq extra w = Some (w', True)" "p < length (w_pools w)"
  shows "auth_inv p w'"
proof -
  obtain status val w1 where q: "stratum_send_request_and_wait J (stratum_build_authorize_request user pass)
      STRATUM_REQUEST_AUTHORIZE 0 p rq w = Some (status, val, w1)"
    using assms(1) by (auto simp: stratum_authorize_def split: option.splits)
  note w1 = hs_size.kept_request [OF q assms(2)]
  obtain w2 r where a: "lift_session (stratum_apply_authorize_reply J val) p w1 = (w2, r)" by force
  then have "r \<Longrightarrow> auth_inv p w2"
    using w1 by (auto simp: lift_session_def stratum_apply_authorize_reply_def auth_inv_def sctx_at_upd_sctx
        stratum_set_authenticated_def stratum_is_authenticated_def split: if_splits)
  with assms(1) q a show ?thesis
    by (auto simp: stratum_authorize_def stratum_try_extranonce_subscribe_def split: if_splits bool.splits
        dest: hs_auth.kept_request)
qed

lemma login_auth:
  assumes "xmr_stratum_login J alloc user pass p rq w = Some (w', True)" "p < length (w_pools w)"
  shows "auth_inv p w'"
proof -
  obtain status val w1 where q: "stratum_send_request_and_wait J (login_request user pass)
      STRATUM_REQUEST_LOGIN 30 p rq w = Some (status, val, w1)"
    using assms(1) by (auto simp: xmr_stratum_login_def split: option.splits)
  note w1 = hs_size.kept_request [OF q assms(2)]
  define job where "job = json_object_get J (json_object_get J val ''result'') ''job''"
  let ?w2 = "\<lambda>sid nh. upd_sctx p (\<lambda>s. (stratum_set_authenticated True (stratum_store_session_id sid s))
    \<lparr>sctx_xmr_nicehash := nh\<rparr>) w1"
  have w2: "auth_inv p (?w2 sid nh)" for sid nh
    using w1 by (simp add: auth_inv_def sctx_at_upd_sctx stratum_set_authenticated_def stratum_is_authenticated_def)
  have "\<exists>sid nh. w' = ?w2 sid nh \<or> xmr_stratum_handle_job J alloc job p (?w2 sid nh) = (w', True)"
    using assms(1) q by (auto simp: xmr_stratum_login_def Let_def job_def [symmetric] split: if_splits)
  then obtain sid nh where "w' = ?w2 sid nh \<or> xmr_stratum_handle_job J alloc job p (?w2 sid nh) = (w', True)"
    by blast
  then show ?thesis
  proof
    assume h: "xmr_stratum_handle_job J alloc job p (?w2 sid nh) = (w', True)"
    have "link_kept p (?w2 sid nh) w'"
      using xmr.notify_pools [OF h] xmr.notify_link [OF h] by (simp add: link_kept_def)
    with w2 show ?thesis by (rule auth_inv_link)
  qed (simp add: w2)
qed


section \<open>A pool request can be taken for a reply\<close>

text \<open>
  C40. While a handshake waits for the reply with identifier 2, the next message with that identifier
  ends the wait even when it is a request of the pool (it has a \<open>method\<close> and no \<open>result\<close>): it is
  never answered, and the authorization fails although the pool has not replied yet. The dispatcher
  outside the handshake does distinguish the two.
\<close>

theorem server_request_taken_as_reply:
  assumes "rq_sent rq" "rq_events rq = ev # rest" "p < length (w_pools w)"
    and "stratum_recv_line_timeout (we_recv_now ev)
           (miner_get_pool_timeout w (sctx_pooln (sctx_at w p))) (we_recv ev) (sctx_at w p) =
         Some (Line line, s', l)"
    and "json_loads J line = Some val"
    and "stratum_parse_rpc_id J (json_object_get J (Some val) ''id'') = Some STRATUM_REQUEST_AUTHORIZE"
    and "json_string_value J (json_object_get J (Some val) ''method'') = Some meth"
    and "json_object_get J (Some val) ''result'' = None"
  shows "\<exists>w'. stratum_authorize J user pass p rq extra w = Some (w', False) \<and>
    w_wire w' = w_wire w @ [(p, stratum_build_authorize_request user pass)] \<and>
    \<not> stratum_is_authenticated (sctx_at w' p)"
proof -
  let ?w1 = "w\<lparr>w_wire := w_wire w @ [(p, stratum_build_authorize_request user pass)]\<rparr>"
  have to: "wait_timeout 0 (we_now ev) ?w1 p = miner_get_pool_timeout w (sctx_pooln (sctx_at w p))"
    by (simp add: wait_timeout_def miner_get_pool_timeout_def Let_def)
  have "stratum_send_request_and_wait J (stratum_build_authorize_request user pass) STRATUM_REQUEST_AUTHORIZE 0 p rq w =
      Some (STRATUM_WAIT_OK, Some val, upd_sctx p (\<lambda>_. s') ?w1)"
    using assms by (simp add: stratum_send_request_and_wait_def stratum_send_line_def stratum_wait_for_response_def
        to stratum_reply_matches_id_def)
  then show ?thesis
    using assms(3,8)
    by (simp add: stratum_authorize_def lift_session_def stratum_apply_authorize_reply_def
        stratum_reply_has_rpc_error_def sctx_at_upd_sctx stratum_set_authenticated_def stratum_is_authenticated_def)
qed


definition witness_request_line :: jval where
  "witness_request_line = J_Object [(''id'', J_Int 2), (''method'', J_String ''client.get_version'')]"

definition witness_hs_json :: "jval jansson" where
  "witness_hs_json = jval_lib\<lparr>json_loads := \<lambda>_. Some witness_request_line\<rparr>"

definition witness_hs_world :: "jval world" where
  "witness_hs_world = upd_sctx 0 (\<lambda>s. s\<lparr>sctx_sockbuf := Some ''x\<newline>'', sctx_sockbuf_size := 2048\<rparr>)
     (witness_rpc_world ALGO_SHA256D)"

definition witness_hs_request :: "jval request_env" where
  "witness_hs_request = \<lparr>rq_sent = True, rq_now = 0,
     rq_events = [\<lparr>we_now = 0, we_recv_now = 0, we_recv = [], we_env = witness_env\<rparr>]\<rparr>"

theorem server_request_taken_as_reply_witness:
  "\<exists>w'. stratum_authorize witness_hs_json ''u'' ''p'' 0 witness_hs_request witness_hs_request witness_hs_world =
        Some (w', False) \<and>
    w_wire w' = w_wire witness_hs_world @ [(0, stratum_build_authorize_request ''u'' ''p'')] \<and>
    \<not> stratum_is_authenticated (sctx_at w' 0)"
  by (rule server_request_taken_as_reply [where val = witness_request_line and line = "''x''" and l = "[]"
        and ev = "\<lparr>we_now = 0, we_recv_now = 0, we_recv = [], we_env = witness_env\<rparr>" and rest = "[]"
        and s' = "(sctx_at witness_hs_world 0)\<lparr>sctx_sockbuf := Some []\<rparr>" and meth = "''client.get_version''"])
    (simp_all add: witness_hs_request_def witness_hs_json_def witness_request_line_def witness_hs_world_def
      jval_lib_def stratum_parse_rpc_id_def request_ids sctx_at_upd_sctx stratum_recv_line_timeout_def
      recv_loop.simps sockbuf_def stratum_take_buffer_line_def)

end
