(* ===== verification/Frames.thy ===== *)
theory Frames
  imports Handshake
begin

text \<open>
  What no message and no handshake can touch: the number of pools and their flags, the slot each
  session belongs to, the thread's mark on a slot, the options, the dev-fee clock, the abort flag
  and the current pool. The service thread relies on this frame between its own switches.
\<close>

section \<open>The static part of the world\<close>

definition pool_static :: "pool_infos \<Rightarrow> bool \<times> bool \<times> int \<times> bool" where
  "pool_static q = (pool_configured q, pool_disabled q, sctx_pooln (pool_stratum q), sctx_thread_active (pool_stratum q))"

definition static :: "'j world \<Rightarrow> nat \<times> int \<times> devfee_state \<times> bool \<times> miner_options \<times> (bool \<times> bool \<times> int \<times> bool) list" where
  "static w = (w_num_pools w, w_current_pool w, w_devfee w, w_abort w, w_opts w, map pool_static (w_pools w))"

lemma staticD:
  assumes "static w' = static w"
  shows "w_num_pools w' = w_num_pools w" "w_current_pool w' = w_current_pool w" "w_devfee w' = w_devfee w"
    "w_abort w' = w_abort w" "w_opts w' = w_opts w" "length (w_pools w') = length (w_pools w)"
    "q < length (w_pools w) \<Longrightarrow> pool_static (pool_at w' q) = pool_static (pool_at w q)"
proof -
  from assms show "w_num_pools w' = w_num_pools w" "w_current_pool w' = w_current_pool w" "w_devfee w' = w_devfee w"
    "w_abort w' = w_abort w" "w_opts w' = w_opts w" and l: "length (w_pools w') = length (w_pools w)"
    by (auto simp: static_def dest: map_eq_imp_length_eq)
  assume "q < length (w_pools w)"
  then show "pool_static (pool_at w' q) = pool_static (pool_at w q)"
    using assms l by (simp add: static_def pool_at_def) (metis nth_map)
qed

lemma static_sctx:
  assumes "static w' = static w" "q < length (w_pools w)"
  shows "sctx_pooln (sctx_at w' q) = sctx_pooln (sctx_at w q)"
    "sctx_thread_active (sctx_at w' q) = sctx_thread_active (sctx_at w q)"
  using staticD(7) [OF assms] by (simp_all add: pool_static_def sctx_at_def)

lemma static_upd_pool:
  "pool_static (f (pool_at w p)) = pool_static (pool_at w p) \<Longrightarrow> static (upd_pool p f w) = static w"
  by (cases "p < length (w_pools w)")
    (simp_all add: static_def upd_pool_def pool_at_def map_update list_update_beyond,
     metis list_update_id nth_map)

lemma static_upd_sctx:
  "sctx_pooln (f (sctx_at w p)) = sctx_pooln (sctx_at w p) \<Longrightarrow>
   sctx_thread_active (f (sctx_at w p)) = sctx_thread_active (sctx_at w p) \<Longrightarrow> static (upd_sctx p f w) = static w"
  unfolding upd_sctx_def by (rule static_upd_pool) (simp add: pool_static_def sctx_at_def)

lemma static_frame [simp]:
  "static (w\<lparr>w_runtime := rs\<rparr>) = static w" "static (w\<lparr>w_generation := g\<rparr>) = static w"
  "static (w\<lparr>w_wire := l\<rparr>) = static w" "static (w\<lparr>w_rx := x\<rparr>) = static w"
  "static (w\<lparr>w_threads := t\<rparr>) = static w" "static (w\<lparr>w_stats := ms\<rparr>) = static w"
  by (simp_all add: static_def)

section \<open>Messages keep it\<close>

lemma static_runtime [simp]:
  "static (stratum_publish_work alloc nw clean w) = static w"
  "static (stratum_reset_work_state w) = static w"
  "static (randomx_set_seed seed w) = static w"
  "static (miner_record_thread_share_result thr a w) = static w"
  "static (fst (stratum_update_active_work_height_locked i job_id height w)) = static w"
  by (simp_all add: stratum_publish_work_def stratum_reset_work_state_def miner_work_generation_bump_def
      randomx_set_seed_def miner_record_thread_share_result_def stratum_update_active_work_height_locked_def
      Let_def split: prod.split)

lemma static_share_stats [simp]: "static (stratum_update_share_stats i a w) = static w"
  by (simp add: stratum_update_share_stats_def Let_def static_upd_pool pool_static_def)

lemma static_disconnect [simp]: "static (stratum_disconnect p w) = static w"
proof -
  have "static (upd_sctx p stratum_close_transport w) = static w"
    by (rule static_upd_sctx) (simp_all add: stratum_close_transport_def stratum_reset_socket_buffer_def)
  then show ?thesis
    by (simp add: stratum_disconnect_def static_upd_sctx stratum_reset_session_runtime_def stratum_free_job_def
        stratum_set_authenticated_def stratum_store_next_diff_def)
qed

lemma static_send [simp]:
  "static (fst (stratum_send_line sent q line w)) = static w"
  "static (fst (stratum_send_rpc_bool_result env q rid b w)) = static w"
  "static (fst (stratum_send_rpc_string_result env q rid s w)) = static w"
  "static (fst (stratum_send_rpc_error env q rid code m w)) = static w"
  by (simp_all add: stratum_send_line_def stratum_send_rpc_bool_result_def stratum_send_rpc_string_result_def
      stratum_send_rpc_error_def split: option.split)

lemma static_commit:
  assumes "\<And>s. same_link s (fst (app s))"
  shows "static (fst (stratum_commit_job_update alloc app build clean p w)) = static w"
proof -
  have "static (upd_sctx p (\<lambda>_. fst (app (sctx_at w p))) w) = static w"
    using assms [of "sctx_at w p"] by (intro static_upd_sctx) (simp_all add: same_link_def)
  then show ?thesis
    by (cases "app (sctx_at w p)")
      (auto simp: stratum_commit_job_update_def Let_def split: prod.split bool.split)
qed

lemma static_lift:
  assumes "\<And>s. sctx_pooln (fst (f s)) = sctx_pooln s \<and> sctx_thread_active (fst (f s)) = sctx_thread_active s"
  shows "static (fst (lift_session f p w)) = static w"
  by (cases "f (sctx_at w p)")
    (use assms [of "sctx_at w p"] in \<open>simp add: lift_session_def static_upd_sctx\<close>)

lemma same_link_static: "same_link s t \<Longrightarrow> sctx_pooln t = sctx_pooln s \<and> sctx_thread_active t = sctx_thread_active s"
  by (simp add: same_link_def)

lemma static_time_offset:
  "static (upd_sctx p (\<lambda>_. fst (stratum_update_time_offset now stime swap (sctx_at w p))) w) = static w"
  using same_link_static [OF same_link_time_offset [of "sctx_at w p" now stime swap]]
  by (intro static_upd_sctx) simp_all

lemma static_commits:
  "static (fst (stratum_commit_job_update alloc (apply_standard_job_locked sn merkle) build clean p w)) = static w"
  "static (fst (stratum_commit_job_update alloc (apply_verus_job_locked uninit vn solution) build clean p w)) = static w"
  "static (fst (stratum_commit_job_update alloc (xmr_apply_job_locked xv) build clean p w)) = static w"
  by (simp_all add: static_commit same_link_apply_standard same_link_apply_verus same_link_apply_xmr)

lemma static_notify [simp]: "static (fst (ops_handle_notify ops env params p w)) = static w"
  by (cases ops)
    (simp_all add: ops_handle_notify_def stratum_notify_standard_def apply_standard_notify_def
      verus_stratum_notify_def apply_verus_notify_def xmr_stratum_handle_job_def Let_def split_beta
      static_time_offset static_commits split: option.split)

lemma static_submit_response [simp]: "static (fst (stratum_handle_submit_response env r p w)) = static w"
proof -
  obtain m w1 where t: "submit_id_take_metadata p (sr_id r) w = (m, w1)" by force
  then have "static w1 = static w"
    by (auto simp: submit_id_take_metadata_def static_upd_sctx split: option.splits)
  with t show ?thesis
    by (auto simp: stratum_handle_submit_response_def Let_def split: option.split)
qed

lemma static_show_message [simp]: "static (fst (stratum_show_message env rid params p w)) = static w"
  by (simp add: stratum_show_message_def Let_def split_beta static_upd_sctx split: option.split)

lemma static_reconnect [simp]: "static (fst (stratum_reconnect env params p w)) = static w"
  by (auto simp: stratum_reconnect_def Let_def stratum_set_url_def static_upd_sctx static_upd_pool pool_static_def
      split: option.split)

lemma static_setters [simp]:
  "static (fst (lift_session (stratum_set_difficulty J params) p w)) = static w"
  "static (fst (lift_session (verus_stratum_set_target J params) p w)) = static w"
  "static (fst (lift_session (stratum_parse_extranonce algo J params pndx) p w)) = static w"
  by (rule static_lift, rule same_link_static, simp)+

lemma static_run_method [simp]: "static (fst (run_method env m rid params p w)) = static w"
proof (cases m)
  case Method_Set_Target
  have "static (fst (lift_session (verus_stratum_set_target (env_json env) params) p w)) = static w" by simp
  with Method_Set_Target show ?thesis
    by (cases "lift_session (verus_stratum_set_target (env_json env) params) p w")
      (simp add: run_method_def Let_def stratum_is_verus_protocol_store_def static_upd_sctx split: bool.split)
qed (simp_all add: run_method_def Let_def)

lemma static_json_message [simp]: "static (fst (stratum_handle_json_message env val p w)) = static w"
proof -
  have "static (fst (stratum_handle_method_value env val p w)) = static w"
    by (simp add: stratum_handle_method_value_def Let_def split_beta split: option.split)
  moreover have "static (fst (stratum_handle_response_value env val p w)) = static w"
    by (simp add: stratum_handle_response_value_def split_beta split: option.split)
  ultimately show ?thesis
    by (simp add: stratum_handle_json_message_def stratum_dispatch_json_message_def)
qed

section \<open>Handshakes keep it\<close>

lemma static_recv:
  "only_buffer (sctx_at w p) s \<Longrightarrow> static (upd_sctx p (\<lambda>_. s) w) = static w"
  using same_link_static [OF only_buffer_session(2)] by (intro static_upd_sctx) simp_all

interpretation hs_static: kept_by_messages "\<lambda>p w. static w = S" for S
  by unfold_locales (simp_all add: static_recv)

lemmas static_request = hs_static.kept_request [OF _ refl]

lemma static_subscribe_reply [simp]:
  "static (fst (lift_session (stratum_apply_subscribe_reply algo J val) p w)) = static w"
proof (rule static_lift)
  fix s
  show "sctx_pooln (fst (stratum_apply_subscribe_reply algo J val s)) = sctx_pooln s \<and>
    sctx_thread_active (fst (stratum_apply_subscribe_reply algo J val s)) = sctx_thread_active s"
    using same_link_static [OF same_link_setters(3) [of s algo J "json_object_get J val ''result''" 1]]
    by (cases "stratum_parse_extranonce algo J (json_object_get J val ''result'') 1 s")
      (auto simp: stratum_apply_subscribe_reply_def Let_def stratum_store_session_id_def stratum_store_next_diff_def
        split: bool.split)
qed

lemma static_subscribe_attempt: "subscribe_attempt J retry p rq w = Some (w', r) \<Longrightarrow> static w' = static w"
  using static_subscribe_reply
  by (auto simp: subscribe_attempt_def split_beta split: option.splits if_splits dest!: static_request)

lemma static_subscribe: "stratum_subscribe J p first second w = Some (w', ok) \<Longrightarrow> static w' = static w"
  by (auto simp: stratum_subscribe_def split: option.splits prod.splits dest!: static_subscribe_attempt)

lemma static_authorize_reply [simp]:
  "static (fst (lift_session (stratum_apply_authorize_reply J val) p w)) = static w"
  by (rule static_lift) (simp add: stratum_apply_authorize_reply_def stratum_set_authenticated_def)

lemma static_authorize:
  assumes "stratum_authorize J user pass p rq extra w = Some (w', ok)"
  shows "static w' = static w"
proof -
  obtain status val w1 where q: "stratum_send_request_and_wait J (stratum_build_authorize_request user pass)
      STRATUM_REQUEST_AUTHORIZE 0 p rq w = Some (status, val, w1)"
    using assms by (auto simp: stratum_authorize_def split: option.splits)
  obtain w2 r where a: "lift_session (stratum_apply_authorize_reply J val) p w1 = (w2, r)" by force
  have "static w2 = static w1" using static_authorize_reply [of J val p w1] a by simp
  with assms q a static_request [OF q] show ?thesis
    by (auto simp: stratum_authorize_def stratum_try_extranonce_subscribe_def split: if_splits bool.splits
        dest!: static_request)
qed

lemma static_login:
  assumes "xmr_stratum_login J alloc user pass p rq w = Some (w', ok)"
  shows "static w' = static w"
proof -
  have job: "static (fst (xmr_stratum_handle_job J alloc job p v)) = static v" for job v
    by (simp add: xmr_stratum_handle_job_def static_commits split: option.split)
  have job': "static v' = static v" if "xmr_stratum_handle_job J alloc job p v = (v', b)" for job v v' b
    using job [of job v] that by simp
  from assms show ?thesis
    by (auto simp: xmr_stratum_login_def Let_def static_upd_sctx stratum_set_authenticated_def
        stratum_store_session_id_def stratum_store_next_diff_def split: option.splits if_splits
        dest!: static_request job')
qed

end
