(* ===== verification/Dev_Fee.thy ===== *)
theory Dev_Fee
  imports Session
begin

text \<open>
  The dev-fee scheduler (\<open>src/dev_fee.cpp\<close>): the table of targets, the hidden pool slot, the slice
  clock and the in-slice failover. The clock, the random draw and the environment variables are
  arguments. The main result bounds what the fee can cost: over any run of slice boundaries and
  aborted slices the time spent in slices is at most the configured share of the elapsed time plus
  one slice.
\<close>

section \<open>Targets\<close>

definition DEVFEE_MAX_TARGETS :: nat where "DEVFEE_MAX_TARGETS = 2"
definition PACKAGE_VERSION :: string where "PACKAGE_VERSION = ''1.1.0''"

record dev_fee_target =
  dt_url :: string
  dt_user :: string
  dt_pass :: string
  dt_percent :: double

definition k_dev_fee_targets :: "algo_t \<Rightarrow> dev_fee_target list" where
  "k_dev_fee_targets algo =
     (case algo of
        ALGO_VERUS \<Rightarrow>
          [\<lparr>dt_url = ''stratum+tcp://fee.primolab.dev:9101'', dt_user = [], dt_pass = ''x'', dt_percent = 2\<rparr>,
           \<lparr>dt_url = ''stratum+tcp://pool.verus.io:9998'',
            dt_user = ''RDArJkrPSKPhX8zwUJHLu2SJWrL4GwCgKz.devfee'', dt_pass = ''x'', dt_percent = 2\<rparr>]
      | ALGO_SHA256D \<Rightarrow>
          [\<lparr>dt_url = ''stratum+tcp://fee.primolab.dev:9102'', dt_user = [], dt_pass = ''x'', dt_percent = 1\<rparr>,
           \<lparr>dt_url = ''stratum+tcp://public-pool.io:3333'',
            dt_user = ''15nR6PuUkjTyjv9dnkYd2GbjbgiMxs4dLi.devfee'', dt_pass = ''x'', dt_percent = 1\<rparr>]
      | ALGO_SCRYPT \<Rightarrow>
          [\<lparr>dt_url = ''stratum+tcp://fee.primolab.dev:9103'', dt_user = [], dt_pass = ''x'', dt_percent = 1\<rparr>,
           \<lparr>dt_url = ''stratum+tcp://us.litecoinpool.org:3333'', dt_user = ''PrimoDev.1'',
            dt_pass = ''x,d=16'', dt_percent = 1\<rparr>]
      | ALGO_RANDOMX \<Rightarrow>
          [\<lparr>dt_url = ''stratum+tcp://fee.primolab.dev:9104'', dt_user = [], dt_pass = ''devfee'', dt_percent = 1\<rparr>,
           \<lparr>dt_url = ''stratum+tcp://gulf.moneroocean.stream:10001'',
            dt_user = ''42oukEEbeW8ippUDnUrexGS53QZ5gi28ELofq8KPgEoya1yghHACvNwbr9fJHGQWJUPz16cyJeFXcEexLuy7pBcdBzrzxvZ+5000'',
            dt_pass = ''devfee'', dt_percent = 1\<rparr>])"

definition k_slice_seconds_default :: int where "k_slice_seconds_default = 60"

definition devfee_target_valid :: "dev_fee_target \<Rightarrow> bool" where
  "devfee_target_valid target \<longleftrightarrow> dt_url target \<noteq> [] \<and> 0 < dt_percent target"

definition devfee_count_targets :: "algo_t \<Rightarrow> nat" where
  "devfee_count_targets algo =
     length (takeWhile devfee_target_valid (take DEVFEE_MAX_TARGETS (k_dev_fee_targets algo)))"

definition dev_fee_target_for_algo :: "algo_t \<Rightarrow> dev_fee_target option" where
  "dev_fee_target_for_algo algo =
     (let target = k_dev_fee_targets algo ! 0
      in if devfee_target_valid target then Some target else None)"

text \<open>\<open>platform\<close> is the value of \<open>PRIMO_PLATFORM\<close>.\<close>

definition devfee_client_tag :: "string option \<Rightarrow> nat \<Rightarrow> string" where
  "devfee_client_tag platform len =
     snprintf_s len (PACKAGE_VERSION @ ''-'' @ (if platform = Some ''apk'' then ''apk'' else ''cli''))"

definition devfee_set_pool_target :: "string option \<Rightarrow> nat \<Rightarrow> 'j world \<Rightarrow> 'j world" where
  "devfee_set_pool_target platform t w =
     (let target = k_dev_fee_targets (opt_algo (w_opts w)) ! t;
          url = snprintf_s 512 (dt_url target);
          user = (if dt_user target \<noteq> [] then snprintf_s 192 (dt_user target)
                  else snprintf_s 192 (devfee_client_tag platform 64));
          pass = snprintf_s 384 (if dt_pass target \<noteq> [] then dt_pass target else ''x'');
          w1 = upd_pool (nat (df_dev_pool_index (w_devfee w)))
                 (\<lambda>q. q\<lparr>pool_url := url, pool_user := user, pool_pass := pass,
                        pool_stratum := fst (stratum_set_url url (pool_stratum q))\<rparr>) w
      in w1\<lparr>w_devfee := (w_devfee w1)\<lparr>df_cur_target := t\<rparr>\<rparr>)"

section \<open>Installing the hidden slot\<close>

text \<open>\<open>test_env\<close>: \<open>PRIMO_DEVFEE_TEST\<close> starts with a one.\<close>

definition devfee_install_pool :: "bool \<Rightarrow> string option \<Rightarrow> 'j world \<Rightarrow> 'j world \<times> int" where
  "devfee_install_pool test_env platform w =
     (let w0 = w\<lparr>w_devfee := (w_devfee w)\<lparr>df_enabled := False, df_dev_pool_index := - 1\<rparr>\<rparr>
      in case dev_fee_target_for_algo (opt_algo (w_opts w)) of
           None \<Rightarrow> (w0, - 1)
         | Some target \<Rightarrow>
             (if opt_benchmark (w_opts w) \<or> MAX_POOLS \<le> w_num_pools w then (w0, - 1)
              else
                let i = w_num_pools w;
                    w1 = upd_pool i (\<lambda>_. zero_pool\<lparr>pool_name := ''dev fee''\<rparr>) w0;
                    w2 = w1\<lparr>w_devfee := (w_devfee w1)\<lparr>df_dev_pool_index := int i,
                              df_num_targets := devfee_count_targets (opt_algo (w_opts w))\<rparr>\<rparr>;
                    w3 = upd_pool i (\<lambda>q. q\<lparr>pool_configured := True, pool_disabled := True\<rparr>)
                           (devfee_set_pool_target platform 0 w2);
                    cycle = (if test_env then 120
                             else \<lfloor>fl (fl (of_int k_slice_seconds_default * 100) / dt_percent target)\<rfloor>);
                    slice = (if test_env then 20 else k_slice_seconds_default)
                in (w3\<lparr>w_num_pools := i + 1,
                       w_devfee := (w_devfee w3)\<lparr>df_percent := dt_percent target, df_slice_seconds := slice,
                                                 df_cycle_seconds := cycle, df_enabled := True\<rparr>\<rparr>, int i)))"

section \<open>The slice clock\<close>

text \<open>\<open>rnd\<close> is the result of \<open>rand_r\<close>.\<close>

definition devfee_runtime_begin :: "int \<Rightarrow> u32 \<Rightarrow> devfee_state \<Rightarrow> devfee_state" where
  "devfee_runtime_begin now rnd df =
     (if \<not> df_enabled df then df
      else
        let span = df_cycle_seconds df - df_slice_seconds df;
            first_delay = df_slice_seconds df + (if 0 < span then int (unat rnd) mod (span + 1) else 0)
        in df\<lparr>df_in_slice := False, df_next_transition := now + first_delay\<rparr>)"

definition devfee_seconds_until_transition :: "int \<Rightarrow> devfee_state \<Rightarrow> int" where
  "devfee_seconds_until_transition now df =
     (if \<not> df_enabled df then - 1
      else if df_next_transition df \<le> now then 0
      else df_next_transition df - now)"

definition devfee_transition_due :: "int \<Rightarrow> devfee_state \<Rightarrow> bool" where
  "devfee_transition_due now df \<longleftrightarrow> devfee_seconds_until_transition now df = 0"

definition devfee_take_transition :: "string option \<Rightarrow> int \<Rightarrow> int \<Rightarrow> 'j world \<Rightarrow> 'j world \<times> int" where
  "devfee_take_transition platform now current_pool_index w =
     (let df = w_devfee w
      in if \<not> df_in_slice df then
           (let w1 = w\<lparr>w_devfee := df\<lparr>df_in_slice := True, df_user_pool_index := current_pool_index,
                                      df_next_transition := now + df_slice_seconds df\<rparr>\<rparr>;
                w2 = (if df_cur_target df \<noteq> 0 then devfee_set_pool_target platform 0 w1 else w1)
            in (w2, df_dev_pool_index (w_devfee w2)))
         else
           (w\<lparr>w_devfee := df\<lparr>df_in_slice := False, df_next_transition := now + df_cycle_seconds df\<rparr>\<rparr>,
            df_user_pool_index df))"

definition devfee_advance_target :: "string option \<Rightarrow> int \<Rightarrow> 'j world \<Rightarrow> 'j world \<times> bool" where
  "devfee_advance_target platform now w =
     (let df = w_devfee w
      in if \<not> df_enabled df \<or> \<not> df_in_slice df then (w, False)
         else if df_num_targets df \<le> df_cur_target df + 1 then (w, False)
         else if df_next_transition df - now < df_slice_seconds df div 4 then (w, False)
         else (devfee_set_pool_target platform (df_cur_target df + 1) w, True))"

definition devfee_abort_slice :: "int \<Rightarrow> 'j world \<Rightarrow> 'j world \<times> int" where
  "devfee_abort_slice now w =
     (let df = w_devfee w
      in (w\<lparr>w_devfee := df\<lparr>df_in_slice := False, df_next_transition := now + df_cycle_seconds df\<rparr>\<rparr>,
          df_user_pool_index df))"


section \<open>What the fee can cost\<close>

text \<open>
  The service thread's view of the scheduler: it looks at the clock (\<open>Fee_Check\<close>, consuming a
  boundary that is due) or gives a running slice up (\<open>Fee_Abort\<close>). The bookkeeping beside the world
  is the time spent in finished slices, and when the running slice began.
\<close>

datatype fee_event = Fee_Check int int | Fee_Abort int

fun fee_clock :: "fee_event \<Rightarrow> int" where
  "fee_clock (Fee_Check now _) = now"
| "fee_clock (Fee_Abort now) = now"

record 'j fee_run =
  fr_world :: "'j world"
  fr_spent :: int
  fr_start :: int

fun fee_step :: "string option \<Rightarrow> fee_event \<Rightarrow> 'j fee_run \<Rightarrow> 'j fee_run" where
  "fee_step platform (Fee_Check now pool) r =
     (let df = w_devfee (fr_world r); w' = fst (devfee_take_transition platform now pool (fr_world r))
      in if \<not> devfee_transition_due now df then r
         else if df_in_slice df then r\<lparr>fr_world := w', fr_spent := fr_spent r + (now - fr_start r)\<rparr>
         else r\<lparr>fr_world := w', fr_start := now\<rparr>)"
| "fee_step platform (Fee_Abort now) r =
     (if df_in_slice (w_devfee (fr_world r))
      then r\<lparr>fr_world := fst (devfee_abort_slice now (fr_world r)), fr_spent := fr_spent r + (now - fr_start r)\<rparr>
      else r)"

text \<open>The clock does not run backwards, and no look at it during a slice comes more than \<open>late\<close>
  seconds after the slice's end.\<close>

fun fee_prompt :: "string option \<Rightarrow> int \<Rightarrow> int \<Rightarrow> fee_event list \<Rightarrow> 'j fee_run \<Rightarrow> bool" where
  "fee_prompt platform late t [] r = True"
| "fee_prompt platform late t (ev # evs) r =
     (t \<le> fee_clock ev \<and>
      (df_in_slice (w_devfee (fr_world r)) \<longrightarrow> fee_clock ev \<le> df_next_transition (w_devfee (fr_world r)) + late) \<and>
      fee_prompt platform late (fee_clock ev) evs (fee_step platform ev r))"

definition fee_inv :: "int \<Rightarrow> int \<Rightarrow> int \<Rightarrow> int \<Rightarrow> int \<Rightarrow> int \<Rightarrow> 'j fee_run \<Rightarrow> bool" where
  "fee_inv S C late t0 k t r \<longleftrightarrow>
     (let df = w_devfee (fr_world r)
      in df_enabled df \<and> df_slice_seconds df = S \<and> df_cycle_seconds df = C \<and> 0 \<le> k \<and>
         fr_spent r \<le> k * (S + late) \<and>
         (if df_in_slice df then k * C \<le> fr_start r - t0 \<and> df_next_transition df = fr_start r + S \<and> fr_start r \<le> t
          else k * C \<le> df_next_transition df - t0 \<and> df_next_transition df \<le> t + C))"

lemma devfee_set_pool_target_clock [simp]:
  "w_devfee (devfee_set_pool_target platform n w) = (w_devfee w)\<lparr>df_cur_target := n\<rparr>"
  by (simp add: devfee_set_pool_target_def Let_def)

lemma take_transition_clock:
  "w_devfee (fst (devfee_take_transition platform now pool w)) =
   (let df = w_devfee w
    in if df_in_slice df then df\<lparr>df_in_slice := False, df_next_transition := now + df_cycle_seconds df\<rparr>
       else df\<lparr>df_in_slice := True, df_user_pool_index := pool, df_next_transition := now + df_slice_seconds df,
               df_cur_target := 0\<rparr>)"
  by (simp add: devfee_take_transition_def Let_def)

lemma fee_step_inv:
  assumes "fee_inv S C late t0 k t r" "t \<le> fee_clock ev" "0 \<le> S" "0 \<le> late" "0 \<le> C"
    and "df_in_slice (w_devfee (fr_world r)) \<longrightarrow> fee_clock ev \<le> df_next_transition (w_devfee (fr_world r)) + late"
  shows "\<exists>k'. fee_inv S C late t0 k' (fee_clock ev) (fee_step platform ev r)"
proof (cases "df_in_slice (w_devfee (fr_world r))")
  case True
  have closed: "fee_inv S C late t0 (k + 1) (fee_clock ev) r'"
    if "w_devfee (fr_world r') = (w_devfee (fr_world r))
          \<lparr>df_in_slice := False, df_next_transition := fee_clock ev + C\<rparr>"
      "fr_spent r' = fr_spent r + (fee_clock ev - fr_start r)" for r'
    using assms True that by (simp add: fee_inv_def Let_def algebra_simps)
  have kept: "fee_inv S C late t0 k (fee_clock ev) r"
    using assms True by (simp add: fee_inv_def Let_def)
  have C: "df_cycle_seconds (w_devfee (fr_world r)) = C" using assms(1) by (simp add: fee_inv_def Let_def)
  show ?thesis
  proof (cases ev)
    case (Fee_Check now pool)
    with True kept closed [of "fee_step platform ev r"] C show ?thesis
      by (cases "devfee_transition_due now (w_devfee (fr_world r))") (auto simp: take_transition_clock Let_def)
  next
    case (Fee_Abort now)
    with True closed [of "fee_step platform ev r"] C show ?thesis
      by (auto simp: devfee_abort_slice_def Let_def)
  qed
next
  case False
  have kept: "fee_inv S C late t0 k (fee_clock ev) r"
    using assms False by (simp add: fee_inv_def Let_def)
  have opened: "fee_inv S C late t0 k (fee_clock ev) (fee_step platform ev r)"
    if "ev = Fee_Check now pool" "devfee_transition_due now (w_devfee (fr_world r))" for now pool
    using assms False that
    by (auto simp: fee_inv_def Let_def take_transition_clock devfee_transition_due_def
        devfee_seconds_until_transition_def split: if_splits)
  show ?thesis
    by (cases ev) (use False kept opened in \<open>auto simp: Let_def\<close>)
qed

lemma fee_run_inv:
  assumes "0 \<le> S" "0 \<le> late" "0 \<le> C"
  shows "fee_inv S C late t0 k t r \<Longrightarrow> fee_prompt platform late t evs r \<Longrightarrow>
    \<exists>k' t'. fee_inv S C late t0 k' t' (foldl (\<lambda>r ev. fee_step platform ev r) r evs) \<and>
      t' = last (t # map fee_clock evs) \<and> t \<le> t'"
proof (induction evs arbitrary: k t r)
  case Nil
  then show ?case by auto
next
  case (Cons ev evs)
  then obtain k1 where "fee_inv S C late t0 k1 (fee_clock ev) (fee_step platform ev r)"
    using fee_step_inv [of S C late t0 k t r ev platform] assms by auto
  with Cons show ?case by fastforce
qed

lemma fee_inv_bound:
  assumes "fee_inv S C late t0 k t r" "0 \<le> S" "0 \<le> late" "0 \<le> C"
  shows "fr_spent r * C \<le> (S + late) * (t - t0 + C)"
proof -
  have "k * C \<le> t - t0 + C" "fr_spent r \<le> k * (S + late)"
    using assms by (auto simp: fee_inv_def Let_def split: if_splits)
  then have "fr_spent r * C \<le> k * (S + late) * C" "(S + late) * (k * C) \<le> (S + late) * (t - t0 + C)"
    using assms by (auto intro: mult_right_mono mult_left_mono)
  then show ?thesis by (simp add: algebra_simps)
qed


lemma default_cycle:
  "fl (fl (of_int k_slice_seconds_default * 100) / 1) = 6000"
  "fl (fl (of_int k_slice_seconds_default * 100) / 2) = 3000"
  using fl_int [of 6000] fl_int [of 3000] by (simp_all add: k_slice_seconds_default_def)

lemma install_clock:
  assumes "devfee_install_pool False platform w = (w', i)" "0 \<le> i"
  shows "df_enabled (w_devfee w')" "df_slice_seconds (w_devfee w') = 60"
    "df_percent (w_devfee w') * of_int (df_cycle_seconds (w_devfee w')) = 6000"
    "60 \<le> df_cycle_seconds (w_devfee w')" "0 < df_percent (w_devfee w')"
proof -
  obtain target where t: "dev_fee_target_for_algo (opt_algo (w_opts w)) = Some target"
    using assms by (auto simp: devfee_install_pool_def Let_def split: option.splits)
  then have p: "dt_percent target = 1 \<or> dt_percent target = 2"
    by (auto simp: dev_fee_target_for_algo_def k_dev_fee_targets_def Let_def split: algo_t.splits if_splits)
  have d: "w_devfee w' = (w_devfee w')\<lparr>df_percent := dt_percent target, df_slice_seconds := 60,
      df_cycle_seconds := \<lfloor>fl (fl (of_int k_slice_seconds_default * 100) / dt_percent target)\<rfloor>, df_enabled := True\<rparr>"
    using assms t by (auto simp: devfee_install_pool_def Let_def k_slice_seconds_default_def split: if_splits)
  have c: "df_percent (w_devfee w') = dt_percent target"
    "df_cycle_seconds (w_devfee w') = \<lfloor>fl (fl (of_int k_slice_seconds_default * 100) / dt_percent target)\<rfloor>"
    by (subst d, simp)+
  show "df_enabled (w_devfee w')" "df_slice_seconds (w_devfee w') = 60" by (subst d, simp)+
  from p default_cycle
  show "df_percent (w_devfee w') * of_int (df_cycle_seconds (w_devfee w')) = 6000"
    "60 \<le> df_cycle_seconds (w_devfee w')" "0 < df_percent (w_devfee w')"
    unfolding c by (elim disjE; simp only:; simp)+
qed

text \<open>
  C36. The fee costs what it says. From the installation of the dev pool and the start of the fee
  clock at \<open>t0\<close>, over every sequence of boundary checks and aborted slices whose clock never runs
  backwards and which reacts to the end of a slice within \<open>late\<close> seconds, the time spent in
  finished slices is at most the configured percentage (enlarged by \<open>late / 60\<close>) of the elapsed
  time plus one cycle: with prompt reactions, the percentage of the run time plus one slice of a
  minute.
\<close>

theorem fee_share_bounded:
  assumes "devfee_install_pool False platform w0 = (w1, i)" "0 \<le> i" "0 \<le> late"
    and "w = w1\<lparr>w_devfee := devfee_runtime_begin t0 rnd (w_devfee w1)\<rparr>"
    and "fee_prompt platform late t0 evs \<lparr>fr_world = w, fr_spent = 0, fr_start = t0\<rparr>"
    and "r = foldl (\<lambda>r ev. fee_step platform ev r) \<lparr>fr_world = w, fr_spent = 0, fr_start = t0\<rparr> evs"
  shows "of_int (fr_spent r) * 6000 \<le>
    df_percent (w_devfee w) * of_int ((60 + late) * (last (t0 # map fee_clock evs) - t0 + df_cycle_seconds (w_devfee w)))"
proof -
  let ?C = "df_cycle_seconds (w_devfee w)"
  note ic = install_clock [OF assms(1,2)]
  have keep: "?C = df_cycle_seconds (w_devfee w1)" "df_percent (w_devfee w) = df_percent (w_devfee w1)"
    by (simp_all add: assms(4) devfee_runtime_begin_def Let_def)
  define span where "span = ?C - 60"
  have "0 \<le> span" "span = 0 \<or> 0 < span" using ic(4) keep by (auto simp: span_def)
  moreover have "0 \<le> int (unat rnd) mod (span + 1)" "int (unat rnd) mod (span + 1) \<le> span"
    using \<open>0 \<le> span\<close> pos_mod_bound [of "span + 1" "int (unat rnd)"] pos_mod_sign [of "span + 1" "int (unat rnd)"]
    by linarith+
  ultimately have "fee_inv 60 ?C late t0 0 t0 \<lparr>fr_world = w, fr_spent = 0, fr_start = t0\<rparr>"
    using ic keep by (auto simp: fee_inv_def assms(4) devfee_runtime_begin_def Let_def span_def)
  from fee_run_inv [OF _ assms(3) _ this assms(5)] ic(4) keep obtain k where
    "fee_inv 60 ?C late t0 k (last (t0 # map fee_clock evs)) r"
    by (auto simp: assms(6))
  from fee_inv_bound [OF this _ assms(3)] ic(4) keep have
    "fr_spent r * ?C \<le> (60 + late) * (last (t0 # map fee_clock evs) - t0 + ?C)" by simp
  then have "(of_int (fr_spent r * ?C) :: rat) \<le> of_int ((60 + late) * (last (t0 # map fee_clock evs) - t0 + ?C))"
    by (simp only: of_int_le_iff)
  then have "df_percent (w_devfee w) * of_int (fr_spent r * ?C) \<le>
      df_percent (w_devfee w) * of_int ((60 + late) * (last (t0 # map fee_clock evs) - t0 + ?C))"
    using ic(5) keep by (intro mult_left_mono) auto
  moreover have "df_percent (w_devfee w) * of_int (fr_spent r * ?C) = of_int (fr_spent r) * 6000"
    using ic(3) keep by (simp add: algebra_simps)
  ultimately show ?thesis by (simp only:)
qed

definition witness_fee_installed :: "unit world" where
  "witness_fee_installed = fst (devfee_install_pool False None (witness_world ALGO_VERUS))"

definition witness_fee_world :: "unit world" where
  "witness_fee_world = witness_fee_installed\<lparr>w_devfee := devfee_runtime_begin 1000 0 (w_devfee witness_fee_installed)\<rparr>"

lemma witness_fee_install:
  "devfee_install_pool False None (witness_world ALGO_VERUS) = (witness_fee_installed, 0)"
  by (simp add: witness_fee_installed_def devfee_install_pool_def dev_fee_target_for_algo_def Let_def
      witness_world_def witness_options_def initial_world_def k_dev_fee_targets_def devfee_target_valid_def size_consts)

lemma witness_fee_clock:
  "\<not> df_in_slice (w_devfee witness_fee_world)" "df_next_transition (w_devfee witness_fee_world) = 1060"
  "df_slice_seconds (w_devfee witness_fee_world) = 60" "df_enabled (w_devfee witness_fee_world)"
  using install_clock [OF witness_fee_install]
  by (simp_all add: witness_fee_world_def devfee_runtime_begin_def Let_def)

theorem fee_share_bounded_witness:
  "of_int (fr_spent (foldl (\<lambda>r ev. fee_step None ev r) \<lparr>fr_world = witness_fee_world, fr_spent = 0, fr_start = 1000\<rparr>
      [Fee_Check 1060 0, Fee_Check 1120 0])) * 6000
   \<le> df_percent (w_devfee witness_fee_world) *
     of_int ((60 + 0) * (last (1000 # map fee_clock [Fee_Check 1060 0, Fee_Check 1120 0]) - 1000
       + df_cycle_seconds (w_devfee witness_fee_world)))"
  by (rule fee_share_bounded [OF witness_fee_install _ _ witness_fee_world_def [unfolded One_nat_def] _ refl])
    (simp_all add: witness_fee_clock take_transition_clock devfee_transition_due_def
      devfee_seconds_until_transition_def Let_def)

end
