(* ===== verification/Service.thy ===== *)
theory Service
  imports Frames Dev_Fee
begin

text \<open>
  The stratum service thread (first half of \<open>src/stratum_session.cpp\<close>): opening a pool connection,
  the message loop, failover between pools, the retry limit and the dev-fee slices. Another thread's
  abort request, the clocks and the kernel's answers are given per iteration. The main result is an
  invariant of the whole thread: the current pool is the one it works on and every session stays
  well-formed. \<open>Failover\<close> has the results on failover and retries.
\<close>

section \<open>Failover\<close>

definition stratum_find_next_pool_index :: "'j world \<Rightarrow> int \<Rightarrow> int" where
  "stratum_find_next_pool_index w current_pool_index =
     (if w_num_pools w \<le> 1 then current_pool_index
      else case find (miner_pool_is_usable w)
                  (map (\<lambda>offset. (current_pool_index + int offset) mod int (w_num_pools w)) [1..<w_num_pools w]) of
             None \<Rightarrow> current_pool_index
           | Some candidate \<Rightarrow> candidate)"

definition stratum_thread_active_store :: "bool \<Rightarrow> nat \<Rightarrow> 'j world \<Rightarrow> 'j world" where
  "stratum_thread_active_store active p = upd_sctx p (\<lambda>s. s\<lparr>sctx_thread_active := active\<rparr>)"

text \<open>The pool the thread works on afterwards, and whether it switched.\<close>

definition stratum_switch_to_pool :: "int \<Rightarrow> nat \<Rightarrow> 'j world \<Rightarrow> 'j world \<times> nat \<times> bool" where
  "stratum_switch_to_pool next_pool_index p w =
     (if next_pool_index < 0 \<or> int (w_num_pools w) \<le> next_pool_index \<or>
         next_pool_index = sctx_pooln (sctx_at w p) then (w, p, False)
      else
        let p' = nat next_pool_index
        in (miner_set_current_pool_index next_pool_index
              (stratum_thread_active_store True p' (stratum_thread_active_store False p w)), p', True))"

record 'j service =
  sv_world :: "'j world"
  sv_pool :: nat
  sv_retry_count :: int
  sv_cycle_start :: int

definition stratum_reset_retry_cycle :: "'j service \<Rightarrow> 'j service" where
  "stratum_reset_retry_cycle sv =
     sv\<lparr>sv_retry_count := 0, sv_cycle_start := sctx_pooln (sctx_at (sv_world sv) (sv_pool sv))\<rparr>"

text \<open>\<open>aborted\<close>: another thread requests an abort during the pause.\<close>

definition stratum_wait_before_retry :: "bool \<Rightarrow> int \<Rightarrow> 'j world \<Rightarrow> 'j world \<times> bool" where
  "stratum_wait_before_retry aborted retry_count w =
     (if 0 \<le> opt_retries (w_opts w) \<and> opt_retries (w_opts w) < retry_count then (miner_request_abort w, False)
      else
        let w1 = (if aborted then miner_request_abort w else w)
        in (w1, \<not> miner_should_abort w1))"

definition stratum_take_reconnect_request :: "nat \<Rightarrow> 'j world \<Rightarrow> 'j world \<times> bool" where
  "stratum_take_reconnect_request p w =
     (upd_sctx p (\<lambda>s. s\<lparr>sctx_reconnect_requested := False\<rparr>) w, sctx_reconnect_requested (sctx_at w p))"

definition stratum_handle_disconnected_session :: "bool \<Rightarrow> 'j service \<Rightarrow> 'j service \<times> bool" where
  "stratum_handle_disconnected_session aborted sv =
     (let p = sv_pool sv;
          current_pool_index = sctx_pooln (sctx_at (sv_world sv) p);
          next_pool_index = stratum_find_next_pool_index (sv_world sv) current_pool_index;
          next_pool_available = (next_pool_index \<noteq> current_pool_index);
          wrapped_retry_cycle = (next_pool_available \<and> next_pool_index = sv_cycle_start sv);
          w1 = stratum_disconnect p (sv_world sv)
      in if miner_should_abort w1 then (sv\<lparr>sv_world := w1\<rparr>, False)
         else case stratum_take_reconnect_request p w1 of
                (w2, True) \<Rightarrow> (stratum_reset_retry_cycle (sv\<lparr>sv_world := w2\<rparr>), True)
              | (w2, False) \<Rightarrow>
                  (if next_pool_available \<and> \<not> wrapped_retry_cycle then
                     (case stratum_switch_to_pool next_pool_index p w2 of
                        (w3, p3, switched) \<Rightarrow> (sv\<lparr>sv_world := w3, sv_pool := p3\<rparr>, switched))
                   else
                     let retry_count = sv_retry_count sv + 1
                     in case stratum_wait_before_retry aborted retry_count w2 of
                          (w3, False) \<Rightarrow> (sv\<lparr>sv_world := w3, sv_retry_count := retry_count\<rparr>, False)
                        | (w3, True) \<Rightarrow>
                            (case (if next_pool_available then stratum_switch_to_pool next_pool_index p w3
                                   else (w3, p, True)) of
                               (w4, p4, False) \<Rightarrow>
                                 (sv\<lparr>sv_world := w4, sv_pool := p4, sv_retry_count := retry_count\<rparr>, False)
                             | (w4, p4, True) \<Rightarrow>
                                 (sv\<lparr>sv_world := w4, sv_pool := p4, sv_retry_count := retry_count,
                                     sv_cycle_start := sctx_pooln (sctx_at w4 p4)\<rparr>, True))))"

section \<open>Opening a connection\<close>

record 'j open_env =
  oe_curl :: curl_env
  oe_alloc :: bool
  oe_login :: "'j request_env"
  oe_subscribe :: "'j request_env"
  oe_resubscribe :: "'j request_env"
  oe_authorize :: "'j request_env"
  oe_extranonce :: "'j request_env"

definition ensure_pool_url :: "nat \<Rightarrow> 'j world \<Rightarrow> 'j world \<times> bool" where
  "ensure_pool_url p w =
     (if sctx_url (sctx_at w p) = None \<or> sctx_url (sctx_at w p) = Some []
      then lift_session (stratum_set_url (pool_url (pool_at w p))) p w else (w, True))"

text \<open>\<open>None\<close>: a handshake step is still waiting.\<close>

definition stratum_open_pool_connection ::
  "'j jansson \<Rightarrow> 'j open_env \<Rightarrow> nat \<Rightarrow> 'j world \<Rightarrow> ('j world \<times> bool) option" where
  "stratum_open_pool_connection J oe p w =
     (case ensure_pool_url p w of
        (w0, False) \<Rightarrow> Some (w0, False)
      | (w0, True) \<Rightarrow>
          (case lift_session (stratum_connect (oe_curl oe)) p w0 of
             (w1, False) \<Rightarrow> Some (w1, False)
           | (w1, True) \<Rightarrow>
               (let user = pool_user (pool_at w1 p); pass = pool_pass (pool_at w1 p)
                in if opt_algo (w_opts w1) = ALGO_RANDOMX then
                     (case xmr_stratum_login J (oe_alloc oe) user pass p (oe_login oe) w1 of
                        None \<Rightarrow> None
                      | Some (w2, False) \<Rightarrow> Some (stratum_disconnect p w2, False)
                      | Some (w2, True) \<Rightarrow> Some (w2, True))
                   else
                     case stratum_subscribe J p (oe_subscribe oe) (oe_resubscribe oe) w1 of
                       None \<Rightarrow> None
                     | Some (w2, False) \<Rightarrow> Some (stratum_disconnect p w2, False)
                     | Some (w2, True) \<Rightarrow>
                         (case stratum_authorize J (pool_user (pool_at w2 p)) (pool_pass (pool_at w2 p)) p
                                 (oe_authorize oe) (oe_extranonce oe) w2 of
                            None \<Rightarrow> None
                          | Some (w3, False) \<Rightarrow> Some (stratum_disconnect p w3, False)
                          | Some (w3, True) \<Rightarrow> Some (w3, True)))))"

section \<open>The message loop\<close>

definition STRATUM_IDLE_KEEPALIVE_SEC :: int where "STRATUM_IDLE_KEEPALIVE_SEC = 60"

text \<open>
  One iteration: an abort by another thread, the clock at the slice check, at the deadline, at the
  receive call, at the idle check and after a line, the kernel's answers, whether a keepalive was
  sent, and the environment of the handler.
\<close>

record 'j loop_event =
  le_abort :: bool
  le_due_now :: int
  le_deadline_now :: int
  le_recv_now :: int
  le_recv :: "recv_event list"
  le_idle_now :: int
  le_sent :: bool
  le_line_now :: int
  le_env :: "'j rpc_env"

text \<open>The bound on the receive call: the timeout, and whether the keepalive or the slice bounds it.\<close>

definition receive_bound :: "int \<Rightarrow> nat \<Rightarrow> 'j world \<Rightarrow> int \<times> bool \<times> bool" where
  "receive_bound now p w =
     (let t0 = miner_get_pool_timeout w (sctx_pooln (sctx_at w p));
          keepalive_bounded = (stratum_get_protocol_ops w p = Xmr_Ops \<and> STRATUM_IDLE_KEEPALIVE_SEC < t0);
          t1 = (if keepalive_bounded then STRATUM_IDLE_KEEPALIVE_SEC else t0);
          devfee_deadline = devfee_seconds_until_transition now (w_devfee w);
          devfee_bounded = (0 \<le> devfee_deadline \<and> devfee_deadline < t1);
          t2 = (if devfee_bounded then (if 0 < devfee_deadline then devfee_deadline else 1) else t1)
      in (t2, keepalive_bounded, devfee_bounded))"

fun message_loop :: "nat \<Rightarrow> int \<Rightarrow> 'j loop_event list \<Rightarrow> 'j world \<Rightarrow> 'j world option" where
  "message_loop p last_line_at [] w =
     (if miner_should_abort w \<or> sctx_reconnect_requested (sctx_at w p) then Some w else None)"
| "message_loop p last_line_at (ev # rest) w0 =
     (let w = (if le_abort ev then miner_request_abort w0 else w0)
      in if miner_should_abort w \<or> sctx_reconnect_requested (sctx_at w p) \<or>
            devfee_transition_due (le_due_now ev) (w_devfee w) then Some w
         else case receive_bound (le_deadline_now ev) p w of
                (receive_timeout, keepalive_bounded, devfee_bounded) \<Rightarrow>
           (case stratum_recv_line_timeout (le_recv_now ev) receive_timeout (le_recv ev) (sctx_at w p) of
              None \<Rightarrow> None
            | Some (res, sctx', _) \<Rightarrow>
                (let w1 = upd_sctx p (\<lambda>_. sctx') w
                 in case res of
                      Line line \<Rightarrow>
                        (case stratum_handle_message (le_env ev) line p w1 of
                           (w2, False) \<Rightarrow> Some w2
                         | (w2, True) \<Rightarrow> message_loop p (le_line_now ev) rest w2)
                    | Recv_Failed \<Rightarrow> Some w1
                    | Timed_Out \<Rightarrow>
                        (if devfee_bounded then message_loop p last_line_at rest w1
                         else if keepalive_bounded \<and>
                                 le_idle_now ev - last_line_at < miner_get_pool_timeout w1 (sctx_pooln (sctx_at w1 p))
                         then (case xmr_stratum_keepalive (le_sent ev) p w1 of
                                 (w2, True) \<Rightarrow> message_loop p last_line_at rest w2
                               | (w2, False) \<Rightarrow> Some w2)
                         else Some w1))))"

definition stratum_run_message_loop :: "int \<Rightarrow> nat \<Rightarrow> 'j loop_event list \<Rightarrow> 'j world \<Rightarrow> 'j world option" where
  "stratum_run_message_loop now p events w = message_loop p now events w"

section \<open>The thread\<close>

record 'j service_env =
  se_abort :: bool
  se_open :: "'j open_env"
  se_loop_now :: int
  se_loop :: "'j loop_event list"
  se_after_abort :: bool
  se_fee_now :: int
  se_pause_abort :: bool

text \<open>Leaving the dev pool: its next target in place, or the slice is given up.\<close>

definition leave_dev_pool :: "string option \<Rightarrow> int \<Rightarrow> 'j service \<Rightarrow> 'j service" where
  "leave_dev_pool platform now sv =
     (case devfee_advance_target platform now (sv_world sv) of
        (w1, True) \<Rightarrow> sv\<lparr>sv_world := stratum_disconnect (sv_pool sv) w1\<rparr>
      | (w1, False) \<Rightarrow>
          (case devfee_abort_slice now w1 of
             (w2, user_pool) \<Rightarrow>
               (case stratum_switch_to_pool user_pool (sv_pool sv) (stratum_disconnect (sv_pool sv) w2) of
                  (w3, p3, _) \<Rightarrow> sv\<lparr>sv_world := w3, sv_pool := p3\<rparr>)))"

text \<open>One iteration of the thread's loop after its abort check, and whether the loop goes on.\<close>

definition service_iteration ::
  "'j jansson \<Rightarrow> string option \<Rightarrow> 'j service_env \<Rightarrow> 'j service \<Rightarrow> ('j service \<times> bool) option" where
  "service_iteration J platform env sv =
     (case stratum_open_pool_connection J (se_open env) (sv_pool sv) (sv_world sv) of
        None \<Rightarrow> None
      | Some (w1, False) \<Rightarrow>
          (let sv1 = sv\<lparr>sv_world := w1\<rparr>
           in if devfee_is_dev_pool w1 (sctx_pooln (sctx_at w1 (sv_pool sv)))
              then Some (leave_dev_pool platform (se_fee_now env) sv1, True)
              else Some (stratum_handle_disconnected_session (se_pause_abort env) sv1))
      | Some (w1, True) \<Rightarrow>
          (let sv1 = stratum_reset_retry_cycle (sv\<lparr>sv_world := w1\<rparr>)
           in case stratum_run_message_loop (se_loop_now env) (sv_pool sv) (se_loop env) w1 of
                None \<Rightarrow> None
              | Some w2' \<Rightarrow>
                  (let w2 = (if se_after_abort env then miner_request_abort w2' else w2');
                       sv2 = sv1\<lparr>sv_world := w2\<rparr>;
                       sctx = sctx_at w2 (sv_pool sv)
                   in if devfee_transition_due (se_fee_now env) (w_devfee w2) \<and> \<not> miner_should_abort w2 \<and>
                         \<not> sctx_reconnect_requested sctx then
                        (case devfee_take_transition platform (se_fee_now env) (sctx_pooln sctx) w2 of
                           (w3, target) \<Rightarrow>
                             (case stratum_switch_to_pool target (sv_pool sv) (stratum_disconnect (sv_pool sv) w3) of
                                (w4, p4, _) \<Rightarrow> Some (sv2\<lparr>sv_world := w4, sv_pool := p4\<rparr>, True)))
                      else if devfee_is_dev_pool w2 (sctx_pooln sctx) \<and> \<not> miner_should_abort w2
                      then Some (leave_dev_pool platform (se_fee_now env) sv2, True)
                      else Some (stratum_handle_disconnected_session (se_pause_abort env) sv2))))"

text \<open>The thread over a list of iterations, and whether it has ended.\<close>

fun service_loop ::
  "'j jansson \<Rightarrow> string option \<Rightarrow> 'j service_env list \<Rightarrow> 'j service \<Rightarrow> ('j service \<times> bool) option" where
  "service_loop J platform [] sv = Some (sv, miner_should_abort (sv_world sv))"
| "service_loop J platform (env # rest) sv =
     (let w = (if se_abort env then miner_request_abort (sv_world sv) else sv_world sv)
      in if miner_should_abort w then Some (sv\<lparr>sv_world := w\<rparr>, True)
         else case service_iteration J platform env (sv\<lparr>sv_world := w\<rparr>) of
                None \<Rightarrow> None
              | Some (sv1, False) \<Rightarrow> Some (sv1, True)
              | Some (sv1, True) \<Rightarrow> service_loop J platform rest sv1)"

definition stratum_service_thread ::
  "'j jansson \<Rightarrow> string option \<Rightarrow> 'j service_env list \<Rightarrow> nat \<Rightarrow> 'j world \<Rightarrow> ('j service \<times> bool) option" where
  "stratum_service_thread J platform envs p w =
     (case service_loop J platform envs
             \<lparr>sv_world = w, sv_pool = p, sv_retry_count = 0, sv_cycle_start = sctx_pooln (sctx_at w p)\<rparr> of
        None \<Rightarrow> None
      | Some (sv, ended) \<Rightarrow>
          Some (if ended then sv\<lparr>sv_world := stratum_thread_active_store False (sv_pool sv) (sv_world sv)\<rparr> else sv,
                ended))"

text \<open>\<open>g_service_thread_created\<close> is the first component; \<open>created\<close>: \<open>pthread_create\<close> succeeds.\<close>

definition stratum_start_service :: "bool \<Rightarrow> nat \<Rightarrow> bool \<times> 'j world \<Rightarrow> (bool \<times> 'j world) \<times> bool" where
  "stratum_start_service created p st =
     (case st of (g_service_thread_created, w) \<Rightarrow>
        if g_service_thread_created \<or> sctx_thread_active (sctx_at w p) then (st, True)
        else if \<not> created then (st, False)
        else ((True, stratum_thread_active_store True p w), True))"

definition stratum_join_service_thread :: "bool \<times> 'j world \<Rightarrow> bool \<times> 'j world" where
  "stratum_join_service_thread st = (False, snd st)"

text \<open>The world as the waiting thread sees it each second; the result and the samples left.\<close>

fun wait_ready_loop ::
  "int \<Rightarrow> int \<Rightarrow> int \<Rightarrow> bool \<Rightarrow> 'j world list \<Rightarrow> (bool \<times> 'j world list) option" where
  "wait_ready_loop timeout_seconds waited last_pool_index work_ready [] = None"
| "wait_ready_loop timeout_seconds waited last_pool_index work_ready (w # ws) =
     (let wait_forever = (timeout_seconds \<le> 0)
      in if miner_should_abort w \<or> \<not> (wait_forever \<or> waited < timeout_seconds) then Some (work_ready, w # ws)
         else
           let pool_index = miner_get_current_pool_index w;
               waited0 = (if pool_index \<noteq> last_pool_index \<and> \<not> wait_forever then 0 else waited);
               ready = stratum_has_published_work w
           in if ready \<and> stratum_is_authenticated (sctx_at w (nat pool_index)) then Some (ready, w # ws)
              else wait_ready_loop timeout_seconds (if wait_forever then waited0 else waited0 + 1)
                     pool_index ready ws)"

definition stratum_wait_ready :: "int \<Rightarrow> 'j world list \<Rightarrow> (bool \<times> bool) option" where
  "stratum_wait_ready timeout_seconds worlds =
     (case wait_ready_loop timeout_seconds 0 (- 1) False worlds of
        None \<Rightarrow> None
      | Some (work_ready, ws) \<Rightarrow>
          (let w = hd ws
           in Some (\<not> miner_should_abort w \<and>
                    stratum_is_authenticated (sctx_at w (nat (miner_get_current_pool_index w))), work_ready)))"


section \<open>What a connect attempt and a message loop keep\<close>

definition only_transport :: "stratum_ctx \<Rightarrow> stratum_ctx \<Rightarrow> bool" where
  "only_transport s t \<longleftrightarrow>
     t\<lparr>sctx_url := sctx_url s, sctx_curl := sctx_curl s, sctx_curl_url := sctx_curl_url s, sctx_use_tls := sctx_use_tls s,
       sctx_sock := sctx_sock s, sctx_sockbuf := sctx_sockbuf s, sctx_sockbuf_size := sctx_sockbuf_size s\<rparr> = s"

lemma only_transportD:
  assumes "only_transport s t"
  shows "sctx_pooln t = sctx_pooln s" "sctx_thread_active t = sctx_thread_active s"
    "sctx_reconnect_requested t = sctx_reconnect_requested s" "session_ok t = session_ok s"
proof -
  let ?t = "t\<lparr>sctx_url := sctx_url s, sctx_curl := sctx_curl s, sctx_curl_url := sctx_curl_url s,
    sctx_use_tls := sctx_use_tls s, sctx_sock := sctx_sock s, sctx_sockbuf := sctx_sockbuf s,
    sctx_sockbuf_size := sctx_sockbuf_size s\<rparr>"
  have "sctx_pooln ?t = sctx_pooln t" "sctx_thread_active ?t = sctx_thread_active t"
    "sctx_reconnect_requested ?t = sctx_reconnect_requested t" "session_ok ?t = session_ok t"
    by (simp_all add: session_ok_def xn_ok_def)
  with assms show "sctx_pooln t = sctx_pooln s" "sctx_thread_active t = sctx_thread_active s"
    "sctx_reconnect_requested t = sctx_reconnect_requested s" "session_ok t = session_ok s"
    unfolding only_transport_def by simp_all
qed

lemma only_transport_steps:
  "only_transport s t \<Longrightarrow> only_transport s (stratum_close_transport t)"
  "only_transport s t \<Longrightarrow> only_transport s (t\<lparr>sctx_sock := b\<rparr>)"
  "only_transport s t \<Longrightarrow> only_transport s (fst (stratum_build_curl_url t))"
  "only_transport s (fst (stratum_prepare_transport_locked ok s))"
  by (simp_all add: only_transport_def stratum_close_transport_def stratum_reset_socket_buffer_def
      stratum_build_curl_url_def Let_def stratum_prepare_transport_locked_def stratum_ensure_socket_buffer_def
      split: option.split)

lemma connect_only_transport: "only_transport s (fst (stratum_connect env s))"
proof -
  obtain s1 ok1 where p: "stratum_prepare_transport_locked (ce_init env) s = (s1, ok1)" by force
  obtain s2 ok2 where b: "stratum_build_curl_url s1 = (s2, ok2)" by force
  have "only_transport s s1" "only_transport s s2"
    using only_transport_steps(4) [of s "ce_init env"] only_transport_steps(3) [of s s1] p b by simp_all
  then show ?thesis
    using p b by (auto simp: stratum_connect_def Let_def only_transport_steps split: bool.split)
       (simp_all add: only_transport_def)
qed

lemma set_url_only_transport: "only_transport s (fst (stratum_set_url url s))"
  by (simp add: stratum_set_url_def only_transport_def)

lemma lift_only_transport:
  assumes "\<And>s. only_transport s (fst (f s))"
  shows "static (fst (lift_session f p w)) = static w"
    and "sessions_ok w \<Longrightarrow> sessions_ok (fst (lift_session f p w))"
    and "p < length (w_pools w) \<Longrightarrow> only_transport (sctx_at w p) (sctx_at (fst (lift_session f p w)) p)"
  using only_transportD [OF assms]
  by (auto intro!: static_lift sessions_ok_lift)
    (use assms [of "sctx_at w p"] in \<open>cases "f (sctx_at w p)"; simp add: lift_session_def sctx_at_upd_sctx\<close>)

lemma ensure_url_keeps:
  assumes "ensure_pool_url p w = (w', ok)"
  shows "static w' = static w" "sessions_ok w \<Longrightarrow> sessions_ok w'"
  using lift_only_transport [where f = "stratum_set_url (pool_url (pool_at w p))" and p = p and w = w,
      OF set_url_only_transport] assms
  by (auto simp: ensure_pool_url_def split: if_splits)

lemma connect_keeps:
  assumes "lift_session (stratum_connect env) p w = (w', ok)"
  shows "static w' = static w" "sessions_ok w \<Longrightarrow> sessions_ok w'"
  using lift_only_transport [where f = "stratum_connect env" and p = p and w = w, OF connect_only_transport] assms
  by auto

lemma open_static:
  "stratum_open_pool_connection J oe p w = Some (w', ok) \<Longrightarrow> static w' = static w"
  by (auto simp: stratum_open_pool_connection_def Let_def split: prod.splits bool.splits if_splits option.splits
      dest!: ensure_url_keeps(1) connect_keeps(1) static_login static_subscribe static_authorize)

lemma sessions_inv_disconnect: "sessions_inv p w \<Longrightarrow> sessions_inv p (stratum_disconnect q w)"
  using staticD(6) [OF static_disconnect, of q w] by (simp add: sessions_inv_def sessions_ok_disconnect)

lemma open_sessions:
  assumes "stratum_open_pool_connection J oe p w = Some (w', ok)" "sessions_inv p w"
  shows "sessions_inv p w'"
proof -
  obtain w0 b0 where e: "ensure_pool_url p w = (w0, b0)" by force
  obtain w1 b1 where c: "lift_session (stratum_connect (oe_curl oe)) p w0 = (w1, b1)" by force
  have w0: "sessions_inv p w0"
    using ensure_url_keeps(2) [OF e] staticD(6) [OF ensure_url_keeps(1) [OF e]] assms(2) by (simp add: sessions_inv_def)
  then have w1: "sessions_inv p w1"
    using connect_keeps(2) [OF c] staticD(6) [OF connect_keeps(1) [OF c]] by (simp add: sessions_inv_def)
  show ?thesis
    using assms(1) e c w0 w1
    by (auto simp: stratum_open_pool_connection_def Let_def split: bool.splits if_splits option.splits
        dest!: login_sessions subscribe_sessions authorize_sessions intro!: sessions_inv_disconnect)
qed

lemma open_authenticated:
  assumes "stratum_open_pool_connection J oe p w = Some (w', True)" "p < length (w_pools w)"
  shows "auth_inv p w'"
proof -
  obtain w0 b0 where e: "ensure_pool_url p w = (w0, b0)" by force
  obtain w1 b1 where c: "lift_session (stratum_connect (oe_curl oe)) p w0 = (w1, b1)" by force
  have l: "length (w_pools w1) = length (w_pools w)"
    using staticD(6) [OF ensure_url_keeps(1) [OF e]] staticD(6) [OF connect_keeps(1) [OF c]] by simp
  show ?thesis
  proof (cases "opt_algo (w_opts w1) = ALGO_RANDOMX")
    case True
    with assms e c l show ?thesis
      by (auto simp: stratum_open_pool_connection_def Let_def split: bool.splits option.splits intro: login_auth)
  next
    case False
    with assms e c obtain w2 where
      "stratum_subscribe J p (oe_subscribe oe) (oe_resubscribe oe) w1 = Some (w2, True)"
      "stratum_authorize J (pool_user (pool_at w2 p)) (pool_pass (pool_at w2 p)) p
         (oe_authorize oe) (oe_extranonce oe) w2 = Some (w', True)"
      by (auto simp: stratum_open_pool_connection_def Let_def split: bool.splits option.splits)
    with assms(2) l show ?thesis
      using staticD(6) [OF static_subscribe, of J p "oe_subscribe oe" "oe_resubscribe oe" w1 w2 True]
      by (auto intro: authorize_auth)
  qed
qed

text \<open>A message loop keeps the static part up to the abort flag, which another thread may raise.\<close>

lemma static_abort_cong: "static v = static w \<Longrightarrow> static (v\<lparr>w_abort := b\<rparr>) = static (w\<lparr>w_abort := b\<rparr>)"
  by (simp add: static_def)

lemma static_handle_message: "static (fst (stratum_handle_message env s p w)) = static w"
  by (simp add: stratum_handle_message_def split: option.split)

lemma sessions_handle_message: "sessions_inv p w \<Longrightarrow> sessions_inv p (fst (stratum_handle_message env s p w))"
  using hs_sessions.kept_message [of p w env] by (simp add: stratum_handle_message_def split: option.split)

definition loop_kept :: "nat \<Rightarrow> 'j world \<Rightarrow> 'j world \<Rightarrow> bool" where
  "loop_kept p w w' \<longleftrightarrow> (\<exists>b. static w' = static (w\<lparr>w_abort := b\<rparr>)) \<and> (sessions_inv p w \<longrightarrow> sessions_inv p w')"

lemma loop_kept_trans: "loop_kept p u v \<Longrightarrow> loop_kept p v w \<Longrightarrow> loop_kept p u w"
proof -
  assume uv: "loop_kept p u v" and vw: "loop_kept p v w"
  from uv vw obtain b c where "static v = static (u\<lparr>w_abort := b\<rparr>)" "static w = static (v\<lparr>w_abort := c\<rparr>)"
    by (auto simp: loop_kept_def)
  then have "static w = static (u\<lparr>w_abort := c\<rparr>)" using static_abort_cong [of v "u\<lparr>w_abort := b\<rparr>" c] by simp
  with uv vw show "loop_kept p u w" by (auto simp: loop_kept_def)
qed

lemma loop_keptI: "static w' = static w \<Longrightarrow> (sessions_inv p w \<Longrightarrow> sessions_inv p w') \<Longrightarrow> loop_kept p w w'"
  unfolding loop_kept_def by (auto intro!: exI [of _ "w_abort w"])

lemma loop_kept_abort: "loop_kept p w (if b then miner_request_abort w else w)"
  unfolding loop_kept_def
  by (auto simp: miner_request_abort_def sessions_inv_def intro: exI [of _ True] exI [of _ "w_abort w"])

lemma loop_kept_recv:
  "stratum_recv_line_timeout now timeout events (sctx_at w p) = Some (res, s, l) \<Longrightarrow> loop_kept p w (upd_sctx p (\<lambda>_. s) w)"
  by (rule loop_keptI)
    (auto dest: recv_line_only_buffer intro: static_recv hs_sessions.kept_recv)

lemma loop_kept_message: "stratum_handle_message env s p w = (w', ok) \<Longrightarrow> loop_kept p w w'"
  using static_handle_message [of env s p w] sessions_handle_message [of p w env s] by (auto intro: loop_keptI)

lemma loop_kept_keepalive: "xmr_stratum_keepalive sent p w = (w', ok) \<Longrightarrow> loop_kept p w w'"
  using static_send(1) [of sent p _ w] hs_sessions.kept_send [of p w sent]
  by (auto simp: xmr_stratum_keepalive_def intro!: loop_keptI dest!: arg_cong [of _ _ fst])

lemma message_loop_kept: "message_loop p t events w = Some w' \<Longrightarrow> loop_kept p w w'"
proof (induction events arbitrary: t w)
  case Nil
  then show ?case by (auto intro: loop_keptI split: if_splits)
next
  case (Cons ev rest)
  define v where "v = (if le_abort ev then miner_request_abort w else w)"
  have wv: "loop_kept p w v" unfolding v_def by (rule loop_kept_abort)
  obtain to kb db where rb: "receive_bound (le_deadline_now ev) p v = (to, kb, db)"
    by (cases "receive_bound (le_deadline_now ev) p v")
  note run = Cons.prems [unfolded message_loop.simps, folded v_def, unfolded Let_def rb prod.case]
  show ?case
  proof (cases "miner_should_abort v \<or> sctx_reconnect_requested (sctx_at v p) \<or>
      devfee_transition_due (le_due_now ev) (w_devfee v)")
    case True
    with run wv show ?thesis by simp
  next
    case False
    with run obtain res s l where
      r: "stratum_recv_line_timeout (le_recv_now ev) to (le_recv ev) (sctx_at v p) = Some (res, s, l)"
      by (auto split: option.splits)
    let ?u = "upd_sctx p (\<lambda>_. s) v"
    note u = loop_kept_trans [OF wv loop_kept_recv [OF r]]
    obtain w2 ok where k: "xmr_stratum_keepalive (le_sent ev) p ?u = (w2, ok)" by force
    obtain w3 ok3 where h: "stratum_handle_message (le_env ev) (case res of Line line \<Rightarrow> line | _ \<Rightarrow> []) p ?u = (w3, ok3)"
      by force
    have "w' = ?u \<or> w' = w2 \<or> w' = w3 \<or> message_loop p (le_line_now ev) rest w3 = Some w' \<or>
        message_loop p t rest ?u = Some w' \<or> message_loop p t rest w2 = Some w'"
      using run False r k h by (cases res) (simp_all split: if_splits bool.splits)
    moreover have "loop_kept p w w2" "loop_kept p w w3"
      using loop_kept_trans [OF u loop_kept_keepalive [OF k]] loop_kept_trans [OF u loop_kept_message [OF h]]
      by blast+
    ultimately show ?thesis using u Cons.IH loop_kept_trans by metis
  qed
qed

section \<open>The thread always works on the current pool, with well-formed sessions\<close>

definition serving :: "nat \<Rightarrow> 'j world \<Rightarrow> bool" where
  "serving p w \<longleftrightarrow>
     p < w_num_pools w \<and> w_num_pools w \<le> length (w_pools w) \<and> w_current_pool w = int p \<and> sessions_ok w \<and>
     list_all (\<lambda>q. sctx_pooln (sctx_at w q) = int q) [0..<w_num_pools w]"

lemma servingD:
  assumes "serving p w"
  shows "p < w_num_pools w" "p < length (w_pools w)" "sctx_pooln (sctx_at w p) = int p" "sessions_inv p w"
    "q < w_num_pools w \<Longrightarrow> sctx_pooln (sctx_at w q) = int q" "w_current_pool w = int p"
  using assms by (auto simp: serving_def sessions_inv_def list_all_iff)

lemma serving_static:
  assumes "serving p w" "static w' = static w" "sessions_ok w'"
  shows "serving p w'"
  using assms(1,3) staticD [OF assms(2)] static_sctx(1) [OF assms(2)] by (auto simp: serving_def list_all_iff)

lemma serving_frame [simp]:
  "serving p (w\<lparr>w_abort := b\<rparr>) = serving p w" "serving p (w\<lparr>w_devfee := d\<rparr>) = serving p w"
  by (simp_all add: serving_def)

lemma serving_request_abort [simp]: "serving p (miner_request_abort w) = serving p w"
  by (simp add: miner_request_abort_def)

lemma serving_loop_kept:
  assumes "serving p w" "loop_kept p w w'"
  shows "serving p w'"
proof -
  from assms(2) obtain b where "static w' = static (w\<lparr>w_abort := b\<rparr>)" by (auto simp: loop_kept_def)
  moreover have "sessions_ok w'" using assms servingD(4) by (auto simp: loop_kept_def sessions_inv_def)
  ultimately show ?thesis using serving_static [of p "w\<lparr>w_abort := b\<rparr>" w'] assms(1) by simp
qed

lemma serving_disconnect: "serving p w \<Longrightarrow> serving p (stratum_disconnect q w)"
  by (rule serving_static) (auto simp: serving_def sessions_ok_disconnect)

lemma serving_upd_sctx:
  assumes "serving p w" "\<And>s. sctx_pooln (f s) = sctx_pooln s" "\<And>s. session_ok s \<Longrightarrow> session_ok (f s)"
  shows "serving p (upd_sctx q f w)"
proof (cases "q < length (w_pools w)")
  case True
  with assms show ?thesis by (auto simp: serving_def list_all_iff sctx_at_upd_sctx intro: sessions_ok_upd_sctx)
next
  case False
  then have "upd_sctx q f w = w" by (simp add: upd_sctx_def upd_pool_def list_update_beyond)
  with assms(1) show ?thesis by simp
qed

lemma serving_switch:
  assumes "serving p w" "stratum_switch_to_pool i p w = (w', p', switched)"
  shows "serving p' w'"
proof -
  have "serving p (stratum_thread_active_store True q (stratum_thread_active_store False p w))" for q
    unfolding stratum_thread_active_store_def by (intro serving_upd_sctx assms) simp_all
  with assms show ?thesis
    by (auto simp: stratum_switch_to_pool_def Let_def miner_set_current_pool_index_def serving_def
        stratum_thread_active_store_def upd_sctx_def split: if_splits)
qed

lemma serving_switched:
  "serving p w \<Longrightarrow> serving (fst (snd (stratum_switch_to_pool i p w))) (fst (stratum_switch_to_pool i p w))"
  by (cases "stratum_switch_to_pool i p w") (simp add: serving_switch)

lemma serving_reconnect_taken: "serving p w \<Longrightarrow> serving p (fst (stratum_take_reconnect_request q w))"
  by (auto simp: stratum_take_reconnect_request_def intro: serving_upd_sctx)

lemma serving_set_pool_target:
  assumes "serving p w"
  shows "serving p (devfee_set_pool_target platform t w)"
proof -
  have "pool_static ((\<lambda>q. q\<lparr>pool_url := u, pool_user := us, pool_pass := pw,
      pool_stratum := fst (stratum_set_url u (pool_stratum q))\<rparr>) q) = pool_static q" for u us pw q
    by (simp add: pool_static_def stratum_set_url_def)
  then have "static (devfee_set_pool_target platform t w) =
      static (w\<lparr>w_devfee := (w_devfee w)\<lparr>df_cur_target := t\<rparr>\<rparr>)"
    using static_upd_pool [of _ w] unfolding devfee_set_pool_target_def Let_def by (simp add: static_def)
  moreover have "sessions_ok (devfee_set_pool_target platform t w)"
    unfolding devfee_set_pool_target_def Let_def sessions_ok_frame
    by (rule sessions_ok_upd_pool) (use assms in \<open>auto simp: serving_def stratum_set_url_def sctx_at_def\<close>)
  ultimately show ?thesis using assms serving_static [of p "w\<lparr>w_devfee := (w_devfee w)\<lparr>df_cur_target := t\<rparr>\<rparr>"] by simp
qed

lemma serving_devfee:
  assumes "serving p w"
  shows "serving p (fst (devfee_take_transition platform now i w))"
    "serving p (fst (devfee_advance_target platform now w))"
    "serving p (fst (devfee_abort_slice now w))"
  using assms
  by (auto simp: devfee_take_transition_def devfee_advance_target_def devfee_abort_slice_def Let_def
      intro: serving_set_pool_target)


lemma serving_wait: "serving p w \<Longrightarrow> serving p (fst (stratum_wait_before_retry aborted n w))"
  by (simp add: stratum_wait_before_retry_def Let_def)

lemma serving_handle_disconnected:
  assumes "serving (sv_pool sv) (sv_world sv)" "stratum_handle_disconnected_session aborted sv = (sv', go)"
  shows "serving (sv_pool sv') (sv_world sv')"
proof -
  let ?p = "sv_pool sv"
  let ?w2 = "fst (stratum_take_reconnect_request ?p (stratum_disconnect ?p (sv_world sv)))"
  let ?w3 = "fst (stratum_wait_before_retry aborted (sv_retry_count sv + 1) ?w2)"
  have w1: "serving ?p (stratum_disconnect ?p (sv_world sv))" using assms(1) by (rule serving_disconnect)
  then have w2: "serving ?p ?w2" by (rule serving_reconnect_taken)
  then have w3: "serving ?p ?w3" by (rule serving_wait)
  from assms(2) w1 w2 w3 show ?thesis
    by (auto simp: stratum_handle_disconnected_session_def Let_def split_beta stratum_reset_retry_cycle_def
        split: if_splits bool.splits intro: serving_switched)
qed

lemma serving_leave_dev_pool:
  assumes "serving (sv_pool sv) (sv_world sv)"
  shows "serving (sv_pool (leave_dev_pool platform now sv)) (sv_world (leave_dev_pool platform now sv))"
proof -
  have a: "serving (sv_pool sv) (fst (devfee_advance_target platform now (sv_world sv)))"
    using assms by (rule serving_devfee)
  then have "serving (sv_pool sv) (fst (devfee_abort_slice now (fst (devfee_advance_target platform now (sv_world sv)))))"
    by (rule serving_devfee)
  with a show ?thesis
    by (auto simp: leave_dev_pool_def split_beta split: bool.split intro: serving_switched serving_disconnect)
qed

lemma serving_open:
  assumes "stratum_open_pool_connection J oe p w = Some (w', ok)" "serving p w"
  shows "serving p w'"
  using serving_static [OF assms(2) open_static [OF assms(1)]] open_sessions [OF assms(1) servingD(4) [OF assms(2)]]
  by (simp add: sessions_inv_def)

lemma serving_iteration:
  assumes "service_iteration J platform env sv = Some (sv', go)" "serving (sv_pool sv) (sv_world sv)"
  shows "serving (sv_pool sv') (sv_world sv')"
proof -
  let ?p = "sv_pool sv"
  obtain w1 ok where o: "stratum_open_pool_connection J (se_open env) ?p (sv_world sv) = Some (w1, ok)"
    using assms(1) by (auto simp: service_iteration_def split: option.splits)
  have w1: "serving ?p w1" using o assms(2) by (rule serving_open)
  have hd: "serving (sv_pool (fst (stratum_handle_disconnected_session a v)))
      (sv_world (fst (stratum_handle_disconnected_session a v)))" if "serving (sv_pool v) (sv_world v)"
    for a and v :: "'a service"
    using that by (cases "stratum_handle_disconnected_session a v") (simp add: serving_handle_disconnected)
  show ?thesis
  proof (cases ok)
    case False
    with assms(1) o w1 show ?thesis
      using serving_leave_dev_pool [of "sv\<lparr>sv_world := w1\<rparr>"] hd [of "sv\<lparr>sv_world := w1\<rparr>" "se_pause_abort env"]
      by (auto simp: service_iteration_def Let_def split: if_splits)
  next
    case True
    define sv1 where "sv1 = stratum_reset_retry_cycle (sv\<lparr>sv_world := w1\<rparr>)"
    have p1: "sv_pool sv1 = ?p" by (simp add: sv1_def stratum_reset_retry_cycle_def)
    from assms(1) o True obtain w2' where
      l: "stratum_run_message_loop (se_loop_now env) ?p (se_loop env) w1 = Some w2'"
      by (auto simp: service_iteration_def Let_def split: option.splits)
    define w2 where "w2 = (if se_after_abort env then miner_request_abort w2' else w2')"
    have w2: "serving ?p w2"
      using serving_loop_kept [OF w1 message_loop_kept [OF l [unfolded stratum_run_message_loop_def]]]
      by (simp add: w2_def)
    define tr where "tr = devfee_take_transition platform (se_fee_now env) (sctx_pooln (sctx_at w2 ?p)) w2"
    have tr: "serving ?p (fst tr)" unfolding tr_def using w2 by (rule serving_devfee)
    define sw where "sw = stratum_switch_to_pool (snd tr) ?p (stratum_disconnect ?p (fst tr))"
    have sw: "serving (fst (snd sw)) (fst sw)"
      unfolding sw_def by (intro serving_switched serving_disconnect tr)
    have "sv' = sv1\<lparr>sv_world := fst sw, sv_pool := fst (snd sw)\<rparr> \<or>
        sv' = leave_dev_pool platform (se_fee_now env) (sv1\<lparr>sv_world := w2\<rparr>) \<or>
        sv' = fst (stratum_handle_disconnected_session (se_pause_abort env) (sv1\<lparr>sv_world := w2\<rparr>))"
      using assms(1) o True l
      by (auto simp: service_iteration_def Let_def split_beta sv1_def [symmetric] w2_def [symmetric] sw_def tr_def
          split: if_splits)
    then show ?thesis
      using sw serving_leave_dev_pool [of "sv1\<lparr>sv_world := w2\<rparr>"] hd [of "sv1\<lparr>sv_world := w2\<rparr>"] w2 p1 by auto
  qed
qed

lemma serving_loop:
  "service_loop J platform envs sv = Some (sv', ended) \<Longrightarrow> serving (sv_pool sv) (sv_world sv) \<Longrightarrow>
   serving (sv_pool sv') (sv_world sv')"
proof (induction envs arbitrary: sv)
  case (Cons env rest)
  define v where "v = sv\<lparr>sv_world := if se_abort env then miner_request_abort (sv_world sv) else sv_world sv\<rparr>"
  have v: "serving (sv_pool v) (sv_world v)" using Cons.prems(2) by (simp add: v_def)
  show ?case
  proof (cases "miner_should_abort (sv_world v)")
    case True
    with Cons.prems(1) v show ?thesis by (auto simp: v_def Let_def split: if_splits)
  next
    case False
    with Cons.prems(1) obtain sv1 go where i: "service_iteration J platform env v = Some (sv1, go)"
      by (auto simp: v_def Let_def split: option.splits)
    note s1 = serving_iteration [OF i v]
    from Cons.prems(1) False i have "sv' = sv1 \<or> service_loop J platform rest sv1 = Some (sv', ended)"
      by (auto simp: v_def Let_def split: bool.splits)
    with s1 Cons.IH show ?thesis by blast
  qed
qed simp

text \<open>
  C33. From the moment the service thread starts on the current pool, after any number of connects,
  handshakes, messages, failovers, redirects and dev-fee slices, the pool index that workers and the
  API read is the pool the thread works on, it is an existing slot, each slot's session carries its
  own index, and every session is well-formed (extranonce sizes, job sizes, submit table).
\<close>

theorem service_keeps_invariant:
  assumes "stratum_service_thread J platform envs p w = Some (sv, ended)" "serving p w"
  shows "serving (sv_pool sv) (sv_world sv)"
proof -
  obtain sv' where l: "service_loop J platform envs \<lparr>sv_world = w, sv_pool = p, sv_retry_count = 0,
      sv_cycle_start = sctx_pooln (sctx_at w p)\<rparr> = Some (sv', ended)"
    and sv: "sv = (if ended then sv'\<lparr>sv_world := stratum_thread_active_store False (sv_pool sv') (sv_world sv')\<rparr> else sv')"
    using assms(1) by (auto simp: stratum_service_thread_def split: option.splits)
  have "serving (sv_pool sv') (sv_world sv')" using serving_loop [OF l] assms(2) by simp
  then show ?thesis by (auto simp: sv stratum_thread_active_store_def intro: serving_upd_sctx)
qed

definition witness_user_pool :: "int \<Rightarrow> pool_infos" where
  "witness_user_pool i = zero_pool\<lparr>pool_configured := True, pool_url := ''stratum+tcp://pool:3333'',
     pool_stratum := zero_sctx\<lparr>sctx_pooln := i\<rparr>\<rparr>"

text \<open>Two user pools and the hidden dev slot.\<close>

definition witness_service_world :: "jval world" where
  "witness_service_world = (initial_world ((witness_options ALGO_SHA256D)\<lparr>opt_retries := 1\<rparr>))
     \<lparr>w_pools := [witness_user_pool 0, witness_user_pool 1, (witness_user_pool 2)\<lparr>pool_disabled := True\<rparr>],
      w_num_pools := 3, w_devfee := initial_devfee\<lparr>df_enabled := True, df_dev_pool_index := 2\<rparr>\<rparr>"

definition witness_down :: "jval service_env" where
  "witness_down =
     (let rq = \<lparr>rq_sent = False, rq_now = 0, rq_events = []\<rparr>
      in \<lparr>se_abort = False,
          se_open = \<lparr>oe_curl = \<lparr>ce_init = True, ce_ssl = True, ce_perform = CURLE_OTHER, ce_retry = CURLE_OTHER,
                                ce_ips = []\<rparr>,
                     oe_alloc = True, oe_login = rq, oe_subscribe = rq, oe_resubscribe = rq, oe_authorize = rq,
                     oe_extranonce = rq\<rparr>,
          se_loop_now = 0, se_loop = [], se_after_abort = False, se_fee_now = 0, se_pause_abort = False\<rparr>)"

lemma upt_3 [simp]: "[0..<3] = [0, 1, 2::nat]"
  by (simp add: upt_rec)

lemma session_ok_pooln [simp]: "session_ok (s\<lparr>sctx_pooln := i\<rparr>) = session_ok s"
  by (simp add: session_ok_def xn_ok_def)

lemma witness_serving: "p < 3 \<Longrightarrow> serving p (witness_service_world\<lparr>w_current_pool := int p\<rparr>)"
  by (auto simp: serving_def witness_service_world_def initial_world_def witness_user_pool_def sctx_at_def pool_at_def
      sessions_ok_def zero_pool_def)

theorem service_keeps_invariant_witness:
  "\<exists>sv ended. stratum_service_thread jval_lib None [] 0 witness_service_world = Some (sv, ended) \<and>
     serving (sv_pool sv) (sv_world sv)"
proof -
  obtain sv ended where run: "stratum_service_thread jval_lib None [] 0 witness_service_world = Some (sv, ended)"
    by (simp add: stratum_service_thread_def)
  have "serving 0 witness_service_world"
    using witness_serving [of 0] by (simp add: witness_service_world_def initial_world_def)
  with run service_keeps_invariant [OF run] show ?thesis by blast
qed

end
