(* ===== verification/Failover.thy ===== *)
theory Failover
  imports Service
begin

text \<open>
  Failover and retries of the service thread: failover goes to usable pools only, and the retry
  limit ends the thread after a bounded number of failures, provided the retry cycle starts at a
  usable pool. Two theorems show where the dev slot breaks that bookkeeping.
\<close>

section \<open>Failover and the retry limit\<close>

text \<open>What decides failover; a failed connect attempt and a disconnect leave it alone.\<close>

definition pool_reach :: "pool_infos \<Rightarrow> bool \<times> bool \<times> string \<times> int \<times> bool" where
  "pool_reach q = (pool_configured q, pool_disabled q, pool_url q, sctx_pooln (pool_stratum q),
     sctx_reconnect_requested (pool_stratum q))"

definition reach :: "'j world \<Rightarrow> nat \<times> devfee_state \<times> bool \<times> miner_options \<times> (bool \<times> bool \<times> string \<times> int \<times> bool) list" where
  "reach w = (w_num_pools w, w_devfee w, w_abort w, w_opts w, map pool_reach (w_pools w))"

lemma reach_upd_sctx:
  assumes "sctx_pooln (f (sctx_at w p)) = sctx_pooln (sctx_at w p)"
    "sctx_reconnect_requested (f (sctx_at w p)) = sctx_reconnect_requested (sctx_at w p)"
  shows "reach (upd_sctx p f w) = reach w"
proof (cases "p < length (w_pools w)")
  case True
  have "pool_reach (pool_at w p\<lparr>pool_stratum := f (pool_stratum (pool_at w p))\<rparr>) = pool_reach (pool_at w p)"
    using assms by (simp add: pool_reach_def sctx_at_def)
  with True show ?thesis
    by (simp add: reach_def upd_sctx_def upd_pool_def pool_at_def map_update) (metis list_update_id nth_map)
qed (simp add: reach_def upd_sctx_def upd_pool_def list_update_beyond)

lemma reach_frame [simp]:
  "reach (w\<lparr>w_runtime := rs\<rparr>) = reach w" "reach (w\<lparr>w_generation := g\<rparr>) = reach w"
  "reach (w\<lparr>w_current_pool := c\<rparr>) = reach w"
  by (simp_all add: reach_def)

lemma reach_disconnect [simp]: "reach (stratum_disconnect p w) = reach w"
  by (simp add: stratum_disconnect_def reach_upd_sctx stratum_reset_session_runtime_def stratum_free_job_def
      stratum_set_authenticated_def stratum_store_next_diff_def stratum_close_transport_def
      stratum_reset_socket_buffer_def stratum_reset_work_state_def miner_work_generation_bump_def)

lemma reachD:
  assumes "reach w' = reach w"
  shows "w_num_pools w' = w_num_pools w" "w_devfee w' = w_devfee w" "w_abort w' = w_abort w" "w_opts w' = w_opts w"
    "length (w_pools w') = length (w_pools w)"
    "q < length (w_pools w) \<Longrightarrow> pool_reach (pool_at w' q) = pool_reach (pool_at w q)"
proof -
  from assms show "w_num_pools w' = w_num_pools w" "w_devfee w' = w_devfee w" "w_abort w' = w_abort w"
    "w_opts w' = w_opts w" and l: "length (w_pools w') = length (w_pools w)"
    by (auto simp: reach_def dest: map_eq_imp_length_eq)
  assume "q < length (w_pools w)"
  then show "pool_reach (pool_at w' q) = pool_reach (pool_at w q)"
    using assms l by (simp add: reach_def pool_at_def) (metis nth_map)
qed

lemma usable_reach:
  assumes "reach w' = reach w" "w_num_pools w \<le> length (w_pools w)"
  shows "miner_pool_is_usable w' = miner_pool_is_usable w"
proof
  fix i
  show "miner_pool_is_usable w' i = miner_pool_is_usable w i"
  proof (cases "0 \<le> i \<and> i < int (w_num_pools w)")
    case True
    then have "pool_reach (pool_at w' (nat i)) = pool_reach (pool_at w (nat i))"
      using assms by (intro reachD(6) [OF assms(1)]) linarith
    with True show ?thesis
      by (simp add: miner_pool_is_usable_def pool_reach_def reachD(1) [OF assms(1)])
  qed (auto simp: miner_pool_is_usable_def reachD(1) [OF assms(1)])
qed

lemma find_next_reach:
  "reach w' = reach w \<Longrightarrow> w_num_pools w \<le> length (w_pools w) \<Longrightarrow>
   stratum_find_next_pool_index w' i = stratum_find_next_pool_index w i"
  using usable_reach [of w' w] reachD(1) [of w' w] by (simp add: stratum_find_next_pool_index_def)

text \<open>The search returns the first usable pool in cyclic order.\<close>

lemma find_next_spec:
  assumes "stratum_find_next_pool_index w i \<noteq> i"
  shows "\<exists>off. 1 \<le> off \<and> off < w_num_pools w \<and>
    stratum_find_next_pool_index w i = (i + int off) mod int (w_num_pools w) \<and>
    miner_pool_is_usable w ((i + int off) mod int (w_num_pools w)) \<and>
    (\<forall>o'. 1 \<le> o' \<longrightarrow> o' < off \<longrightarrow> \<not> miner_pool_is_usable w ((i + int o') mod int (w_num_pools w)))"
proof -
  let ?xs = "map (\<lambda>offset. (i + int offset) mod int (w_num_pools w)) [1..<w_num_pools w]"
  from assms obtain c where f: "find (miner_pool_is_usable w) ?xs = Some c"
    and c: "stratum_find_next_pool_index w i = c"
    by (auto simp: stratum_find_next_pool_index_def split: option.splits if_splits)
  then obtain k where k: "k < length ?xs" "miner_pool_is_usable w (?xs ! k)" "c = ?xs ! k"
    "\<forall>j<k. \<not> miner_pool_is_usable w (?xs ! j)" by (auto simp: find_Some_iff)
  then have "\<not> miner_pool_is_usable w ((i + int o') mod int (w_num_pools w))" if "1 \<le> o'" "o' < 1 + k" for o'
    using that spec [OF k(4), of "o' - 1"] by (simp add: nth_append)
  with k c show ?thesis by (intro exI [of _ "1 + k"]) auto
qed

lemma cyclic_distance:
  assumes "0 \<le> (i::int)" "i < n" "0 \<le> c" "c < n" "c \<noteq> i"
  shows "1 \<le> (c - i) mod n" "(c - i) mod n < n" "(i + (c - i) mod n) mod n = c"
    "\<And>off. 0 \<le> off \<Longrightarrow> off < (c - i) mod n \<Longrightarrow>
       (c - (i + off) mod n) mod n = (c - i) mod n - off \<and> (i + off) mod n \<noteq> c"
proof -
  have d: "(c - i) mod n = (if i < c then c - i else c - i + n)"
    using assms mod_pos_pos_trivial [of "c - i" n] mod_pos_pos_trivial [of "c - i + n" n] by auto
  then show "1 \<le> (c - i) mod n" "(c - i) mod n < n" using assms by auto
  show "(i + (c - i) mod n) mod n = c" using assms by (simp add: mod_add_right_eq)
  fix off :: int assume off: "0 \<le> off" "off < (c - i) mod n"
  have "(c - (i + off) mod n) mod n = ((c - i) mod n - off) mod n"
    by (simp add: mod_diff_right_eq mod_diff_left_eq algebra_simps)
  also have "\<dots> = (c - i) mod n - off" using off d assms by (auto simp: mod_pos_pos_trivial split: if_splits)
  finally show "(c - (i + off) mod n) mod n = (c - i) mod n - off \<and> (i + off) mod n \<noteq> c"
    using off by auto
qed

lemma usable_range: "miner_pool_is_usable w c \<Longrightarrow> 0 \<le> c \<and> c < int (w_num_pools w)"
  by (simp add: miner_pool_is_usable_def)

lemma find_next_exists:
  assumes "miner_pool_is_usable w c" "0 \<le> i" "i < int (w_num_pools w)" "c \<noteq> i"
  shows "stratum_find_next_pool_index w i \<noteq> i"
proof -
  let ?n = "int (w_num_pools w)"
  let ?xs = "map (\<lambda>offset. (i + int offset) mod ?n) [1..<w_num_pools w]"
  note d = cyclic_distance [OF assms(2,3) conjunct1 [OF usable_range] conjunct2 [OF usable_range] assms(4),
      OF assms(1) assms(1)]
  have "nat ((c - i) mod ?n) \<in> set [1..<w_num_pools w]" using d(1,2) by auto
  then have "(i + int (nat ((c - i) mod ?n))) mod ?n \<in> set ?xs" by (simp only: set_map) blast
  then have "find (miner_pool_is_usable w) ?xs \<noteq> None" using assms(1) d by (auto simp: find_None_iff)
  then obtain x where x: "find (miner_pool_is_usable w) ?xs = Some x" by blast
  then have "x \<in> set ?xs" unfolding find_Some_iff by (metis nth_mem)
  then obtain off where off: "x = (i + int off) mod ?n" "1 \<le> off" "off < w_num_pools w" by auto
  have "(i + int off) mod ?n \<noteq> i"
  proof
    assume "(i + int off) mod ?n = i"
    then have "(i + int off) mod ?n = i mod ?n" using assms by simp
    then have "int off mod ?n = 0" by (metis add_diff_cancel_left' diff_self mod_0 mod_diff_cong)
    then show False using off by simp
  qed
  with x off show ?thesis by (simp add: stratum_find_next_pool_index_def)
qed

text \<open>
  C35. Failover only ever goes to a usable pool: whenever the handler of a lost connection moves the
  thread to another slot, that slot is configured, enabled and has an address, and it is the one
  the workers are pointed at. The hidden dev slot is disabled, so failover never enters it.
\<close>

theorem failover_to_usable_pool:
  assumes "stratum_handle_disconnected_session aborted sv = (sv', go)" "serving (sv_pool sv) (sv_world sv)"
    and "sv_pool sv' \<noteq> sv_pool sv"
  shows "miner_pool_is_usable (sv_world sv) (int (sv_pool sv')) \<and> w_current_pool (sv_world sv') = int (sv_pool sv')"
proof -
  let ?i = "sctx_pooln (sctx_at (sv_world sv) (sv_pool sv))"
  have sw: "p' = nat i" if "stratum_switch_to_pool i (sv_pool sv) w = (w', p', b)" "p' \<noteq> sv_pool sv" for i w w' p' b
    using that by (auto simp: stratum_switch_to_pool_def Let_def split: if_splits)
  have "sv_pool sv' = nat (stratum_find_next_pool_index (sv_world sv) ?i)"
    "stratum_find_next_pool_index (sv_world sv) ?i \<noteq> ?i"
    using assms(1,3)
    by (auto simp: stratum_handle_disconnected_session_def Let_def stratum_reset_retry_cycle_def
        split: if_splits bool.splits prod.splits dest!: sw)
  moreover from find_next_spec [OF this(2)] have
    "miner_pool_is_usable (sv_world sv) (stratum_find_next_pool_index (sv_world sv) ?i)" by auto
  ultimately show ?thesis
    using servingD(6) [OF serving_handle_disconnected [OF assms(2,1)]] usable_range by force
qed

lemma witness_usable: "miner_pool_is_usable witness_service_world i = (i = 0 \<or> i = 1)"
  by (auto simp: miner_pool_is_usable_def witness_service_world_def initial_world_def witness_user_pool_def pool_at_def
      zero_pool_def size_consts nth_Cons' split: if_splits)

lemma witness_service_simps:
  "w_num_pools witness_service_world = 3" "\<not> w_abort witness_service_world" "length (w_pools witness_service_world) = 3"
  "w_current_pool witness_service_world = 0" "opt_retries (w_opts witness_service_world) = 1"
  "w_devfee witness_service_world = initial_devfee\<lparr>df_enabled := True, df_dev_pool_index := 2\<rparr>"
  "q < 3 \<Longrightarrow> sctx_at witness_service_world q = zero_sctx\<lparr>sctx_pooln := int q\<rparr>"
  by (auto simp: witness_service_world_def initial_world_def sctx_at_def pool_at_def witness_user_pool_def
      less_Suc_eq numeral_3_eq_3)

lemma witness_find_next: "stratum_find_next_pool_index witness_service_world 0 = 1"
  by (simp add: stratum_find_next_pool_index_def witness_service_simps upt_rec witness_usable)

definition witness_service :: "jval service" where
  "witness_service = \<lparr>sv_world = witness_service_world, sv_pool = 0, sv_retry_count = 0, sv_cycle_start = 0\<rparr>"

theorem failover_to_usable_pool_witness:
  "\<exists>sv' go. stratum_handle_disconnected_session False witness_service = (sv', go) \<and>
     miner_pool_is_usable witness_service_world (int (sv_pool sv')) \<and> w_current_pool (sv_world sv') = int (sv_pool sv')"
proof -
  obtain sv' go where h: "stratum_handle_disconnected_session False witness_service = (sv', go)" by force
  let ?v = "stratum_disconnect 0 witness_service_world"
  have "\<not> w_abort ?v" "w_num_pools ?v = 3" "sctx_pooln (sctx_at ?v 0) = 0" "\<not> sctx_reconnect_requested (sctx_at ?v 0)"
    "length (w_pools ?v) = 3"
    using reachD(1,3,5) [OF reach_disconnect [of 0 witness_service_world]] witness_service_simps(7) [of 0]
      reachD(6) [OF reach_disconnect [of 0 witness_service_world], of 0]
    by (simp_all add: witness_service_simps pool_reach_def sctx_at_def [symmetric] zero_sctx_def)
  with h have "sv_pool sv' = 1"
    by (auto simp: stratum_handle_disconnected_session_def witness_service_def Let_def witness_service_simps
        witness_find_next stratum_take_reconnect_request_def stratum_switch_to_pool_def miner_should_abort_def
        sctx_at_upd_sctx)
  moreover have "serving 0 witness_service_world"
    using witness_serving [of 0] by (simp add: witness_service_world_def initial_world_def)
  ultimately show ?thesis
    using h failover_to_usable_pool [OF h] by (simp add: witness_service_def)
qed

text \<open>A run of failed connection attempts, with no reconnect request pending.\<close>

definition idle :: "'j world \<Rightarrow> bool" where
  "idle w \<longleftrightarrow>
     \<not> w_abort w \<and> w_num_pools w \<le> length (w_pools w) \<and>
     list_all (\<lambda>q. sctx_pooln (sctx_at w q) = int q \<and> \<not> sctx_reconnect_requested (sctx_at w q)) [0..<w_num_pools w]"

definition unreachable :: "'j service_env \<Rightarrow> bool" where
  "unreachable env \<longleftrightarrow>
     \<not> se_abort env \<and> \<not> se_pause_abort env \<and> ce_perform (oe_curl (se_open env)) \<noteq> CURLE_OK \<and>
     ce_retry (oe_curl (se_open env)) \<noteq> CURLE_OK"

lemma idle_reach:
  assumes "reach w' = reach w"
  shows "idle w' = idle w"
proof -
  have "sctx_pooln (sctx_at w' q) = sctx_pooln (sctx_at w q)"
    "sctx_reconnect_requested (sctx_at w' q) = sctx_reconnect_requested (sctx_at w q)" if "q < length (w_pools w)" for q
    using reachD(6) [OF assms that] by (simp_all add: pool_reach_def sctx_at_def)
  then show ?thesis using reachD(1,3,5) [OF assms] by (auto simp: idle_def list_all_iff)
qed

lemma unreachable_open:
  assumes "unreachable env"
  shows "\<exists>w1. stratum_open_pool_connection J (se_open env) p w = Some (w1, False) \<and> reach w1 = reach w"
proof -
  have reach_lift: "reach (fst (lift_session f p v)) = reach v" if "\<And>s. only_transport s (fst (f s))" for f and v :: "'a world"
    using only_transportD [OF that] by (cases "f (sctx_at v p)")
      (auto simp: lift_session_def intro!: reach_upd_sctx, (metis fst_conv)+)
  obtain w0 b0 where e: "ensure_pool_url p w = (w0, b0)" by force
  have r0: "reach w0 = reach w"
    using reach_lift [of "stratum_set_url (pool_url (pool_at w p))" w] set_url_only_transport e
    by (auto simp: ensure_pool_url_def split: if_splits)
  have "\<not> snd (stratum_connect (oe_curl (se_open env)) s)" for s
    using assms
    by (auto simp: stratum_connect_def unreachable_def Let_def stratum_retry_with_dns_fallback_def
        split: prod.splits bool.splits option.splits)
  then have c: "\<not> snd (lift_session (stratum_connect (oe_curl (se_open env))) p w0)"
    by (cases "stratum_connect (oe_curl (se_open env)) (sctx_at w0 p)") (metis (lifting) lift_session_def prod.case snd_conv)
  show ?thesis
    using e r0 c reach_lift [of "stratum_connect (oe_curl (se_open env))" w0] connect_only_transport
    by (auto simp: stratum_open_pool_connection_def split: bool.split prod.split)
qed

lemma switch_reach:
  assumes "stratum_switch_to_pool i p w = (w', p', b)"
  shows "reach w' = reach w"
  using assms
  by (auto simp: stratum_switch_to_pool_def Let_def miner_set_current_pool_index_def stratum_thread_active_store_def
      reach_upd_sctx split: if_splits)

text \<open>One failed attempt on a user pool, as a step on the pool, the retry count and the cycle start.\<close>

definition failed_step :: "'j world \<Rightarrow> int \<Rightarrow> 'j service \<Rightarrow> 'j service \<Rightarrow> bool \<Rightarrow> bool" where
  "failed_step w i sv sv' go \<longleftrightarrow>
     (if i \<noteq> int (sv_pool sv) \<and> i \<noteq> sv_cycle_start sv then
        go \<and> reach (sv_world sv') = reach w \<and> int (sv_pool sv') = i \<and>
        sv_retry_count sv' = sv_retry_count sv \<and> sv_cycle_start sv' = sv_cycle_start sv
      else if 0 \<le> opt_retries (w_opts w) \<and> opt_retries (w_opts w) \<le> sv_retry_count sv then
        \<not> go \<and> miner_should_abort (sv_world sv')
      else
        go \<and> reach (sv_world sv') = reach w \<and> int (sv_pool sv') = i \<and>
        sv_retry_count sv' = sv_retry_count sv + 1 \<and> sv_cycle_start sv' = i)"

lemma failed_iteration:
  assumes "unreachable env" "idle (sv_world sv)" "sv_pool sv < w_num_pools (sv_world sv)"
    and "\<not> devfee_is_dev_pool (sv_world sv) (int (sv_pool sv))"
  shows "\<exists>sv' go. service_iteration J platform env sv = Some (sv', go) \<and>
    failed_step (sv_world sv) (stratum_find_next_pool_index (sv_world sv) (int (sv_pool sv))) sv sv' go"
proof -
  let ?p = "sv_pool sv" and ?w = "sv_world sv"
  let ?i = "stratum_find_next_pool_index ?w (int ?p)"
  obtain w1 where o: "stratum_open_pool_connection J (se_open env) ?p ?w = Some (w1, False)" and r1: "reach w1 = reach ?w"
    using unreachable_open [OF assms(1)] by blast
  define w2 where "w2 = upd_sctx ?p (\<lambda>s. s\<lparr>sctx_reconnect_requested := False\<rparr>) (stratum_disconnect ?p w1)"
  have i1: "idle w1" "idle (stratum_disconnect ?p w1)" using assms(2) idle_reach r1 reach_disconnect by metis+
  have l1: "w_num_pools w1 = w_num_pools ?w" "w_num_pools (stratum_disconnect ?p w1) = w_num_pools ?w"
    using reachD(1) r1 reach_disconnect by metis+
  have q1: "sctx_pooln (sctx_at w1 ?p) = int ?p" "\<not> sctx_reconnect_requested (sctx_at (stratum_disconnect ?p w1) ?p)"
    "\<not> w_abort (stratum_disconnect ?p w1)"
    using i1 assms(3) l1 by (auto simp: idle_def list_all_iff)
  have r2: "reach w2 = reach ?w"
    unfolding w2_def using q1(2) r1 by (subst reach_upd_sctx) simp_all
  have f1: "stratum_find_next_pool_index w1 (int ?p) = ?i"
    using r1 assms(2) by (intro find_next_reach) (auto simp: idle_def)
  have pooln2: "sctx_pooln (sctx_at v q) = int q" if "reach v = reach ?w" "q < w_num_pools ?w" for v q
    using idle_reach [OF that(1)] assms(2) that reachD(1) [OF that(1)] by (auto simp: idle_def list_all_iff)
  have in_range: "?i \<noteq> int ?p \<Longrightarrow> 0 \<le> ?i \<and> ?i < int (w_num_pools ?w)"
    using find_next_spec [of ?w "int ?p"] usable_range by force
  have sw: "\<exists>w'. stratum_switch_to_pool ?i ?p w2 = (w', nat ?i, True) \<and> reach w' = reach ?w" if "?i \<noteq> int ?p"
    using that in_range pooln2 [OF r2 assms(3)] reachD(1) [OF r2] r2 switch_reach [of ?i ?p w2]
    by (force simp: stratum_switch_to_pool_def Let_def)
  have ab: "\<not> w_abort w2" "w_opts w2 = w_opts ?w" using reachD(3,4) [OF r2] assms(2) by (simp_all add: idle_def)
  have dev: "\<not> devfee_is_dev_pool w1 (int ?p)" using assms(4) reachD(2) [OF r1] by (simp add: devfee_is_dev_pool_def)
  have run: "service_iteration J platform env sv =
      Some (stratum_handle_disconnected_session False (sv\<lparr>sv_world := w1\<rparr>))"
    using o dev q1(1) assms(1) by (simp add: service_iteration_def Let_def unreachable_def)
  have tk: "stratum_take_reconnect_request ?p (stratum_disconnect ?p w1) = (w2, False)"
    using q1(2) by (simp add: stratum_take_reconnect_request_def w2_def)
  note hd = stratum_handle_disconnected_session_def [of False "sv\<lparr>sv_world := w1\<rparr>"]
  show ?thesis
  proof (cases "?i \<noteq> int ?p")
    case True
    then obtain w' where w': "stratum_switch_to_pool ?i ?p w2 = (w', nat ?i, True)" "reach w' = reach ?w" using sw by blast
    show ?thesis
      using run tk q1 f1 True w' ab in_range pooln2 [OF w'(2), of "nat ?i"]
      by (auto simp: hd Let_def failed_step_def stratum_wait_before_retry_def miner_should_abort_def miner_request_abort_def
          split: if_splits)
  next
    case False
    with run tk q1 f1 ab r2 pooln2 [OF r2 assms(3)] show ?thesis
      by (auto simp: hd Let_def failed_step_def stratum_wait_before_retry_def miner_should_abort_def miner_request_abort_def)
  qed
qed

text \<open>The attempts left: a full round of the pool table for each retry left, and the rest of this round.\<close>

definition round_left :: "int \<Rightarrow> int \<Rightarrow> int \<Rightarrow> int" where
  "round_left n i c = (if i = c then n else (c - i) mod n)"

definition attempts_left :: "'j service \<Rightarrow> int" where
  "attempts_left sv =
     (let w = sv_world sv; n = int (w_num_pools w)
      in (opt_retries (w_opts w) - sv_retry_count sv) * n + round_left n (int (sv_pool sv)) (sv_cycle_start sv))"

definition on_user_pool :: "'j service \<Rightarrow> bool" where
  "on_user_pool sv \<longleftrightarrow>
     idle (sv_world sv) \<and> miner_pool_is_usable (sv_world sv) (int (sv_pool sv)) \<and>
     \<not> (df_enabled (w_devfee (sv_world sv)) \<and>
         miner_pool_is_usable (sv_world sv) (df_dev_pool_index (w_devfee (sv_world sv))))"

lemma on_user_poolD:
  assumes "on_user_pool sv"
  shows "idle (sv_world sv)" "sv_pool sv < w_num_pools (sv_world sv)"
    "\<not> devfee_is_dev_pool (sv_world sv) (int (sv_pool sv))"
  using assms usable_range [of "sv_world sv" "int (sv_pool sv)"]
  by (auto simp: on_user_pool_def devfee_is_dev_pool_def)

lemma find_next_usable:
  assumes "miner_pool_is_usable w i"
  shows "miner_pool_is_usable w (stratum_find_next_pool_index w i)"
proof (cases "stratum_find_next_pool_index w i = i")
  case False
  then show ?thesis using find_next_spec [OF False] by force
qed (simp add: assms)

lemma on_user_pool_step:
  assumes "on_user_pool sv" "reach (sv_world sv') = reach (sv_world sv)"
    and "int (sv_pool sv') = stratum_find_next_pool_index (sv_world sv) (int (sv_pool sv))"
  shows "on_user_pool sv'" "miner_pool_is_usable (sv_world sv') = miner_pool_is_usable (sv_world sv)"
proof -
  show u: "miner_pool_is_usable (sv_world sv') = miner_pool_is_usable (sv_world sv)"
    using assms(1,2) by (intro usable_reach) (auto simp: on_user_pool_def idle_def)
  show "on_user_pool sv'"
    using assms find_next_usable [of "sv_world sv" "int (sv_pool sv)"] idle_reach [OF assms(2)] reachD(2) [OF assms(2)]
    by (auto simp: on_user_pool_def u)
qed

lemma round_left_bounds:
  assumes "0 \<le> i" "i < n" "0 \<le> c" "c < n"
  shows "1 \<le> round_left n i c" "round_left n i c \<le> n"
  using assms cyclic_distance(1,2) [of i n c] less_imp_le [of "(c - i) mod n" n] by (auto simp: round_left_def)

lemma round_left_decreases:
  assumes "miner_pool_is_usable w c" "miner_pool_is_usable w i"
    and "stratum_find_next_pool_index w i \<noteq> i" "stratum_find_next_pool_index w i \<noteq> c"
  shows "round_left (int (w_num_pools w)) (stratum_find_next_pool_index w i) c < round_left (int (w_num_pools w)) i c"
proof -
  let ?n = "int (w_num_pools w)" and ?j = "stratum_find_next_pool_index w i"
  have c: "0 \<le> c" "c < ?n" and i: "0 \<le> i" "i < ?n" and j: "0 \<le> ?j" "?j < ?n"
    using usable_range [OF assms(1)] usable_range [OF assms(2)] usable_range [OF find_next_usable [OF assms(2)]] by auto
  obtain off where off: "1 \<le> off" "?j = (i + int off) mod ?n"
    "\<forall>o'. 1 \<le> o' \<longrightarrow> o' < off \<longrightarrow> \<not> miner_pool_is_usable w ((i + int o') mod ?n)"
    using find_next_spec [OF assms(3)] by blast
  show ?thesis
  proof (cases "c = i")
    case True
    then show ?thesis using assms(3,4) cyclic_distance(2) [of ?j ?n c] c j by (simp add: round_left_def)
  next
    case False
    note d = cyclic_distance [OF i c False]
    have "\<not> nat ((c - i) mod ?n) < off"
    proof
      assume "nat ((c - i) mod ?n) < off"
      moreover have "1 \<le> nat ((c - i) mod ?n)" using d(1) by linarith
      ultimately have "\<not> miner_pool_is_usable w ((i + int (nat ((c - i) mod ?n))) mod ?n)" using off(3) by blast
      with d assms(1) show False by simp
    qed
    moreover have "int off \<noteq> (c - i) mod ?n" using off(2) assms(4) d(3) by metis
    ultimately have "int off < (c - i) mod ?n" using d(1) by linarith
    from d(4) [OF _ this] off False assms(4) show ?thesis by (auto simp: round_left_def)
  qed
qed

lemma failed_step_moved:
  "failed_step w i sv sv' go \<Longrightarrow> i \<noteq> int (sv_pool sv) \<and> i \<noteq> sv_cycle_start sv \<Longrightarrow>
   go \<and> sv_retry_count sv' = sv_retry_count sv \<and> sv_cycle_start sv' = sv_cycle_start sv"
  by (simp add: failed_step_def)

lemma failed_step_counted:
  "failed_step w i sv sv' go \<Longrightarrow> go \<Longrightarrow> \<not> (i \<noteq> int (sv_pool sv) \<and> i \<noteq> sv_cycle_start sv) \<Longrightarrow>
   0 \<le> opt_retries (w_opts w) \<Longrightarrow>
   sv_retry_count sv' = sv_retry_count sv + 1 \<and> sv_cycle_start sv' = i \<and>
   sv_retry_count sv < opt_retries (w_opts w)"
  by (simp only: failed_step_def if_False) (auto split: if_splits)

lemma failed_step_go:
  "failed_step w i sv sv' go \<Longrightarrow> if go then reach (sv_world sv') = reach w \<and> int (sv_pool sv') = i
   else miner_should_abort (sv_world sv')"
  by (auto simp: failed_step_def split: if_splits)

lemma gives_up:
  assumes "on_user_pool sv" "miner_pool_is_usable (sv_world sv) (sv_cycle_start sv)"
    and "0 \<le> opt_retries (w_opts (sv_world sv))" "sv_retry_count sv \<le> opt_retries (w_opts (sv_world sv))"
    and "list_all unreachable envs" "attempts_left sv \<le> int (length envs)"
  shows "\<exists>sv'. service_loop J platform envs sv = Some (sv', True) \<and> miner_should_abort (sv_world sv')"
  using assms
proof (induction envs arbitrary: sv)
  case Nil
  let ?n = "int (w_num_pools (sv_world sv))"
  have "1 \<le> round_left ?n (int (sv_pool sv)) (sv_cycle_start sv)"
    using usable_range [OF Nil(2)] on_user_poolD(2) [OF Nil(1)] by (intro round_left_bounds) auto
  moreover have "0 \<le> (opt_retries (w_opts (sv_world sv)) - sv_retry_count sv) * ?n" using Nil by simp
  ultimately show ?case using Nil(6) by (simp add: attempts_left_def Let_def)
next
  case (Cons env rest)
  let ?w = "sv_world sv" and ?p = "int (sv_pool sv)" and ?n = "int (w_num_pools (sv_world sv))"
  let ?i = "stratum_find_next_pool_index ?w ?p"
  note u = on_user_poolD [OF Cons.prems(1)]
  have rng: "0 \<le> sv_cycle_start sv" "sv_cycle_start sv < ?n" "?p < ?n" "0 \<le> ?i" "?i < ?n"
    using usable_range [OF Cons.prems(2)] u(2) usable_range [OF find_next_usable [of ?w ?p]] Cons.prems(1)
    by (auto simp: on_user_pool_def)
  from Cons.prems(5) obtain sv1 go where it: "service_iteration J platform env sv = Some (sv1, go)"
    and f: "failed_step ?w ?i sv sv1 go"
    using failed_iteration [OF _ u] by (fastforce simp: list_all_iff)
  have run: "service_loop J platform (env # rest) sv = (if go then service_loop J platform rest sv1 else Some (sv1, True))"
    using Cons.prems(5) u(1) it by (cases go) (auto simp: Let_def unreachable_def idle_def miner_should_abort_def)
  show ?case
  proof (cases go)
    case False
    with failed_step_go [OF f] run show ?thesis by simp
  next
    case True
    with failed_step_go [OF f] have r: "reach (sv_world sv1) = reach ?w" "int (sv_pool sv1) = ?i" by simp_all
    note st = on_user_pool_step [OF Cons.prems(1) r]
    have eq: "w_num_pools (sv_world sv1) = w_num_pools ?w" "w_opts (sv_world sv1) = w_opts ?w"
      using reachD(1,4) [OF r(1)] by auto
    have left: "attempts_left sv1 \<le> attempts_left sv - 1 \<and> sv_retry_count sv1 \<le> opt_retries (w_opts ?w) \<and>
        miner_pool_is_usable ?w (sv_cycle_start sv1)"
    proof (cases "?i \<noteq> ?p \<and> ?i \<noteq> sv_cycle_start sv")
      case True
      then show ?thesis
        using failed_step_moved [OF f True] r eq Cons.prems(2,4) round_left_decreases [OF Cons.prems(2), of ?p] Cons.prems(1)
        by (simp add: attempts_left_def Let_def on_user_pool_def)
    next
      case False
      have "1 \<le> round_left ?n ?p (sv_cycle_start sv)" using rng by (intro round_left_bounds) auto
      moreover have c: "sv_retry_count sv1 = sv_retry_count sv + 1" "sv_cycle_start sv1 = ?i"
        "sv_retry_count sv < opt_retries (w_opts ?w)"
        using failed_step_counted [OF f \<open>go\<close> False Cons.prems(3)] by simp_all
      moreover have "attempts_left sv1 = (opt_retries (w_opts ?w) - sv_retry_count sv) * ?n"
        using r eq c by (simp add: attempts_left_def Let_def round_left_def algebra_simps)
      moreover have "miner_pool_is_usable ?w ?i" using Cons.prems(1) find_next_usable by (auto simp: on_user_pool_def)
      ultimately show ?thesis by (simp add: attempts_left_def Let_def)
    qed
    with Cons.prems st eq have "\<exists>sv'. service_loop J platform rest sv1 = Some (sv', True) \<and> miner_should_abort (sv_world sv')"
      by (intro Cons.IH) (auto simp: eq)
    with True run show ?thesis by simp
  qed
qed

text \<open>
  C34. The retry limit works: when the thread starts on a usable pool and no pool can be reached, it
  requests an abort and ends after at most one round of the pool table for each permitted retry
  and one more, whatever the number of pools and the pool it starts on.
\<close>

theorem unreachable_pools_give_up:
  assumes "on_user_pool \<lparr>sv_world = w, sv_pool = p, sv_retry_count = 0, sv_cycle_start = int p\<rparr>"
    and "0 \<le> opt_retries (w_opts w)" "list_all unreachable envs"
    and "(opt_retries (w_opts w) + 1) * int (w_num_pools w) \<le> int (length envs)"
  shows "\<exists>sv. stratum_service_thread J platform envs p w = Some (sv, True) \<and> miner_should_abort (sv_world sv)"
proof -
  let ?sv = "\<lparr>sv_world = w, sv_pool = p, sv_retry_count = 0, sv_cycle_start = int p\<rparr>"
  have "miner_pool_is_usable w (int p)" "p < w_num_pools w" "idle w"
    using assms(1) on_user_poolD(2) [OF assms(1)] by (auto simp: on_user_pool_def)
  moreover then have "sctx_pooln (sctx_at w p) = int p" by (auto simp: idle_def list_all_iff)
  moreover have "\<exists>sv'. service_loop J platform envs ?sv = Some (sv', True) \<and> miner_should_abort (sv_world sv')"
    using assms calculation
    by (intro gives_up) (auto simp: attempts_left_def Let_def round_left_def algebra_simps)
  ultimately show ?thesis
    by (auto simp: stratum_service_thread_def miner_should_abort_def stratum_thread_active_store_def upd_sctx_def)
qed

lemma witness_down_unreachable [simp]: "unreachable witness_down"
  by (simp add: unreachable_def witness_down_def Let_def)

lemma witness_on_user_pool: "on_user_pool \<lparr>sv_world = witness_service_world, sv_pool = 0, sv_retry_count = n, sv_cycle_start = c\<rparr>"
  by (auto simp: on_user_pool_def idle_def witness_service_simps witness_usable zero_sctx_def)

theorem unreachable_pools_give_up_witness:
  "\<exists>sv. stratum_service_thread jval_lib None (replicate 6 witness_down) 0 witness_service_world = Some (sv, True) \<and>
     miner_should_abort (sv_world sv)"
  by (rule unreachable_pools_give_up)
    (use witness_on_user_pool [of 0 0] in \<open>simp_all add: witness_service_simps list_all_iff\<close>)

section \<open>Where the dev slot breaks the bookkeeping\<close>

text \<open>A connection to the dev pool makes its slot the start of the retry cycle, and the slice's end keeps it.\<close>

lemma leave_dev_pool_cycle: "sv_cycle_start (leave_dev_pool platform now sv) = sv_cycle_start sv"
  by (simp add: leave_dev_pool_def split_beta split: bool.split)

lemma slice_moves_cycle_start:
  assumes "service_iteration J platform env sv = Some (sv', True)"
    and "stratum_open_pool_connection J (se_open env) (sv_pool sv) (sv_world sv) = Some (w1, True)"
    and "serving (sv_pool sv) (sv_world sv)" "devfee_is_dev_pool (sv_world sv) (int (sv_pool sv))"
    and "\<not> miner_should_abort (sv_world sv')"
  shows "sv_cycle_start sv' = int (sv_pool sv)"
proof -
  let ?p = "sv_pool sv"
  define sv1 where "sv1 = stratum_reset_retry_cycle (sv\<lparr>sv_world := w1\<rparr>)"
  have w1: "serving ?p w1" using assms(2,3) by (rule serving_open)
  have c1: "sv_cycle_start sv1 = int ?p" "sv_pool sv1 = ?p"
    using servingD(3) [OF w1] by (simp_all add: sv1_def stratum_reset_retry_cycle_def)
  from assms(1,2) obtain w2' where
    l: "stratum_run_message_loop (se_loop_now env) ?p (se_loop env) w1 = Some w2'"
    by (auto simp: service_iteration_def Let_def split: option.splits)
  define w2 where "w2 = (if se_after_abort env then miner_request_abort w2' else w2')"
  note k = message_loop_kept [OF l [unfolded stratum_run_message_loop_def]]
  have "w_devfee w2' = w_devfee w1" using k staticD(3) [of w2'] by (fastforce simp: loop_kept_def)
  then have "w_devfee w2 = w_devfee (sv_world sv)"
    using staticD(3) [OF open_static [OF assms(2)]] by (simp add: w2_def miner_request_abort_def)
  moreover have "sctx_pooln (sctx_at w2 ?p) = int ?p"
    using servingD(3) [OF serving_loop_kept [OF w1 k]] by (simp add: w2_def miner_request_abort_def)
  ultimately have dev: "devfee_is_dev_pool w2 (sctx_pooln (sctx_at w2 ?p))"
    using assms(4) by (simp add: devfee_is_dev_pool_def)
  have "sv_cycle_start sv' = sv_cycle_start sv1 \<or>
      (miner_should_abort w2 \<and> stratum_handle_disconnected_session (se_pause_abort env) (sv1\<lparr>sv_world := w2\<rparr>) = (sv', True))"
    using assms(1,2) l dev
    by (auto simp: service_iteration_def Let_def split_beta sv1_def [symmetric] w2_def [symmetric] leave_dev_pool_cycle
        split: if_splits)
  moreover have "w_abort (stratum_disconnect ?p w2) = w_abort w2" using staticD(4) [OF static_disconnect] .
  ultimately show ?thesis
    using c1 by (auto simp: stratum_handle_disconnected_session_def Let_def miner_should_abort_def)
qed



definition reconnect_inv :: "nat \<Rightarrow> 'j world \<Rightarrow> bool" where
  "reconnect_inv p w \<longleftrightarrow> p < length (w_pools w) \<and> sctx_reconnect_requested (sctx_at w p)"

lemma reconnect_inv_link: "reconnect_inv p w \<Longrightarrow> link_kept p w w' \<Longrightarrow> reconnect_inv p w'"
  by (auto simp: reconnect_inv_def link_kept_def same_link_def)

interpretation hs_reconnect: kept_by_messages reconnect_inv
proof
  fix p s and w :: "'a world"
  assume "reconnect_inv p w" "only_buffer (sctx_at w p) s"
  then show "reconnect_inv p (upd_sctx p (\<lambda>_. s) w)"
    using only_buffer_session(2) by (auto simp: reconnect_inv_def sctx_at_upd_sctx same_link_def)
qed (auto intro: reconnect_inv_link)

lemma reconnect_inv_upd:
  "reconnect_inv p w \<Longrightarrow> (\<And>s. sctx_reconnect_requested s \<Longrightarrow> sctx_reconnect_requested (f s)) \<Longrightarrow>
   reconnect_inv p (upd_sctx q f w)"
  by (cases "q < length (w_pools w)")
    (auto simp: reconnect_inv_def sctx_at_upd_sctx, simp add: upd_sctx_def upd_pool_def list_update_beyond)

lemma reconnect_inv_frame [simp]:
  "reconnect_inv p (w\<lparr>w_runtime := rs\<rparr>) = reconnect_inv p w" "reconnect_inv p (w\<lparr>w_generation := g\<rparr>) = reconnect_inv p w"
  "reconnect_inv p (w\<lparr>w_abort := b\<rparr>) = reconnect_inv p w" "reconnect_inv p (w\<lparr>w_devfee := d\<rparr>) = reconnect_inv p w"
  "reconnect_inv p (w\<lparr>w_current_pool := c\<rparr>) = reconnect_inv p w" "reconnect_inv p (miner_request_abort w) = reconnect_inv p w"
  by (simp_all add: reconnect_inv_def miner_request_abort_def)

lemma reconnect_inv_disconnect: "reconnect_inv p w \<Longrightarrow> reconnect_inv p (stratum_disconnect q w)"
  unfolding stratum_disconnect_def stratum_reset_work_state_def miner_work_generation_bump_def
  by (intro reconnect_inv_upd iffD2 [OF reconnect_inv_frame(2)] iffD2 [OF reconnect_inv_frame(1)])
    (simp_all add: stratum_close_transport_def stratum_reset_socket_buffer_def stratum_reset_session_runtime_def
      stratum_free_job_def stratum_set_authenticated_def stratum_store_next_diff_def)

lemma reconnect_inv_lift:
  "reconnect_inv p w \<Longrightarrow> (\<And>s. sctx_reconnect_requested s \<Longrightarrow> sctx_reconnect_requested (fst (f s))) \<Longrightarrow>
   reconnect_inv p (fst (lift_session f q w))"
  by (cases "q < length (w_pools w)"; cases "f (sctx_at w q)")
    (auto simp: lift_session_def reconnect_inv_def sctx_at_upd_sctx, metis fst_conv,
     simp add: upd_sctx_def upd_pool_def list_update_beyond)

lemma reconnect_inv_subscribe_attempt:
  assumes "subscribe_attempt J retry p rq w = Some (w', r)" "reconnect_inv p w"
  shows "reconnect_inv p w'"
proof -
  have "sctx_reconnect_requested (fst (stratum_apply_subscribe_reply algo J val s)) = sctx_reconnect_requested s" for algo val s
    using same_link_setters(3) [of s algo J "json_object_get J val ''result''" 1]
    by (cases "stratum_parse_extranonce algo J (json_object_get J val ''result'') 1 s")
      (auto simp: stratum_apply_subscribe_reply_def Let_def stratum_store_session_id_def stratum_store_next_diff_def
        same_link_def split: bool.split)
  then show ?thesis
    using assms
    by (auto simp: subscribe_attempt_def split_beta split: option.splits if_splits
        dest!: hs_reconnect.kept_request intro: reconnect_inv_lift)
qed

lemma reconnect_inv_authorize:
  assumes "stratum_authorize J user pass p rq extra w = Some (w', ok)" "reconnect_inv p w"
  shows "reconnect_inv p w'"
proof -
  obtain status val w1 where q: "stratum_send_request_and_wait J (stratum_build_authorize_request user pass)
      STRATUM_REQUEST_AUTHORIZE 0 p rq w = Some (status, val, w1)"
    using assms(1) by (auto simp: stratum_authorize_def split: option.splits)
  note w1 = hs_reconnect.kept_request [OF q assms(2)]
  obtain w2 r where a: "lift_session (stratum_apply_authorize_reply J val) p w1 = (w2, r)" by force
  have "reconnect_inv p (fst (lift_session (stratum_apply_authorize_reply J val) p w1))"
    using w1 by (rule reconnect_inv_lift) (simp add: stratum_apply_authorize_reply_def stratum_set_authenticated_def)
  with assms(1) q a w1 show ?thesis
    by (auto simp: stratum_authorize_def stratum_try_extranonce_subscribe_def split: if_splits bool.splits
        dest: hs_reconnect.kept_request)
qed

lemma reconnect_inv_login:
  assumes "xmr_stratum_login J alloc user pass p rq w = Some (w', ok)" "reconnect_inv p w"
  shows "reconnect_inv p w'"
proof -
  obtain status val w1 where q: "stratum_send_request_and_wait J (login_request user pass)
      STRATUM_REQUEST_LOGIN 30 p rq w = Some (status, val, w1)"
    using assms(1) by (auto simp: xmr_stratum_login_def split: option.splits)
  note w1 = hs_reconnect.kept_request [OF q assms(2)]
  define job where "job = json_object_get J (json_object_get J val ''result'') ''job''"
  let ?w2 = "\<lambda>sid nh. upd_sctx p (\<lambda>s. (stratum_set_authenticated True (stratum_store_session_id sid s))
    \<lparr>sctx_xmr_nicehash := nh\<rparr>) w1"
  have w2: "reconnect_inv p (?w2 sid nh)" for sid nh
    using w1 by (rule reconnect_inv_upd)
      (simp add: stratum_set_authenticated_def stratum_store_session_id_def stratum_store_next_diff_def)
  have h: "reconnect_inv p v'" if "xmr_stratum_handle_job J alloc job p (?w2 sid nh) = (v', b)" for sid nh v' b
    using w2 xmr.notify_pools [OF that] xmr.notify_link [OF that]
    by (intro reconnect_inv_link [OF w2]) (auto simp: link_kept_def)
  have "w' = w1 \<or> (\<exists>sid nh. w' = ?w2 sid nh \<or> xmr_stratum_handle_job J alloc job p (?w2 sid nh) = (w', ok))"
    using assms(1) q by (auto simp: xmr_stratum_login_def Let_def job_def [symmetric] split: if_splits)
  with w1 w2 h show ?thesis by blast
qed

lemma reconnect_inv_open:
  assumes "stratum_open_pool_connection J oe p w = Some (w', ok)" "reconnect_inv p w"
  shows "reconnect_inv p w'"
proof -
  have t: "reconnect_inv p (fst (lift_session f p v))" if "reconnect_inv p v" "\<And>s. only_transport s (fst (f s))"
    for f and v :: "'a world"
    using that(1) only_transportD(3) [OF that(2)] by (intro reconnect_inv_lift) auto
  obtain w0 b0 where e: "ensure_pool_url p w = (w0, b0)" by force
  obtain w1 b1 where c: "lift_session (stratum_connect (oe_curl oe)) p w0 = (w1, b1)" by force
  have w0: "reconnect_inv p w0"
    using t [of w "stratum_set_url (pool_url (pool_at w p))"] set_url_only_transport e assms(2)
    by (auto simp: ensure_pool_url_def split: if_splits)
  have w1: "reconnect_inv p w1"
    using t [OF w0, of "stratum_connect (oe_curl oe)"] connect_only_transport c by simp
  have sub: "stratum_subscribe J p a b u = Some (v, k) \<Longrightarrow> reconnect_inv p u \<Longrightarrow> reconnect_inv p v" for a b u v k
    by (auto simp: stratum_subscribe_def split: option.splits prod.splits dest: reconnect_inv_subscribe_attempt)
  show ?thesis
    using assms(1) e c w0 w1
    by (auto simp: stratum_open_pool_connection_def Let_def split: bool.splits if_splits option.splits
        dest!: reconnect_inv_login sub reconnect_inv_authorize intro!: reconnect_inv_disconnect)
qed

lemma reconnect_inv_switched: "reconnect_inv q w \<Longrightarrow> reconnect_inv q (fst (stratum_switch_to_pool i p w))"
  by (auto simp: stratum_switch_to_pool_def Let_def miner_set_current_pool_index_def stratum_thread_active_store_def
      intro!: reconnect_inv_upd)

lemma reconnect_inv_set_target: "reconnect_inv p w \<Longrightarrow> reconnect_inv p (devfee_set_pool_target platform t w)"
  unfolding devfee_set_pool_target_def Let_def reconnect_inv_frame
  by (cases "nat (df_dev_pool_index (w_devfee w)) < length (w_pools w)")
    (auto simp: reconnect_inv_def sctx_at_def pool_at_upd_pool stratum_set_url_def,
     simp_all add: upd_pool_def list_update_beyond)

lemma reconnect_inv_leave:
  assumes "reconnect_inv p (sv_world sv)"
  shows "reconnect_inv p (sv_world (leave_dev_pool platform now sv))"
proof -
  have "reconnect_inv p (fst (devfee_advance_target platform now (sv_world sv)))"
    using assms by (auto simp: devfee_advance_target_def Let_def intro: reconnect_inv_set_target)
  then show ?thesis
    by (auto simp: leave_dev_pool_def split_beta devfee_abort_slice_def Let_def split: bool.split
        intro!: reconnect_inv_disconnect reconnect_inv_switched)
qed


lemma leave_dev_pool_abort: "w_abort (sv_world (leave_dev_pool platform now sv)) = w_abort (sv_world sv)"
proof -
  have d: "w_abort (stratum_disconnect p w) = w_abort w" for p and w :: "'a world"
    using staticD(4) [OF static_disconnect] .
  have s: "w_abort (fst (stratum_switch_to_pool i p w)) = w_abort w" for i p and w :: "'a world"
    by (simp add: stratum_switch_to_pool_def Let_def miner_set_current_pool_index_def stratum_thread_active_store_def
        upd_sctx_def)
  have "w_abort (fst (devfee_advance_target platform now w)) = w_abort w" for w :: "'a world"
    by (simp add: devfee_advance_target_def devfee_set_pool_target_def Let_def)
  then show ?thesis
    by (simp add: leave_dev_pool_def split_beta devfee_abort_slice_def Let_def d s split: bool.split)
qed

definition witness_dev_service :: "jval service" where
  "witness_dev_service = \<lparr>sv_world = upd_sctx 2 (\<lambda>s. s\<lparr>sctx_reconnect_requested := True\<rparr>)
     (witness_service_world\<lparr>w_current_pool := 2\<rparr>), sv_pool = 2, sv_retry_count = 0, sv_cycle_start = 0\<rparr>"


end
