(* ===== verification/Scrypt_Pads.thy ===== *)
theory Scrypt_Pads
  imports Prelude "HOL-Library.Multiset"
begin

text \<open>
  The scratchpads of the scrypt threads in \<open>src/algorithm/scrypt_neon.c\<close>: allocation, the release of a
  partly filled table when an allocation fails, and the block a scan uses. No block leaks and none
  is freed twice.
\<close>

section \<open>Allocation and release\<close>

text \<open>
  \<open>thread_scratchpads\<close> and \<open>num_scratchpads\<close>; \<open>scratch_live\<close> lists the blocks of \<open>posix_memalign\<close> that
  are not freed.
\<close>

record scrypt_pads =
  thread_scratchpads :: "nat option list option"
  num_scratchpads :: nat
  scratch_live :: "nat list"

definition scrypt_cleanup :: "scrypt_pads \<Rightarrow> scrypt_pads" where
  "scrypt_cleanup s =
     (case thread_scratchpads s of
        None \<Rightarrow> s
      | Some pads \<Rightarrow>
          s\<lparr>thread_scratchpads := None, num_scratchpads := 0,
            scratch_live := foldl (\<lambda>live p. case p of None \<Rightarrow> live | Some a \<Rightarrow> remove1 a live) (scratch_live s)
                              (take (num_scratchpads s) pads)\<rparr>)"

text \<open>\<open>alloc i\<close> is the block \<open>posix_memalign\<close> gives thread \<open>i\<close>, \<open>calloc_ok\<close> the outcome of \<open>calloc\<close>.\<close>

fun alloc_pads :: "(nat \<Rightarrow> nat option) \<Rightarrow> nat list \<Rightarrow> scrypt_pads \<Rightarrow> int \<times> scrypt_pads" where
  "alloc_pads alloc [] s = (0, s)"
| "alloc_pads alloc (i # is) s =
     (case alloc i of
        None \<Rightarrow> (-1, scrypt_cleanup s)
      | Some a \<Rightarrow> alloc_pads alloc is
          (s\<lparr>thread_scratchpads := map_option (\<lambda>pads. pads[i := Some a]) (thread_scratchpads s),
             scratch_live := a # scratch_live s\<rparr>))"

definition scrypt_init :: "bool \<Rightarrow> (nat \<Rightarrow> nat option) \<Rightarrow> nat \<Rightarrow> scrypt_pads \<Rightarrow> int \<times> scrypt_pads" where
  "scrypt_init calloc_ok alloc num_threads s0 =
     (let s = (if thread_scratchpads s0 \<noteq> None then scrypt_cleanup s0 else s0)
      in if \<not> calloc_ok then (-1, s)
         else alloc_pads alloc [0..<num_threads]
                (s\<lparr>thread_scratchpads := Some (replicate num_threads None), num_scratchpads := num_threads\<rparr>))"

text \<open>
  The block a scan uses: its own, or one it allocates and frees again; \<open>fallback\<close> is the outcome of
  that allocation.
\<close>

definition scan_scratchpad :: "scrypt_pads \<Rightarrow> nat \<Rightarrow> nat option \<Rightarrow> nat option" where
  "scan_scratchpad s thr_id fallback =
     (case thread_scratchpads s of
        Some pads \<Rightarrow> if thr_id < num_scratchpads s then pads ! thr_id else fallback
      | None \<Rightarrow> fallback)"

section \<open>The scratchpads are freed\<close>

definition somes :: "'a option list \<Rightarrow> 'a list" where
  "somes xs = map the (filter (\<lambda>x. x \<noteq> None) xs)"

text \<open>Besides the blocks \<open>L\<close> of others, exactly the installed scratchpads are live.\<close>

definition pads_inv :: "nat multiset \<Rightarrow> scrypt_pads \<Rightarrow> bool" where
  "pads_inv L s \<longleftrightarrow>
     (case thread_scratchpads s of
        None \<Rightarrow> num_scratchpads s = 0 \<and> mset (scratch_live s) = L
      | Some pads \<Rightarrow> length pads = num_scratchpads s \<and> mset (scratch_live s) = L + mset (somes pads))"

lemma somes_simps [simp]: "somes [] = []" "somes (None # xs) = somes xs" "somes (Some a # xs) = a # somes xs"
  by (simp_all add: somes_def)

lemma cleanup_fold:
  "mset live = L + mset (somes pads) \<Longrightarrow>
   mset (foldl (\<lambda>live p. case p of None \<Rightarrow> live | Some a \<Rightarrow> remove1 a live) live pads) = L"
proof (induction pads arbitrary: live)
  case (Cons p pads)
  then show ?case by (cases p) simp_all
qed simp

lemma scrypt_cleanup_inv:
  assumes "pads_inv L s"
  shows "thread_scratchpads (scrypt_cleanup s) = None" "num_scratchpads (scrypt_cleanup s) = 0" "mset (scratch_live (scrypt_cleanup s)) = L"
  using assms by (auto simp: pads_inv_def scrypt_cleanup_def cleanup_fold split: option.splits)

lemma somes_update:
  "i < length pads \<Longrightarrow> pads ! i = None \<Longrightarrow> mset (somes (pads[i := Some a])) = add_mset a (mset (somes pads))"
proof (induction pads arbitrary: i)
  case (Cons p pads)
  show ?case
  proof (cases i)
    case (Suc j)
    then show ?thesis using Cons by (cases p) simp_all
  qed (use Cons.prems in simp)
qed simp

lemma alloc_pads_inv:
  assumes "pads_inv L s" "thread_scratchpads s = Some pads" "distinct is" "\<forall>i \<in> set is. i < length pads \<and> pads ! i = None"
    and "alloc_pads alloc is s = (rc, s')"
  shows "pads_inv L s' \<and> (rc = 0 \<and> (\<exists>pads'. thread_scratchpads s' = Some pads' \<and> length pads' = length pads \<and>
      (\<forall>i < length pads. (i \<in> set is \<or> pads ! i \<noteq> None) \<longrightarrow> pads' ! i \<noteq> None)) \<or>
    rc = -1 \<and> thread_scratchpads s' = None)"
  using assms
proof (induction "is" arbitrary: s pads)
  case (Cons i "is")
  show ?case
  proof (cases "alloc i")
    case None
    then show ?thesis using Cons.prems scrypt_cleanup_inv [OF Cons.prems(1)] by (auto simp: pads_inv_def)
  next
    case (Some a)
    let ?s = "s\<lparr>thread_scratchpads := map_option (\<lambda>pads. pads[i := Some a]) (thread_scratchpads s), scratch_live := a # scratch_live s\<rparr>"
    have inv: "pads_inv L ?s" using Cons.prems(1,2,4) by (simp add: pads_inv_def somes_update)
    have pads: "thread_scratchpads ?s = Some (pads[i := Some a])" using Cons.prems(2) by simp
    have free: "\<forall>j \<in> set is. j < length (pads[i := Some a]) \<and> pads[i := Some a] ! j = None"
      using Cons.prems(3,4) by (auto simp: nth_list_update)
    have rest: "alloc_pads alloc is ?s = (rc, s')" using Cons.prems(5) Some by simp
    have "distinct is" using Cons.prems(3) by simp
    from Cons.IH [OF inv pads this free rest] Cons.prems(4) show ?thesis by (auto simp: nth_list_update)
  qed
qed auto

text \<open>
  the scratchpads do not leak. From a state in which, besides the blocks \<open>L\<close> of others, exactly the installed
  scratchpads are live, \<open>scrypt_init\<close> returns 0 or -1. With 0 every thread has a block of its own table and with -1,
  whichever allocation failed, no table is left; in both cases the installed scratchpads are again exactly the live
  blocks besides \<open>L\<close>, and a cleanup leaves \<open>L\<close> alone.
\<close>

lemma scrypt_pads_balanced:
  assumes "pads_inv L s" "scrypt_init calloc_ok alloc num_threads s = (rc, s')"
  shows "pads_inv L s' \<and> mset (scratch_live (scrypt_cleanup s')) = L \<and>
    (rc = 0 \<and> thread_scratchpads s' \<noteq> None \<and> (\<forall>t < num_threads. scan_scratchpad s' t None \<noteq> None) \<or>
     rc = -1 \<and> thread_scratchpads s' = None)"
proof -
  let ?s1 = "if thread_scratchpads s \<noteq> None then scrypt_cleanup s else s"
  let ?s2 = "?s1\<lparr>thread_scratchpads := Some (replicate num_threads None), num_scratchpads := num_threads\<rparr>"
  have s1: "thread_scratchpads ?s1 = None" "mset (scratch_live ?s1) = L" "num_scratchpads ?s1 = 0"
    using assms(1) scrypt_cleanup_inv [OF assms(1)] by (auto simp: pads_inv_def split: option.splits)
  have s2: "pads_inv L ?s2" using s1 by (simp add: pads_inv_def somes_def)
  have "pads_inv L s' \<and> (rc = 0 \<and> thread_scratchpads s' \<noteq> None \<and> (\<forall>t < num_threads. scan_scratchpad s' t None \<noteq> None) \<or>
     rc = -1 \<and> thread_scratchpads s' = None)"
  proof (cases calloc_ok)
    case True
    then have al: "alloc_pads alloc [0..<num_threads] ?s2 = (rc, s')" using assms(2) by (simp add: scrypt_init_def Let_def)
    have res: "pads_inv L s' \<and> (rc = 0 \<and> (\<exists>pads'. thread_scratchpads s' = Some pads' \<and> length pads' = num_threads \<and>
      (\<forall>i < num_threads. pads' ! i \<noteq> None)) \<or> rc = -1 \<and> thread_scratchpads s' = None)"
      using alloc_pads_inv [OF s2 _ _ _ al, of "replicate num_threads None"] by simp
    then show ?thesis by (auto simp: scan_scratchpad_def pads_inv_def)
  next
    case False
    then show ?thesis using assms(2) s1 by (auto simp: scrypt_init_def Let_def pads_inv_def split: option.splits)
  qed
  then show ?thesis using scrypt_cleanup_inv(3) by blast
qed

end
