(* ===== verification/Sha256_Core.thy ===== *)
theory Sha256_Core
  imports Targets
begin

text \<open>
  The SHA-256 compression function of \<open>src/algorithm/sha256_neon.c\<close>, in the three forms the program
  has: the portable loops, the transforms over the ARMv8 SHA-2 instructions, and the interleaved
  transform of two messages. The instructions are those of the Arm architecture manual, on vectors
  of four 32-bit lanes. The compression function of FIPS 180-4 is defined beside them, and all
  forms compute it.
\<close>

section \<open>Constants and round functions\<close>

definition K256 :: "u32 list" where
  "K256 =
     [0x428a2f98, 0x71374491, 0xb5c0fbcf, 0xe9b5dba5] @
     [0x3956c25b, 0x59f111f1, 0x923f82a4, 0xab1c5ed5] @
     [0xd807aa98, 0x12835b01, 0x243185be, 0x550c7dc3] @
     [0x72be5d74, 0x80deb1fe, 0x9bdc06a7, 0xc19bf174] @
     [0xe49b69c1, 0xefbe4786, 0x0fc19dc6, 0x240ca1cc] @
     [0x2de92c6f, 0x4a7484aa, 0x5cb0a9dc, 0x76f988da] @
     [0x983e5152, 0xa831c66d, 0xb00327c8, 0xbf597fc7] @
     [0xc6e00bf3, 0xd5a79147, 0x06ca6351, 0x14292967] @
     [0x27b70a85, 0x2e1b2138, 0x4d2c6dfc, 0x53380d13] @
     [0x650a7354, 0x766a0abb, 0x81c2c92e, 0x92722c85] @
     [0xa2bfe8a1, 0xa81a664b, 0xc24b8b70, 0xc76c51a3] @
     [0xd192e819, 0xd6990624, 0xf40e3585, 0x106aa070] @
     [0x19a4c116, 0x1e376c08, 0x2748774c, 0x34b0bcb5] @
     [0x391c0cb3, 0x4ed8aa4a, 0x5b9cca4f, 0x682e6ff3] @
     [0x748f82ee, 0x78a5636f, 0x84c87814, 0x8cc70208] @
     [0x90befffa, 0xa4506ceb, 0xbef9a3f7, 0xc67178f2]"

definition H256_INIT :: "u32 list" where
  "H256_INIT = [
     0x6a09e667, 0xbb67ae85, 0x3c6ef372, 0xa54ff53a,
     0x510e527f, 0x9b05688c, 0x1f83d9ab, 0x5be0cd19]"

definition ROR32 :: "u32 \<Rightarrow> nat \<Rightarrow> u32" where
  "ROR32 x n = drop_bit n x OR push_bit (32 - n) x"

definition CH :: "u32 \<Rightarrow> u32 \<Rightarrow> u32 \<Rightarrow> u32" where
  "CH x y z = (x AND y) XOR (NOT x AND z)"

definition MAJ :: "u32 \<Rightarrow> u32 \<Rightarrow> u32 \<Rightarrow> u32" where
  "MAJ x y z = (x AND y) XOR (x AND z) XOR (y AND z)"

definition EP0 :: "u32 \<Rightarrow> u32" where
  "EP0 x = ROR32 x 2 XOR ROR32 x 13 XOR ROR32 x 22"

definition EP1 :: "u32 \<Rightarrow> u32" where
  "EP1 x = ROR32 x 6 XOR ROR32 x 11 XOR ROR32 x 25"

definition SIG0 :: "u32 \<Rightarrow> u32" where
  "SIG0 x = ROR32 x 7 XOR ROR32 x 18 XOR drop_bit 3 x"

definition SIG1 :: "u32 \<Rightarrow> u32" where
  "SIG1 x = ROR32 x 17 XOR ROR32 x 19 XOR drop_bit 10 x"

section \<open>The portable transforms\<close>

text \<open>The working variables \<open>a\<close> to \<open>h\<close>.\<close>

datatype sha_vars = Vars u32 u32 u32 u32 u32 u32 u32 u32

definition load_vars :: "u32 list \<Rightarrow> sha_vars" where
  "load_vars s = Vars (s ! 0) (s ! 1) (s ! 2) (s ! 3) (s ! 4) (s ! 5) (s ! 6) (s ! 7)"

fun add_vars :: "u32 list \<Rightarrow> sha_vars \<Rightarrow> u32 list" where
  "add_vars s (Vars a b c d e f g h) =
     [s ! 0 + a, s ! 1 + b, s ! 2 + c, s ! 3 + d, s ! 4 + e, s ! 5 + f, s ! 6 + g, s ! 7 + h]"

fun sha_round :: "u32 \<Rightarrow> u32 \<Rightarrow> sha_vars \<Rightarrow> sha_vars" where
  "sha_round k w (Vars a b c d e f g h) =
     (let t1 = h + EP1 e + CH e f g + k + w;
          t2 = EP0 a + MAJ a b c
      in Vars (t1 + t2) a b c (d + t1) e f g)"

definition sha_schedule :: "u32 list \<Rightarrow> u32 list" where
  "sha_schedule words =
     foldl (\<lambda>W i. W @ [SIG1 (W ! (i - 2)) + W ! (i - 7) + SIG0 (W ! (i - 15)) + W ! (i - 16)]) words [16..<64]"

definition sha256_transform_u32_sw :: "u32 list \<Rightarrow> u32 list \<Rightarrow> u32 list" where
  "sha256_transform_u32_sw state words =
     (let W = sha_schedule (map (\<lambda>i. words ! i) [0..<16])
      in add_vars state (foldl (\<lambda>v i. sha_round (K256 ! i) (W ! i) v) (load_vars state) [0..<64]))"

definition sha256_transform_sw :: "u32 list \<Rightarrow> bytes \<Rightarrow> u32 list" where
  "sha256_transform_sw state block =
     (let W = sha_schedule (map (\<lambda>i. be32dec (drop (i * 4) block)) [0..<16])
      in add_vars state (foldl (\<lambda>v i. sha_round (K256 ! i) (W ! i) v) (load_vars state) [0..<64]))"

section \<open>Vectors and the SHA-2 instructions\<close>

text \<open>A vector register of four lanes, lane 0 first.\<close>

datatype uint32x4_t = Lanes u32 u32 u32 u32

definition vld1q_u32 :: "u32 list \<Rightarrow> nat \<Rightarrow> uint32x4_t" where
  "vld1q_u32 p i = Lanes (p ! i) (p ! (i + 1)) (p ! (i + 2)) (p ! (i + 3))"

fun lanes :: "uint32x4_t \<Rightarrow> u32 list" where
  "lanes (Lanes x0 x1 x2 x3) = [x0, x1, x2, x3]"

fun vaddq_u32 :: "uint32x4_t \<Rightarrow> uint32x4_t \<Rightarrow> uint32x4_t" where
  "vaddq_u32 (Lanes x0 x1 x2 x3) (Lanes y0 y1 y2 y3) = Lanes (x0 + y0) (x1 + y1) (x2 + y2) (x3 + y3)"

definition vld1q_u8 :: "bytes \<Rightarrow> nat \<Rightarrow> bytes" where
  "vld1q_u8 p i = take 16 (drop i p)"

definition vrev32q_u8 :: "bytes \<Rightarrow> bytes" where
  "vrev32q_u8 v = rev (take 4 v) @ rev (take 4 (drop 4 v)) @ rev (take 4 (drop 8 v)) @ rev (take 4 (drop 12 v))"

definition vreinterpretq_u32_u8 :: "bytes \<Rightarrow> uint32x4_t" where
  "vreinterpretq_u32_u8 v = Lanes (le32dec v) (le32dec (drop 4 v)) (le32dec (drop 8 v)) (le32dec (drop 12 v))"

text \<open>
  \<open>SHAchoose\<close>, \<open>SHAmajority\<close> and \<open>SHA256hash\<close> of the architecture manual. One step of the hash
  instruction works on \<open>X\<close> (\<open>a\<close> to \<open>d\<close>) and \<open>Y\<close> (\<open>e\<close> to \<open>h\<close>) and rotates the pair by one lane.
\<close>

definition SHAchoose :: "u32 \<Rightarrow> u32 \<Rightarrow> u32 \<Rightarrow> u32" where
  "SHAchoose x y z = ((y XOR z) AND x) XOR z"

definition SHAmajority :: "u32 \<Rightarrow> u32 \<Rightarrow> u32 \<Rightarrow> u32" where
  "SHAmajority x y z = (x AND y) OR ((x OR y) AND z)"

fun SHA256hash_step :: "u32 \<Rightarrow> uint32x4_t \<times> uint32x4_t \<Rightarrow> uint32x4_t \<times> uint32x4_t" where
  "SHA256hash_step w (Lanes x0 x1 x2 x3, Lanes y0 y1 y2 y3) =
     (let chs = SHAchoose y0 y1 y2;
          maj = SHAmajority x0 x1 x2;
          t = y3 + (word_rotr 6 y0 XOR word_rotr 11 y0 XOR word_rotr 25 y0) + chs + w;
          x3' = t + x3;
          y3' = t + (word_rotr 2 x0 XOR word_rotr 13 x0 XOR word_rotr 22 x0) + maj
      in (Lanes y3' x0 x1 x2, Lanes x3' y0 y1 y2))"

fun SHA256hash :: "uint32x4_t \<Rightarrow> uint32x4_t \<Rightarrow> uint32x4_t \<Rightarrow> uint32x4_t \<times> uint32x4_t" where
  "SHA256hash X Y (Lanes w0 w1 w2 w3) =
     SHA256hash_step w3 (SHA256hash_step w2 (SHA256hash_step w1 (SHA256hash_step w0 (X, Y))))"

definition vsha256hq_u32 :: "uint32x4_t \<Rightarrow> uint32x4_t \<Rightarrow> uint32x4_t \<Rightarrow> uint32x4_t" where
  "vsha256hq_u32 hash_abcd hash_efgh wk = fst (SHA256hash hash_abcd hash_efgh wk)"

definition vsha256h2q_u32 :: "uint32x4_t \<Rightarrow> uint32x4_t \<Rightarrow> uint32x4_t \<Rightarrow> uint32x4_t" where
  "vsha256h2q_u32 hash_efgh hash_abcd wk = snd (SHA256hash hash_abcd hash_efgh wk)"

fun vsha256su0q_u32 :: "uint32x4_t \<Rightarrow> uint32x4_t \<Rightarrow> uint32x4_t" where
  "vsha256su0q_u32 (Lanes w0 w1 w2 w3) (Lanes w4 w5 w6 w7) =
     (let s = (\<lambda>elt. word_rotr 7 elt XOR word_rotr 18 elt XOR drop_bit 3 elt)
      in Lanes (s w1 + w0) (s w2 + w1) (s w3 + w2) (s w4 + w3))"

fun vsha256su1q_u32 :: "uint32x4_t \<Rightarrow> uint32x4_t \<Rightarrow> uint32x4_t \<Rightarrow> uint32x4_t" where
  "vsha256su1q_u32 (Lanes t0 t1 t2 t3) (Lanes w8 w9 w10 w11) (Lanes w12 w13 w14 w15) =
     (let s = (\<lambda>elt. word_rotr 17 elt XOR word_rotr 19 elt XOR drop_bit 10 elt);
          r0 = s w14 + t0 + w9;
          r1 = s w15 + t1 + w10;
          r2 = s r0 + t2 + w11;
          r3 = s r1 + t3 + w12
      in Lanes r0 r1 r2 r3)"

section \<open>The transforms over the instructions\<close>

definition sha256_transform_arm :: "u32 list \<Rightarrow> bytes \<Rightarrow> u32 list" where
  "sha256_transform_arm state block =
     (let STATE0 = vld1q_u32 state 0;
          STATE1 = vld1q_u32 state 4;
          ABEF_SAVE = STATE0;
          CDGH_SAVE = STATE1;
          MSG0 = vreinterpretq_u32_u8 (vrev32q_u8 (vld1q_u8 block 0));
          MSG1 = vreinterpretq_u32_u8 (vrev32q_u8 (vld1q_u8 block 16));
          MSG2 = vreinterpretq_u32_u8 (vrev32q_u8 (vld1q_u8 block 32));
          MSG3 = vreinterpretq_u32_u8 (vrev32q_u8 (vld1q_u8 block 48));
          TMP0 = vaddq_u32 MSG0 (vld1q_u32 K256 0);
          MSG0 = vsha256su0q_u32 MSG0 MSG1;
          TMP2 = STATE0;
          TMP1 = vaddq_u32 MSG1 (vld1q_u32 K256 4);
          STATE0 = vsha256hq_u32 STATE0 STATE1 TMP0;
          STATE1 = vsha256h2q_u32 STATE1 TMP2 TMP0;
          MSG0 = vsha256su1q_u32 MSG0 MSG2 MSG3;
          MSG1 = vsha256su0q_u32 MSG1 MSG2;
          TMP2 = STATE0;
          TMP0 = vaddq_u32 MSG2 (vld1q_u32 K256 8);
          STATE0 = vsha256hq_u32 STATE0 STATE1 TMP1;
          STATE1 = vsha256h2q_u32 STATE1 TMP2 TMP1;
          MSG1 = vsha256su1q_u32 MSG1 MSG3 MSG0;
          MSG2 = vsha256su0q_u32 MSG2 MSG3;
          TMP2 = STATE0;
          TMP1 = vaddq_u32 MSG3 (vld1q_u32 K256 12);
          STATE0 = vsha256hq_u32 STATE0 STATE1 TMP0;
          STATE1 = vsha256h2q_u32 STATE1 TMP2 TMP0;
          MSG2 = vsha256su1q_u32 MSG2 MSG0 MSG1;
          MSG3 = vsha256su0q_u32 MSG3 MSG0;
          TMP2 = STATE0;
          TMP0 = vaddq_u32 MSG0 (vld1q_u32 K256 16);
          STATE0 = vsha256hq_u32 STATE0 STATE1 TMP1;
          STATE1 = vsha256h2q_u32 STATE1 TMP2 TMP1;
          MSG3 = vsha256su1q_u32 MSG3 MSG1 MSG2;
          MSG0 = vsha256su0q_u32 MSG0 MSG1;
          TMP2 = STATE0;
          TMP1 = vaddq_u32 MSG1 (vld1q_u32 K256 20);
          STATE0 = vsha256hq_u32 STATE0 STATE1 TMP0;
          STATE1 = vsha256h2q_u32 STATE1 TMP2 TMP0;
          MSG0 = vsha256su1q_u32 MSG0 MSG2 MSG3;
          MSG1 = vsha256su0q_u32 MSG1 MSG2;
          TMP2 = STATE0;
          TMP0 = vaddq_u32 MSG2 (vld1q_u32 K256 24);
          STATE0 = vsha256hq_u32 STATE0 STATE1 TMP1;
          STATE1 = vsha256h2q_u32 STATE1 TMP2 TMP1;
          MSG1 = vsha256su1q_u32 MSG1 MSG3 MSG0;
          MSG2 = vsha256su0q_u32 MSG2 MSG3;
          TMP2 = STATE0;
          TMP1 = vaddq_u32 MSG3 (vld1q_u32 K256 28);
          STATE0 = vsha256hq_u32 STATE0 STATE1 TMP0;
          STATE1 = vsha256h2q_u32 STATE1 TMP2 TMP0;
          MSG2 = vsha256su1q_u32 MSG2 MSG0 MSG1;
          MSG3 = vsha256su0q_u32 MSG3 MSG0;
          TMP2 = STATE0;
          TMP0 = vaddq_u32 MSG0 (vld1q_u32 K256 32);
          STATE0 = vsha256hq_u32 STATE0 STATE1 TMP1;
          STATE1 = vsha256h2q_u32 STATE1 TMP2 TMP1;
          MSG3 = vsha256su1q_u32 MSG3 MSG1 MSG2;
          MSG0 = vsha256su0q_u32 MSG0 MSG1;
          TMP2 = STATE0;
          TMP1 = vaddq_u32 MSG1 (vld1q_u32 K256 36);
          STATE0 = vsha256hq_u32 STATE0 STATE1 TMP0;
          STATE1 = vsha256h2q_u32 STATE1 TMP2 TMP0;
          MSG0 = vsha256su1q_u32 MSG0 MSG2 MSG3;
          MSG1 = vsha256su0q_u32 MSG1 MSG2;
          TMP2 = STATE0;
          TMP0 = vaddq_u32 MSG2 (vld1q_u32 K256 40);
          STATE0 = vsha256hq_u32 STATE0 STATE1 TMP1;
          STATE1 = vsha256h2q_u32 STATE1 TMP2 TMP1;
          MSG1 = vsha256su1q_u32 MSG1 MSG3 MSG0;
          MSG2 = vsha256su0q_u32 MSG2 MSG3;
          TMP2 = STATE0;
          TMP1 = vaddq_u32 MSG3 (vld1q_u32 K256 44);
          STATE0 = vsha256hq_u32 STATE0 STATE1 TMP0;
          STATE1 = vsha256h2q_u32 STATE1 TMP2 TMP0;
          MSG2 = vsha256su1q_u32 MSG2 MSG0 MSG1;
          MSG3 = vsha256su0q_u32 MSG3 MSG0;
          TMP2 = STATE0;
          TMP0 = vaddq_u32 MSG0 (vld1q_u32 K256 48);
          STATE0 = vsha256hq_u32 STATE0 STATE1 TMP1;
          STATE1 = vsha256h2q_u32 STATE1 TMP2 TMP1;
          MSG3 = vsha256su1q_u32 MSG3 MSG1 MSG2;
          TMP2 = STATE0;
          TMP1 = vaddq_u32 MSG1 (vld1q_u32 K256 52);
          STATE0 = vsha256hq_u32 STATE0 STATE1 TMP0;
          STATE1 = vsha256h2q_u32 STATE1 TMP2 TMP0;
          TMP2 = STATE0;
          TMP0 = vaddq_u32 MSG2 (vld1q_u32 K256 56);
          STATE0 = vsha256hq_u32 STATE0 STATE1 TMP1;
          STATE1 = vsha256h2q_u32 STATE1 TMP2 TMP1;
          TMP2 = STATE0;
          TMP1 = vaddq_u32 MSG3 (vld1q_u32 K256 60);
          STATE0 = vsha256hq_u32 STATE0 STATE1 TMP0;
          STATE1 = vsha256h2q_u32 STATE1 TMP2 TMP0;
          TMP2 = STATE0;
          STATE0 = vsha256hq_u32 STATE0 STATE1 TMP1;
          STATE1 = vsha256h2q_u32 STATE1 TMP2 TMP1;
          STATE0 = vaddq_u32 STATE0 ABEF_SAVE;
          STATE1 = vaddq_u32 STATE1 CDGH_SAVE
      in lanes STATE0 @ lanes STATE1)"

definition sha256_transform_u32_arm :: "u32 list \<Rightarrow> u32 list \<Rightarrow> u32 list" where
  "sha256_transform_u32_arm state words =
     (let STATE0 = vld1q_u32 state 0;
          STATE1 = vld1q_u32 state 4;
          ABEF_SAVE = STATE0;
          CDGH_SAVE = STATE1;
          MSG0 = vld1q_u32 words 0;
          MSG1 = vld1q_u32 words 4;
          MSG2 = vld1q_u32 words 8;
          MSG3 = vld1q_u32 words 12;
          TMP0 = vaddq_u32 MSG0 (vld1q_u32 K256 0);
          MSG0 = vsha256su0q_u32 MSG0 MSG1;
          TMP2 = STATE0;
          TMP1 = vaddq_u32 MSG1 (vld1q_u32 K256 4);
          STATE0 = vsha256hq_u32 STATE0 STATE1 TMP0;
          STATE1 = vsha256h2q_u32 STATE1 TMP2 TMP0;
          MSG0 = vsha256su1q_u32 MSG0 MSG2 MSG3;
          MSG1 = vsha256su0q_u32 MSG1 MSG2;
          TMP2 = STATE0;
          TMP0 = vaddq_u32 MSG2 (vld1q_u32 K256 8);
          STATE0 = vsha256hq_u32 STATE0 STATE1 TMP1;
          STATE1 = vsha256h2q_u32 STATE1 TMP2 TMP1;
          MSG1 = vsha256su1q_u32 MSG1 MSG3 MSG0;
          MSG2 = vsha256su0q_u32 MSG2 MSG3;
          TMP2 = STATE0;
          TMP1 = vaddq_u32 MSG3 (vld1q_u32 K256 12);
          STATE0 = vsha256hq_u32 STATE0 STATE1 TMP0;
          STATE1 = vsha256h2q_u32 STATE1 TMP2 TMP0;
          MSG2 = vsha256su1q_u32 MSG2 MSG0 MSG1;
          MSG3 = vsha256su0q_u32 MSG3 MSG0;
          TMP2 = STATE0;
          TMP0 = vaddq_u32 MSG0 (vld1q_u32 K256 16);
          STATE0 = vsha256hq_u32 STATE0 STATE1 TMP1;
          STATE1 = vsha256h2q_u32 STATE1 TMP2 TMP1;
          MSG3 = vsha256su1q_u32 MSG3 MSG1 MSG2;
          MSG0 = vsha256su0q_u32 MSG0 MSG1;
          TMP2 = STATE0;
          TMP1 = vaddq_u32 MSG1 (vld1q_u32 K256 20);
          STATE0 = vsha256hq_u32 STATE0 STATE1 TMP0;
          STATE1 = vsha256h2q_u32 STATE1 TMP2 TMP0;
          MSG0 = vsha256su1q_u32 MSG0 MSG2 MSG3;
          MSG1 = vsha256su0q_u32 MSG1 MSG2;
          TMP2 = STATE0;
          TMP0 = vaddq_u32 MSG2 (vld1q_u32 K256 24);
          STATE0 = vsha256hq_u32 STATE0 STATE1 TMP1;
          STATE1 = vsha256h2q_u32 STATE1 TMP2 TMP1;
          MSG1 = vsha256su1q_u32 MSG1 MSG3 MSG0;
          MSG2 = vsha256su0q_u32 MSG2 MSG3;
          TMP2 = STATE0;
          TMP1 = vaddq_u32 MSG3 (vld1q_u32 K256 28);
          STATE0 = vsha256hq_u32 STATE0 STATE1 TMP0;
          STATE1 = vsha256h2q_u32 STATE1 TMP2 TMP0;
          MSG2 = vsha256su1q_u32 MSG2 MSG0 MSG1;
          MSG3 = vsha256su0q_u32 MSG3 MSG0;
          TMP2 = STATE0;
          TMP0 = vaddq_u32 MSG0 (vld1q_u32 K256 32);
          STATE0 = vsha256hq_u32 STATE0 STATE1 TMP1;
          STATE1 = vsha256h2q_u32 STATE1 TMP2 TMP1;
          MSG3 = vsha256su1q_u32 MSG3 MSG1 MSG2;
          MSG0 = vsha256su0q_u32 MSG0 MSG1;
          TMP2 = STATE0;
          TMP1 = vaddq_u32 MSG1 (vld1q_u32 K256 36);
          STATE0 = vsha256hq_u32 STATE0 STATE1 TMP0;
          STATE1 = vsha256h2q_u32 STATE1 TMP2 TMP0;
          MSG0 = vsha256su1q_u32 MSG0 MSG2 MSG3;
          MSG1 = vsha256su0q_u32 MSG1 MSG2;
          TMP2 = STATE0;
          TMP0 = vaddq_u32 MSG2 (vld1q_u32 K256 40);
          STATE0 = vsha256hq_u32 STATE0 STATE1 TMP1;
          STATE1 = vsha256h2q_u32 STATE1 TMP2 TMP1;
          MSG1 = vsha256su1q_u32 MSG1 MSG3 MSG0;
          MSG2 = vsha256su0q_u32 MSG2 MSG3;
          TMP2 = STATE0;
          TMP1 = vaddq_u32 MSG3 (vld1q_u32 K256 44);
          STATE0 = vsha256hq_u32 STATE0 STATE1 TMP0;
          STATE1 = vsha256h2q_u32 STATE1 TMP2 TMP0;
          MSG2 = vsha256su1q_u32 MSG2 MSG0 MSG1;
          MSG3 = vsha256su0q_u32 MSG3 MSG0;
          TMP2 = STATE0;
          TMP0 = vaddq_u32 MSG0 (vld1q_u32 K256 48);
          STATE0 = vsha256hq_u32 STATE0 STATE1 TMP1;
          STATE1 = vsha256h2q_u32 STATE1 TMP2 TMP1;
          MSG3 = vsha256su1q_u32 MSG3 MSG1 MSG2;
          TMP2 = STATE0;
          TMP1 = vaddq_u32 MSG1 (vld1q_u32 K256 52);
          STATE0 = vsha256hq_u32 STATE0 STATE1 TMP0;
          STATE1 = vsha256h2q_u32 STATE1 TMP2 TMP0;
          TMP2 = STATE0;
          TMP0 = vaddq_u32 MSG2 (vld1q_u32 K256 56);
          STATE0 = vsha256hq_u32 STATE0 STATE1 TMP1;
          STATE1 = vsha256h2q_u32 STATE1 TMP2 TMP1;
          TMP2 = STATE0;
          TMP1 = vaddq_u32 MSG3 (vld1q_u32 K256 60);
          STATE0 = vsha256hq_u32 STATE0 STATE1 TMP0;
          STATE1 = vsha256h2q_u32 STATE1 TMP2 TMP0;
          TMP2 = STATE0;
          STATE0 = vsha256hq_u32 STATE0 STATE1 TMP1;
          STATE1 = vsha256h2q_u32 STATE1 TMP2 TMP1;
          STATE0 = vaddq_u32 STATE0 ABEF_SAVE;
          STATE1 = vaddq_u32 STATE1 CDGH_SAVE
      in lanes STATE0 @ lanes STATE1)"

definition sha256_transform_u32_dual_arm ::
  "u32 list \<Rightarrow> u32 list \<Rightarrow> u32 list \<Rightarrow> u32 list \<Rightarrow> u32 list \<times> u32 list" where
  "sha256_transform_u32_dual_arm stateA wordsA stateB wordsB =
     (let A_STATE0 = vld1q_u32 stateA 0;
          A_STATE1 = vld1q_u32 stateA 4;
          B_STATE0 = vld1q_u32 stateB 0;
          B_STATE1 = vld1q_u32 stateB 4;
          A_ABEF_SAVE = A_STATE0;
          A_CDGH_SAVE = A_STATE1;
          B_ABEF_SAVE = B_STATE0;
          B_CDGH_SAVE = B_STATE1;
          A_MSG0 = vld1q_u32 wordsA 0;
          A_MSG1 = vld1q_u32 wordsA 4;
          A_MSG2 = vld1q_u32 wordsA 8;
          A_MSG3 = vld1q_u32 wordsA 12;
          B_MSG0 = vld1q_u32 wordsB 0;
          B_MSG1 = vld1q_u32 wordsB 4;
          B_MSG2 = vld1q_u32 wordsB 8;
          B_MSG3 = vld1q_u32 wordsB 12;
          A_TMP0 = vaddq_u32 A_MSG0 (vld1q_u32 K256 0);
          A_MSG0 = vsha256su0q_u32 A_MSG0 A_MSG1;
          A_TMP2 = A_STATE0;
          A_TMP1 = vaddq_u32 A_MSG1 (vld1q_u32 K256 4);
          A_STATE0 = vsha256hq_u32 A_STATE0 A_STATE1 A_TMP0;
          A_STATE1 = vsha256h2q_u32 A_STATE1 A_TMP2 A_TMP0;
          A_MSG0 = vsha256su1q_u32 A_MSG0 A_MSG2 A_MSG3;
          B_TMP0 = vaddq_u32 B_MSG0 (vld1q_u32 K256 0);
          B_MSG0 = vsha256su0q_u32 B_MSG0 B_MSG1;
          B_TMP2 = B_STATE0;
          B_TMP1 = vaddq_u32 B_MSG1 (vld1q_u32 K256 4);
          B_STATE0 = vsha256hq_u32 B_STATE0 B_STATE1 B_TMP0;
          B_STATE1 = vsha256h2q_u32 B_STATE1 B_TMP2 B_TMP0;
          B_MSG0 = vsha256su1q_u32 B_MSG0 B_MSG2 B_MSG3;
          A_MSG1 = vsha256su0q_u32 A_MSG1 A_MSG2;
          A_TMP2 = A_STATE0;
          A_TMP0 = vaddq_u32 A_MSG2 (vld1q_u32 K256 8);
          A_STATE0 = vsha256hq_u32 A_STATE0 A_STATE1 A_TMP1;
          A_STATE1 = vsha256h2q_u32 A_STATE1 A_TMP2 A_TMP1;
          A_MSG1 = vsha256su1q_u32 A_MSG1 A_MSG3 A_MSG0;
          B_MSG1 = vsha256su0q_u32 B_MSG1 B_MSG2;
          B_TMP2 = B_STATE0;
          B_TMP0 = vaddq_u32 B_MSG2 (vld1q_u32 K256 8);
          B_STATE0 = vsha256hq_u32 B_STATE0 B_STATE1 B_TMP1;
          B_STATE1 = vsha256h2q_u32 B_STATE1 B_TMP2 B_TMP1;
          B_MSG1 = vsha256su1q_u32 B_MSG1 B_MSG3 B_MSG0;
          A_MSG2 = vsha256su0q_u32 A_MSG2 A_MSG3;
          A_TMP2 = A_STATE0;
          A_TMP1 = vaddq_u32 A_MSG3 (vld1q_u32 K256 12);
          A_STATE0 = vsha256hq_u32 A_STATE0 A_STATE1 A_TMP0;
          A_STATE1 = vsha256h2q_u32 A_STATE1 A_TMP2 A_TMP0;
          A_MSG2 = vsha256su1q_u32 A_MSG2 A_MSG0 A_MSG1;
          B_MSG2 = vsha256su0q_u32 B_MSG2 B_MSG3;
          B_TMP2 = B_STATE0;
          B_TMP1 = vaddq_u32 B_MSG3 (vld1q_u32 K256 12);
          B_STATE0 = vsha256hq_u32 B_STATE0 B_STATE1 B_TMP0;
          B_STATE1 = vsha256h2q_u32 B_STATE1 B_TMP2 B_TMP0;
          B_MSG2 = vsha256su1q_u32 B_MSG2 B_MSG0 B_MSG1;
          A_MSG3 = vsha256su0q_u32 A_MSG3 A_MSG0;
          A_TMP2 = A_STATE0;
          A_TMP0 = vaddq_u32 A_MSG0 (vld1q_u32 K256 16);
          A_STATE0 = vsha256hq_u32 A_STATE0 A_STATE1 A_TMP1;
          A_STATE1 = vsha256h2q_u32 A_STATE1 A_TMP2 A_TMP1;
          A_MSG3 = vsha256su1q_u32 A_MSG3 A_MSG1 A_MSG2;
          B_MSG3 = vsha256su0q_u32 B_MSG3 B_MSG0;
          B_TMP2 = B_STATE0;
          B_TMP0 = vaddq_u32 B_MSG0 (vld1q_u32 K256 16);
          B_STATE0 = vsha256hq_u32 B_STATE0 B_STATE1 B_TMP1;
          B_STATE1 = vsha256h2q_u32 B_STATE1 B_TMP2 B_TMP1;
          B_MSG3 = vsha256su1q_u32 B_MSG3 B_MSG1 B_MSG2;
          A_MSG0 = vsha256su0q_u32 A_MSG0 A_MSG1;
          A_TMP2 = A_STATE0;
          A_TMP1 = vaddq_u32 A_MSG1 (vld1q_u32 K256 20);
          A_STATE0 = vsha256hq_u32 A_STATE0 A_STATE1 A_TMP0;
          A_STATE1 = vsha256h2q_u32 A_STATE1 A_TMP2 A_TMP0;
          A_MSG0 = vsha256su1q_u32 A_MSG0 A_MSG2 A_MSG3;
          B_MSG0 = vsha256su0q_u32 B_MSG0 B_MSG1;
          B_TMP2 = B_STATE0;
          B_TMP1 = vaddq_u32 B_MSG1 (vld1q_u32 K256 20);
          B_STATE0 = vsha256hq_u32 B_STATE0 B_STATE1 B_TMP0;
          B_STATE1 = vsha256h2q_u32 B_STATE1 B_TMP2 B_TMP0;
          B_MSG0 = vsha256su1q_u32 B_MSG0 B_MSG2 B_MSG3;
          A_MSG1 = vsha256su0q_u32 A_MSG1 A_MSG2;
          A_TMP2 = A_STATE0;
          A_TMP0 = vaddq_u32 A_MSG2 (vld1q_u32 K256 24);
          A_STATE0 = vsha256hq_u32 A_STATE0 A_STATE1 A_TMP1;
          A_STATE1 = vsha256h2q_u32 A_STATE1 A_TMP2 A_TMP1;
          A_MSG1 = vsha256su1q_u32 A_MSG1 A_MSG3 A_MSG0;
          B_MSG1 = vsha256su0q_u32 B_MSG1 B_MSG2;
          B_TMP2 = B_STATE0;
          B_TMP0 = vaddq_u32 B_MSG2 (vld1q_u32 K256 24);
          B_STATE0 = vsha256hq_u32 B_STATE0 B_STATE1 B_TMP1;
          B_STATE1 = vsha256h2q_u32 B_STATE1 B_TMP2 B_TMP1;
          B_MSG1 = vsha256su1q_u32 B_MSG1 B_MSG3 B_MSG0;
          A_MSG2 = vsha256su0q_u32 A_MSG2 A_MSG3;
          A_TMP2 = A_STATE0;
          A_TMP1 = vaddq_u32 A_MSG3 (vld1q_u32 K256 28);
          A_STATE0 = vsha256hq_u32 A_STATE0 A_STATE1 A_TMP0;
          A_STATE1 = vsha256h2q_u32 A_STATE1 A_TMP2 A_TMP0;
          A_MSG2 = vsha256su1q_u32 A_MSG2 A_MSG0 A_MSG1;
          B_MSG2 = vsha256su0q_u32 B_MSG2 B_MSG3;
          B_TMP2 = B_STATE0;
          B_TMP1 = vaddq_u32 B_MSG3 (vld1q_u32 K256 28);
          B_STATE0 = vsha256hq_u32 B_STATE0 B_STATE1 B_TMP0;
          B_STATE1 = vsha256h2q_u32 B_STATE1 B_TMP2 B_TMP0;
          B_MSG2 = vsha256su1q_u32 B_MSG2 B_MSG0 B_MSG1;
          A_MSG3 = vsha256su0q_u32 A_MSG3 A_MSG0;
          A_TMP2 = A_STATE0;
          A_TMP0 = vaddq_u32 A_MSG0 (vld1q_u32 K256 32);
          A_STATE0 = vsha256hq_u32 A_STATE0 A_STATE1 A_TMP1;
          A_STATE1 = vsha256h2q_u32 A_STATE1 A_TMP2 A_TMP1;
          A_MSG3 = vsha256su1q_u32 A_MSG3 A_MSG1 A_MSG2;
          B_MSG3 = vsha256su0q_u32 B_MSG3 B_MSG0;
          B_TMP2 = B_STATE0;
          B_TMP0 = vaddq_u32 B_MSG0 (vld1q_u32 K256 32);
          B_STATE0 = vsha256hq_u32 B_STATE0 B_STATE1 B_TMP1;
          B_STATE1 = vsha256h2q_u32 B_STATE1 B_TMP2 B_TMP1;
          B_MSG3 = vsha256su1q_u32 B_MSG3 B_MSG1 B_MSG2;
          A_MSG0 = vsha256su0q_u32 A_MSG0 A_MSG1;
          A_TMP2 = A_STATE0;
          A_TMP1 = vaddq_u32 A_MSG1 (vld1q_u32 K256 36);
          A_STATE0 = vsha256hq_u32 A_STATE0 A_STATE1 A_TMP0;
          A_STATE1 = vsha256h2q_u32 A_STATE1 A_TMP2 A_TMP0;
          A_MSG0 = vsha256su1q_u32 A_MSG0 A_MSG2 A_MSG3;
          B_MSG0 = vsha256su0q_u32 B_MSG0 B_MSG1;
          B_TMP2 = B_STATE0;
          B_TMP1 = vaddq_u32 B_MSG1 (vld1q_u32 K256 36);
          B_STATE0 = vsha256hq_u32 B_STATE0 B_STATE1 B_TMP0;
          B_STATE1 = vsha256h2q_u32 B_STATE1 B_TMP2 B_TMP0;
          B_MSG0 = vsha256su1q_u32 B_MSG0 B_MSG2 B_MSG3;
          A_MSG1 = vsha256su0q_u32 A_MSG1 A_MSG2;
          A_TMP2 = A_STATE0;
          A_TMP0 = vaddq_u32 A_MSG2 (vld1q_u32 K256 40);
          A_STATE0 = vsha256hq_u32 A_STATE0 A_STATE1 A_TMP1;
          A_STATE1 = vsha256h2q_u32 A_STATE1 A_TMP2 A_TMP1;
          A_MSG1 = vsha256su1q_u32 A_MSG1 A_MSG3 A_MSG0;
          B_MSG1 = vsha256su0q_u32 B_MSG1 B_MSG2;
          B_TMP2 = B_STATE0;
          B_TMP0 = vaddq_u32 B_MSG2 (vld1q_u32 K256 40);
          B_STATE0 = vsha256hq_u32 B_STATE0 B_STATE1 B_TMP1;
          B_STATE1 = vsha256h2q_u32 B_STATE1 B_TMP2 B_TMP1;
          B_MSG1 = vsha256su1q_u32 B_MSG1 B_MSG3 B_MSG0;
          A_MSG2 = vsha256su0q_u32 A_MSG2 A_MSG3;
          A_TMP2 = A_STATE0;
          A_TMP1 = vaddq_u32 A_MSG3 (vld1q_u32 K256 44);
          A_STATE0 = vsha256hq_u32 A_STATE0 A_STATE1 A_TMP0;
          A_STATE1 = vsha256h2q_u32 A_STATE1 A_TMP2 A_TMP0;
          A_MSG2 = vsha256su1q_u32 A_MSG2 A_MSG0 A_MSG1;
          B_MSG2 = vsha256su0q_u32 B_MSG2 B_MSG3;
          B_TMP2 = B_STATE0;
          B_TMP1 = vaddq_u32 B_MSG3 (vld1q_u32 K256 44);
          B_STATE0 = vsha256hq_u32 B_STATE0 B_STATE1 B_TMP0;
          B_STATE1 = vsha256h2q_u32 B_STATE1 B_TMP2 B_TMP0;
          B_MSG2 = vsha256su1q_u32 B_MSG2 B_MSG0 B_MSG1;
          A_MSG3 = vsha256su0q_u32 A_MSG3 A_MSG0;
          A_TMP2 = A_STATE0;
          A_TMP0 = vaddq_u32 A_MSG0 (vld1q_u32 K256 48);
          A_STATE0 = vsha256hq_u32 A_STATE0 A_STATE1 A_TMP1;
          A_STATE1 = vsha256h2q_u32 A_STATE1 A_TMP2 A_TMP1;
          A_MSG3 = vsha256su1q_u32 A_MSG3 A_MSG1 A_MSG2;
          B_MSG3 = vsha256su0q_u32 B_MSG3 B_MSG0;
          B_TMP2 = B_STATE0;
          B_TMP0 = vaddq_u32 B_MSG0 (vld1q_u32 K256 48);
          B_STATE0 = vsha256hq_u32 B_STATE0 B_STATE1 B_TMP1;
          B_STATE1 = vsha256h2q_u32 B_STATE1 B_TMP2 B_TMP1;
          B_MSG3 = vsha256su1q_u32 B_MSG3 B_MSG1 B_MSG2;
          A_TMP2 = A_STATE0;
          A_TMP1 = vaddq_u32 A_MSG1 (vld1q_u32 K256 52);
          A_STATE0 = vsha256hq_u32 A_STATE0 A_STATE1 A_TMP0;
          A_STATE1 = vsha256h2q_u32 A_STATE1 A_TMP2 A_TMP0;
          B_TMP2 = B_STATE0;
          B_TMP1 = vaddq_u32 B_MSG1 (vld1q_u32 K256 52);
          B_STATE0 = vsha256hq_u32 B_STATE0 B_STATE1 B_TMP0;
          B_STATE1 = vsha256h2q_u32 B_STATE1 B_TMP2 B_TMP0;
          A_TMP2 = A_STATE0;
          A_TMP0 = vaddq_u32 A_MSG2 (vld1q_u32 K256 56);
          A_STATE0 = vsha256hq_u32 A_STATE0 A_STATE1 A_TMP1;
          A_STATE1 = vsha256h2q_u32 A_STATE1 A_TMP2 A_TMP1;
          B_TMP2 = B_STATE0;
          B_TMP0 = vaddq_u32 B_MSG2 (vld1q_u32 K256 56);
          B_STATE0 = vsha256hq_u32 B_STATE0 B_STATE1 B_TMP1;
          B_STATE1 = vsha256h2q_u32 B_STATE1 B_TMP2 B_TMP1;
          A_TMP2 = A_STATE0;
          A_TMP1 = vaddq_u32 A_MSG3 (vld1q_u32 K256 60);
          A_STATE0 = vsha256hq_u32 A_STATE0 A_STATE1 A_TMP0;
          A_STATE1 = vsha256h2q_u32 A_STATE1 A_TMP2 A_TMP0;
          B_TMP2 = B_STATE0;
          B_TMP1 = vaddq_u32 B_MSG3 (vld1q_u32 K256 60);
          B_STATE0 = vsha256hq_u32 B_STATE0 B_STATE1 B_TMP0;
          B_STATE1 = vsha256h2q_u32 B_STATE1 B_TMP2 B_TMP0;
          A_TMP2 = A_STATE0;
          A_STATE0 = vsha256hq_u32 A_STATE0 A_STATE1 A_TMP1;
          A_STATE1 = vsha256h2q_u32 A_STATE1 A_TMP2 A_TMP1;
          B_TMP2 = B_STATE0;
          B_STATE0 = vsha256hq_u32 B_STATE0 B_STATE1 B_TMP1;
          B_STATE1 = vsha256h2q_u32 B_STATE1 B_TMP2 B_TMP1;
          A_STATE0 = vaddq_u32 A_STATE0 A_ABEF_SAVE;
          A_STATE1 = vaddq_u32 A_STATE1 A_CDGH_SAVE;
          B_STATE0 = vaddq_u32 B_STATE0 B_ABEF_SAVE;
          B_STATE1 = vaddq_u32 B_STATE1 B_CDGH_SAVE
      in (lanes A_STATE0 @ lanes A_STATE1, lanes B_STATE0 @ lanes B_STATE1))"

section \<open>Selection\<close>

text \<open>\<open>crypto\<close> is the answer of \<open>sha256_has_crypto\<close>, fixed for the life of the process.\<close>

definition sha256_transform :: "bool \<Rightarrow> u32 list \<Rightarrow> bytes \<Rightarrow> u32 list" where
  "sha256_transform crypto state block =
     (if crypto then sha256_transform_arm state block else sha256_transform_sw state block)"

definition sha256_transform_u32 :: "bool \<Rightarrow> u32 list \<Rightarrow> u32 list \<Rightarrow> u32 list" where
  "sha256_transform_u32 crypto state words =
     (if crypto then sha256_transform_u32_arm state words else sha256_transform_u32_sw state words)"

definition sha256_transform_u32_dual ::
  "bool \<Rightarrow> u32 list \<Rightarrow> u32 list \<Rightarrow> u32 list \<Rightarrow> u32 list \<Rightarrow> u32 list \<times> u32 list" where
  "sha256_transform_u32_dual crypto stateA wordsA stateB wordsB =
     (if crypto then sha256_transform_u32_dual_arm stateA wordsA stateB wordsB
      else (sha256_transform_u32_sw stateA wordsA, sha256_transform_u32_sw stateB wordsB))"


section \<open>The compression function of FIPS 180-4\<close>

definition fips_Sigma0 :: "u32 \<Rightarrow> u32" where
  "fips_Sigma0 x = word_rotr 2 x XOR word_rotr 13 x XOR word_rotr 22 x"

definition fips_Sigma1 :: "u32 \<Rightarrow> u32" where
  "fips_Sigma1 x = word_rotr 6 x XOR word_rotr 11 x XOR word_rotr 25 x"

definition fips_sigma0 :: "u32 \<Rightarrow> u32" where
  "fips_sigma0 x = word_rotr 7 x XOR word_rotr 18 x XOR drop_bit 3 x"

definition fips_sigma1 :: "u32 \<Rightarrow> u32" where
  "fips_sigma1 x = word_rotr 17 x XOR word_rotr 19 x XOR drop_bit 10 x"

text \<open>The message schedule word of round \<open>t\<close>, and the working variables before round \<open>t\<close>.\<close>

fun fips_W :: "u32 list \<Rightarrow> nat \<Rightarrow> u32" where
  "fips_W M t =
     (if t < 16 then M ! t
      else fips_sigma1 (fips_W M (t - 2)) + fips_W M (t - 7) + fips_sigma0 (fips_W M (t - 15)) + fips_W M (t - 16))"

declare fips_W.simps [simp del]

fun fips_round :: "u32 \<Rightarrow> u32 \<Rightarrow> sha_vars \<Rightarrow> sha_vars" where
  "fips_round k w (Vars a b c d e f g h) =
     (let t1 = h + fips_Sigma1 e + ((e AND f) XOR (NOT e AND g)) + k + w;
          t2 = fips_Sigma0 a + ((a AND b) XOR (a AND c) XOR (b AND c))
      in Vars (t1 + t2) a b c (d + t1) e f g)"

primrec fips_vars :: "u32 list \<Rightarrow> u32 list \<Rightarrow> nat \<Rightarrow> sha_vars" where
  "fips_vars H M 0 = load_vars H"
| "fips_vars H M (Suc t) = fips_round (K256 ! t) (fips_W M t) (fips_vars H M t)"

definition fips_compress :: "u32 list \<Rightarrow> u32 list \<Rightarrow> u32 list" where
  "fips_compress H M = add_vars H (fips_vars H M 64)"

lemma length_fips_compress [simp]: "length (fips_compress H M) = 8"
  unfolding fips_compress_def by (cases "fips_vars H M 64") simp

section \<open>The portable transforms compute it\<close>

lemma ROR32_rotr: "n < 32 \<Longrightarrow> ROR32 x n = word_rotr n x"
proof (rule bit_word_eqI)
  fix m assume n: "n < 32" and "m < LENGTH(32)"
  then have m: "m < 32" by simp
  have high: "\<not> bit x (m + n)" if "\<not> m + n < 32" using that by (auto dest: bit_imp_le_length)
  have "(m + n) mod 32 = (if m + n < 32 then m + n else m - (32 - n))" using n m by (auto simp: mod_if)
  moreover have "bit (ROR32 x n) m = (bit x (m + n) \<or> \<not> m + n < 32 \<and> bit x (m - (32 - n)))"
    using n m by (auto simp: ROR32_def bit_simps add.commute)
  ultimately show "bit (ROR32 x n) m = bit (word_rotr n x) m"
    using n m high by (auto simp: bit_word_rotr_iff)
qed

lemma round_functions:
  "EP0 = fips_Sigma0" "EP1 = fips_Sigma1" "SIG0 = fips_sigma0" "SIG1 = fips_sigma1"
  by (simp_all add: fun_eq_iff EP0_def EP1_def SIG0_def SIG1_def fips_Sigma0_def fips_Sigma1_def fips_sigma0_def
      fips_sigma1_def ROR32_rotr)

lemma sha_round_fips: "sha_round k w v = fips_round k w v"
  by (cases v) (simp add: round_functions CH_def MAJ_def Let_def)

lemma sha_schedule_prefix:
  assumes "length M = 16" "16 \<le> n"
  shows "foldl (\<lambda>W i. W @ [SIG1 (W ! (i - 2)) + W ! (i - 7) + SIG0 (W ! (i - 15)) + W ! (i - 16)]) M [16..<n] =
    map (fips_W M) [0..<n]"
  using assms(2)
proof (induction n rule: nat_induct_at_least)
  case base
  have "M ! i = fips_W M i" if "i < 16" for i using that by (simp add: fips_W.simps)
  then show ?case using assms(1) by (auto intro!: nth_equalityI)
next
  case (Suc n)
  have "fips_W M n = SIG1 (fips_W M (n - 2)) + fips_W M (n - 7) + SIG0 (fips_W M (n - 15)) + fips_W M (n - 16)"
    using Suc.hyps by (simp add: fips_W.simps [of M n] round_functions)
  with Suc show ?case by (simp add: nth_append)
qed

lemma sha_schedule_fips: "length M = 16 \<Longrightarrow> sha_schedule M = map (fips_W M) [0..<64]"
  unfolding sha_schedule_def by (rule sha_schedule_prefix) simp_all

lemma rounds_fips:
  "n \<le> 64 \<Longrightarrow> foldl (\<lambda>v i. sha_round (K256 ! i) (map (fips_W M) [0..<64] ! i) v) (load_vars H) [0..<n] = fips_vars H M n"
  by (induction n) (simp_all add: sha_round_fips)

lemma transform_u32_sw_fips:
  "length M = 16 \<Longrightarrow> sha256_transform_u32_sw H M = fips_compress H M"
  using map_nth [of M]
  by (simp add: sha256_transform_u32_sw_def Let_def sha_schedule_fips rounds_fips fips_compress_def)

lemma transform_sw_fips:
  "sha256_transform_sw H block = fips_compress H (map (\<lambda>i. be32dec (drop (i * 4) block)) [0..<16])"
  by (simp add: sha256_transform_sw_def Let_def sha_schedule_fips rounds_fips fips_compress_def)

section \<open>The instructions compute four rounds and four schedule words\<close>

fun abcd :: "sha_vars \<Rightarrow> uint32x4_t" where
  "abcd (Vars a b c d e f g h) = Lanes a b c d"

fun efgh :: "sha_vars \<Rightarrow> uint32x4_t" where
  "efgh (Vars a b c d e f g h) = Lanes e f g h"

lemma SHAchoose_eq: "SHAchoose x y z = (x AND y) XOR (NOT x AND z)"
  unfolding SHAchoose_def by (rule bit_word_eqI) (auto simp: bit_simps)

lemma SHAmajority_eq: "SHAmajority x y z = (x AND y) XOR (x AND z) XOR (y AND z)"
  unfolding SHAmajority_def by (rule bit_word_eqI) (auto simp: bit_simps)

lemma SHA256hash_step_round:
  "SHA256hash_step (w + k) (abcd v, efgh v) = (abcd (fips_round k w v), efgh (fips_round k w v))"
  by (cases v) (simp add: Let_def SHAchoose_eq SHAmajority_eq fips_Sigma0_def fips_Sigma1_def ac_simps)

text \<open>The schedule words \<open>n\<close> to \<open>n + 3\<close> in a register.\<close>

definition sched :: "u32 list \<Rightarrow> nat \<Rightarrow> uint32x4_t" where
  "sched M n = Lanes (fips_W M n) (fips_W M (n + 1)) (fips_W M (n + 2)) (fips_W M (n + 3))"

definition sched_k :: "u32 list \<Rightarrow> nat \<Rightarrow> uint32x4_t" where
  "sched_k M n = vaddq_u32 (sched M n) (vld1q_u32 K256 n)"

lemma SHA256hash_rounds:
  "SHA256hash (abcd (fips_vars H M n)) (efgh (fips_vars H M n)) (sched_k M n) =
     (abcd (fips_vars H M (n + 4)), efgh (fips_vars H M (n + 4)))"
  by (simp add: sched_k_def sched_def vld1q_u32_def SHA256hash_step_round numeral_eq_Suc)

lemma vsha256hq_rounds:
  "vsha256hq_u32 (abcd (fips_vars H M n)) (efgh (fips_vars H M n)) (sched_k M n) = abcd (fips_vars H M (n + 4))"
  "vsha256h2q_u32 (efgh (fips_vars H M n)) (abcd (fips_vars H M n)) (sched_k M n) = efgh (fips_vars H M (n + 4))"
  by (simp_all add: vsha256hq_u32_def vsha256h2q_u32_def SHA256hash_rounds)

lemma vsha256su_schedule:
  "vsha256su1q_u32 (vsha256su0q_u32 (sched M n) (sched M (n + 4))) (sched M (n + 8)) (sched M (n + 12)) =
     sched M (n + 16)"
  by (simp add: sched_def Let_def fips_W.simps [of M "n + 16"] fips_W.simps [of M "n + 17"] fips_W.simps [of M "n + 18"]
      fips_W.simps [of M "n + 19"] fips_sigma0_def fips_sigma1_def ac_simps)


section \<open>The transforms over the instructions compute it\<close>

lemmas round_groups = vsha256hq_rounds [where n = 0, unfolded add_0]
  vsha256hq_rounds [where n = 4, simplified]
  vsha256hq_rounds [where n = 8, simplified]
  vsha256hq_rounds [where n = 12, simplified]
  vsha256hq_rounds [where n = 16, simplified]
  vsha256hq_rounds [where n = 20, simplified]
  vsha256hq_rounds [where n = 24, simplified]
  vsha256hq_rounds [where n = 28, simplified]
  vsha256hq_rounds [where n = 32, simplified]
  vsha256hq_rounds [where n = 36, simplified]
  vsha256hq_rounds [where n = 40, simplified]
  vsha256hq_rounds [where n = 44, simplified]
  vsha256hq_rounds [where n = 48, simplified]
  vsha256hq_rounds [where n = 52, simplified]
  vsha256hq_rounds [where n = 56, simplified]
  vsha256hq_rounds [where n = 60, simplified]

lemmas schedule_groups = vsha256su_schedule [where n = 0, unfolded add_0]
  vsha256su_schedule [where n = 4, simplified]
  vsha256su_schedule [where n = 8, simplified]
  vsha256su_schedule [where n = 12, simplified]
  vsha256su_schedule [where n = 16, simplified]
  vsha256su_schedule [where n = 20, simplified]
  vsha256su_schedule [where n = 24, simplified]
  vsha256su_schedule [where n = 28, simplified]
  vsha256su_schedule [where n = 32, simplified]
  vsha256su_schedule [where n = 36, simplified]
  vsha256su_schedule [where n = 40, simplified]
  vsha256su_schedule [where n = 44, simplified]

lemma load_state:
  "vld1q_u32 H 0 = abcd (fips_vars H M 0)" "vld1q_u32 H 4 = efgh (fips_vars H M 0)"
  by (simp_all add: vld1q_u32_def load_vars_def numeral_eq_Suc)

lemma load_words:
  "vld1q_u32 M 0 = sched M 0" "vld1q_u32 M 4 = sched M 4" "vld1q_u32 M 8 = sched M 8" "vld1q_u32 M 12 = sched M 12"
  by (simp_all add: vld1q_u32_def sched_def fips_W.simps)

lemma store_state:
  "lanes (vaddq_u32 (abcd (fips_vars H M 64)) (abcd (fips_vars H M 0))) @
   lanes (vaddq_u32 (efgh (fips_vars H M 64)) (efgh (fips_vars H M 0))) = fips_compress H M"
  unfolding fips_compress_def by (cases "fips_vars H M 64") (simp add: load_vars_def add.commute)

lemmas arm_steps = sched_k_def [symmetric] round_groups schedule_groups store_state Let_def

lemma transform_u32_arm_fips: "sha256_transform_u32_arm H M = fips_compress H M"
  unfolding sha256_transform_u32_arm_def
  by (simp only: load_state [of H M] load_words [of M] arm_steps cong: let_weak_cong)

lemma transform_u32_dual_arm_fips:
  "sha256_transform_u32_dual_arm HA MA HB MB = (fips_compress HA MA, fips_compress HB MB)"
  unfolding sha256_transform_u32_dual_arm_def
  by (simp only: load_state [of HA MA] load_words [of MA] load_state [of HB MB] load_words [of MB] arm_steps
      cong: let_weak_cong)

text \<open>The big-endian words of a 64-byte block.\<close>

definition block_words :: "bytes \<Rightarrow> u32 list" where
  "block_words block = map (\<lambda>i. be32dec (drop (i * 4) block)) [0..<16]"

lemma length_block_words [simp]: "length (block_words block) = 16"
  by (simp add: block_words_def)

lemma le32dec_rev: "4 \<le> length p \<Longrightarrow> le32dec (rev (take 4 p) @ r) = be32dec p"
  by (simp add: le32dec_def be32dec_def nth_append rev_nth or.commute or.left_commute)

lemma be32dec_drop_take: "k + 4 \<le> n \<Longrightarrow> n \<le> length p \<Longrightarrow> be32dec (drop k (take n p)) = be32dec (drop k p)"
  by (simp add: be32dec_def)

lemma rev32_lanes:
  assumes "length v = 16"
  shows "vreinterpretq_u32_u8 (vrev32q_u8 v) = Lanes (be32dec v) (be32dec (drop 4 v)) (be32dec (drop 8 v)) (be32dec (drop 12 v))"
  using assms le32dec_rev [of v] le32dec_rev [of "drop 4 v"] le32dec_rev [of "drop 8 v"] le32dec_rev [of "drop 12 v" "[]"]
  by (simp add: vreinterpretq_u32_u8_def vrev32q_u8_def)

lemma load_block_at:
  assumes "length block = 64" "n + 4 \<le> 16"
  shows "vreinterpretq_u32_u8 (vrev32q_u8 (vld1q_u8 block (4 * n))) = sched (block_words block) n"
proof -
  have "be32dec (drop k (take 16 (drop (4 * n) block))) = be32dec (drop (4 * n + k) block)" if "k + 4 \<le> 16" for k
    using assms that be32dec_drop_take [of k 16 "drop (4 * n) block"] by (simp add: add.commute)
  from this [of 0] this [of 4] this [of 8] this [of 12] show ?thesis
    using assms by (simp add: vld1q_u8_def rev32_lanes sched_def fips_W.simps block_words_def algebra_simps)
qed

lemmas load_block = load_block_at [where n = 0, simplified] load_block_at [where n = 4, simplified]
  load_block_at [where n = 8, simplified] load_block_at [where n = 12, simplified]

lemma transform_arm_fips: "length block = 64 \<Longrightarrow> sha256_transform_arm H block = fips_compress H (block_words block)"
  unfolding sha256_transform_arm_def
  by (simp only: load_block load_state [of H "block_words block"] arm_steps cong: let_weak_cong)

section \<open>Every selected transform computes it\<close>

lemma sha256_transform_fips:
  "length block = 64 \<Longrightarrow> sha256_transform crypto H block = fips_compress H (block_words block)"
  by (simp add: sha256_transform_def transform_arm_fips transform_sw_fips [folded block_words_def])

lemma sha256_transform_u32_fips:
  "length M = 16 \<Longrightarrow> sha256_transform_u32 crypto H M = fips_compress H M"
  by (simp add: sha256_transform_u32_def transform_u32_arm_fips transform_u32_sw_fips)

lemma sha256_transform_u32_dual_fips:
  "length MA = 16 \<Longrightarrow> length MB = 16 \<Longrightarrow>
   sha256_transform_u32_dual crypto HA MA HB MB = (fips_compress HA MA, fips_compress HB MB)"
  by (simp add: sha256_transform_u32_dual_def transform_u32_dual_arm_fips transform_u32_sw_fips)


text \<open>
  C13. The choice of the transform does not matter: with and without the SHA-2 instructions, for one
  message given as bytes or as words and for two interleaved messages, the program computes the
  compression function of FIPS 180-4.
\<close>

theorem transforms_agree:
  assumes "length block = 64" "length MA = 16" "length MB = 16"
  shows "sha256_transform crypto H block = fips_compress H (block_words block) \<and>
    sha256_transform_u32 crypto HA MA = fips_compress HA MA \<and>
    sha256_transform_u32_dual crypto HA MA HB MB = (fips_compress HA MA, fips_compress HB MB)"
  using assms by (simp add: sha256_transform_fips sha256_transform_u32_fips sha256_transform_u32_dual_fips)

theorem transforms_agree_witness:
  "sha256_transform True H256_INIT (replicate 64 7) = fips_compress H256_INIT (block_words (replicate 64 7)) \<and>
   sha256_transform_u32 True H256_INIT (replicate 16 1) = fips_compress H256_INIT (replicate 16 1) \<and>
   sha256_transform_u32_dual True H256_INIT (replicate 16 1) H256_INIT (replicate 16 2) =
     (fips_compress H256_INIT (replicate 16 1), fips_compress H256_INIT (replicate 16 2))"
  by (rule transforms_agree) simp_all

end
