(* ===== verification/Sha256.thy ===== *)
theory Sha256
  imports Sha256_Core
begin

text \<open>
  The incremental SHA-256 interface of \<open>src/algorithm/sha256_neon.c\<close>: the context with its bit counter
  and 64-byte buffer, update, padding, the one-call hashes, the midstate and the self-test. The
  specification is the message digest of FIPS 180-4 over whole messages; a context represents the
  bytes fed to it, every update appends to them, and the digest is that of the whole message
  however it was cut.
\<close>

section \<open>The context\<close>

record sha256_neon_ctx =
  sc_state :: "u32 list"
  sc_count :: u64
  sc_buffer :: bytes

type_synonym sha_transform = "u32 list \<Rightarrow> bytes \<Rightarrow> u32 list"

definition ctx_init :: "sha256_neon_ctx \<Rightarrow> sha256_neon_ctx" where
  "ctx_init ctx = ctx\<lparr>sc_state := H256_INIT, sc_count := 0\<rparr>"

text \<open>The loop over full blocks, with the data left over.\<close>

function ctx_full_blocks :: "sha_transform \<Rightarrow> u32 list \<Rightarrow> bytes \<Rightarrow> u32 list \<times> bytes" where
  "ctx_full_blocks transform state data =
     (if 64 \<le> length data then ctx_full_blocks transform (transform state (take 64 data)) (drop 64 data)
      else (state, data))"
  by pat_completeness auto

termination
  by (relation "measure (\<lambda>(transform, state, data). length data)") auto

declare ctx_full_blocks.simps [simp del]

definition sha_index :: "u64 \<Rightarrow> nat" where
  "sha_index count = unat (drop_bit 3 count AND 0x3f)"

definition ctx_update :: "sha_transform \<Rightarrow> bytes \<Rightarrow> sha256_neon_ctx \<Rightarrow> sha256_neon_ctx" where
  "ctx_update transform data ctx =
     (let index = sha_index (sc_count ctx);
          ctx1 = ctx\<lparr>sc_count := sc_count ctx + push_bit 3 (of_nat (length data))\<rparr>;
          left = 64 - index;
          full = (\<lambda>c d. case ctx_full_blocks transform (sc_state c) d of
                          (state, rest) \<Rightarrow> c\<lparr>sc_state := state, sc_buffer := memcpy (sc_buffer c) 0 rest\<rparr>)
      in if index \<noteq> 0 then
           (if length data < left then ctx1\<lparr>sc_buffer := memcpy (sc_buffer ctx1) index data\<rparr>
            else let buffer = memcpy (sc_buffer ctx1) index (take left data)
                 in full (ctx1\<lparr>sc_buffer := buffer, sc_state := transform (sc_state ctx1) buffer\<rparr>)
                      (drop left data))
         else full ctx1 data)"

lemma update_count [simp]:
  "sc_count (ctx_update transform data ctx) = sc_count ctx + push_bit 3 (of_nat (length data))"
  by (simp add: ctx_update_def Let_def split: prod.split)

lemma sha_index_eq: "sha_index x = unat x div 8 mod 64"
proof -
  have "drop_bit 3 x AND 0x3f = take_bit 6 (drop_bit 3 x)" by (simp add: take_bit_eq_mask mask_eq_exp_minus_1)
  then show ?thesis
    by (simp add: sha_index_def take_bit_eq_mod drop_bit_eq_div unsigned_take_bit_eq
        unsigned_drop_bit_eq unat_div unat_mod)
qed

lemma sha_index_step: "sha_index (c + 8) = Suc (sha_index c) mod 64"
proof -
  have "unat (c + 8) = (unat c + 8) mod 2 ^ 64" by (simp add: unat_word_ariths)
  moreover have "(unat c + 8) mod (8 * 2 ^ 61) div 8 = Suc (unat c div 8) mod 2 ^ 61"
    unfolding mod_mult2_eq by simp
  moreover have "Suc (unat c div 8) mod 2 ^ 61 mod 64 = Suc (unat c div 8) mod (64 :: nat)"
    by (rule mod_mod_cancel) simp
  ultimately show ?thesis by (simp add: sha_index_eq mod_Suc_eq)
qed

lemma pad_measure: "i < 64 \<Longrightarrow> i \<noteq> 56 \<Longrightarrow> (120 - Suc i mod 64) mod 64 < (120 - i) mod (64 :: nat)"
  by (cases "i = 63") (auto simp: mod_if)

text \<open>The padding loop of \<open>sha256_neon_final\<close>.\<close>

function ctx_pad_loop :: "sha_transform \<Rightarrow> sha256_neon_ctx \<Rightarrow> sha256_neon_ctx" where
  "ctx_pad_loop transform ctx =
     (if sha_index (sc_count ctx) \<noteq> 56 then ctx_pad_loop transform (ctx_update transform [0] ctx) else ctx)"
  by pat_completeness auto

termination
proof (relation "measure (\<lambda>(transform, ctx). (120 - sha_index (sc_count ctx)) mod 64)")
  fix transform :: sha_transform and ctx :: sha256_neon_ctx
  have "sha_index (sc_count ctx) < 64" by (simp add: sha_index_eq)
  moreover assume "sha_index (sc_count ctx) \<noteq> 56"
  moreover have "sc_count (ctx_update transform [0] ctx) = sc_count ctx + 8" by (simp add: push_bit_eq_mult)
  ultimately show "((transform, ctx_update transform [0] ctx), transform, ctx)
    \<in> measure (\<lambda>(transform, ctx). (120 - sha_index (sc_count ctx)) mod 64)"
    by (simp add: sha_index_step pad_measure)
qed simp

declare ctx_pad_loop.simps [simp del]

definition finalcount :: "u64 \<Rightarrow> bytes" where
  "finalcount count = map (\<lambda>i. ucast (drop_bit (56 - i * 8) count AND 0xff)) [0..<8]"

definition ctx_final :: "sha_transform \<Rightarrow> sha256_neon_ctx \<Rightarrow> sha256_neon_ctx \<times> bytes" where
  "ctx_final transform ctx =
     (let ctx1 = ctx_update transform [0x80] ctx;
          ctx2 = ctx_pad_loop transform ctx1;
          ctx3 = ctx_update transform (finalcount (sc_count ctx)) ctx2
      in (ctx3, concat (map (\<lambda>i. be32enc (sc_state ctx3 ! i)) [0..<8])))"

text \<open>
  The functions of \<open>sha256_neon.c\<close>, on the transform selected at run time. \<open>crypto\<close> is the answer of
  \<open>sha256_has_crypto\<close>, \<open>fresh\<close> the uninitialised context on the stack.
\<close>

definition sha256_neon_init :: "sha256_neon_ctx \<Rightarrow> sha256_neon_ctx" where
  "sha256_neon_init ctx = ctx_init ctx"

definition sha256_neon_update :: "bool \<Rightarrow> bytes \<Rightarrow> sha256_neon_ctx \<Rightarrow> sha256_neon_ctx" where
  "sha256_neon_update crypto data ctx = ctx_update (sha256_transform crypto) data ctx"

definition sha256_neon_final :: "bool \<Rightarrow> sha256_neon_ctx \<Rightarrow> sha256_neon_ctx \<times> bytes" where
  "sha256_neon_final crypto ctx = ctx_final (sha256_transform crypto) ctx"

definition sha256_neon :: "bool \<Rightarrow> sha256_neon_ctx \<Rightarrow> bytes \<Rightarrow> bytes" where
  "sha256_neon crypto fresh data =
     snd (sha256_neon_final crypto (sha256_neon_update crypto data (sha256_neon_init fresh)))"

definition sha256d_neon :: "bool \<Rightarrow> sha256_neon_ctx \<Rightarrow> bytes \<Rightarrow> bytes" where
  "sha256d_neon crypto fresh data = (let hash1 = sha256_neon crypto fresh data in sha256_neon crypto fresh hash1)"

definition sha256_midstate_neon :: "bool \<Rightarrow> bytes \<Rightarrow> u32 list" where
  "sha256_midstate_neon crypto data = sha256_transform crypto H256_INIT (take 64 data)"

section \<open>The message digest of FIPS 180-4\<close>

text \<open>The state after the full blocks of a message, and the bytes after them.\<close>

function absorb :: "u32 list \<Rightarrow> bytes \<Rightarrow> u32 list \<times> bytes" where
  "absorb H m =
     (if 64 \<le> length m then absorb (fips_compress H (block_words (take 64 m))) (drop 64 m) else (H, m))"
  by pat_completeness auto

termination
  by (relation "measure (\<lambda>(H, m). length m)") auto

declare absorb.simps [simp del]

definition fips_pad :: "bytes \<Rightarrow> bytes" where
  "fips_pad m = m @ [0x80] @ replicate ((119 - length m mod 64) mod 64) 0 @
     map (\<lambda>i. of_nat (8 * length m div 2 ^ (56 - 8 * i))) [0..<8]"

definition fips_sha256 :: "bytes \<Rightarrow> bytes" where
  "fips_sha256 m = concat (map be32enc (fst (absorb H256_INIT (fips_pad m))))"

section \<open>A context represents the bytes fed to it\<close>

lemma absorb_append: "absorb H (a @ b) = (case absorb H a of (H', r) \<Rightarrow> absorb H' (r @ b))"
proof (induction H a rule: absorb.induct)
  case (1 H a)
  show ?case
  proof (cases "64 \<le> length a")
    case True
    then show ?thesis using 1 absorb.simps [of H "a @ b"] absorb.simps [of H a] by simp
  next
    case False
    then show ?thesis using absorb.simps [of H a] by simp
  qed
qed

lemma length_absorb_rest: "length (snd (absorb H m)) = length m mod 64"
proof (induction H m rule: absorb.induct)
  case (1 H m)
  then show ?case by (subst absorb.simps) (auto simp: le_mod_geq)
qed

lemma length_absorb_state: "length H = 8 \<Longrightarrow> length (fst (absorb H m)) = 8"
proof (induction H m rule: absorb.induct)
  case (1 H m)
  then show ?case by (subst absorb.simps) auto
qed

definition ctx_holds :: "sha256_neon_ctx \<Rightarrow> bytes \<Rightarrow> bool" where
  "ctx_holds ctx m \<longleftrightarrow> length (sc_buffer ctx) = 64 \<and> sc_count ctx = of_nat (8 * length m) \<and>
     absorb H256_INIT m = (sc_state ctx, take (length m mod 64) (sc_buffer ctx))"

text \<open>
  The incremental hash over any transform that computes the compression function. A context
  represents the bytes fed to it; an update appends to them and the final digest is that of FIPS 180-4.
\<close>

locale compression =
  fixes transform :: sha_transform
  assumes transform_fips: "length block = 64 \<Longrightarrow> transform H block = fips_compress H (block_words block)"
begin

lemma full_blocks_absorb: "ctx_full_blocks transform H m = absorb H m"
proof (induction H m rule: absorb.induct)
  case (1 H m)
  then show ?case
    by (subst absorb.simps, subst ctx_full_blocks.simps) (simp add: transform_fips)
qed

lemma init_holds: "length (sc_buffer ctx) = 64 \<Longrightarrow> ctx_holds (ctx_init ctx) []"
  by (simp add: ctx_holds_def ctx_init_def absorb.simps)

lemma sha_index_of_nat: "sha_index (of_nat (8 * n)) = n mod 64"
proof (induction n)
  case 0
  then show ?case by (simp add: sha_index_eq)
next
  case (Suc n)
  have "(of_nat (8 * Suc n) :: u64) = of_nat (8 * n) + 8" by simp
  then show ?case using Suc sha_index_step [of "of_nat (8 * n)"] by (simp add: mod_Suc_eq add.commute)
qed

lemma count_append: "of_nat (8 * length m) + push_bit 3 (of_nat (length d)) = (of_nat (8 * length (m @ d)) :: u64)"
  by (simp add: push_bit_eq_mult algebra_simps)

lemma take_memcpy_at: "length b = 64 \<Longrightarrow> i + length d \<le> 64 \<Longrightarrow> take (i + length d) (memcpy b i d) = take i b @ d"
  by (simp add: memcpy_def)

text \<open>The tail of an update: the full blocks of \<open>d\<close> are hashed and the rest is saved.\<close>

lemma absorb_tail:
  assumes "length b = 64" "absorb H d = (S, rest)"
  shows "length (memcpy b 0 rest) = 64" "take (length d mod 64) (memcpy b 0 rest) = rest"
  using assms length_absorb_rest [of H d] by (simp_all add: memcpy_def)

lemma update_holds:
  assumes "ctx_holds ctx m"
  shows "ctx_holds (ctx_update transform d ctx) (m @ d)"
proof -
  let ?i = "length m mod 64" and ?b = "sc_buffer ctx" and ?S = "sc_state ctx"
  have b: "length ?b = 64" and c: "sc_count ctx = of_nat (8 * length m)"
    and a: "absorb H256_INIT m = (?S, take ?i ?b)"
    using assms by (simp_all add: ctx_holds_def)
  have i: "sha_index (sc_count ctx) = ?i" unfolding c by (rule sha_index_of_nat)
  have count: "sc_count ctx + push_bit 3 (of_nat (length d)) = of_nat (8 * length (m @ d))"
    unfolding c by (rule count_append)
  have app: "absorb H256_INIT (m @ d) = absorb ?S (take ?i ?b @ d)" 
    using absorb_append [of H256_INIT m d] a by simp
  have lt: "?i < 64" by simp
  consider "?i = 0" | "?i \<noteq> 0" "length d < 64 - ?i" | "?i \<noteq> 0" "64 - ?i \<le> length d" by linarith
  then show ?thesis
  proof cases
    case 1
    obtain S rest where r: "absorb ?S d = (S, rest)" by fastforce
    have "length (m @ d) mod 64 = length d mod 64" using 1 by (metis add_0 length_append mod_add_left_eq)
    then show ?thesis using 1 absorb_tail [OF b r] app r i count
      by (simp add: ctx_holds_def ctx_update_def full_blocks_absorb)
  next
    case 2
    have "length (m @ d) mod 64 = ?i + length d" using 2 lt
      by (metis add.commute length_append less_diff_conv mod_add_left_eq mod_less)
    moreover have "\<not> 64 \<le> length (take ?i ?b @ d)" using 2 b lt by simp
    then have "absorb ?S (take ?i ?b @ d) = (?S, take ?i ?b @ d)" by (subst absorb.simps) (rule if_not_P)
    ultimately show ?thesis using 2 b app i count take_memcpy_at [OF b, of ?i d]
      by (simp add: ctx_holds_def ctx_update_def length_memcpy)
  next
    case 3
    let ?d = "drop (64 - ?i) d" and ?k = "memcpy ?b ?i (take (64 - ?i) d)"
    have k: "?k = take ?i ?b @ take (64 - ?i) d" "length ?k = 64" using 3 b lt by (simp_all add: memcpy_def)
    have "take 64 (take ?i ?b @ d) = ?k" "drop 64 (take ?i ?b @ d) = ?d" "64 \<le> length (take ?i ?b @ d)"
      using 3 b lt k by simp_all
    then have full: "absorb ?S (take ?i ?b @ d) = absorb (fips_compress ?S (block_words ?k)) ?d"
      by (subst absorb.simps) simp
    obtain S rest where r: "absorb (fips_compress ?S (block_words ?k)) ?d = (S, rest)" by fastforce
    have "length (m @ d) mod 64 = length ?d mod 64"
    proof -
      have "?i + length d = length ?d + 64" using 3 lt by simp
      then show ?thesis by (metis length_append mod_add_left_eq mod_add_self2)
    qed
    moreover have "ctx_update transform d ctx =
        ctx\<lparr>sc_count := of_nat (8 * length (m @ d)), sc_state := S, sc_buffer := memcpy ?k 0 rest\<rparr>"
      using 3 r i count by (simp add: ctx_update_def Let_def full_blocks_absorb transform_fips k(2))
    ultimately show ?thesis using absorb_tail [OF k(2) r] app full r by (simp add: ctx_holds_def)
  qed
qed

lemma pad_amount:
  fixes i :: nat
  assumes "i < 64"
  shows "(120 - Suc i mod 64) mod 64 = (119 - i) mod 64"
    and "i \<noteq> 56 \<Longrightarrow> (120 - i) mod 64 = Suc ((120 - Suc i mod 64) mod 64)"
proof -
  have m: "(64 + k) mod 64 = k" if "k < 64" for k :: nat using that by simp
  have s: "Suc i mod 64 = (if i = 63 then 0 else Suc i)" using assms by simp
  show "(120 - Suc i mod 64) mod 64 = (119 - i) mod 64" by (simp add: s)
  assume "i \<noteq> 56"
  then consider "i < 56" | "56 < i" "i \<noteq> 63" | "i = 63" by linarith
  then show "(120 - i) mod 64 = Suc ((120 - Suc i mod 64) mod 64)"
  proof cases
    case 1
    then have "120 - i = 64 + (56 - i)" "120 - Suc i = 64 + (55 - i)" by simp_all
    then show ?thesis using 1 m [of "56 - i"] m [of "55 - i"] by (simp add: s)
  qed (use assms s in simp_all)
qed

text \<open>The padding loop appends zero bytes up to 56 modulo 64.\<close>

lemma pad_loop_holds:
  "ctx_holds ctx m \<Longrightarrow>
   ctx_holds (ctx_pad_loop transform ctx) (m @ replicate ((120 - length m mod 64) mod 64) 0)"
proof (induction "(120 - length m mod 64) mod 64" arbitrary: ctx m)
  case 0
  have i: "sha_index (sc_count ctx) = length m mod 64"
    using 0(2) sha_index_of_nat [of "length m"] by (simp add: ctx_holds_def)
  have "length m mod 64 = 56" using 0(1) pad_amount(2) [of "length m mod 64"] by fastforce
  then show ?case using 0 i by (simp add: ctx_pad_loop.simps)
next
  case (Suc k)
  have i: "sha_index (sc_count ctx) = length m mod 64"
    using Suc(3) sha_index_of_nat [of "length m"] by (simp add: ctx_holds_def)
  have ne: "length m mod 64 \<noteq> 56" using Suc(2) by auto
  have k: "k = (120 - length (m @ [0]) mod 64) mod 64"
    using pad_amount(2) [of "length m mod 64"] ne Suc(2) by (simp add: mod_Suc_eq)
  have "ctx_holds (ctx_pad_loop transform (ctx_update transform [0] ctx))
       ((m @ [0]) @ replicate ((120 - length (m @ [0]) mod 64) mod 64) 0)"
    by (rule Suc(1) [OF k update_holds [OF Suc(3)]])
  then show ?case
    unfolding Suc(2) [symmetric] k [symmetric] using ne i by (simp add: ctx_pad_loop.simps [of transform ctx])
qed

lemma length_byte: "n < 2 ^ 64 \<Longrightarrow> (ucast (drop_bit s (of_nat n :: u64) AND 0xff) :: u8) = of_nat (n div 2 ^ s)"
proof -
  assume n: "n < 2 ^ 64"
  have ff: "(0xff :: u64) = mask 8" by (simp add: mask_eq_exp_minus_1)
  have "(ucast (drop_bit s (of_nat n :: u64) AND 0xff) :: u8) = ucast (drop_bit s (of_nat n :: u64))"
    unfolding ff by (rule bit_word_eqI) (simp add: bit_simps)
  also have "\<dots> = of_nat (unat (drop_bit s (of_nat n :: u64)))" by simp
  also have "unat (drop_bit s (of_nat n :: u64)) = n div 2 ^ s"
    using n unfolding unsigned_drop_bit_eq by (simp add: unat_of_nat take_bit_nat_eq_self) (simp add: drop_bit_eq_div)
  finally show ?thesis .
qed

lemma finalcount_spec:
  "length m < 2 ^ 61 \<Longrightarrow>
   finalcount (of_nat (8 * length m)) = map (\<lambda>i. of_nat (8 * length m div 2 ^ (56 - 8 * i))) [0..<8]"
  unfolding finalcount_def using length_byte [of "8 * length m"] by (simp add: mult.commute del: upt_rec_numeral)

lemma final_digest:
  assumes "ctx_holds ctx m" "length m < 2 ^ 61"
  shows "snd (ctx_final transform ctx) = fips_sha256 m"
proof -
  let ?z = "replicate ((119 - length m mod 64) mod 64) 0 :: bytes"
  define ctx3 where "ctx3 = fst (ctx_final transform ctx)"
  have z: "(120 - length (m @ [0x80]) mod 64) mod 64 = (119 - length m mod 64) mod 64"
    using pad_amount(1) [of "length m mod 64"] by (simp add: mod_Suc_eq)
  have fc: "finalcount (sc_count ctx) = map (\<lambda>i. of_nat (8 * length m div 2 ^ (56 - 8 * i))) [0..<8]"
    using assms finalcount_spec [of m] by (simp add: ctx_holds_def)
  have "ctx_holds ctx3 (((m @ [0x80]) @ ?z) @ finalcount (sc_count ctx))"
    unfolding ctx3_def ctx_final_def Let_def fst_conv
    using pad_loop_holds [OF update_holds [OF assms(1), of "[0x80]"]] z
    by (intro update_holds) simp
  then have h: "ctx_holds ctx3 (fips_pad m)" by (simp add: fips_pad_def fc)
  then have st: "fst (absorb H256_INIT (fips_pad m)) = sc_state ctx3" by (simp add: ctx_holds_def)
  have len: "length (sc_state ctx3) = 8"
    using length_absorb_state [of H256_INIT "fips_pad m"] st by (simp add: H256_INIT_def)
  have "snd (ctx_final transform ctx) = concat (map (\<lambda>i. be32enc (sc_state ctx3 ! i)) [0..<8])"
    by (simp add: ctx3_def ctx_final_def Let_def)
  also have "\<dots> = concat (map be32enc (sc_state ctx3))"
    using len map_nth [of "sc_state ctx3"] by (metis (no_types, lifting) map_map comp_apply map_eq_conv)
  finally show ?thesis by (simp add: fips_sha256_def st)
qed


lemma stream_holds:
  "ctx_holds ctx m \<Longrightarrow> ctx_holds (foldl (\<lambda>c d. ctx_update transform d c) ctx chunks) (m @ concat chunks)"
proof (induction chunks arbitrary: ctx m)
  case (Cons d ds)
  then show ?case using update_holds [OF Cons.prems, of d] by fastforce
qed simp

lemma digest_of:
  assumes "length (sc_buffer fresh) = 64" "length (concat chunks) < 2 ^ 61"
  shows "snd (ctx_final transform (foldl (\<lambda>c d. ctx_update transform d c) (ctx_init fresh) chunks)) = fips_sha256 (concat chunks)"
  using final_digest [OF stream_holds [OF init_holds [OF assms(1)]]] assms(2) by simp

end

interpretation neon: compression "sha256_transform crypto" for crypto
  by unfold_locales (rule sha256_transform_fips)

text \<open>
  C12. The incremental hash refines the message digest of FIPS 180-4: however a message is cut into
  updates, with and without the processor's SHA-2 instructions and whatever the context held before
  its initialisation, the final digest is that of the whole message.
\<close>

theorem streaming_digest:
  assumes "length (sc_buffer fresh) = 64" "length (concat chunks) < 2 ^ 61"
  shows "snd (sha256_neon_final crypto
      (foldl (\<lambda>c d. sha256_neon_update crypto d c) (sha256_neon_init fresh) chunks)) = fips_sha256 (concat chunks)"
  unfolding sha256_neon_final_def sha256_neon_update_def sha256_neon_init_def by (rule neon.digest_of [OF assms])

theorem streaming_digest_witness:
  "snd (sha256_neon_final True
     (foldl (\<lambda>c d. sha256_neon_update True d c)
        (sha256_neon_init \<lparr>sc_state = [], sc_count = 7, sc_buffer = replicate 64 1\<rparr>) [[0x61], replicate 70 0x62, [0x63]])) =
   fips_sha256 ([0x61] @ replicate 70 0x62 @ [0x63])"
  using streaming_digest [of "\<lparr>sc_state = [], sc_count = 7, sc_buffer = replicate 64 1\<rparr>"
      "[[0x61], replicate 70 0x62, [0x63]]" True] by simp

lemma sha256_neon_fips:
  "length (sc_buffer fresh) = 64 \<Longrightarrow> length data < 2 ^ 61 \<Longrightarrow> sha256_neon crypto fresh data = fips_sha256 data"
  using neon.digest_of [of fresh "[data]" crypto]
  by (simp add: sha256_neon_def sha256_neon_final_def sha256_neon_update_def sha256_neon_init_def)

lemma length_fips_sha256 [simp]: "length (fips_sha256 m) = 32"
  using length_absorb_state [of H256_INIT "fips_pad m"]
  by (simp add: fips_sha256_def length_concat H256_INIT_def comp_def sum_list_triv)

lemma sha256d_neon_fips:
  "length (sc_buffer fresh) = 64 \<Longrightarrow> length data < 2 ^ 61 \<Longrightarrow>
   sha256d_neon crypto fresh data = fips_sha256 (fips_sha256 data)"
  by (simp add: sha256d_neon_def sha256_neon_fips)

section \<open>The self-test\<close>

definition expected_sha256 :: bytes where
  "expected_sha256 = [
     0xba, 0x78, 0x16, 0xbf, 0x8f, 0x01, 0xcf, 0xea, 0x41, 0x41, 0x40, 0xde, 0x5d, 0xae, 0x22, 0x23,
     0xb0, 0x03, 0x61, 0xa3, 0x96, 0x17, 0x7a, 0x9c, 0xb4, 0x10, 0xff, 0x61, 0xf2, 0x00, 0x15, 0xad]"

definition expected_sha256d :: bytes where
  "expected_sha256d = [
     0x4f, 0x8b, 0x42, 0xc2, 0x2d, 0xd3, 0x72, 0x9b, 0x51, 0x9b, 0xa6, 0xf6, 0x8d, 0x2d, 0xa7, 0xcc,
     0x5b, 0x2d, 0x60, 0x6d, 0x05, 0xda, 0xed, 0x5a, 0xd5, 0x12, 0x8c, 0xc0, 0x3e, 0x6c, 0x63, 0x58]"

definition sha256_neon_selftest :: "bool \<Rightarrow> sha256_neon_ctx \<Rightarrow> int" where
  "sha256_neon_selftest crypto fresh =
     (let test_input = [0x61, 0x62, 0x63]
      in if sha256_neon crypto fresh test_input \<noteq> expected_sha256 then -1
         else if sha256d_neon crypto fresh test_input \<noteq> expected_sha256d then -1
         else 0)"

text \<open>The verdict of the self-test does not depend on the processor or on the stack contents.\<close>

lemma selftest_independent:
  "length (sc_buffer fresh) = 64 \<Longrightarrow> length (sc_buffer fresh') = 64 \<Longrightarrow>
   sha256_neon_selftest crypto fresh = sha256_neon_selftest crypto' fresh'"
  by (simp add: sha256_neon_selftest_def Let_def sha256_neon_fips sha256d_neon_fips)

end
