(* ===== verification/Scrypt_Hash.thy ===== *)
theory Scrypt_Hash
  imports Sha256
begin

text \<open>
  The hash functions inside \<open>src/algorithm/scrypt_neon.c\<close>: its own SHA-256 (over the SHA-2 instructions
  or in software, chosen when the program is built), HMAC and PBKDF2. They are shown to compute the
  functions of FIPS 180-4, RFC 2104 and RFC 8018.
\<close>

section \<open>SHA-256\<close>

definition sha256_k :: "u32 list" where
  "sha256_k =
     [0x428a2f98, 0x71374491, 0xb5c0fbcf, 0xe9b5dba5] @
     [0x3956c25b, 0x59f111f1, 0x923f82a4, 0xab1c5ed5] @
     [0xd807aa98, 0x12835b01, 0x243185be, 0x550c7dc3] @
     [0x72be5d74, 0x80deb1fe, 0x9bdc06a7, 0xc19bf174] @
     [0xe49b69c1, 0xefbe4786, 0x0fc19dc6, 0x240ca1cc] @
     [0x2de92c6f, 0x4a7484aa, 0x5cb0a9dc, 0x76f988da] @
     [0x983e5152, 0xa831c66d, 0xb00327c8, 0xbf597fc7] @
     [0xc6e00bf3, 0xd5a79147, 0x06ca6351, 0x14292967] @
     [0x27b70a85, 0x2e1b2138, 0x4d2c6dfc, 0x53380d13] @
     [0x650a7354, 0x766a0abb, 0x81c2c92e, 0x92722c85] @
     [0xa2bfe8a1, 0xa81a664b, 0xc24b8b70, 0xc76c51a3] @
     [0xd192e819, 0xd6990624, 0xf40e3585, 0x106aa070] @
     [0x19a4c116, 0x1e376c08, 0x2748774c, 0x34b0bcb5] @
     [0x391c0cb3, 0x4ed8aa4a, 0x5b9cca4f, 0x682e6ff3] @
     [0x748f82ee, 0x78a5636f, 0x84c87814, 0x8cc70208] @
     [0x90befffa, 0xa4506ceb, 0xbef9a3f7, 0xc67178f2]"

definition sha256_h0 :: "u32 list" where
  "sha256_h0 = [
     0x6a09e667, 0xbb67ae85, 0x3c6ef372, 0xa54ff53a,
     0x510e527f, 0x9b05688c, 0x1f83d9ab, 0x5be0cd19]"

text \<open>The two state vectors are the words 0 to 3 and 4 to 7 of the state.\<close>

definition scrypt_transform_arm :: "u32 list \<Rightarrow> bytes \<Rightarrow> u32 list" where
  "scrypt_transform_arm state data =
     (let state0 = vld1q_u32 state 0;
          state1 = vld1q_u32 state 4;
          state0_save = state0;
          state1_save = state1;
          msg0 = vreinterpretq_u32_u8 (vrev32q_u8 (vld1q_u8 data 0));
          msg1 = vreinterpretq_u32_u8 (vrev32q_u8 (vld1q_u8 data 16));
          msg2 = vreinterpretq_u32_u8 (vrev32q_u8 (vld1q_u8 data 32));
          msg3 = vreinterpretq_u32_u8 (vrev32q_u8 (vld1q_u8 data 48));
          tmp0 = vaddq_u32 msg0 (vld1q_u32 sha256_k 0);
          tmp1 = state0;
          state0 = vsha256hq_u32 state0 state1 tmp0;
          state1 = vsha256h2q_u32 state1 tmp1 tmp0;
          msg0 = vsha256su0q_u32 msg0 msg1;
          tmp0 = vaddq_u32 msg1 (vld1q_u32 sha256_k 4);
          tmp1 = state0;
          state0 = vsha256hq_u32 state0 state1 tmp0;
          state1 = vsha256h2q_u32 state1 tmp1 tmp0;
          msg0 = vsha256su1q_u32 msg0 msg2 msg3;
          msg1 = vsha256su0q_u32 msg1 msg2;
          tmp0 = vaddq_u32 msg2 (vld1q_u32 sha256_k 8);
          tmp1 = state0;
          state0 = vsha256hq_u32 state0 state1 tmp0;
          state1 = vsha256h2q_u32 state1 tmp1 tmp0;
          msg1 = vsha256su1q_u32 msg1 msg3 msg0;
          msg2 = vsha256su0q_u32 msg2 msg3;
          tmp0 = vaddq_u32 msg3 (vld1q_u32 sha256_k 12);
          tmp1 = state0;
          state0 = vsha256hq_u32 state0 state1 tmp0;
          state1 = vsha256h2q_u32 state1 tmp1 tmp0;
          msg2 = vsha256su1q_u32 msg2 msg0 msg1;
          msg3 = vsha256su0q_u32 msg3 msg0;
          tmp0 = vaddq_u32 msg0 (vld1q_u32 sha256_k 16);
          tmp1 = state0;
          state0 = vsha256hq_u32 state0 state1 tmp0;
          state1 = vsha256h2q_u32 state1 tmp1 tmp0;
          msg3 = vsha256su1q_u32 msg3 msg1 msg2;
          msg0 = vsha256su0q_u32 msg0 msg1;
          tmp0 = vaddq_u32 msg1 (vld1q_u32 sha256_k 20);
          tmp1 = state0;
          state0 = vsha256hq_u32 state0 state1 tmp0;
          state1 = vsha256h2q_u32 state1 tmp1 tmp0;
          msg0 = vsha256su1q_u32 msg0 msg2 msg3;
          msg1 = vsha256su0q_u32 msg1 msg2;
          tmp0 = vaddq_u32 msg2 (vld1q_u32 sha256_k 24);
          tmp1 = state0;
          state0 = vsha256hq_u32 state0 state1 tmp0;
          state1 = vsha256h2q_u32 state1 tmp1 tmp0;
          msg1 = vsha256su1q_u32 msg1 msg3 msg0;
          msg2 = vsha256su0q_u32 msg2 msg3;
          tmp0 = vaddq_u32 msg3 (vld1q_u32 sha256_k 28);
          tmp1 = state0;
          state0 = vsha256hq_u32 state0 state1 tmp0;
          state1 = vsha256h2q_u32 state1 tmp1 tmp0;
          msg2 = vsha256su1q_u32 msg2 msg0 msg1;
          msg3 = vsha256su0q_u32 msg3 msg0;
          tmp0 = vaddq_u32 msg0 (vld1q_u32 sha256_k 32);
          tmp1 = state0;
          state0 = vsha256hq_u32 state0 state1 tmp0;
          state1 = vsha256h2q_u32 state1 tmp1 tmp0;
          msg3 = vsha256su1q_u32 msg3 msg1 msg2;
          msg0 = vsha256su0q_u32 msg0 msg1;
          tmp0 = vaddq_u32 msg1 (vld1q_u32 sha256_k 36);
          tmp1 = state0;
          state0 = vsha256hq_u32 state0 state1 tmp0;
          state1 = vsha256h2q_u32 state1 tmp1 tmp0;
          msg0 = vsha256su1q_u32 msg0 msg2 msg3;
          msg1 = vsha256su0q_u32 msg1 msg2;
          tmp0 = vaddq_u32 msg2 (vld1q_u32 sha256_k 40);
          tmp1 = state0;
          state0 = vsha256hq_u32 state0 state1 tmp0;
          state1 = vsha256h2q_u32 state1 tmp1 tmp0;
          msg1 = vsha256su1q_u32 msg1 msg3 msg0;
          msg2 = vsha256su0q_u32 msg2 msg3;
          tmp0 = vaddq_u32 msg3 (vld1q_u32 sha256_k 44);
          tmp1 = state0;
          state0 = vsha256hq_u32 state0 state1 tmp0;
          state1 = vsha256h2q_u32 state1 tmp1 tmp0;
          msg2 = vsha256su1q_u32 msg2 msg0 msg1;
          msg3 = vsha256su0q_u32 msg3 msg0;
          tmp0 = vaddq_u32 msg0 (vld1q_u32 sha256_k 48);
          tmp1 = state0;
          state0 = vsha256hq_u32 state0 state1 tmp0;
          state1 = vsha256h2q_u32 state1 tmp1 tmp0;
          msg3 = vsha256su1q_u32 msg3 msg1 msg2;
          tmp0 = vaddq_u32 msg1 (vld1q_u32 sha256_k 52);
          tmp1 = state0;
          state0 = vsha256hq_u32 state0 state1 tmp0;
          state1 = vsha256h2q_u32 state1 tmp1 tmp0;
          tmp0 = vaddq_u32 msg2 (vld1q_u32 sha256_k 56);
          tmp1 = state0;
          state0 = vsha256hq_u32 state0 state1 tmp0;
          state1 = vsha256h2q_u32 state1 tmp1 tmp0;
          tmp0 = vaddq_u32 msg3 (vld1q_u32 sha256_k 60);
          tmp1 = state0;
          state0 = vsha256hq_u32 state0 state1 tmp0;
          state1 = vsha256h2q_u32 state1 tmp1 tmp0
      in lanes (vaddq_u32 state0 state0_save) @ lanes (vaddq_u32 state1 state1_save))"

definition scrypt_transform_sw :: "u32 list \<Rightarrow> bytes \<Rightarrow> u32 list" where
  "scrypt_transform_sw state block =
     (let W = sha_schedule (map (\<lambda>i. be32dec (drop (i * 4) block)) [0..<16])
      in add_vars state (foldl (\<lambda>v i. sha_round (sha256_k ! i) (W ! i) v) (load_vars state) [0..<64]))"

text \<open>\<open>arm\<close> is the build option \<open>USE_ARM_SHA256\<close>.\<close>

definition scrypt_transform :: "bool \<Rightarrow> u32 list \<Rightarrow> bytes \<Rightarrow> u32 list" where
  "scrypt_transform arm = (if arm then scrypt_transform_arm else scrypt_transform_sw)"

definition scrypt_sha256_init :: "sha256_neon_ctx \<Rightarrow> sha256_neon_ctx" where
  "scrypt_sha256_init ctx = ctx\<lparr>sc_state := sha256_h0, sc_count := 0\<rparr>"

definition scrypt_sha256_update :: "bool \<Rightarrow> bytes \<Rightarrow> sha256_neon_ctx \<Rightarrow> sha256_neon_ctx" where
  "scrypt_sha256_update arm data ctx = ctx_update (scrypt_transform arm) data ctx"

text \<open>The vectors of the state as bytes, each word reversed, in the build with the instructions.\<close>

fun vreinterpretq_u8_u32 :: "uint32x4_t \<Rightarrow> bytes" where
  "vreinterpretq_u8_u32 (Lanes a b c d) = le32enc a @ le32enc b @ le32enc c @ le32enc d"

definition scrypt_sha256_final :: "bool \<Rightarrow> sha256_neon_ctx \<Rightarrow> bytes" where
  "scrypt_sha256_final arm ctx =
     (case ctx_final (scrypt_transform arm) ctx of
        (ctx3, digest) \<Rightarrow>
          if arm then vrev32q_u8 (vreinterpretq_u8_u32 (vld1q_u32 (sc_state ctx3) 0)) @
                      vrev32q_u8 (vreinterpretq_u8_u32 (vld1q_u32 (sc_state ctx3) 4))
          else digest)"

definition scrypt_sha256 :: "bool \<Rightarrow> sha256_neon_ctx \<Rightarrow> bytes \<Rightarrow> bytes" where
  "scrypt_sha256 arm fresh data = scrypt_sha256_final arm (scrypt_sha256_update arm data (scrypt_sha256_init fresh))"

section \<open>HMAC and PBKDF2\<close>

definition pad_key :: "u8 \<Rightarrow> bytes \<Rightarrow> bytes" where
  "pad_key b key = map (\<lambda>i. if i < length key then b XOR key ! i else b) [0..<64]"

definition hmac_key :: "bool \<Rightarrow> sha256_neon_ctx \<Rightarrow> bytes \<Rightarrow> bytes" where
  "hmac_key arm fresh key = (if 64 < length key then scrypt_sha256 arm fresh key else key)"

definition hmac_sha256_init :: "bool \<Rightarrow> sha256_neon_ctx \<Rightarrow> bytes \<Rightarrow> sha256_neon_ctx" where
  "hmac_sha256_init arm fresh key =
     scrypt_sha256_update arm (pad_key 0x36 (hmac_key arm fresh key)) (scrypt_sha256_init fresh)"

definition hmac_sha256_final :: "bool \<Rightarrow> sha256_neon_ctx \<Rightarrow> sha256_neon_ctx \<Rightarrow> bytes \<Rightarrow> bytes" where
  "hmac_sha256_final arm fresh ctx key =
     (let inner_hash = scrypt_sha256_final arm ctx;
          k_opad = pad_key 0x5c (hmac_key arm fresh key)
      in scrypt_sha256_final arm
           (scrypt_sha256_update arm inner_hash (scrypt_sha256_update arm k_opad (scrypt_sha256_init fresh))))"

text \<open>One block of PBKDF2; the loop over the further iterations keeps \<open>U\<close> and the running \<open>T\<close>.\<close>

primrec pbkdf2_iterate :: "bool \<Rightarrow> sha256_neon_ctx \<Rightarrow> bytes \<Rightarrow> nat \<Rightarrow> bytes \<times> bytes \<Rightarrow> bytes \<times> bytes" where
  "pbkdf2_iterate arm fresh password 0 UT = UT"
| "pbkdf2_iterate arm fresh password (Suc n) UT =
     (case UT of (U, T) \<Rightarrow>
        (let U' = hmac_sha256_final arm fresh (scrypt_sha256_update arm U (hmac_sha256_init arm fresh password)) password
         in pbkdf2_iterate arm fresh password n (U', map2 (XOR) T U')))"

definition pbkdf2_block :: "bool \<Rightarrow> sha256_neon_ctx \<Rightarrow> bytes \<Rightarrow> bytes \<Rightarrow> nat \<Rightarrow> nat \<Rightarrow> bytes" where
  "pbkdf2_block arm fresh password salt iterations i =
     (let count_be = be32enc (of_nat i);
          ctx = scrypt_sha256_update arm count_be (scrypt_sha256_update arm salt (hmac_sha256_init arm fresh password));
          U = hmac_sha256_final arm fresh ctx password
      in snd (pbkdf2_iterate arm fresh password (iterations - 1) (U, U)))"

definition pbkdf2_sha256 :: "bool \<Rightarrow> sha256_neon_ctx \<Rightarrow> bytes \<Rightarrow> bytes \<Rightarrow> nat \<Rightarrow> nat \<Rightarrow> bytes" where
  "pbkdf2_sha256 arm fresh password salt iterations dk_len =
     (let blocks = (dk_len + 31) div 32
      in concat (map (\<lambda>i. let copy_len = (if i = blocks then dk_len - (i - 1) * 32 else 32)
                          in take copy_len (pbkdf2_block arm fresh password salt iterations i)) [1..<Suc blocks]))"

section \<open>The specifications\<close>

definition rfc_hmac :: "bytes \<Rightarrow> bytes \<Rightarrow> bytes" where
  "rfc_hmac K text =
     (let K' = (if 64 < length K then fips_sha256 K else K);
          K0 = K' @ replicate (64 - length K') 0
      in fips_sha256 (map2 (XOR) K0 (replicate 64 0x5c) @ fips_sha256 (map2 (XOR) K0 (replicate 64 0x36) @ text)))"

primrec rfc_pbkdf2_xor :: "bytes \<Rightarrow> nat \<Rightarrow> bytes \<Rightarrow> bytes" where
  "rfc_pbkdf2_xor P 0 U = U"
| "rfc_pbkdf2_xor P (Suc c) U = map2 (XOR) U (rfc_pbkdf2_xor P c (rfc_hmac P U))"

definition rfc_pbkdf2 :: "bytes \<Rightarrow> bytes \<Rightarrow> nat \<Rightarrow> nat \<Rightarrow> bytes" where
  "rfc_pbkdf2 P S c dkLen =
     take dkLen (concat (map (\<lambda>i. rfc_pbkdf2_xor P (c - 1) (rfc_hmac P (S @ be32enc (of_nat i))))
       [1..<Suc ((dkLen + 31) div 32)]))"

section \<open>SHA-256 is the digest of FIPS 180-4\<close>

lemma scrypt_constants: "sha256_k = K256" "sha256_h0 = H256_INIT"
  by (simp_all only: sha256_k_def K256_def sha256_h0_def H256_INIT_def)

lemma scrypt_transform_arm_fips:
  "length block = 64 \<Longrightarrow> scrypt_transform_arm H block = fips_compress H (block_words block)"
  unfolding scrypt_transform_arm_def scrypt_constants
  by (simp only: load_block load_state [of H "block_words block"] arm_steps cong: let_weak_cong)

interpretation scrypt: compression "scrypt_transform arm" for arm
  by unfold_locales
    (simp add: scrypt_transform_def scrypt_transform_arm_fips scrypt_transform_sw_def scrypt_constants
      transform_sw_fips [unfolded sha256_transform_sw_def, folded block_words_def] flip: block_words_def)


lemma rev32_bytes: "vrev32q_u8 (le32enc a @ le32enc b @ le32enc c @ le32enc d) = be32enc a @ be32enc b @ be32enc c @ be32enc d"
  by (simp add: vrev32q_u8_def le32enc_def be32enc_def)

lemma scrypt_final_ctx: "scrypt_sha256_final arm ctx = snd (ctx_final (scrypt_transform arm) ctx)"
  by (simp add: scrypt_sha256_final_def ctx_final_def Let_def vld1q_u32_def rev32_bytes upt_conv_Cons numeral_eq_Suc)

lemma scrypt_final_digest:
  "ctx_holds ctx m \<Longrightarrow> length m < 2 ^ 61 \<Longrightarrow> scrypt_sha256_final arm ctx = fips_sha256 m"
  unfolding scrypt_final_ctx by (rule scrypt.final_digest)

lemma scrypt_update_holds: "ctx_holds ctx m \<Longrightarrow> ctx_holds (scrypt_sha256_update arm d ctx) (m @ d)"
  unfolding scrypt_sha256_update_def by (rule scrypt.update_holds)

lemma scrypt_init_holds: "length (sc_buffer fresh) = 64 \<Longrightarrow> ctx_holds (scrypt_sha256_init fresh) []"
  using scrypt.init_holds [of fresh] by (simp add: scrypt_sha256_init_def ctx_init_def scrypt_constants)

lemma scrypt_sha256_fips:
  "length (sc_buffer fresh) = 64 \<Longrightarrow> length data < 2 ^ 61 \<Longrightarrow> scrypt_sha256 arm fresh data = fips_sha256 data"
  unfolding scrypt_sha256_def
  using scrypt_final_digest [OF scrypt_update_holds [OF scrypt_init_holds]] by simp

section \<open>HMAC and PBKDF2 follow their specifications\<close>

lemma pad_key_spec:
  assumes "length key \<le> 64"
  shows "pad_key b key = map2 (XOR) (key @ replicate (64 - length key) 0) (replicate 64 b)"
  using assms by (intro nth_equalityI) (auto simp: pad_key_def nth_append xor.commute)

lemma length_pad_key [simp]: "length (pad_key b key) = 64"
  by (simp add: pad_key_def)

text \<open>A context that holds \<open>m\<close> after the inner key block.\<close>

lemma hmac_final_spec:
  assumes "length (sc_buffer fresh) = 64" "length key < 2 ^ 61" "length m < 2 ^ 60"
    and "ctx_holds ctx (pad_key 0x36 (hmac_key arm fresh key) @ m)"
  shows "hmac_sha256_final arm fresh ctx key = rfc_hmac key m"
proof -
  let ?k = "if 64 < length key then fips_sha256 key else key"
  have k: "hmac_key arm fresh key = ?k" "length ?k \<le> 64" using assms(1,2) by (auto simp: hmac_key_def scrypt_sha256_fips)
  have inner: "scrypt_sha256_final arm ctx = fips_sha256 (pad_key 0x36 ?k @ m)"
    using scrypt_final_digest [OF assms(4)] assms(3) by (simp add: k)
  show ?thesis
    unfolding hmac_sha256_final_def Let_def
    using scrypt_final_digest [OF scrypt_update_holds [OF scrypt_update_holds [OF scrypt_init_holds [OF assms(1)]]]]
    by (simp add: inner k rfc_hmac_def Let_def pad_key_spec [OF k(2), symmetric])
qed

lemma hmac_init_holds:
  "length (sc_buffer fresh) = 64 \<Longrightarrow>
   ctx_holds (hmac_sha256_init arm fresh key) (pad_key 0x36 (hmac_key arm fresh key))"
  unfolding hmac_sha256_init_def using scrypt_update_holds [OF scrypt_init_holds] by fastforce

lemma length_rfc_hmac [simp]: "length (rfc_hmac K text) = 32"
  by (simp add: rfc_hmac_def Let_def)

lemma map2_xor_assoc:
  "length xs = length ys \<Longrightarrow> length ys = length zs \<Longrightarrow>
   map2 (XOR) (map2 (XOR) xs ys) zs = map2 (XOR) xs (map2 (XOR) ys (zs :: bytes))"
  by (auto intro!: nth_equalityI simp: xor.assoc)

lemma length_pbkdf2_xor [simp]: "length U = 32 \<Longrightarrow> length (rfc_pbkdf2_xor P c U) = 32"
  by (induction c arbitrary: U) simp_all

lemma pbkdf2_iterate_spec:
  assumes "length (sc_buffer fresh) = 64" "length P < 2 ^ 61"
  shows "length U = 32 \<Longrightarrow> length T = 32 \<Longrightarrow>
    snd (pbkdf2_iterate arm fresh P (Suc n) (U, T)) = map2 (XOR) T (rfc_pbkdf2_xor P n (rfc_hmac P U))"
proof (induction n arbitrary: U T)
  case 0
  have "hmac_sha256_final arm fresh (scrypt_sha256_update arm U (hmac_sha256_init arm fresh P)) P = rfc_hmac P U"
    using 0 by (intro hmac_final_spec [OF assms] scrypt_update_holds hmac_init_holds assms(1)) simp
  then show ?case by (simp add: Let_def)
next
  case (Suc n)
  have u: "hmac_sha256_final arm fresh (scrypt_sha256_update arm U (hmac_sha256_init arm fresh P)) P = rfc_hmac P U"
    using Suc.prems by (intro hmac_final_spec [OF assms] scrypt_update_holds hmac_init_holds assms(1)) simp
  show ?case
    using Suc.IH [of "rfc_hmac P U" "map2 (XOR) T (rfc_hmac P U)"] Suc.prems u
    by (simp add: map2_xor_assoc Let_def)
qed

lemma pbkdf2_block_spec:
  assumes "length (sc_buffer fresh) = 64" "length P < 2 ^ 61" "length S < 2 ^ 59"
  shows "pbkdf2_block arm fresh P S iterations i =
    rfc_pbkdf2_xor P (iterations - 1) (rfc_hmac P (S @ be32enc (of_nat i)))"
proof -
  let ?U = "rfc_hmac P (S @ be32enc (of_nat i))"
  have u: "hmac_sha256_final arm fresh (scrypt_sha256_update arm (be32enc (of_nat i))
      (scrypt_sha256_update arm S (hmac_sha256_init arm fresh P))) P = ?U"
    using assms(3) scrypt_update_holds [OF scrypt_update_holds [OF hmac_init_holds [OF assms(1)]]]
    by (intro hmac_final_spec [OF assms(1,2)]) simp_all
  show ?thesis
  proof (cases "iterations - 1")
    case 0
    then show ?thesis by (simp add: pbkdf2_block_def Let_def u)
  next
    case (Suc n)
    then show ?thesis
      using pbkdf2_iterate_spec [OF assms(1,2), of ?U ?U arm n] by (simp add: pbkdf2_block_def Let_def u)
  qed
qed

lemma last_block_short:
  fixes f :: "nat \<Rightarrow> bytes"
  assumes "\<And>i. length (f i) = 32"
  shows "concat (map (\<lambda>i. take (if i = (dk + 31) div 32 then dk - (i - 1) * 32 else 32) (f i)) [1..<Suc ((dk + 31) div 32)]) =
    take dk (concat (map f [1..<Suc ((dk + 31) div 32)]))"
proof (cases "(dk + 31) div 32")
  case 0
  then show ?thesis by simp
next
  case (Suc m)
  have first: "map (\<lambda>i. take (if i = Suc m then dk - (i - 1) * 32 else 32) (f i)) [1..<Suc m] = map f [1..<Suc m]"
    using assms by simp
  have len: "length (concat (map f [1..<Suc m])) = 32 * m"
    using assms by (simp add: length_concat comp_def sum_list_triv)
  have "32 * m \<le> dk" using Suc by linarith
  then have "take dk (concat (map f [1..<Suc m]) @ f (Suc m)) = concat (map f [1..<Suc m]) @ take (dk - 32 * m) (f (Suc m))"
    using len by simp
  moreover have "[1..<Suc (Suc m)] = [1..<Suc m] @ [Suc m]" by simp
  ultimately show ?thesis unfolding Suc by (simp only: map_append concat_append first) (simp add: mult.commute)
qed

lemma pbkdf2_sha256_rfc:
  assumes "length (sc_buffer fresh) = 64" "length P < 2 ^ 61" "length S < 2 ^ 59"
  shows "pbkdf2_sha256 arm fresh P S iterations dk_len = rfc_pbkdf2 P S iterations dk_len"
  unfolding pbkdf2_sha256_def Let_def pbkdf2_block_spec [OF assms] rfc_pbkdf2_def
  by (rule last_block_short) simp

lemma length_rfc_pbkdf2 [simp]: "length (rfc_pbkdf2 P S c n) = n"
proof -
  have "n \<le> (n + 31) div 32 * 32" by linarith
  then show ?thesis by (simp add: rfc_pbkdf2_def length_concat comp_def sum_list_triv min_def del: upt_Suc)
qed

end
