(* ===== verification/Scrypt.thy ===== *)
theory Scrypt
  imports Scrypt_Hash
begin

text \<open>
  scrypt with N = 1024, r = 1, p = 1 as in \<open>src/algorithm/scrypt_neon.c\<close>: the ROMix loop for one
  header, for two interleaved headers, and for four headers packed lane-wise into vectors with the
  transposes at the memory boundary. All three compute the function of RFC 7914. The fused BlockMix
  written in assembly is an argument with the behaviour its comment documents.
\<close>

section \<open>Salsa20/8, BlockMix and ROMix of RFC 7914\<close>

definition rfc_step :: "nat \<Rightarrow> nat \<Rightarrow> nat \<Rightarrow> nat \<Rightarrow> u32 list \<Rightarrow> u32 list" where
  "rfc_step t a b k x = x[t := x ! t XOR word_rotl k (x ! a + x ! b)]"

definition rfc_quarter :: "nat \<Rightarrow> nat \<Rightarrow> nat \<Rightarrow> nat \<Rightarrow> u32 list \<Rightarrow> u32 list" where
  "rfc_quarter a b c d x = rfc_step a d c 18 (rfc_step d c b 13 (rfc_step c b a 9 (rfc_step b a d 7 x)))"

definition rfc_double_round :: "u32 list \<Rightarrow> u32 list" where
  "rfc_double_round x =
     (rfc_quarter 15 12 13 14 \<circ> rfc_quarter 10 11 8 9 \<circ> rfc_quarter 5 6 7 4 \<circ> rfc_quarter 0 1 2 3 \<circ>
      rfc_quarter 15 3 7 11 \<circ> rfc_quarter 10 14 2 6 \<circ> rfc_quarter 5 9 13 1 \<circ> rfc_quarter 0 4 8 12) x"

definition rfc_salsa20_8 :: "u32 list \<Rightarrow> u32 list" where
  "rfc_salsa20_8 B = map2 (+) B ((rfc_double_round ^^ 4) B)"

definition xor_words :: "u32 list \<Rightarrow> u32 list \<Rightarrow> u32 list" where
  "xor_words xs ys = map2 (XOR) xs ys"

definition rfc_blockmix :: "u32 list \<Rightarrow> u32 list" where
  "rfc_blockmix B =
     (let Y0 = rfc_salsa20_8 (xor_words (drop 16 B) (take 16 B));
          Y1 = rfc_salsa20_8 (xor_words Y0 (drop 16 B))
      in Y0 @ Y1)"

text \<open>\<open>Integerify\<close> modulo N: the first word of the last 64-byte block.\<close>

definition rfc_mix_step :: "nat \<Rightarrow> u32 list \<Rightarrow> u32 list \<Rightarrow> u32 list" where
  "rfc_mix_step N B X = rfc_blockmix (xor_words X ((rfc_blockmix ^^ (unat (X ! 16) mod N)) B))"

definition rfc_romix :: "nat \<Rightarrow> u32 list \<Rightarrow> u32 list" where
  "rfc_romix N B = (rfc_mix_step N B ^^ N) ((rfc_blockmix ^^ N) B)"

definition rfc_scrypt :: "bytes \<Rightarrow> bytes \<Rightarrow> nat \<Rightarrow> nat \<Rightarrow> bytes" where
  "rfc_scrypt P S N dkLen =
     rfc_pbkdf2 P (words_bytes (rfc_romix N (bytes_words (rfc_pbkdf2 P S 1 128)))) 1 dkLen"

section \<open>ROMix for one and for two headers\<close>

type_synonym blockmix_fn = "u32 list \<Rightarrow> u32 list"

definition SCRYPT_N :: nat where "SCRYPT_N = 1024"

definition SCRYPT_BLOCK_SIZE :: nat where "SCRYPT_BLOCK_SIZE = 128"

text \<open>One iteration of phase 1 and of phase 2; \<open>V\<close> is the memory as words, 32 per entry.\<close>

definition romix_fill :: "blockmix_fn \<Rightarrow> nat \<Rightarrow> u32 list \<times> u32 list \<Rightarrow> u32 list \<times> u32 list" where
  "romix_fill blockmix_asm i = (\<lambda>(B, V).
     let V' = memcpy V (i * 32) (take 16 B @ drop 16 B);
         B' = xor_words (take 16 B) (drop 16 B) @ drop 16 B
     in (blockmix_asm B', V'))"

definition romix_mix :: "blockmix_fn \<Rightarrow> nat \<Rightarrow> u32 list \<Rightarrow> u32 list \<Rightarrow> u32 list" where
  "romix_mix blockmix_asm N V B =
     (let j = unat (B ! 16 AND of_nat (N - 1));
          Vj = take 32 (drop (j * 32) V);
          hi = xor_words (drop 16 B) (drop 16 Vj);
          lo = xor_words (xor_words (take 16 B) (take 16 Vj)) hi
      in blockmix_asm (lo @ hi))"

definition scrypt_romix_r1_fast :: "blockmix_fn \<Rightarrow> nat \<Rightarrow> u32 list \<Rightarrow> u32 list \<Rightarrow> u32 list \<times> u32 list" where
  "scrypt_romix_r1_fast blockmix_asm N B V =
     (let (B1, V1) = foldl (\<lambda>s i. romix_fill blockmix_asm i s) (B, V) [0..<N]
      in ((romix_mix blockmix_asm N V1 ^^ N) B1, V1))"

definition scrypt_romix_dual_scalar ::
  "blockmix_fn \<Rightarrow> nat \<Rightarrow> u32 list \<Rightarrow> u32 list \<Rightarrow> u32 list \<Rightarrow> u32 list \<Rightarrow> u32 list \<times> u32 list" where
  "scrypt_romix_dual_scalar blockmix_asm N Ba Va Bb Vb =
     (let (Ba1, Va1) = foldl (\<lambda>s i. romix_fill blockmix_asm i s) (Ba, Va) [0..<N];
          (Bb1, Vb1) = foldl (\<lambda>s i. romix_fill blockmix_asm i s) (Bb, Vb) [0..<N]
      in ((\<lambda>(a, b). (romix_mix blockmix_asm N Va1 a, romix_mix blockmix_asm N Vb1 b)) ^^ N) (Ba1, Bb1))"

section \<open>ROMix for four headers\<close>

fun lift2 :: "(u32 \<Rightarrow> u32 \<Rightarrow> u32) \<Rightarrow> uint32x4_t \<Rightarrow> uint32x4_t \<Rightarrow> uint32x4_t" where
  "lift2 f (Lanes a0 a1 a2 a3) (Lanes b0 b1 b2 b3) = Lanes (f a0 b0) (f a1 b1) (f a2 b2) (f a3 b3)"

text \<open>\<open>veorq_u32\<close>, and \<open>vsriq_n_u32\<close> of \<open>vshlq_n_u32\<close>, which keeps the high bits of its first operand.\<close>

definition veorq_u32 :: "uint32x4_t \<Rightarrow> uint32x4_t \<Rightarrow> uint32x4_t" where
  "veorq_u32 = lift2 (XOR)"

definition vshlq_n_u32 :: "uint32x4_t \<Rightarrow> nat \<Rightarrow> uint32x4_t" where
  "vshlq_n_u32 v n = lift2 (\<lambda>a _. push_bit n a) v v"

definition vsriq_n_u32 :: "uint32x4_t \<Rightarrow> uint32x4_t \<Rightarrow> nat \<Rightarrow> uint32x4_t" where
  "vsriq_n_u32 v w n = lift2 (\<lambda>a b. (a AND NOT (mask (32 - n))) OR drop_bit n b) v w"

definition SCRYPT_ROTL4 :: "uint32x4_t \<Rightarrow> nat \<Rightarrow> uint32x4_t" where
  "SCRYPT_ROTL4 x n = vsriq_n_u32 (vshlq_n_u32 x n) x (32 - n)"

definition SCRYPT_QR4 :: "nat \<Rightarrow> nat \<Rightarrow> nat \<Rightarrow> nat \<Rightarrow> uint32x4_t list \<Rightarrow> uint32x4_t list" where
  "SCRYPT_QR4 a b c d x =
     (let x = x[b := veorq_u32 (x ! b) (SCRYPT_ROTL4 (vaddq_u32 (x ! a) (x ! d)) 7)];
          x = x[c := veorq_u32 (x ! c) (SCRYPT_ROTL4 (vaddq_u32 (x ! b) (x ! a)) 9)];
          x = x[d := veorq_u32 (x ! d) (SCRYPT_ROTL4 (vaddq_u32 (x ! c) (x ! b)) 13)];
          x = x[a := veorq_u32 (x ! a) (SCRYPT_ROTL4 (vaddq_u32 (x ! d) (x ! c)) 18)]
      in x)"

definition salsa_soa_rounds :: "uint32x4_t list \<Rightarrow> uint32x4_t list" where
  "salsa_soa_rounds x =
     (let x = SCRYPT_QR4 0 4 8 12 x; x = SCRYPT_QR4 5 9 13 1 x;
          x = SCRYPT_QR4 10 14 2 6 x; x = SCRYPT_QR4 15 3 7 11 x;
          x = SCRYPT_QR4 0 1 2 3 x; x = SCRYPT_QR4 5 6 7 4 x;
          x = SCRYPT_QR4 10 11 8 9 x; x = SCRYPT_QR4 15 12 13 14 x
      in x)"

definition salsa208_soa :: "uint32x4_t list \<Rightarrow> uint32x4_t list" where
  "salsa208_soa B = map2 vaddq_u32 B ((salsa_soa_rounds ^^ 4) B)"

definition blockmix_soa :: "uint32x4_t list \<times> uint32x4_t list \<Rightarrow> uint32x4_t list \<times> uint32x4_t list" where
  "blockmix_soa = (\<lambda>(B0, B1).
     let X = salsa208_soa (map2 veorq_u32 B1 B0);
         X' = salsa208_soa (map2 veorq_u32 X B1)
     in (X, X'))"

text \<open>The transposes: \<open>vtrnq_u32\<close>, \<open>vget_low_u32\<close>, \<open>vget_high_u32\<close> and \<open>vcombine_u32\<close>.\<close>

fun vtrnq_u32 :: "uint32x4_t \<Rightarrow> uint32x4_t \<Rightarrow> uint32x4_t \<times> uint32x4_t" where
  "vtrnq_u32 (Lanes a0 a1 a2 a3) (Lanes b0 b1 b2 b3) = (Lanes a0 b0 a2 b2, Lanes a1 b1 a3 b3)"

fun vcombine_low :: "uint32x4_t \<Rightarrow> uint32x4_t \<Rightarrow> uint32x4_t" where
  "vcombine_low (Lanes a0 a1 a2 a3) (Lanes b0 b1 b2 b3) = Lanes a0 a1 b0 b1"

fun vcombine_high :: "uint32x4_t \<Rightarrow> uint32x4_t \<Rightarrow> uint32x4_t" where
  "vcombine_high (Lanes a0 a1 a2 a3) (Lanes b0 b1 b2 b3) = Lanes a2 a3 b2 b3"

text \<open>Both directions of the 4 by 4 transpose are the same shuffle.\<close>

definition transpose4 :: "uint32x4_t list \<Rightarrow> uint32x4_t list" where
  "transpose4 v =
     (let t0 = vtrnq_u32 (v ! 0) (v ! 1); t1 = vtrnq_u32 (v ! 2) (v ! 3)
      in [vcombine_low (fst t0) (fst t1), vcombine_low (snd t0) (snd t1),
          vcombine_high (fst t0) (fst t1), vcombine_high (snd t0) (snd t1)])"

definition soa_to_lanes :: "uint32x4_t list \<Rightarrow> u32 list list" where
  "soa_to_lanes v = map lanes (transpose4 v)"

text \<open>Four words of each of the four streams, from offset \<open>off\<close>.\<close>

definition lanes_to_soa :: "u32 list list \<Rightarrow> nat \<Rightarrow> uint32x4_t list" where
  "lanes_to_soa l off = transpose4 (map (\<lambda>s. vld1q_u32 s off) l)"

definition load_soa :: "u32 list list \<Rightarrow> uint32x4_t list \<times> uint32x4_t list" where
  "load_soa p = (concat (map (\<lambda>g. lanes_to_soa p (g * 4)) [0..<4]), concat (map (\<lambda>g. lanes_to_soa p (16 + g * 4)) [0..<4]))"

definition store_soa :: "nat \<Rightarrow> uint32x4_t list \<times> uint32x4_t list \<Rightarrow> u32 list list \<Rightarrow> u32 list list" where
  "store_soa base = (\<lambda>(B0, B1) Vl.
     foldl (\<lambda>Vl g. map2 (\<lambda>s w. memcpy s (base + 16 + g * 4) w)
                     (map2 (\<lambda>s w. memcpy s (base + g * 4) w) Vl (soa_to_lanes (take 4 (drop (g * 4) B0))))
                     (soa_to_lanes (take 4 (drop (g * 4) B1)))) Vl [0..<4])"

definition soa_mix :: "nat \<Rightarrow> u32 list list \<Rightarrow> uint32x4_t list \<times> uint32x4_t list \<Rightarrow> uint32x4_t list \<times> uint32x4_t list" where
  "soa_mix N Vl = (\<lambda>(B0, B1).
     let j = map (\<lambda>w. unat (w AND of_nat (N - 1))) (lanes (B1 ! 0));
         p = map2 (\<lambda>s i. drop (i * 32) s) Vl j;
         (v0, v1) = load_soa p
     in blockmix_soa (map2 veorq_u32 B0 v0, map2 veorq_u32 B1 v1))"

definition scrypt_romix_soa4 :: "nat \<Rightarrow> u32 list list \<Rightarrow> u32 list list \<Rightarrow> u32 list list" where
  "scrypt_romix_soa4 N Bl Vl =
     (let (BB, Vl1) = foldl (\<lambda>(BB, Vl) i. (blockmix_soa BB, store_soa (i * 32) BB Vl)) (load_soa Bl, Vl) [0..<N]
      in store_soa 0 ((soa_mix N Vl1 ^^ N) BB) Bl)"

section \<open>The cores\<close>

text \<open>
  \<open>V\<close>, \<open>Va\<close>, \<open>Vb\<close> and \<open>Vl\<close> are the memory areas of the scratchpad behind the blocks, with whatever they
  held before. The program calls \<open>scrypt_core\<close> with one block (p = 1).
\<close>

definition scrypt_core ::
  "bool \<Rightarrow> sha256_neon_ctx \<Rightarrow> blockmix_fn \<Rightarrow> u32 list \<Rightarrow> bytes \<Rightarrow> bytes \<Rightarrow> nat \<Rightarrow> nat \<Rightarrow> bytes" where
  "scrypt_core arm fresh blockmix_asm V password salt N dk_len =
     (let B = pbkdf2_sha256 arm fresh password salt 1 SCRYPT_BLOCK_SIZE;
          (B1, V1) = scrypt_romix_r1_fast blockmix_asm N (bytes_words B) V
      in pbkdf2_sha256 arm fresh password (words_bytes B1) 1 dk_len)"

definition scrypt_core_dual ::
  "bool \<Rightarrow> sha256_neon_ctx \<Rightarrow> blockmix_fn \<Rightarrow> u32 list \<Rightarrow> u32 list \<Rightarrow> bytes \<Rightarrow> bytes \<Rightarrow> bytes \<times> bytes" where
  "scrypt_core_dual arm fresh blockmix_asm Va Vb pass_a pass_b =
     (let Ba = pbkdf2_sha256 arm fresh pass_a pass_a 1 SCRYPT_BLOCK_SIZE;
          Bb = pbkdf2_sha256 arm fresh pass_b pass_b 1 SCRYPT_BLOCK_SIZE;
          (Ba1, Bb1) = scrypt_romix_dual_scalar blockmix_asm SCRYPT_N (bytes_words Ba) Va (bytes_words Bb) Vb
      in (pbkdf2_sha256 arm fresh pass_a (words_bytes Ba1) 1 32, pbkdf2_sha256 arm fresh pass_b (words_bytes Bb1) 1 32))"

definition scrypt_core_soa4 :: "bool \<Rightarrow> sha256_neon_ctx \<Rightarrow> u32 list list \<Rightarrow> bytes list \<Rightarrow> bytes list" where
  "scrypt_core_soa4 arm fresh Vl pass =
     (let Bl = map (\<lambda>p. bytes_words (pbkdf2_sha256 arm fresh p p 1 SCRYPT_BLOCK_SIZE)) pass;
          Bl1 = scrypt_romix_soa4 SCRYPT_N Bl Vl
      in map2 (\<lambda>p B. pbkdf2_sha256 arm fresh p (words_bytes B) 1 32) pass Bl1)"

definition scrypt_1024_1_1_256 :: "bool \<Rightarrow> sha256_neon_ctx \<Rightarrow> blockmix_fn \<Rightarrow> u32 list \<Rightarrow> bytes \<Rightarrow> bytes" where
  "scrypt_1024_1_1_256 arm fresh blockmix_asm V input = scrypt_core arm fresh blockmix_asm V input input 1024 32"

definition scrypt_1024_1_1_256_dual ::
  "bool \<Rightarrow> sha256_neon_ctx \<Rightarrow> blockmix_fn \<Rightarrow> u32 list \<Rightarrow> u32 list \<Rightarrow> bytes \<Rightarrow> bytes \<Rightarrow> bytes \<times> bytes" where
  "scrypt_1024_1_1_256_dual arm fresh blockmix_asm Va Vb input_a input_b =
     scrypt_core_dual arm fresh blockmix_asm Va Vb input_a input_b"


section \<open>One header\<close>

text \<open>What the comment at the declaration of \<open>scrypt_blockmix_asm\<close> documents.\<close>

definition blockmix_contract :: "blockmix_fn \<Rightarrow> bool" where
  "blockmix_contract f \<longleftrightarrow>
     (\<forall>B. length B = 32 \<longrightarrow>
        f B = (let Y0 = rfc_salsa20_8 (take 16 B); Y1 = rfc_salsa20_8 (xor_words (drop 16 B) Y0) in Y0 @ Y1))"

lemma length_xor_words [simp]: "length (xor_words xs ys) = min (length xs) (length ys)"
  by (simp add: xor_words_def)

lemma xor_words_commute: "xor_words xs ys = xor_words ys xs"
  unfolding xor_words_def by (rule nth_equalityI) (simp_all add: xor.commute)

lemma length_rfc_step [simp]: "length (rfc_step t a b k x) = length x"
  by (simp add: rfc_step_def)

lemma length_rfc_quarter [simp]: "length (rfc_quarter a b c d x) = length x"
  by (simp add: rfc_quarter_def)

lemma length_rfc_double_round [simp]: "length (rfc_double_round x) = length x"
  by (simp add: rfc_double_round_def)

lemma length_funpow:
  fixes f :: "'a list \<Rightarrow> 'a list"
  shows "(\<And>x. length (f x) = length x) \<Longrightarrow> length ((f ^^ n) x) = length x"
  by (induction n) simp_all

lemma length_rfc_salsa [simp]: "length (rfc_salsa20_8 B) = length B"
  by (simp add: rfc_salsa20_8_def length_funpow)

lemma length_rfc_blockmix: "length B = 32 \<Longrightarrow> length (rfc_blockmix B) = 32"
  by (simp add: rfc_blockmix_def Let_def)

lemma length_blockmix_iter: "length B = 32 \<Longrightarrow> length ((rfc_blockmix ^^ n) B) = 32"
  by (induction n) (simp_all add: length_rfc_blockmix)

lemma asm_blockmix:
  assumes "blockmix_contract f" "length B = 32"
  shows "f (xor_words (take 16 B) (drop 16 B) @ drop 16 B) = rfc_blockmix B"
proof -
  let ?B = "xor_words (take 16 B) (drop 16 B) @ drop 16 B"
  have "length ?B = 32" "take 16 ?B = xor_words (drop 16 B) (take 16 B)" "drop 16 ?B = drop 16 B"
    using assms(2) by (simp_all add: xor_words_commute)
  then show ?thesis using assms(1) by (simp add: blockmix_contract_def rfc_blockmix_def Let_def xor_words_commute)
qed

definition v_block :: "u32 list \<Rightarrow> nat \<Rightarrow> u32 list" where
  "v_block V j = take 32 (drop (j * 32) V)"

lemma v_block_memcpy:
  assumes "length B = 32" "i * 32 + 32 \<le> length V"
  shows "v_block (memcpy V (i * 32) B) j = (if j = i then B else v_block V j)"
proof (cases j i rule: linorder_cases)
  case less
  then have "32 \<le> i * 32 - j * 32" by simp
  then show ?thesis using less assms by (simp add: v_block_def memcpy_def drop_take min_absorb1)
next
  case equal
  then show ?thesis using assms by (simp add: v_block_def memcpy_def)
next
  case greater
  then have "i * 32 + 32 \<le> j * 32" by simp
  then show ?thesis using greater assms by (simp add: v_block_def memcpy_def)
qed

text \<open>After \<open>n\<close> iterations of phase 1 the memory holds the first \<open>n\<close> powers of BlockMix.\<close>

definition filled :: "u32 list \<Rightarrow> nat \<Rightarrow> u32 list \<Rightarrow> bool" where
  "filled B n V \<longleftrightarrow> (\<forall>j < n. v_block V j = (rfc_blockmix ^^ j) B)"

lemma filled_Suc:
  assumes "filled B n V" "length B = 32" "n * 32 + 32 \<le> length V"
  shows "filled B (Suc n) (memcpy V (n * 32) ((rfc_blockmix ^^ n) B))"
  using assms v_block_memcpy [OF length_blockmix_iter [OF assms(2)] assms(3)]
  by (auto simp: filled_def less_Suc_eq)

lemma romix_fill_loop:
  assumes "blockmix_contract f" "length B = 32" "N * 32 \<le> length V" "n \<le> N"
  shows "\<exists>V'. foldl (\<lambda>s i. romix_fill f i s) (B, V) [0..<n] = ((rfc_blockmix ^^ n) B, V') \<and> filled B n V' \<and>
    length V' = length V"
  using assms(4)
proof (induction n)
  case 0
  then show ?case by (simp add: filled_def)
next
  case (Suc n)
  let ?X = "(rfc_blockmix ^^ n) B"
  obtain V' where V': "foldl (\<lambda>s i. romix_fill f i s) (B, V) [0..<n] = (?X, V')" "filled B n V'" "length V' = length V"
    using Suc by auto
  have len: "length ?X = 32" by (rule length_blockmix_iter [OF assms(2)])
  have fits: "n * 32 + 32 \<le> length V'" using Suc.prems assms(3) V'(3) by simp
  have "romix_fill f n (?X, V') = ((rfc_blockmix ^^ Suc n) B, memcpy V' (n * 32) ?X)"
    by (simp add: romix_fill_def asm_blockmix [OF assms(1) len])
  then show ?case
    using V' filled_Suc [OF V'(2) assms(2) fits] fits len by (simp add: length_memcpy)
qed

lemma and_mod: "unat ((x :: u32) AND of_nat (2 ^ k - 1)) = unat x mod 2 ^ k"
proof -
  have "(of_nat (2 ^ k - 1) :: u32) = mask k" by (simp add: mask_eq_exp_minus_1 of_nat_diff)
  then have "unat (x AND of_nat (2 ^ k - 1)) = take_bit k (unat x)"
    by (simp only: take_bit_eq_mask [symmetric] unsigned_take_bit_eq)
  then show ?thesis by (simp only: take_bit_eq_mod)
qed

lemma romix_mix_step:
  assumes "blockmix_contract f" "length B = 32" "filled B (2 ^ k) V" "length X = 32"
  shows "romix_mix f (2 ^ k) V X = rfc_mix_step (2 ^ k) B X"
proof -
  let ?Vj = "(rfc_blockmix ^^ (unat (X ! 16) mod 2 ^ k)) B"
  have vj: "take 32 (drop (unat (X ! 16) mod 2 ^ k * 32) V) = ?Vj" using assms(3) by (simp add: filled_def v_block_def)
  have len: "length ?Vj = 32" by (rule length_blockmix_iter [OF assms(2)])
  let ?T = "xor_words X ?Vj"
  have T: "length ?T = 32" "take 16 ?T = xor_words (take 16 X) (take 16 ?Vj)" "drop 16 ?T = xor_words (drop 16 X) (drop 16 ?Vj)"
    using assms(4) len by (simp_all add: xor_words_def take_map drop_map take_zip drop_zip)
  show ?thesis
    using asm_blockmix [OF assms(1) T(1)]
    unfolding T(2,3) romix_mix_def Let_def and_mod vj rfc_mix_step_def .
qed

lemma length_mix_step: "length B = 32 \<Longrightarrow> length X = 32 \<Longrightarrow> length (rfc_mix_step N B X) = 32"
  by (simp add: rfc_mix_step_def length_rfc_blockmix length_blockmix_iter)

lemma romix_mix_loop:
  assumes "blockmix_contract f" "length B = 32" "filled B (2 ^ k) V" "length X = 32"
  shows "(romix_mix f (2 ^ k) V ^^ n) X = (rfc_mix_step (2 ^ k) B ^^ n) X \<and> length ((rfc_mix_step (2 ^ k) B ^^ n) X) = 32"
  using assms(2,4) by (induction n) (simp_all add: romix_mix_step [OF assms(1-3)] length_mix_step)

lemma romix_fast_rfc:
  assumes "blockmix_contract f" "length B = 32" "2 ^ k * 32 \<le> length V"
  shows "fst (scrypt_romix_r1_fast f (2 ^ k) B V) = rfc_romix (2 ^ k) B"
proof -
  obtain V' where "foldl (\<lambda>s i. romix_fill f i s) (B, V) [0..<2 ^ k] = ((rfc_blockmix ^^ 2 ^ k) B, V')" "filled B (2 ^ k) V'"
    using romix_fill_loop [OF assms(1-3), of "2 ^ k"] by auto
  then show ?thesis
    using romix_mix_loop [OF assms(1,2) _ length_blockmix_iter [OF assms(2)]]
    by (simp add: scrypt_romix_r1_fast_def rfc_romix_def)
qed

section \<open>Two headers\<close>

lemma funpow_pair:
  fixes f :: "'a \<Rightarrow> 'a" and g :: "'b \<Rightarrow> 'b"
  shows "((\<lambda>(a, b). (f a, g b)) ^^ n) (x, y) = ((f ^^ n) x, (g ^^ n) y)"
  by (induction n) simp_all

lemma romix_dual_rfc:
  assumes "blockmix_contract f" "length Ba = 32" "length Bb = 32" "2 ^ k * 32 \<le> length Va" "2 ^ k * 32 \<le> length Vb"
  shows "scrypt_romix_dual_scalar f (2 ^ k) Ba Va Bb Vb = (rfc_romix (2 ^ k) Ba, rfc_romix (2 ^ k) Bb)"
proof -
  have "scrypt_romix_dual_scalar f (2 ^ k) Ba Va Bb Vb =
    (fst (scrypt_romix_r1_fast f (2 ^ k) Ba Va), fst (scrypt_romix_r1_fast f (2 ^ k) Bb Vb))"
    by (simp add: scrypt_romix_dual_scalar_def scrypt_romix_r1_fast_def funpow_pair split: prod.split)
  then show ?thesis using assms by (simp add: romix_fast_rfc)
qed


section \<open>Four headers: every lane computes Salsa20/8 and BlockMix\<close>

definition lane :: "nat \<Rightarrow> uint32x4_t \<Rightarrow> u32" where
  "lane l v = lanes v ! l"

lemma less_4: "l < 4 \<longleftrightarrow> l = 0 \<or> l = 1 \<or> l = 2 \<or> l = (3 :: nat)"
  by auto

lemma lane_lift2: "l < 4 \<Longrightarrow> lane l (lift2 f v w) = f (lane l v) (lane l w)"
  by (cases v; cases w) (auto simp: lane_def less_4)

lemma lane_ops:
  assumes "l < 4"
  shows "lane l (veorq_u32 v w) = lane l v XOR lane l w" "lane l (vaddq_u32 v w) = lane l v + lane l w"
proof -
  have "vaddq_u32 v w = lift2 (+) v w" by (cases v; cases w) simp
  then show "lane l (veorq_u32 v w) = lane l v XOR lane l w" "lane l (vaddq_u32 v w) = lane l v + lane l w"
    using assms by (simp_all add: veorq_u32_def lane_lift2)
qed

lemma rotl_bits:
  fixes x :: u32
  assumes "0 < n" "n < 32"
  shows "(push_bit n x AND NOT (mask n)) OR drop_bit (32 - n) x = word_rotl n x"
proof (rule bit_word_eqI)
  fix m assume "m < LENGTH(32)"
  then have m: "m < 32" by simp
  show "bit ((push_bit n x AND NOT (mask n)) OR drop_bit (32 - n) x) m = bit (word_rotl n x) m"
  proof (cases "m < n")
    case True
    then have "(m + (32 - n)) mod 32 = 32 - n + m" using m assms by simp
    then show ?thesis using True m assms by (simp add: bit_word_rotl_iff bit_simps)
  next
    case False
    then have "m + (32 - n) = m - n + 32" using assms by simp
    then have "(m + (32 - n)) mod 32 = (m - n) mod 32" by (simp only: mod_add_self2)
    moreover have "(m - n) mod 32 = m - n" using m by simp
    moreover have "\<not> bit x (32 - n + m)" using False assms by (auto dest: bit_imp_le_length)
    ultimately show ?thesis using False m assms by (simp add: bit_word_rotl_iff bit_simps)
  qed
qed

lemma lane_rotl: "l < 4 \<Longrightarrow> 0 < n \<Longrightarrow> n < 32 \<Longrightarrow> lane l (SCRYPT_ROTL4 x n) = word_rotl n (lane l x)"
  by (simp add: SCRYPT_ROTL4_def vsriq_n_u32_def vshlq_n_u32_def lane_lift2 rotl_bits)

lemma lane_step:
  assumes "l < 4" "0 < k" "k < 32" "t < length x" "a < length x" "b < length x"
  shows "map (lane l) (x[t := veorq_u32 (x ! t) (SCRYPT_ROTL4 (vaddq_u32 (x ! a) (x ! b)) k)]) =
    rfc_step t a b k (map (lane l) x)"
  using assms by (simp add: map_update lane_ops lane_rotl rfc_step_def)

definition soa_step :: "nat \<Rightarrow> nat \<Rightarrow> nat \<Rightarrow> nat \<Rightarrow> uint32x4_t list \<Rightarrow> uint32x4_t list" where
  "soa_step t a b k x = x[t := veorq_u32 (x ! t) (SCRYPT_ROTL4 (vaddq_u32 (x ! a) (x ! b)) k)]"

lemma length_soa_step [simp]: "length (soa_step t a b k x) = length x"
  by (simp add: soa_step_def)

lemma lane_soa_step:
  assumes "l < 4" "0 < k" "k < 32" "t < length x" "a < length x" "b < length x"
  shows "map (lane l) (soa_step t a b k x) = rfc_step t a b k (map (lane l) x)"
  unfolding soa_step_def by (rule lane_step [OF assms])

lemma quarter_steps:
  "SCRYPT_QR4 a b c d x = soa_step a d c 18 (soa_step d c b 13 (soa_step c b a 9 (soa_step b a d 7 x)))"
  unfolding SCRYPT_QR4_def soa_step_def Let_def ..

lemma lane_quarter:
  assumes "l < 4" "a < length x" "b < length x" "c < length x" "d < length x"
  shows "map (lane l) (SCRYPT_QR4 a b c d x) = rfc_quarter a b c d (map (lane l) x)"
  using assms by (simp add: quarter_steps rfc_quarter_def lane_soa_step)

lemma length_quarter [simp]: "length (SCRYPT_QR4 a b c d x) = length x"
  by (simp add: quarter_steps)

lemma lane_rounds:
  assumes "l < 4" "length x = 16"
  shows "map (lane l) (salsa_soa_rounds x) = rfc_double_round (map (lane l) x)" "length (salsa_soa_rounds x) = 16"
  using assms by (simp_all add: salsa_soa_rounds_def rfc_double_round_def lane_quarter Let_def)

lemma lane_rounds_pow:
  assumes "l < 4" "length x = 16"
  shows "map (lane l) ((salsa_soa_rounds ^^ n) x) = (rfc_double_round ^^ n) (map (lane l) x) \<and>
    length ((salsa_soa_rounds ^^ n) x) = 16"
  using assms by (induction n) (simp_all add: lane_rounds)

lemma map_lane_xor:
  "l < 4 \<Longrightarrow> map (lane l) (map2 veorq_u32 xs ys) = map2 (XOR) (map (lane l) xs) (map (lane l) ys)"
  by (rule nth_equalityI) (simp_all add: lane_ops)

lemma map_lane_add:
  "l < 4 \<Longrightarrow> map (lane l) (map2 vaddq_u32 xs ys) = map2 (+) (map (lane l) xs) (map (lane l) ys)"
  by (rule nth_equalityI) (simp_all add: lane_ops)

lemma lane_salsa:
  assumes "l < 4" "length B = 16"
  shows "map (lane l) (salsa208_soa B) = rfc_salsa20_8 (map (lane l) B)" "length (salsa208_soa B) = 16"
  using lane_rounds_pow [OF assms, of 4] assms(2)
  unfolding salsa208_soa_def rfc_salsa20_8_def map_lane_add [OF assms(1)] by simp_all

text \<open>The 32 words of one lane of a packed state.\<close>

definition lane_words :: "nat \<Rightarrow> uint32x4_t list \<times> uint32x4_t list \<Rightarrow> u32 list" where
  "lane_words l = (\<lambda>(B0, B1). map (lane l) B0 @ map (lane l) B1)"

definition packed :: "uint32x4_t list \<times> uint32x4_t list \<Rightarrow> bool" where
  "packed BB \<longleftrightarrow> length (fst BB) = 16 \<and> length (snd BB) = 16"

lemma lane_blockmix:
  assumes "l < 4" "packed BB"
  shows "lane_words l (blockmix_soa BB) = rfc_blockmix (lane_words l BB)" "packed (blockmix_soa BB)"
proof -
  obtain B0 B1 where BB: "BB = (B0, B1)" by (cases BB)
  have len: "length B0 = 16" "length B1 = 16" using assms(2) unfolding BB packed_def by simp_all
  let ?X = "salsa208_soa (map2 veorq_u32 B1 B0)"
  let ?Y = "salsa208_soa (map2 veorq_u32 ?X B1)"
  have X: "map (lane l) ?X = rfc_salsa20_8 (xor_words (map (lane l) B1) (map (lane l) B0))" "length ?X = 16"
    using lane_salsa [OF assms(1), of "map2 veorq_u32 B1 B0"] len
    unfolding xor_words_def map_lane_xor [OF assms(1)] by simp_all
  have Y: "map (lane l) ?Y = rfc_salsa20_8 (xor_words (map (lane l) ?X) (map (lane l) B1))" "length ?Y = 16"
    using lane_salsa [OF assms(1), of "map2 veorq_u32 ?X B1"] len X(2)
    unfolding xor_words_def map_lane_xor [OF assms(1)] by simp_all
  have "blockmix_soa BB = (?X, ?Y)" unfolding BB blockmix_soa_def by (simp add: Let_def)
  then show "lane_words l (blockmix_soa BB) = rfc_blockmix (lane_words l BB)" "packed (blockmix_soa BB)"
    using X Y len unfolding BB lane_words_def rfc_blockmix_def packed_def Let_def by simp_all
qed

section \<open>Four headers: the transposes\<close>

lemma transpose4_lane:
  assumes "length v = 4" "l < 4" "m < 4"
  shows "lane l (transpose4 v ! m) = lane m (v ! l)" "length (transpose4 v) = 4"
proof -
  obtain a b c d where v: "v = [a, b, c, d]" using assms(1) by (auto simp: numeral_eq_Suc length_Suc_conv)
  show "lane l (transpose4 v ! m) = lane m (v ! l)" "length (transpose4 v) = 4"
    using assms(2,3) unfolding v
    by (cases a; cases b; cases c; cases d; auto simp: transpose4_def lane_def less_4)+
qed

lemma lanes_eq_map: "lanes v = map (\<lambda>l. lane l v) [0..<4]"
  by (cases v) (simp add: lane_def upt_conv_Cons)

lemma soa_to_lanes_nth:
  assumes "length v = 4" "l < 4"
  shows "soa_to_lanes v ! l = map (lane l) v" "length (soa_to_lanes v) = 4"
  using assms transpose4_lane [OF assms(1)]
  by (auto simp: soa_to_lanes_def lanes_eq_map intro!: nth_equalityI)

lemma lanes_to_soa_lane:
  assumes "length p = 4" "l < 4"
  shows "map (lane l) (lanes_to_soa p off) = map (\<lambda>k. p ! l ! (off + k)) [0..<4]" "length (lanes_to_soa p off) = 4"
proof -
  have v: "lane m (vld1q_u32 s off) = s ! (off + m)" if "m < 4" for m s
    using that by (auto simp: vld1q_u32_def lane_def less_4)
  show "map (lane l) (lanes_to_soa p off) = map (\<lambda>k. p ! l ! (off + k)) [0..<4]" "length (lanes_to_soa p off) = 4"
    using assms transpose4_lane [of "map (\<lambda>s. vld1q_u32 s off) p"]
    by (auto simp: lanes_to_soa_def v intro!: nth_equalityI)
qed

lemma upt16: "[0..<4] = [0, 1, 2, 3 :: nat]" "[0..<16] = [0, 1, 2, 3, 4, 5, 6, 7, 8, 9, 10, 11, 12, 13, 14, 15 :: nat]"
  by (simp_all add: upt_conv_Cons)

lemma load_soa_lane:
  assumes "length p = 4" "l < 4" "32 \<le> length (p ! l)"
  shows "lane_words l (load_soa p) = take 32 (p ! l)" "packed (load_soa p)"
proof -
  have "map (lane l) (concat (map (\<lambda>g. lanes_to_soa p (off + g * 4)) [0..<4])) = map (\<lambda>k. p ! l ! (off + k)) [0..<16]" for off
    using lanes_to_soa_lane [OF assms(1,2)] by (simp add: upt16 add.assoc add.commute)
  from this [of 0] this [of 16]
  have "lane_words l (load_soa p) = map (\<lambda>k. p ! l ! k) [0..<16] @ map (\<lambda>k. p ! l ! (16 + k)) [0..<16]"
    by (simp add: lane_words_def load_soa_def)
  also have "\<dots> = take 32 (p ! l)" using assms(3) by (intro nth_equalityI) (auto simp: nth_append)
  finally show "lane_words l (load_soa p) = take 32 (p ! l)" .
  show "packed (load_soa p)" using lanes_to_soa_lane(2) [OF assms(1,2)] by (simp add: packed_def load_soa_def upt16)
qed

section \<open>Four headers: the stores\<close>

lemma memcpy_join:
  "a + length u + length v \<le> length s \<Longrightarrow> memcpy (memcpy s a u) (a + length u) v = memcpy s a (u @ v)"
  by (simp add: memcpy_def ac_simps)

lemma memcpy_swap:
  assumes "a + length u \<le> b" "b + length v \<le> length s"
  shows "memcpy (memcpy s b v) a u = memcpy (memcpy s a u) b v"
  by (rule nth_equalityI)
    (use assms in \<open>auto simp: memcpy_def nth_append add.assoc\<close>)

text \<open>Group \<open>g\<close> of four words of both halves, written for one lane.\<close>

definition store_group :: "nat \<Rightarrow> u32 list \<Rightarrow> u32 list \<Rightarrow> u32 list \<Rightarrow> nat \<Rightarrow> u32 list" where
  "store_group base W0 W1 s g =
     memcpy (memcpy s (base + g * 4) (take 4 (drop (g * 4) W0))) (base + 16 + g * 4) (take 4 (drop (g * 4) W1))"

lemma store_groups:
  assumes "length W0 = 16" "length W1 = 16" "base + 32 \<le> length s" "n \<le> 4"
  shows "foldl (store_group base W0 W1) s [0..<n] = memcpy (memcpy s base (take (n * 4) W0)) (base + 16) (take (n * 4) W1)"
  using assms(4)
proof (induction n)
  case 0
  then show ?case by (simp add: memcpy_def)
next
  case (Suc n)
  let ?a = "take 4 (drop (n * 4) W0)" and ?b = "take 4 (drop (n * 4) W1)"
  let ?u = "take (n * 4) W0" and ?v = "take (n * 4) W1"
  have len: "length ?u = n * 4" "length ?v = n * 4" "length ?a = 4" "length ?b = 4"
    using assms(1,2) Suc.prems by auto
  have app: "?u @ ?a = take (Suc n * 4) W0" "?v @ ?b = take (Suc n * 4) W1"
    by (simp_all add: take_add [symmetric] add.commute)
  have s: "length (memcpy s base ?u) = length s" "length (memcpy s base (?u @ ?a)) = length s"
    using assms(3) len Suc.prems by (simp_all add: length_memcpy)
  have "foldl (store_group base W0 W1) s [0..<Suc n] =
      memcpy (memcpy (memcpy (memcpy s base ?u) (base + 16) ?v) (base + n * 4) ?a) (base + 16 + n * 4) ?b"
    using Suc.IH Suc.prems by (simp add: store_group_def [where g = n])
  also have "\<dots> = memcpy (memcpy (memcpy (memcpy s base ?u) (base + n * 4) ?a) (base + 16) ?v) (base + 16 + n * 4) ?b"
    using assms(3) len Suc.prems s by (subst memcpy_swap) simp_all
  also have "\<dots> = memcpy (memcpy (memcpy s base (?u @ ?a)) (base + 16) ?v) (base + 16 + n * 4) ?b"
    using memcpy_join [of base ?u ?a s] assms(3) len Suc.prems by simp
  also have "\<dots> = memcpy (memcpy s base (?u @ ?a)) (base + 16) (?v @ ?b)"
    using memcpy_join [of "base + 16" ?v ?b "memcpy s base (?u @ ?a)"] assms(3) len Suc.prems s by simp
  finally show ?case unfolding app .
qed

lemma store_soa_lane:
  assumes "packed BB" "length Vl = 4" "l < 4" "base + 32 \<le> length (Vl ! l)"
  shows "store_soa base BB Vl ! l = memcpy (Vl ! l) base (lane_words l BB)"
    and "length (store_soa base BB Vl) = 4"
proof -
  obtain B0 B1 where BB: "BB = (B0, B1)" by (cases BB)
  have len: "length B0 = 16" "length B1 = 16" using assms(1) unfolding BB packed_def by simp_all
  let ?W0 = "map (lane l) B0" and ?W1 = "map (lane l) B1"
  let ?step = "\<lambda>Vl g. map2 (\<lambda>s w. memcpy s (base + 16 + g * 4) w)
      (map2 (\<lambda>s w. memcpy s (base + g * 4) w) Vl (soa_to_lanes (take 4 (drop (g * 4) B0))))
      (soa_to_lanes (take 4 (drop (g * 4) B1)))"
  have step: "?step Vl' g ! l = store_group base ?W0 ?W1 (Vl' ! l) g \<and> length (?step Vl' g) = 4"
    if "length Vl' = 4" "g < 4" for Vl' :: "u32 list list" and g
  proof -
    have "length (take 4 (drop (g * 4) B0)) = 4" "length (take 4 (drop (g * 4) B1)) = 4"
      using len that(2) by auto
    then show ?thesis
      using that(1) assms(3) by (simp add: soa_to_lanes_nth store_group_def take_map drop_map)
  qed
  have "foldl ?step Vl [0..<n] ! l = foldl (store_group base ?W0 ?W1) (Vl ! l) [0..<n] \<and> length (foldl ?step Vl [0..<n]) = 4"
    if "n \<le> 4" for n
    using that by (induction n) (simp_all add: assms(2) step del: length_map)
  from this [of 4]
  have "store_soa base BB Vl ! l = foldl (store_group base ?W0 ?W1) (Vl ! l) [0..<4]" "length (store_soa base BB Vl) = 4"
    unfolding BB store_soa_def by simp_all
  moreover have "foldl (store_group base ?W0 ?W1) (Vl ! l) [0..<4] = memcpy (Vl ! l) base (?W0 @ ?W1)"
    using store_groups [of ?W0 ?W1 base "Vl ! l" 4] memcpy_join [of base ?W0 ?W1 "Vl ! l"] len assms(4) by simp
  ultimately show "store_soa base BB Vl ! l = memcpy (Vl ! l) base (lane_words l BB)" "length (store_soa base BB Vl) = 4"
    unfolding BB lane_words_def by simp_all
qed

section \<open>Four headers: ROMix\<close>

lemma soa_fill_loop:
  assumes "length Bl = 4" "length Vl = 4" "l < 4" "length (Bl ! l) = 32" "N * 32 \<le> length (Vl ! l)" "n \<le> N"
  shows "\<exists>BB Vl'. foldl (\<lambda>(BB, Vl) i. (blockmix_soa BB, store_soa (i * 32) BB Vl)) (load_soa Bl, Vl) [0..<n] = (BB, Vl') \<and>
    packed BB \<and> lane_words l BB = (rfc_blockmix ^^ n) (Bl ! l) \<and> filled (Bl ! l) n (Vl' ! l) \<and>
    length Vl' = 4 \<and> length (Vl' ! l) = length (Vl ! l)"
  using assms(6)
proof (induction n)
  case 0
  then show ?case using assms(2) load_soa_lane [OF assms(1,3)] assms(4) by (simp add: filled_def)
next
  case (Suc n)
  then obtain BB Vl' where
    h: "foldl (\<lambda>(BB, Vl) i. (blockmix_soa BB, store_soa (i * 32) BB Vl)) (load_soa Bl, Vl) [0..<n] = (BB, Vl')"
      "packed BB" "lane_words l BB = (rfc_blockmix ^^ n) (Bl ! l)" "filled (Bl ! l) n (Vl' ! l)"
      "length Vl' = 4" "length (Vl' ! l) = length (Vl ! l)"
    by auto
  have fits: "n * 32 + 32 \<le> length (Vl' ! l)" using Suc.prems assms(5) h(6) by simp
  note st = store_soa_lane [OF h(2,5) assms(3) fits]
  have "length (memcpy (Vl' ! l) (n * 32) (lane_words l BB)) = length (Vl' ! l)"
    using fits length_blockmix_iter [OF assms(4)] unfolding h(3) by (simp add: length_memcpy)
  then show ?case
    using h lane_blockmix [OF assms(3) h(2)] filled_Suc [OF h(4) assms(4) fits] st by simp
qed

text \<open>One iteration of phase 2: every lane reads the entry its own word selects.\<close>

lemma soa_mix_step:
  assumes "length Vl = 4" "l < 4" "\<forall>m < 4. 2 ^ k * 32 \<le> length (Vl ! m)" "length B = 32" "filled B (2 ^ k) (Vl ! l)"
    and "packed XX"
  shows "lane_words l (soa_mix (2 ^ k) Vl XX) = rfc_mix_step (2 ^ k) B (lane_words l XX)" "packed (soa_mix (2 ^ k) Vl XX)"
proof -
  obtain B0 B1 where XX: "XX = (B0, B1)" by (cases XX)
  have len: "length B0 = 16" "length B1 = 16" using assms(6) unfolding XX packed_def by simp_all
  let ?j = "map (\<lambda>w. unat (w AND of_nat (2 ^ k - 1))) (lanes (B1 ! 0))"
  let ?p = "map2 (\<lambda>s i. drop (i * 32) s) Vl ?j"
  have lanes4: "length (lanes v) = 4" for v by (cases v) simp
  have p: "length ?p = 4" using assms(1) lanes4 by simp
  have sel: "?j ! m = unat (lane m (B1 ! 0)) mod 2 ^ k" if "m < 4" for m
    using that lanes4 by (simp only: nth_map and_mod lane_def)
  have pm: "?p ! m = drop (unat (lane m (B1 ! 0)) mod 2 ^ k * 32) (Vl ! m)" if "m < 4" for m
    using that sel assms(1) lanes4 by simp
  have word: "lane l (B1 ! 0) = lane_words l XX ! 16"
    using len unfolding XX lane_words_def by (simp add: nth_append)
  let ?e = "unat (lane_words l XX ! 16) mod 2 ^ k"
  have "Suc ?e * 32 \<le> length (Vl ! l)"
    using assms(2,3) by (meson Suc_leI le_trans mult_le_mono1 mod_less_divisor zero_less_numeral zero_less_power)
  then have long: "32 \<le> length (?p ! l)" unfolding pm [OF assms(2)] word by simp
  have ent: "take 32 (?p ! l) = (rfc_blockmix ^^ ?e) B"
    using assms(5) unfolding pm [OF assms(2)] word by (simp add: filled_def v_block_def)
  obtain v0 v1 where v: "load_soa ?p = (v0, v1)" by (cases "load_soa ?p")
  note ld = load_soa_lane [OF p assms(2) long, unfolded ent v]
  have vl: "length v0 = 16" "length v1 = 16" using ld(2) by (simp_all add: packed_def)
  let ?Y = "(map2 veorq_u32 B0 v0, map2 veorq_u32 B1 v1)"
  have eq: "soa_mix (2 ^ k) Vl XX = blockmix_soa ?Y" unfolding XX soa_mix_def by (simp add: v [simplified] del: map_map)
  have Y: "packed ?Y" using len vl by (simp add: packed_def)
  have "lane_words l ?Y = xor_words (lane_words l XX) (lane_words l (v0, v1))"
    using len vl unfolding XX lane_words_def xor_words_def by (simp add: map_lane_xor [OF assms(2)] zip_append del: map_map)
  then show "lane_words l (soa_mix (2 ^ k) Vl XX) = rfc_mix_step (2 ^ k) B (lane_words l XX)" "packed (soa_mix (2 ^ k) Vl XX)"
    using lane_blockmix [OF assms(2) Y] ld(1) unfolding eq rfc_mix_step_def by simp_all
qed

lemma soa_mix_loop:
  assumes "length Vl = 4" "l < 4" "\<forall>m < 4. 2 ^ k * 32 \<le> length (Vl ! m)" "length B = 32" "filled B (2 ^ k) (Vl ! l)"
    and "packed XX"
  shows "lane_words l ((soa_mix (2 ^ k) Vl ^^ n) XX) = (rfc_mix_step (2 ^ k) B ^^ n) (lane_words l XX) \<and>
    packed ((soa_mix (2 ^ k) Vl ^^ n) XX)"
  using assms(6) by (induction n) (simp_all add: soa_mix_step [OF assms(1-5)])

lemma length_lane_words: "packed BB \<Longrightarrow> length (lane_words l BB) = 32"
  by (cases BB) (simp add: packed_def lane_words_def)

lemma romix_soa4_rfc:
  assumes "length Bl = 4" "length Vl = 4" "\<forall>m < 4. length (Bl ! m) = 32" "\<forall>m < 4. 2 ^ k * 32 \<le> length (Vl ! m)"
  shows "scrypt_romix_soa4 (2 ^ k) Bl Vl = map (rfc_romix (2 ^ k)) Bl"
proof -
  let ?loop = "foldl (\<lambda>(BB, Vl) i. (blockmix_soa BB, store_soa (i * 32) BB Vl)) (load_soa Bl, Vl) [0..<2 ^ k]"
  obtain BB Vl' where f: "?loop = (BB, Vl')" by (cases ?loop)
  have fill: "packed BB \<and> lane_words l BB = (rfc_blockmix ^^ 2 ^ k) (Bl ! l) \<and> filled (Bl ! l) (2 ^ k) (Vl' ! l) \<and>
    length Vl' = 4 \<and> length (Vl' ! l) = length (Vl ! l)" if "l < 4" for l
    using soa_fill_loop [OF assms(1,2) that, of "2 ^ k" "2 ^ k"] assms(3,4) that f by auto
  have big: "\<forall>m < 4. 2 ^ k * 32 \<le> length (Vl' ! m)" using fill assms(4) by simp
  have V4: "length Vl' = 4" and BB: "packed BB" using fill [of 0] by simp_all
  let ?X = "(soa_mix (2 ^ k) Vl' ^^ 2 ^ k) BB"
  have mix: "lane_words l ?X = rfc_romix (2 ^ k) (Bl ! l)" "packed ?X" if "l < 4" for l
    using soa_mix_loop [OF V4 that big, of "Bl ! l" BB "2 ^ k"] fill [OF that] assms(3) that
    by (simp_all add: rfc_romix_def)
  have out: "scrypt_romix_soa4 (2 ^ k) Bl Vl = store_soa 0 ?X Bl" by (simp add: scrypt_romix_soa4_def f)
  have X: "packed ?X" by (rule mix(2) [of 0]) simp
  have lane: "store_soa 0 ?X Bl ! l = rfc_romix (2 ^ k) (Bl ! l)" "length (store_soa 0 ?X Bl) = 4" if "l < 4" for l
    using store_soa_lane [OF X assms(1) that, of 0] assms(3) that mix(1) [OF that] length_lane_words [OF X, of l]
    by (simp_all add: memcpy_def)
  show ?thesis unfolding out by (rule nth_equalityI) (use lane(1) lane(2) [of 0] assms(1) in auto)
qed

section \<open>The cores compute scrypt\<close>

text \<open>The derivation of the 128-byte block and of the result, for a header of 80 bytes.\<close>

lemma derived_block:
  assumes "length (sc_buffer fresh) = 64" "length h = 80"
  shows "bytes_words (pbkdf2_sha256 arm fresh h h 1 SCRYPT_BLOCK_SIZE) = bytes_words (rfc_pbkdf2 h h 1 128)"
    "length (bytes_words (rfc_pbkdf2 h h 1 128)) = 32"
proof -
  have "pbkdf2_sha256 arm fresh h h 1 128 = rfc_pbkdf2 h h 1 128" using assms by (intro pbkdf2_sha256_rfc) simp_all
  then show "bytes_words (pbkdf2_sha256 arm fresh h h 1 SCRYPT_BLOCK_SIZE) = bytes_words (rfc_pbkdf2 h h 1 128)"
    by (simp only: SCRYPT_BLOCK_SIZE_def)
  show "length (bytes_words (rfc_pbkdf2 h h 1 128)) = 32" by (rule length_bytes_words) simp
qed

lemma length_mix_iter: "length B = 32 \<Longrightarrow> length X = 32 \<Longrightarrow> length ((rfc_mix_step N B ^^ n) X) = 32"
  by (induction n) (simp_all add: length_mix_step)

lemma length_rfc_romix: "length B = 32 \<Longrightarrow> length (rfc_romix N B) = 32"
  by (simp add: rfc_romix_def length_mix_iter length_blockmix_iter)

lemma derived_result:
  assumes "length (sc_buffer fresh) = 64" "length h = 80"
  shows "pbkdf2_sha256 arm fresh h (words_bytes (rfc_romix 1024 (bytes_words (rfc_pbkdf2 h h 1 128)))) 1 32 = rfc_scrypt h h 1024 32"
proof -
  have "length (words_bytes (rfc_romix 1024 (bytes_words (rfc_pbkdf2 h h 1 128)))) = 128"
    using length_rfc_romix [OF derived_block(2) [OF assms]] by simp
  then show ?thesis
    unfolding rfc_scrypt_def using assms by (intro pbkdf2_sha256_rfc) simp_all
qed

lemma pow_1024: "(1024 :: nat) = 2 ^ 10" by simp

lemma scrypt_single_rfc:
  assumes "blockmix_contract f" "length (sc_buffer fresh) = 64" "1024 * 32 \<le> length V" "length h = 80"
  shows "scrypt_1024_1_1_256 arm fresh f V h = rfc_scrypt h h 1024 32"
proof -
  have "fst (scrypt_romix_r1_fast f 1024 (bytes_words (rfc_pbkdf2 h h 1 128)) V) = rfc_romix 1024 (bytes_words (rfc_pbkdf2 h h 1 128))"
    using romix_fast_rfc [OF assms(1) derived_block(2) [OF assms(2,4)], of 10 V] assms(3) unfolding pow_1024 by simp
  then show ?thesis
    using derived_result [OF assms(2,4)]
    unfolding scrypt_1024_1_1_256_def scrypt_core_def Let_def derived_block(1) [OF assms(2,4)]
    by (auto split: prod.split)
qed

lemma scrypt_dual_rfc:
  assumes "blockmix_contract f" "length (sc_buffer fresh) = 64" "1024 * 32 \<le> length Va" "1024 * 32 \<le> length Vb"
    and "length a = 80" "length b = 80"
  shows "scrypt_1024_1_1_256_dual arm fresh f Va Vb a b = (rfc_scrypt a a 1024 32, rfc_scrypt b b 1024 32)"
proof -
  note d = derived_block [OF assms(2,5)] derived_block [OF assms(2,6)]
  note r = romix_dual_rfc [OF assms(1) d(2,4), of 10 Va Vb, folded pow_1024, OF assms(3,4)]
  show ?thesis
    unfolding scrypt_1024_1_1_256_dual_def scrypt_core_dual_def SCRYPT_N_def d(1,3) Let_def r prod.case
    by (simp only: derived_result [OF assms(2,5)] derived_result [OF assms(2,6)])
qed

lemma scrypt_soa4_rfc:
  assumes "length (sc_buffer fresh) = 64" "length Vl = 4" "\<forall>m < 4. 1024 * 32 \<le> length (Vl ! m)"
    and "length hs = 4" "\<forall>h \<in> set hs. length h = 80"
  shows "scrypt_core_soa4 arm fresh Vl hs = map (\<lambda>h. rfc_scrypt h h 1024 32) hs"
proof -
  let ?Bl = "map (\<lambda>h. bytes_words (rfc_pbkdf2 h h 1 128)) hs"
  have B: "map (\<lambda>p. bytes_words (pbkdf2_sha256 arm fresh p p 1 SCRYPT_BLOCK_SIZE)) hs = ?Bl"
    using derived_block(1) [OF assms(1)] assms(5) by simp
  have len: "\<forall>m < 4. length (?Bl ! m) = 32" using derived_block(2) [OF assms(1)] assms(4,5) by simp
  have R: "scrypt_romix_soa4 1024 ?Bl Vl = map (rfc_romix 1024) ?Bl"
    using romix_soa4_rfc [OF _ assms(2) len, of 10] assms(3,4) unfolding pow_1024 by simp
  have "map2 (\<lambda>p B. pbkdf2_sha256 arm fresh p (words_bytes B) 1 32) hs (map (rfc_romix 1024) ?Bl) =
    map (\<lambda>h. rfc_scrypt h h 1024 32) hs"
    using derived_result [OF assms(1)] assms(5) by (intro nth_equalityI) (simp_all del: map_map)
  then show ?thesis unfolding scrypt_core_soa4_def B SCRYPT_N_def Let_def R .
qed

text \<open>
  C11. the three routines of the scrypt kernel are one function. For headers of 80 bytes the single path, the path
  that interleaves two headers and the path that packs four headers into vector lanes all return scrypt of RFC 7914
  with N = 1024, r = p = 1 and 32 bytes of output, with and without the SHA-256 instructions, whatever the scratchpad
  and the hash context held before, when the scratchpad has room for N entries of 128 bytes per header and the
  assembly BlockMix does what its comment says.
\<close>

theorem scrypt_paths_agree:
  assumes "blockmix_contract f" "length (sc_buffer fresh) = 64"
    and "\<forall>m < 4. 1024 * 32 \<le> length ([Va, Vb, Vc, Vd] ! m)" "\<forall>h \<in> {a, b, c, d}. length h = 80"
  shows "scrypt_1024_1_1_256 arm fresh f Va a = rfc_scrypt a a 1024 32 \<and>
    scrypt_1024_1_1_256_dual arm fresh f Va Vb a b = (rfc_scrypt a a 1024 32, rfc_scrypt b b 1024 32) \<and>
    scrypt_core_soa4 arm fresh [Va, Vb, Vc, Vd] [a, b, c, d] = map (\<lambda>h. rfc_scrypt h h 1024 32) [a, b, c, d]"
proof -
  have "1024 * 32 \<le> length Va" "1024 * 32 \<le> length Vb" using assms(3) [rule_format, of 0] assms(3) [rule_format, of 1] by simp_all
  then show ?thesis
    using scrypt_single_rfc [OF assms(1,2)] scrypt_dual_rfc [OF assms(1,2)] assms(4)
      scrypt_soa4_rfc [OF assms(2) _ assms(3), of "[a, b, c, d]"] by simp
qed

text \<open>A BlockMix with the documented behaviour.\<close>

definition blockmix_by_salsa :: blockmix_fn where
  "blockmix_by_salsa B = (let Y0 = rfc_salsa20_8 (take 16 B); Y1 = rfc_salsa20_8 (xor_words (drop 16 B) Y0) in Y0 @ Y1)"

lemma blockmix_by_salsa_contract: "blockmix_contract blockmix_by_salsa"
  by (simp add: blockmix_contract_def blockmix_by_salsa_def)

theorem scrypt_paths_agree_witness:
  "scrypt_core_soa4 True \<lparr>sc_state = [], sc_count = 0, sc_buffer = replicate 64 0\<rparr> (replicate 4 (replicate 32768 9))
     (map (replicate 80) [1, 2, 3, 4]) =
   map (\<lambda>x. scrypt_1024_1_1_256 True \<lparr>sc_state = [], sc_count = 0, sc_buffer = replicate 64 0\<rparr> blockmix_by_salsa
     (replicate 32768 9) (replicate 80 x)) [1, 2, 3, 4]"
proof -
  have V: "replicate 4 V = [V, V, V, V]" for V :: "u32 list" by (simp add: numeral_eq_Suc)
  have room: "\<forall>m < 4. 1024 * 32 \<le> length ([replicate 32768 9, replicate 32768 9, replicate 32768 9, replicate 32768 (9 :: u32)] ! m)"
    by (auto simp: less_4)
  note t = scrypt_paths_agree [OF blockmix_by_salsa_contract _ room, of "\<lparr>sc_state = [], sc_count = 0, sc_buffer = replicate 64 0\<rparr>"]
  show ?thesis
    unfolding V
    using t [of "replicate 80 1" "replicate 80 2" "replicate 80 3" "replicate 80 4" True]
      t [of "replicate 80 2" "replicate 80 2" "replicate 80 3" "replicate 80 4" True]
      t [of "replicate 80 3" "replicate 80 2" "replicate 80 3" "replicate 80 4" True]
      t [of "replicate 80 4" "replicate 80 2" "replicate 80 3" "replicate 80 4" True]
    by simp
qed

end
