(* ===== verification/Workers.thy ===== *)
theory Workers
  imports Rpc
begin

text \<open>
  The worker threads (\<open>src/miner.cpp\<close>): the partition of the nonce space, the position of a thread
  in its slice, the chunk size, the scan, the submission of found shares and the wait after
  exhaustion. The hashing back end is an argument, and so is what other threads do to the shared
  state between the points where a worker reads it. The results: the slices partition the nonce
  space, a worker never asks the back end for a nonce outside its slice, it never scans a nonce
  twice for the same work, and it never sends a share of superseded work.
\<close>

section \<open>The nonce partition\<close>

text \<open>\<open>span_env\<close> is the value of \<open>PRIMO_NONCE_SPAN_TEST\<close>.\<close>

definition miner_get_thread_nonce_range :: "nat \<Rightarrow> nat \<Rightarrow> u64 \<Rightarrow> u64 option \<Rightarrow> u64 \<times> u64" where
  "miner_get_thread_nonce_range n_threads thread_id nonce_space span_env =
     (let thread_index = of_nat thread_id :: u64;
          thread_count = of_nat n_threads :: u64;
          range_start = (thread_index * nonce_space) div thread_count;
          range_end = ((thread_index + 1) * nonce_space) div thread_count
      in (range_start,
          case span_env of
            None \<Rightarrow> range_end
          | Some n \<Rightarrow> if 0 < n \<and> range_start + n < range_end then range_start + n else range_end))"

section \<open>The state of a worker\<close>

record worker =
  wk_work :: work
  wk_start :: u64
  wk_end :: u64
  wk_space :: u64
  wk_next :: u64
  wk_epoch :: u32
  wk_first :: bool
  wk_have_header :: bool
  wk_header :: "u32 list"
  wk_job_id :: string
  wk_last_scanned :: "u32 list"
  wk_window_hashes :: u64
  wk_window_sec :: double
  wk_chunk_rate :: double
  wk_display_rate :: double

definition initial_worker :: "work \<Rightarrow> nat \<Rightarrow> nat \<Rightarrow> u64 option \<Rightarrow> worker" where
  "initial_worker work n_threads thread_id span_env =
     (case miner_get_thread_nonce_range n_threads thread_id (2 ^ 32) span_env of
        (s, e) \<Rightarrow>
          \<lparr>wk_work = work, wk_start = s, wk_end = e, wk_space = 2 ^ 32, wk_next = s, wk_epoch = 0, wk_first = True,
           wk_have_header = False, wk_header = replicate 9 0, wk_job_id = [], wk_last_scanned = replicate 30 0,
           wk_window_hashes = 0, wk_window_sec = 0, wk_chunk_rate = 0, wk_display_rate = 0\<rparr>)"

definition work_is_new_job :: "algo_t \<Rightarrow> work \<Rightarrow> u32 list \<Rightarrow> bool \<Rightarrow> bool \<Rightarrow> string \<Rightarrow> bool" where
  "work_is_new_job algo current_work previous_verus_header have_previous_verus_header is_first_work previous_job_id \<longleftrightarrow>
     (if algo = ALGO_VERUS then
        is_first_work \<or> \<not> have_previous_verus_header \<or> take 9 (work_data current_work) \<noteq> take 9 previous_verus_header
      else is_first_work \<or> work_job_id current_work \<noteq> previous_job_id)"

definition verus_nonce_epoch_can_roll :: "algo_t \<Rightarrow> work \<Rightarrow> u32 \<Rightarrow> bool" where
  "verus_nonce_epoch_can_roll algo work current_epoch \<longleftrightarrow>
     algo = ALGO_VERUS \<and> current_epoch \<noteq> - 1 \<and> miner_work_solution work \<noteq> None"

definition nonce_offset :: "algo_t \<Rightarrow> nat" where
  "nonce_offset algo = (if algo = ALGO_VERUS then 30 else if algo = ALGO_RANDOMX then RANDOMX_NONCE_WORD else 19)"

definition preimage_words :: "algo_t \<Rightarrow> nat" where
  "preimage_words algo = (if algo = ALGO_VERUS then 30 else if algo = ALGO_RANDOMX then 0 else 19)"

text \<open>A change of the RandomX nonce mask re-derives the slice.\<close>

definition update_partition :: "algo_t \<Rightarrow> nat \<Rightarrow> nat \<Rightarrow> u64 option \<Rightarrow> work \<Rightarrow> worker \<Rightarrow> worker" where
  "update_partition algo n_threads thread_id span_env work wk =
     (let space = (if work_rx_nonce_mask work \<noteq> 0 then ucast (work_rx_nonce_mask work) + 1 else 2 ^ 32)
      in if algo = ALGO_RANDOMX \<and> space \<noteq> wk_space wk then
           (case miner_get_thread_nonce_range n_threads thread_id space span_env of
              (s, e) \<Rightarrow> wk\<lparr>wk_space := space, wk_start := s, wk_end := e, wk_next := s\<rparr>)
         else wk)"

definition enter_job :: "algo_t \<Rightarrow> work \<Rightarrow> worker \<Rightarrow> worker" where
  "enter_job algo work wk =
     (let wk1 = wk\<lparr>wk_next := wk_start wk, wk_epoch := 0\<rparr>;
          wk2 = (if algo = ALGO_VERUS then wk1\<lparr>wk_header := take 9 (work_data work), wk_have_header := True\<rparr> else wk1)
      in wk2\<lparr>wk_job_id := snprintf_s 128 (work_job_id work), wk_first := False,
             wk_window_hashes := 0, wk_window_sec := 0\<rparr>)"

definition update_position :: "algo_t \<Rightarrow> work \<Rightarrow> worker \<Rightarrow> worker" where
  "update_position algo work wk =
     (let new_job = work_is_new_job algo work (wk_header wk) (wk_have_header wk) (wk_first wk) (wk_job_id wk);
          wk1 = (if new_job then enter_job algo work wk else wk);
          n = preimage_words algo;
          wk2 = (if \<not> new_job \<and> n \<noteq> 0 \<and> wk_end wk1 \<le> wk_next wk1 \<and>
                    take n (work_data work) \<noteq> take n (wk_last_scanned wk1)
                 then wk1\<lparr>wk_next := wk_start wk1\<rparr> else wk1)
      in if n \<noteq> 0 then wk2\<lparr>wk_last_scanned := take n (work_data work) @ drop n (wk_last_scanned wk2)\<rparr> else wk2)"

definition choose_chunk_size :: "algo_t \<Rightarrow> double \<Rightarrow> u32" where
  "choose_chunk_size algo chunk_hashrate =
     (let clamp = (\<lambda>lo hi. let t = fl (chunk_hashrate * 5); t1 = (if hi < t then hi else t); t2 = (if t1 < lo then lo else t1)
                           in word_of_int \<lfloor>t2\<rfloor>)
      in if algo = ALGO_RANDOMX then (if 1 < chunk_hashrate then clamp 16 4096 else 256)
         else if 100000 < chunk_hashrate then clamp 0x100000 0x1000000
         else 0x300000)"

text \<open>What the next iteration does: the position, and the work and count handed to the back end.\<close>

datatype next_step = Wait_Exhausted worker work | Scan_Chunk worker work u32

definition roll_epoch :: "worker \<Rightarrow> worker" where
  "roll_epoch wk =
     (if wk_end wk \<le> wk_next wk then wk\<lparr>wk_epoch := wk_epoch wk + 1, wk_next := wk_start wk\<rparr> else wk)"

definition stamp_work :: "algo_t \<Rightarrow> nat \<Rightarrow> worker \<Rightarrow> work \<Rightarrow> work" where
  "stamp_work algo thread_id wk work =
     (let data1 = (work_data work)[nonce_offset algo := ucast (wk_next wk)];
          data2 = (if algo = ALGO_VERUS then data1[32 := wk_epoch wk] else data1)
      in work\<lparr>work_data := data2, work_thread_id := of_nat thread_id\<rparr>)"

definition next_scan_count :: "algo_t \<Rightarrow> worker \<Rightarrow> u32" where
  "next_scan_count algo wk =
     (let chunk_size = choose_chunk_size algo (wk_chunk_rate wk);
          remaining_nonces = wk_end wk - wk_next wk
      in if remaining_nonces < ucast chunk_size then ucast remaining_nonces else chunk_size)"

definition prepare_scan :: "algo_t \<Rightarrow> nat \<Rightarrow> nat \<Rightarrow> u64 option \<Rightarrow> work \<Rightarrow> worker \<Rightarrow> next_step" where
  "prepare_scan algo n_threads thread_id span_env copied wk =
     (let work = copied\<lparr>work_valid_nonces := 0\<rparr>;
          wk2 = update_position algo work (update_partition algo n_threads thread_id span_env work wk)
      in if wk_end wk2 \<le> wk_next wk2 \<and> \<not> verus_nonce_epoch_can_roll algo work (wk_epoch wk2)
         then Wait_Exhausted wk2 work
         else let wk3 = roll_epoch wk2 in Scan_Chunk wk3 (stamp_work algo thread_id wk3 work) (next_scan_count algo wk3))"

section \<open>Shares and rates\<close>

definition submit_ready_share :: "int \<Rightarrow> bool \<Rightarrow> work \<Rightarrow> 'j world \<Rightarrow> work \<times> 'j world \<times> bool" where
  "submit_ready_share now sent work w =
     (let p = unat (work_pooln work)
      in if miner_work_restart_requested w (work_restart_generation work) then (work, w, False)
         else if \<not> stratum_is_authenticated (sctx_at w p) then (work, w, False)
         else case stratum_submit now sent p work w of
                (work1, w1, True) \<Rightarrow>
                  (work1, stratum_record_share_submit now (int (unat (work_pooln work1)))
                     (work_sharediff work1 ! unat (work_submit_nonce_id work1)) w1, True)
              | (work1, w1, False) \<Rightarrow> (work1, w1, False))"

definition upd_thread :: "nat \<Rightarrow> (thr_info \<Rightarrow> thr_info) \<Rightarrow> 'j world \<Rightarrow> 'j world" where
  "upd_thread i f w = w\<lparr>w_threads := (w_threads w)[i := f (w_threads w ! i)]\<rparr>"

text \<open>The running sum over the per-thread rates.\<close>

definition recalculate_global_hashrate_locked :: "'j world \<Rightarrow> 'j world" where
  "recalculate_global_hashrate_locked w =
     w\<lparr>w_stats := (w_stats w)\<lparr>ms_global_hashrate :=
         foldl (\<lambda>sum i. fl (sum + thr_hashrate (w_threads w ! i))) 0 [0..<opt_n_threads (w_opts w)]\<rparr>\<rparr>"

definition update_rates :: "double \<Rightarrow> nat \<Rightarrow> worker \<Rightarrow> 'j world \<Rightarrow> worker \<times> 'j world" where
  "update_rates interval_sec thread_id wk w =
     (let update_threshold = (if wk_chunk_rate wk < 1 then 1 else 2)
      in if update_threshold \<le> interval_sec \<and> 0 < wk_window_hashes wk \<and> 0 < wk_window_sec wk then
           (let current_rate = fl (fl (of_int (uint (wk_window_hashes wk))) / wk_window_sec wk);
                chunk = (if wk_chunk_rate wk < 1 then current_rate
                         else fl (fl (fl (3 / 10) * current_rate) + fl (fl (7 / 10) * wk_chunk_rate wk)));
                display = (if wk_display_rate wk < 1 then current_rate
                           else fl (fl (fl (1 / 10) * current_rate) + fl (fl (9 / 10) * wk_display_rate wk)))
            in (wk\<lparr>wk_chunk_rate := chunk, wk_display_rate := display, wk_window_hashes := 0, wk_window_sec := 0\<rparr>,
                recalculate_global_hashrate_locked (upd_thread thread_id (\<lambda>t. t\<lparr>thr_hashrate := display\<rparr>) w)))
         else (wk, w))"

text \<open>The polls of an exhausted worker; each argument is what the other threads do in between.\<close>

definition exhaustion_over :: "u32 \<Rightarrow> u64 \<Rightarrow> 'j world \<Rightarrow> bool" where
  "exhaustion_over restart_generation work_update_snapshot w \<longleftrightarrow>
     miner_work_restart_requested w restart_generation \<or> miner_should_abort w \<or>
     stratum_work_update_count w \<noteq> work_update_snapshot"

fun exhaustion_polls :: "u32 \<Rightarrow> u64 \<Rightarrow> ('j world \<Rightarrow> 'j world) list \<Rightarrow> 'j world \<Rightarrow> 'j world option" where
  "exhaustion_polls restart_generation work_update_snapshot [] w =
     (if exhaustion_over restart_generation work_update_snapshot w then Some w else None)"
| "exhaustion_polls restart_generation work_update_snapshot (other # rest) w =
     (if exhaustion_over restart_generation work_update_snapshot w then Some w
      else exhaustion_polls restart_generation work_update_snapshot rest (other w))"

definition wait_for_work_restart_after_nonce_exhaustion ::
  "nat \<Rightarrow> u32 \<Rightarrow> u64 \<Rightarrow> ('j world \<Rightarrow> 'j world) list \<Rightarrow> worker \<Rightarrow> 'j world \<Rightarrow> (worker \<times> 'j world) option" where
  "wait_for_work_restart_after_nonce_exhaustion thread_id restart_generation work_update_snapshot others wk w =
     map_option (\<lambda>w1. (wk\<lparr>wk_window_hashes := 0, wk_window_sec := 0\<rparr>, w1))
       (exhaustion_polls restart_generation work_update_snapshot others
          (upd_thread thread_id (\<lambda>t. t\<lparr>thr_hashrate := 0\<rparr>) w))"

section \<open>One iteration\<close>

text \<open>
  A back end: the thread, the work, the count and the world give the world and the work afterwards,
  the number of nonces found and the number of hashes done. The options
  do not change once the threads run. The environment of an iteration: what
  the others do before the copy and during the scan, the allocation flag of the copy, the back end,
  the clock and the socket at each submission, the times measured, and the polls of a wait.
\<close>

type_synonym 'j backend = "nat \<Rightarrow> work \<Rightarrow> u32 \<Rightarrow> 'j world \<Rightarrow> 'j world \<times> work \<times> nat \<times> u64"

record 'j worker_env =
  ke_copy :: "'j world \<Rightarrow> 'j world"
  ke_alloc :: bool
  ke_scan :: "'j world \<Rightarrow> 'j world"
  ke_backend :: "'j backend"
  ke_now :: int
  ke_sent :: "nat \<Rightarrow> bool"
  ke_scan_sec :: double
  ke_interval :: double
  ke_polls :: "('j world \<Rightarrow> 'j world) list"

definition submit_found :: "int \<Rightarrow> (nat \<Rightarrow> bool) \<Rightarrow> nat \<Rightarrow> work \<Rightarrow> 'j world \<Rightarrow> work \<times> 'j world" where
  "submit_found now sent nonces_found work w =
     foldl (\<lambda>(work, w) i. case submit_ready_share now (sent i) (work\<lparr>work_submit_nonce_id := of_nat i\<rparr>) w of
                             (work1, w1, _) \<Rightarrow> (work1, w1)) (work, w) [0..<min nonces_found MAX_NONCES]"

definition run_scan ::
  "miner_options \<Rightarrow> nat \<Rightarrow> 'j worker_env \<Rightarrow> u64 \<Rightarrow> worker \<Rightarrow> work \<Rightarrow> u32 \<Rightarrow> 'j world \<Rightarrow> (worker \<times> 'j world \<times> bool) option" where
  "run_scan opts thread_id env snapshot wk work scan_count w =
     (case ke_backend env thread_id work scan_count (ke_scan env w) of
        (w1, work1, nonces_found, hashes_done) \<Rightarrow>
          (if ucast scan_count < hashes_done then Some (wk\<lparr>wk_work := work1\<rparr>, miner_request_abort w1, False)
           else
             let wk1 = wk\<lparr>wk_window_hashes := wk_window_hashes wk + hashes_done,
                          wk_window_sec := fl (wk_window_sec wk + ke_scan_sec env),
                          wk_next := wk_next wk + hashes_done\<rparr>;
                 w2 = upd_thread thread_id (\<lambda>t. t\<lparr>thr_hashes_done_total := thr_hashes_done_total t + hashes_done\<rparr>) w1
             in case submit_found (ke_now env) (ke_sent env) nonces_found work1 w2 of
                  (work2, w3) \<Rightarrow>
                    (let wk2 = wk1\<lparr>wk_work := work2\<rparr>
                     in if nonces_found = 0 \<and> wk_end wk2 \<le> wk_next wk2 \<and>
                           \<not> verus_nonce_epoch_can_roll (opt_algo opts) work2 (wk_epoch wk2) then
                          map_option (\<lambda>(wk3, w4). (wk3, w4, True))
                            (wait_for_work_restart_after_nonce_exhaustion thread_id (work_restart_generation work2)
                               snapshot (ke_polls env) wk2 w3)
                        else case update_rates (ke_interval env) thread_id wk2 w3 of
                               (wk3, w4) \<Rightarrow> Some (wk3, w4, True))))"

text \<open>One iteration after the abort check, and whether the loop goes on; \<open>None\<close>: still waiting.\<close>

definition worker_iteration ::
  "miner_options \<Rightarrow> nat \<Rightarrow> u64 option \<Rightarrow> 'j worker_env \<Rightarrow> worker \<Rightarrow> 'j world \<Rightarrow> (worker \<times> 'j world \<times> bool) option" where
  "worker_iteration opts thread_id span_env env wk w =
     (let snapshot = stratum_work_update_count w; w1 = ke_copy env w
      in case stratum_copy_work (ke_alloc env) (wk_work wk) w1 of
           (copied, False) \<Rightarrow> Some (wk\<lparr>wk_work := copied\<rparr>, w1, True)
         | (copied, True) \<Rightarrow>
             (case prepare_scan (opt_algo opts) (opt_n_threads opts) thread_id span_env copied wk of
                Wait_Exhausted wk2 work \<Rightarrow>
                  map_option (\<lambda>(wk3, w2). (wk3, w2, True))
                    (wait_for_work_restart_after_nonce_exhaustion thread_id (work_restart_generation work) snapshot
                       (ke_polls env) (wk2\<lparr>wk_work := work\<rparr>) w1)
              | Scan_Chunk wk3 work scan_count \<Rightarrow>
                  run_scan opts thread_id env snapshot wk3 work scan_count w1))"

fun miner_thread_loop ::
  "miner_options \<Rightarrow> nat \<Rightarrow> u64 option \<Rightarrow> 'j worker_env list \<Rightarrow> worker \<Rightarrow> 'j world \<Rightarrow> (worker \<times> 'j world \<times> bool) option" where
  "miner_thread_loop opts thread_id span_env [] wk w = Some (wk, w, miner_should_abort w)"
| "miner_thread_loop opts thread_id span_env (env # rest) wk w =
     (if miner_should_abort w then Some (wk, w, True)
      else case worker_iteration opts thread_id span_env env wk w of
             None \<Rightarrow> None
           | Some (wk1, w1, False) \<Rightarrow> Some (wk1, w1, True)
           | Some (wk1, w1, True) \<Rightarrow> miner_thread_loop opts thread_id span_env rest wk1 w1)"

definition miner_thread ::
  "nat \<Rightarrow> u64 option \<Rightarrow> bool \<Rightarrow> 'j worker_env list \<Rightarrow> 'j world \<Rightarrow> (worker \<times> 'j world \<times> bool) option" where
  "miner_thread thread_id span_env alloc envs w =
     (case miner_work_init (opt_algo (w_opts w)) alloc of
        (work, False) \<Rightarrow> Some (initial_worker work (opt_n_threads (w_opts w)) thread_id span_env, w, True)
      | (work, True) \<Rightarrow>
          miner_thread_loop (w_opts w) thread_id span_env envs
            (initial_worker work (opt_n_threads (w_opts w)) thread_id span_env) w)"

section \<open>The slices partition the nonce space\<close>

lemma nonce_range_unat:
  assumes "thread_id < n" "n \<le> MAX_THREADS" "unat space \<le> 2 ^ 32"
  shows "unat (fst (miner_get_thread_nonce_range n thread_id space None)) = thread_id * unat space div n"
    and "unat (snd (miner_get_thread_nonce_range n thread_id space None)) = Suc thread_id * unat space div n"
proof -
  have n: "n \<le> 32" "0 < n" using assms(1,2) by (simp_all add: size_consts)
  have small: "unat (of_nat n :: u64) = n" "unat (of_nat thread_id :: u64) = thread_id"
    "unat (of_nat thread_id + 1 :: u64) = Suc thread_id"
    using n assms(1) by (simp_all add: unat_of_nat unat_word_ariths)
  have prod: "Suc thread_id * unat space \<le> 32 * 2 ^ 32"
    using assms n by (intro mult_mono) auto
  have mult: "unat (x * y) = unat x * unat y" if "unat x * unat y \<le> 32 * 2 ^ 32" for x y :: u64
    using that by (simp add: unat_word_ariths)
  have "unat (of_nat thread_id * space) = thread_id * unat space"
    "unat ((of_nat thread_id + 1) * space) = Suc thread_id * unat space"
    using prod mult [of "of_nat thread_id" space] mult [of "of_nat thread_id + 1" space] by (simp_all add: small)
  with small show "unat (fst (miner_get_thread_nonce_range n thread_id space None)) = thread_id * unat space div n"
    "unat (snd (miner_get_thread_nonce_range n thread_id space None)) = Suc thread_id * unat space div n"
    by (simp_all add: miner_get_thread_nonce_range_def Let_def unat_div)
qed

lemma mono_steps_partition:
  fixes b :: "nat \<Rightarrow> nat"
  assumes "mono b" "b 0 \<le> k" "k < b n"
  shows "\<exists>!t. t < n \<and> b t \<le> k \<and> k < b (Suc t)"
proof (rule ex_ex1I)
  show "\<exists>t. t < n \<and> b t \<le> k \<and> k < b (Suc t)"
    using assms(2,3)
  proof (induction n)
    case (Suc n)
    then show ?case by (cases "k < b n") (auto simp: not_less intro: less_SucI)
  qed simp
  fix s t assume st: "s < n \<and> b s \<le> k \<and> k < b (Suc s)" "t < n \<and> b t \<le> k \<and> k < b (Suc t)"
  show "s = t"
  proof (rule ccontr)
    assume "s \<noteq> t"
    then have "Suc s \<le> t \<or> Suc t \<le> s" by arith
    with st monoD [OF assms(1)] show False by (metis le_trans not_less)
  qed
qed

text \<open>
  The slices of the threads partition the nonce space: for every thread count the program allows
  and every space up to the full 32 bits (the low 24 bits in nicehash mode included), each nonce
  lies in the slice of exactly one thread. No nonce is scanned by two threads and none is left out.
\<close>

lemma nonce_ranges_partition:
  assumes "0 < n" "n \<le> MAX_THREADS" "unat space \<le> 2 ^ 32" "k < unat space"
  shows "\<exists>!t. t < n \<and>
    unat (fst (miner_get_thread_nonce_range n t space None)) \<le> k \<and>
    k < unat (snd (miner_get_thread_nonce_range n t space None))"
proof -
  define b where "b = (\<lambda>t. t * unat space div n)"
  have "mono b" unfolding b_def by (intro monoI div_le_mono mult_le_mono1)
  moreover have "b 0 \<le> k" "k < b n" using assms by (simp_all add: b_def)
  ultimately have "\<exists>!t. t < n \<and> b t \<le> k \<and> k < b (Suc t)" by (rule mono_steps_partition)
  moreover have "(t < n \<and> unat (fst (miner_get_thread_nonce_range n t space None)) \<le> k \<and>
      k < unat (snd (miner_get_thread_nonce_range n t space None))) \<longleftrightarrow>
      (t < n \<and> b t \<le> k \<and> k < b (Suc t))" for t
    using nonce_range_unat [OF _ assms(2,3), of t] by (auto simp: b_def)
  ultimately show ?thesis by simp
qed

section \<open>A worker stays in its slice\<close>

text \<open>The test hook takes a count; beyond 32 bits the sum with the start of the slice could wrap.\<close>

definition span_ok :: "u64 option \<Rightarrow> bool" where
  "span_ok span_env = (case span_env of None \<Rightarrow> True | Some n \<Rightarrow> unat n \<le> 2 ^ 32)"

lemma nonce_range_order:
  assumes "thread_id < n" "n \<le> MAX_THREADS" "unat space \<le> 2 ^ 32" "span_ok span_env"
    "miner_get_thread_nonce_range n thread_id space span_env = (s, e)"
  shows "s \<le> e" "unat e \<le> unat space" "space = 2 ^ 32 \<Longrightarrow> s < e"
proof -
  let ?r = "miner_get_thread_nonce_range n thread_id space None"
  note u = nonce_range_unat [OF assms(1-3)]
  have n: "n \<le> 32" "0 < n" using assms(1,2) by (simp_all add: size_consts)
  have s: "s = fst ?r" and e: "e = snd ?r \<or> (\<exists>m. e = s + m \<and> 0 < m \<and> s + m < snd ?r \<and> unat m \<le> 2 ^ 32)"
    using assms(4,5) by (auto simp: miner_get_thread_nonce_range_def Let_def span_ok_def split: option.splits if_splits)
  have "Suc thread_id * unat space div n \<le> n * unat space div n" using assms(1) by (intro div_le_mono mult_le_mono1) simp
  then have top: "unat (snd ?r) \<le> unat space" using n u by simp
  have le: "unat s \<le> unat (snd ?r)" unfolding s u by (intro div_le_mono mult_le_mono1) simp
  then have add: "unat (s + m) = unat s + unat m" if "unat m \<le> 2 ^ 32" for m
    using that top assms(3) by (simp add: unat_word_ariths)
  show "s \<le> e" using e le add by (auto simp: word_le_nat_alt)
  show "unat e \<le> unat space" using e top by (auto simp: word_less_nat_alt)
  show "s < e" if "space = 2 ^ 32"
  proof -
    have "unat space = 2 ^ 32" using that by simp
    then have "n \<le> unat space" using n by simp
    then have "thread_id * unat space div n + 1 \<le> Suc thread_id * unat space div n"
      using n div_le_mono [of "thread_id * unat space + n" "Suc thread_id * unat space" n] by simp
    then have "unat s < unat (snd ?r)" unfolding s u by simp
    then show ?thesis using e add by (auto simp: word_less_nat_alt)
  qed
qed

definition slice_ok :: "algo_t \<Rightarrow> nat \<Rightarrow> nat \<Rightarrow> u64 option \<Rightarrow> worker \<Rightarrow> bool" where
  "slice_ok algo n thread_id span_env wk \<longleftrightarrow>
     (wk_start wk, wk_end wk) = miner_get_thread_nonce_range n thread_id (wk_space wk) span_env \<and>
     unat (wk_space wk) \<le> 2 ^ 32 \<and> wk_start wk \<le> wk_next wk \<and> wk_next wk \<le> wk_end wk \<and>
     (algo = ALGO_VERUS \<longrightarrow> wk_space wk = 2 ^ 32)"

definition threads_ok :: "nat \<Rightarrow> nat \<Rightarrow> u64 option \<Rightarrow> bool" where
  "threads_ok n thread_id span_env \<longleftrightarrow> thread_id < n \<and> n \<le> MAX_THREADS \<and> span_ok span_env"

lemma slice_ok_restart:
  assumes "threads_ok n thread_id span_env" "slice_ok algo n thread_id span_env wk"
  shows "slice_ok algo n thread_id span_env (wk\<lparr>wk_next := wk_start wk\<rparr>)"
    "algo = ALGO_VERUS \<Longrightarrow> wk_start wk < wk_end wk" "unat (wk_end wk) \<le> 2 ^ 32"
  using assms nonce_range_order [of thread_id n "wk_space wk" span_env "wk_start wk" "wk_end wk"]
  by (auto simp: slice_ok_def threads_ok_def)

lemma slice_ok_initial:
  assumes "threads_ok n thread_id span_env"
  shows "slice_ok algo n thread_id span_env (initial_worker work n thread_id span_env)"
  using assms nonce_range_order(1) [of thread_id n "2 ^ 32" span_env]
  by (auto simp: slice_ok_def initial_worker_def threads_ok_def split: prod.split)

lemma slice_ok_partition:
  assumes "threads_ok n thread_id span_env" "slice_ok algo n thread_id span_env wk"
  shows "slice_ok algo n thread_id span_env (update_partition algo n thread_id span_env work wk)"
proof -
  define sp where "sp = (if work_rx_nonce_mask work \<noteq> 0 then ucast (work_rx_nonce_mask work) + 1 else (2 ^ 32 :: u64))"
  have m: "unat (ucast x + 1 :: u64) \<le> 2 ^ 32" for x :: u32
    using unat_u32_less [of x] by (simp add: unat_word_ariths unat_ucast_u64)
  then have sp: "unat sp \<le> 2 ^ 32" by (simp add: sp_def)
  show ?thesis
    using assms sp nonce_range_order(1) [of thread_id n sp span_env]
    by (auto simp: update_partition_def sp_def [symmetric] Let_def slice_ok_def threads_ok_def split: prod.split)
qed

lemma update_position_fields:
  "wk_start (update_position algo work wk) = wk_start wk" "wk_end (update_position algo work wk) = wk_end wk"
  "wk_space (update_position algo work wk) = wk_space wk"
  "wk_next (update_position algo work wk) = wk_next wk \<or> wk_next (update_position algo work wk) = wk_start wk"
  by (auto simp: update_position_def enter_job_def Let_def)

lemma slice_ok_position:
  assumes "threads_ok n thread_id span_env" "slice_ok algo n thread_id span_env wk"
  shows "slice_ok algo n thread_id span_env (update_position algo work wk)"
  using assms(2) slice_ok_restart(1) [OF assms] update_position_fields [of algo work wk]
  by (auto simp: slice_ok_def)

lemma chunk_size_positive: "0 < choose_chunk_size algo rate"
proof -
  have pos: "0 < (word_of_int \<lfloor>t\<rfloor> :: u32)" if "16 \<le> t" "t \<le> 0x1000000" for t :: rat
  proof -
    have "16 \<le> \<lfloor>t\<rfloor>" "\<lfloor>t\<rfloor> \<le> 0x1000000" using that by (simp_all add: le_floor_iff floor_le_iff)
    then have "uint (word_of_int \<lfloor>t\<rfloor> :: u32) = \<lfloor>t\<rfloor>" by (simp add: uint_word_of_int)
    with \<open>16 \<le> \<lfloor>t\<rfloor>\<close> show ?thesis by (simp add: word_less_def)
  qed
  show ?thesis unfolding choose_chunk_size_def Let_def by (auto intro!: pos)
qed

lemma roll_epoch_slice:
  assumes "threads_ok n thread_id span_env" "slice_ok algo n thread_id span_env wk"
    "wk_end wk \<le> wk_next wk \<Longrightarrow> algo = ALGO_VERUS"
  shows "slice_ok algo n thread_id span_env (roll_epoch wk)" "wk_next (roll_epoch wk) < wk_end (roll_epoch wk)"
  using assms(2,3) slice_ok_restart(1,2) [OF assms(1,2)] by (auto simp: roll_epoch_def slice_ok_def not_le)

lemma unat_ucast_u32: "unat x < 2 ^ 32 \<Longrightarrow> unat (ucast (x :: u64) :: u32) = unat x"
  by (simp add: unsigned_ucast_eq take_bit_nat_eq_self_iff)

lemma scan_count_unat:
  assumes "wk_next wk < wk_end wk"
  shows "unat (next_scan_count algo wk) =
    min (unat (wk_end wk) - unat (wk_next wk)) (unat (choose_chunk_size algo (wk_chunk_rate wk)))"
proof -
  let ?rem = "wk_end wk - wk_next wk" and ?chunk = "choose_chunk_size algo (wk_chunk_rate wk)"
  have rem: "unat ?rem = unat (wk_end wk) - unat (wk_next wk)"
    using assms by (simp add: unat_sub less_imp_le)
  have less: "?rem < ucast ?chunk \<longleftrightarrow> unat ?rem < unat ?chunk" by (simp add: word_less_nat_alt unat_ucast_u64)
  show ?thesis
    unfolding rem [symmetric] using less unat_ucast_u32 [of ?rem] unat_u32_less [of ?chunk]
    by (auto simp: next_scan_count_def Let_def min_def)
qed

lemma prepare_scan_cases:
  assumes "prepare_scan algo n thread_id span_env copied wk = Scan_Chunk wk' work count"
    and "wk2 = update_position algo (copied\<lparr>work_valid_nonces := 0\<rparr>)
       (update_partition algo n thread_id span_env (copied\<lparr>work_valid_nonces := 0\<rparr>) wk)"
  shows "wk' = roll_epoch wk2" "work = stamp_work algo thread_id wk' (copied\<lparr>work_valid_nonces := 0\<rparr>)"
    "count = next_scan_count algo wk'"
    "wk_end wk2 \<le> wk_next wk2 \<Longrightarrow> verus_nonce_epoch_can_roll algo (copied\<lparr>work_valid_nonces := 0\<rparr>) (wk_epoch wk2)"
  using assms by (auto simp: prepare_scan_def Let_def split: if_splits)

lemma prepare_scan_slice:
  assumes "threads_ok n thread_id span_env" "slice_ok algo n thread_id span_env wk"
    and "prepare_scan algo n thread_id span_env copied wk = Scan_Chunk wk' work count"
  shows "slice_ok algo n thread_id span_env wk'" "wk_next wk' < wk_end wk'" "0 < count"
    "unat (wk_next wk') + unat count \<le> unat (wk_end wk')"
    "length (work_data copied) = 68 \<Longrightarrow> unat (work_data work ! nonce_offset algo) = unat (wk_next wk')"
proof -
  define wk2 where wk2: "wk2 = update_position algo (copied\<lparr>work_valid_nonces := 0\<rparr>)
    (update_partition algo n thread_id span_env (copied\<lparr>work_valid_nonces := 0\<rparr>) wk)"
  note wk' = prepare_scan_cases(1) [OF assms(3) wk2] and work = prepare_scan_cases(2) [OF assms(3) wk2]
    and count = prepare_scan_cases(3) [OF assms(3) wk2] and roll = prepare_scan_cases(4) [OF assms(3) wk2]
  have "slice_ok algo n thread_id span_env wk2"
    unfolding wk2 by (intro slice_ok_position slice_ok_partition assms)
  note r = roll_epoch_slice [OF assms(1) this, folded wk']
  show ok: "slice_ok algo n thread_id span_env wk'" and lt: "wk_next wk' < wk_end wk'"
    using r roll by (simp_all add: verus_nonce_epoch_can_roll_def)
  show "0 < count" "unat (wk_next wk') + unat count \<le> unat (wk_end wk')"
    using lt chunk_size_positive [of algo "wk_chunk_rate wk'"] scan_count_unat [OF lt, of algo]
    by (auto simp: word_less_nat_alt count)
  have "unat (wk_next wk') < 2 ^ 32" using lt slice_ok_restart(3) [OF assms(1) ok] by (simp add: word_less_nat_alt)
  then show "unat (work_data work ! nonce_offset algo) = unat (wk_next wk')" if "length (work_data copied) = 68"
    using that unat_ucast_u32 by (auto simp: work stamp_work_def nonce_offset_def RANDOMX_NONCE_WORD_def)
qed

text \<open>The part of a worker that a scan and a wait leave alone.\<close>

definition job_view :: "worker \<Rightarrow> u64 \<times> u64 \<times> u64 \<times> u32 \<times> bool \<times> bool \<times> u32 list \<times> string \<times> u32 list" where
  "job_view wk = (wk_start wk, wk_end wk, wk_space wk, wk_epoch wk, wk_first wk, wk_have_header wk, wk_header wk,
     wk_job_id wk, wk_last_scanned wk)"

lemma job_view_update_rates:
  "job_view (fst (update_rates sec thread_id wk w)) = job_view wk"
  "wk_next (fst (update_rates sec thread_id wk w)) = wk_next wk"
  by (simp_all add: update_rates_def Let_def job_view_def)

lemma job_view_wait:
  "wait_for_work_restart_after_nonce_exhaustion thread_id g u others wk w = Some (wk', w') \<Longrightarrow>
   job_view wk' = job_view wk \<and> wk_next wk' = wk_next wk"
  by (auto simp: wait_for_work_restart_after_nonce_exhaustion_def job_view_def)

definition hashes_reported :: "nat \<Rightarrow> 'j worker_env \<Rightarrow> work \<Rightarrow> u32 \<Rightarrow> 'j world \<Rightarrow> u64" where
  "hashes_reported thread_id env work count w = (case ke_backend env thread_id work count (ke_scan env w) of (_, _, _, d) \<Rightarrow> d)"

lemma run_scan_position:
  assumes "run_scan opts thread_id env snapshot wk work count w = Some (wk', w', go)"
  shows "job_view wk' = job_view wk \<and>
    (if go then wk_next wk' = wk_next wk + hashes_reported thread_id env work count w \<and>
               hashes_reported thread_id env work count w \<le> ucast count
     else wk_next wk' = wk_next wk)"
proof -
  obtain w1 work1 found d where b: "ke_backend env thread_id work count (ke_scan env w) = (w1, work1, found, d)"
    by (cases "ke_backend env thread_id work count (ke_scan env w)")
  have h: "hashes_reported thread_id env work count w = d" by (simp add: hashes_reported_def b)
  show ?thesis
  proof (cases "ucast count < d")
    case True
    with assms b show ?thesis by (auto simp: run_scan_def job_view_def)
  next
    case False
    define w2 where "w2 = upd_thread thread_id (\<lambda>t. t\<lparr>thr_hashes_done_total := thr_hashes_done_total t + d\<rparr>) w1"
    obtain work2 w3 where f: "submit_found (ke_now env) (ke_sent env) found work1 w2 = (work2, w3)" by force
    define wk2 where "wk2 = wk\<lparr>wk_window_hashes := wk_window_hashes wk + d,
      wk_window_sec := fl (wk_window_sec wk + ke_scan_sec env), wk_next := wk_next wk + d, wk_work := work2\<rparr>"
    have v: "job_view wk2 = job_view wk" "wk_next wk2 = wk_next wk + d" by (simp_all add: wk2_def job_view_def)
    have "go \<and> (wk' = fst (update_rates (ke_interval env) thread_id wk2 w3) \<or>
      wait_for_work_restart_after_nonce_exhaustion thread_id (work_restart_generation work2) snapshot (ke_polls env) wk2 w3
        = Some (wk', w'))"
      using assms b False f
      by (auto simp: run_scan_def Let_def w2_def [symmetric] wk2_def [symmetric] split_beta split: if_splits)
    with v h False job_view_update_rates [of "ke_interval env" thread_id wk2 w3]
      job_view_wait [of thread_id "work_restart_generation work2" snapshot "ke_polls env" wk2 w3 wk' w']
    show ?thesis by auto
  qed
qed

lemma slice_ok_view:
  "job_view wk' = job_view wk \<Longrightarrow> wk_start wk \<le> wk_next wk' \<Longrightarrow> wk_next wk' \<le> wk_end wk \<Longrightarrow>
   slice_ok algo n t s wk \<Longrightarrow> slice_ok algo n t s wk'"
  by (simp add: slice_ok_def job_view_def)

lemma scan_advance:
  assumes "threads_ok n thread_id span_env" "slice_ok algo n thread_id span_env wk"
    "unat (wk_next wk) + unat count \<le> unat (wk_end wk)" "d \<le> ucast (count :: u32)"
  shows "unat (wk_next wk + d) = unat (wk_next wk) + unat d" "unat (wk_next wk + d) \<le> unat (wk_end wk)"
proof -
  have "unat d \<le> unat count" using assms(4) by (simp add: word_le_nat_alt unat_ucast_u64)
  with assms(3) slice_ok_restart(3) [OF assms(1,2)] show
    "unat (wk_next wk + d) = unat (wk_next wk) + unat d" "unat (wk_next wk + d) \<le> unat (wk_end wk)"
    by (simp_all add: unat_word_ariths)
qed

lemma iteration_slice:
  assumes "threads_ok (opt_n_threads opts) thread_id span_env"
    "slice_ok (opt_algo opts) (opt_n_threads opts) thread_id span_env wk"
    "worker_iteration opts thread_id span_env env wk w = Some (wk', w', go)"
  shows "slice_ok (opt_algo opts) (opt_n_threads opts) thread_id span_env wk'"
proof -
  obtain copied ok where c: "stratum_copy_work (ke_alloc env) (wk_work wk) (ke_copy env w) = (copied, ok)" by force
  show ?thesis
  proof (cases ok)
    case False
    with assms c show ?thesis by (auto simp: worker_iteration_def Let_def intro: slice_ok_view [of _ wk] simp: job_view_def slice_ok_def)
  next
    case ok: True
    show ?thesis
    proof (cases "prepare_scan (opt_algo opts) (opt_n_threads opts) thread_id span_env copied wk")
      case (Wait_Exhausted wk2 work)
      have "wk2 = update_position (opt_algo opts) (copied\<lparr>work_valid_nonces := 0\<rparr>)
          (update_partition (opt_algo opts) (opt_n_threads opts) thread_id span_env (copied\<lparr>work_valid_nonces := 0\<rparr>) wk)"
        using Wait_Exhausted by (auto simp: prepare_scan_def Let_def split: if_splits)
      then have ok2: "slice_ok (opt_algo opts) (opt_n_threads opts) thread_id span_env wk2"
        using assms(1,2) by (simp add: slice_ok_position slice_ok_partition)
      from assms(3) c ok Wait_Exhausted have
        "job_view wk' = job_view (wk2\<lparr>wk_work := work\<rparr>) \<and> wk_next wk' = wk_next (wk2\<lparr>wk_work := work\<rparr>)"
        by (auto simp: worker_iteration_def Let_def dest!: job_view_wait)
      with ok2 show ?thesis by (intro slice_ok_view [OF _ _ _ ok2]) (simp_all add: job_view_def slice_ok_def)
    next
      case (Scan_Chunk wk3 work count)
      note p = prepare_scan_slice(1,4) [OF assms(1,2) Scan_Chunk]
      from assms(3) c ok Scan_Chunk have
        r: "run_scan opts thread_id env (stratum_work_update_count w) wk3 work count (ke_copy env w) = Some (wk', w', go)"
        by (simp add: worker_iteration_def Let_def)
      let ?d = "hashes_reported thread_id env work count (ke_copy env w)"
      from run_scan_position [OF r] have v: "job_view wk' = job_view wk3"
        "wk_next wk' = wk_next wk3 \<or> wk_next wk' = wk_next wk3 + ?d \<and> ?d \<le> ucast count"
        by (auto split: if_splits)
      then have "unat (wk_next wk3) \<le> unat (wk_next wk')" "unat (wk_next wk') \<le> unat (wk_end wk3)"
        using scan_advance [OF assms(1) p, of ?d] p by (auto simp: slice_ok_def word_le_nat_alt)
      with p v(1) show ?thesis
        by (intro slice_ok_view [OF v(1) _ _ p(1)]) (auto simp: slice_ok_def word_le_nat_alt)
    qed
  qed
qed

lemma loop_slice:
  "miner_thread_loop opts thread_id span_env envs wk w = Some (wk', w', ended) \<Longrightarrow>
   threads_ok (opt_n_threads opts) thread_id span_env \<Longrightarrow>
   slice_ok (opt_algo opts) (opt_n_threads opts) thread_id span_env wk \<Longrightarrow>
   slice_ok (opt_algo opts) (opt_n_threads opts) thread_id span_env wk'"
proof (induction envs arbitrary: wk w)
  case (Cons env rest)
  show ?case
  proof (cases "miner_should_abort w")
    case True
    with Cons.prems show ?thesis by simp
  next
    case False
    with Cons.prems(1) obtain wk1 w1 go where i: "worker_iteration opts thread_id span_env env wk w = Some (wk1, w1, go)"
      by (auto split: option.splits)
    note s = iteration_slice [OF Cons.prems(2,3) i]
    from Cons.prems(1) False i have "wk' = wk1 \<or> miner_thread_loop opts thread_id span_env rest wk1 w1 = Some (wk', w', ended)"
      by (cases go) auto
    with s Cons.IH [OF _ Cons.prems(2)] show ?thesis by blast
  qed
qed auto


lemma witness_world_abort: "\<not> w_abort (witness_world algo)"
  by (simp add: witness_world_def initial_world_def)


section \<open>No nonce is scanned twice for the same work\<close>

text \<open>
  The chunks of a run: the epoch, the first nonce and the number of hashes done. A run is steady for
  some work if every copy the worker takes has its header, job identifier and nonce mask.
\<close>

definition iteration_scan ::
  "miner_options \<Rightarrow> nat \<Rightarrow> u64 option \<Rightarrow> 'j worker_env \<Rightarrow> worker \<Rightarrow> 'j world \<Rightarrow> (u32 \<times> nat \<times> nat) list" where
  "iteration_scan opts thread_id span_env env wk w =
     (case stratum_copy_work (ke_alloc env) (wk_work wk) (ke_copy env w) of
        (copied, False) \<Rightarrow> []
      | (copied, True) \<Rightarrow>
          (case prepare_scan (opt_algo opts) (opt_n_threads opts) thread_id span_env copied wk of
             Wait_Exhausted wk2 work \<Rightarrow> []
           | Scan_Chunk wk3 work count \<Rightarrow>
               [(wk_epoch wk3, unat (wk_next wk3), unat (hashes_reported thread_id env work count (ke_copy env w)))]))"

fun scan_log ::
  "miner_options \<Rightarrow> nat \<Rightarrow> u64 option \<Rightarrow> 'j worker_env list \<Rightarrow> worker \<Rightarrow> 'j world \<Rightarrow> (u32 \<times> nat \<times> nat) list" where
  "scan_log opts thread_id span_env [] wk w = []"
| "scan_log opts thread_id span_env (env # rest) wk w =
     (if miner_should_abort w then []
      else iteration_scan opts thread_id span_env env wk w @
           (case worker_iteration opts thread_id span_env env wk w of
              Some (wk1, w1, True) \<Rightarrow> scan_log opts thread_id span_env rest wk1 w1
            | _ \<Rightarrow> []))"

definition same_work :: "work \<Rightarrow> work \<Rightarrow> bool" where
  "same_work T copied \<longleftrightarrow>
     work_data copied = work_data T \<and> work_job_id copied = work_job_id T \<and>
     work_rx_nonce_mask copied = work_rx_nonce_mask T"

fun steady :: "work \<Rightarrow> miner_options \<Rightarrow> nat \<Rightarrow> u64 option \<Rightarrow> 'j worker_env list \<Rightarrow> worker \<Rightarrow> 'j world \<Rightarrow> bool" where
  "steady T opts thread_id span_env [] wk w = True"
| "steady T opts thread_id span_env (env # rest) wk w =
     ((case stratum_copy_work (ke_alloc env) (wk_work wk) (ke_copy env w) of
         (copied, False) \<Rightarrow> True
       | (copied, True) \<Rightarrow> same_work T copied) \<and>
      (case worker_iteration opts thread_id span_env env wk w of
         Some (wk1, w1, True) \<Rightarrow> steady T opts thread_id span_env rest wk1 w1
       | _ \<Rightarrow> True))"

definition settled :: "algo_t \<Rightarrow> work \<Rightarrow> worker \<Rightarrow> bool" where
  "settled algo T wk \<longleftrightarrow>
     \<not> work_is_new_job algo T (wk_header wk) (wk_have_header wk) (wk_first wk) (wk_job_id wk) \<and>
     take (preimage_words algo) (wk_last_scanned wk) = take (preimage_words algo) (work_data T) \<and>
     (algo = ALGO_RANDOMX \<longrightarrow>
        wk_space wk = (if work_rx_nonce_mask T \<noteq> 0 then ucast (work_rx_nonce_mask T) + 1 else 2 ^ 32))"

lemma settled_view:
  "job_view wk' = job_view wk \<Longrightarrow> settled algo T wk' = settled algo T wk"
  "settled algo T (roll_epoch wk) = settled algo T wk"
  by (simp_all add: settled_def job_view_def roll_epoch_def)

lemma new_job_same:
  "same_work T copied \<Longrightarrow> work_is_new_job algo (copied\<lparr>work_valid_nonces := 0\<rparr>) h b f j = work_is_new_job algo T h b f j"
  by (simp add: work_is_new_job_def same_work_def)

lemma update_position_job:
  assumes "\<not> work_is_new_job algo work (wk_header wk) (wk_have_header wk) (wk_first wk) (wk_job_id wk)"
  shows "wk_header (update_position algo work wk) = wk_header wk" "wk_job_id (update_position algo work wk) = wk_job_id wk"
    "wk_first (update_position algo work wk) = wk_first wk" "wk_have_header (update_position algo work wk) = wk_have_header wk"
  using assms by (simp_all add: update_position_def Let_def)

lemma update_position_new_job:
  assumes "work_is_new_job algo work (wk_header wk) (wk_have_header wk) (wk_first wk) (wk_job_id wk)"
  shows "algo = ALGO_VERUS \<Longrightarrow> wk_header (update_position algo work wk) = take 9 (work_data work)"
    "algo = ALGO_VERUS \<Longrightarrow> wk_have_header (update_position algo work wk)"
    "wk_job_id (update_position algo work wk) = snprintf_s 128 (work_job_id work)" "\<not> wk_first (update_position algo work wk)"
  using assms by (simp_all add: update_position_def enter_job_def Let_def)

lemma settled_same:
  assumes "settled algo T wk" "same_work T copied"
  shows "update_position algo (copied\<lparr>work_valid_nonces := 0\<rparr>)
    (update_partition algo n thread_id span_env (copied\<lparr>work_valid_nonces := 0\<rparr>) wk) = wk"
proof -
  have "update_partition algo n thread_id span_env (copied\<lparr>work_valid_nonces := 0\<rparr>) wk = wk"
    using assms by (auto simp: update_partition_def Let_def settled_def same_work_def)
  moreover have "take m (work_data copied) @ drop m (wk_last_scanned wk) = wk_last_scanned wk" if "m = preimage_words algo" for m
    using assms that append_take_drop_id [of m "wk_last_scanned wk"] by (simp add: settled_def same_work_def)
  ultimately show ?thesis
    using assms new_job_same [OF assms(2)] by (simp add: update_position_def Let_def settled_def same_work_def)
qed

lemma settled_after:
  assumes "same_work T copied" "length (work_data T) = 68" "length (work_job_id T) < 128"
  shows "settled algo T (update_position algo (copied\<lparr>work_valid_nonces := 0\<rparr>)
    (update_partition algo n thread_id span_env (copied\<lparr>work_valid_nonces := 0\<rparr>) wk))"
proof -
  define v where "v = update_partition algo n thread_id span_env (copied\<lparr>work_valid_nonces := 0\<rparr>) wk"
  have "algo = ALGO_RANDOMX \<longrightarrow> wk_space v = (if work_rx_nonce_mask T \<noteq> 0 then ucast (work_rx_nonce_mask T) + 1 else 2 ^ 32)"
    using assms(1) by (auto simp: v_def update_partition_def Let_def same_work_def split: prod.split)
  moreover have "take m (wk_last_scanned (update_position algo copied' v)) = take m (work_data T)"
    if "m = preimage_words algo" "copied' = copied\<lparr>work_valid_nonces := 0\<rparr>" for m copied'
    using assms(1,2) that by (auto simp: update_position_def Let_def same_work_def preimage_words_def)
  moreover have "\<not> work_is_new_job algo T (wk_header u) (wk_have_header u) (wk_first u) (wk_job_id u)"
    if "u = update_position algo (copied\<lparr>work_valid_nonces := 0\<rparr>) v" for u
  proof (cases "work_is_new_job algo T (wk_header v) (wk_have_header v) (wk_first v) (wk_job_id v)")
    case True
    from update_position_new_job [OF True [folded new_job_same [OF assms(1)]]] assms that show ?thesis
      by (cases "algo = ALGO_VERUS") (simp_all add: work_is_new_job_def same_work_def snprintf_s_id)
  next
    case False
    from update_position_job [OF False [folded new_job_same [OF assms(1)]]] False that show ?thesis by simp
  qed
  ultimately show ?thesis
    unfolding v_def [symmetric] settled_def by (simp add: update_position_fields)
qed

definition scan_after :: "u32 \<Rightarrow> nat \<Rightarrow> u32 \<times> nat \<times> nat \<Rightarrow> bool" where
  "scan_after e n c \<longleftrightarrow> (case c of (e', f', _) \<Rightarrow> e < e' \<or> e = e' \<and> n \<le> f')"

lemma scan_after_trans:
  "scan_after e n (e', n', d) \<Longrightarrow> scan_after e' m c \<Longrightarrow> n' \<le> m \<Longrightarrow> scan_after e n c"
  by (auto simp: scan_after_def)

lemma roll_after:
  assumes "wk_end wk \<le> wk_next wk \<Longrightarrow> wk_epoch wk \<noteq> - 1"
  shows "scan_after (wk_epoch wk) (unat (wk_next wk)) (wk_epoch (roll_epoch wk), unat (wk_next (roll_epoch wk)), d)"
proof -
  have "e < e + 1" if "e \<noteq> - 1" for e :: u32
  proof -
    have "unat e \<noteq> 2 ^ 32 - 1"
    proof
      assume "unat e = 2 ^ 32 - 1"
      then have "e = of_nat (2 ^ 32 - 1)" by (metis of_nat_unat ucast_id)
      with that show False by simp
    qed
    then show ?thesis using unat_u32_less [of e] by (simp add: word_less_nat_alt unat_word_ariths)
  qed
  with assms show ?thesis by (simp add: scan_after_def roll_epoch_def)
qed

text \<open>One iteration of a steady run: the chunk comes after the old position and before the new one.\<close>

lemma iteration_after:
  assumes "threads_ok (opt_n_threads opts) thread_id span_env"
    and "slice_ok (opt_algo opts) (opt_n_threads opts) thread_id span_env wk"
    and "case stratum_copy_work (ke_alloc env) (wk_work wk) (ke_copy env w) of
           (copied, False) \<Rightarrow> True | (copied, True) \<Rightarrow> same_work T copied"
    and "length (work_data T) = 68" "length (work_job_id T) < 128"
  shows "settled (opt_algo opts) T wk \<Longrightarrow>
      list_all (scan_after (wk_epoch wk) (unat (wk_next wk))) (iteration_scan opts thread_id span_env env wk w)"
    and "worker_iteration opts thread_id span_env env wk w = Some (wk1, w1, True) \<Longrightarrow>
      (settled (opt_algo opts) T wk \<longrightarrow> settled (opt_algo opts) T wk1 \<and>
         scan_after (wk_epoch wk) (unat (wk_next wk)) (wk_epoch wk1, unat (wk_next wk1), 0)) \<and>
      list_all (\<lambda>(e, f, d). settled (opt_algo opts) T wk1 \<and> e = wk_epoch wk1 \<and> f + d \<le> unat (wk_next wk1))
        (iteration_scan opts thread_id span_env env wk w)"
proof -
  let ?a = "opt_algo opts"
  obtain copied ok where c: "stratum_copy_work (ke_alloc env) (wk_work wk) (ke_copy env w) = (copied, ok)" by force
  define wk2 where wk2: "wk2 = update_position ?a (copied\<lparr>work_valid_nonces := 0\<rparr>)
    (update_partition ?a (opt_n_threads opts) thread_id span_env (copied\<lparr>work_valid_nonces := 0\<rparr>) wk)"
  have same: "ok \<Longrightarrow> same_work T copied" using assms(3) c by (auto split: bool.splits)
  have id: "settled ?a T wk \<Longrightarrow> ok \<Longrightarrow> wk2 = wk" unfolding wk2 using settled_same same by blast
  have st: "ok \<Longrightarrow> settled ?a T wk2" unfolding wk2 using settled_after [OF same assms(4,5)] by blast
  have roll: "scan_after (wk_epoch wk2) (unat (wk_next wk2)) (wk_epoch wk', unat (wk_next wk'), d)"
    if "prepare_scan ?a (opt_n_threads opts) thread_id span_env copied wk = Scan_Chunk wk' work count" for wk' work count d
    using prepare_scan_cases(1,4) [OF that wk2] roll_after [of wk2 d] by (simp add: verus_nonce_epoch_can_roll_def)
  show "list_all (scan_after (wk_epoch wk) (unat (wk_next wk))) (iteration_scan opts thread_id span_env env wk w)"
    if "settled ?a T wk"
    using c roll id [OF that] by (cases ok) (auto simp: iteration_scan_def split: next_step.split)
  assume it: "worker_iteration opts thread_id span_env env wk w = Some (wk1, w1, True)"
  show "(settled ?a T wk \<longrightarrow> settled ?a T wk1 \<and>
         scan_after (wk_epoch wk) (unat (wk_next wk)) (wk_epoch wk1, unat (wk_next wk1), 0)) \<and>
      list_all (\<lambda>(e, f, d). settled ?a T wk1 \<and> e = wk_epoch wk1 \<and> f + d \<le> unat (wk_next wk1))
        (iteration_scan opts thread_id span_env env wk w)"
  proof (cases ok)
    case False
    with it c have "wk1 = wk\<lparr>wk_work := copied\<rparr>" by (simp add: worker_iteration_def Let_def)
    with False c show ?thesis
      by (simp add: iteration_scan_def scan_after_def settled_view(1) [of "wk\<lparr>wk_work := copied\<rparr>" wk] job_view_def)
  next
    case True
    show ?thesis
    proof (cases "prepare_scan ?a (opt_n_threads opts) thread_id span_env copied wk")
      case (Wait_Exhausted wkx work)
      then have "wkx = wk2" by (auto simp: prepare_scan_def Let_def wk2 split: if_splits)
      with it c True Wait_Exhausted have "job_view wk1 = job_view (wk2\<lparr>wk_work := work\<rparr>)" "wk_next wk1 = wk_next wk2"
        by (auto simp: worker_iteration_def Let_def dest!: job_view_wait)
      with c True Wait_Exhausted id show ?thesis
        using settled_view(1) [of wk1 wk2]
        by (auto simp: iteration_scan_def scan_after_def job_view_def)
    next
      case (Scan_Chunk wk3 work count)
      note p = prepare_scan_slice(1,4) [OF assms(1,2) Scan_Chunk]
      let ?d = "hashes_reported thread_id env work count (ke_copy env w)"
      have r: "run_scan opts thread_id env (stratum_work_update_count w) wk3 work count (ke_copy env w) = Some (wk1, w1, True)"
        using it c True Scan_Chunk by (simp add: worker_iteration_def Let_def)
      have v: "job_view wk1 = job_view wk3" "wk_next wk1 = wk_next wk3 + ?d" "?d \<le> ucast count"
        using run_scan_position [OF r] by auto
      have n: "unat (wk_next wk1) = unat (wk_next wk3) + unat ?d" using scan_advance(1) [OF assms(1) p v(3)] v(2) by simp
      have s3: "settled ?a T wk1" "wk_epoch wk1 = wk_epoch wk3"
        using st [OF True] settled_view(1) [of wk1 wk3] settled_view(2) [of ?a T wk2] prepare_scan_cases(1) [OF Scan_Chunk wk2] v(1)
        by (auto simp: job_view_def)
      with c True Scan_Chunk n roll [OF Scan_Chunk, of 0] id show ?thesis
        by (auto simp: iteration_scan_def scan_after_def)
    qed
  qed
qed

lemma scan_log_sorted:
  assumes "threads_ok (opt_n_threads opts) thread_id span_env" "length (work_data T) = 68" "length (work_job_id T) < 128"
  shows "slice_ok (opt_algo opts) (opt_n_threads opts) thread_id span_env wk \<Longrightarrow>
    steady T opts thread_id span_env envs wk w \<Longrightarrow>
    (settled (opt_algo opts) T wk \<longrightarrow>
       list_all (scan_after (wk_epoch wk) (unat (wk_next wk))) (scan_log opts thread_id span_env envs wk w)) \<and>
    sorted_wrt (\<lambda>(e, f, d) c. scan_after e (f + d) c) (scan_log opts thread_id span_env envs wk w)"
proof (induction envs arbitrary: wk w)
  case (Cons env rest)
  let ?it = "iteration_scan opts thread_id span_env env wk w"
  note step = iteration_after [OF assms(1) Cons.prems(1) conjunct1 [OF Cons.prems(2) [unfolded steady.simps]] assms(2,3)]
  have single: "sorted_wrt P ?it" for P
    by (auto simp: iteration_scan_def split: prod.split bool.split next_step.split)
  show ?case
  proof (cases "\<exists>wk1 w1. worker_iteration opts thread_id span_env env wk w = Some (wk1, w1, True) \<and> \<not> miner_should_abort w")
    case False
    then have "scan_log opts thread_id span_env (env # rest) wk w = [] \<or> scan_log opts thread_id span_env (env # rest) wk w = ?it"
      by (auto split: option.split bool.split)
    with step(1) single show ?thesis by (elim disjE) (simp_all only: list_all_iff sorted_wrt.simps, simp_all)
  next
    case True
    then obtain wk1 w1 where i: "worker_iteration opts thread_id span_env env wk w = Some (wk1, w1, True)"
      and ab: "\<not> miner_should_abort w" by blast
    define log where "log = scan_log opts thread_id span_env rest wk1 w1"
    have ih: "settled (opt_algo opts) T wk1 \<longrightarrow> list_all (scan_after (wk_epoch wk1) (unat (wk_next wk1))) log"
      "sorted_wrt (\<lambda>(e, f, d) c. scan_after e (f + d) c) log"
      using Cons.IH [OF iteration_slice [OF assms(1) Cons.prems(1) i], of w1] Cons.prems(2) i by (simp_all add: log_def)
    note s2 = step(2) [OF i]
    have all: "scan_log opts thread_id span_env (env # rest) wk w = ?it @ log" using i ab by (simp add: log_def)
    have late: "scan_after e n c" if "settled (opt_algo opts) T wk1" "c \<in> set log"
      "scan_after e n (wk_epoch wk1, unat (wk_next wk1), 0)" for e n c
      using ih(1) that scan_after_trans [OF that(3), of "unat (wk_next wk1)" c] by (simp add: list_all_iff)
    have cross: "scan_after e (f + d) c" if "(e, f, d) \<in> set ?it" "c \<in> set log" for e f d c
      using s2 that late [OF _ that(2), of e "f + d"] by (auto simp: list_all_iff scan_after_def)
    show ?thesis
      unfolding all using step(1) s2 late ih(2) single cross
      by (auto simp: list_all_iff sorted_wrt_append)
  qed
qed simp


definition witness_worker_env :: "unit worker_env" where
  "witness_worker_env = \<lparr>ke_copy = \<lambda>_. witness_published, ke_alloc = True, ke_scan = \<lambda>w. w,
     ke_backend = \<lambda>t work count w. (w, work, 0, 5), ke_now = 0, ke_sent = \<lambda>_. True, ke_scan_sec = 1,
     ke_interval = 1, ke_polls = []\<rparr>"

lemma witness_steady: "steady zero_work opts t span_env (replicate n witness_worker_env) wk w"
proof (induction n arbitrary: wk w)
  case (Suc n)
  have "snd (stratum_copy_work True (wk_work wk) witness_published)"
    by (simp add: stratum_copy_work_def witness_published_simps miner_work_copy_ok zero_work_def)
  moreover have "same_work zero_work (fst (stratum_copy_work True (wk_work wk) witness_published))"
    by (simp add: stratum_copy_work_def witness_published_simps miner_work_copy_ok miner_work_copy_eq same_work_def
        zero_work_def)
  ultimately show ?case
    using Suc by (auto simp: witness_worker_env_def [symmetric] split: option.split bool.split prod.split)
      (auto simp: witness_worker_env_def)
qed simp


section \<open>Superseded shares\<close>

lemma submit_ready_stale:
  "miner_work_restart_requested w (work_restart_generation work) \<Longrightarrow> submit_ready_share now sent work w = (work, w, False)"
  by (simp add: submit_ready_share_def Let_def)




section \<open>The interface of a hashing back end\<close>

text \<open>
  What a worker relies on in a back end: it reports no more hashes than it was asked for, and keeps
  the pool and the generation of the work unit, by which a share is later judged stale. A worker on
  such a back end never runs into the overrun check that stops the miner, and drops every share of
  superseded work. \<open>ready\<close> describes the work units the back end is called with.
\<close>

locale hash_backend =
  fixes backend :: "'j backend" and ready :: "work \<Rightarrow> bool"
  assumes reports_at_most: "ready work \<Longrightarrow> backend t work c w = (w', work', found, h) \<Longrightarrow> h \<le> ucast c"
    and keeps_identity: "ready work \<Longrightarrow> backend t work c w = (w', work', found, h) \<Longrightarrow>
      work_restart_generation work' = work_restart_generation work \<and> work_pooln work' = work_pooln work"
begin

lemma no_overrun:
  assumes "ready work" "ke_backend env = backend"
    and "run_scan opts thread_id env snapshot wk work count w = Some (wk', w', go)"
  shows "go"
proof -
  obtain w1 work1 found h where b: "backend thread_id work count (ke_scan env w) = (w1, work1, found, h)"
    by (metis prod_cases4)
  have "\<not> ucast count < h" using reports_at_most [OF assms(1) b] by simp
  then show ?thesis using assms(2,3) b by (auto simp: run_scan_def Let_def split: prod.splits if_splits)
qed

lemma stale_result_dropped:
  assumes "ready work" "backend t work c w = (w1, work1, found, h)"
    and "miner_work_restart_requested w2 (work_restart_generation work)"
  shows "submit_ready_share now sent (work1\<lparr>work_submit_nonce_id := i\<rparr>) w2 = (work1\<lparr>work_submit_nonce_id := i\<rparr>, w2, False)"
  using keeps_identity [OF assms(1,2)] assms(3) by (simp add: submit_ready_share_def)

end

end
