(* ===== verification/Scan_Common.thy ===== *)
theory Scan_Common
  imports Workers
begin

text \<open>
  What the sha256d and scrypt scans share: the record of a found nonce with its difficulty
  (\<open>bn_store_share_difficulty\<close> of \<open>src/miner.cpp\<close>), and what a scan of consecutive nonces leaves in the
  work unit, nonce by nonce.
\<close>

section \<open>Recording a share\<close>

definition bn_store_share_difficulty :: "u32 list \<Rightarrow> u32 list \<Rightarrow> work \<Rightarrow> int \<Rightarrow> work" where
  "bn_store_share_difficulty hash target work nonce =
     (if nonce < 0 \<or> int MAX_NONCES \<le> nonce then work
      else work\<lparr>work_sharediff := (work_sharediff work)[nat nonce := share_difficulty hash target (work_targetdiff work)]\<rparr>)"

text \<open>The writes of \<open>sha256d_record_share\<close> and \<open>scrypt_record_share\<close>.\<close>

definition record_share :: "u32 list \<Rightarrow> u32 \<Rightarrow> work \<Rightarrow> work" where
  "record_share hash nonce work =
     (let slot = unat (work_valid_nonces work);
          work1 = work\<lparr>work_data := (work_data work)[19 := nonce], work_nonces := (work_nonces work)[slot := nonce]\<rparr>;
          work2 = bn_store_share_difficulty hash (work_target work1) work1 (int slot)
      in work2\<lparr>work_valid_nonces := work_valid_nonces work2 + 1\<rparr>)"

lemma record_share_fields [simp]:
  "work_target (record_share h n work) = work_target work"
  "work_valid_nonces (record_share h n work) = work_valid_nonces work + 1"
  "work_nonces (record_share h n work) = (work_nonces work)[unat (work_valid_nonces work) := n]"
  "work_data (record_share h n work) = (work_data work)[19 := n]"
  "work_restart_generation (record_share h n work) = work_restart_generation work"
  "work_pooln (record_share h n work) = work_pooln work"
  by (simp_all add: record_share_def bn_store_share_difficulty_def Let_def)

lemma hash_le_target_top: "hash_le_target h t \<Longrightarrow> h ! 7 \<le> t ! 7"
  using hash_le_target_from.simps(2) [of h t 7] by (auto simp: hash_le_target_def split: if_splits)

lemma or_byte_add:
  fixes x y :: u32
  assumes "\<And>n. s \<le> n \<Longrightarrow> \<not> bit x n" "unat x < 2 ^ s" "unat x + unat y * 2 ^ s < 2 ^ 32" "s < 32"
  shows "unat (x OR push_bit s y) = unat x + unat y * 2 ^ s"
proof -
  have "x OR push_bit s y = x + push_bit s y"
    by (rule disjunctive_add [symmetric]) (use assms(1) in \<open>auto simp: bit_simps not_le\<close>)
  moreover have "unat (push_bit s y) = unat y * 2 ^ s"
    using assms(3) unfolding unsigned_push_bit_eq by (simp add: take_bit_nat_eq_self push_bit_eq_mult)
  ultimately show ?thesis using assms(3) by (simp add: unat_word_ariths)
qed

lemma unat_le32dec:
  "unat (le32dec (a # b # c # d # r)) = unat a + 2 ^ 8 * (unat b + 2 ^ 8 * (unat c + 2 ^ 8 * unat d))"
proof -
  let ?A = "ucast a :: u32" and ?B = "ucast b :: u32" and ?C = "ucast c :: u32" and ?D = "ucast d :: u32"
  have ub: "unat x < 256" for x :: u8 using unsigned_less [of x] by simp
  note lt = ub [of a] ub [of b] ub [of c] ub [of d]
  have u: "unat (ucast x :: u32) = unat x" for x :: u8
    using ub [of x] by (simp add: unsigned_ucast_eq take_bit_nat_eq_self)
  have 1: "unat (?A OR push_bit 8 ?B) = unat a + unat b * 2 ^ 8"
    using lt or_byte_add [of 8 ?A ?B] by (simp add: u bit_simps)
  have 2: "unat ((?A OR push_bit 8 ?B) OR push_bit 16 ?C) = unat a + unat b * 2 ^ 8 + unat c * 2 ^ 16"
    using lt or_byte_add [of 16 "?A OR push_bit 8 ?B" ?C] by (simp add: u 1 bit_simps)
  have "unat (((?A OR push_bit 8 ?B) OR push_bit 16 ?C) OR push_bit 24 ?D) =
    unat a + unat b * 2 ^ 8 + unat c * 2 ^ 16 + unat d * 2 ^ 24"
    using lt or_byte_add [of 24 "(?A OR push_bit 8 ?B) OR push_bit 16 ?C" ?D] by (simp add: u 2 bit_simps)
  then show ?thesis by (simp add: le32dec_def or.assoc)
qed

lemma bytes_val_words: "bytes_val (words_bytes ws) = words_val ws"
proof (induction ws)
  case (Cons w ws)
  obtain a b c d where w: "le32enc w = [a, b, c, d]" by (simp add: le32enc_def)
  then have "unat w = unat a + 2 ^ 8 * (unat b + 2 ^ 8 * (unat c + 2 ^ 8 * unat d))"
    using unat_le32dec [of a b c d "[]"] le32dec_enc [of w] by simp
  then show ?case using Cons w by (simp add: words_bytes_def)
qed (simp add: words_bytes_def)

text \<open>A 32-byte hash is compared as a little-endian number.\<close>

lemma hash_le_target_bytes:
  assumes "length h = 32" "length target = 8"
  shows "hash_le_target (bytes_words h) target \<longleftrightarrow> bytes_val h \<le> words_val target"
proof -
  have "length (bytes_words h) = 8" "words_bytes (bytes_words h) = h"
    using assms(1) length_bytes_words [of h 8] words_bytes_words [of h 8] by simp_all
  then show ?thesis
    using assms hash_le_target_from_iff [of 8 "bytes_words h" target] bytes_val_words [of "bytes_words h"]
    by (simp add: hash_le_target_def)
qed

section \<open>The result of scanning consecutive nonces\<close>

text \<open>
  After \<open>c\<close> nonces from \<open>n\<close>, with \<open>P\<close> the nonces that meet the target: the reported ones are among them
  and satisfy \<open>P\<close>, and if none is reported none satisfies it.
\<close>

definition scan_result :: "u32 list \<Rightarrow> (u32 \<Rightarrow> bool) \<Rightarrow> u32 \<Rightarrow> nat \<Rightarrow> work \<Rightarrow> bool" where
  "scan_result target P n c work \<longleftrightarrow>
     work_target work = target \<and> length (work_nonces work) = MAX_NONCES \<and> unat (work_valid_nonces work) \<le> MAX_NONCES \<and>
     (\<forall>i < unat (work_valid_nonces work). \<exists>j < c. work_nonces work ! i = n + of_nat j \<and> P (n + of_nat j)) \<and>
     (work_valid_nonces work = 0 \<longrightarrow> (\<forall>j < c. \<not> P (n + of_nat j)))"

definition no_nonce_yet :: "u32 list \<Rightarrow> work \<Rightarrow> bool" where
  "no_nonce_yet target work \<longleftrightarrow> work_target work = target \<and> length target = 8 \<and>
     length (work_nonces work) = MAX_NONCES \<and> work_valid_nonces work = 0"

lemma scan_result_empty: "no_nonce_yet target work \<Longrightarrow> scan_result target P n 0 work"
  by (simp add: no_nonce_yet_def scan_result_def)

lemma scan_result_none:
  "scan_result target P n c work \<Longrightarrow> length target = 8 \<Longrightarrow> work_valid_nonces work = 0 \<Longrightarrow> no_nonce_yet target work"
  by (simp add: no_nonce_yet_def scan_result_def)

text \<open>One more nonce, recorded when it satisfies \<open>P\<close> and a slot is left.\<close>

lemma scan_result_step:
  assumes "scan_result target P n c work"
  shows "scan_result target P n (Suc c)
    (if P (n + of_nat c) \<and> unat (work_valid_nonces work) < MAX_NONCES then record_share h (n + of_nat c) work else work)"
proof (cases "P (n + of_nat c) \<and> unat (work_valid_nonces work) < MAX_NONCES")
  case True
  let ?w = "record_share h (n + of_nat c) work" and ?v = "unat (work_valid_nonces work)"
  have r: "length (work_nonces work) = MAX_NONCES" "work_target work = target"
    "\<And>i. i < ?v \<Longrightarrow> \<exists>j < c. work_nonces work ! i = n + of_nat j \<and> P (n + of_nat j)"
    using assms by (simp_all add: scan_result_def)
  have v: "unat (work_valid_nonces work + 1) = Suc ?v" using True by (simp add: size_consts unat_word_ariths)
  have "\<exists>j < Suc c. work_nonces ?w ! i = n + of_nat j \<and> P (n + of_nat j)" if il: "i < Suc ?v" for i
  proof (cases "i = ?v")
    case eq: True
    then show ?thesis using True r(1) by (intro exI [of _ c]) simp
  next
    case False
    then have "i < ?v" using il by simp
    then obtain j where "j < c" "work_nonces work ! i = n + of_nat j \<and> P (n + of_nat j)" using r(3) by blast
    then show ?thesis using False by (intro exI [of _ j]) simp
  qed
  moreover have "work_valid_nonces work + 1 \<noteq> 0" using v by auto
  ultimately show ?thesis using True r by (simp add: scan_result_def v)
next
  case False
  have old: "scan_result target P n c work" by (rule assms)
  have "\<not> P (n + of_nat c)" if "work_valid_nonces work = 0" using False that by (simp add: size_consts)
  then have "work_valid_nonces work = 0 \<Longrightarrow> j < Suc c \<Longrightarrow> \<not> P (n + of_nat j)" for j
    using old by (auto simp: scan_result_def less_Suc_eq)
  then show ?thesis unfolding if_not_P [OF False] using old unfolding scan_result_def by (meson less_SucI)
qed

lemma scan_result_append:
  assumes "scan_result target P (n + of_nat a) c work" "\<forall>j < a. \<not> P (n + of_nat j)"
  shows "scan_result target P n (a + c) work"
proof -
  have shift: "\<exists>j' < a + c. x = n + of_nat j' \<and> P (n + of_nat j')"
    if "j < c" "x = n + of_nat a + of_nat j" "P (n + of_nat a + of_nat j)" for j x
    using that by (intro exI [of _ "a + j"]) (simp add: add.assoc)
  have "\<not> P (n + of_nat j)" if "work_valid_nonces work = 0" "j < a + c" for j
  proof (cases "j < a")
    case False
    then have "n + of_nat j = n + of_nat a + of_nat (j - a)" "j - a < c" using that(2) by (simp_all add: of_nat_diff)
    moreover have "\<not> P (n + of_nat a + of_nat i)" if "i < c" for i
      using assms(1) \<open>work_valid_nonces work = 0\<close> that by (simp add: scan_result_def)
    ultimately show ?thesis by metis
  qed (use assms(2) in simp)
  with assms(1) shift show ?thesis unfolding scan_result_def by (smt (verit))
qed

lemma scan_result_reports:
  assumes "scan_result target P n c work"
  shows "i < unat (work_valid_nonces work) \<Longrightarrow> \<exists>j < c. work_nonces work ! i = n + of_nat j \<and> P (work_nonces work ! i)"
    and "0 < unat (work_valid_nonces work) \<longleftrightarrow> (\<exists>j < c. P (n + of_nat j))"
proof -
  have s: "\<exists>j < c. work_nonces work ! i = n + of_nat j \<and> P (n + of_nat j)" if "i < unat (work_valid_nonces work)" for i
    using assms that by (simp add: scan_result_def)
  show "\<exists>j < c. work_nonces work ! i = n + of_nat j \<and> P (work_nonces work ! i)" if "i < unat (work_valid_nonces work)"
    using s [OF that] by auto
  show "0 < unat (work_valid_nonces work) \<longleftrightarrow> (\<exists>j < c. P (n + of_nat j))"
    using s [of 0] assms unfolding scan_result_def by (metis unat_gt_0)
qed

end
