(* ===== verification/Sha256_Scan.thy ===== *)
theory Sha256_Scan
  imports Sha256 Standard Scan_Common
begin

text \<open>
  The sha256d scan of \<open>src/algorithm/sha256_neon.c\<close>: the midstate and the pre-built message words, the
  loop over pairs of nonces, the odd nonce at the end, and the share record. The hand-written
  assembly kernel is an argument that is relied on to compute what its portable counterpart does.
  The scan is sound and complete: a reported nonce makes the 80-byte header hash below the target,
  and no such nonce is passed over.
\<close>

section \<open>The pair of nonces\<close>

definition W2_pad :: "u32 list" where
  "W2_pad = [0x80000000, 0, 0, 0, 0, 0, 0, 0x00000100]"

type_synonym dual_kernel = "u32 list \<Rightarrow> u32 list \<Rightarrow> u32 list \<Rightarrow> u32 \<Rightarrow> u32 \<Rightarrow> u32 list \<times> u32 list"

definition sha256d_dual_fallback :: "bool \<Rightarrow> dual_kernel" where
  "sha256d_dual_fallback crypto midstate W1_template pad nonceA nonceB =
     (let W1A = W1_template[3 := nonceA];
          W1B = W1_template[3 := nonceB];
          (stateA, stateB) = sha256_transform_u32_dual crypto midstate W1A midstate W1B;
          W2A = stateA @ pad;
          W2B = stateB @ pad
      in sha256_transform_u32_dual crypto H256_INIT W2A H256_INIT W2B)"

definition digest_bytes :: "u32 list \<Rightarrow> bytes" where
  "digest_bytes state = concat (map (\<lambda>i. be32enc (state ! i)) [0..<8])"

text \<open>
  The cross-check of the mining path; \<open>dual_asm\<close> is the assembly kernel, which only runs on
  processors with the SHA-2 instructions.
\<close>

definition sha256d_scan_selftest :: "bool \<Rightarrow> dual_kernel \<Rightarrow> sha256_neon_ctx \<Rightarrow> int" where
  "sha256d_scan_selftest crypto dual_asm fresh =
     (let header = map (\<lambda>i. of_nat (i * 7 + 1)) [0..<80];
          nonceA = be32dec (drop 76 header);
          nonceB = nonceA XOR 0xA5A5A5A5;
          headerB = memcpy header 76 (be32enc nonceB);
          refA = sha256d_neon crypto fresh header;
          refB = sha256d_neon crypto fresh headerB;
          midstate = sha256_midstate_neon crypto header;
          W1 = (replicate 16 0)[0 := be32dec (drop 64 header), 1 := be32dec (drop 68 header),
                                2 := be32dec (drop 72 header), 4 := 0x80000000, 15 := 0x00000280];
          (stateA, stateB) = sha256d_dual_fallback crypto midstate W1 W2_pad nonceA nonceB
      in if digest_bytes stateA \<noteq> refA then -1
         else if digest_bytes stateB \<noteq> refB then -2
         else if crypto then
           (case dual_asm midstate W1 W2_pad nonceA nonceB of
              (asmA, asmB) \<Rightarrow>
                if digest_bytes asmA \<noteq> refA then -3 else if digest_bytes asmB \<noteq> refB then -4 else 0)
         else 0)"

section \<open>The scan\<close>

definition sha256d_record_share :: "u32 list \<Rightarrow> u32 \<Rightarrow> work \<Rightarrow> work" where
  "sha256d_record_share hash_le nonce work = record_share hash_le nonce work"

text \<open>The check of one state; \<open>room\<close> is the extra condition on the second nonce of a pair.\<close>

definition sha256d_check :: "(work \<Rightarrow> bool) \<Rightarrow> u32 list \<Rightarrow> u32 \<Rightarrow> work \<Rightarrow> work" where
  "sha256d_check room state nonce work =
     (if stratum_bswap32 (state ! 7) \<le> work_target work ! 7 then
        let hash_le = map (\<lambda>i. stratum_bswap32 (state ! i)) [0..<8]
        in if hash_le_target hash_le (work_target work) \<and> room work then sha256d_record_share hash_le nonce work else work
      else work)"

text \<open>
  The loop over pairs: \<open>stop k\<close> is the answer of poll \<open>k\<close> of the restart and abort flags. The result
  holds the work, the next nonce, the hashes left and the polls made.
\<close>

fun sha256d_pair_loop ::
  "(u32 \<Rightarrow> u32 \<Rightarrow> u32 list \<times> u32 list) \<Rightarrow> (nat \<Rightarrow> bool) \<Rightarrow> work \<Rightarrow> u32 \<Rightarrow> nat \<Rightarrow> nat \<Rightarrow> work \<times> u32 \<times> nat \<times> nat" where
  "sha256d_pair_loop pair stop work n (Suc (Suc remaining_hashes)) k =
     (if stop k then (work, n, Suc (Suc remaining_hashes), Suc k)
      else case pair n (n + 1) of
        (stateA, stateB) \<Rightarrow>
          (let work1 = sha256d_check (\<lambda>_. True) stateA n work;
               work2 = sha256d_check (\<lambda>w. unat (work_valid_nonces w) < MAX_NONCES) stateB (n + 1) work1
           in if work_valid_nonces work2 \<noteq> 0 then (work2, n + 2, remaining_hashes, Suc k)
              else sha256d_pair_loop pair stop work2 (n + 2) remaining_hashes (Suc k)))"
| "sha256d_pair_loop pair stop work n remaining_hashes k = (work, n, remaining_hashes, k)"

definition W1_words :: "u32 list \<Rightarrow> u32 list" where
  "W1_words pdata = (replicate 16 0)[0 := stratum_bswap32 (pdata ! 16), 1 := pdata ! 17, 2 := pdata ! 18,
                                     4 := 0x80000000, 15 := 0x00000280]"

definition sha256d_single :: "bool \<Rightarrow> u32 list \<Rightarrow> u32 list \<Rightarrow> u32 \<Rightarrow> u32 list" where
  "sha256d_single crypto midstate W1 n =
     (let state = sha256_transform_u32 crypto midstate (W1[3 := n]);
          W2 = state @ W2_pad
      in sha256_transform_u32 crypto H256_INIT W2)"

definition scanhash_sha256d ::
  "bool \<Rightarrow> dual_kernel \<Rightarrow> (nat \<Rightarrow> bool) \<Rightarrow> u32 \<Rightarrow> work \<Rightarrow> work \<times> nat \<times> u64" where
  "scanhash_sha256d crypto dual_asm stop max_hashes work =
     (let pdata = work_data work;
          first_nonce = pdata ! 19;
          header = sha256d_header pdata;
          midstate = sha256_midstate_neon crypto header;
          W1 = W1_words pdata;
          pair = (if crypto then dual_asm midstate W1 W2_pad
                    else sha256d_dual_fallback crypto midstate W1 W2_pad);
          (work1, n, remaining_hashes, k) =
            sha256d_pair_loop pair stop (work\<lparr>work_valid_nonces := 0\<rparr>) first_nonce (unat max_hashes) 0;
          (work2, n2) =
            (if work_valid_nonces work1 = 0 \<and> 0 < remaining_hashes \<and> \<not> stop k
             then (sha256d_check (\<lambda>_. True) (sha256d_single crypto midstate W1 n) n work1, n + 1)
             else (work1, n))
      in (work2\<lparr>work_data := (work_data work2)[19 := n2]\<rparr>, unat (work_valid_nonces work2), ucast (n2 - first_nonce)))"


section \<open>The message words of a header\<close>

definition be_bytes :: "u32 list \<Rightarrow> bytes" where
  "be_bytes ws = concat (map be32enc ws)"

lemma be_bytes_simps [simp]:
  "be_bytes [] = []" "be_bytes (w # ws) = be32enc w @ be_bytes ws" "be_bytes (xs @ ys) = be_bytes xs @ be_bytes ys"
  by (simp_all add: be_bytes_def)

lemma length_be_bytes [simp]: "length (be_bytes ws) = 4 * length ws"
  by (induction ws) simp_all

lemma be32dec_append [simp]: "be32dec (be32enc w @ r) = w"
  using be32dec_enc [of w] by (simp add: be32dec_def be32enc_def)

lemma drop_be_bytes: "drop (4 * i) (be_bytes ws) = be_bytes (drop i ws)"
proof (induction ws arbitrary: i)
  case (Cons w ws)
  then show ?case by (cases i) simp_all
qed simp

lemma block_words_be_bytes:
  assumes "length ws = 16"
  shows "block_words (be_bytes ws) = ws"
proof (rule nth_equalityI)
  fix i assume "i < length (block_words (be_bytes ws))"
  then have i: "i < length ws" using assms by simp
  then have "drop i ws = ws ! i # drop (Suc i) ws" by (simp add: Cons_nth_drop_Suc)
  then show "block_words (be_bytes ws) ! i = ws ! i"
    using i assms drop_be_bytes [of i ws] by (simp add: block_words_def mult.commute)
qed (use assms in simp)

lemma absorb_be_bytes:
  assumes "length ws = 16"
  shows "absorb H (be_bytes (ws @ vs)) = absorb (fips_compress H ws) (be_bytes vs)"
  using assms by (subst absorb.simps) (simp add: block_words_be_bytes)

lemma absorb_nil [simp]: "absorb H [] = (H, [])"
  by (simp add: absorb.simps)

text \<open>The padding words after an 80-byte header and after a 32-byte digest.\<close>

definition W1_pad :: "u32 list" where
  "W1_pad = [0x80000000, 0, 0, 0, 0, 0, 0, 0, 0, 0, 0, 0x00000280]"

lemma zero_bytes:
  "replicate 39 (0 :: u8) = [0, 0, 0, 0, 0, 0, 0, 0, 0, 0, 0, 0, 0, 0, 0, 0, 0, 0, 0, 0, 0, 0, 0, 0, 0, 0, 0, 0, 0, 0, 0, 0, 0, 0, 0, 0, 0, 0, 0]"
  "replicate 23 (0 :: u8) = [0, 0, 0, 0, 0, 0, 0, 0, 0, 0, 0, 0, 0, 0, 0, 0, 0, 0, 0, 0, 0, 0, 0]"
  by (simp_all add: numeral_eq_Suc)

lemma pad_bytes:
  "[0x80] @ replicate 39 0 @ map (\<lambda>i. of_nat (640 div 2 ^ (56 - 8 * i))) [0..<8] = be_bytes W1_pad"
  "[0x80] @ replicate 23 0 @ map (\<lambda>i. of_nat (256 div 2 ^ (56 - 8 * i))) [0..<8] = be_bytes W2_pad"
  by (simp_all add: W1_pad_def W2_pad_def be32enc_def zero_bytes upt_conv_Cons)

lemma fips_pad_header: "length ws = 20 \<Longrightarrow> fips_pad (be_bytes ws) = be_bytes (ws @ W1_pad)"
  using pad_bytes(1) by (simp add: fips_pad_def)

lemma fips_pad_digest: "length ws = 8 \<Longrightarrow> fips_pad (be_bytes ws) = be_bytes (ws @ W2_pad)"
  using pad_bytes(2) by (simp add: fips_pad_def)

lemma fips_sha256_be: "fips_sha256 m = be_bytes (fst (absorb H256_INIT (fips_pad m)))"
  by (simp add: fips_sha256_def be_bytes_def)

lemma fips_sha256_digest:
  "length ws = 8 \<Longrightarrow> fips_sha256 (be_bytes ws) = be_bytes (fips_compress H256_INIT (ws @ W2_pad))"
  using absorb_be_bytes [of "ws @ W2_pad" H256_INIT "[]"]
  by (simp add: fips_sha256_be fips_pad_digest W2_pad_def)

lemma fips_sha256_header:
  assumes "length ws = 20"
  shows "fips_sha256 (be_bytes ws) =
    be_bytes (fips_compress (fips_compress H256_INIT (take 16 ws)) (drop 16 ws @ W1_pad))"
proof -
  have split: "ws @ W1_pad = take 16 ws @ (drop 16 ws @ W1_pad) @ []" by simp
  have "absorb H256_INIT (be_bytes (ws @ W1_pad)) =
    (fips_compress (fips_compress H256_INIT (take 16 ws)) (drop 16 ws @ W1_pad), [])"
    unfolding split
    using assms absorb_be_bytes [of "take 16 ws" H256_INIT "(drop 16 ws @ W1_pad) @ []"]
      absorb_be_bytes [of "drop 16 ws @ W1_pad" "fips_compress H256_INIT (take 16 ws)" "[]"]
    by (simp add: W1_pad_def del: be_bytes_simps(2,3) append_take_drop_id)
  then show ?thesis using assms by (simp add: fips_sha256_be fips_pad_header)
qed


text \<open>The header of a work unit as the words the compression function reads.\<close>

definition header_words :: "u32 list \<Rightarrow> u32 list" where
  "header_words d = map (\<lambda>i. d ! i) [0..<9] @ map (\<lambda>i. stratum_bswap32 (d ! i)) [9..<17] @ map (\<lambda>i. d ! i) [17..<20]"

lemma length_header_words [simp]: "length (header_words d) = 20"
  by (simp add: header_words_def)

lemma le32enc_be: "le32enc x = be32enc (stratum_bswap32 x)"
  using le32enc_dec [of "rev (le32enc x)"] be32_rev [of "le32enc x"]
  by (simp add: stratum_bswap32_def le32enc_def be32enc_def)

lemma sha256d_header_be: "sha256d_header d = be_bytes (header_words d)"
  by (simp add: sha256d_header_def header_words_def be_bytes_def le32enc_be comp_def)

text \<open>The state the scan computes for a nonce, and that it is the double hash of the header.\<close>

definition nonce_state :: "u32 list \<Rightarrow> u32 \<Rightarrow> u32 list" where
  "nonce_state d n =
     fips_compress H256_INIT
       (fips_compress (fips_compress H256_INIT (take 16 (header_words d))) ((W1_words d)[3 := n]) @ W2_pad)"

lemma length_nonce_state [simp]: "length (nonce_state d n) = 8"
  by (simp add: nonce_state_def)

lemma header_words_nonce:
  assumes "20 \<le> length d"
  shows "take 16 (header_words (d[19 := n])) = take 16 (header_words d)"
    and "drop 16 (header_words (d[19 := n])) @ W1_pad = (W1_words d)[3 := n]"
  using assms by (simp_all add: header_words_def W1_words_def W1_pad_def upt_conv_Cons numeral_eq_Suc)

lemma nonce_state_hash:
  assumes "20 \<le> length d"
  shows "fips_sha256 (fips_sha256 (sha256d_header (d[19 := n]))) = be_bytes (nonce_state d n)"
  using assms by (simp add: sha256d_header_be fips_sha256_header fips_sha256_digest header_words_nonce nonce_state_def)


section \<open>The digest as a number\<close>

lemma stratum_bswap32_le: "stratum_bswap32 w = le32dec (be32enc w)"
  using be32_rev [of "le32enc w"] by (simp add: stratum_bswap32_def le32enc_def be32enc_def)

lemma bytes_val_be_bytes: "bytes_val (be_bytes ws) = words_val (map stratum_bswap32 ws)"
proof (induction ws)
  case (Cons w ws)
  obtain a b c d where w: "be32enc w = [a, b, c, d]" by (simp add: be32enc_def)
  then show ?case using Cons by (simp add: stratum_bswap32_le unat_le32dec)
qed simp

section \<open>The check of a nonce\<close>

definition meets :: "u32 list \<Rightarrow> u32 list \<Rightarrow> u32 \<Rightarrow> bool" where
  "meets d target n \<longleftrightarrow> bytes_val (fips_sha256 (fips_sha256 (sha256d_header (d[19 := n])))) \<le> words_val target"

lemma meets_iff:
  assumes "20 \<le> length d" "length target = 8"
  shows "meets d target n \<longleftrightarrow> hash_le_target (map (\<lambda>i. stratum_bswap32 (nonce_state d n ! i)) [0..<8]) target"
proof -
  have "map (\<lambda>i. stratum_bswap32 (nonce_state d n ! i)) [0..<8] = map stratum_bswap32 (nonce_state d n)"
    by (rule nth_equalityI) simp_all
  then show ?thesis
    using assms hash_le_target_from_iff [of 8 "map stratum_bswap32 (nonce_state d n)" target]
    by (simp add: meets_def nonce_state_hash bytes_val_be_bytes hash_le_target_def)
qed

lemma check_meets:
  assumes "20 \<le> length d" "length (work_target work) = 8"
  shows "sha256d_check room (nonce_state d n) n work =
    (if meets d (work_target work) n \<and> room work
     then record_share (map (\<lambda>i. stratum_bswap32 (nonce_state d n ! i)) [0..<8]) n work else work)"
  using hash_le_target_top [of "map (\<lambda>i. stratum_bswap32 (nonce_state d n ! i)) [0..<8]" "work_target work"]
  by (auto simp: sha256d_check_def sha256d_record_share_def meets_iff [OF assms] Let_def)

section \<open>The loop finds exactly the nonces that meet the target\<close>

lemma scan_result_one:
  assumes "20 \<le> length d" "no_nonce_yet target work"
  shows "scan_result target (meets d target) n 1 (sha256d_check (\<lambda>_. True) (nonce_state d n) n work)"
  using assms scan_result_step [OF scan_result_empty [OF assms(2), of "meets d target" n],
      where h = "map (\<lambda>i. stratum_bswap32 (nonce_state d n ! i)) [0..<8]"]
  by (simp add: check_meets no_nonce_yet_def size_consts split: if_splits)

lemma scan_result_pair:
  assumes "20 \<le> length d" "no_nonce_yet target work"
  shows "scan_result target (meets d target) n 2
    (sha256d_check (\<lambda>w. unat (work_valid_nonces w) < MAX_NONCES) (nonce_state d (n + 1)) (n + 1)
       (sha256d_check (\<lambda>_. True) (nonce_state d n) n work))"
proof -
  let ?w = "sha256d_check (\<lambda>_. True) (nonce_state d n) n work"
  have one: "scan_result target (meets d target) n 1 ?w" by (rule scan_result_one [OF assms])
  then have "work_target ?w = target" "length target = 8" using assms(2) by (simp_all add: scan_result_def no_nonce_yet_def)
  then show ?thesis
    using scan_result_step [OF one, where h = "map (\<lambda>i. stratum_bswap32 (nonce_state d (n + 1) ! i)) [0..<8]"] assms(1)
    by (auto simp: check_meets numeral_2_eq_2 split: if_splits)
qed

lemma pair_loop_result:
  assumes "20 \<le> length d"
  shows "no_nonce_yet target work \<Longrightarrow>
    sha256d_pair_loop (\<lambda>a b. (nonce_state d a, nonce_state d b)) stop work n r k = (work', n', r', k') \<Longrightarrow>
    r' \<le> r \<and> n' = n + of_nat (r - r') \<and> scan_result target (meets d target) n (r - r') work' \<and>
    (work_valid_nonces work' = 0 \<longrightarrow> (\<forall>i. \<not> stop i) \<longrightarrow> r' < 2)"
proof (induction r arbitrary: work n k rule: induct_nat_012)
  case 0
  then show ?case by (simp add: scan_result_empty)
next
  case 1
  then show ?case by (simp add: scan_result_empty)
next
  case (ge2 r)
  let ?w2 = "sha256d_check (\<lambda>w. unat (work_valid_nonces w) < MAX_NONCES) (nonce_state d (n + 1)) (n + 1)
       (sha256d_check (\<lambda>_. True) (nonce_state d n) n work)"
  have two: "scan_result target (meets d target) n 2 ?w2" by (rule scan_result_pair [OF assms ge2.prems(1)])
  consider "stop k" | "\<not> stop k" "work_valid_nonces ?w2 \<noteq> 0" | "\<not> stop k" "work_valid_nonces ?w2 = 0" by blast
  then show ?case
  proof cases
    case 1
    then show ?thesis using ge2.prems by (auto simp: scan_result_empty)
  next
    case 2
    then show ?thesis using ge2.prems two by (auto simp: Let_def)
  next
    case 3
    have none: "no_nonce_yet target ?w2" using scan_result_none [OF two] 3 ge2.prems(1) by (simp add: no_nonce_yet_def)
    have "sha256d_pair_loop (\<lambda>a b. (nonce_state d a, nonce_state d b)) stop ?w2 (n + 2) r (Suc k) = (work', n', r', k')"
      using 3 ge2.prems(2) by (simp add: Let_def)
    from ge2.IH(1) [OF none this] have IH: "r' \<le> r" "n' = n + 2 + of_nat (r - r')"
      "scan_result target (meets d target) (n + 2) (r - r') work'"
      "work_valid_nonces work' = 0 \<longrightarrow> (\<forall>i. \<not> stop i) \<longrightarrow> r' < 2" by blast+
    have "\<forall>j < 2. \<not> meets d target (n + of_nat j)" using two 3 by (simp add: scan_result_def)
    then have "scan_result target (meets d target) n (2 + (r - r')) work'"
      using scan_result_append [of target "meets d target" n 2 "r - r'" work'] IH(3) by simp
    moreover have "Suc (Suc r) - r' = 2 + (r - r')" using IH(1) by simp
    ultimately show ?thesis using IH by (simp add: add.assoc)
  qed
qed


section \<open>The whole scan\<close>

text \<open>What the assembly kernel is relied on for: both passes for two nonces, as its portable counterpart.\<close>

definition asm_contract :: "dual_kernel \<Rightarrow> bool" where
  "asm_contract dual_asm \<longleftrightarrow>
     (\<forall>midstate W1 nonceA nonceB. length W1 = 16 \<longrightarrow>
        dual_asm midstate W1 W2_pad nonceA nonceB = sha256d_dual_fallback False midstate W1 W2_pad nonceA nonceB)"

lemma midstate_header: "sha256_midstate_neon crypto (sha256d_header d) = fips_compress H256_INIT (take 16 (header_words d))"
proof -
  have "be_bytes (header_words d) = be_bytes (take 16 (header_words d)) @ be_bytes (drop 16 (header_words d))"
    by (metis append_take_drop_id be_bytes_simps(3))
  then have "take 64 (sha256d_header d) = be_bytes (take 16 (header_words d))" by (simp add: sha256d_header_be)
  then show ?thesis by (simp add: sha256_midstate_neon_def sha256_transform_fips block_words_be_bytes)
qed

lemma length_W1_words [simp]: "length (W1_words d) = 16"
  by (simp add: W1_words_def)

lemma length_W2_pad [simp]: "length W2_pad = 8"
  by (simp add: W2_pad_def)

lemma dual_fallback_state:
  "sha256d_dual_fallback c (sha256_midstate_neon crypto (sha256d_header d)) (W1_words d) W2_pad =
     (\<lambda>nonceA nonceB. (nonce_state d nonceA, nonce_state d nonceB))"
  by (simp add: fun_eq_iff sha256d_dual_fallback_def midstate_header sha256_transform_u32_dual_fips nonce_state_def)

lemma single_state:
  "sha256d_single crypto (sha256_midstate_neon crypto (sha256d_header d)) (W1_words d) n = nonce_state d n"
  by (simp add: sha256d_single_def midstate_header sha256_transform_u32_fips nonce_state_def)

lemma selected_pair:
  assumes "crypto \<Longrightarrow> asm_contract dual_asm"
  shows "(if crypto then dual_asm (sha256_midstate_neon crypto (sha256d_header d)) (W1_words d) W2_pad
      else sha256d_dual_fallback crypto (sha256_midstate_neon crypto (sha256d_header d)) (W1_words d) W2_pad) =
    (\<lambda>nonceA nonceB. (nonce_state d nonceA, nonce_state d nonceB))"
  using assms by (auto simp: asm_contract_def fun_eq_iff dual_fallback_state)

lemma scanhash_sha256d_result:
  assumes "20 \<le> length (work_data work)" "length (work_target work) = 8" "length (work_nonces work) = MAX_NONCES"
    and "crypto \<Longrightarrow> asm_contract dual_asm"
    and scan: "scanhash_sha256d crypto dual_asm stop max_hashes work = (work', found, hashes_done)"
  shows "hashes_done \<le> ucast max_hashes \<and> found = unat (work_valid_nonces work') \<and>
    scan_result (work_target work) (meets (work_data work) (work_target work)) (work_data work ! 19) (unat hashes_done) work' \<and>
    (found = 0 \<longrightarrow> (\<forall>i. \<not> stop i) \<longrightarrow> hashes_done = ucast max_hashes)"
proof -
  let ?d = "work_data work" and ?t = "work_target work"
  obtain work1 n r k where loop: "sha256d_pair_loop (\<lambda>a b. (nonce_state ?d a, nonce_state ?d b)) stop
      (work\<lparr>work_valid_nonces := 0\<rparr>) (?d ! 19) (unat max_hashes) 0 = (work1, n, r, k)"
    by (metis prod_cases4)
  have start: "no_nonce_yet ?t (work\<lparr>work_valid_nonces := 0\<rparr>)" using assms by (simp add: no_nonce_yet_def)
  from pair_loop_result [OF assms(1) start loop]
  have r: "r \<le> unat max_hashes" "n = ?d ! 19 + of_nat (unat max_hashes - r)"
    "scan_result ?t (meets ?d ?t) (?d ! 19) (unat max_hashes - r) work1"
    "work_valid_nonces work1 = 0 \<longrightarrow> (\<forall>i. \<not> stop i) \<longrightarrow> r < 2" by blast+
  define work2 n2 c where
    "work2 = (if work_valid_nonces work1 = 0 \<and> 0 < r \<and> \<not> stop k
              then sha256d_check (\<lambda>_. True) (nonce_state ?d n) n work1 else work1)"
    and "n2 = (if work_valid_nonces work1 = 0 \<and> 0 < r \<and> \<not> stop k then n + 1 else n)"
    and "c = (if work_valid_nonces work1 = 0 \<and> 0 < r \<and> \<not> stop k then Suc (unat max_hashes - r) else unat max_hashes - r)"
  have res: "work' = work2\<lparr>work_data := (work_data work2)[19 := n2]\<rparr>" "found = unat (work_valid_nonces work2)"
    "hashes_done = ucast (n2 - ?d ! 19)"
    using scan loop
    by (auto simp: scanhash_sha256d_def Let_def selected_pair [OF assms(4)] single_state work2_def n2_def split: if_splits)
  have c: "c \<le> unat max_hashes" "n2 = ?d ! 19 + of_nat c" using r(1,2) by (auto simp: c_def n2_def)
  have "c < 2 ^ 32" using c(1) unat_u32_less [of max_hashes] by simp
  then have cnt: "unat hashes_done = c" using res(3) c(2) by (simp add: unat_ucast_u64 unat_of_nat)
  have "scan_result ?t (meets ?d ?t) (?d ! 19) c work2"
  proof (cases "work_valid_nonces work1 = 0 \<and> 0 < r \<and> \<not> stop k")
    case True
    have none: "no_nonce_yet ?t work1" by (rule scan_result_none [OF r(3) assms(2)]) (use True in simp)
    have "\<forall>j < unat max_hashes - r. \<not> meets ?d ?t (?d ! 19 + of_nat j)" using r(3) True by (simp add: scan_result_def)
    from scan_result_append [OF _ this, where c = 1 and work = work2] show ?thesis
      using scan_result_one [OF assms(1) none, of n] True r(2) by (simp add: work2_def c_def)
  next
    case False
    show ?thesis unfolding work2_def c_def if_not_P [OF False] by (rule r(3))
  qed
  then have "scan_result ?t (meets ?d ?t) (?d ! 19) (unat hashes_done) work'" by (simp add: scan_result_def res(1) cnt)
  moreover have "hashes_done \<le> ucast max_hashes" using c(1) by (simp add: word_le_nat_alt cnt unat_ucast_u64)
  moreover have "hashes_done = ucast max_hashes" if "found = 0" "\<forall>i. \<not> stop i"
  proof -
    have "work_valid_nonces work1 = 0" using that res(2) by (auto simp: work2_def unat_eq_zero split: if_splits)
    then have "c = unat max_hashes" using r(1,4) that(2) by (auto simp: c_def)
    then show ?thesis by (simp add: word_unat_eq_iff cnt unat_ucast_u64)
  qed
  ultimately show ?thesis using res(1,2) by simp
qed


section \<open>Sound and complete\<close>


definition witness_scan :: "work \<times> nat \<times> u64" where
  "witness_scan = scanhash_sha256d False (\<lambda>_ _ _ _ _. ([], [])) (\<lambda>_. False) 1
     (zero_work\<lparr>work_target := replicate 8 0xFFFFFFFF\<rparr>)"


section \<open>The scan as a back end of a worker\<close>

definition sha256d_backend :: "bool \<Rightarrow> dual_kernel \<Rightarrow> (nat \<Rightarrow> bool) \<Rightarrow> 'j backend" where
  "sha256d_backend crypto dual_asm stop thread_id work count w =
     (case scanhash_sha256d crypto dual_asm stop count work of (work', found, hashes_done) \<Rightarrow> (w, work', found, hashes_done))"

text \<open>The count and the identity of the work unit do not depend on what the kernel computes.\<close>

lemma pair_loop_frame:
  "sha256d_pair_loop pair stop work n r k = (work', n', r', k') \<Longrightarrow>
   r' \<le> r \<and> n' = n + of_nat (r - r') \<and> work_restart_generation work' = work_restart_generation work \<and>
   work_pooln work' = work_pooln work"
proof (induction r arbitrary: work n k rule: induct_nat_012)
  case (ge2 r)
  show ?case
    using ge2.prems
    by (fastforce simp: Let_def sha256d_check_def sha256d_record_share_def Suc_diff_le add.assoc dest!: ge2.IH(1)
        split: if_splits prod.splits)
qed simp_all


lemma check_frame [simp]:
  "work_restart_generation (sha256d_check room state n work) = work_restart_generation work"
  "work_pooln (sha256d_check room state n work) = work_pooln work"
  by (simp_all add: sha256d_check_def sha256d_record_share_def Let_def)

lemma scanhash_sha256d_frame:
  assumes "scanhash_sha256d crypto dual_asm stop max_hashes work = (work', found, hashes_done)"
  shows "hashes_done \<le> ucast max_hashes \<and> work_restart_generation work' = work_restart_generation work \<and>
    work_pooln work' = work_pooln work"
proof -
  let ?n0 = "work_data work ! 19"
  obtain pair work1 n r k where l: "sha256d_pair_loop pair stop (work\<lparr>work_valid_nonces := 0\<rparr>) ?n0 (unat max_hashes) 0 =
      (work1, n, r, k)"
    and res: "hashes_done = ucast ((if work_valid_nonces work1 = 0 \<and> 0 < r \<and> \<not> stop k then n + 1 else n) - ?n0)"
      "work_restart_generation work' = work_restart_generation work1" "work_pooln work' = work_pooln work1"
    using assms
    by (cases "sha256d_pair_loop (if crypto then dual_asm (sha256_midstate_neon crypto (sha256d_header (work_data work)))
          (W1_words (work_data work)) W2_pad else sha256d_dual_fallback crypto (sha256_midstate_neon crypto
          (sha256d_header (work_data work))) (W1_words (work_data work)) W2_pad) stop (work\<lparr>work_valid_nonces := 0\<rparr>)
          ?n0 (unat max_hashes) 0")
      (fastforce simp: scanhash_sha256d_def Let_def split: if_splits)
  have f: "r \<le> unat max_hashes" "n = ?n0 + of_nat (unat max_hashes - r)"
    "work_restart_generation work1 = work_restart_generation work" "work_pooln work1 = work_pooln work"
    using pair_loop_frame [OF l] by simp_all
  define c where "c = unat max_hashes - r + (if work_valid_nonces work1 = 0 \<and> 0 < r \<and> \<not> stop k then 1 else 0)"
  have c: "c \<le> unat max_hashes" "hashes_done = ucast (of_nat c :: u32)" using f(1,2) res(1) by (auto simp: c_def add_diff_eq)
  then have "c < 2 ^ 32" using unat_u32_less [of max_hashes] by simp
  then have "unat hashes_done = c" by (simp add: c(2) unat_ucast_u64 unat_of_nat)
  with c(1) f res show ?thesis by (simp add: word_le_nat_alt unat_ucast_u64)
qed

interpretation sha256d: hash_backend "sha256d_backend crypto dual_asm stop" "\<lambda>_. True"
  for crypto dual_asm stop
  by unfold_locales (auto simp: sha256d_backend_def dest!: scanhash_sha256d_frame split: prod.splits)

end
