(* ===== verification/Scrypt_Scan.thy ===== *)
theory Scrypt_Scan
  imports Scrypt Sha256_Scan
begin

text \<open>
  The scrypt scan of \<open>src/algorithm/scrypt_neon.c\<close>: the layouts of a scratchpad, the choice between
  four headers at a time and two, the loops with the odd nonce at the end, and the self-test. The
  scan is sound and complete for scrypt of the 80-byte header.
\<close>

section \<open>The layouts of a scratchpad\<close>

definition SCRYPT_SOA4_SCRATCHPAD_SIZE :: nat where
  "SCRYPT_SOA4_SCRATCHPAD_SIZE = 4 * (SCRYPT_BLOCK_SIZE + SCRYPT_N * SCRYPT_BLOCK_SIZE)"

text \<open>The memory areas V of the layouts, in words of the scratchpad.\<close>

definition single_area :: "u32 list \<Rightarrow> u32 list" where
  "single_area pad = drop 32 pad"

definition dual_areas :: "u32 list \<Rightarrow> u32 list \<times> u32 list" where
  "dual_areas pad =
     (let block_sz = 32; v_sz = SCRYPT_N * block_sz;
          Ba = 0; Va = Ba + block_sz; Ya = Va + v_sz; Bb = Ya + block_sz; Vb = Bb + block_sz
      in (take v_sz (drop Va pad), take v_sz (drop Vb pad)))"

definition soa4_areas :: "u32 list \<Rightarrow> u32 list list" where
  "soa4_areas pad = (let block_sz = 32; v_sz = SCRYPT_N * block_sz in map (\<lambda>l. take v_sz (drop (4 * block_sz + l * v_sz) pad)) [0..<4])"

section \<open>The self-test\<close>

definition scrypt_test_header :: bytes where
  "scrypt_test_header = [1, 0, 0, 0] @ replicate 32 0 @ replicate 32 0 @ [0, 0, 0, 0] @ [0xff, 0xff, 0, 0x1d] @ [0, 0, 0, 0]"

definition scrypt_selftest :: "bool \<Rightarrow> sha256_neon_ctx \<Rightarrow> blockmix_fn \<Rightarrow> bool \<Rightarrow> (nat \<Rightarrow> u32 list) \<Rightarrow> int" where
  "scrypt_selftest arm fresh blockmix_asm alloc_ok pads =
     (if \<not> alloc_ok then -1
      else let hash = scrypt_core arm fresh blockmix_asm (single_area (pads 0)) scrypt_test_header scrypt_test_header 1024 32;
               hash2 = scrypt_core arm fresh blockmix_asm (single_area (pads 1)) scrypt_test_header scrypt_test_header 1024 32
           in if hash \<noteq> hash2 then -2
              else if list_all (\<lambda>b. b = 0) hash then -3
              else case dual_areas (pads 2) of (Va, Vb) \<Rightarrow>
                   case scrypt_1024_1_1_256_dual arm fresh blockmix_asm Va Vb scrypt_test_header scrypt_test_header of
                     (hash_dual_a, hash_dual_b) \<Rightarrow>
                if hash \<noteq> hash_dual_a then -4
                else if hash \<noteq> hash_dual_b then -5
                else let test_header2 = scrypt_test_header[79 := 1] in
                   case dual_areas (pads 3) of (Va, Vb) \<Rightarrow>
                   case scrypt_1024_1_1_256_dual arm fresh blockmix_asm Va Vb scrypt_test_header test_header2 of
                     (hash_dual_a, hash_dual_b) \<Rightarrow>
                if hash \<noteq> hash_dual_a then -6
                else if hash_dual_a = hash_dual_b then -7
                else let headers = map (\<lambda>l. scrypt_test_header[76 := of_nat l]) [0..<4];
                         soa_hashes = scrypt_core_soa4 arm fresh (soa4_areas (pads 4)) headers
                     in case find (\<lambda>l. scrypt_core arm fresh blockmix_asm (single_area (pads (5 + l))) (headers ! l) (headers ! l) 1024 32
                                        \<noteq> soa_hashes ! l) [0..<4] of
                          Some l \<Rightarrow> - 8 - int l
                        | None \<Rightarrow> 0)"

section \<open>The scan\<close>

definition scrypt_record_share :: "u32 list \<Rightarrow> u32 \<Rightarrow> work \<Rightarrow> work" where
  "scrypt_record_share hash nonce work = record_share hash nonce work"

text \<open>
  The choice of the path: \<open>soa_env\<close> is \<open>getenv("SCRYPT_SOA")\<close>, \<open>cpu\<close> the result of \<open>sched_getcpu\<close>, and
  \<open>cores\<close> the detected cores with their kind.
\<close>

definition scrypt_use_soa4 :: "string option \<Rightarrow> int \<Rightarrow> int \<Rightarrow> int \<Rightarrow> (int \<times> bool) list \<Rightarrow> bool" where
  "scrypt_use_soa4 soa_env num_big num_little cpu cores =
     (case soa_env of
        Some (c # _) \<Rightarrow> c \<noteq> CHR ''0''
      | _ \<Rightarrow>
          if 0 < num_big \<and> 0 < num_little \<and> 0 \<le> cpu
          then (case find (\<lambda>core. fst core = cpu) cores of Some core \<Rightarrow> snd core | None \<Rightarrow> False)
          else False)"

definition scrypt_check :: "(work \<Rightarrow> bool) \<Rightarrow> bytes \<Rightarrow> u32 \<Rightarrow> work \<Rightarrow> work" where
  "scrypt_check room hash_bytes nonce work =
     (let hash = bytes_words hash_bytes
      in if hash ! 7 \<le> work_target work ! 7 \<and> hash_le_target hash (work_target work) \<and> room work
         then scrypt_record_share hash nonce work else work)"

definition scrypt_room :: "work \<Rightarrow> bool" where
  "scrypt_room work \<longleftrightarrow> unat (work_valid_nonces work) < MAX_NONCES"

definition with_nonce :: "bytes \<Rightarrow> u32 \<Rightarrow> bytes" where
  "with_nonce header n = memcpy header 76 (be32enc n)"

text \<open>The body of the loop over four nonces and of the loop over two.\<close>

definition soa4_body :: "bool \<Rightarrow> sha256_neon_ctx \<Rightarrow> bytes \<Rightarrow> u32 list \<Rightarrow> u32 \<Rightarrow> work \<Rightarrow> work" where
  "soa4_body arm fresh header pad n work =
     (let pass = [with_nonce header n, with_nonce header (n + 1), with_nonce header (n + 2), with_nonce header (n + 3)];
          hashes = scrypt_core_soa4 arm fresh (soa4_areas pad) pass
      in foldl (\<lambda>w l. scrypt_check scrypt_room (hashes ! l) (n + of_nat l) w) work [0..<4])"

definition dual_body :: "bool \<Rightarrow> sha256_neon_ctx \<Rightarrow> blockmix_fn \<Rightarrow> bytes \<Rightarrow> u32 list \<Rightarrow> u32 \<Rightarrow> work \<Rightarrow> work" where
  "dual_body arm fresh blockmix_asm header pad n work =
     (case dual_areas pad of (Va, Vb) \<Rightarrow>
      case scrypt_1024_1_1_256_dual arm fresh blockmix_asm Va Vb (with_nonce header n) (with_nonce header (n + 1)) of
        (hash_a, hash_b) \<Rightarrow>
          scrypt_check scrypt_room hash_b (n + 1) (scrypt_check (\<lambda>_. True) hash_a n work))"

text \<open>
  Both loops: \<open>width\<close> nonces at a time until fewer are left, a nonce is found, or poll \<open>k\<close> of the restart
  and abort flags says stop. The result holds the work, the next nonce, the hashes left and the polls.
\<close>

fun scrypt_loop ::
  "nat \<Rightarrow> (nat \<Rightarrow> u32 \<Rightarrow> work \<Rightarrow> work) \<Rightarrow> (nat \<Rightarrow> bool) \<Rightarrow> work \<Rightarrow> u32 \<Rightarrow> nat \<Rightarrow> nat \<Rightarrow> work \<times> u32 \<times> nat \<times> nat" where
  "scrypt_loop width body stop work n remaining_hashes k =
     (if width = 0 \<or> remaining_hashes < width then (work, n, remaining_hashes, k)
      else if stop k then (work, n, remaining_hashes, Suc k)
      else let work1 = body k n work
           in if work_valid_nonces work1 \<noteq> 0 then (work1, n + of_nat width, remaining_hashes - width, Suc k)
              else scrypt_loop width body stop work1 (n + of_nat width) (remaining_hashes - width) (Suc k))"

text \<open>\<open>pads k\<close> is what the scratchpad holds at poll \<open>k\<close>; \<open>scratchpad\<close> says whether there is one.\<close>

definition scanhash_scrypt ::
  "bool \<Rightarrow> sha256_neon_ctx \<Rightarrow> blockmix_fn \<Rightarrow> bool \<Rightarrow> bool \<Rightarrow> (nat \<Rightarrow> u32 list) \<Rightarrow> (nat \<Rightarrow> bool) \<Rightarrow> u32 \<Rightarrow> work \<Rightarrow>
   work \<times> nat \<times> u64" where
  "scanhash_scrypt arm fresh blockmix_asm scratchpad use_soa4 pads stop max_hashes work =
     (if \<not> scratchpad then (work, 0, 0)
      else
        let first_nonce = work_data work ! 19;
            header = sha256d_header (work_data work);
            work0 = work\<lparr>work_valid_nonces := 0\<rparr>;
            (work1, n1, rem1, k1) =
              (if use_soa4
               then scrypt_loop 4 (\<lambda>k. soa4_body arm fresh header (pads k)) stop work0 first_nonce (unat max_hashes) 0
               else (work0, first_nonce, unat max_hashes, 0));
            (work2, n2, rem2, k2) =
              (if work_valid_nonces work1 = 0
               then scrypt_loop 2 (\<lambda>k. dual_body arm fresh blockmix_asm header (pads k)) stop work1 n1 rem1 k1
               else (work1, n1, rem1, k1));
            (work3, n3) =
              (if 0 < rem2 \<and> \<not> stop k2 \<and> work_valid_nonces work2 = 0
               then (scrypt_check (\<lambda>_. True)
                       (scrypt_1024_1_1_256 arm fresh blockmix_asm (single_area (pads k2)) (with_nonce header n2)) n2 work2, n2 + 1)
               else (work2, n2))
        in (work3\<lparr>work_data := (work_data work3)[19 := n3]\<rparr>, unat (work_valid_nonces work3), ucast (n3 - first_nonce)))"

declare scrypt_loop.simps [simp del]

section \<open>Every layout fits the scratchpad\<close>

definition pad_words :: "u32 list \<Rightarrow> bool" where
  "pad_words pad \<longleftrightarrow> 4 * length pad = SCRYPT_SOA4_SCRATCHPAD_SIZE"

lemma length_areas:
  assumes "pad_words pad"
  shows "1024 * 32 \<le> length (single_area pad)" "dual_areas pad = (Va, Vb) \<Longrightarrow> length Va = 1024 * 32 \<and> length Vb = 1024 * 32"
    "length (soa4_areas pad) = 4" "\<forall>m < 4. 1024 * 32 \<le> length (soa4_areas pad ! m)"
proof -
  have len: "length pad = 131200"
    using assms by (simp add: pad_words_def SCRYPT_SOA4_SCRATCHPAD_SIZE_def SCRYPT_BLOCK_SIZE_def SCRYPT_N_def)
  show "1024 * 32 \<le> length (single_area pad)" using len by (simp add: single_area_def)
  show "dual_areas pad = (Va, Vb) \<Longrightarrow> length Va = 1024 * 32 \<and> length Vb = 1024 * 32"
    using len by (auto simp: dual_areas_def SCRYPT_N_def Let_def)
  show "length (soa4_areas pad) = 4" by (simp add: soa4_areas_def Let_def)
  have "1024 * 32 \<le> length (soa4_areas pad ! m)" if m: "m < 4" for m
  proof -
    have "soa4_areas pad ! m = take 32768 (drop (128 + m * 32768) pad)"
      using m nth_map [of m "[0..<4]"] by (simp add: soa4_areas_def Let_def SCRYPT_N_def del: upt_conv_Cons)
    then show ?thesis using m len by (auto simp: less_4)
  qed
  then show "\<forall>m < 4. 1024 * 32 \<le> length (soa4_areas pad ! m)" by blast
qed

section \<open>The check of a nonce\<close>

definition scrypt_of :: "u32 list \<Rightarrow> u32 \<Rightarrow> bytes" where
  "scrypt_of d n = (let h = sha256d_header (d[19 := n]) in rfc_scrypt h h 1024 32)"

definition scrypt_meets :: "u32 list \<Rightarrow> u32 list \<Rightarrow> u32 \<Rightarrow> bool" where
  "scrypt_meets d target n \<longleftrightarrow> bytes_val (scrypt_of d n) \<le> words_val target"

lemma scrypt_meets_iff:
  assumes "length target = 8"
  shows "scrypt_meets d target n \<longleftrightarrow> hash_le_target (bytes_words (scrypt_of d n)) target"
proof -
  have "length (scrypt_of d n) = 32" by (simp add: scrypt_of_def rfc_scrypt_def Let_def)
  then show ?thesis using assms by (simp add: scrypt_meets_def hash_le_target_bytes)
qed

lemma scrypt_check_meets:
  assumes "length (work_target work) = 8"
  shows "scrypt_check room (scrypt_of d n) n work =
    (if scrypt_meets d (work_target work) n \<and> room work then record_share (bytes_words (scrypt_of d n)) n work else work)"
  using hash_le_target_top [of "bytes_words (scrypt_of d n)" "work_target work"]
  by (auto simp: scrypt_check_def scrypt_record_share_def scrypt_meets_iff [OF assms] Let_def)

lemma with_nonce_header:
  assumes "20 \<le> length d"
  shows "with_nonce (sha256d_header d) n = sha256d_header (d[19 := n])" "length (sha256d_header d) = 80"
proof -
  have three: "[17..<20] = [17, 18, 19 :: nat]" by (simp add: upt_conv_Cons)
  have same: "map (\<lambda>i. be32enc (d[19 := n] ! i)) [0..<9] = map (\<lambda>i. be32enc (d ! i)) [0..<9]"
    "map (\<lambda>i. le32enc (d[19 := n] ! i)) [9..<17] = map (\<lambda>i. le32enc (d ! i)) [9..<17]" by simp_all
  have len: "length (concat (map (\<lambda>i. be32enc (d ! i)) [0..<9])) = 36" "length (concat (map (\<lambda>i. le32enc (d ! i)) [9..<17])) = 32"
    by (simp_all add: length_concat comp_def sum_list_triv)
  show "with_nonce (sha256d_header d) n = sha256d_header (d[19 := n])" "length (sha256d_header d) = 80"
    unfolding with_nonce_def sha256d_header_def memcpy_def same three using assms len by simp_all
qed

text \<open>Another nonce checked, with a slot left or with the test for one.\<close>

lemma scan_check_step:
  assumes "scan_result target (scrypt_meets d target) n c work" "length target = 8"
    and "room work \<longleftrightarrow> unat (work_valid_nonces work) < MAX_NONCES"
  shows "scan_result target (scrypt_meets d target) n (Suc c)
    (scrypt_check room (scrypt_of d (n + of_nat c)) (n + of_nat c) work)"
proof -
  have "work_target work = target" using assms(1) by (simp add: scan_result_def)
  then show ?thesis
    using scan_result_step [OF assms(1), where h = "bytes_words (scrypt_of d (n + of_nat c))"] assms(2,3)
    by (simp add: scrypt_check_meets)
qed

lemmas scan_check_room = scan_check_step [where room = scrypt_room, OF _ _ scrypt_room_def]

lemma scan_check_first:
  assumes "no_nonce_yet target work"
  shows "scan_result target (scrypt_meets d target) n 1 (scrypt_check (\<lambda>_. True) (scrypt_of d n) n work)"
  using scan_check_step [OF scan_result_empty [OF assms], where room = "\<lambda>_. True"] assms
  by (simp add: no_nonce_yet_def size_consts)

lemma scan_check_fold:
  assumes "no_nonce_yet target work"
  shows "scan_result target (scrypt_meets d target) n c
    (foldl (\<lambda>w l. scrypt_check scrypt_room (scrypt_of d (n + of_nat l)) (n + of_nat l) w) work [0..<c])"
proof (induction c)
  case (Suc c)
  then show ?case using scan_check_room [OF Suc] assms by (simp add: no_nonce_yet_def)
qed (use assms in \<open>simp add: scan_result_empty\<close>)

section \<open>The loops\<close>

definition pads_ok :: "(nat \<Rightarrow> u32 list) \<Rightarrow> bool" where
  "pads_ok pads \<longleftrightarrow> (\<forall>k. pad_words (pads k))"

lemma soa4_body_result:
  assumes "length (sc_buffer fresh) = 64" "pad_words pad" "20 \<le> length d" "no_nonce_yet target work"
  shows "scan_result target (scrypt_meets d target) n 4 (soa4_body arm fresh (sha256d_header d) pad n work)"
proof -
  have hs: "scrypt_core_soa4 arm fresh (soa4_areas pad) (map (\<lambda>x. sha256d_header (d[19 := x])) ns) = map (scrypt_of d) ns"
    if "length ns = 4" for ns
    using scrypt_soa4_rfc [OF assms(1) length_areas(3,4) [OF assms(2)], of "map (\<lambda>x. sha256d_header (d[19 := x])) ns"] that
      with_nonce_header(2) [of "d[19 := _]"] assms(3) by (simp add: scrypt_of_def Let_def)
  have "soa4_body arm fresh (sha256d_header d) pad n work =
    foldl (\<lambda>w l. scrypt_check scrypt_room (scrypt_of d (n + of_nat l)) (n + of_nat l) w) work [0..<4]"
    using hs [of "[n, n + 1, n + 2, n + 3]"] by (simp add: soa4_body_def with_nonce_header [OF assms(3)] upt16)
  then show ?thesis using scan_check_fold [OF assms(4)] by simp
qed

lemma dual_body_result:
  assumes "blockmix_contract f" "length (sc_buffer fresh) = 64" "pad_words pad" "20 \<le> length d" "no_nonce_yet target work"
  shows "scan_result target (scrypt_meets d target) n 2 (dual_body arm fresh f (sha256d_header d) pad n work)"
proof -
  obtain Va Vb where ar: "dual_areas pad = (Va, Vb)" by (cases "dual_areas pad")
  have "dual_body arm fresh f (sha256d_header d) pad n work =
    scrypt_check scrypt_room (scrypt_of d (n + 1)) (n + 1) (scrypt_check (\<lambda>_. True) (scrypt_of d n) n work)"
    using scrypt_dual_rfc [OF assms(1,2)] length_areas(2) [OF assms(3) ar] with_nonce_header(2) [of "d[19 := _]"] assms(4)
    by (simp add: dual_body_def ar with_nonce_header(1) scrypt_of_def Let_def)
  moreover have "scan_result target (scrypt_meets d target) n 2
    (scrypt_check scrypt_room (scrypt_of d (n + 1)) (n + 1) (scrypt_check (\<lambda>_. True) (scrypt_of d n) n work))"
    using scan_check_room [OF scan_check_first [OF assms(5)]] assms(5) by (simp add: no_nonce_yet_def numeral_2_eq_2)
  ultimately show ?thesis by simp
qed

lemma scrypt_loop_result:
  assumes "\<And>k n work. no_nonce_yet target work \<Longrightarrow> scan_result target P n width (body k n work)"
  shows "no_nonce_yet target work \<Longrightarrow>
    scrypt_loop width body stop work n r k = (work', n', r', k') \<Longrightarrow>
    r' \<le> r \<and> n' = n + of_nat (r - r') \<and> scan_result target P n (r - r') work' \<and>
    (work_valid_nonces work' = 0 \<longrightarrow> (\<forall>i. \<not> stop i) \<longrightarrow> 0 < width \<longrightarrow> r' < width)"
proof (induction r arbitrary: work n k rule: less_induct)
  case (less r)
  let ?w = "body k n work"
  have body: "scan_result target P n width ?w" by (rule assms [OF less.prems(1)])
  note loop = less.prems(2) [unfolded scrypt_loop.simps [of width body stop work n r k]]
  consider "width = 0 \<or> r < width \<or> stop k" | "0 < width" "width \<le> r" "\<not> stop k" "work_valid_nonces ?w \<noteq> 0"
    | "0 < width" "width \<le> r" "\<not> stop k" "work_valid_nonces ?w = 0" by force
  then show ?case
  proof cases
    case 1
    then show ?thesis using loop scan_result_empty [OF less.prems(1), of P n] by (auto split: if_splits)
  next
    case 2
    then have "(work', n', r') = (?w, n + of_nat width, r - width)" using loop by (simp add: Let_def)
    then show ?thesis using body 2 by simp
  next
    case 3
    have none: "no_nonce_yet target ?w" using scan_result_none [OF body] 3 less.prems(1) by (simp add: no_nonce_yet_def)
    have rest: "scrypt_loop width body stop ?w (n + of_nat width) (r - width) (Suc k) = (work', n', r', k')"
      using loop 3 by (simp add: Let_def)
    have "r - width < r" using 3 by simp
    from less.IH [OF this none rest] have IH: "r' \<le> r - width" "n' = n + of_nat width + of_nat (r - width - r')"
      "scan_result target P (n + of_nat width) (r - width - r') work'"
      "work_valid_nonces work' = 0 \<longrightarrow> (\<forall>i. \<not> stop i) \<longrightarrow> 0 < width \<longrightarrow> r' < width" by blast+
    have "\<forall>j < width. \<not> P (n + of_nat j)" using body 3 by (simp add: scan_result_def)
    from scan_result_append [OF IH(3) this] have all: "scan_result target P n (width + (r - width - r')) work'" .
    have cnt: "width + (r - width - r') = r - r'" using IH(1) 3 by simp
    then have "n' = n + of_nat (r - r')" using IH(2) by (metis add.assoc of_nat_add)
    then show ?thesis using all cnt IH(1,4) 3 by simp
  qed
qed

lemma soa4_loop_result:
  assumes "length (sc_buffer fresh) = 64" "pads_ok pads" "20 \<le> length d" "no_nonce_yet target work"
    and "scrypt_loop 4 (\<lambda>k. soa4_body arm fresh (sha256d_header d) (pads k)) stop work n r k = (work', n', r', k')"
  shows "r' \<le> r \<and> n' = n + of_nat (r - r') \<and> scan_result target (scrypt_meets d target) n (r - r') work'"
  using scrypt_loop_result [OF _ assms(4,5), of "scrypt_meets d target"] soa4_body_result [OF assms(1) _ assms(3)] assms(2)
  by (simp add: pads_ok_def)

lemma dual_loop_result:
  assumes "blockmix_contract f" "length (sc_buffer fresh) = 64" "pads_ok pads" "20 \<le> length d" "no_nonce_yet target work"
    and "scrypt_loop 2 (\<lambda>k. dual_body arm fresh f (sha256d_header d) (pads k)) stop work n r k = (work', n', r', k')"
  shows "r' \<le> r \<and> n' = n + of_nat (r - r') \<and> scan_result target (scrypt_meets d target) n (r - r') work' \<and>
    (work_valid_nonces work' = 0 \<longrightarrow> (\<forall>i. \<not> stop i) \<longrightarrow> r' < 2)"
  using scrypt_loop_result [OF _ assms(5,6), of "scrypt_meets d target"] dual_body_result [OF assms(1,2) _ assms(4)] assms(3)
  by (simp add: pads_ok_def)

section \<open>The whole scan\<close>

text \<open>Where a scan of \<open>asked\<close> nonces from \<open>first\<close> stands with \<open>r\<close> hashes left.\<close>

definition scan_progress :: "u32 list \<Rightarrow> (u32 \<Rightarrow> bool) \<Rightarrow> u32 \<Rightarrow> nat \<Rightarrow> work \<Rightarrow> u32 \<Rightarrow> nat \<Rightarrow> bool" where
  "scan_progress target P first asked work n r \<longleftrightarrow>
     r \<le> asked \<and> n = first + of_nat (asked - r) \<and> scan_result target P first (asked - r) work"

lemma scan_progress_extend:
  assumes "scan_progress target P first asked work n r" "work_valid_nonces work = 0"
    and "r' \<le> r \<and> n' = n + of_nat (r - r') \<and> scan_result target P n (r - r') work'"
  shows "scan_progress target P first asked work' n' r'"
proof -
  have p: "r \<le> asked" "n = first + of_nat (asked - r)" "\<forall>j < asked - r. \<not> P (first + of_nat j)"
    using assms(1,2) by (simp_all add: scan_progress_def scan_result_def)
  have e: "asked - r + (r - r') = asked - r'" using p(1) assms(3) by simp
  have "scan_result target P first (asked - r + (r - r')) work'"
    using scan_result_append [OF _ p(3), of target "r - r'" work'] assms(3) p(2) by simp
  moreover have "n' = first + of_nat (asked - r + (r - r'))" using assms(3) p(2) by (simp only: of_nat_add add.assoc)
  ultimately show ?thesis using assms(3) p(1) unfolding e scan_progress_def by simp
qed

lemma scanhash_scrypt_result:
  assumes "blockmix_contract f" "length (sc_buffer fresh) = 64" "pads_ok pads"
    and "20 \<le> length (work_data work)" "length (work_target work) = 8" "length (work_nonces work) = MAX_NONCES"
    and scan: "scanhash_scrypt arm fresh f True use_soa4 pads stop max_hashes work = (work', found, hashes_done)"
  shows "\<exists>r. scan_progress (work_target work) (scrypt_meets (work_data work) (work_target work)) (work_data work ! 19)
      (unat max_hashes) work' (work_data work ! 19 + of_nat (unat max_hashes - r)) r \<and>
    hashes_done = ucast (of_nat (unat max_hashes - r) :: u32) \<and> found = unat (work_valid_nonces work') \<and>
    (found = 0 \<longrightarrow> (\<forall>i. \<not> stop i) \<longrightarrow> r = 0)"
proof -
  let ?d = "work_data work" and ?t = "work_target work" and ?N = "unat max_hashes"
  let ?P = "scrypt_meets ?d ?t" and ?h = "sha256d_header ?d" and ?w0 = "work\<lparr>work_valid_nonces := 0\<rparr>"
  let ?prog = "scan_progress ?t ?P (?d ! 19) ?N"
  have pad: "pad_words (pads k)" for k using assms(3) by (simp add: pads_ok_def)
  have w0: "no_nonce_yet ?t ?w0" using assms(5,6) by (simp add: no_nonce_yet_def)
  then have p0: "?prog ?w0 (?d ! 19) ?N" by (simp add: scan_progress_def scan_result_empty)
  have none: "no_nonce_yet ?t wk" if "?prog wk n r" "work_valid_nonces wk = 0" for wk n r
    using scan_result_none [of ?t ?P "?d ! 19" "?N - r" wk] that assms(5) by (simp add: scan_progress_def)
  obtain w1 n1 r1 k1 where s1: "(if use_soa4 then scrypt_loop 4 (\<lambda>k. soa4_body arm fresh ?h (pads k)) stop ?w0 (?d ! 19) ?N 0
      else (?w0, ?d ! 19, ?N, 0)) = (w1, n1, r1, k1)" by (metis prod_cases4)
  have p1: "?prog w1 n1 r1"
  proof (cases use_soa4)
    case True
    then have "scrypt_loop 4 (\<lambda>k. soa4_body arm fresh ?h (pads k)) stop ?w0 (?d ! 19) ?N 0 = (w1, n1, r1, k1)" using s1 by simp
    from soa4_loop_result [OF assms(2,3,4) w0 this] show ?thesis by (intro scan_progress_extend [OF p0]) simp_all
  qed (use s1 p0 in simp)
  obtain w2 n2 r2 k2 where s2: "(if work_valid_nonces w1 = 0
      then scrypt_loop 2 (\<lambda>k. dual_body arm fresh f ?h (pads k)) stop w1 n1 r1 k1 else (w1, n1, r1, k1)) = (w2, n2, r2, k2)"
    by (metis prod_cases4)
  have p2: "?prog w2 n2 r2" "work_valid_nonces w2 = 0 \<longrightarrow> (\<forall>i. \<not> stop i) \<longrightarrow> r2 < 2"
  proof (atomize (full), cases "work_valid_nonces w1 = 0")
    case True
    with s2 have "scrypt_loop 2 (\<lambda>k. dual_body arm fresh f ?h (pads k)) stop w1 n1 r1 k1 = (w2, n2, r2, k2)" by simp
    from dual_loop_result [OF assms(1-4) none [OF p1 True] this] show "?prog w2 n2 r2 \<and> (work_valid_nonces w2 = 0 \<longrightarrow> (\<forall>i. \<not> stop i) \<longrightarrow> r2 < 2)"
      using scan_progress_extend [OF p1 True] by simp
  qed (use s2 p1 in auto)
  let ?last = "0 < r2 \<and> \<not> stop k2 \<and> work_valid_nonces w2 = 0"
  let ?single = "scrypt_1024_1_1_256 arm fresh f (single_area (pads k2)) (with_nonce ?h n2)"
  have single: "?single = scrypt_of ?d n2"
    using scrypt_single_rfc [OF assms(1,2) length_areas(1) [OF pad]] with_nonce_header(2) [of "?d[19 := n2]"] assms(4)
    by (simp add: with_nonce_header(1) scrypt_of_def Let_def)
  define w3 where "w3 = (if ?last then scrypt_check (\<lambda>_. True) ?single n2 w2 else w2)"
  define r3 where "r3 = (if ?last then r2 - 1 else r2)"
  define n3 where "n3 = (if ?last then n2 + 1 else n2)"
  have p3: "?prog w3 n3 r3"
  proof (cases ?last)
    case True
    then show ?thesis
      using scan_progress_extend [OF p2(1), of r3 n3 w3] scan_check_first [OF none [OF p2(1)], of ?d n2]
      by (simp add: w3_def r3_def n3_def single)
  qed (use p2(1) in \<open>auto simp: w3_def r3_def n3_def\<close>)
  have res: "work' = w3\<lparr>work_data := (work_data w3)[19 := n3]\<rparr>" "found = unat (work_valid_nonces w3)" "hashes_done = ucast (n3 - ?d ! 19)"
    using scan s1 s2 by (auto simp: scanhash_scrypt_def Let_def w3_def n3_def split: if_splits)
  have fin: "found = 0 \<longrightarrow> (\<forall>i. \<not> stop i) \<longrightarrow> r3 = 0"
    using p2(2) res(2) by (auto simp: r3_def w3_def unat_eq_zero split: if_splits)
  show ?thesis
    using p3 fin res by (intro exI [of _ r3]) (simp add: scan_progress_def scan_result_def)
qed


definition scrypt_witness_scan :: "work \<times> nat \<times> u64" where
  "scrypt_witness_scan = scanhash_scrypt True \<lparr>sc_state = [], sc_count = 0, sc_buffer = replicate 64 0\<rparr> blockmix_by_salsa True True
     (\<lambda>k. replicate 131200 (of_nat k)) (\<lambda>_. False) 5 (zero_work\<lparr>work_target := replicate 8 0xFFFFFFFF\<rparr>)"


section \<open>The scan as a back end of a worker\<close>

definition scrypt_backend :: "bool \<Rightarrow> sha256_neon_ctx \<Rightarrow> blockmix_fn \<Rightarrow> (nat \<Rightarrow> bool) \<Rightarrow> bool \<Rightarrow> (nat \<Rightarrow> u32 list) \<Rightarrow> (nat \<Rightarrow> bool) \<Rightarrow> 'j backend" where
  "scrypt_backend arm fresh f scratchpad use_soa4 pads stop thread_id work count w =
     (case scanhash_scrypt arm fresh f (scratchpad thread_id) use_soa4 pads stop count work of
        (work', found, hashes_done) \<Rightarrow> (w, work', found, hashes_done))"

definition same_job :: "work \<Rightarrow> work \<Rightarrow> bool" where
  "same_job work work' \<longleftrightarrow> work_restart_generation work' = work_restart_generation work \<and> work_pooln work' = work_pooln work"

lemma scrypt_check_same [simp]: "same_job work (scrypt_check room h n work') \<longleftrightarrow> same_job work work'"
  by (simp add: same_job_def scrypt_check_def scrypt_record_share_def Let_def)

lemma check_fold_same: "same_job work (foldl (\<lambda>w l. scrypt_check room (h l) (m l) w) work' ls) \<longleftrightarrow> same_job work work'"
  by (induction ls arbitrary: work') simp_all

lemma bodies_same [simp]:
  "same_job work (soa4_body arm fresh header pad n work') \<longleftrightarrow> same_job work work'"
  "same_job work (dual_body arm fresh f header pad n work') \<longleftrightarrow> same_job work work'"
  unfolding soa4_body_def dual_body_def Let_def by (simp_all add: check_fold_same split: prod.split)

lemma scrypt_loop_frame:
  assumes "\<And>k n w. same_job work w \<Longrightarrow> same_job work (body k n w)" "same_job work work0"
    and "scrypt_loop width body stop work0 n r k = (work', n', r', k')"
  shows "r' \<le> r \<and> n' = n + of_nat (r - r') \<and> same_job work work'"
  using assms(2,3)
proof (induction r arbitrary: work0 n k rule: less_induct)
  case (less r)
  note loop = less.prems(2) [unfolded scrypt_loop.simps [of width body stop work0 n r k]]
  show ?case
  proof (cases "width = 0 \<or> r < width \<or> stop k \<or> work_valid_nonces (body k n work0) \<noteq> 0")
    case True
    then show ?thesis using loop less.prems(1) assms(1) by (auto simp: Let_def split: if_splits)
  next
    case False
    then have "r - width < r" "scrypt_loop width body stop (body k n work0) (n + of_nat width) (r - width) (Suc k) = (work', n', r', k')"
      using loop by (simp_all add: Let_def)
    from less.IH [OF this(1) assms(1) [OF less.prems(1)] this(2)]
    have IH: "r' \<le> r - width" "n' = n + of_nat width + of_nat (r - width - r')" "same_job work work'" by blast+
    have "width + (r - width - r') = r - r'" using IH(1) False by linarith
    then show ?thesis using IH by (metis add.assoc diff_le_self le_trans of_nat_add)
  qed
qed

lemma scanhash_scrypt_frame:
  assumes "scanhash_scrypt arm fresh f scratchpad use_soa4 pads stop max_hashes work = (work', found, hashes_done)"
  shows "hashes_done \<le> ucast max_hashes \<and> same_job work work'"
proof (cases scratchpad)
  case True
  let ?d = "work_data work" and ?N = "unat max_hashes"
  let ?h = "sha256d_header ?d" and ?w0 = "work\<lparr>work_valid_nonces := 0\<rparr>"
  obtain w1 n1 r1 k1 where s1: "(if use_soa4 then scrypt_loop 4 (\<lambda>k. soa4_body arm fresh ?h (pads k)) stop ?w0 (?d ! 19) ?N 0
      else (?w0, ?d ! 19, ?N, 0)) = (w1, n1, r1, k1)" by (metis prod_cases4)
  obtain w2 n2 r2 k2 where s2: "(if work_valid_nonces w1 = 0
      then scrypt_loop 2 (\<lambda>k. dual_body arm fresh f ?h (pads k)) stop w1 n1 r1 k1 else (w1, n1, r1, k1)) = (w2, n2, r2, k2)"
    by (metis prod_cases4)
  have f1: "r1 \<le> ?N" "n1 = ?d ! 19 + of_nat (?N - r1)" "same_job work w1"
    using s1 scrypt_loop_frame [of work "\<lambda>k. soa4_body arm fresh ?h (pads k)" ?w0 4 stop "?d ! 19" ?N 0 w1 n1 r1 k1]
    by (auto simp: same_job_def [of work ?w0] split: if_splits)
  have f2: "r2 \<le> r1" "n2 = n1 + of_nat (r1 - r2)" "same_job work w2"
    using s2 f1(3) scrypt_loop_frame [of work "\<lambda>k. dual_body arm fresh f ?h (pads k)" w1 2 stop n1 r1 k1 w2 n2 r2 k2]
    by (auto split: if_splits)
  define c where "c = ?N - r2 + (if 0 < r2 \<and> \<not> stop k2 \<and> work_valid_nonces w2 = 0 then 1 else 0)"
  have n2: "n2 = ?d ! 19 + of_nat (?N - r2)"
  proof -
    have "?N - r2 = (?N - r1) + (r1 - r2)" using f1(1) f2(1) by simp
    then show ?thesis using f1(2) f2(2) by (simp only: of_nat_add add.assoc)
  qed
  have c: "c \<le> ?N" using f1(1) f2(1) by (auto simp: c_def)
  have "hashes_done = ucast (of_nat c :: u32) \<and> same_job work work'"
    using assms s1 s2 f2(3) True n2 by (auto simp: scanhash_scrypt_def Let_def c_def same_job_def scrypt_check_def scrypt_record_share_def
        split: if_splits)
  moreover have "c < 2 ^ 32" using c unat_u32_less [of max_hashes] by simp
  ultimately show ?thesis using c by (simp add: word_le_nat_alt unat_ucast_u64 unat_of_nat)
qed (use assms in \<open>simp add: scanhash_scrypt_def same_job_def\<close>)

interpretation scrypt_scan: hash_backend "scrypt_backend arm fresh f scratchpad use_soa4 pads stop" "\<lambda>_. True"
  for arm fresh f scratchpad use_soa4 pads stop
  by unfold_locales (auto simp: scrypt_backend_def same_job_def dest!: scanhash_scrypt_frame split: prod.splits)

section \<open>The self-test\<close>

text \<open>
  The self-test compares the paths with each other; with a BlockMix that does what it documents the
  comparisons pass, and only the two tests on the value of the hash can fail.
\<close>

lemma length_test_header [simp]: "length scrypt_test_header = 80"
  by (simp add: scrypt_test_header_def)

lemma scrypt_selftest_paths:
  assumes "blockmix_contract f" "length (sc_buffer fresh) = 64" "pads_ok pads"
  shows "scrypt_selftest arm fresh f True pads \<in> {0, -3, -7}"
proof -
  have pad: "pad_words (pads k)" for k using assms(3) by (simp add: pads_ok_def)
  have single: "scrypt_core arm fresh f (single_area (pads k)) h h 1024 32 = rfc_scrypt h h 1024 32" if "length h = 80" for k h
    using scrypt_single_rfc [OF assms(1,2) length_areas(1) [OF pad] that] by (simp only: scrypt_1024_1_1_256_def)
  have dual: "(case dual_areas (pads k) of (Va, Vb) \<Rightarrow> case scrypt_1024_1_1_256_dual arm fresh f Va Vb a b of (x, y) \<Rightarrow> g x y) =
    g (rfc_scrypt a a 1024 32) (rfc_scrypt b b 1024 32)" if "length a = 80" "length b = 80" for k a b and g :: "bytes \<Rightarrow> bytes \<Rightarrow> int"
    using scrypt_dual_rfc [OF assms(1,2) _ _ that] length_areas(2) [OF pad] by (auto split: prod.split)
  have four: "find (\<lambda>l. scrypt_core arm fresh f (single_area (pads (5 + l))) (hs ! l) (hs ! l) 1024 32 \<noteq>
      scrypt_core_soa4 arm fresh (soa4_areas (pads 4)) hs ! l) [0..<4] = None" if "length hs = 4" "\<forall>h \<in> set hs. length h = 80" for hs
    using that single scrypt_soa4_rfc [OF assms(2) length_areas(3,4) [OF pad] that] by (auto simp: find_None_iff)
  have hs: "length (map (\<lambda>l. scrypt_test_header[76 := of_nat l]) [0..<4]) = 4"
    "\<forall>h \<in> set (map (\<lambda>l. scrypt_test_header[76 := of_nat l]) [0..<4]). length h = 80" by auto
  show ?thesis
    by (simp add: scrypt_selftest_def Let_def single dual four [OF hs])
qed

end
