(* ===== verification/Neon.thy ===== *)
theory Neon
  imports Bytes
begin

text \<open>
  The 128-bit vectors of the Verus code and the NEON, AES and PMULL instructions it uses on them
  (\<open>include/haraka_native.h\<close>, \<open>include/clhash_native.h\<close>). A vector is a \<^typ>\<open>128 word\<close> whose lanes are
  numbered from the least significant end, which is the order of the bytes in memory. The
  instructions follow the Arm architecture: AESE adds the round key, permutes the rows and
  substitutes the bytes; AESMC mixes the columns; PMULL multiplies polynomials over GF(2);
  SQRDMULH is the saturating rounding doubling multiplication.
\<close>

type_synonym v128 = "128 word"

section \<open>Lanes\<close>

definition lane :: "v128 \<Rightarrow> nat \<Rightarrow> 'b::len word" where
  "lane v i = ucast (drop_bit (i * LENGTH('b)) v)"

definition of_lanes :: "'b::len word list \<Rightarrow> v128" where
  "of_lanes xs = word_rcat (rev xs)"

lemma bit_lane [bit_simps]: "bit (lane v i :: 'b::len word) n \<longleftrightarrow> n < LENGTH('b) \<and> bit v (i * LENGTH('b) + n)"
  by (auto simp: lane_def bit_simps add.commute)

lemma bit_of_lanes [bit_simps]:
  "bit (of_lanes (xs :: 'b::len word list)) n \<longleftrightarrow>
   n < 128 \<and> n div LENGTH('b) < length xs \<and> bit (xs ! (n div LENGTH('b))) (n mod LENGTH('b))"
  by (auto simp: of_lanes_def word_rcat_def bit_word_of_int_iff bit_horner_sum_uint_exp_iff)

lemma lane_of_lanes:
  assumes "i < length xs" "length xs * LENGTH('b::len) \<le> 128"
  shows "(lane (of_lanes xs) i :: 'b word) = xs ! i"
proof (rule bit_word_eqI)
  fix n assume n: "n < LENGTH('b)"
  have "i * LENGTH('b) + n < Suc i * LENGTH('b)" using n by simp
  also have "\<dots> \<le> length xs * LENGTH('b)" using assms(1) by (intro mult_le_mono1) simp
  also have "\<dots> \<le> 128" by (rule assms(2))
  finally show "bit (lane (of_lanes xs) i :: 'b word) n \<longleftrightarrow> bit (xs ! i) n"
    using n assms(1) by (simp add: bit_simps)
qed

lemma lane_xor [simp]: "(lane (a XOR b) i :: 'b::len word) = lane a i XOR lane b i"
  by (rule bit_word_eqI) (simp add: bit_simps)

lemma v128_eq_lanes:
  assumes "\<And>i. i * LENGTH('b::len) < 128 \<Longrightarrow> (lane a i :: 'b word) = lane b i"
  shows "a = b"
proof (rule bit_word_eqI)
  fix n assume "n < LENGTH(128)"
  then have "n div LENGTH('b) * LENGTH('b) < 128" by (intro le_less_trans [OF div_times_less_eq_dividend]) simp
  then have "bit (lane a (n div LENGTH('b)) :: 'b word) (n mod LENGTH('b)) =
      bit (lane b (n div LENGTH('b)) :: 'b word) (n mod LENGTH('b))" using assms by simp
  then show "bit a n = bit b n" by (simp add: bit_simps)
qed

lemma v128_eq_lanes32:
  assumes "(lane a 0 :: u32) = lane b 0" "(lane a 1 :: u32) = lane b 1"
    "(lane a 2 :: u32) = lane b 2" "(lane a 3 :: u32) = lane b 3"
  shows "a = b"
proof (rule v128_eq_lanes [where 'b = 32])
  fix i :: nat assume "i * LENGTH(32) < 128"
  then have "i < 4" by simp
  then consider "i = 0" | "i = 1" | "i = 2" | "i = 3" by linarith
  then show "(lane a i :: u32) = lane b i" using assms by cases simp_all
qed

section \<open>Loads, stores and permutations\<close>

definition vld1q_u8 :: "bytes \<Rightarrow> v128" where
  "vld1q_u8 p = of_lanes (take 16 p)"

definition vst1q_u8 :: "v128 \<Rightarrow> bytes" where
  "vst1q_u8 v = map (lane v) [0..<16]"

definition vzip1q_u32 :: "v128 \<Rightarrow> v128 \<Rightarrow> v128" where
  "vzip1q_u32 a b = of_lanes [lane a 0, lane b 0, lane a 1, lane b 1 :: u32]"

definition vzip2q_u32 :: "v128 \<Rightarrow> v128 \<Rightarrow> v128" where
  "vzip2q_u32 a b = of_lanes [lane a 2, lane b 2, lane a 3, lane b 3 :: u32]"

definition vcopyq_laneq_s32 :: "v128 \<Rightarrow> nat \<Rightarrow> v128 \<Rightarrow> nat \<Rightarrow> v128" where
  "vcopyq_laneq_s32 a i b j = of_lanes ((map (lane a) [0..<4])[i := lane b j :: u32])"

definition vdupq_n_u64 :: "u64 \<Rightarrow> v128" where
  "vdupq_n_u64 x = of_lanes [x, x]"

definition vcombine_u64 :: "u64 \<Rightarrow> u64 \<Rightarrow> v128" where
  "vcombine_u64 lo hi = of_lanes [lo, hi]"

lemma length_vst1q_u8 [simp]: "length (vst1q_u8 v) = 16"
  by (simp add: vst1q_u8_def)

lemma vld1q_vst1q [simp]: "vld1q_u8 (vst1q_u8 v @ r) = v"
  by (rule v128_eq_lanes [where 'b = 8]) (simp add: vld1q_u8_def vst1q_u8_def lane_of_lanes)

lemma vst1q_vld1q:
  assumes "16 \<le> length p"
  shows "vst1q_u8 (vld1q_u8 p) = take 16 p"
  using assms by (intro nth_equalityI) (simp_all add: vld1q_u8_def vst1q_u8_def lane_of_lanes)

lemma lanes_of_zip [simp]:
  "(lane (vzip1q_u32 a b) 0 :: u32) = lane a 0" "(lane (vzip1q_u32 a b) (Suc 0) :: u32) = lane b 0"
  "(lane (vzip1q_u32 a b) 2 :: u32) = lane a 1" "(lane (vzip1q_u32 a b) 3 :: u32) = lane b 1"
  "(lane (vzip2q_u32 a b) 0 :: u32) = lane a 2" "(lane (vzip2q_u32 a b) (Suc 0) :: u32) = lane b 2"
  "(lane (vzip2q_u32 a b) 2 :: u32) = lane a 3" "(lane (vzip2q_u32 a b) 3 :: u32) = lane b 3"
  by (simp_all add: vzip1q_u32_def vzip2q_u32_def lane_of_lanes)

lemma lane_vcopyq [simp]:
  "k < 4 \<Longrightarrow> i < 4 \<Longrightarrow> (lane (vcopyq_laneq_s32 a i b j) k :: u32) = (if k = i then lane b j else lane a k)"
  by (simp add: vcopyq_laneq_s32_def lane_of_lanes nth_list_update)

lemma lanes_vdupq [simp]: "lane (vdupq_n_u64 x) 0 = x" "lane (vdupq_n_u64 x) (Suc 0) = x"
  by (simp_all add: vdupq_n_u64_def lane_of_lanes)

lemma lanes_vcombine [simp]: "lane (vcombine_u64 lo hi) 0 = lo" "lane (vcombine_u64 lo hi) (Suc 0) = hi"
  by (simp_all add: vcombine_u64_def lane_of_lanes)

section \<open>The AES instructions\<close>

text \<open>Multiplication in GF(256) modulo the AES polynomial, and the substitution box from its inverse.\<close>

definition xtime :: "u8 \<Rightarrow> u8" where
  "xtime x = (if bit x 7 then push_bit 1 x XOR 0x1b else push_bit 1 x)"

fun gf256_mul :: "nat \<Rightarrow> u8 \<Rightarrow> u8 \<Rightarrow> u8" where
  "gf256_mul 0 a b = 0"
| "gf256_mul (Suc n) a b = (if bit b 0 then a else 0) XOR gf256_mul n (xtime a) (drop_bit 1 b)"

text \<open>The inverse of \<open>x\<close> is \<open>x\<close> to the power 254.\<close>

definition gf256_inverse :: "u8 \<Rightarrow> u8" where
  "gf256_inverse x =
     (let mul = gf256_mul 8;
          x2 = mul x x; x4 = mul x2 x2; x8 = mul x4 x4; x16 = mul x8 x8;
          x32 = mul x16 x16; x64 = mul x32 x32; x128 = mul x64 x64
      in mul x2 (mul x4 (mul x8 (mul x16 (mul x32 (mul x64 x128))))))"

definition rotl8 :: "nat \<Rightarrow> u8 \<Rightarrow> u8" where
  "rotl8 k x = push_bit k x OR drop_bit (8 - k) x"

definition aes_sbox :: "u8 \<Rightarrow> u8" where
  "aes_sbox x = (let y = gf256_inverse x in y XOR rotl8 1 y XOR rotl8 2 y XOR rotl8 3 y XOR rotl8 4 y XOR 0x63)"

definition vaeseq_u8 :: "v128 \<Rightarrow> v128 \<Rightarrow> v128" where
  "vaeseq_u8 state key =
     (let x = state XOR key
      in of_lanes (map (\<lambda>i. aes_sbox (lane x (i mod 4 + 4 * ((i div 4 + i mod 4) mod 4)))) [0..<16]))"

definition aes_mix_column :: "u8 \<Rightarrow> u8 \<Rightarrow> u8 \<Rightarrow> u8 \<Rightarrow> u8 list" where
  "aes_mix_column a b c d =
     [xtime a XOR (xtime b XOR b) XOR c XOR d, a XOR xtime b XOR (xtime c XOR c) XOR d,
      a XOR b XOR xtime c XOR (xtime d XOR d), (xtime a XOR a) XOR b XOR c XOR xtime d]"

definition vaesmcq_u8 :: "v128 \<Rightarrow> v128" where
  "vaesmcq_u8 v =
     of_lanes (concat (map (\<lambda>c. aes_mix_column (lane v (4 * c)) (lane v (4 * c + 1)) (lane v (4 * c + 2)) (lane v (4 * c + 3)))
                           [0..<4]))"

definition aes_encrypt_round_native :: "v128 \<Rightarrow> v128 \<Rightarrow> v128" where
  "aes_encrypt_round_native state round_key = vaesmcq_u8 (vaeseq_u8 state 0) XOR round_key"

text \<open>AESE adds its key first, so a round key can be folded into the next round.\<close>

lemma vaeseq_key: "vaeseq_u8 state key = vaeseq_u8 (state XOR key) 0"
  by (simp add: vaeseq_u8_def)

section \<open>Polynomial multiplication and the rounding multiplication\<close>

definition vmull_p64 :: "u64 \<Rightarrow> u64 \<Rightarrow> v128" where
  "vmull_p64 a b = fold (\<lambda>i acc. if bit b i then acc XOR push_bit i (ucast a) else acc) [0..<64] 0"

definition sqrdmulh :: "u16 \<Rightarrow> u16 \<Rightarrow> u16" where
  "sqrdmulh a b = word_of_int (max (- 32768) (min 32767 ((2 * sint a * sint b + 32768) div 65536)))"

definition vqrdmulhq_s16 :: "v128 \<Rightarrow> v128 \<Rightarrow> v128" where
  "vqrdmulhq_s16 a b = of_lanes (map (\<lambda>i. sqrdmulh (lane a i) (lane b i)) [0..<8])"

text \<open>TBL: an index of 16 or more gives zero.\<close>

definition vqtbl1q_s8 :: "bytes \<Rightarrow> v128 \<Rightarrow> v128" where
  "vqtbl1q_s8 t idx = of_lanes (map (\<lambda>i. let k = unat (lane idx i :: u8) in if k < 16 then t ! k else 0) [0..<16])"

lemma vmull_p64_add: "vmull_p64 (a XOR c) b = vmull_p64 a b XOR vmull_p64 c b"
proof -
  have "fold (\<lambda>i acc. if bit b i then acc XOR push_bit i (ucast (a XOR c)) else acc) is (x XOR y) =
      fold (\<lambda>i acc. if bit b i then acc XOR push_bit i (ucast a) else acc) is x XOR
      (fold (\<lambda>i acc. if bit b i then acc XOR push_bit i (ucast c) else acc) is y :: v128)" for "is" x y
  proof (induction "is" arbitrary: x y)
    case (Cons i "is")
    have "(x XOR y) XOR push_bit i (ucast (a XOR c)) = (x XOR push_bit i (ucast a)) XOR (y XOR push_bit i (ucast c) :: v128)"
      by (rule bit_word_eqI) (auto simp: bit_simps)
    then have "(if bit b i then (x XOR y) XOR push_bit i (ucast (a XOR c)) else x XOR y) =
        (if bit b i then x XOR push_bit i (ucast a) else x) XOR (if bit b i then y XOR push_bit i (ucast c) else y :: v128)"
      by simp
    then show ?case unfolding fold.simps o_apply by (simp only: Cons.IH)
  qed simp
  from this [of "[0..<64]" 0 0] show ?thesis by (simp add: vmull_p64_def)
qed

end
