(* ===== verification/Haraka.thy ===== *)
theory Haraka
  imports Neon "HOL-Library.Monad_Syntax"
begin

text \<open>
  Haraka v2 as \<open>src/algorithm/haraka_native.c\<close> computes it: the 256-bit and the 512-bit permutation with
  fixed round constants, and the two keyed finalizers of VerusHash, the full one and the truncated
  one that produces only word 7 of the hash. The key is read through a pointer into the CLHash key
  buffer; a read past the end of the vectors behind that pointer is \<^const>\<open>None\<close>. Both forms of the
  truncated mixing network are modelled, the zip network and the lane copies.
\<close>

section \<open>Constants\<close>

definition haraka_rc :: "bytes list" where
  "haraka_rc =
    [[0x9d, 0x7b, 0x81, 0x75, 0xf0, 0xfe, 0xc5, 0xb2, 0x0a, 0xc0, 0x20, 0xe6, 0x4c, 0x70, 0x84, 0x06],
     [0x17, 0xf7, 0x08, 0x2f, 0xa4, 0x6b, 0x0f, 0x64, 0x6b, 0xa0, 0xf3, 0x88, 0xe1, 0xb4, 0x66, 0x8b],
     [0x14, 0x91, 0x02, 0x9f, 0x60, 0x9d, 0x02, 0xcf, 0x98, 0x84, 0xf2, 0x53, 0x2d, 0xde, 0x02, 0x34],
     [0x79, 0x4f, 0x5b, 0xfd, 0xaf, 0xbc, 0xf3, 0xbb, 0x08, 0x4f, 0x7b, 0x2e, 0xe6, 0xea, 0xd6, 0x0e],
     [0x44, 0x70, 0x39, 0xbe, 0x1c, 0xcd, 0xee, 0x79, 0x8b, 0x44, 0x72, 0x48, 0xcb, 0xb0, 0xcf, 0xcb],
     [0x7b, 0x05, 0x8a, 0x2b, 0xed, 0x35, 0x53, 0x8d, 0xb7, 0x32, 0x90, 0x6e, 0xee, 0xcd, 0xea, 0x7e],
     [0x1b, 0xef, 0x4f, 0xda, 0x61, 0x27, 0x41, 0xe2, 0xd0, 0x7c, 0x2e, 0x5e, 0x43, 0x8f, 0xc2, 0x67],
     [0x3b, 0x0b, 0xc7, 0x1f, 0xe2, 0xfd, 0x5f, 0x67, 0x07, 0xcc, 0xca, 0xaf, 0xb0, 0xd9, 0x24, 0x29],
     [0xee, 0x65, 0xd4, 0xb9, 0xca, 0x8f, 0xdb, 0xec, 0xe9, 0x7f, 0x86, 0xe6, 0xf1, 0x63, 0x4d, 0xab],
     [0x33, 0x7e, 0x03, 0xad, 0x4f, 0x40, 0x2a, 0x5b, 0x64, 0xcd, 0xb7, 0xd4, 0x84, 0xbf, 0x30, 0x1c],
     [0x00, 0x98, 0xf6, 0x8d, 0x2e, 0x8b, 0x02, 0x69, 0xbf, 0x23, 0x17, 0x94, 0xb9, 0x0b, 0xcc, 0xb2],
     [0x8a, 0x2d, 0x9d, 0x5c, 0xc8, 0x9e, 0xaa, 0x4a, 0x72, 0x55, 0x6f, 0xde, 0xa6, 0x78, 0x04, 0xfa],
     [0xd4, 0x9f, 0x12, 0x29, 0x2e, 0x4f, 0xfa, 0x0e, 0x12, 0x2a, 0x77, 0x6b, 0x2b, 0x9f, 0xb4, 0xdf],
     [0xee, 0x12, 0x6a, 0xbb, 0xae, 0x11, 0xd6, 0x32, 0x36, 0xa2, 0x49, 0xf4, 0x44, 0x03, 0xa1, 0x1e],
     [0xa6, 0xec, 0xa8, 0x9c, 0xc9, 0x00, 0x96, 0x5f, 0x84, 0x00, 0x05, 0x4b, 0x88, 0x49, 0x04, 0xaf],
     [0xec, 0x93, 0xe5, 0x27, 0xe3, 0xc7, 0xa2, 0x78, 0x4f, 0x9c, 0x19, 0x9d, 0xd8, 0x5e, 0x02, 0x21],
     [0x73, 0x01, 0xd4, 0x82, 0xcd, 0x2e, 0x28, 0xb9, 0xb7, 0xc9, 0x59, 0xa7, 0xf8, 0xaa, 0x3a, 0xbf],
     [0x6b, 0x7d, 0x30, 0x10, 0xd9, 0xef, 0xf2, 0x37, 0x17, 0xb0, 0x86, 0x61, 0x0d, 0x70, 0x60, 0x62],
     [0xc6, 0x9a, 0xfc, 0xf6, 0x53, 0x91, 0xc2, 0x81, 0x43, 0x04, 0x30, 0x21, 0xc2, 0x45, 0xca, 0x5a],
     [0x3a, 0x94, 0xd1, 0x36, 0xe8, 0x92, 0xaf, 0x2c, 0xbb, 0x68, 0x6b, 0x22, 0x3c, 0x97, 0x23, 0x92],
     [0xb4, 0x71, 0x10, 0xe5, 0x58, 0xb9, 0xba, 0x6c, 0xeb, 0x86, 0x58, 0x22, 0x38, 0x92, 0xbf, 0xd3],
     [0x8d, 0x12, 0xe1, 0x24, 0xdd, 0xfd, 0x3d, 0x93, 0x77, 0xc6, 0xf0, 0xae, 0xe5, 0x3c, 0x86, 0xdb],
     [0xb1, 0x12, 0x22, 0xcb, 0xe3, 0x8d, 0xe4, 0x83, 0x9c, 0xa0, 0xeb, 0xff, 0x68, 0x62, 0x60, 0xbb],
     [0x7d, 0xf7, 0x2b, 0xc7, 0x4e, 0x1a, 0xb9, 0x2d, 0x9c, 0xd1, 0xe4, 0xe2, 0xdc, 0xd3, 0x4b, 0x73],
     [0x4e, 0x92, 0xb3, 0x2c, 0xc4, 0x15, 0x14, 0x4b, 0x43, 0x1b, 0x30, 0x61, 0xc3, 0x47, 0xbb, 0x43],
     [0x99, 0x68, 0xeb, 0x16, 0xdd, 0x31, 0xb2, 0x03, 0xf6, 0xef, 0x07, 0xe7, 0xa8, 0x75, 0xa7, 0xdb],
     [0x2c, 0x47, 0xca, 0x7e, 0x02, 0x23, 0x5e, 0x8e, 0x77, 0x59, 0x75, 0x3c, 0x4b, 0x61, 0xf3, 0x6d],
     [0xf9, 0x17, 0x86, 0xb8, 0xb9, 0xe5, 0x1b, 0x6d, 0x77, 0x7d, 0xde, 0xd6, 0x17, 0x5a, 0xa7, 0xcd],
     [0x5d, 0xee, 0x46, 0xa9, 0x9d, 0x06, 0x6c, 0x9d, 0xaa, 0xe9, 0xa8, 0x6b, 0xf0, 0x43, 0x6b, 0xec],
     [0xc1, 0x27, 0xf3, 0x3b, 0x59, 0x11, 0x53, 0xa2, 0x2b, 0x33, 0x57, 0xf9, 0x50, 0x69, 0x1e, 0xcb],
     [0xd9, 0xd0, 0x0e, 0x60, 0x53, 0x03, 0xed, 0xe4, 0x9c, 0x61, 0xda, 0x00, 0x75, 0x0c, 0xee, 0x2c],
     [0x50, 0xa3, 0xa4, 0x63, 0xbc, 0xba, 0xbb, 0x80, 0xab, 0x0c, 0xe9, 0x96, 0xa1, 0xa5, 0xb1, 0xf0],
     [0x39, 0xca, 0x8d, 0x93, 0x30, 0xde, 0x0d, 0xab, 0x88, 0x29, 0x96, 0x5e, 0x02, 0xb1, 0x3d, 0xae],
     [0x42, 0xb4, 0x75, 0x2e, 0xa8, 0xf3, 0x14, 0x88, 0x0b, 0xa4, 0x54, 0xd5, 0x38, 0x8f, 0xbb, 0x17],
     [0xf6, 0x16, 0x0a, 0x36, 0x79, 0xb7, 0xb6, 0xae, 0xd7, 0x7f, 0x42, 0x5f, 0x5b, 0x8a, 0xbb, 0x34],
     [0xde, 0xaf, 0xba, 0xff, 0x18, 0x59, 0xce, 0x43, 0x38, 0x54, 0xe5, 0xcb, 0x41, 0x52, 0xf6, 0x26],
     [0x78, 0xc9, 0x9e, 0x83, 0xf7, 0x9c, 0xca, 0xa2, 0x6a, 0x02, 0xf3, 0xb9, 0x54, 0x9a, 0xe9, 0x4c],
     [0x35, 0x12, 0x90, 0x22, 0x28, 0x6e, 0xc0, 0x40, 0xbe, 0xf7, 0xdf, 0x1b, 0x1a, 0xa5, 0x51, 0xae],
     [0xcf, 0x59, 0xa6, 0x48, 0x0f, 0xbc, 0x73, 0xc1, 0x2b, 0xd2, 0x7e, 0xba, 0x3c, 0x61, 0xc1, 0xa0],
     [0xa1, 0x9d, 0xc5, 0xe9, 0xfd, 0xbd, 0xd6, 0x4a, 0x88, 0x82, 0x28, 0x02, 0x03, 0xcc, 0x6a, 0x75]]"

definition load_constants_native :: "v128 list" where
  "load_constants_native = map vld1q_u8 haraka_rc"

lemma length_haraka_rc [simp]: "length haraka_rc = 40" "length load_constants_native = 40"
  by (simp_all add: haraka_rc_def load_constants_native_def)

section \<open>The fixed-key functions\<close>

definition unpack_lo_epi32_native :: "v128 \<Rightarrow> v128 \<Rightarrow> v128" where
  "unpack_lo_epi32_native a b = vzip1q_u32 a b"

definition unpack_hi_epi32_native :: "v128 \<Rightarrow> v128 \<Rightarrow> v128" where
  "unpack_hi_epi32_native a b = vzip2q_u32 a b"

lemmas unpack_defs = unpack_lo_epi32_native_def unpack_hi_epi32_native_def

definition haraka256_round :: "v128 list \<Rightarrow> nat \<Rightarrow> v128 \<times> v128 \<Rightarrow> v128 \<times> v128" where
  "haraka256_round rc_native i s =
     (let (s0, s1) = fold (\<lambda>j (s0, s1). (aes_encrypt_round_native s0 (rc_native ! (2 * 2 * i + 2 * j)),
                                         aes_encrypt_round_native s1 (rc_native ! (2 * 2 * i + 2 * j + 1)))) [0..<2] s;
          tmp = unpack_lo_epi32_native s0 s1;
          s1 = unpack_hi_epi32_native s0 s1
      in (tmp, s1))"

definition haraka256_native :: "v128 list \<Rightarrow> bytes \<Rightarrow> bytes" where
  "haraka256_native rc_native in_bytes =
     (let (s0, s1) = fold (haraka256_round rc_native) [0..<5] (vld1q_u8 in_bytes, vld1q_u8 (drop 16 in_bytes));
          s0 = s0 XOR vld1q_u8 in_bytes;
          s1 = s1 XOR vld1q_u8 (drop 16 in_bytes)
      in vst1q_u8 s0 @ vst1q_u8 s1)"

type_synonym haraka_state = "v128 \<times> v128 \<times> v128 \<times> v128"

text \<open>A key vector read through a pointer to the vectors \<open>rc\<close>.\<close>

definition vec_at :: "v128 list \<Rightarrow> nat \<Rightarrow> v128 option" where
  "vec_at rc i = (if i < length rc then Some (rc ! i) else None)"

lemma vec_at_Some [simp]: "i < length rc \<Longrightarrow> vec_at rc i = Some (rc ! i)"
  by (simp add: vec_at_def)

definition haraka512_aes :: "v128 list \<Rightarrow> nat \<Rightarrow> haraka_state \<Rightarrow> haraka_state option" where
  "haraka512_aes rc b s =
     (let (s0, s1, s2, s3) = s in do {
        k0 \<leftarrow> vec_at rc b;
        k1 \<leftarrow> vec_at rc (b + 1);
        k2 \<leftarrow> vec_at rc (b + 2);
        k3 \<leftarrow> vec_at rc (b + 3);
        Some (aes_encrypt_round_native s0 k0, aes_encrypt_round_native s1 k1,
              aes_encrypt_round_native s2 k2, aes_encrypt_round_native s3 k3)
      })"

definition haraka512_mix :: "haraka_state \<Rightarrow> haraka_state" where
  "haraka512_mix s =
     (let (s0, s1, s2, s3) = s;
          tmp = unpack_lo_epi32_native s0 s1;
          s0 = unpack_hi_epi32_native s0 s1;
          s1 = unpack_lo_epi32_native s2 s3;
          s2 = unpack_hi_epi32_native s2 s3;
          s3 = unpack_lo_epi32_native s0 s2;
          s0 = unpack_hi_epi32_native s0 s2;
          s2 = unpack_hi_epi32_native s1 tmp;
          s1 = unpack_lo_epi32_native s1 tmp
      in (s0, s1, s2, s3))"

text \<open>The rounds \<open>i, \<dots>, 4\<close>, two AES layers and one mixing layer each.\<close>

fun haraka512_rounds :: "v128 list \<Rightarrow> nat list \<Rightarrow> haraka_state \<Rightarrow> haraka_state option" where
  "haraka512_rounds rc [] s = Some s"
| "haraka512_rounds rc (i # rounds) s = do {
     s1 \<leftarrow> haraka512_aes rc (4 * 2 * i) s;
     s2 \<leftarrow> haraka512_aes rc (4 * 2 * i + 4) s1;
     haraka512_rounds rc rounds (haraka512_mix s2)
   }"

definition load_state :: "bytes \<Rightarrow> haraka_state" where
  "load_state p = (vld1q_u8 p, vld1q_u8 (drop 16 p), vld1q_u8 (drop 32 p), vld1q_u8 (drop 48 p))"

definition haraka512_perm_native :: "v128 list \<Rightarrow> bytes \<Rightarrow> bytes option" where
  "haraka512_perm_native rc in_bytes = do {
     (s0, s1, s2, s3) \<leftarrow> haraka512_rounds rc [0..<5] (load_state in_bytes);
     Some (vst1q_u8 s0 @ vst1q_u8 s1 @ vst1q_u8 s2 @ vst1q_u8 s3)
   }"

text \<open>The feed-forward and the selection of 32 of the 64 bytes.\<close>

definition feed_forward :: "bytes \<Rightarrow> bytes \<Rightarrow> bytes" where
  "feed_forward buf in_bytes = map (\<lambda>i. buf ! i XOR in_bytes ! i) [0..<64]"

definition truncated_output :: "bytes \<Rightarrow> bytes" where
  "truncated_output buf = take 8 (drop 8 buf) @ take 8 (drop 24 buf) @ take 8 (drop 32 buf) @ take 8 (drop 48 buf)"

definition haraka512_native :: "v128 list \<Rightarrow> bytes \<Rightarrow> bytes option" where
  "haraka512_native rc_native in_bytes = do {
     buf \<leftarrow> haraka512_perm_native rc_native in_bytes;
     Some (truncated_output (feed_forward buf in_bytes))
   }"

section \<open>The keyed finalizers\<close>

definition haraka512_keyed_full_native :: "bytes \<Rightarrow> v128 list \<Rightarrow> bytes option" where
  "haraka512_keyed_full_native in_bytes rc = do {
     (s0, s1, s2, s3) \<leftarrow> haraka512_rounds rc [0..<5] (load_state in_bytes);
     let buf = vst1q_u8 s0 @ vst1q_u8 s1 @ vst1q_u8 s2 @ vst1q_u8 s3;
     Some (truncated_output (feed_forward buf in_bytes))
   }"

definition AES4_NATIVE :: "v128 list \<Rightarrow> nat \<Rightarrow> haraka_state \<Rightarrow> haraka_state option" where
  "AES4_NATIVE rc rci s =
     (let (s0, s1, s2, s3) = s in do {
        k0 \<leftarrow> vec_at rc rci;
        k1 \<leftarrow> vec_at rc (rci + 1);
        k2 \<leftarrow> vec_at rc (rci + 2);
        k3 \<leftarrow> vec_at rc (rci + 3);
        k4 \<leftarrow> vec_at rc (rci + 4);
        k5 \<leftarrow> vec_at rc (rci + 5);
        k6 \<leftarrow> vec_at rc (rci + 6);
        k7 \<leftarrow> vec_at rc (rci + 7);
        Some (aes_encrypt_round_native (aes_encrypt_round_native s0 k0) k4,
              aes_encrypt_round_native (aes_encrypt_round_native s1 k1) k5,
              aes_encrypt_round_native (aes_encrypt_round_native s2 k2) k6,
              aes_encrypt_round_native (aes_encrypt_round_native s3 k3) k7)
      })"

text \<open>Only the third vector of the last AES layer reaches the output.\<close>

definition AES4_LAST_NATIVE :: "v128 list \<Rightarrow> nat \<Rightarrow> v128 \<Rightarrow> v128 option" where
  "AES4_LAST_NATIVE rc rci s2 = do {
     k2 \<leftarrow> vec_at rc (rci + 2);
     k6 \<leftarrow> vec_at rc (rci + 6);
     Some (aes_encrypt_round_native (aes_encrypt_round_native s2 k2) k6)
   }"

definition MIX4_ZIP_BODY :: "haraka_state \<Rightarrow> haraka_state" where
  "MIX4_ZIP_BODY s =
     (let (s0, s1, s2, s3) = s;
          t = unpack_lo_epi32_native s0 s1;
          a = unpack_hi_epi32_native s0 s1;
          b = unpack_lo_epi32_native s2 s3;
          c = unpack_hi_epi32_native s2 s3
      in (unpack_hi_epi32_native a c, unpack_lo_epi32_native b t, unpack_hi_epi32_native b t, unpack_lo_epi32_native a c))"

text \<open>The same networks by lane copies into vectors that start out with the contents \<open>d\<close>.\<close>

definition copy4 :: "v128 \<Rightarrow> v128 \<times> nat \<Rightarrow> v128 \<times> nat \<Rightarrow> v128 \<times> nat \<Rightarrow> v128 \<times> nat \<Rightarrow> v128" where
  "copy4 d a b c e =
     vcopyq_laneq_s32 (vcopyq_laneq_s32 (vcopyq_laneq_s32 (vcopyq_laneq_s32 d 0 (fst a) (snd a)) 1 (fst b) (snd b))
       2 (fst c) (snd c)) 3 (fst e) (snd e)"

definition MIX4_COPY_BODY :: "haraka_state \<Rightarrow> haraka_state \<Rightarrow> haraka_state" where
  "MIX4_COPY_BODY d s =
     (let (d0, d1, d2, d3) = d; (s0, s1, s2, s3) = s
      in (copy4 d0 (s0, 3) (s2, 3) (s1, 3) (s3, 3), copy4 d1 (s2, 0) (s0, 0) (s3, 0) (s1, 0),
          copy4 d2 (s2, 1) (s0, 1) (s3, 1) (s1, 1), copy4 d3 (s0, 2) (s2, 2) (s1, 2) (s3, 2)))"

definition MIX4_NATIVE :: "bool \<Rightarrow> haraka_state \<Rightarrow> haraka_state \<Rightarrow> haraka_state" where
  "MIX4_NATIVE use_zip d s = (if use_zip then MIX4_ZIP_BODY s else MIX4_COPY_BODY d s)"

text \<open>\<open>MIX4_LAST\<close>: only \<open>val[2]\<close> is used afterwards.\<close>

definition MIX4_LAST_NATIVE :: "bool \<Rightarrow> haraka_state \<Rightarrow> haraka_state \<Rightarrow> v128" where
  "MIX4_LAST_NATIVE use_zip d s =
     (let (d0, d1, d2, d3) = d; (s0, s1, s2, s3) = s
      in if use_zip then unpack_hi_epi32_native (unpack_lo_epi32_native s2 s3) (unpack_lo_epi32_native s0 s1)
         else copy4 d2 (s2, 1) (s0, 1) (s3, 1) (s1, 1))"

text \<open>
  \<open>use_zip\<close> is \<open>PRIMO_HARAKA_MIX4_ZIP\<close>; \<open>n\<close> holds what the uninitialised vectors contain. The words of \<open>out\<close>
  other than word 7 are left as they are.
\<close>

definition haraka512_keyed_native :: "bool \<Rightarrow> haraka_state \<Rightarrow> bytes \<Rightarrow> bytes \<Rightarrow> v128 list \<Rightarrow> bytes option" where
  "haraka512_keyed_native use_zip n out in_bytes rc = do {
     s \<leftarrow> AES4_NATIVE rc 0 (load_state in_bytes);
     n \<leftarrow> AES4_NATIVE rc 8 (MIX4_NATIVE use_zip n s);
     s \<leftarrow> AES4_NATIVE rc 16 (MIX4_NATIVE use_zip s n);
     n \<leftarrow> AES4_NATIVE rc 24 (MIX4_NATIVE use_zip n s);
     s2 \<leftarrow> AES4_LAST_NATIVE rc 32 (MIX4_LAST_NATIVE use_zip s n);
     Some (memcpy out 28 (le32enc (lane s2 2 XOR le32dec (drop 52 in_bytes))))
   }"

section \<open>The truncated finalizer computes word 7 of the full one\<close>

lemma copy4_lanes [simp]:
  "(lane (copy4 d a b c e) 0 :: u32) = lane (fst a) (snd a)" "(lane (copy4 d a b c e) (Suc 0) :: u32) = lane (fst b) (snd b)"
  "(lane (copy4 d a b c e) 2 :: u32) = lane (fst c) (snd c)" "(lane (copy4 d a b c e) 3 :: u32) = lane (fst e) (snd e)"
  by (simp_all add: copy4_def)

lemma MIX4_is_mix: "MIX4_NATIVE use_zip d s = haraka512_mix s"
  by (cases s; cases d)
    (auto simp: MIX4_NATIVE_def MIX4_ZIP_BODY_def MIX4_COPY_BODY_def haraka512_mix_def unpack_defs Let_def intro!: v128_eq_lanes32)

lemma MIX4_LAST_is_mix: "MIX4_LAST_NATIVE use_zip d s = fst (snd (snd (haraka512_mix s)))"
  by (cases s; cases d)
    (auto simp: MIX4_LAST_NATIVE_def haraka512_mix_def unpack_defs Let_def intro!: v128_eq_lanes32)

lemma AES4_is_two_layers: "AES4_NATIVE rc rci s = do { s1 \<leftarrow> haraka512_aes rc rci s; haraka512_aes rc (rci + 4) s1 }"
  by (cases s) (auto simp: AES4_NATIVE_def haraka512_aes_def vec_at_def Let_def add.commute)

lemma haraka512_aes_Some:
  assumes "b + 3 < length rc"
  shows "\<exists>s'. haraka512_aes rc b s = Some s'"
  using assms by (cases s) (simp add: haraka512_aes_def Let_def)

lemma le32enc_lane: "le32enc (lane v k) = map (lane v) [4 * k ..< 4 * k + 4]"
proof -
  have "ucast (drop_bit (8 * i) (lane v k :: u32)) = (lane v (4 * k + i) :: u8)" if "i < 4" for i
    by (rule bit_word_eqI) (use that in \<open>auto simp: bit_simps algebra_simps\<close>)
  from this [of 0] this [of 1] this [of 2] this [of 3]
  show ?thesis by (simp add: le32enc_def ucast_and_ff upt_rec numeral_eq_Suc)
qed

lemma le32enc_xor: "le32enc (a XOR b) = map2 (XOR) (le32enc a) (le32enc b)"
  by (simp add: le32enc_def ucast_and_ff) (auto simp: bit_simps intro!: bit_word_eqI)

lemma length_haraka_output [simp]: "length (truncated_output (feed_forward buf p)) = 32"
  by (simp add: truncated_output_def feed_forward_def)

text \<open>Bytes 28 to 31 of the output are word 1 of the last vector, added to bytes 52 to 55 of the input.\<close>

lemma output_word_7:
  assumes "length p = 64"
  shows "drop 28 (truncated_output (feed_forward (vst1q_u8 s0 @ vst1q_u8 s1 @ vst1q_u8 s2 @ vst1q_u8 s3) p)) =
    le32enc (lane s3 1 XOR le32dec (drop 52 p))"
proof -
  let ?buf = "vst1q_u8 s0 @ vst1q_u8 s1 @ vst1q_u8 s2 @ vst1q_u8 s3"
  have "drop 28 (truncated_output (feed_forward ?buf p)) = map (\<lambda>i. ?buf ! i XOR p ! i) [52..<56]"
    by (rule nth_equalityI) (simp_all add: truncated_output_def feed_forward_def nth_append del: upt_rec_numeral)
  also have "\<dots> = map2 (XOR) (map (lane s3) [4 ..< 8]) (take 4 (drop 52 p))"
    using assms by (intro nth_equalityI) (simp_all add: nth_append vst1q_u8_def del: upt_rec_numeral)
  also have "take 4 (drop 52 p) = le32enc (le32dec (drop 52 p))"
    using le32enc_dec [of "take 4 (drop 52 p)"] assms by (simp add: le32dec_def)
  finally show ?thesis using le32enc_lane [of s3 1] by (simp add: le32enc_xor)
qed

lemma haraka512_rounds_Some:
  "\<forall>i \<in> set rounds. 8 * i + 7 < length rc \<Longrightarrow> \<exists>s'. haraka512_rounds rc rounds s = Some s'"
proof (induction rounds arbitrary: s)
  case (Cons i rounds)
  from Cons.prems have i: "8 * i + 3 < length rc" "8 * i + 4 + 3 < length rc" by auto
  obtain s1 where "haraka512_aes rc (8 * i) s = Some s1" using haraka512_aes_Some [OF i(1)] by blast
  moreover obtain s2 where "haraka512_aes rc (8 * i + 4) s1 = Some s2" using haraka512_aes_Some [OF i(2)] by blast
  ultimately show ?case using Cons.IH [of "haraka512_mix s2"] Cons.prems by simp
qed (simp only: haraka512_rounds.simps(1), blast)

lemma rounds_by_AES4: "haraka512_rounds rc (i # rounds) s = do { s \<leftarrow> AES4_NATIVE rc (8 * i) s; haraka512_rounds rc rounds (haraka512_mix s) }"
  by (simp add: AES4_is_two_layers)

lemma AES4_third:
  "AES4_NATIVE rc b (s0, s1, s2, s3) = Some (t0, t1, t2, t3) \<Longrightarrow> AES4_LAST_NATIVE rc b s2 = Some t2"
  by (auto simp: AES4_NATIVE_def AES4_LAST_NATIVE_def Let_def bind_eq_Some_conv)

lemma mix_output_lane: "(lane (snd (snd (snd (haraka512_mix (s0, s1, s2, s3))))) (Suc 0) :: u32) = lane s2 2"
  by (simp add: haraka512_mix_def unpack_defs Let_def)

lemma keyed_finalizers_agree:
  assumes "length p = 64" "40 \<le> length rc"
  obtains full where "haraka512_keyed_full_native p rc = Some full" "length full = 32"
    "\<And>use_zip n out. haraka512_keyed_native use_zip n out p rc = Some (memcpy out 28 (drop 28 full))"
proof -
  obtain s where "haraka512_rounds rc [0..<5] (load_state p) = Some s"
    using haraka512_rounds_Some [of "[0..<5]" rc "load_state p"] assms(2) by fastforce
  moreover have five: "[0..<5] = [0, 1, 2, 3, 4 :: nat]" by (simp add: upt_rec)
  ultimately obtain a b c d e where r: "AES4_NATIVE rc 0 (load_state p) = Some a" "AES4_NATIVE rc 8 (haraka512_mix a) = Some b"
    "AES4_NATIVE rc 16 (haraka512_mix b) = Some c" "AES4_NATIVE rc 24 (haraka512_mix c) = Some d"
    "AES4_NATIVE rc 32 (haraka512_mix d) = Some e" "s = haraka512_mix e"
    and s: "haraka512_rounds rc [0..<5] (load_state p) = Some (haraka512_mix e)"
    unfolding five rounds_by_AES4 by (auto simp: bind_eq_Some_conv simp del: haraka512_rounds.simps(2))
  obtain e0 e1 e2 e3 where e: "e = (e0, e1, e2, e3)" by (cases e)
  obtain s0 s1 s2 s3 where m: "haraka512_mix e = (s0, s1, s2, s3)" by (cases "haraka512_mix e")
  let ?full = "truncated_output (feed_forward (vst1q_u8 s0 @ vst1q_u8 s1 @ vst1q_u8 s2 @ vst1q_u8 s3) p)"
  have last: "AES4_LAST_NATIVE rc 32 (fst (snd (snd (haraka512_mix d)))) = Some e2"
    using r(5) AES4_third [of rc 32] unfolding e by (metis prod.collapse)
  have "(lane s3 1 :: u32) = lane e2 2" using mix_output_lane [of e0 e1 e2 e3] m by (simp add: e)
  then have "le32enc (lane e2 2 XOR le32dec (drop 52 p)) = drop 28 ?full" using output_word_7 [OF assms(1)] by simp
  then have "haraka512_keyed_native use_zip n out p rc = Some (memcpy out 28 (drop 28 ?full))" for use_zip n out
    using r last by (simp add: haraka512_keyed_native_def MIX4_is_mix MIX4_LAST_is_mix)
  moreover have "haraka512_keyed_full_native p rc = Some ?full" by (simp add: haraka512_keyed_full_native_def s m)
  ultimately show ?thesis using that by simp
qed

text \<open>
  The truncated keyed Haraka computes word 7 of the full one. For a 64-byte input and at least 40 key
  vectors, both finalizers stay inside the key; the truncated one leaves the first 28 bytes of the
  output alone and writes into the last four exactly the last four of the full hash, whatever the
  uninitialised vectors held, and with the zip network as with the lane copies. The comparison the
  scan makes on every candidate therefore never drops a share.
\<close>

lemma truncated_haraka_is_word_7:
  assumes "length p = 64" "40 \<le> length rc" "length out = 32"
  shows "\<exists>full. haraka512_keyed_full_native p rc = Some full \<and> length full = 32 \<and>
    haraka512_keyed_native use_zip n out p rc = Some (take 28 out @ drop 28 full)"
proof -
  obtain full where f: "haraka512_keyed_full_native p rc = Some full" "length full = 32"
    "\<And>use_zip n out. haraka512_keyed_native use_zip n out p rc = Some (memcpy out 28 (drop 28 full))"
    using keyed_finalizers_agree [OF assms(1,2)] by blast
  then show ?thesis using assms(3) by (simp add: memcpy_def)
qed

end
