(* ===== verification/Clhash.thy ===== *)
theory Clhash
  imports Haraka "HOL-Library.Signed_Division"
begin

text \<open>
  CLHash as \<open>src/algorithm/clhash_native.c\<close> and \<open>include/clhash_native.h\<close> compute it: the eight case bodies,
  the 32 iterations that rewrite two vectors of the key each and journal what they overwrite, the
  two-nonce variants with separate and with fused dispatch, and the reduction to 64 bits. A read or
  a write outside a buffer and an undefined signed remainder are \<^const>\<open>None\<close>. The macros that select
  the assembly helpers are the fields of a build record; the two builds of the repository are \<open>asm_build\<close> and
  \<open>noasm_build\<close>.
\<close>

section \<open>Helpers\<close>

record clhash_build =
  ASM_AES_MIX2 :: bool
  ASM_CASE18_CLMUL :: bool
  ASM_XOR_LOW32 :: bool
  ASM_CASE18_FIXEDCOUNT :: bool
  ASM_CASE18_MASK_PTRS :: bool

definition asm_build :: clhash_build where
  "asm_build = \<lparr>ASM_AES_MIX2 = True, ASM_CASE18_CLMUL = True, ASM_XOR_LOW32 = True, ASM_CASE18_FIXEDCOUNT = True,
                ASM_CASE18_MASK_PTRS = True\<rparr>"

definition noasm_build :: clhash_build where
  "noasm_build = \<lparr>ASM_AES_MIX2 = False, ASM_CASE18_CLMUL = False, ASM_XOR_LOW32 = False, ASM_CASE18_FIXEDCOUNT = False,
                  ASM_CASE18_MASK_PTRS = False\<rparr>"

definition vec_put :: "v128 list \<Rightarrow> nat \<Rightarrow> v128 \<Rightarrow> v128 list option" where
  "vec_put key i v = (if i < length key then Some (key[i := v]) else None)"

lemma vec_put_Some [simp]: "i < length key \<Longrightarrow> vec_put key i v = Some (key[i := v])"
  by (simp add: vec_put_def)

definition vsetq_lane_u32 :: "u32 \<Rightarrow> v128 \<Rightarrow> nat \<Rightarrow> v128" where
  "vsetq_lane_u32 x v i = of_lanes ((map (lane v) [0..<4])[i := x])"

text \<open>The selector argument of the source is not used by it.\<close>

definition clmul_native :: "v128 \<Rightarrow> v128 \<Rightarrow> v128" where
  "clmul_native a b = vmull_p64 (lane a 1) (lane b 0)"

definition reduction_table :: bytes where
  "reduction_table = [0, 27, 54, 45, 108, 119, 90, 65, 216, 195, 238, 245, 180, 175, 130, 153]"

definition precompReduction64_native :: "v128 \<Rightarrow> u64" where
  "precompReduction64_native A =
     (let C = vcombine_u64 0x1B 0;
          Q2 = clmul_native A C;
          Q2_shifted = vcombine_u64 (lane Q2 1) 0;
          idx_masked = Q2_shifted AND of_lanes (replicate 16 (0x8F :: u8));
          Q3 = vqtbl1q_s8 reduction_table idx_masked;
          Q4 = Q2 XOR A;
          final = Q3 XOR Q4
      in lane final 0)"

definition aes_rounds_4_native :: "v128 \<Rightarrow> v128 \<Rightarrow> v128 list \<Rightarrow> nat \<Rightarrow> (v128 \<times> v128) option" where
  "aes_rounds_4_native temp1 temp2 rc round_block = do {
     let rk = drop (4 * round_block) rc;
     k0 \<leftarrow> vec_at rk 0;
     k1 \<leftarrow> vec_at rk 1;
     k2 \<leftarrow> vec_at rk 2;
     k3 \<leftarrow> vec_at rk 3;
     Some (aes_encrypt_round_native (aes_encrypt_round_native temp1 k0) k2,
           aes_encrypt_round_native (aes_encrypt_round_native temp2 k1) k3)
   }"

definition mix2_emu_simple_native :: "v128 \<times> v128 \<Rightarrow> v128 \<times> v128" where
  "mix2_emu_simple_native t = (vzip1q_u32 (fst t) (snd t), vzip2q_u32 (fst t) (snd t))"

definition aes_rounds_4_mix2_xor_native_asm :: "clhash_build \<Rightarrow> v128 \<Rightarrow> v128 \<Rightarrow> v128 list \<Rightarrow> v128 option" where
  "aes_rounds_4_mix2_xor_native_asm build temp1 temp2 rk =
     (if ASM_AES_MIX2 build then do {
        k0 \<leftarrow> vec_at rk 0;
        k1 \<leftarrow> vec_at rk 1;
        let s0 = vaesmcq_u8 (vaeseq_u8 temp1 0);
        let s1 = vaesmcq_u8 (vaeseq_u8 temp2 0);
        let s0 = vaesmcq_u8 (vaeseq_u8 s0 k0);
        k2 \<leftarrow> vec_at rk 2;
        k3 \<leftarrow> vec_at rk 3;
        let s1 = vaesmcq_u8 (vaeseq_u8 s1 k1);
        let s0 = s0 XOR k2;
        let s1 = s1 XOR k3;
        let t = vzip2q_u32 s0 s1;
        let s0 = vzip1q_u32 s0 s1;
        Some (s0 XOR t)
      } else do {
        t \<leftarrow> aes_rounds_4_native temp1 temp2 rk 0;
        let t = mix2_emu_simple_native t;
        Some (fst t XOR snd t)
      })"

text \<open>In the assembly, UMOV reads and INS writes lane 0.\<close>

definition xor_low32_lane_native_asm :: "clhash_build \<Rightarrow> v128 \<Rightarrow> u32 \<Rightarrow> v128" where
  "xor_low32_lane_native_asm build acc x =
     (if ASM_XOR_LOW32 build then let t = lane acc 0; t = t XOR x in vsetq_lane_u32 t acc 0
      else vsetq_lane_u32 (lane acc 0 XOR x) acc 0)"

text \<open>The new accumulator and the new key.\<close>

definition case18_clmul_mulhrs_xor_native_asm :: "clhash_build \<Rightarrow> v128 \<Rightarrow> v128 \<Rightarrow> v128 \<Rightarrow> v128 \<times> v128" where
  "case18_clmul_mulhrs_xor_native_asm build acc onekey temp =
     (if ASM_CASE18_CLMUL build then
        let k = onekey XOR temp;
            t = vdupq_n_u64 (lane k 0);
            k = vmull_p64 (lane k 1) (lane t 1);
            t = vqrdmulhq_s16 acc k
        in (acc XOR t, k)
      else
        let add1 = onekey XOR temp;
            onekey = clmul_native add1 add1
        in (vqrdmulhq_s16 acc onekey XOR acc, onekey))"

text \<open>
  \<open>(int32_t)(dividend % divisor)\<close> with a 64-bit signed dividend and a 32-bit signed divisor: undefined for
  a zero divisor and for the quotient that does not fit.
\<close>

definition c_rem :: "u64 \<Rightarrow> u32 \<Rightarrow> u32 option" where
  "c_rem dividend divisor =
     (if sint divisor = 0 \<or> (sint dividend = - (2 ^ 63) \<and> sint divisor = - 1) then None
      else Some (word_of_int (sint dividend smod sint divisor)))"

section \<open>The inner loops of cases 0x14 and 0x18\<close>

text \<open>One round of the inner loop of case 0x18: the key vector at \<open>rc\<close>, and a remainder or a product.\<close>

definition case18_div :: "clhash_build \<Rightarrow> u32 \<Rightarrow> v128 \<Rightarrow> v128 \<Rightarrow> v128 \<Rightarrow> (v128 \<times> v128) option" where
  "case18_div build divisor acc onekey temp2 = do {
     let onekey = onekey XOR temp2;
     modulo_result \<leftarrow> c_rem (lane onekey 0) divisor;
     Some (xor_low32_lane_native_asm build acc modulo_result, onekey)
   }"

text \<open>The loop with the mask and the swapped pointers, \<open>count\<close> iterations of which those with \<open>rounds \<ge> 0\<close> work.\<close>

fun case18_mask_loop ::
  "clhash_build \<Rightarrow> v128 list \<Rightarrow> v128 list \<Rightarrow> u64 \<Rightarrow> nat \<Rightarrow> int \<Rightarrow> nat \<Rightarrow> u64 \<Rightarrow> nat \<Rightarrow> nat \<Rightarrow> v128 \<Rightarrow> v128 \<Rightarrow> (v128 \<times> v128) option" where
  "case18_mask_loop build key pb selector 0 rounds rc bits sel_div sel_cl acc onekey = Some (acc, onekey)"
| "case18_mask_loop build key pb selector (Suc count) rounds rc bits sel_div sel_cl acc onekey =
     (if 0 \<le> rounds then do {
        onekey \<leftarrow> vec_at key rc;
        (acc, onekey) \<leftarrow>
          (if selector AND bits \<noteq> 0 then do {
             temp2 \<leftarrow> vec_at pb sel_div;
             case18_div build (ucast selector) acc onekey temp2
           } else do {
             temp \<leftarrow> vec_at pb sel_cl;
             Some (case18_clmul_mulhrs_xor_native_asm build acc onekey temp)
           });
        case18_mask_loop build key pb selector count (rounds - 1) (rc + 1) (drop_bit 1 bits) sel_cl sel_div acc onekey
      } else case18_mask_loop build key pb selector count rounds rc bits sel_div sel_cl acc onekey)"

text \<open>The body of the two other loops, which compute the pointers and the mask from \<open>rounds\<close>.\<close>

definition case18_round ::
  "clhash_build \<Rightarrow> v128 list \<Rightarrow> v128 list \<Rightarrow> u64 \<Rightarrow> nat \<Rightarrow> nat \<Rightarrow> nat \<Rightarrow> nat \<Rightarrow> v128 \<Rightarrow> (v128 \<times> v128) option" where
  "case18_round build key pb selector pbuf pbsf rounds rc acc = do {
     onekey \<leftarrow> vec_at key rc;
     let sel_div = (if odd rounds then pbuf else pbsf);
     let sel_cl = (if odd rounds then pbsf else pbuf);
     if selector AND push_bit rounds 0x10000000 \<noteq> 0 then do {
       temp2 \<leftarrow> vec_at pb sel_div;
       case18_div build (ucast selector) acc onekey temp2
     } else do {
       temp \<leftarrow> vec_at pb sel_cl;
       Some (case18_clmul_mulhrs_xor_native_asm build acc onekey temp)
     }
   }"

fun case18_fixed_loop ::
  "clhash_build \<Rightarrow> v128 list \<Rightarrow> v128 list \<Rightarrow> u64 \<Rightarrow> nat \<Rightarrow> nat \<Rightarrow> nat \<Rightarrow> int \<Rightarrow> nat \<Rightarrow> v128 \<Rightarrow> v128 \<Rightarrow> (v128 \<times> v128) option" where
  "case18_fixed_loop build key pb selector pbuf pbsf 0 rounds rc acc onekey = Some (acc, onekey)"
| "case18_fixed_loop build key pb selector pbuf pbsf (Suc count) rounds rc acc onekey =
     (if 0 \<le> rounds then do {
        (acc, onekey) \<leftarrow> case18_round build key pb selector pbuf pbsf (nat rounds) rc acc;
        case18_fixed_loop build key pb selector pbuf pbsf count (rounds - 1) (rc + 1) acc onekey
      } else case18_fixed_loop build key pb selector pbuf pbsf count rounds rc acc onekey)"

text \<open>The plain loop; the argument is \<open>rounds + 1\<close>, the iterations left.\<close>

fun case18_plain_loop ::
  "clhash_build \<Rightarrow> v128 list \<Rightarrow> v128 list \<Rightarrow> u64 \<Rightarrow> nat \<Rightarrow> nat \<Rightarrow> nat \<Rightarrow> nat \<Rightarrow> v128 \<Rightarrow> v128 \<Rightarrow> (v128 \<times> v128) option" where
  "case18_plain_loop build key pb selector pbuf pbsf 0 rc acc onekey = Some (acc, onekey)"
| "case18_plain_loop build key pb selector pbuf pbsf (Suc rounds) rc acc onekey = do {
     (acc, onekey) \<leftarrow> case18_round build key pb selector pbuf pbsf rounds rc acc;
     case18_plain_loop build key pb selector pbuf pbsf rounds (rc + 1) acc onekey
   }"

definition case18_inner_loop_native_asm ::
  "clhash_build \<Rightarrow> v128 list \<Rightarrow> v128 list \<Rightarrow> v128 \<Rightarrow> nat \<Rightarrow> nat \<Rightarrow> u64 \<Rightarrow> nat \<Rightarrow> nat \<Rightarrow> (v128 \<times> v128) option" where
  "case18_inner_loop_native_asm build key pb acc rc rounds selector pbuf pbsf =
     (if ASM_CASE18_FIXEDCOUNT build then
        if ASM_CASE18_MASK_PTRS build then
          case18_mask_loop build key pb selector 8 (int rounds) rc (push_bit rounds 0x10000000)
            (if odd rounds then pbuf else pbsf) (if odd rounds then pbsf else pbuf) acc 0
        else case18_fixed_loop build key pb selector pbuf pbsf 8 (int rounds) rc acc 0
      else case18_plain_loop build key pb selector pbuf pbsf (Suc rounds) rc acc 0)"

text \<open>The eight iterations of case 0x14; \<open>rc\<close> has been advanced when the AES keys are read.\<close>

fun case14_loop ::
  "clhash_build \<Rightarrow> v128 list \<Rightarrow> v128 list \<Rightarrow> u64 \<Rightarrow> nat \<Rightarrow> nat \<Rightarrow> nat \<Rightarrow> int \<Rightarrow> nat \<Rightarrow> nat \<Rightarrow> v128 \<Rightarrow> v128 option" where
  "case14_loop build key pb selector pbuf pbsf 0 rounds rc aesround acc = Some acc"
| "case14_loop build key pb selector pbuf pbsf (Suc count) rounds rc aesround acc =
     (if 0 \<le> rounds then do {
        onekey \<leftarrow> vec_at key rc;
        let sel_cl = (if odd rounds then pbuf else pbsf);
        let sel_aes = (if odd rounds then pbsf else pbuf);
        if selector AND push_bit (nat rounds) 0x10000000 \<noteq> 0 then do {
          temp2 \<leftarrow> vec_at pb sel_cl;
          let add1 = onekey XOR temp2;
          let clprod1 = clmul_native add1 add1;
          case14_loop build key pb selector pbuf pbsf count (rounds - 1) (rc + 1) aesround (clprod1 XOR acc)
        } else do {
          temp2 \<leftarrow> vec_at pb sel_aes;
          mixxor \<leftarrow> aes_rounds_4_mix2_xor_native_asm build onekey temp2 (drop (rc + 1 + 4 * aesround) key);
          case14_loop build key pb selector pbuf pbsf count (rounds - 1) (rc + 1) (aesround + 1) (acc XOR mixxor)
        }
      } else case14_loop build key pb selector pbuf pbsf count rounds rc aesround acc)"

section \<open>The case bodies\<close>

text \<open>
  What the case bodies get besides the selector: the positions of the two key slots in the key and of the two
  inputs in the copied buffer \<open>pb\<close>. The slots may coincide, and the loads and stores are in the order
  of the source.
\<close>

record verus_iter_ctx =
  ctx_selector :: u64
  ctx_prand :: nat
  ctx_prandex :: nat
  ctx_pbuf :: nat
  ctx_pbsf :: nat

definition clhash_case_0 :: "v128 \<Rightarrow> verus_iter_ctx \<Rightarrow> v128 list \<Rightarrow> v128 list \<Rightarrow> (v128 \<times> v128 list) option" where
  "clhash_case_0 acc c pb key = do {
     temp1 \<leftarrow> vec_at key (ctx_prandex c);
     temp2 \<leftarrow> vec_at pb (ctx_pbsf c);
     let add1 = temp1 XOR temp2;
     let clprod1 = clmul_native add1 add1;
     let acc = clprod1 XOR acc;
     let tempa1 = vqrdmulhq_s16 acc temp1;
     let tempa2 = tempa1 XOR temp1;
     temp12 \<leftarrow> vec_at key (ctx_prand c);
     key \<leftarrow> vec_put key (ctx_prand c) tempa2;
     temp22 \<leftarrow> vec_at pb (ctx_pbuf c);
     let add12 = temp12 XOR temp22;
     let clprod12 = clmul_native add12 add12;
     let acc = clprod12 XOR acc;
     let tempb1_new = vqrdmulhq_s16 acc temp12;
     key \<leftarrow> vec_put key (ctx_prandex c) (tempb1_new XOR temp12);
     Some (acc, key)
   }"

definition clhash_case_4 :: "v128 \<Rightarrow> verus_iter_ctx \<Rightarrow> v128 list \<Rightarrow> v128 list \<Rightarrow> (v128 \<times> v128 list) option" where
  "clhash_case_4 acc c pb key = do {
     temp1 \<leftarrow> vec_at key (ctx_prand c);
     temp2 \<leftarrow> vec_at pb (ctx_pbuf c);
     let add1 = temp1 XOR temp2;
     let clprod1 = clmul_native add1 add1;
     let acc = clprod1 XOR acc;
     let clprod2 = clmul_native temp2 temp2;
     let acc = clprod2 XOR acc;
     let tempa1 = vqrdmulhq_s16 acc temp1;
     let tempa2 = tempa1 XOR temp1;
     temp12 \<leftarrow> vec_at key (ctx_prandex c);
     key \<leftarrow> vec_put key (ctx_prandex c) tempa2;
     temp22 \<leftarrow> vec_at pb (ctx_pbsf c);
     let add12 = temp12 XOR temp22;
     let acc = add12 XOR acc;
     let tempb1 = vqrdmulhq_s16 acc temp12;
     let tempb2 = tempb1 XOR temp12;
     key \<leftarrow> vec_put key (ctx_prand c) tempb2;
     Some (acc, key)
   }"

definition clhash_case_8 :: "v128 \<Rightarrow> verus_iter_ctx \<Rightarrow> v128 list \<Rightarrow> v128 list \<Rightarrow> (v128 \<times> v128 list) option" where
  "clhash_case_8 acc c pb key = do {
     temp1 \<leftarrow> vec_at key (ctx_prandex c);
     temp2 \<leftarrow> vec_at pb (ctx_pbuf c);
     let add1 = temp1 XOR temp2;
     let acc = add1 XOR acc;
     let tempa1 = vqrdmulhq_s16 acc temp1;
     let tempa2 = tempa1 XOR temp1;
     temp12 \<leftarrow> vec_at key (ctx_prand c);
     key \<leftarrow> vec_put key (ctx_prand c) tempa2;
     temp22 \<leftarrow> vec_at pb (ctx_pbsf c);
     let add12 = temp12 XOR temp22;
     let clprod12 = clmul_native add12 add12;
     let acc = clprod12 XOR acc;
     let clprod22 = clmul_native temp22 temp22;
     let acc = clprod22 XOR acc;
     let tempb1 = vqrdmulhq_s16 acc temp12;
     let tempb2 = tempb1 XOR temp12;
     key \<leftarrow> vec_put key (ctx_prandex c) tempb2;
     Some (acc, key)
   }"

definition clhash_case_c ::
  "clhash_build \<Rightarrow> v128 \<Rightarrow> verus_iter_ctx \<Rightarrow> v128 list \<Rightarrow> v128 list \<Rightarrow> (v128 \<times> v128 list) option" where
  "clhash_case_c build acc c pb key = do {
     temp1 \<leftarrow> vec_at key (ctx_prand c);
     temp2 \<leftarrow> vec_at pb (ctx_pbsf c);
     let add1 = temp1 XOR temp2;
     let divisor = (ucast (ctx_selector c) :: u32);
     let acc = add1 XOR acc;
     let dividend = (lane acc 0 :: u64);
     modulo_result \<leftarrow> c_rem dividend divisor;
     let acc = xor_low32_lane_native_asm build acc modulo_result;
     let tempa1 = vqrdmulhq_s16 acc temp1;
     let tempa2 = tempa1 XOR temp1;
     if bit dividend 0 then do {
       temp12 \<leftarrow> vec_at key (ctx_prandex c);
       key \<leftarrow> vec_put key (ctx_prandex c) tempa2;
       temp22 \<leftarrow> vec_at pb (ctx_pbuf c);
       let add12 = temp12 XOR temp22;
       let clprod12 = clmul_native add12 add12;
       let acc = clprod12 XOR acc;
       let clprod22 = clmul_native temp22 temp22;
       let acc = clprod22 XOR acc;
       let tempb1 = vqrdmulhq_s16 acc temp12;
       let tempb2 = tempb1 XOR temp12;
       key \<leftarrow> vec_put key (ctx_prand c) tempb2;
       Some (acc, key)
     } else do {
       v \<leftarrow> vec_at key (ctx_prandex c);
       key \<leftarrow> vec_put key (ctx_prand c) v;
       key \<leftarrow> vec_put key (ctx_prandex c) tempa2;
       tempb4 \<leftarrow> vec_at pb (ctx_pbuf c);
       let acc = tempb4 XOR acc;
       Some (acc, key)
     }
   }"

text \<open>The stores at the end of cases 0x10 and 0x14.\<close>

definition clhash_store_swapped :: "v128 \<Rightarrow> verus_iter_ctx \<Rightarrow> v128 list \<Rightarrow> (v128 \<times> v128 list) option" where
  "clhash_store_swapped acc c key = do {
     tempa1 \<leftarrow> vec_at key (ctx_prand c);
     let tempa2 = vqrdmulhq_s16 acc tempa1;
     v \<leftarrow> vec_at key (ctx_prandex c);
     key \<leftarrow> vec_put key (ctx_prand c) v;
     key \<leftarrow> vec_put key (ctx_prandex c) (tempa1 XOR tempa2);
     Some (acc, key)
   }"

definition clhash_case_10 :: "v128 \<Rightarrow> verus_iter_ctx \<Rightarrow> v128 list \<Rightarrow> v128 list \<Rightarrow> (v128 \<times> v128 list) option" where
  "clhash_case_10 acc c pb key = do {
     let rc = drop (ctx_prand c) key;
     temp1 \<leftarrow> vec_at pb (ctx_pbsf c);
     temp2 \<leftarrow> vec_at pb (ctx_pbuf c);
     t \<leftarrow> aes_rounds_4_native temp1 temp2 rc 0;
     let t = mix2_emu_simple_native t;
     t \<leftarrow> aes_rounds_4_native (fst t) (snd t) rc 1;
     let t = mix2_emu_simple_native t;
     t \<leftarrow> aes_rounds_4_native (fst t) (snd t) rc 2;
     let t = mix2_emu_simple_native t;
     let acc = acc XOR fst t;
     let acc = acc XOR snd t;
     clhash_store_swapped acc c key
   }"

definition clhash_case_14 ::
  "clhash_build \<Rightarrow> v128 \<Rightarrow> verus_iter_ctx \<Rightarrow> v128 list \<Rightarrow> v128 list \<Rightarrow> (v128 \<times> v128 list) option" where
  "clhash_case_14 build acc c pb key = do {
     let rounds = int (unat (drop_bit 61 (ctx_selector c)));
     acc \<leftarrow> case14_loop build key pb (ctx_selector c) (ctx_pbuf c) (ctx_pbsf c) 8 rounds (ctx_prand c) 0 acc;
     clhash_store_swapped acc c key
   }"

definition clhash_case_18 ::
  "clhash_build \<Rightarrow> v128 \<Rightarrow> verus_iter_ctx \<Rightarrow> v128 list \<Rightarrow> v128 list \<Rightarrow> (v128 \<times> v128 list) option" where
  "clhash_case_18 build acc c pb key = do {
     let rounds = unat (drop_bit 61 (ctx_selector c));
     (acc, onekey) \<leftarrow> case18_inner_loop_native_asm build key pb acc (ctx_prand c) rounds (ctx_selector c)
       (ctx_pbuf c) (ctx_pbsf c);
     tempa3 \<leftarrow> vec_at key (ctx_prandex c);
     let tempa4 = tempa3 XOR acc;
     key \<leftarrow> vec_put key (ctx_prandex c) onekey;
     key \<leftarrow> vec_put key (ctx_prand c) tempa4;
     Some (acc, key)
   }"

definition clhash_case_default :: "v128 \<Rightarrow> verus_iter_ctx \<Rightarrow> v128 list \<Rightarrow> v128 list \<Rightarrow> (v128 \<times> v128 list) option" where
  "clhash_case_default acc c pb key = do {
     temp1 \<leftarrow> vec_at pb (ctx_pbuf c);
     temp2 \<leftarrow> vec_at key (ctx_prandex c);
     let add1 = temp1 XOR temp2;
     let clprod1 = clmul_native add1 add1;
     let acc = clprod1 XOR acc;
     let tempa1 = vqrdmulhq_s16 acc temp2;
     let tempa2 = tempa1 XOR temp2;
     tempa3 \<leftarrow> vec_at key (ctx_prand c);
     key \<leftarrow> vec_put key (ctx_prand c) tempa2;
     let acc = tempa3 XOR acc;
     temp4 \<leftarrow> vec_at pb (ctx_pbsf c);
     let acc = temp4 XOR acc;
     let tempb1 = vqrdmulhq_s16 acc tempa3;
     let tempb2 = tempb1 XOR tempa3;
     key \<leftarrow> vec_put key (ctx_prandex c) tempb2;
     Some (acc, key)
   }"

definition verus_clhash_case ::
  "clhash_build \<Rightarrow> u64 \<Rightarrow> v128 \<Rightarrow> verus_iter_ctx \<Rightarrow> v128 list \<Rightarrow> v128 list \<Rightarrow> (v128 \<times> v128 list) option" where
  "verus_clhash_case build switch_val acc c pb key =
     (if switch_val = 0 then clhash_case_0 acc c pb key
      else if switch_val = 4 then clhash_case_4 acc c pb key
      else if switch_val = 8 then clhash_case_8 acc c pb key
      else if switch_val = 0xc then clhash_case_c build acc c pb key
      else if switch_val = 0x10 then clhash_case_10 acc c pb key
      else if switch_val = 0x14 then clhash_case_14 build acc c pb key
      else if switch_val = 0x18 then clhash_case_18 build acc c pb key
      else clhash_case_default acc c pb key)"

section \<open>The iterations\<close>

text \<open>
  The journal arrays of the callers. A chain is the accumulator, the key and the journal it works on.
\<close>

record clhash_journal =
  fixrand :: "u16 list"
  fixrandex :: "u16 list"
  g_prand :: "v128 list"
  g_prandex :: "v128 list"

type_synonym clhash_chain = "v128 \<times> v128 list \<times> clhash_journal"

definition array_put :: "'a list \<Rightarrow> nat \<Rightarrow> 'a \<Rightarrow> 'a list option" where
  "array_put xs i v = (if i < length xs then Some (xs[i := v]) else None)"

definition verus_clhash_prologue ::
  "v128 \<Rightarrow> v128 list \<Rightarrow> u64 \<Rightarrow> nat \<Rightarrow> clhash_journal \<Rightarrow> (verus_iter_ctx \<times> clhash_journal) option" where
  "verus_clhash_prologue acc randomsource keyMask i j = do {
     let selector = (lane acc 0 :: u64);
     let selector_fudge = (if selector AND 1 \<noteq> 0 then 1 else - 1 :: int);
     let fixrand_val = (ucast (drop_bit 5 selector AND keyMask) :: u16);
     let fixrandex_val = (ucast (drop_bit 32 selector AND keyMask) :: u16);
     slots \<leftarrow> array_put (fixrand j) i fixrand_val;
     mirrors \<leftarrow> array_put (fixrandex j) i fixrandex_val;
     v \<leftarrow> vec_at randomsource (unat fixrand_val);
     saved \<leftarrow> array_put (g_prand j) i v;
     v \<leftarrow> vec_at randomsource (unat fixrandex_val);
     saved_mirror \<leftarrow> array_put (g_prandex j) i v;
     let pbuf_idx = unat (selector AND 3);
     let pbsf_idx = int pbuf_idx - selector_fudge;
     if pbsf_idx < 0 then None
     else Some (\<lparr>ctx_selector = selector, ctx_prand = unat fixrand_val, ctx_prandex = unat fixrandex_val,
                 ctx_pbuf = pbuf_idx, ctx_pbsf = nat pbsf_idx\<rparr>,
                \<lparr>fixrand = slots, fixrandex = mirrors, g_prand = saved, g_prandex = saved_mirror\<rparr>)
   }"

definition verus_clhash_iter :: "clhash_build \<Rightarrow> v128 list \<Rightarrow> u64 \<Rightarrow> nat \<Rightarrow> clhash_chain \<Rightarrow> clhash_chain option" where
  "verus_clhash_iter build pbuf_copy keyMask i ch =
     (let (acc, key, j) = ch in do {
        (c, j) \<leftarrow> verus_clhash_prologue acc key keyMask i j;
        (acc, key) \<leftarrow> verus_clhash_case build (ctx_selector c AND 0x1c) acc c pbuf_copy key;
        Some (acc, key, j)
      })"

fun iterate :: "(nat \<Rightarrow> 's \<Rightarrow> 's option) \<Rightarrow> nat list \<Rightarrow> 's \<Rightarrow> 's option" where
  "iterate f [] s = Some s"
| "iterate f (i # ixs) s = do { s \<leftarrow> f i s; iterate f ixs s }"

text \<open>The 64-byte input as four vectors, and the copy with the first two combined.\<close>

definition pbuf_copy_of :: "bytes \<Rightarrow> v128 list" where
  "pbuf_copy_of buf =
     (let b = map (\<lambda>k. vld1q_u8 (drop (16 * k) buf)) [0..<4]
      in [b ! 0 XOR b ! 2, b ! 1 XOR b ! 3, b ! 2, b ! 3])"

definition verusclmulwithoutreduction64alignedrepeat_port2_2_native ::
  "clhash_build \<Rightarrow> bytes \<Rightarrow> u64 \<Rightarrow> v128 list \<Rightarrow> clhash_journal \<Rightarrow> clhash_chain option" where
  "verusclmulwithoutreduction64alignedrepeat_port2_2_native build buf keyMask randomsource j = do {
     acc \<leftarrow> vec_at randomsource (unat (keyMask + 2));
     iterate (verus_clhash_iter build (pbuf_copy_of buf) keyMask) [0..<32] (acc, randomsource, j)
   }"

definition clhash_fold :: "v128 \<Rightarrow> u64" where
  "clhash_fold acc = precompReduction64_native (acc XOR vcombine_u64 0x10000 0)"

definition verusclhash_port2_2_native ::
  "clhash_build \<Rightarrow> bytes \<Rightarrow> u64 \<Rightarrow> v128 list \<Rightarrow> clhash_journal \<Rightarrow> (u64 \<times> v128 list \<times> clhash_journal) option" where
  "verusclhash_port2_2_native build buf keyMask random j = do {
     (acc, key, j) \<leftarrow> verusclmulwithoutreduction64alignedrepeat_port2_2_native build buf keyMask random j;
     Some (clhash_fold acc, key, j)
   }"

definition x2_step ::
  "clhash_build \<Rightarrow> bytes \<Rightarrow> bytes \<Rightarrow> u64 \<Rightarrow> nat \<Rightarrow> clhash_chain \<times> clhash_chain \<Rightarrow> (clhash_chain \<times> clhash_chain) option" where
  "x2_step build buf1 buf2 keyMask i chs = do {
     ch1 \<leftarrow> verus_clhash_iter build (pbuf_copy_of buf1) keyMask i (fst chs);
     ch2 \<leftarrow> verus_clhash_iter build (pbuf_copy_of buf2) keyMask i (snd chs);
     Some (ch1, ch2)
   }"

type_synonym clhash_x2 =
  "bytes \<Rightarrow> bytes \<Rightarrow> u64 \<Rightarrow> v128 list \<Rightarrow> v128 list \<Rightarrow> clhash_journal \<Rightarrow> clhash_journal \<Rightarrow>
   ((u64 \<times> v128 list \<times> clhash_journal) \<times> (u64 \<times> v128 list \<times> clhash_journal)) option"

definition verusclhash_port2_2_x2_native :: "clhash_build \<Rightarrow> clhash_x2" where
  "verusclhash_port2_2_x2_native build buf1 buf2 keyMask random1 random2 j1 j2 = do {
     acc1 \<leftarrow> vec_at random1 (unat (keyMask + 2));
     acc2 \<leftarrow> vec_at random2 (unat (keyMask + 2));
     ((acc1, key1, j1), (acc2, key2, j2)) \<leftarrow>
       iterate (x2_step build buf1 buf2 keyMask) [0..<32] ((acc1, random1, j1), (acc2, random2, j2));
     Some ((clhash_fold acc1, key1, j1), (clhash_fold acc2, key2, j2))
   }"

text \<open>
  The fused dispatch: the label of a case body is \<open>(I << 3) | J\<close> with \<open>I\<close> and \<open>J\<close> below 8, and the switch has
  no default.
\<close>

definition fused_index :: "u64 \<Rightarrow> u64 \<Rightarrow> u32" where
  "fused_index s1 s2 = ucast (push_bit 1 (s1 AND 0x1c) OR drop_bit 2 (s2 AND 0x1c))"

definition x2f_step ::
  "clhash_build \<Rightarrow> bytes \<Rightarrow> bytes \<Rightarrow> u64 \<Rightarrow> nat \<Rightarrow> clhash_chain \<times> clhash_chain \<Rightarrow> (clhash_chain \<times> clhash_chain) option" where
  "x2f_step build buf1 buf2 keyMask i chs =
     (let ((acc1, key1, j1), (acc2, key2, j2)) = chs in do {
        (c1, j1) \<leftarrow> verus_clhash_prologue acc1 key1 keyMask i j1;
        (c2, j2) \<leftarrow> verus_clhash_prologue acc2 key2 keyMask i j2;
        let fused = fused_index (ctx_selector c1) (ctx_selector c2);
        if fused < 64 then do {
          let I = (ucast (drop_bit 3 fused) :: u64);
          let J = (ucast (take_bit 3 fused) :: u64);
          (acc1, key1) \<leftarrow> verus_clhash_case build (push_bit 2 I) acc1 c1 (pbuf_copy_of buf1) key1;
          (acc2, key2) \<leftarrow> verus_clhash_case build (push_bit 2 J) acc2 c2 (pbuf_copy_of buf2) key2;
          Some ((acc1, key1, j1), (acc2, key2, j2))
        } else Some ((acc1, key1, j1), (acc2, key2, j2))
      })"

definition verusclhash_port2_2_x2f_native :: "clhash_build \<Rightarrow> clhash_x2" where
  "verusclhash_port2_2_x2f_native build buf1 buf2 keyMask random1 random2 j1 j2 = do {
     acc1 \<leftarrow> vec_at random1 (unat (keyMask + 2));
     acc2 \<leftarrow> vec_at random2 (unat (keyMask + 2));
     ((acc1, key1, j1), (acc2, key2, j2)) \<leftarrow>
       iterate (x2f_step build buf1 buf2 keyMask) [0..<32] ((acc1, random1, j1), (acc2, random2, j2));
     Some ((clhash_fold acc1, key1, j1), (clhash_fold acc2, key2, j2))
   }"

end
