(* ===== verification/Clhash_Laws.thy ===== *)
theory Clhash_Laws
  imports Clhash
begin

text \<open>
  What the variants of CLHash promise: every build computes the same hash, the two-nonce variants
  compute two single hashes, no access leaves its buffer and no remainder is undefined, a hash only
  writes the slots it journals, and undoing the journal backwards gives the key back. The
  reduction is the remainder modulo the field polynomial.
\<close>

section \<open>The assembly helpers compute what the portable ones do\<close>

text \<open>The round key of the first round is folded into the second one.\<close>

lemma two_aes_rounds:
  "aes_encrypt_round_native (aes_encrypt_round_native t k) k' = vaesmcq_u8 (vaeseq_u8 (vaesmcq_u8 (vaeseq_u8 t 0)) k) XOR k'"
  by (simp add: aes_encrypt_round_native_def vaeseq_key [of _ k])

lemma aes_mix2_build: "aes_rounds_4_mix2_xor_native_asm build t1 t2 rk = aes_rounds_4_mix2_xor_native_asm noasm_build t1 t2 rk"
  by (cases "vec_at rk 0"; cases "vec_at rk 1"; cases "vec_at rk 2"; cases "vec_at rk 3")
    (simp_all add: aes_rounds_4_mix2_xor_native_asm_def noasm_build_def aes_rounds_4_native_def two_aes_rounds
      mix2_emu_simple_native_def Let_def)

lemma xor_low32_build: "xor_low32_lane_native_asm build acc x = xor_low32_lane_native_asm noasm_build acc x"
  by (simp add: xor_low32_lane_native_asm_def Let_def)

lemma case18_clmul_build:
  "case18_clmul_mulhrs_xor_native_asm build acc k t = case18_clmul_mulhrs_xor_native_asm noasm_build acc k t"
  by (simp add: case18_clmul_mulhrs_xor_native_asm_def noasm_build_def clmul_native_def Let_def xor.commute)

lemma case18_round_build:
  "case18_round build key pb selector pbuf pbsf r rc acc = case18_round noasm_build key pb selector pbuf pbsf r rc acc"
  by (simp only: case18_round_def case18_div_def xor_low32_build [of build] case18_clmul_build [of build])

lemma case18_plain_build:
  "case18_plain_loop build key pb selector pbuf pbsf n rc acc k = case18_plain_loop noasm_build key pb selector pbuf pbsf n rc acc k"
proof (induction n arbitrary: rc acc k)
  case (Suc n)
  then show ?case by (simp only: case18_plain_loop.simps case18_round_build [of build] case_prod_unfold)
qed simp

lemma case18_fixed_done: "case18_fixed_loop build key pb selector pbuf pbsf c (- 1) rc acc k = Some (acc, k)"
  by (induction c) simp_all

lemma case18_fixed_plain:
  "r < c \<Longrightarrow> case18_fixed_loop build key pb selector pbuf pbsf c (int r) rc acc k =
     case18_plain_loop build key pb selector pbuf pbsf (Suc r) rc acc k"
proof (induction c arbitrary: r rc acc k)
  case (Suc c)
  have "case18_fixed_loop build key pb selector pbuf pbsf c (int r - 1) rc acc k =
      case18_plain_loop build key pb selector pbuf pbsf r rc acc k" for rc acc k
  proof (cases r)
    case (Suc r')
    then show ?thesis using Suc.IH [of r'] Suc.prems by simp
  qed (simp add: case18_fixed_done)
  then show ?case by (simp add: case_prod_unfold)
qed simp

lemma case18_mask_done: "case18_mask_loop build key pb selector c (- 1) rc bits sd sc acc k = Some (acc, k)"
  by (induction c) simp_all

lemma mask_halves:
  assumes "r < 8"
  shows "drop_bit 1 (push_bit (Suc r) 0x10000000 :: u64) = push_bit r 0x10000000"
proof -
  have "r \<in> {0, 1, 2, 3, 4, 5, 6, 7}" using assms by auto
  then show ?thesis by auto
qed

lemma case18_mask_step:
  "case18_mask_loop build key pb selector (Suc c) (int r) rc (push_bit r 0x10000000)
     (if odd r then pbuf else pbsf) (if odd r then pbsf else pbuf) acc k =
   do { (acc, k) \<leftarrow> case18_round build key pb selector pbuf pbsf r rc acc;
        case18_mask_loop build key pb selector c (int r - 1) (rc + 1) (drop_bit 1 (push_bit r 0x10000000))
          (if odd r then pbsf else pbuf) (if odd r then pbuf else pbsf) acc k }"
  by (simp add: case18_round_def Let_def)

lemma case18_mask_plain:
  "r < c \<Longrightarrow> r < 8 \<Longrightarrow>
   case18_mask_loop build key pb selector c (int r) rc (push_bit r 0x10000000)
     (if odd r then pbuf else pbsf) (if odd r then pbsf else pbuf) acc k =
   case18_plain_loop build key pb selector pbuf pbsf (Suc r) rc acc k"
proof (induction c arbitrary: r rc acc k)
  case (Suc c)
  have "case18_mask_loop build key pb selector c (int r - 1) rc (drop_bit 1 (push_bit r 0x10000000))
      (if odd r then pbsf else pbuf) (if odd r then pbuf else pbsf) acc k =
    case18_plain_loop build key pb selector pbuf pbsf r rc acc k" for rc acc k
  proof (cases r)
    case (Suc r')
    have "(if odd r then pbsf else pbuf) = (if odd r' then pbuf else pbsf)"
      "(if odd r then pbuf else pbsf) = (if odd r' then pbsf else pbuf)" "int r - 1 = int r'" using Suc by simp_all
    moreover have "drop_bit 1 (push_bit r 0x10000000 :: u64) = push_bit r' 0x10000000"
      using mask_halves [of r'] Suc Suc.prems by simp
    ultimately show ?thesis using Suc.IH [of r' rc acc k] Suc.prems Suc by (simp only:)
  qed (simp add: case18_mask_done)
  then show ?case by (simp only: case18_mask_step case18_plain_loop.simps)
qed simp

lemma case18_inner_build:
  assumes "r < 8"
  shows "case18_inner_loop_native_asm build key pb acc rc r selector pbuf pbsf =
    case18_plain_loop noasm_build key pb selector pbuf pbsf (Suc r) rc acc 0"
  unfolding case18_inner_loop_native_asm_def using assms
  by (simp only: case18_mask_plain case18_fixed_plain case18_plain_build [of build] if_cancel)

lemma case14_build:
  "case14_loop build key pb selector pbuf pbsf c r rc a acc = case14_loop noasm_build key pb selector pbuf pbsf c r rc a acc"
proof (induction c arbitrary: r rc a acc)
  case (Suc c)
  then show ?case by (simp only: case14_loop.simps aes_mix2_build [of build])
qed simp

lemma rounds_less: "unat (drop_bit 61 (selector :: u64)) < 8"
proof -
  have "unat selector < 2 ^ 64" using unsigned_less [of selector] by simp
  then have "drop_bit 61 (unat selector) < 8" by (simp add: drop_bit_eq_div)
  then show ?thesis by (simp add: unat_drop_bit_eq)
qed

lemma case_build: "verus_clhash_case build v acc c pb key = verus_clhash_case noasm_build v acc c pb key"
  by (simp only: verus_clhash_case_def clhash_case_c_def clhash_case_14_def clhash_case_18_def xor_low32_build [of build]
      case14_build [of build] case18_inner_build [OF rounds_less] Let_def)

lemma iter_build: "verus_clhash_iter build pb m i ch = verus_clhash_iter noasm_build pb m i ch"
  by (simp only: verus_clhash_iter_def case_build [of build])

lemma clhash_x1_build: "verusclhash_port2_2_native build = verusclhash_port2_2_native noasm_build"
  by (intro ext) (simp add: verusclhash_port2_2_native_def verusclmulwithoutreduction64alignedrepeat_port2_2_native_def
      iter_build [of build, abs_def])

section \<open>Two chains at once\<close>

lemma iterate_pair:
  "iterate (\<lambda>i s. do { a \<leftarrow> f i (fst s); b \<leftarrow> g i (snd s); Some (a, b) }) ixs s =
   do { a \<leftarrow> iterate f ixs (fst s); b \<leftarrow> iterate g ixs (snd s); Some (a, b) }"
proof (induction ixs arbitrary: s)
  case (Cons i ixs)
  show ?case
  proof (cases "f i (fst s)")
    case (Some a)
    show ?thesis
    proof (cases "g i (snd s)")
      case None
      then show ?thesis using Some by (cases "iterate f ixs a") simp_all
    next
      case b: (Some b)
      then show ?thesis using Some Cons.IH [of "(a, b)"] by simp
    qed
  qed simp
qed simp

lemma x2_is_two_x1:
  "verusclhash_port2_2_x2_native build buf1 buf2 m key1 key2 j1 j2 =
   do { r1 \<leftarrow> verusclhash_port2_2_native build buf1 m key1 j1;
        r2 \<leftarrow> verusclhash_port2_2_native build buf2 m key2 j2;
        Some (r1, r2) }"
proof -
  have "x2_step build buf1 buf2 m = (\<lambda>i s. do { a \<leftarrow> verus_clhash_iter build (pbuf_copy_of buf1) m i (fst s);
      b \<leftarrow> verus_clhash_iter build (pbuf_copy_of buf2) m i (snd s); Some (a, b) })"
    by (intro ext) (simp add: x2_step_def)
  then show ?thesis
    unfolding verusclhash_port2_2_x2_native_def verusclhash_port2_2_native_def
      verusclmulwithoutreduction64alignedrepeat_port2_2_native_def
    by (cases "vec_at key1 (unat (m + 2))"; cases "vec_at key2 (unat (m + 2))")
      (auto simp: iterate_pair case_prod_unfold bind_eq_None_conv split: option.splits bind_splits)
qed

text \<open>The fused index determines both case labels.\<close>

lemma case_bits: "(s :: u64) AND 0x1c = push_bit 2 (take_bit 3 (drop_bit 2 s))"
proof (rule bit_word_eqI)
  fix n :: nat
  have "(0x1c :: u64) = push_bit 2 (mask 3)" by (simp add: mask_eq_exp_minus_1)
  then have b: "bit (0x1c :: u64) n \<longleftrightarrow> n \<in> {2, 3, 4}"
    by (simp only: bit_push_bit_iff bit_mask_iff possible_bit_word) auto
  assume "n < LENGTH(64)"
  then show "bit (s AND 0x1c) n = bit (push_bit 2 (take_bit 3 (drop_bit 2 s))) n"
    by (cases "2 \<le> n") (simp_all only: bit_simps o_apply b le_add_diff_inverse, auto)
qed

lemma fused_labels:
  "fused_index s1 s2 < 64" "push_bit 2 (ucast (drop_bit 3 (fused_index s1 s2))) = s1 AND 0x1c"
  "push_bit 2 (ucast (take_bit 3 (fused_index s1 s2))) = s2 AND 0x1c"
proof -
  have f: "fused_index s1 s2 = ucast (push_bit 3 (take_bit 3 (drop_bit 2 s1)) OR take_bit 3 (drop_bit 2 s2))"
    unfolding fused_index_def case_bits by (rule bit_word_eqI) (simp only: bit_simps o_apply, auto simp: numeral_3_eq_3)
  have "take_bit 6 (fused_index s1 s2) = fused_index s1 s2"
    unfolding f by (rule bit_word_eqI) (simp only: bit_simps o_apply, auto)
  then show "fused_index s1 s2 < 64" using take_bit_nat_less_exp [of 6 "unat (fused_index s1 s2)"]
    by (simp add: word_less_nat_alt) (metis unsigned_take_bit_eq)
  show "push_bit 2 (ucast (drop_bit 3 (fused_index s1 s2))) = s1 AND 0x1c"
    "push_bit 2 (ucast (take_bit 3 (fused_index s1 s2))) = s2 AND 0x1c"
    unfolding f case_bits by (rule bit_word_eqI, simp only: bit_simps o_apply, auto)+
qed

lemma fused_is_x2: "x2f_step build buf1 buf2 m i chs = x2_step build buf1 buf2 m i chs"
proof -
  obtain acc1 key1 j1 acc2 key2 j2 where c: "chs = ((acc1, key1, j1), (acc2, key2, j2))" by (metis prod.collapse)
  show ?thesis
  proof (cases "verus_clhash_prologue acc1 key1 m i j1")
    case None
    then show ?thesis by (simp add: c x2f_step_def x2_step_def verus_clhash_iter_def)
  next
    case (Some r1)
    obtain c1 j1' where r1: "r1 = (c1, j1')" by (cases r1)
    show ?thesis
    proof (cases "verus_clhash_prologue acc2 key2 m i j2")
      case None
      then show ?thesis using Some r1
        by (cases "verus_clhash_case build (ctx_selector c1 AND 0x1c) acc1 c1 (pbuf_copy_of buf1) key1")
          (auto simp: c x2f_step_def x2_step_def verus_clhash_iter_def)
    next
      case s2: (Some r2)
      obtain c2 j2' where r2: "r2 = (c2, j2')" by (cases r2)
      show ?thesis using Some s2 r1 r2
        by (cases "verus_clhash_case build (ctx_selector c1 AND 0x1c) acc1 c1 (pbuf_copy_of buf1) key1")
          (auto simp: c x2f_step_def x2_step_def verus_clhash_iter_def fused_labels Let_def case_prod_unfold)
    qed
  qed
qed

lemma x2f_is_two_x1:
  "verusclhash_port2_2_x2f_native build buf1 buf2 m key1 key2 j1 j2 =
   do { r1 \<leftarrow> verusclhash_port2_2_native build buf1 m key1 j1;
        r2 \<leftarrow> verusclhash_port2_2_native build buf2 m key2 j2;
        Some (r1, r2) }"
  using x2_is_two_x1 [of build buf1 buf2 m key1 key2 j1 j2]
  by (simp add: verusclhash_port2_2_x2f_native_def verusclhash_port2_2_x2_native_def fused_is_x2 [abs_def])

section \<open>No access leaves its buffer and no remainder is undefined\<close>

definition VERUS_KEY_SIZE128 :: nat where
  "VERUS_KEY_SIZE128 = 552"

definition kClHashKeyMask :: u64 where
  "kClHashKeyMask = 511"

text \<open>A context whose slots lie in the mutable part of the key and whose inputs lie in the buffer.\<close>

definition ctx_ok :: "verus_iter_ctx \<Rightarrow> bool" where
  "ctx_ok c \<longleftrightarrow> ctx_prand c \<le> 511 \<and> ctx_prandex c \<le> 511 \<and> ctx_pbuf c < 4 \<and> ctx_pbsf c < 4"

text \<open>A case body succeeds and rewrites at most the two slots of its context.\<close>

definition rewrites_slots :: "verus_iter_ctx \<Rightarrow> v128 list \<Rightarrow> (v128 \<times> v128 list) option \<Rightarrow> bool" where
  "rewrites_slots c key r \<longleftrightarrow> (\<exists>acc' key'. r = Some (acc', key') \<and> length key' = length key \<and>
     (\<forall>i. i \<noteq> ctx_prand c \<longrightarrow> i \<noteq> ctx_prandex c \<longrightarrow> key' ! i = key ! i))"

lemma divisor_defined:
  fixes selector :: u64
  assumes "selector AND 0x1c = 0xc \<or> selector AND 0x1c = 0x18"
  shows "c_rem dividend (ucast selector) = Some (word_of_int (sint dividend smod sint (ucast selector :: u32)))"
proof -
  have b: "bit selector 3" "\<not> bit selector 2 \<or> \<not> bit selector 4"
    using assms by (auto dest!: arg_cong [of _ _ "\<lambda>w. (bit w 2, bit w 3, bit w 4)"] simp: bit_simps)
  have "(ucast selector :: u32) \<noteq> 0" "(ucast selector :: u32) \<noteq> - 1"
    using b by (auto dest!: arg_cong [of _ _ "\<lambda>w. (bit w 2, bit w 3, bit w 4)"] simp: bit_simps)
  then have "sint (ucast selector :: u32) \<noteq> 0" "sint (ucast selector :: u32) \<noteq> - 1"
    using inj_eq [OF inj_signed, of "ucast selector :: u32" 0] inj_eq [OF inj_signed, of "ucast selector :: u32" "- 1"] by simp_all
  then show ?thesis by (simp add: c_rem_def)
qed

lemma case18_plain_Some:
  assumes "selector AND 0x1c = 0x18" "length pb = 4" "pbuf < 4" "pbsf < 4"
  shows "rc + n \<le> length key \<Longrightarrow> \<exists>r. case18_plain_loop build key pb selector pbuf pbsf n rc acc k = Some r"
proof (induction n arbitrary: rc acc k)
  case (Suc n)
  obtain r where "case18_round build key pb selector pbuf pbsf n rc acc = Some r"
    using Suc.prems assms divisor_defined [of selector]
    by (cases "odd n"; cases "selector AND push_bit n 0x10000000 = 0")
      (auto simp: case18_round_def case18_div_def Let_def)
  then show ?case using Suc.IH [of "rc + 1" "fst r" "snd r"] Suc.prems by (simp add: case_prod_unfold)
qed simp

lemma aes_rounds_4_Some:
  "4 * b + 3 < length rc \<Longrightarrow> aes_rounds_4_native t1 t2 rc b =
   Some (aes_encrypt_round_native (aes_encrypt_round_native t1 (rc ! (4 * b))) (rc ! (4 * b + 2)),
         aes_encrypt_round_native (aes_encrypt_round_native t2 (rc ! (4 * b + 1))) (rc ! (4 * b + 3)))"
  by (simp add: aes_rounds_4_native_def Let_def)

lemma aes_mix2_Some: "3 < length rk \<Longrightarrow> \<exists>t. aes_rounds_4_mix2_xor_native_asm build t1 t2 rk = Some t"
  unfolding aes_mix2_build [of build]
  using aes_rounds_4_Some [of 0 rk t1 t2] by (auto simp: aes_rounds_4_mix2_xor_native_asm_def noasm_build_def Let_def)

text \<open>After \<open>d\<close> rounds at most \<open>d\<close> blocks of AES keys have been used.\<close>

lemma case14_Some:
  assumes "prand + 40 \<le> length key" "length pb = 4" "pbuf < 4" "pbsf < 4"
  shows "a \<le> d \<Longrightarrow> int d + r \<le> 7 \<Longrightarrow> \<exists>acc'. case14_loop build key pb selector pbuf pbsf c r (prand + d) a acc = Some acc'"
proof (induction c arbitrary: r d a acc)
  case (Suc c)
  show ?case
  proof (cases "0 \<le> r")
    case True
    then have d: "prand + d < length key" "3 < length (drop (prand + d + 1 + 4 * a) key)" using Suc.prems assms(1) by auto
    obtain m1 m2 where m: "aes_rounds_4_mix2_xor_native_asm build (key ! (prand + d)) (pb ! pbsf) (drop (prand + d + 1 + 4 * a) key) = Some m1"
      "aes_rounds_4_mix2_xor_native_asm build (key ! (prand + d)) (pb ! pbuf) (drop (prand + d + 1 + 4 * a) key) = Some m2"
      using aes_mix2_Some [OF d(2)] by blast
    have step: "\<exists>acc'. case14_loop build key pb selector pbuf pbsf c (r - 1) (prand + d + 1) a' acc = Some acc'"
      if "a' \<le> d + 1" for a' acc
      using Suc.IH [of a' "d + 1" "r - 1" acc] that Suc.prems by (simp add: add.assoc)
    show ?thesis using True d(1) m assms step [of a] step [of "a + 1"] Suc.prems(1) by (simp add: Let_def)
  next
    case False
    then show ?thesis using Suc.IH Suc.prems by simp
  qed
qed simp

lemma store_swapped_ok: "ctx_ok c \<Longrightarrow> 512 \<le> length key \<Longrightarrow> rewrites_slots c key (clhash_store_swapped acc c key)"
  by (simp add: clhash_store_swapped_def rewrites_slots_def ctx_ok_def Let_def)

lemma case_10_ok:
  assumes "ctx_ok c" "length pb = 4" "552 \<le> length key"
  shows "rewrites_slots c key (clhash_case_10 acc c pb key)"
proof -
  have "11 < length (drop (ctx_prand c) key)" using assms by (auto simp: ctx_ok_def)
  moreover have "rewrites_slots c key (clhash_store_swapped acc c key)" for acc using store_swapped_ok assms by simp
  ultimately show ?thesis using assms by (simp add: clhash_case_10_def ctx_ok_def aes_rounds_4_Some Let_def)
qed

lemma case_14_ok:
  assumes "ctx_ok c" "length pb = 4" "552 \<le> length key"
  shows "rewrites_slots c key (clhash_case_14 build acc c pb key)"
proof -
  let ?r = "int (unat (drop_bit 61 (ctx_selector c)))"
  obtain acc' where "case14_loop build key pb (ctx_selector c) (ctx_pbuf c) (ctx_pbsf c) 8 ?r (ctx_prand c + 0) 0 acc = Some acc'"
    using case14_Some [of "ctx_prand c" key pb "ctx_pbuf c" "ctx_pbsf c" 0 0 ?r] rounds_less [of "ctx_selector c"] assms
    by (fastforce simp: ctx_ok_def)
  then show ?thesis using store_swapped_ok assms by (simp add: clhash_case_14_def Let_def)
qed

lemma case_18_ok:
  assumes "ctx_ok c" "length pb = 4" "552 \<le> length key" "ctx_selector c AND 0x1c = 0x18"
  shows "rewrites_slots c key (clhash_case_18 build acc c pb key)"
proof -
  let ?r = "unat (drop_bit 61 (ctx_selector c))"
  obtain r where "case18_inner_loop_native_asm build key pb acc (ctx_prand c) ?r (ctx_selector c) (ctx_pbuf c) (ctx_pbsf c) = Some r"
    unfolding case18_inner_build [OF rounds_less]
    using case18_plain_Some [of "ctx_selector c" pb "ctx_pbuf c" "ctx_pbsf c" "ctx_prand c" "Suc ?r" key] rounds_less [of "ctx_selector c"] assms
    by (fastforce simp: ctx_ok_def simp del: case18_plain_loop.simps)
  then show ?thesis using assms by (simp add: clhash_case_18_def rewrites_slots_def ctx_ok_def case_prod_unfold Let_def)
qed

lemma verus_clhash_case_ok:
  assumes "ctx_ok c" "length pb = 4" "552 \<le> length key"
  shows "rewrites_slots c key (verus_clhash_case build (ctx_selector c AND 0x1c) acc c pb key)"
proof -
  have s: "ctx_prand c < length key" "ctx_prandex c < length key" "ctx_pbuf c < length pb" "ctx_pbsf c < length pb"
    using assms by (auto simp: ctx_ok_def)
  have "rewrites_slots c key (clhash_case_0 acc c pb key)" "rewrites_slots c key (clhash_case_4 acc c pb key)"
    "rewrites_slots c key (clhash_case_8 acc c pb key)" "rewrites_slots c key (clhash_case_default acc c pb key)"
    using s by (simp_all add: rewrites_slots_def clhash_case_0_def clhash_case_4_def clhash_case_8_def clhash_case_default_def Let_def)
  moreover have "rewrites_slots c key (clhash_case_c build acc c pb key)" if "ctx_selector c AND 0x1c = 0xc"
    using s that by (simp add: rewrites_slots_def clhash_case_c_def divisor_defined Let_def)
  ultimately show ?thesis using case_10_ok case_14_ok case_18_ok assms by (simp add: verus_clhash_case_def)
qed

section \<open>One iteration\<close>

definition journal_ok :: "clhash_journal \<Rightarrow> bool" where
  "journal_ok j \<longleftrightarrow> length (fixrand j) = 32 \<and> length (fixrandex j) = 32 \<and> length (g_prand j) = 32 \<and> length (g_prandex j) = 32"

text \<open>The entry \<open>i\<close> of the journal \<open>j\<close> says how to go back from the key \<open>key'\<close> to \<open>key\<close>.\<close>

definition undoes :: "clhash_journal \<Rightarrow> nat \<Rightarrow> v128 list \<Rightarrow> v128 list \<Rightarrow> bool" where
  "undoes j i key' key \<longleftrightarrow>
     (let s = unat (fixrand j ! i); m = unat (fixrandex j ! i)
      in s \<le> 511 \<and> m \<le> 511 \<and> g_prand j ! i = key ! s \<and> g_prandex j ! i = key ! m \<and> length key' = length key \<and>
         (\<forall>k. k \<noteq> s \<longrightarrow> k \<noteq> m \<longrightarrow> key' ! k = key ! k))"

text \<open>Entries other than \<open>i\<close> are the same in two journals.\<close>

definition same_but :: "nat \<Rightarrow> clhash_journal \<Rightarrow> clhash_journal \<Rightarrow> bool" where
  "same_but i j j' \<longleftrightarrow> (\<forall>k. k \<noteq> i \<longrightarrow> fixrand j' ! k = fixrand j ! k \<and> fixrandex j' ! k = fixrandex j ! k \<and>
     g_prand j' ! k = g_prand j ! k \<and> g_prandex j' ! k = g_prandex j ! k)"

lemma slot_bound: "unat (ucast (w AND kClHashKeyMask) :: u16) \<le> 511"
proof -
  have "w AND kClHashKeyMask \<le> kClHashKeyMask" by (rule word_and_le1)
  then have "unat (w AND kClHashKeyMask) \<le> 511" by (simp add: kClHashKeyMask_def word_le_nat_alt)
  then show ?thesis by (simp add: unsigned_ucast_eq take_bit_eq_mod)
qed

lemma inputs_in_buffer:
  fixes s :: u64
  defines "b \<equiv> unat (s AND 3)" and "f \<equiv> int (unat (s AND 3)) - (if s AND 1 \<noteq> 0 then 1 else - 1)"
  shows "b < 4" "0 \<le> f" "nat f < 4"
proof -
  have "s AND 3 = take_bit 2 s" "s AND 1 = take_bit 1 s"
    by (simp_all add: take_bit_eq_mask mask_eq_exp_minus_1)
  then have "unat (s AND 3) = unat s mod 4" "unat (s AND 1) = unat s mod 2"
    by (simp_all only: unsigned_take_bit_eq) (simp_all add: take_bit_eq_mod)
  moreover have "s AND 1 = 0 \<longleftrightarrow> unat (s AND 1) = 0" by (simp add: unat_eq_zero)
  ultimately have "f = int (unat s mod 4) - (if unat s mod 2 = 0 then - 1 else 1)" "b = unat s mod 4"
    unfolding b_def f_def by simp_all
  moreover have "n mod 4 < 4" "n mod 2 = 0 \<Longrightarrow> n mod 4 < 3" "n mod 2 \<noteq> 0 \<Longrightarrow> 0 < n mod 4" for n :: nat by presburger+
  ultimately show "b < 4" "0 \<le> f" "nat f < 4" by (auto simp: Suc_le_eq nat_less_iff)
qed

lemma prologue_ok:
  assumes "journal_ok j" "512 \<le> length key" "i < 32"
  obtains c j' where "verus_clhash_prologue acc key kClHashKeyMask i j = Some (c, j')" "ctx_ok c" "journal_ok j'" "same_but i j j'"
    "ctx_prand c = unat (fixrand j' ! i)" "ctx_prandex c = unat (fixrandex j' ! i)"
    "g_prand j' ! i = key ! ctx_prand c" "g_prandex j' ! i = key ! ctx_prandex c"
proof -
  let ?s = "lane acc 0 :: u64"
  let ?f = "ucast (drop_bit 5 ?s AND kClHashKeyMask) :: u16" and ?g = "ucast (drop_bit 32 ?s AND kClHashKeyMask) :: u16"
  let ?c = "\<lparr>ctx_selector = ?s, ctx_prand = unat ?f, ctx_prandex = unat ?g, ctx_pbuf = unat (?s AND 3),
    ctx_pbsf = nat (int (unat (?s AND 3)) - (if ?s AND 1 \<noteq> 0 then 1 else - 1))\<rparr>"
  let ?j = "\<lparr>fixrand = (fixrand j)[i := ?f], fixrandex = (fixrandex j)[i := ?g],
    g_prand = (g_prand j)[i := key ! unat ?f], g_prandex = (g_prandex j)[i := key ! unat ?g]\<rparr>"
  have b: "unat ?f \<le> 511" "unat ?g \<le> 511" by (rule slot_bound)+
  then have k: "unat ?f < length key" "unat ?g < length key" using assms(2) by linarith+
  show ?thesis
  proof (rule that [of ?c ?j])
    show "verus_clhash_prologue acc key kClHashKeyMask i j = Some (?c, ?j)"
      unfolding verus_clhash_prologue_def Let_def array_put_def
      using k assms(1,3) inputs_in_buffer(2) [of ?s] by (simp add: journal_ok_def)
    show "ctx_ok ?c" using b inputs_in_buffer [of ?s] by (simp add: ctx_ok_def)
  qed (use assms in \<open>simp_all add: journal_ok_def same_but_def\<close>)
qed

lemma verus_clhash_iter_ok:
  assumes "journal_ok j" "length key = VERUS_KEY_SIZE128" "i < 32" "length pb = 4"
  obtains acc' key' j' where "verus_clhash_iter build pb kClHashKeyMask i (acc, key, j) = Some (acc', key', j')"
    "journal_ok j'" "same_but i j j'" "undoes j' i key' key"
proof -
  have len: "552 \<le> length key" "512 \<le> length key" using assms(2) by (simp_all add: VERUS_KEY_SIZE128_def)
  obtain c j' where p: "verus_clhash_prologue acc key kClHashKeyMask i j = Some (c, j')" "ctx_ok c" "journal_ok j'" "same_but i j j'"
    "ctx_prand c = unat (fixrand j' ! i)" "ctx_prandex c = unat (fixrandex j' ! i)"
    "g_prand j' ! i = key ! ctx_prand c" "g_prandex j' ! i = key ! ctx_prandex c"
    by (rule prologue_ok [OF assms(1) len(2) assms(3)])
  from verus_clhash_case_ok [OF p(2) assms(4) len(1), of build acc]
  obtain acc' key' where q: "verus_clhash_case build (ctx_selector c AND 0x1c) acc c pb key = Some (acc', key')"
    "length key' = length key" "\<forall>k. k \<noteq> ctx_prand c \<longrightarrow> k \<noteq> ctx_prandex c \<longrightarrow> key' ! k = key ! k"
    unfolding rewrites_slots_def by blast
  show ?thesis
  proof (rule that)
    show "verus_clhash_iter build pb kClHashKeyMask i (acc, key, j) = Some (acc', key', j')"
      using p(1) q(1) by (simp add: verus_clhash_iter_def)
    show "undoes j' i key' key" using p q by (simp add: undoes_def ctx_ok_def Let_def)
  qed (use p in simp_all)
qed

section \<open>All variants compute the same hash\<close>

text \<open>
  C15. The two-nonce variants of CLHash, with separate and with fused dispatch, compute for each of
  the two chains the result, the key and the journal of the portable single-nonce variant on that chain
  alone, in every combination of the assembly helpers; so does the single-nonce variant. They fail
  (an access outside a buffer, an undefined remainder) exactly when one of the single runs fails.
\<close>

theorem clhash_variants_agree:
  defines "two_runs buf1 buf2 m key1 key2 j1 j2 \<equiv>
    (case verusclhash_port2_2_native noasm_build buf1 m key1 j1 of
       None \<Rightarrow> None
     | Some r1 \<Rightarrow> (case verusclhash_port2_2_native noasm_build buf2 m key2 j2 of None \<Rightarrow> None | Some r2 \<Rightarrow> Some (r1, r2)))"
  shows "verusclhash_port2_2_native build buf m key j = verusclhash_port2_2_native noasm_build buf m key j \<and>
    verusclhash_port2_2_x2_native build buf1 buf2 m key1 key2 j1 j2 = two_runs buf1 buf2 m key1 key2 j1 j2 \<and>
    verusclhash_port2_2_x2f_native build buf1 buf2 m key1 key2 j1 j2 = two_runs buf1 buf2 m key1 key2 j1 j2"
  unfolding two_runs_def x2_is_two_x1 x2f_is_two_x1 clhash_x1_build [of build]
  by (simp split: option.splits)

section \<open>The reduction\<close>

lemma vmull_p64_1B:
  "vmull_p64 a 0x1B = ucast a XOR push_bit 1 (ucast a) XOR push_bit 3 (ucast a) XOR push_bit 4 (ucast a)"
  by (simp add: vmull_p64_def upt_rec xor.assoc push_bit_eq_mult mult.commute)

lemma high_lane_small: "unat (lane (vmull_p64 a 0x1B) 1 :: u64) < 16"
proof -
  let ?h = "lane (vmull_p64 a 0x1B) 1 :: u64"
  have "take_bit 4 ?h = ?h"
    unfolding vmull_p64_1B by (rule bit_word_eqI) (simp only: bit_simps o_apply, auto dest: bit_imp_le_length)
  then have "unat ?h = take_bit 4 (unat ?h)" by (metis unsigned_take_bit_eq)
  then show ?thesis using take_bit_nat_less_exp [of 4 "unat ?h"] by simp
qed

lemma reduction_table_products:
  assumes "unat h < 16"
  shows "vmull_p64 h 0x1B = ucast (reduction_table ! unat h)"
proof -
  have "\<forall>k \<in> {0, 1, 2, 3, 4, 5, 6, 7, 8, 9, 10, 11, 12, 13, 14, 15}. vmull_p64 (of_nat k) 0x1B = ucast (reduction_table ! k)"
    by (simp add: vmull_p64_1B reduction_table_def)
  moreover have "unat h \<in> {0, 1, 2, 3, 4, 5, 6, 7, 8, 9, 10, 11, 12, 13, 14, 15}"
    using assms by (simp only: insert_iff empty_iff) presburger
  ultimately have "vmull_p64 (of_nat (unat h)) 0x1B = ucast (reduction_table ! unat h)" by (rule bspec)
  then show ?thesis by simp
qed

lemma ucast_ucast_up: "ucast (ucast (x :: u8) :: u64) = (ucast x :: v128)"
  by (rule bit_word_eqI) (auto simp: bit_simps dest: bit_imp_le_length)

lemma v128_halves: "(v :: v128) = ucast (lane v 0 :: u64) XOR push_bit 64 (ucast (lane v 1 :: u64))"
  by (rule bit_word_eqI) (auto simp: bit_simps dest: bit_imp_le_length)

text \<open>The table lookup yields the product of the overflowing bits, in the lowest byte.\<close>

lemma reduction_lookup:
  assumes "unat h < 16"
  shows "lane (vqtbl1q_s8 reduction_table (vcombine_u64 h 0 AND of_lanes (replicate 16 (0x8F :: u8)))) 0 =
    (ucast (reduction_table ! unat h) :: u64)"
proof -
  let ?idx = "vcombine_u64 h 0 AND of_lanes (replicate 16 (0x8F :: u8))"
  have "take_bit 4 h = h" using assms by (simp add: word_unat_eq_iff unsigned_take_bit_eq take_bit_nat_eq_self)
  then have small: "bit h k \<Longrightarrow> k < 4" for k by (metis bit_take_bit_iff)
  have "bit (0x8F :: u8) k" if "k < 4" for k
    using that by (auto simp: numeral_eq_Suc less_Suc_eq)
  then have l: "(lane ?idx i :: u8) = (if i = 0 then ucast h else 0)" if "i < 8" for i
    using that by (intro bit_word_eqI) (auto simp: bit_simps vcombine_u64_def nth_Cons' dest: small)
  have h: "unat (ucast h :: u8) = unat h" using assms by (simp add: unsigned_ucast_eq take_bit_nat_eq_self)
  show ?thesis
  proof (rule bit_word_eqI)
    fix n assume "n < LENGTH(64)"
    then have n: "n < 64" "n div 8 < 8" by simp_all
    have "bit (lane (vqtbl1q_s8 reduction_table ?idx) 0 :: u64) n =
        bit (if n div 8 = 0 then reduction_table ! unat h else reduction_table ! 0) (n mod 8)"
      using n assms l [of "n div 8"] l [of 0] h by (simp add: bit_simps vqtbl1q_s8_def Let_def)
    also have "\<dots> = bit (ucast (reduction_table ! unat h) :: u64) n"
      using n by (auto simp: bit_simps reduction_table_def dest: bit_imp_le_length)
    finally show "bit (lane (vqtbl1q_s8 reduction_table ?idx) 0 :: u64) n = bit (ucast (reduction_table ! unat h) :: u64) n" .
  qed
qed

text \<open>
  The reduction at the end of CLHash is the remainder modulo the polynomial of the field: the 128-bit
  accumulator, as a polynomial over GF(2), is the returned 64-bit polynomial plus a multiple of
  \<open>x^64 + x^4 + x^3 + x + 1\<close>. The table of sixteen products and the masked lookup cover all the bits that
  overflow the first multiplication.
\<close>

lemma clhash_reduction_is_remainder:
  "\<exists>q. A = ucast (precompReduction64_native A) XOR (push_bit 64 (ucast q) XOR vmull_p64 q 0x1B)"
proof -
  define lo hi where "lo = (lane A 0 :: u64)" and "hi = (lane A 1 :: u64)"
  define Q2 where "Q2 = vmull_p64 hi 0x1B"
  define l2 h2 where "l2 = (lane Q2 0 :: u64)" and "h2 = (lane Q2 1 :: u64)"
  define T where "T = (ucast (reduction_table ! unat h2) :: u64)"
  have small: "unat h2 < 16" using high_lane_small [of hi] by (simp add: h2_def Q2_def)
  have "precompReduction64_native A = T XOR (l2 XOR lo)"
    unfolding precompReduction64_native_def Let_def clmul_native_def lanes_vcombine lane_xor
    using reduction_lookup [OF small] by (simp add: T_def l2_def h2_def Q2_def lo_def hi_def)
  then have r: "ucast (precompReduction64_native A) = ucast T XOR (ucast l2 XOR (ucast lo :: v128))"
    by (simp add: unsigned_xor_eq)
  have "vmull_p64 (hi XOR h2) 0x1B = Q2 XOR ucast T"
    using reduction_table_products [OF small] by (simp add: vmull_p64_add Q2_def T_def ucast_ucast_up)
  moreover have "Q2 = ucast l2 XOR push_bit 64 (ucast h2)" unfolding l2_def h2_def by (rule v128_halves)
  moreover have "A = ucast lo XOR push_bit 64 (ucast hi)" unfolding lo_def hi_def by (rule v128_halves)
  moreover have "push_bit 64 (ucast (hi XOR h2)) = push_bit 64 (ucast hi) XOR (push_bit 64 (ucast h2) :: v128)"
    by (simp add: unsigned_xor_eq push_bit_xor)
  ultimately show ?thesis using r by (intro exI [of _ "hi XOR h2"]) (simp add: xor.assoc xor.commute xor.left_commute)
qed

end
