(* ===== verification/Verus_Hash.thy ===== *)
theory Verus_Hash
  imports Clhash_Laws
begin

text \<open>
  The hash functions of \<open>src/algorithm/verus.cpp\<close>: the key schedule, the absorption of the serialized
  job, and one VerusHash, which runs CLHash on the key, finalizes with the keyed Haraka on the
  rewritten key and then puts the overwritten slots back, last one first. The hash of a nonce does
  not depend on what earlier hashes left in the buffers, the build of CLHash or the form of the mixing
  network, and leaves the key as it was.
\<close>

section \<open>The functions\<close>

definition VERUS_KEY_SIZE :: nat where "VERUS_KEY_SIZE = 8832"
definition VERUS_CLHASH_MUT_SLOTS :: nat where "VERUS_CLHASH_MUT_SLOTS = 32"
definition kHashStateBytes :: nat where "kHashStateBytes = 64"
definition kHarakaChunkBytes :: nat where "kHarakaChunkBytes = 32"
definition kChainKeyBlocks :: nat where "kChainKeyBlocks = VERUS_KEY_SIZE div kHarakaChunkBytes"

text \<open>The chain of Haraka-256 outputs, and the bytes of the chain as key vectors.\<close>

fun cl_key_blocks :: "v128 list \<Rightarrow> nat \<Rightarrow> bytes \<Rightarrow> bytes list" where
  "cl_key_blocks rc_native 0 source = []"
| "cl_key_blocks rc_native (Suc n) source =
     (let block = haraka256_native rc_native source in block # cl_key_blocks rc_native n block)"

definition generate_cl_key :: "v128 list \<Rightarrow> bytes \<Rightarrow> v128 list" where
  "generate_cl_key rc_native seed =
     concat (map (\<lambda>block. [vld1q_u8 block, vld1q_u8 (drop 16 block)]) (cl_key_blocks rc_native kChainKeyBlocks seed))"

fun restore_slots :: "clhash_journal \<Rightarrow> nat \<Rightarrow> v128 list \<Rightarrow> v128 list option" where
  "restore_slots j 0 key = Some key"
| "restore_slots j (Suc i) key = do {
     key \<leftarrow> vec_put key (unat (fixrand j ! i)) (g_prand j ! i);
     key \<leftarrow> vec_put key (unat (fixrandex j ! i)) (g_prandex j ! i);
     restore_slots j i key
   }"

definition restore_cl_key_slots :: "clhash_journal \<Rightarrow> v128 list \<Rightarrow> v128 list option" where
  "restore_cl_key_slots j key = restore_slots j VERUS_CLHASH_MUT_SLOTS key"

text \<open>
  The absorption loop: the buffer in use, the other one, the fill position and the input that is left. The loop
  reaches an incomplete chunk only at the end of the input.
\<close>

function blockhash_loop ::
  "v128 list \<Rightarrow> bytes \<Rightarrow> bytes \<Rightarrow> nat \<Rightarrow> bytes \<Rightarrow> bytes option" where
  "blockhash_loop rc_native current_buffer next_buffer curPos input =
     (if input = [] then Some current_buffer
      else let room = kHarakaChunkBytes - curPos
           in if room \<le> length input then do {
                let current_buffer = memcpy current_buffer (kHarakaChunkBytes + curPos) (take room input);
                out \<leftarrow> haraka512_native rc_native current_buffer;
                blockhash_loop rc_native (memcpy next_buffer 0 out) current_buffer 0 (drop room input)
              } else Some (memcpy current_buffer (kHarakaChunkBytes + curPos) input))"
  by auto
termination
  by (relation "measure (\<lambda>(_, _, _, curPos, input). 2 * length input + (if 0 < curPos then 1 else 0))")
    (auto simp: kHarakaChunkBytes_def neq_Nil_conv)

declare blockhash_loop.simps [simp del]

definition fill_tail :: "bytes \<Rightarrow> bytes" where
  "fill_tail buf = (let buf = memcpy buf 47 (take 16 buf) in memcpy buf 63 (take 1 buf))"

text \<open>\<open>buffer_b\<close> is what the uninitialised second buffer holds.\<close>

definition build_blockhash_half :: "v128 list \<Rightarrow> bytes \<Rightarrow> bytes \<Rightarrow> bytes option" where
  "build_blockhash_half rc_native buffer_b input = do {
     buf \<leftarrow> blockhash_loop rc_native (replicate kHashStateBytes 0) buffer_b 0 input;
     Some (fill_tail buf)
   }"

definition prepare_hash_buf :: "bytes \<Rightarrow> bytes \<Rightarrow> bytes" where
  "prepare_hash_buf cur_buf nonce_bytes = memcpy (fill_tail cur_buf) 32 nonce_bytes"

definition le64enc :: "u64 \<Rightarrow> bytes" where
  "le64enc x = map (\<lambda>i. ucast (drop_bit (8 * i) x)) [0..<8]"

definition fold_intermediate :: "bytes \<Rightarrow> u64 \<Rightarrow> bytes" where
  "fold_intermediate cur_buf intermediate =
     memcpy (memcpy (memcpy cur_buf 47 (le64enc intermediate)) 55 (le64enc intermediate)) 63 (take 1 (le64enc intermediate))"

text \<open>
  A build of the hash: how CLHash and the mixing network are compiled, and what the uninitialised vectors
  of the truncated finalizer hold.
\<close>

type_synonym verus_build = "clhash_build \<times> bool \<times> haraka_state"

definition finalize_verus_hash ::
  "verus_build \<Rightarrow> bytes \<Rightarrow> bytes \<Rightarrow> u64 \<Rightarrow> v128 list \<Rightarrow> clhash_journal \<Rightarrow> (bytes \<times> bytes \<times> v128 list) option" where
  "finalize_verus_hash vb hash cur_buf intermediate key_buffer j = do {
     let cur_buf = fold_intermediate cur_buf intermediate;
     hash \<leftarrow> haraka512_keyed_native (fst (snd vb)) (snd (snd vb)) hash cur_buf
               (drop (unat (intermediate AND kClHashKeyMask)) key_buffer);
     key_buffer \<leftarrow> restore_cl_key_slots j key_buffer;
     Some (hash, cur_buf, key_buffer)
   }"

definition compute_verus_hash ::
  "verus_build \<Rightarrow> bytes \<Rightarrow> bytes \<Rightarrow> bytes \<Rightarrow> v128 list \<Rightarrow> clhash_journal \<Rightarrow> (bytes \<times> bytes \<times> v128 list \<times> clhash_journal) option" where
  "compute_verus_hash vb hash cur_buf nonce_bytes key_buffer j = do {
     let cur_buf = prepare_hash_buf cur_buf nonce_bytes;
     (intermediate, key_buffer, j) \<leftarrow> verusclhash_port2_2_native (fst vb) cur_buf kClHashKeyMask key_buffer j;
     (hash, cur_buf, key_buffer) \<leftarrow> finalize_verus_hash vb hash cur_buf intermediate key_buffer j;
     Some (hash, cur_buf, key_buffer, j)
   }"

definition compute_verus_hash_full ::
  "clhash_build \<Rightarrow> bytes \<Rightarrow> bytes \<Rightarrow> v128 list \<Rightarrow> clhash_journal \<Rightarrow> (bytes \<times> bytes \<times> v128 list \<times> clhash_journal) option" where
  "compute_verus_hash_full build cur_buf nonce_bytes key_buffer j = do {
     let cur_buf = prepare_hash_buf cur_buf nonce_bytes;
     (intermediate, key_buffer, j) \<leftarrow> verusclhash_port2_2_native build cur_buf kClHashKeyMask key_buffer j;
     let cur_buf = fold_intermediate cur_buf intermediate;
     hash \<leftarrow> haraka512_keyed_full_native cur_buf (drop (unat (intermediate AND kClHashKeyMask)) key_buffer);
     key_buffer \<leftarrow> restore_cl_key_slots j key_buffer;
     Some (hash, cur_buf, key_buffer, j)
   }"

section \<open>Undoing the journal\<close>

text \<open>Undoing entry \<open>i\<close>, also when its two slots coincide.\<close>

lemma undo_entry:
  assumes "undoes j i key' key" "length key = VERUS_KEY_SIZE128"
  shows "restore_slots j (Suc i) key' = restore_slots j i key"
proof -
  let ?s = "unat (fixrand j ! i)" and ?m = "unat (fixrandex j ! i)"
  have u: "?s < length key'" "?m < length key'" "length key' = length key" "g_prand j ! i = key ! ?s" "g_prandex j ! i = key ! ?m"
    "\<forall>k. k \<noteq> ?s \<longrightarrow> k \<noteq> ?m \<longrightarrow> key' ! k = key ! k"
    using assms by (auto simp: undoes_def Let_def VERUS_KEY_SIZE128_def)
  have "key'[?s := key ! ?s, ?m := key ! ?m] = key"
    using u by (intro nth_equalityI) (auto simp: nth_list_update)
  then show ?thesis using u by simp
qed

lemma restore_same_journal:
  "\<forall>k < n. fixrand j' ! k = fixrand j ! k \<and> fixrandex j' ! k = fixrandex j ! k \<and> g_prand j' ! k = g_prand j ! k \<and>
     g_prandex j' ! k = g_prandex j ! k \<Longrightarrow> restore_slots j' n = restore_slots j n"
proof (induction n)
  case (Suc n)
  then have "restore_slots j' n = restore_slots j n" by simp
  then show ?case using Suc.prems by (intro ext) simp
qed (simp add: fun_eq_iff)

lemma iterate_append: "iterate f (xs @ ys) s = do { s \<leftarrow> iterate f xs s; iterate f ys s }"
proof (induction xs arbitrary: s)
  case (Cons x xs)
  then show ?case by (cases "f x s") simp_all
qed simp

text \<open>Every number of iterations succeeds, and undoing as many entries gives the key back.\<close>

lemma clhash_iterations:
  assumes "journal_ok j" "length key = VERUS_KEY_SIZE128" "length pb = 4"
  shows "n \<le> 32 \<Longrightarrow> \<exists>acc' key' j'. iterate (verus_clhash_iter build pb kClHashKeyMask) [0..<n] (acc, key, j) = Some (acc', key', j') \<and>
    journal_ok j' \<and> length key' = VERUS_KEY_SIZE128 \<and> restore_slots j' n key' = Some key"
proof (induction n)
  case 0
  show ?case using assms by simp
next
  case (Suc n)
  then obtain acc1 key1 j1 where i: "iterate (verus_clhash_iter build pb kClHashKeyMask) [0..<n] (acc, key, j) = Some (acc1, key1, j1)"
    "journal_ok j1" "length key1 = VERUS_KEY_SIZE128" "restore_slots j1 n key1 = Some key" by auto
  obtain acc2 key2 j2 where s: "verus_clhash_iter build pb kClHashKeyMask n (acc1, key1, j1) = Some (acc2, key2, j2)"
    "journal_ok j2" "same_but n j1 j2" "undoes j2 n key2 key1"
    using verus_clhash_iter_ok [OF i(2,3) _ assms(3)] Suc.prems by (metis Suc_le_lessD)
  have "restore_slots j2 (Suc n) key2 = restore_slots j2 n key1" by (rule undo_entry [OF s(4) i(3)])
  also have "restore_slots j2 n = restore_slots j1 n" using s(3) by (intro restore_same_journal) (simp add: same_but_def)
  finally have "restore_slots j2 (Suc n) key2 = Some key" using i(4) by simp
  moreover have "length key2 = VERUS_KEY_SIZE128" using s(4) i(3) by (simp add: undoes_def Let_def)
  ultimately show ?case using i(1) s by (simp add: iterate_append del: restore_slots.simps)
qed

section \<open>The hash does not depend on the journal\<close>

lemma prologue_journal:
  assumes "verus_clhash_prologue acc key m i j = Some (c, j1)" "journal_ok j" "journal_ok j'"
  shows "\<exists>j1'. verus_clhash_prologue acc key m i j' = Some (c, j1') \<and> journal_ok j1 \<and> journal_ok j1'"
  using assms
  by (auto simp: verus_clhash_prologue_def array_put_def journal_ok_def Let_def bind_eq_Some_conv split: if_splits)

lemma iterate_journal:
  assumes "iterate (verus_clhash_iter build pb m) ixs (acc, key, j) = Some (acc', key', j1)" "journal_ok j" "journal_ok j'"
  shows "\<exists>j1'. iterate (verus_clhash_iter build pb m) ixs (acc, key, j') = Some (acc', key', j1')"
  using assms
proof (induction ixs arbitrary: acc key j j')
  case (Cons i ixs)
  from Cons.prems(1) obtain acc2 key2 j2 c where s: "verus_clhash_prologue acc key m i j = Some (c, j2)"
    "verus_clhash_case build (ctx_selector c AND 0x1c) acc c pb key = Some (acc2, key2)"
    "iterate (verus_clhash_iter build pb m) ixs (acc2, key2, j2) = Some (acc', key', j1)"
    by (auto simp: verus_clhash_iter_def [of build pb m i] bind_eq_Some_conv)
  obtain j2' where "verus_clhash_prologue acc key m i j' = Some (c, j2')" "journal_ok j2" "journal_ok j2'"
    using prologue_journal [OF s(1) Cons.prems(2,3)] by blast
  then show ?case using Cons.IH [OF s(3)] s(2) by (simp add: verus_clhash_iter_def)
qed simp

definition zero_journal :: clhash_journal where
  "zero_journal = \<lparr>fixrand = replicate 32 0, fixrandex = replicate 32 0, g_prand = replicate 32 0, g_prandex = replicate 32 0\<rparr>"

lemma zero_journal_ok [simp]: "journal_ok zero_journal"
  by (simp add: zero_journal_def journal_ok_def)

text \<open>The intermediate value and the rewritten key as functions of the input and the key alone.\<close>

definition clhash_value :: "bytes \<Rightarrow> v128 list \<Rightarrow> u64 \<times> v128 list" where
  "clhash_value buf key = (case verusclhash_port2_2_native noasm_build buf kClHashKeyMask key zero_journal of
     Some (v, key', _) \<Rightarrow> (v, key') | None \<Rightarrow> (0, key))"

lemma length_pbuf_copy_of [simp]: "length (pbuf_copy_of buf) = 4"
  by (simp add: pbuf_copy_of_def Let_def)

lemma clhash_total:
  assumes "journal_ok j" "length key = VERUS_KEY_SIZE128"
  obtains j' where "verusclhash_port2_2_native build buf kClHashKeyMask key j = Some (fst (clhash_value buf key), snd (clhash_value buf key), j')"
    "journal_ok j'" "length (snd (clhash_value buf key)) = VERUS_KEY_SIZE128"
    "restore_cl_key_slots j' (snd (clhash_value buf key)) = Some key"
proof -
  have a: "vec_at key (unat (kClHashKeyMask + 2)) = Some (key ! 513)"
    using assms(2) by (simp add: kClHashKeyMask_def VERUS_KEY_SIZE128_def)
  let ?it = "iterate (verus_clhash_iter noasm_build (pbuf_copy_of buf) kClHashKeyMask) [0..<32]"
  obtain acc' key' j' where i: "?it (key ! 513, key, j) = Some (acc', key', j')"
    "journal_ok j'" "length key' = VERUS_KEY_SIZE128" "restore_slots j' 32 key' = Some key"
    using clhash_iterations [OF assms length_pbuf_copy_of, of 32 noasm_build buf "key ! 513"] by auto
  obtain j0 where "?it (key ! 513, key, zero_journal) = Some (acc', key', j0)"
    using iterate_journal [OF i(1) assms(1) zero_journal_ok] by blast
  then have v: "clhash_value buf key = (clhash_fold acc', key')"
    by (simp add: clhash_value_def verusclhash_port2_2_native_def verusclmulwithoutreduction64alignedrepeat_port2_2_native_def a)
  show ?thesis
  proof (rule that)
    show "verusclhash_port2_2_native build buf kClHashKeyMask key j = Some (fst (clhash_value buf key), snd (clhash_value buf key), j')"
      unfolding clhash_x1_build [of build]
      using i(1) by (simp add: verusclhash_port2_2_native_def verusclmulwithoutreduction64alignedrepeat_port2_2_native_def a v)
    show "restore_cl_key_slots j' (snd (clhash_value buf key)) = Some key"
      unfolding restore_cl_key_slots_def VERUS_CLHASH_MUT_SLOTS_def v snd_conv by (rule i(4))
  qed (simp_all add: v i(2,3))
qed

section \<open>One hash\<close>

lemma length_le64enc [simp]: "length (le64enc x) = 8"
  by (simp add: le64enc_def)

lemma length_fill_tail [simp]: "length buf = 64 \<Longrightarrow> length (fill_tail buf) = 64"
  by (simp add: fill_tail_def Let_def memcpy_def)

lemma length_prepare [simp]: "length buf = 64 \<Longrightarrow> length n = 15 \<Longrightarrow> length (prepare_hash_buf buf n) = 64"
  by (simp add: prepare_hash_buf_def memcpy_def)

lemma length_fold_intermediate [simp]: "length buf = 64 \<Longrightarrow> length (fold_intermediate buf v) = 64"
  by (simp add: fold_intermediate_def memcpy_def)

text \<open>The whole hash of a nonce under a key, from the first 32 bytes of the state.\<close>

definition verus_hash :: "v128 list \<Rightarrow> bytes \<Rightarrow> bytes \<Rightarrow> bytes" where
  "verus_hash key half nonce =
     (let buf = prepare_hash_buf half nonce; (v, key') = clhash_value buf key
      in case haraka512_keyed_full_native (fold_intermediate buf v) (drop (unat (v AND kClHashKeyMask)) key') of
           Some h \<Rightarrow> h | None \<Rightarrow> [])"

lemma prepare_head: "length a = 64 \<Longrightarrow> length n = 15 \<Longrightarrow> take 32 (prepare_hash_buf a n) = take 32 a"
  by (simp add: prepare_hash_buf_def fill_tail_def memcpy_def Let_def)

lemma prepare_same_head:
  assumes "length a = 64" "length b = 64" "length n = 15" "take 32 a = take 32 b"
  shows "prepare_hash_buf a n = prepare_hash_buf b n"
proof -
  have "take 16 a = take 16 b" "take 1 a = take 1 b" using arg_cong [OF assms(4), of "take 16"] arg_cong [OF assms(4), of "take 1"] by simp_all
  then show ?thesis using assms by (simp add: prepare_hash_buf_def fill_tail_def memcpy_def Let_def)
qed

lemma fold_head: "length a = 64 \<Longrightarrow> take 32 (fold_intermediate a v) = take 32 a"
  by (simp add: fold_intermediate_def memcpy_def)

text \<open>What both hash functions compute, for a state, a nonce, a key and a journal of the right sizes.\<close>

lemma verus_hash_total:
  assumes "length cur = 64" "length nonce = 15" "length key = VERUS_KEY_SIZE128" "journal_ok j"
  obtains cur' j' where "compute_verus_hash_full build cur nonce key j = Some (verus_hash key cur nonce, cur', key, j')"
    "\<forall>hash use_zip n. compute_verus_hash (build, use_zip, n) hash cur nonce key j =
       Some (memcpy hash 28 (drop 28 (verus_hash key cur nonce)), cur', key, j')"
    "length (verus_hash key cur nonce) = 32" "length cur' = 64" "take 32 cur' = take 32 cur" "journal_ok j'"
proof -
  define buf where "buf = prepare_hash_buf cur nonce"
  define v where "v = fst (clhash_value buf key)"
  define key' where "key' = snd (clhash_value buf key)"
  have lb: "length buf = 64" using assms by (simp add: buf_def)
  obtain j' where c: "verusclhash_port2_2_native build buf kClHashKeyMask key j = Some (v, key', j')"
    "journal_ok j'" "length key' = VERUS_KEY_SIZE128" "restore_cl_key_slots j' key' = Some key"
    using clhash_total [OF assms(4,3), of build buf] unfolding v_def key'_def by blast
  have "unat (v AND kClHashKeyMask) \<le> unat kClHashKeyMask" using word_and_le1 [of v kClHashKeyMask] by (simp add: word_le_nat_alt)
  then have "40 \<le> length (drop (unat (v AND kClHashKeyMask)) key')" using c(3) by (simp add: kClHashKeyMask_def VERUS_KEY_SIZE128_def)
  then obtain full where f: "haraka512_keyed_full_native (fold_intermediate buf v) (drop (unat (v AND kClHashKeyMask)) key') = Some full"
    "length full = 32" "\<And>use_zip n out. haraka512_keyed_native use_zip n out (fold_intermediate buf v) (drop (unat (v AND kClHashKeyMask)) key') =
      Some (memcpy out 28 (drop 28 full))"
    using keyed_finalizers_agree [of "fold_intermediate buf v"] lb by (metis length_fold_intermediate)
  have h: "verus_hash key cur nonce = full"
    using f(1) by (simp add: verus_hash_def Let_def case_prod_unfold buf_def v_def key'_def)
  show ?thesis
  proof (rule that [of "fold_intermediate buf v" j'])
    show "compute_verus_hash_full build cur nonce key j = Some (verus_hash key cur nonce, fold_intermediate buf v, key, j')"
      using c f by (simp add: compute_verus_hash_full_def Let_def h flip: buf_def)
    show "\<forall>hash use_zip n. compute_verus_hash (build, use_zip, n) hash cur nonce key j =
        Some (memcpy hash 28 (drop 28 (verus_hash key cur nonce)), fold_intermediate buf v, key, j')"
      using c f by (simp add: compute_verus_hash_def finalize_verus_hash_def Let_def h flip: buf_def)
    show "take 32 (fold_intermediate buf v) = take 32 cur"
      using assms(1,2) lb by (simp add: fold_head buf_def prepare_head)
  qed (use h f(2) lb c(2) in simp_all)
qed

lemma verus_hash_head:
  "length a = 64 \<Longrightarrow> length b = 64 \<Longrightarrow> length n = 15 \<Longrightarrow> take 32 a = take 32 b \<Longrightarrow> verus_hash key a n = verus_hash key b n"
  using prepare_same_head [of a b n] by (simp add: verus_hash_def)

lemma length_cl_key_blocks [simp]: "length (cl_key_blocks rc n s) = n"
  by (induction n arbitrary: s) (simp_all add: Let_def)

lemma length_generate_cl_key [simp]: "length (generate_cl_key rc seed) = VERUS_KEY_SIZE128"
proof -
  have "length (concat (map (\<lambda>b. [vld1q_u8 b, vld1q_u8 (drop 16 b)]) bs)) = 2 * length bs" for bs
    by (induction bs) simp_all
  then show ?thesis
    by (simp add: generate_cl_key_def kChainKeyBlocks_def VERUS_KEY_SIZE_def kHarakaChunkBytes_def VERUS_KEY_SIZE128_def)
qed

text \<open>
  C14. A VerusHash is total, leaves its key as it was and does not depend on the build. With a 64-byte state, a
  15-byte nonce, a key of 552 vectors and a journal of 32 entries, the hash reads and writes only
  inside its buffers and divides neither by zero nor out of range; after the slots CLHash rewrote are put
  back, last one first, the key is the one it started from, also when the two slots of an
  iteration coincide. The truncated hash has the last word of the full one, whether CLHash is built
  with the assembly helpers or without, with either mixing network, and whatever the journal and the
  uninitialised vectors held; the bytes of the state that stay fixed for a job are kept.
\<close>

theorem verus_hash_restores_key:
  assumes "length cur = 64" "length nonce = 15" "length key = VERUS_KEY_SIZE128" "journal_ok j" "length hash = 32"
  shows "\<exists>full cur' j'. compute_verus_hash_full noasm_build cur nonce key zero_journal = Some full \<and> length (fst full) = 32 \<and>
    compute_verus_hash (build, use_zip, n) hash cur nonce key j = Some (take 28 hash @ drop 28 (fst full), cur', key, j') \<and>
    take 32 cur' = take 32 cur \<and> journal_ok j'"
proof -
  obtain c0 j0 where "compute_verus_hash_full noasm_build cur nonce key zero_journal = Some (verus_hash key cur nonce, c0, key, j0)"
    "length (verus_hash key cur nonce) = 32"
    by (rule verus_hash_total [OF assms(1-3) zero_journal_ok])
  moreover obtain cur' j' where "compute_verus_hash (build, use_zip, n) hash cur nonce key j =
      Some (memcpy hash 28 (drop 28 (verus_hash key cur nonce)), cur', key, j')" "take 32 cur' = take 32 cur" "journal_ok j'"
    using verus_hash_total [OF assms(1-4), of build] by metis
  ultimately show ?thesis using assms(5) by (simp add: memcpy_def)
qed

theorem verus_hash_restores_key_witness:
  "\<exists>full cur' j'. compute_verus_hash_full noasm_build (replicate 64 1) (replicate 15 2) (replicate 552 3) zero_journal = Some full \<and>
    length (fst full) = 32 \<and>
    compute_verus_hash (asm_build, True, 0, 0, 0, 0) (replicate 32 0) (replicate 64 1) (replicate 15 2) (replicate 552 3) zero_journal =
      Some (replicate 28 0 @ drop 28 (fst full), cur', replicate 552 3, j') \<and>
    take 32 cur' = replicate 32 1 \<and> journal_ok j'"
proof -
  have "length (replicate 552 (3 :: v128)) = VERUS_KEY_SIZE128" by (simp add: VERUS_KEY_SIZE128_def)
  from verus_hash_restores_key [OF _ _ this zero_journal_ok, of "replicate 64 1" "replicate 15 2" "replicate 32 0" asm_build True "(0, 0, 0, 0)"]
  show ?thesis by (simp add: min_def)
qed

end
