(* ===== verification/Cpu_Features.thy ===== *)
theory Cpu_Features
  imports Config "HOL-Library.Multiset"
begin

text \<open>
  The processor of \<open>src/algorithm/cpu_features.c\<close>: the crypto flags, the topology (which logical processors
  are online, which of them are big cores, and in which order threads are pinned to them) and the
  temperature. The readable files under \<open>/sys\<close> and \<open>/proc\<close> are an argument: \<^const>\<open>None\<close> is a file that does not open.
\<close>

type_synonym files = "string \<Rightarrow> string option"

section \<open>Reading the files\<close>

text \<open>
  \<open>fscanf\<close> with one \<open>%d\<close> or \<open>%x\<close>; \<^const>\<open>None\<close> is a failed conversion. Out-of-range numbers are clamped to \<open>long\<close> and then
  narrowed, as the C library does.
\<close>

definition scanf_d :: "string \<Rightarrow> int option" where
  "scanf_d s = (case strtol s of (v, rest, _) \<Rightarrow> if rest = s then None else Some (c_int v))"

definition scanf_llx :: "string \<Rightarrow> u64 option" where
  "scanf_llx s = (case strtoul_base 16 s of (v, rest, _) \<Rightarrow> if rest = s then None else Some (of_nat v))"

text \<open>One literal word of a \<open>sscanf\<close> format and the blank behind it, which stands for any amount of white space.\<close>

definition scanf_word :: "string \<Rightarrow> string \<Rightarrow> string option" where
  "scanf_word w s = (if take (length w) s = w then Some (dropWhile is_space (drop (length w) s)) else None)"

fun scanf_words :: "string list \<Rightarrow> string \<Rightarrow> string option" where
  "scanf_words [] s = Some s"
| "scanf_words (w # ws) s = (case scanf_word w s of None \<Rightarrow> None | Some t \<Rightarrow> scanf_words ws t)"

text \<open>\<open>fgets\<close> with a buffer of \<open>n\<close> bytes: a line with its newline, cut after \<open>n - 1\<close> bytes, and the rest of the file.\<close>

definition fgets :: "nat \<Rightarrow> string \<Rightarrow> (string \<times> string) option" where
  "fgets n s =
     (if s = [] then None
      else let k = length (takeWhile (\<lambda>c. c \<noteq> CHR 0x0A) s) + 1; k = min k (n - 1) in Some (take k s, drop k s))"

section \<open>Capabilities\<close>

record cpu_capabilities =
  has_aes :: bool
  has_pmull :: bool
  has_asimd :: bool
  has_armv8_crypto :: bool

datatype hwcap = HWCAP_AES | HWCAP_PMULL | HWCAP_ASIMD

text \<open>\<open>hwcap\<close> answers the bits of \<open>getauxval(AT_HWCAP)\<close>.\<close>

definition detect_cpu_features :: "(hwcap \<Rightarrow> bool) \<Rightarrow> cpu_capabilities" where
  "detect_cpu_features hwcap =
     \<lparr>has_aes = hwcap HWCAP_AES, has_pmull = hwcap HWCAP_PMULL, has_asimd = hwcap HWCAP_ASIMD,
      has_armv8_crypto = (hwcap HWCAP_AES \<and> hwcap HWCAP_PMULL \<and> hwcap HWCAP_ASIMD)\<rparr>"

section \<open>Topology\<close>

definition MAX_CPUS :: nat where "MAX_CPUS = 64"

record cpu_core =
  cpu_id :: int
  implementer :: int
  part_number :: int
  is_big :: bool
  max_freq_khz :: int

text \<open>The globals; the first \<open>g_num_cpus\<close> entries of \<open>g_cpu_cores\<close> and the first \<open>g_core_order_count\<close> of \<open>g_core_order\<close> are lists.\<close>

record cpu_topology =
  g_cpu_cores :: "cpu_core list"
  g_num_big_cores :: int
  g_num_little_cores :: int
  g_core_order :: "int list"
  g_online_mask_snapshot :: string
  g_topology_detected :: bool

definition initial_topology :: cpu_topology where
  "initial_topology = \<lparr>g_cpu_cores = [], g_num_big_cores = 0, g_num_little_cores = 0, g_core_order = [],
     g_online_mask_snapshot = [], g_topology_detected = False\<rparr>"

definition big_arm_parts :: "int list" where
  "big_arm_parts = [0xD0A, 0xD0B, 0xD0D, 0xD41, 0xD4B, 0xD44, 0xD4C, 0xD47, 0xD48, 0xD4D, 0xD4E, 0xD81, 0xD87, 0xD85,
                    0xD8B, 0xD8C, 0xD90, 0xD82]"

definition is_big_core :: "int \<Rightarrow> int \<Rightarrow> bool" where
  "is_big_core impl part =
     (if impl = 0x41 then part \<in> set big_arm_parts
      else if impl = 0x51 then part \<in> {0x001, 0x802, 0x804}
      else if impl = 0x53 then part \<in> {0x001, 0x002, 0x003, 0x004, 0x005}
      else False)"

subsection \<open>\<open>/proc/cpuinfo\<close>\<close>

text \<open>
  One line of the walk. The state is the processor of the current block and the implementer and part
  seen in it; the first component tells that the block of the wanted processor is complete.
\<close>

definition cpuinfo_line :: "int \<Rightarrow> string \<Rightarrow> int \<times> int \<times> int \<Rightarrow> bool \<times> int \<times> int \<times> int" where
  "cpuinfo_line cpu line st =
     (case st of (cur, impl, part) \<Rightarrow>
        case Option.bind (scanf_words [''processor'', '':''] line) scanf_d of
          Some proc_id \<Rightarrow>
            if cur = cpu \<and> 0 \<le> impl \<and> 0 \<le> part then (True, cur, impl, part)
            else if proc_id \<noteq> cpu then (False, proc_id, -1, -1) else (False, proc_id, impl, part)
        | None \<Rightarrow>
            if cur = cpu then
              case Option.bind (scanf_words [''CPU'', ''implementer'', '':''] line) scanf_llx of
                Some hex \<Rightarrow> (False, cur, sint (ucast hex :: u32), part)
              | None \<Rightarrow>
                  (case Option.bind (scanf_words [''CPU'', ''part'', '':''] line) scanf_llx of
                     Some hex \<Rightarrow> (False, cur, impl, sint (ucast hex :: u32))
                   | None \<Rightarrow> (False, cur, impl, part))
            else (False, cur, impl, part))"

text \<open>The walk; \<open>n\<close> bounds the number of lines, of which there are at most as many as characters.\<close>

fun cpuinfo_loop :: "nat \<Rightarrow> int \<Rightarrow> string \<Rightarrow> int \<times> int \<times> int \<Rightarrow> bool \<times> int \<times> int \<times> int" where
  "cpuinfo_loop 0 cpu text st = (False, st)"
| "cpuinfo_loop (Suc n) cpu text st =
     (case fgets 256 text of
        None \<Rightarrow> (False, st)
      | Some (line, rest) \<Rightarrow>
          (case cpuinfo_line cpu line st of (found, st') \<Rightarrow> if found then (True, st') else cpuinfo_loop n cpu rest st'))"

definition read_cpuinfo_midr :: "files \<Rightarrow> int \<Rightarrow> (int \<times> int) option" where
  "read_cpuinfo_midr files cpu =
     (case files ''/proc/cpuinfo'' of
        None \<Rightarrow> None
      | Some text \<Rightarrow>
          (case cpuinfo_loop (length text) cpu text (-1, -1, -1) of (found, cur, impl, part) \<Rightarrow>
             if found \<or> (cur = cpu \<and> 0 \<le> impl \<and> 0 \<le> part) then Some (impl, part) else None))"

subsection \<open>The online mask\<close>

definition strip_line_end :: "string \<Rightarrow> string" where
  "strip_line_end s = rev (dropWhile (\<lambda>c. c = CHR 0x0A \<or> c = CHR 0x0D) (rev s))"

definition read_online_cpu_mask :: "files \<Rightarrow> string" where
  "read_online_cpu_mask files =
     (case files ''/sys/devices/system/cpu/online'' of
        None \<Rightarrow> []
      | Some text \<Rightarrow> (case fgets 128 text of None \<Rightarrow> [] | Some (line, rest) \<Rightarrow> strip_line_end line))"

definition cpu_topology_online_changed :: "files \<Rightarrow> cpu_topology \<Rightarrow> bool" where
  "cpu_topology_online_changed files t \<longleftrightarrow> read_online_cpu_mask files \<noteq> g_online_mask_snapshot t"

subsection \<open>The scan of the processors\<close>

definition cpu_file :: "nat \<Rightarrow> string \<Rightarrow> string" where
  "cpu_file cpu name = ''/sys/devices/system/cpu/cpu'' @ show_nat cpu @ ''/'' @ name"

datatype presence = Absent | Offline | Online

definition cpu_presence :: "files \<Rightarrow> nat \<Rightarrow> presence" where
  "cpu_presence files cpu =
     (case files (cpu_file cpu ''online'') of
        None \<Rightarrow> if 0 < cpu \<and> files (cpu_file cpu ''regs/identification/midr_el1'') = None then Absent else Online
      | Some text \<Rightarrow> if scanf_d text = Some 0 then Offline else Online)"

definition read_midr :: "files \<Rightarrow> nat \<Rightarrow> (int \<times> int) option" where
  "read_midr files cpu =
     (case Option.bind (files (cpu_file cpu ''regs/identification/midr_el1'')) scanf_llx of
        Some midr \<Rightarrow>
          if midr \<noteq> 0 then Some (uint (drop_bit 24 midr AND 0xFF), uint (drop_bit 4 midr AND 0xFFF))
          else read_cpuinfo_midr files (int cpu)
      | None \<Rightarrow> read_cpuinfo_midr files (int cpu))"

definition read_core :: "files \<Rightarrow> nat \<Rightarrow> cpu_core" where
  "read_core files cpu =
     (let core = \<lparr>cpu_id = int cpu, implementer = 0, part_number = 0, is_big = False, max_freq_khz = 0\<rparr>;
          core = (case read_midr files cpu of
                    Some (impl, part) \<Rightarrow> core\<lparr>implementer := impl, part_number := part, is_big := is_big_core impl part\<rparr>
                  | None \<Rightarrow> core)
      in case Option.bind (files (cpu_file cpu ''cpufreq/cpuinfo_max_freq'')) scanf_d of
           Some khz \<Rightarrow> core\<lparr>max_freq_khz := khz\<rparr>
         | None \<Rightarrow> core)"

text \<open>The loop over \<open>cpu\<close>, with the \<open>MAX_CPUS - cpu\<close> rounds that are left.\<close>

definition add_core :: "cpu_core \<Rightarrow> cpu_topology \<Rightarrow> cpu_topology" where
  "add_core core t =
     t\<lparr>g_cpu_cores := g_cpu_cores t @ [core],
       g_num_big_cores := g_num_big_cores t + (if is_big core then 1 else 0),
       g_num_little_cores := g_num_little_cores t + (if is_big core then 0 else 1)\<rparr>"

fun detect_loop :: "files \<Rightarrow> nat \<Rightarrow> nat \<Rightarrow> cpu_topology \<Rightarrow> cpu_topology" where
  "detect_loop files 0 cpu t = t"
| "detect_loop files (Suc n) cpu t =
     (case cpu_presence files cpu of
        Absent \<Rightarrow> t
      | Offline \<Rightarrow> detect_loop files n (cpu + 1) t
      | Online \<Rightarrow> detect_loop files n (cpu + 1) (add_core (read_core files cpu) t))"

subsection \<open>Classification by frequency\<close>

text \<open>The insertion sort, descending; the second argument is \<open>j + 1\<close>.\<close>

fun insert_freq :: "int list \<Rightarrow> nat \<Rightarrow> int \<Rightarrow> int list" where
  "insert_freq freqs 0 key = freqs[0 := key]"
| "insert_freq freqs (Suc j) key =
     (if freqs ! j < key then insert_freq (freqs[Suc j := freqs ! j]) j key else freqs[Suc j := key])"

definition sort_freqs :: "int list \<Rightarrow> int list" where
  "sort_freqs freqs = fold (\<lambda>i freqs. insert_freq freqs i (freqs ! i)) [1..<length freqs] freqs"

text \<open>Both heuristics make the cores that pass a test big and adjust the two counters.\<close>

definition promote :: "(cpu_core \<Rightarrow> bool) \<Rightarrow> cpu_topology \<Rightarrow> cpu_topology" where
  "promote test t =
     (let n = int (length (filter test (g_cpu_cores t)))
      in t\<lparr>g_cpu_cores := map (\<lambda>c. if test c then c\<lparr>is_big := True\<rparr> else c) (g_cpu_cores t),
           g_num_big_cores := g_num_big_cores t + n, g_num_little_cores := g_num_little_cores t - n\<rparr>)"

definition median_freq :: "cpu_core list \<Rightarrow> int" where
  "median_freq cores = sort_freqs (map max_freq_khz cores) ! (length cores div 2)"

definition classify_by_median :: "cpu_topology \<Rightarrow> cpu_topology" where
  "classify_by_median t =
     (if g_num_big_cores t = 0 \<and> 1 < length (g_cpu_cores t) \<and> 0 < median_freq (g_cpu_cores t)
      then promote (\<lambda>c. median_freq (g_cpu_cores t) < max_freq_khz c) t
      else t)"

text \<open>The lowest frequency of the big cores; \<^const>\<open>None\<close> when one of them is unreadable.\<close>

fun min_big_freq :: "cpu_core list \<Rightarrow> int \<Rightarrow> int option" where
  "min_big_freq [] m = Some m"
| "min_big_freq (c # cs) m =
     (if \<not> is_big c then min_big_freq cs m
      else if max_freq_khz c \<le> 0 then None
      else min_big_freq cs (if m = 0 \<or> max_freq_khz c < m then max_freq_khz c else m))"

definition promote_unrecognised :: "cpu_topology \<Rightarrow> cpu_topology" where
  "promote_unrecognised t =
     (if 0 < g_num_big_cores t \<and> g_num_big_cores t < int (length (g_cpu_cores t))
      then case min_big_freq (g_cpu_cores t) 0 of
             Some m \<Rightarrow> if 0 < m then promote (\<lambda>c. \<not> is_big c \<and> m \<le> max_freq_khz c) t else t
           | None \<Rightarrow> t
      else t)"

subsection \<open>The pinning order\<close>

text \<open>The inner loop: the fastest core of the pass that is not in the order yet, with \<open>best_freq\<close> and \<open>best\<close>.\<close>

fun best_core :: "(cpu_core \<Rightarrow> bool) \<Rightarrow> int list \<Rightarrow> cpu_core list \<Rightarrow> int \<Rightarrow> cpu_core option \<Rightarrow> cpu_core option" where
  "best_core in_pass order [] best_freq best = best"
| "best_core in_pass order (c # cs) best_freq best =
     (if \<not> in_pass c then best_core in_pass order cs best_freq best
      else if cpu_id c \<in> set order then best_core in_pass order cs best_freq best
      else if best_freq < max_freq_khz c then best_core in_pass order cs (max_freq_khz c) (Some c)
      else best_core in_pass order cs best_freq best)"

fun order_pass :: "nat \<Rightarrow> (cpu_core \<Rightarrow> bool) \<Rightarrow> cpu_core list \<Rightarrow> int list \<Rightarrow> int list" where
  "order_pass 0 in_pass cores order = order"
| "order_pass (Suc n) in_pass cores order =
     (case best_core in_pass order cores (-1) None of
        None \<Rightarrow> order
      | Some c \<Rightarrow> order_pass n in_pass cores (order @ [cpu_id c]))"

definition build_order :: "cpu_core list \<Rightarrow> int list" where
  "build_order cores =
     (let n = length cores in order_pass n (\<lambda>c. \<not> is_big c) cores (order_pass n is_big cores []))"

definition detect_cpu_topology_now :: "files \<Rightarrow> cpu_topology \<Rightarrow> cpu_topology" where
  "detect_cpu_topology_now files t =
     (let t = t\<lparr>g_online_mask_snapshot := read_online_cpu_mask files, g_cpu_cores := [], g_num_big_cores := 0, g_num_little_cores := 0\<rparr>;
          t = promote_unrecognised (classify_by_median (detect_loop files MAX_CPUS 0 t))
      in t\<lparr>g_core_order := build_order (g_cpu_cores t)\<rparr>)"

definition detect_cpu_topology :: "files \<Rightarrow> cpu_topology \<Rightarrow> cpu_topology" where
  "detect_cpu_topology files t =
     (if g_topology_detected t then t else detect_cpu_topology_now files (t\<lparr>g_topology_detected := True\<rparr>))"

definition cpu_topology_refresh :: "files \<Rightarrow> cpu_topology \<Rightarrow> cpu_topology" where
  "cpu_topology_refresh files t = detect_cpu_topology_now files t"

text \<open>Thread numbers are not negative, where the C remainder is the mathematical one.\<close>

definition get_cpu_for_thread :: "cpu_topology \<Rightarrow> nat \<Rightarrow> int" where
  "get_cpu_for_thread t thr_id =
     (if g_core_order t = [] then int thr_id else g_core_order t ! (thr_id mod length (g_core_order t)))"

definition get_cpu_cur_freq_khz :: "files \<Rightarrow> nat \<Rightarrow> int" where
  "get_cpu_cur_freq_khz files cpu =
     (case Option.bind (files (cpu_file cpu ''cpufreq/scaling_cur_freq'')) scanf_d of Some khz \<Rightarrow> khz | None \<Rightarrow> -1)"

subsection \<open>Names\<close>

definition arm_part_names :: "(int \<times> string) list" where
  "arm_part_names =
     [(0xD03, ''Cortex-A53''), (0xD04, ''Cortex-A35''), (0xD05, ''Cortex-A55''), (0xD46, ''Cortex-A510''), (0xD80, ''Cortex-A520''),
      (0xD8A, ''C1-Nano''), (0xD8F, ''Cortex-A320''), (0xD07, ''Cortex-A57''), (0xD08, ''Cortex-A72''), (0xD09, ''Cortex-A73''),
      (0xD0A, ''Cortex-A75''), (0xD0B, ''Cortex-A76''), (0xD0D, ''Cortex-A77''), (0xD41, ''Cortex-A78''), (0xD4B, ''Cortex-A78C''),
      (0xD44, ''Cortex-X1''), (0xD4C, ''Cortex-X1C''), (0xD47, ''Cortex-A710''), (0xD48, ''Cortex-X2''), (0xD4D, ''Cortex-A715''),
      (0xD4E, ''Cortex-X3''), (0xD81, ''Cortex-A720''), (0xD82, ''Cortex-X4''), (0xD87, ''Cortex-A725''), (0xD85, ''Cortex-X925''),
      (0xD8B, ''C1-Pro''), (0xD8C, ''C1-Ultra''), (0xD90, ''C1-Premium'')]"

definition cpu_part_name :: "int \<Rightarrow> int \<Rightarrow> string" where
  "cpu_part_name impl part =
     (if impl = 0x41 then (case map_of arm_part_names part of Some name \<Rightarrow> name | None \<Rightarrow> ''ARM core'')
      else if impl = 0x51 then
        (if part = 0x001 then ''Oryon''
         else if part = 0x802 then ''Kryo Gold (A75-class)''
         else if part = 0x804 then ''Kryo Gold/Prime''
         else if part = 0x803 \<or> part = 0x805 then ''Kryo Silver'' else ''Kryo core'')
      else if impl = 0x53 then ''Exynos Mongoose''
      else ''CPU core'')"

section \<open>Temperature\<close>

definition MAX_THERMAL_ZONES :: nat where "MAX_THERMAL_ZONES = 16"

definition cpu_zone_names :: "string list" where
  "cpu_zone_names = [''cpu'', ''CPU'', ''soc'', ''SOC'', ''bigcore'', ''littlecore'', ''tsens'', ''mtkts'', ''BIG'', ''MID'', ''LITTLE'', ''cluster'']"

definition zone_file :: "nat \<Rightarrow> string \<Rightarrow> string" where
  "zone_file z name = ''/sys/class/thermal/thermal_zone'' @ show_nat z @ ''/'' @ name"

definition zone_type :: "string \<Rightarrow> string" where
  "zone_type text = (case fgets 64 text of None \<Rightarrow> [] | Some (line, rest) \<Rightarrow> takeWhile (\<lambda>c. c \<noteq> CHR 0x0A) line)"

fun zone_loop :: "files \<Rightarrow> nat \<Rightarrow> nat \<Rightarrow> nat list \<Rightarrow> nat list \<Rightarrow> nat list \<times> nat list" where
  "zone_loop files 0 z zones fallback = (zones, fallback)"
| "zone_loop files (Suc n) z zones fallback =
     (if MAX_THERMAL_ZONES \<le> length zones then (zones, fallback)
      else case files (zone_file z ''type'') of
             None \<Rightarrow> zone_loop files n (z + 1) zones fallback
           | Some text \<Rightarrow>
               if \<exists>name \<in> set cpu_zone_names. strstr (zone_type text) name \<noteq> None then zone_loop files n (z + 1) (zones @ [z]) fallback
               else if length fallback < MAX_THERMAL_ZONES then zone_loop files n (z + 1) zones (fallback @ [z])
               else zone_loop files n (z + 1) zones fallback)"

definition detect_thermal_zones :: "files \<Rightarrow> nat list" where
  "detect_thermal_zones files = (case zone_loop files 128 0 [] [] of (zones, fallback) \<Rightarrow> if zones = [] then fallback else zones)"

definition read_thermal_zone_temp :: "files \<Rightarrow> nat \<Rightarrow> int" where
  "read_thermal_zone_temp files z =
     (case Option.bind (files (zone_file z ''temp'')) scanf_d of
        None \<Rightarrow> -1
      | Some temp \<Rightarrow>
          (let temp = (if 1000 < temp then temp div 1000 else temp)
           in if temp < 1 \<or> 150 < temp then -1 else temp))"

text \<open>The list of zones is detected once, under \<open>g_thermal_once\<close>; the temperatures are read at every call.\<close>

record thermal_state =
  thermal_once :: bool
  g_cpu_thermal_zones :: "nat list"

definition get_cpu_temp :: "files \<Rightarrow> thermal_state \<Rightarrow> int \<times> thermal_state" where
  "get_cpu_temp files s =
     (let s = (if thermal_once s then s else s\<lparr>thermal_once := True, g_cpu_thermal_zones := detect_thermal_zones files\<rparr>)
      in (fold (\<lambda>z max_temp. let t = read_thermal_zone_temp files z in if max_temp < t then t else max_temp) (g_cpu_thermal_zones s) (-1), s))"

section \<open>Laws of the topology\<close>

text \<open>The insertion sort of the source inserts into the reversed sorted prefix, as \<^const>\<open>insort\<close> does.\<close>

lemma insert_freq_insort: "insert_freq (rev ys @ x # bs) (length ys) key = rev (insort key ys) @ bs"
proof (induction ys arbitrary: x bs)
  case Nil
  then show ?case by simp
next
  case (Cons y ys)
  then show ?case using Cons [of y "y # bs"] Cons by (simp add: nth_append list_update_append)
qed

lemma sort_freqs_prefix:
  "0 < k \<Longrightarrow> k \<le> length xs \<Longrightarrow>
   fold (\<lambda>i freqs. insert_freq freqs i (freqs ! i)) [1..<k] xs = rev (sort (take k xs)) @ drop k xs"
proof (induction k)
  case 0
  then show ?case by simp
next
  case (Suc k)
  show ?case
  proof (cases "k = 0")
    case True
    then show ?thesis using Suc by (cases xs) simp_all
  next
    case False
    let ?ys = "sort (take k xs)"
    have k: "k < length xs" "length ?ys = k" using Suc by simp_all
    have "fold (\<lambda>i freqs. insert_freq freqs i (freqs ! i)) [1..<Suc k] xs =
      insert_freq (rev ?ys @ drop k xs) k ((rev ?ys @ drop k xs) ! k)"
      using Suc False by simp
    also have "rev ?ys @ drop k xs = rev ?ys @ xs ! k # drop (Suc k) xs" using k(1) by (simp add: Cons_nth_drop_Suc)
    also have "insert_freq \<dots> k (\<dots> ! k) = rev (insort (xs ! k) ?ys) @ drop (Suc k) xs"
      using insert_freq_insort [of ?ys "xs ! k" "drop (Suc k) xs"] k(2) by (simp add: nth_append)
    also have "insort (xs ! k) ?ys = sort (take (Suc k) xs)"
      using k(1) by (simp add: take_Suc_conv_app_nth sort_conv_fold)
    finally show ?thesis .
  qed
qed

lemma sort_freqs_is_sort: "sort_freqs xs = rev (sort xs)"
  using sort_freqs_prefix [of "length xs" xs] by (cases "xs = []") (simp_all add: sort_freqs_def)

subsection \<open>The pinning order\<close>

text \<open>
  What the two nested loops of a pass compute: the cores of the pass with a readable frequency, fastest first and in the
  order of detection among equals.
\<close>

abbreviation slower :: "cpu_core \<Rightarrow> int" where
  "slower c \<equiv> - max_freq_khz c"

lemma best_core_filter:
  "-1 \<le> f \<Longrightarrow> best_core in_pass order cs f b =
   best_core (\<lambda>_. True) [] (filter (\<lambda>c. in_pass c \<and> 0 \<le> max_freq_khz c \<and> cpu_id c \<notin> set order) cs) f b"
  by (induction cs arbitrary: f b) auto

lemma best_core_first:
  assumes "best_core (\<lambda>_. True) [] cs f b = Some c"
  shows "b = Some c \<and> (\<forall>y \<in> set cs. max_freq_khz y \<le> f) \<or>
    (\<exists>xs ys. cs = xs @ c # ys \<and> f < max_freq_khz c \<and> (\<forall>x \<in> set xs. max_freq_khz x < max_freq_khz c) \<and>
      (\<forall>y \<in> set ys. max_freq_khz y \<le> max_freq_khz c))"
  using assms
proof (induction cs arbitrary: f b)
  case (Cons d cs)
  show ?case
  proof (cases "f < max_freq_khz d")
    case True
    then have "best_core (\<lambda>_. True) [] cs (max_freq_khz d) (Some d) = Some c" using Cons.prems by simp
    from Cons.IH [OF this] show ?thesis
    proof (elim disjE exE conjE)
      assume "Some d = Some c" "\<forall>y \<in> set cs. max_freq_khz y \<le> max_freq_khz d"
      then show ?thesis using True by (intro disjI2 exI [of _ "[]"] exI [of _ cs]) simp
    next
      fix xs ys
      assume "cs = xs @ c # ys" "max_freq_khz d < max_freq_khz c" "\<forall>x \<in> set xs. max_freq_khz x < max_freq_khz c"
        "\<forall>y \<in> set ys. max_freq_khz y \<le> max_freq_khz c"
      then show ?thesis using True by (intro disjI2 exI [of _ "d # xs"] exI [of _ ys]) simp
    qed
  next
    case False
    then have "best_core (\<lambda>_. True) [] cs f b = Some c" using Cons.prems by simp
    from Cons.IH [OF this] show ?thesis
    proof (elim disjE exE conjE)
      fix xs ys
      assume "cs = xs @ c # ys" "f < max_freq_khz c" "\<forall>x \<in> set xs. max_freq_khz x < max_freq_khz c"
        "\<forall>y \<in> set ys. max_freq_khz y \<le> max_freq_khz c"
      then show ?thesis using False by (intro disjI2 exI [of _ "d # xs"] exI [of _ ys]) simp
    qed (use False in simp)
  qed
qed simp

lemma best_core_None: "best_core (\<lambda>_. True) [] cs f None = None \<Longrightarrow> \<forall>c \<in> set cs. max_freq_khz c \<le> f"
proof (induction cs arbitrary: f)
  case (Cons c cs)
  have "best_core (\<lambda>_. True) [] cs g (Some d) \<noteq> None" for g d
    by (induction cs arbitrary: g d) auto
  then show ?case using Cons by (auto split: if_splits simp del: not_None_eq)
qed simp

lemma sort_key_first:
  fixes f :: "'a \<Rightarrow> int"
  assumes "\<forall>x \<in> set xs. f c < f x" "\<forall>y \<in> set ys. f c \<le> f y"
  shows "sort_key f (xs @ c # ys) = c # sort_key f (xs @ ys)"
proof (rule properties_for_sort_key)
  fix k
  show "filter (\<lambda>x. f k = f x) (c # sort_key f (xs @ ys)) = filter (\<lambda>x. f k = f x) (xs @ c # ys)"
  proof (cases "f c = f k")
    case True
    then have "filter (\<lambda>x. f x = f k) xs = []" using assms(1) by (auto simp: filter_empty_conv)
    then show ?thesis using True sort_key_stable [of f "f k" "xs @ ys"] by (simp add: eq_commute [of "f k"])
  qed (use sort_key_stable [of f "f k" "xs @ ys"] in \<open>simp add: eq_commute [of "f k"]\<close>)
qed (use assms in auto)

lemma order_pass_sorts:
  assumes "distinct (map cpu_id cores)"
  shows "length (filter (\<lambda>c. in_pass c \<and> 0 \<le> max_freq_khz c \<and> cpu_id c \<notin> set order) cores) \<le> n \<Longrightarrow>
    order_pass n in_pass cores order = order @ map cpu_id (sort_key slower
      (filter (\<lambda>c. in_pass c \<and> 0 \<le> max_freq_khz c \<and> cpu_id c \<notin> set order) cores))"
proof (induction n arbitrary: order)
  case (Suc n)
  let ?rest = "\<lambda>order. filter (\<lambda>c. in_pass c \<and> 0 \<le> max_freq_khz c \<and> cpu_id c \<notin> set order) cores"
  note best = best_core_filter [of "-1" in_pass order cores None]
  show ?case
  proof (cases "best_core in_pass order cores (-1) None")
    case None
    then have "?rest order = []"
      using best_core_None [of "?rest order" "-1"] best by (auto simp: filter_empty_conv)
    then show ?thesis using None by (simp del: filter_False)
  next
    case (Some c)
    then obtain xs ys where r: "?rest order = xs @ c # ys" "\<forall>x \<in> set xs. max_freq_khz x < max_freq_khz c"
      "\<forall>y \<in> set ys. max_freq_khz y \<le> max_freq_khz c"
      using best_core_first [of "?rest order" "-1" None c] best by auto
    have "distinct (map cpu_id (?rest order))" using assms by (rule distinct_map_filter)
    then have d: "cpu_id c \<notin> cpu_id ` set xs" "cpu_id c \<notin> cpu_id ` set ys" by (auto simp: r(1))
    have "?rest (order @ [cpu_id c]) = filter (\<lambda>d. cpu_id d \<noteq> cpu_id c) (?rest order)" by (auto intro: filter_cong)
    also have "\<dots> = xs @ ys"
      using d filter_True [of xs "\<lambda>d. cpu_id d \<noteq> cpu_id c"] filter_True [of ys "\<lambda>d. cpu_id d \<noteq> cpu_id c"]
      unfolding r(1) by (simp add: image_iff eq_commute)
    finally have r': "?rest (order @ [cpu_id c]) = xs @ ys" .
    have "order_pass (Suc n) in_pass cores order = order_pass n in_pass cores (order @ [cpu_id c])" using Some by simp
    also have "\<dots> = (order @ [cpu_id c]) @ map cpu_id (sort_key slower (xs @ ys))"
      using Suc.IH [of "order @ [cpu_id c]"] Suc.prems unfolding r' r(1) by simp
    also have "\<dots> = order @ map cpu_id (sort_key slower (?rest order))"
      using sort_key_first [of xs slower c ys] r(2,3) unfolding r(1) by simp
    finally show ?thesis .
  qed
qed simp

lemma build_order_sorts:
  assumes "distinct (map cpu_id cores)"
  shows "build_order cores = map cpu_id
    (sort_key slower (filter (\<lambda>c. is_big c \<and> 0 \<le> max_freq_khz c) cores) @
     sort_key slower (filter (\<lambda>c. \<not> is_big c \<and> 0 \<le> max_freq_khz c) cores))"
proof -
  let ?big = "order_pass (length cores) is_big cores []"
  have big: "?big = map cpu_id (sort_key slower (filter (\<lambda>c. is_big c \<and> 0 \<le> max_freq_khz c) cores))"
    using order_pass_sorts [OF assms, of is_big "[]" "length cores"] by simp
  have "filter (\<lambda>c. \<not> is_big c \<and> 0 \<le> max_freq_khz c \<and> cpu_id c \<notin> set ?big) cores = filter (\<lambda>c. \<not> is_big c \<and> 0 \<le> max_freq_khz c) cores"
  proof (rule filter_cong)
    fix c
    assume c: "c \<in> set cores"
    have "cpu_id c \<notin> set ?big" if "\<not> is_big c"
    proof
      assume "cpu_id c \<in> set ?big"
      then obtain d where "d \<in> set cores" "is_big d" "cpu_id d = cpu_id c" by (auto simp: big)
      then show False using that c assms by (auto simp: distinct_map dest: inj_onD)
    qed
    then show "(\<not> is_big c \<and> 0 \<le> max_freq_khz c \<and> cpu_id c \<notin> set ?big) = (\<not> is_big c \<and> 0 \<le> max_freq_khz c)" by blast
  qed simp
  then show ?thesis
    using order_pass_sorts [OF assms, of "\<lambda>c. \<not> is_big c" ?big "length cores"] big by (simp add: build_order_def Let_def)
qed

subsection \<open>The counters\<close>

definition counts_ok :: "cpu_topology \<Rightarrow> bool" where
  "counts_ok t \<longleftrightarrow> g_num_big_cores t = int (length (filter is_big (g_cpu_cores t))) \<and>
     g_num_little_cores t = int (length (filter (\<lambda>c. \<not> is_big c) (g_cpu_cores t)))"

lemma detect_loop_laws:
  "counts_ok t \<Longrightarrow> sorted_wrt (<) (map cpu_id (g_cpu_cores t)) \<Longrightarrow> \<forall>c \<in> set (g_cpu_cores t). 0 \<le> cpu_id c \<and> cpu_id c < int cpu \<Longrightarrow>
   counts_ok (detect_loop files n cpu t) \<and> sorted_wrt (<) (map cpu_id (g_cpu_cores (detect_loop files n cpu t))) \<and>
   (\<forall>c \<in> set (g_cpu_cores (detect_loop files n cpu t)). 0 \<le> cpu_id c \<and> cpu_id c < int (cpu + n))"
proof (induction n arbitrary: cpu t)
  case (Suc n)
  have id: "cpu_id (read_core files cpu) = int cpu"
    by (auto simp: read_core_def Let_def split: option.splits)
  show ?case
  proof (cases "cpu_presence files cpu")
    case Online
    have "counts_ok (add_core (read_core files cpu) t)" using Suc.prems(1) by (simp add: counts_ok_def add_core_def)
    moreover have "sorted_wrt (<) (map cpu_id (g_cpu_cores (add_core (read_core files cpu) t)))"
      using Suc.prems(2,3) by (simp add: add_core_def id sorted_wrt_append)
    moreover have "\<forall>c \<in> set (g_cpu_cores (add_core (read_core files cpu) t)). 0 \<le> cpu_id c \<and> cpu_id c < int (cpu + 1)"
      using Suc.prems(3) by (force simp: add_core_def id)
    ultimately show ?thesis using Suc.IH [of "add_core (read_core files cpu) t" "cpu + 1"] Online by simp
  next
    case Offline
    have "\<forall>c \<in> set (g_cpu_cores t). 0 \<le> cpu_id c \<and> cpu_id c < int (cpu + 1)" using Suc.prems(3) by force
    then show ?thesis using Suc.IH [of t "cpu + 1"] Suc.prems Offline by simp
  qed (use Suc.prems in force)
qed simp

lemma promote_counts:
  assumes "counts_ok t" "\<And>c. c \<in> set (g_cpu_cores t) \<Longrightarrow> test c \<Longrightarrow> \<not> is_big c"
  shows "counts_ok (promote test t)"
proof -
  have "length (filter is_big (map (\<lambda>c. if test c then c\<lparr>is_big := True\<rparr> else c) cs)) = length (filter is_big cs) + length (filter test cs) \<and>
    length (filter (\<lambda>c. \<not> is_big c) (map (\<lambda>c. if test c then c\<lparr>is_big := True\<rparr> else c) cs)) + length (filter test cs) =
      length (filter (\<lambda>c. \<not> is_big c) cs)"
    if "\<And>c. c \<in> set cs \<Longrightarrow> test c \<Longrightarrow> \<not> is_big c" for cs
    using that by (induction cs) auto
  from this [of "g_cpu_cores t"] show ?thesis using assms by (simp add: counts_ok_def promote_def Let_def)
qed

lemma promote_ids [simp]: "map cpu_id (g_cpu_cores (promote test t)) = map cpu_id (g_cpu_cores t)"
  by (simp add: promote_def Let_def)

lemma promote_freqs [simp]: "map max_freq_khz (g_cpu_cores (promote test t)) = map max_freq_khz (g_cpu_cores t)"
  by (simp add: promote_def Let_def)

lemma classify_counts: "counts_ok t \<Longrightarrow> counts_ok (classify_by_median t)"
  using promote_counts [of t] by (auto simp: classify_by_median_def counts_ok_def filter_empty_conv)

lemma promoted_counts: "counts_ok t \<Longrightarrow> counts_ok (promote_unrecognised t)"
  by (auto simp: promote_unrecognised_def intro!: promote_counts split: option.split)

lemma classify_ids: "map cpu_id (g_cpu_cores (promote_unrecognised (classify_by_median t))) = map cpu_id (g_cpu_cores t)"
  by (simp add: promote_unrecognised_def classify_by_median_def split: option.split)

subsection \<open>The clusters\<close>

text \<open>No LITTLE core runs as fast as a big one.\<close>

definition clusters_separated :: "cpu_core list \<Rightarrow> bool" where
  "clusters_separated cores \<longleftrightarrow> (\<forall>b \<in> set cores. \<forall>l \<in> set cores. is_big b \<and> \<not> is_big l \<longrightarrow> max_freq_khz l < max_freq_khz b)"

lemma min_big_freq_None: "min_big_freq cs m = None \<longleftrightarrow> (\<exists>c \<in> set cs. is_big c \<and> max_freq_khz c \<le> 0)"
  by (induction cs m rule: min_big_freq.induct) auto

lemma min_big_freq_le:
  assumes "min_big_freq cs m = Some k" "0 \<le> m"
  shows "(0 < m \<longrightarrow> 0 < k \<and> k \<le> m) \<and> (\<forall>c \<in> set cs. is_big c \<longrightarrow> 0 < k \<and> k \<le> max_freq_khz c)"
  using assms
proof (induction cs arbitrary: m)
  case (Cons c cs)
  then show ?case
    using Cons.IH [of m] Cons.IH [of "max_freq_khz c"] by (fastforce split: if_splits)
qed simp

lemma promoted_separated:
  assumes "counts_ok t"
  shows "(\<exists>c \<in> set (g_cpu_cores (promote_unrecognised t)). is_big c \<and> max_freq_khz c \<le> 0) \<or>
    clusters_separated (g_cpu_cores (promote_unrecognised t))"
proof (cases "0 < g_num_big_cores t \<and> g_num_big_cores t < int (length (g_cpu_cores t))")
  case False
  have "length (filter is_big (g_cpu_cores t)) = length (g_cpu_cores t) \<or> filter is_big (g_cpu_cores t) = []"
    using False assms le_antisym [OF length_filter_le [of is_big "g_cpu_cores t"]]
    by (cases "filter is_big (g_cpu_cores t) = []") (auto simp: counts_ok_def not_less)
  then have "clusters_separated (g_cpu_cores t)"
  proof
    assume "length (filter is_big (g_cpu_cores t)) = length (g_cpu_cores t)"
    then have "\<forall>c \<in> set (g_cpu_cores t). is_big c" by (metis length_filter_less less_irrefl)
    then show ?thesis by (simp add: clusters_separated_def)
  qed (simp add: clusters_separated_def filter_empty_conv)
  moreover have "promote_unrecognised t = t" using False unfolding promote_unrecognised_def by (rule if_not_P)
  ultimately show ?thesis by simp
next
  case True
  show ?thesis
  proof (cases "min_big_freq (g_cpu_cores t) 0")
    case None
    then show ?thesis using True min_big_freq_None [of "g_cpu_cores t" 0] by (simp add: promote_unrecognised_def)
  next
    case (Some m)
    have le: "\<forall>c \<in> set (g_cpu_cores t). is_big c \<longrightarrow> 0 < m \<and> m \<le> max_freq_khz c" using min_big_freq_le [OF Some] by simp
    have "filter is_big (g_cpu_cores t) \<noteq> []" using True assms by (auto simp: counts_ok_def)
    then have m: "0 < m" using le by (auto simp: filter_empty_conv)
    show ?thesis
      using True Some le m by (auto simp: promote_unrecognised_def promote_def Let_def clusters_separated_def split: if_splits)
  qed
qed

subsection \<open>Results\<close>

lemma detected_laws:
  fixes files t
  defines "t' \<equiv> promote_unrecognised (classify_by_median (detect_loop files MAX_CPUS 0 (t\<lparr>g_online_mask_snapshot := read_online_cpu_mask files,
    g_cpu_cores := [], g_num_big_cores := 0, g_num_little_cores := 0\<rparr>)))"
  shows "counts_ok t'" "sorted_wrt (<) (map cpu_id (g_cpu_cores t'))" "set (map cpu_id (g_cpu_cores t')) \<subseteq> {0..<int MAX_CPUS}"
    "(\<exists>c \<in> set (g_cpu_cores t'). is_big c \<and> max_freq_khz c \<le> 0) \<or> clusters_separated (g_cpu_cores t')"
proof -
  define t1 where "t1 = detect_loop files MAX_CPUS 0 (t\<lparr>g_online_mask_snapshot := read_online_cpu_mask files,
    g_cpu_cores := [], g_num_big_cores := 0, g_num_little_cores := 0\<rparr>)"
  have t1: "counts_ok t1" "sorted_wrt (<) (map cpu_id (g_cpu_cores t1))" "set (map cpu_id (g_cpu_cores t1)) \<subseteq> {0..<int MAX_CPUS}"
    using detect_loop_laws [of "t\<lparr>g_online_mask_snapshot := read_online_cpu_mask files, g_cpu_cores := [], g_num_big_cores := 0,
      g_num_little_cores := 0\<rparr>" 0 files MAX_CPUS] by (auto simp: t1_def counts_ok_def)
  then show "counts_ok t'" "sorted_wrt (<) (map cpu_id (g_cpu_cores t'))" "set (map cpu_id (g_cpu_cores t')) \<subseteq> {0..<int MAX_CPUS}"
    unfolding t'_def t1_def [symmetric] classify_ids by (simp_all add: promoted_counts classify_counts)
  show "(\<exists>c \<in> set (g_cpu_cores t'). is_big c \<and> max_freq_khz c \<le> 0) \<or> clusters_separated (g_cpu_cores t')"
    unfolding t'_def t1_def [symmetric] by (rule promoted_separated) (rule classify_counts [OF t1(1)])
qed

text \<open>
  C17. Whatever the files of the system say, a detection leaves a consistent topology: at most \<open>MAX_CPUS\<close> processors with increasing
  numbers, the two counters equal to the numbers of big and LITTLE cores also after both frequency heuristics, and, unless some big core
  has no readable frequency, every LITTLE core slower than every big one.
\<close>

theorem topology_consistent:
  fixes files t
  defines "t' \<equiv> detect_cpu_topology_now files t"
  shows "g_num_big_cores t' = int (length (filter is_big (g_cpu_cores t'))) \<and>
    g_num_little_cores t' = int (length (filter (\<lambda>c. \<not> is_big c) (g_cpu_cores t'))) \<and>
    length (g_cpu_cores t') \<le> MAX_CPUS \<and> sorted_wrt (<) (map cpu_id (g_cpu_cores t')) \<and>
    set (map cpu_id (g_cpu_cores t')) \<subseteq> {0..<int MAX_CPUS} \<and>
    ((\<exists>c \<in> set (g_cpu_cores t'). is_big c \<and> max_freq_khz c \<le> 0) \<or> clusters_separated (g_cpu_cores t'))"
proof -
  note l = detected_laws [where files = files and t = t]
  have ids: "sorted_wrt (<) (map cpu_id (g_cpu_cores t'))" "set (map cpu_id (g_cpu_cores t')) \<subseteq> {0..<int MAX_CPUS}"
    using l(2,3) by (simp_all add: t'_def detect_cpu_topology_now_def Let_def)
  have "card (set (map cpu_id (g_cpu_cores t'))) \<le> MAX_CPUS" using card_mono [OF _ ids(2)] by simp
  moreover have "distinct (map cpu_id (g_cpu_cores t'))" using ids(1) by (simp add: strict_sorted_iff)
  ultimately have "length (g_cpu_cores t') \<le> MAX_CPUS" by (metis distinct_card length_map)
  moreover have "counts_ok t'" "(\<exists>c \<in> set (g_cpu_cores t'). is_big c \<and> max_freq_khz c \<le> 0) \<or> clusters_separated (g_cpu_cores t')"
    using l(1,4) by (simp_all add: t'_def detect_cpu_topology_now_def Let_def counts_ok_def)
  ultimately show ?thesis using ids unfolding counts_ok_def by blast
qed

text \<open>
  C16. The pinning order after a detection is the stable sort it documents: first the big cores, then the LITTLE ones, each group from the
  fastest to the slowest and by number among equally fast ones; a core is left out only if its frequency reads as negative. So the
  first threads get distinct processors, and big ones first.
\<close>

theorem core_order_is_sorted:
  fixes files t
  defines "t' \<equiv> detect_cpu_topology_now files t"
  defines "cores \<equiv> filter (\<lambda>c. 0 \<le> max_freq_khz c) (g_cpu_cores t')"
  shows "g_core_order t' = map cpu_id (sort_key (\<lambda>c. - max_freq_khz c) (filter is_big cores) @
      sort_key (\<lambda>c. - max_freq_khz c) (filter (\<lambda>c. \<not> is_big c) cores)) \<and>
    inj_on (get_cpu_for_thread t') {..<length cores}"
proof -
  let ?cs = "g_cpu_cores t'"
  have ids: "distinct (map cpu_id ?cs)"
    using detected_laws(2) [where files = files and t = t]
    by (simp add: t'_def detect_cpu_topology_now_def Let_def strict_sorted_iff)
  have order: "g_core_order t' = map cpu_id (sort_key slower (filter is_big cores) @ sort_key slower (filter (\<lambda>c. \<not> is_big c) cores))"
    using build_order_sorts [OF ids] by (simp add: t'_def cores_def detect_cpu_topology_now_def Let_def conj_commute)
  have "length (g_core_order t') = length cores"
    using sum_length_filter_compl [of is_big cores] by (simp add: order)
  moreover have "distinct (g_core_order t')"
    using ids by (auto simp: order cores_def distinct_map inj_on_def)
  ultimately have "inj_on (get_cpu_for_thread t') {..<length cores}"
    by (auto simp: inj_on_def get_cpu_for_thread_def nth_eq_iff_index_eq)
  then show ?thesis using order by blast
qed

text \<open>The temperature is unknown (-1) or between 1 and 150 degrees, from at most 16 zones.\<close>

lemma zone_loop_bounded:
  "length zones \<le> MAX_THERMAL_ZONES \<Longrightarrow> length fallback \<le> MAX_THERMAL_ZONES \<Longrightarrow> zone_loop files n z zones fallback = (zones', fallback') \<Longrightarrow>
   length zones' \<le> MAX_THERMAL_ZONES \<and> length fallback' \<le> MAX_THERMAL_ZONES"
proof (induction n arbitrary: z zones fallback)
  case (Suc n)
  show ?case using Suc.prems
    by (auto split: if_splits option.splits dest!: Suc.IH [rotated 2] simp: Suc_le_eq not_le)
qed simp

lemma thermal_zones_bounded: "length (detect_thermal_zones files) \<le> MAX_THERMAL_ZONES"
  using zone_loop_bounded [of "[]" "[]" files 128 0] by (auto simp: detect_thermal_zones_def split: prod.split)

lemma zone_temp_bounds: "read_thermal_zone_temp files z = -1 \<or> read_thermal_zone_temp files z \<in> {1..150}"
  by (auto simp: read_thermal_zone_temp_def Let_def split: option.split)

lemma cpu_temp_bounds: "fst (get_cpu_temp files s) = -1 \<or> fst (get_cpu_temp files s) \<in> {1..150}"
proof -
  have "m = -1 \<or> m \<in> {1..150} \<Longrightarrow>
    (let r = fold (\<lambda>z m. let t = read_thermal_zone_temp files z in if m < t then t else m) zs m in r = -1 \<or> r \<in> {1..150})" for zs and m :: int
  proof (induction zs arbitrary: m)
    case (Cons z zs)
    then show ?case using Cons.IH [of "if m < read_thermal_zone_temp files z then read_thermal_zone_temp files z else m"]
        zone_temp_bounds [of files z] by (auto simp: Let_def)
  qed simp
  from this [of "-1"] show ?thesis by (simp add: get_cpu_temp_def Let_def)
qed

end
