(* ===== verification/Verus_Scan.thy ===== *)
theory Verus_Scan
  imports Verus_Hash Scan_Common Verus_Stratum Cpu_Features
begin

text \<open>
  The Verus scan of \<open>src/algorithm/verus.cpp\<close>: the runtime flags, the choice of the CLHash variant, the
  serialized job with its cleared fields for merged mining, the record of a share, the loop over pairs of nonces
  and the loop over single ones, and the check of a payload about to be submitted. \<^const>\<open>None\<close> stands for
  undefined behaviour and for the \<open>abort()\<close> of the self test.
\<close>

section \<open>The runtime and the choice of the variant\<close>

record verus_runtime =
  native_initialized :: bool
  native_available :: bool
  rc_native :: "v128 list"
  native_once :: bool

definition initial_verus_runtime :: verus_runtime where
  "initial_verus_runtime = \<lparr>native_initialized = False, native_available = False, rc_native = replicate 40 0, native_once = False\<rparr>"

definition init_native_functions :: "bool \<Rightarrow> verus_runtime \<Rightarrow> verus_runtime" where
  "init_native_functions has_crypto rt =
     (if \<not> has_crypto then rt\<lparr>native_initialized := True, native_available := False\<rparr>
      else rt\<lparr>rc_native := load_constants_native, native_initialized := True, native_available := True\<rparr>)"

definition verus_once :: "bool \<Rightarrow> verus_runtime \<Rightarrow> verus_runtime" where
  "verus_once has_crypto rt = (if native_once rt then rt else (init_native_functions has_crypto rt)\<lparr>native_once := True\<rparr>)"

definition verus_init_runtime :: "bool \<Rightarrow> verus_runtime \<Rightarrow> bool \<times> verus_runtime" where
  "verus_init_runtime has_crypto rt = (let rt = verus_once has_crypto rt in (native_available rt, rt))"

text \<open>
  What the three choices read: the environment variables, the processor the thread runs on
  (\<open>sched_getcpu\<close>), and the table of processors.
\<close>

record cpu_view =
  env_VERUS_X2 :: "string option"
  env_VERUS_FUSE :: "string option"
  env_VERUS_ASM :: "string option"
  env_VERUS_X2_SELFTEST :: "string option"
  current_cpu :: int
  view_topology :: cpu_topology

definition forced_choice :: "string option \<Rightarrow> bool option" where
  "forced_choice e = (case e of Some (c # _) \<Rightarrow> Some (c \<noteq> CHR ''0'') | _ \<Rightarrow> None)"

definition core_of :: "cpu_view \<Rightarrow> cpu_core option" where
  "core_of v = find (\<lambda>c. cpu_id c = current_cpu v) (g_cpu_cores (view_topology v))"

definition verus_use_x2_for_current_cpu :: "cpu_view \<Rightarrow> bool" where
  "verus_use_x2_for_current_cpu v =
     (case forced_choice (env_VERUS_X2 v) of
        Some b \<Rightarrow> b
      | None \<Rightarrow>
          if 0 < g_num_big_cores (view_topology v) \<and> 0 < g_num_little_cores (view_topology v) \<and> 0 \<le> current_cpu v
          then (case core_of v of Some c \<Rightarrow> is_big c | None \<Rightarrow> True)
          else True)"

definition fused_parts :: "int list" where
  "fused_parts = [0xD0A, 0xD0B, 0xD0D, 0xD41, 0xD4B, 0xD44, 0xD4C, 0xD47, 0xD48, 0xD4D, 0xD4E, 0xD81, 0xD82, 0xD87,
                  0xD85, 0xD8B, 0xD8C, 0xD90]"

definition verus_use_fused_for_current_cpu :: "cpu_view \<Rightarrow> bool" where
  "verus_use_fused_for_current_cpu v =
     (case forced_choice (env_VERUS_FUSE v) of
        Some b \<Rightarrow> b
      | None \<Rightarrow>
          if current_cpu v < 0 then False
          else case core_of v of
                 None \<Rightarrow> False
               | Some c \<Rightarrow>
                   if implementer c = 0x51 \<and> part_number c = 0x001 then True
                   else if implementer c = 0x51 \<and> part_number c = 0x802 then True
                   else part_number c \<in> set fused_parts)"

text \<open>As both comments ask, the ARM part of the list agrees with the list of big cores.\<close>

lemma fused_parts_are_big: "part \<in> set fused_parts \<longleftrightarrow> is_big_core 0x41 part"
  by (auto simp: fused_parts_def is_big_core_def big_arm_parts_def)

definition verus_use_asm_for_current_cpu :: "cpu_view \<Rightarrow> bool" where
  "verus_use_asm_for_current_cpu v = (case forced_choice (env_VERUS_ASM v) of Some b \<Rightarrow> b | None \<Rightarrow> True)"

text \<open>The x2 function the scan calls, and the build of the single-nonce loop.\<close>

definition chosen_build :: "cpu_view \<Rightarrow> clhash_build" where
  "chosen_build v = (if verus_use_asm_for_current_cpu v then asm_build else noasm_build)"

definition chosen_x2 :: "cpu_view \<Rightarrow> clhash_x2" where
  "chosen_x2 v =
     (if verus_use_fused_for_current_cpu v then verusclhash_port2_2_x2f_native (chosen_build v)
      else verusclhash_port2_2_x2_native (chosen_build v))"

definition verus_selftest :: "cpu_view \<Rightarrow> bool" where
  "verus_selftest v = (case env_VERUS_X2_SELFTEST v of Some (c # _) \<Rightarrow> c = CHR ''1'' | _ \<Rightarrow> False)"

section \<open>The serialized job\<close>

definition kNonceWordIndex :: nat where "kNonceWordIndex = 30"
definition kHeaderBytes :: nat where "kHeaderBytes = 140"
definition kMergedMiningPrefix :: bytes where "kMergedMiningPrefix = [0xfd, 0x40, 0x05]"
definition kSolutionBytes :: nat where "kSolutionBytes = 1344"
definition kStoredSolutionBytes :: nat where "kStoredSolutionBytes = 3 + kSolutionBytes"
definition kSerializedJobBytes :: nat where "kSerializedJobBytes = kHeaderBytes + kStoredSolutionBytes"

lemmas verus_sizes = kNonceWordIndex_def kHeaderBytes_def kSolutionBytes_def kStoredSolutionBytes_def kSerializedJobBytes_def
  VERUS_SOLUTION_NONCE_OFFSET_def VERUS_NONCE_TAIL_BYTES_def VERUS_WORK_EXTRA_SIZE_def VERUS_WORK_SOLUTION_SIZE_def

definition merged_solution :: "bytes \<Rightarrow> bool" where
  "merged_solution solution \<longleftrightarrow> 7 \<le> solution ! 0 \<and> 0 < solution ! 5"

text \<open>The fields a merged-mining job clears, in the header and behind the solution prefix.\<close>

definition clear_noncanonical :: "bytes \<Rightarrow> bytes" where
  "clear_noncanonical job =
     (let job = memcpy job 4 (replicate 96 0);
          job = memcpy job (4 + 32 + 32 + 32 + 4) (replicate 4 0);
          job = memcpy job (4 + 32 + 32 + 32 + 4 + 4) (replicate 32 0)
      in memcpy job (kHeaderBytes + 3 + 8) (replicate 64 0))"

definition serialize_job :: "u32 list \<Rightarrow> bytes \<Rightarrow> bytes \<times> bytes" where
  "serialize_job pdata work_solution =
     (let job = take kHeaderBytes (words_bytes pdata) @ kMergedMiningPrefix @ take kSolutionBytes work_solution
      in if merged_solution work_solution then
           (clear_noncanonical job,
            take 7 (drop (4 * (kNonceWordIndex - 3)) (words_bytes pdata)) @
            take 4 (drop (4 * (kNonceWordIndex + 2)) (words_bytes pdata)) @ replicate 4 0)
         else (job, replicate VERUS_NONCE_TAIL_BYTES 0))"

text \<open>What stays fixed during a scan.\<close>

record verus_job =
  vj_serialized :: bytes
  vj_merged :: bool
  vj_target :: "u32 list"

section \<open>Recording a share\<close>

definition verus_record_share :: "verus_job \<Rightarrow> bytes \<Rightarrow> bytes \<Rightarrow> work \<Rightarrow> work" where
  "verus_record_share job nspace full_hash work =
     (if unat (work_valid_nonces work) < MAX_NONCES then
        let nonce = unat (work_valid_nonces work);
            work = work\<lparr>work_valid_nonces := work_valid_nonces work + 1,
                        work_data := store_bytes (work_data work) 0 (take kHeaderBytes (vj_serialized job))\<rparr>;
            work = (if vj_merged job
                    then work\<lparr>work_data := store_bytes (work_data work) (4 * (kNonceWordIndex + 2)) (take 4 (drop 7 nspace))\<rparr>
                    else work);
            work = work\<lparr>work_verus := map_option (\<lambda>p. p\<lparr>
                     payload_extra := memcpy (memcpy (payload_extra p) 0 (drop kHeaderBytes (vj_serialized job)))
                       VERUS_SOLUTION_NONCE_OFFSET nspace,
                     payload_nonce_tail := (payload_nonce_tail p)[nonce := nspace],
                     payload_full_hash := (payload_full_hash p)[nonce := full_hash]\<rparr>) (work_verus work)\<rparr>;
            work = bn_store_share_difficulty (bytes_words full_hash) (work_target work) work (int nonce)
        in work\<lparr>work_nonces := (work_nonces work)[nonce := le32dec (drop (4 * kNonceWordIndex) (vj_serialized job))]\<rparr>
      else work)"

text \<open>
  \<open>try_record_share\<close>: the filter on word 7, the full hash over a copy of \<open>half\<close>, the cross-check of word 7
  and the comparison of all 256 bits. It borrows the key and the journal of the first chain.
\<close>

definition try_record_share ::
  "verus_job \<Rightarrow> bytes \<Rightarrow> bytes \<Rightarrow> bytes \<Rightarrow> work \<Rightarrow> v128 list \<Rightarrow> clhash_journal \<Rightarrow> (bool \<times> work \<times> v128 list \<times> clhash_journal) option" where
  "try_record_share job half chash nspace work key j =
     (if vj_target job ! 7 < le32dec (drop 28 chash) then Some (False, work, key, j)
      else do {
        (full_hash, full_scratch, key, j) \<leftarrow> compute_verus_hash_full noasm_build half nspace key j;
        if le32dec (drop 28 full_hash) \<noteq> le32dec (drop 28 chash) then Some (False, work, key, j)
        else if \<not> hash_le_target (bytes_words full_hash) (vj_target job) then Some (False, work, key, j)
        else Some (True, verus_record_share job nspace full_hash work, key, j)
      })"

section \<open>The loops\<close>

record verus_scan =
  vs_work :: work
  vs_key :: "v128 list"
  vs_key2 :: "v128 list"
  vs_journal :: clhash_journal
  vs_journal2 :: clhash_journal
  vs_half :: bytes
  vs_cur_a :: bytes
  vs_cur_b :: bytes
  vs_cand :: bytes
  vs_cand_b :: bytes
  vs_nspace :: bytes
  vs_nspace_b :: bytes
  vs_nonce :: u32
  vs_polls :: nat

text \<open>The cross-check of one chain; \<open>ref\<close> is the uninitialised reference buffer.\<close>

definition selftest_chain ::
  "bool \<times> haraka_state \<Rightarrow> bytes \<Rightarrow> bytes \<Rightarrow> bytes \<Rightarrow> bytes \<Rightarrow> v128 list \<Rightarrow> clhash_journal \<Rightarrow> (v128 list \<times> clhash_journal) option" where
  "selftest_chain mix ref half nspace candidate key j = do {
     (ref_hash, scratch, key, j) \<leftarrow> compute_verus_hash (noasm_build, mix) ref half nspace key j;
     if le32dec (drop 28 ref_hash) \<noteq> le32dec (drop 28 candidate) then None else Some (key, j)
   }"

definition x2_body ::
  "cpu_view \<Rightarrow> bool \<times> haraka_state \<Rightarrow> bytes \<Rightarrow> verus_job \<Rightarrow> verus_scan \<Rightarrow> (bool \<times> bool \<times> verus_scan) option" where
  "x2_body v mix ref job s = do {
     let nonce_b = vs_nonce s + 1;
     let nspace = memcpy (vs_nspace s) 11 (le32enc (vs_nonce s));
     let nspace_b = memcpy (vs_nspace_b s) 11 (le32enc nonce_b);
     let cur_a = prepare_hash_buf (vs_cur_a s) nspace;
     let cur_b = prepare_hash_buf (vs_cur_b s) nspace_b;
     ((inter_a, key, j), (inter_b, key2, j2)) \<leftarrow>
       chosen_x2 v cur_a cur_b kClHashKeyMask (vs_key s) (vs_key2 s) (vs_journal s) (vs_journal2 s);
     (cand, cur_a, key) \<leftarrow> finalize_verus_hash (chosen_build v, mix) (vs_cand s) cur_a inter_a key j;
     (cand_b, cur_b, key2) \<leftarrow> finalize_verus_hash (chosen_build v, mix) (vs_cand_b s) cur_b inter_b key2 j2;
     (key, j) \<leftarrow>
       (if verus_selftest v then do {
          (key, j) \<leftarrow> selftest_chain mix ref (vs_half s) nspace cand key j;
          selftest_chain mix ref (vs_half s) nspace_b cand_b key j
        } else Some (key, j));
     (found_a, work, key, j) \<leftarrow> try_record_share job (vs_half s) cand nspace (vs_work s) key j;
     (found_b, work, key, j) \<leftarrow> try_record_share job (vs_half s) cand_b nspace_b work key j;
     Some (found_a, found_b, s\<lparr>vs_work := work, vs_key := key, vs_key2 := key2, vs_journal := j, vs_journal2 := j2,
       vs_cur_a := cur_a, vs_cur_b := cur_b, vs_cand := cand, vs_cand_b := cand_b, vs_nspace := nspace, vs_nspace_b := nspace_b\<rparr>)
   }"

text \<open>
  The loop over pairs. The natural number is \<open>max_hashes - scanned_hashes\<close>; \<open>stop k\<close> is the answer of poll \<open>k\<close> of
  the restart and abort flags. The result tells whether the scan goes to \<open>out\<close> and what is left.
\<close>

fun verus_x2_loop ::
  "(verus_scan \<Rightarrow> (bool \<times> bool \<times> verus_scan) option) \<Rightarrow> (nat \<Rightarrow> bool) \<Rightarrow> nat \<Rightarrow> verus_scan \<Rightarrow> (bool \<times> nat \<times> verus_scan) option" where
  "verus_x2_loop body stop (Suc (Suc r)) s =
     (if stop (vs_polls s) then Some (False, Suc (Suc r), s\<lparr>vs_polls := vs_polls s + 1\<rparr>)
      else case body (s\<lparr>vs_polls := vs_polls s + 1\<rparr>) of
             None \<Rightarrow> None
           | Some (found_a, found_b, s) \<Rightarrow>
               if found_a \<or> found_b then Some (True, r, s\<lparr>vs_nonce := vs_nonce s + (if found_b then 2 else 1)\<rparr>)
               else verus_x2_loop body stop r (s\<lparr>vs_nonce := vs_nonce s + 2\<rparr>))"
| "verus_x2_loop body stop r s = Some (False, r, s)"

definition x1_body :: "cpu_view \<Rightarrow> bool \<times> haraka_state \<Rightarrow> verus_job \<Rightarrow> verus_scan \<Rightarrow> (bool \<times> verus_scan) option" where
  "x1_body v mix job s = do {
     let nspace = memcpy (vs_nspace s) 11 (le32enc (vs_nonce s));
     (cand, half, key, j) \<leftarrow> compute_verus_hash (chosen_build v, mix) (vs_cand s) (vs_half s) nspace (vs_key s) (vs_journal s);
     (found, work, key, j) \<leftarrow> try_record_share job half cand nspace (vs_work s) key j;
     Some (found, s\<lparr>vs_work := work, vs_key := key, vs_journal := j, vs_half := half, vs_cand := cand, vs_nspace := nspace,
                    vs_nonce := vs_nonce s + 1\<rparr>)
   }"

text \<open>The loop over single nonces polls on every eighth one; \<open>ctr\<close> is \<open>flag_check_ctr\<close>.\<close>

fun verus_x1_loop ::
  "(verus_scan \<Rightarrow> (bool \<times> verus_scan) option) \<Rightarrow> (nat \<Rightarrow> bool) \<Rightarrow> nat \<Rightarrow> u32 \<Rightarrow> verus_scan \<Rightarrow> (nat \<times> verus_scan) option" where
  "verus_x1_loop body stop 0 ctr s = Some (0, s)"
| "verus_x1_loop body stop (Suc r) ctr s =
     (let poll = (ctr AND 7 = 0);
          s = (if poll then s\<lparr>vs_polls := vs_polls s + 1\<rparr> else s)
      in if poll \<and> stop (vs_polls s - 1) then Some (Suc r, s)
         else case body s of
                None \<Rightarrow> None
              | Some (found, s) \<Rightarrow> if found then Some (r, s) else verus_x1_loop body stop r (ctr + 1) s)"

text \<open>
  \<open>scanhash_verus\<close>. \<open>junk\<close> gives the contents of the uninitialised buffers (the second buffer of the absorption, the
  reference hash, the vectors of the truncated finalizer, the journals) and \<open>hashes_done\<close> what the caller passes in.
\<close>

record verus_junk =
  junk_buffer :: bytes
  junk_ref :: bytes
  junk_vectors :: haraka_state
  junk_journal :: clhash_journal
  junk_journal2 :: clhash_journal

definition scan_start :: "bytes \<Rightarrow> v128 list \<Rightarrow> bytes \<Rightarrow> verus_junk \<Rightarrow> work \<Rightarrow> verus_scan" where
  "scan_start half key nspace junk work =
     \<lparr>vs_work = work, vs_key = key, vs_key2 = key, vs_journal = junk_journal junk, vs_journal2 = junk_journal2 junk,
      vs_half = half, vs_cur_a = half, vs_cur_b = half, vs_cand = replicate 32 0, vs_cand_b = replicate 32 0,
      vs_nspace = nspace, vs_nspace_b = nspace, vs_nonce = work_data work ! kNonceWordIndex, vs_polls = 0\<rparr>"

definition scanhash_verus ::
  "bool \<Rightarrow> cpu_view \<Rightarrow> bool \<Rightarrow> verus_junk \<Rightarrow> (nat \<Rightarrow> bool) \<Rightarrow> verus_runtime \<Rightarrow> u32 \<Rightarrow> u64 \<Rightarrow> work \<Rightarrow>
   (verus_runtime \<times> work \<times> nat \<times> u64) option" where
  "scanhash_verus has_crypto v use_zip junk stop rt max_hashes hashes_done work =
     (let rt = verus_once has_crypto rt
      in if \<not> native_available rt then Some (rt, work, 0, 0)
         else case (miner_work_solution work, miner_work_extra work) of
           (Some work_solution, Some work_extra) \<Rightarrow> do {
             let (serialized_job, nonce_space) = serialize_job (work_data work) work_solution;
             half \<leftarrow> build_blockhash_half (rc_native rt) (junk_buffer junk) serialized_job;
             let key = generate_cl_key (rc_native rt) half;
             let job = \<lparr>vj_serialized = serialized_job, vj_merged = merged_solution work_solution, vj_target = work_target work\<rparr>;
             let mix = (use_zip, junk_vectors junk);
             (out, r, s) \<leftarrow>
               (if verus_use_x2_for_current_cpu v
                then verus_x2_loop (x2_body v mix (junk_ref junk) job) stop (unat max_hashes)
                       (scan_start half key nonce_space junk work)
                else Some (False, unat max_hashes, scan_start half key nonce_space junk work));
             (r, s) \<leftarrow> (if out then Some (r, s) else verus_x1_loop (x1_body v mix job) stop r 0 s);
             Some (rt, (vs_work s)\<lparr>work_data := (work_data (vs_work s))[kNonceWordIndex := vs_nonce s]\<rparr>,
                   unat (work_valid_nonces (vs_work s)), of_nat (unat max_hashes - r))
           }
         | _ \<Rightarrow> Some (rt, work, 0, hashes_done))"

section \<open>The check of a submitted payload\<close>

definition verus_verify_submitted_payload ::
  "verus_runtime \<Rightarrow> bytes \<Rightarrow> clhash_journal \<Rightarrow> u32 list \<Rightarrow> bytes \<Rightarrow> bytes option \<Rightarrow> (bool \<times> bytes) option" where
  "verus_verify_submitted_payload rt buffer_b j header_words extra expected_hash =
     (if \<not> native_available rt then Some (True, [])
      else do {
        let rebuilt = take kHeaderBytes (words_bytes header_words) @ take kStoredSolutionBytes extra;
        let rebuilt = (if merged_solution (drop 3 extra) then clear_noncanonical rebuilt else rebuilt);
        let nonce_space = take VERUS_NONCE_TAIL_BYTES (drop VERUS_SOLUTION_NONCE_OFFSET extra);
        half \<leftarrow> build_blockhash_half (rc_native rt) buffer_b rebuilt;
        let key = generate_cl_key (rc_native rt) half;
        (out_hash, _, _, _) \<leftarrow> compute_verus_hash_full noasm_build half nonce_space key j;
        Some (case expected_hash of Some h \<Rightarrow> out_hash = h | None \<Rightarrow> True, out_hash)
      })"

section \<open>What one nonce does\<close>

text \<open>The nonce bytes of a search counter, and what a scan keeps fixed while it runs.\<close>

definition nonce_tail :: "bytes \<Rightarrow> u32 \<Rightarrow> bytes" where
  "nonce_tail ns n = take 11 ns @ le32enc n"

definition nonce_hash :: "v128 list \<Rightarrow> bytes \<Rightarrow> bytes \<Rightarrow> u32 \<Rightarrow> bytes" where
  "nonce_hash key half ns n = verus_hash key half (nonce_tail ns n)"

definition nonce_meets :: "v128 list \<Rightarrow> bytes \<Rightarrow> bytes \<Rightarrow> verus_job \<Rightarrow> u32 \<Rightarrow> bool" where
  "nonce_meets key half ns job n \<longleftrightarrow> hash_le_target (bytes_words (nonce_hash key half ns n)) (vj_target job)"

definition scan_inv :: "v128 list \<Rightarrow> bytes \<Rightarrow> bytes \<Rightarrow> verus_scan \<Rightarrow> bool" where
  "scan_inv key half ns s \<longleftrightarrow> vs_key s = key \<and> vs_key2 s = key \<and> journal_ok (vs_journal s) \<and> journal_ok (vs_journal2 s) \<and>
     length (vs_half s) = 64 \<and> take 32 (vs_half s) = take 32 half \<and>
     length (vs_cur_a s) = 64 \<and> take 32 (vs_cur_a s) = take 32 half \<and>
     length (vs_cur_b s) = 64 \<and> take 32 (vs_cur_b s) = take 32 half \<and>
     length (vs_cand s) = 32 \<and> length (vs_cand_b s) = 32 \<and>
     length (vs_nspace s) = 15 \<and> take 11 (vs_nspace s) = take 11 ns \<and>
     length (vs_nspace_b s) = 15 \<and> take 11 (vs_nspace_b s) = take 11 ns"

definition scan_job_ok :: "v128 list \<Rightarrow> bytes \<Rightarrow> bytes \<Rightarrow> bool" where
  "scan_job_ok key half ns \<longleftrightarrow> length key = VERUS_KEY_SIZE128 \<and> length half = 64 \<and> length ns = 15"

lemma length_nonce_tail [simp]: "length ns = 15 \<Longrightarrow> length (nonce_tail ns n) = 15"
  by (simp add: nonce_tail_def)

lemma memcpy_nonce_tail: "length x = 15 \<Longrightarrow> take 11 x = take 11 ns \<Longrightarrow> memcpy x 11 (le32enc n) = nonce_tail ns n"
  by (simp add: memcpy_def nonce_tail_def)

lemma bytes_words_last: "length h = 32 \<Longrightarrow> bytes_words h ! 7 = le32dec (drop 28 h)"
  using words_bytes_nth [of 7 "bytes_words h"] words_bytes_words [of h 8] length_bytes_words [of h 8] le32dec_enc [of "bytes_words h ! 7"]
  by simp

lemma try_record_share_result:
  fixes job :: verus_job
  assumes "scan_job_ok key half ns" "length h = 64" "take 32 h = take 32 half" "journal_ok j" "length nsp = 15"
    and "length chash = 32" "drop 28 chash = drop 28 (verus_hash key half nsp)"
  defines "H \<equiv> verus_hash key half nsp"
  defines "P \<equiv> hash_le_target (bytes_words H) (vj_target job)"
  obtains j' where "try_record_share job h chash nsp work key j = Some (P, if P then verus_record_share job nsp H work else work, key, j')"
    "journal_ok j'"
proof -
  have same: "verus_hash key h nsp = H" using verus_hash_head [of h half nsp] assms by (simp add: H_def scan_job_ok_def)
  obtain c j' where f: "compute_verus_hash_full noasm_build h nsp key j = Some (H, c, key, j')" "length H = 32" "journal_ok j'"
    using verus_hash_total [of h nsp key j noasm_build] assms(1,2,4,5) unfolding scan_job_ok_def same by metis
  have top: "P \<Longrightarrow> le32dec (drop 28 chash) \<le> vj_target job ! 7"
    using hash_le_target_top [of "bytes_words H" "vj_target job"] assms(7) f(2) by (simp add: P_def H_def bytes_words_last)
  show ?thesis
  proof (cases "vj_target job ! 7 < le32dec (drop 28 chash)")
    case True
    then have "\<not> P" using top by auto
    then show ?thesis using True that [of j] assms(4) by (simp add: try_record_share_def)
  next
    case False
    then show ?thesis using that [of j'] f assms(7) by (simp add: try_record_share_def P_def H_def)
  qed
qed

lemma x1_body_result:
  fixes job :: verus_job
  assumes "scan_job_ok key half ns" "scan_inv key half ns s"
  defines "n \<equiv> vs_nonce s"
  defines "P \<equiv> nonce_meets key half ns job n"
  obtains s' where "x1_body v mix job s = Some (P, s')" "scan_inv key half ns s'" "vs_nonce s' = n + 1" "vs_polls s' = vs_polls s"
    "vs_work s' = (if P then verus_record_share job (nonce_tail ns n) (nonce_hash key half ns n) (vs_work s) else vs_work s)"
proof -
  let ?ns = "nonce_tail ns n"
  have i: "vs_key s = key" "journal_ok (vs_journal s)" "length (vs_half s) = 64" "take 32 (vs_half s) = take 32 half"
    "length (vs_cand s) = 32" "memcpy (vs_nspace s) 11 (le32enc n) = ?ns" "length ?ns = 15" "length key = VERUS_KEY_SIZE128"
    using assms(1,2) by (simp_all add: scan_inv_def scan_job_ok_def memcpy_nonce_tail)
  have same: "verus_hash key (vs_half s) ?ns = verus_hash key half ?ns"
    using verus_hash_head [of "vs_half s" half ?ns] i assms(1) by (simp add: scan_job_ok_def)
  obtain mz mn where mix: "mix = (mz, mn)" by (cases mix)
  obtain h j where c: "compute_verus_hash (chosen_build v, mix) (vs_cand s) (vs_half s) ?ns key (vs_journal s) =
      Some (memcpy (vs_cand s) 28 (drop 28 (verus_hash key half ?ns)), h, key, j)"
    "length (verus_hash key half ?ns) = 32" "length h = 64" "take 32 h = take 32 (vs_half s)" "journal_ok j"
    using verus_hash_total [OF i(3,7,8,2), of "chosen_build v"] unfolding same mix by metis
  let ?c = "memcpy (vs_cand s) 28 (drop 28 (verus_hash key half ?ns))"
  have cl: "length ?c = 32" "drop 28 ?c = drop 28 (verus_hash key half ?ns)" using c(2) i(5) by (simp_all add: memcpy_def)
  obtain j' where t: "try_record_share job h ?c ?ns (vs_work s) key j =
      Some (P, if P then verus_record_share job ?ns (nonce_hash key half ns n) (vs_work s) else vs_work s, key, j')" "journal_ok j'"
    using try_record_share_result [OF assms(1) c(3) _ c(5) i(7) cl, of job "vs_work s"] c(4) i(4)
    unfolding P_def nonce_meets_def nonce_hash_def by metis
  show ?thesis
  proof (rule that)
    show "x1_body v mix job s = Some (P, s\<lparr>vs_work := if P then verus_record_share job ?ns (nonce_hash key half ns n) (vs_work s) else vs_work s,
        vs_key := key, vs_journal := j', vs_half := h, vs_cand := ?c, vs_nspace := ?ns, vs_nonce := n + 1\<rparr>)"
      using c(1) t(1) i(1,6) by (simp add: x1_body_def Let_def flip: n_def)
  qed (use assms(2) c i t cl in \<open>simp_all add: scan_inv_def nonce_tail_def\<close>)
qed

section \<open>What a pair of nonces does\<close>

lemma chosen_x2_is_two_x1:
  "chosen_x2 v buf1 buf2 m key1 key2 j1 j2 =
   do { r1 \<leftarrow> verusclhash_port2_2_native (chosen_build v) buf1 m key1 j1;
        r2 \<leftarrow> verusclhash_port2_2_native (chosen_build v) buf2 m key2 j2;
        Some (r1, r2) }"
  by (simp add: chosen_x2_def x2_is_two_x1 x2f_is_two_x1)

lemma compute_by_parts:
  "compute_verus_hash vb hash cur nonce key j = Some (h, c, k, j') \<Longrightarrow>
   \<exists>v key1. verusclhash_port2_2_native (fst vb) (prepare_hash_buf cur nonce) kClHashKeyMask key j = Some (v, key1, j') \<and>
     finalize_verus_hash vb hash (prepare_hash_buf cur nonce) v key1 j' = Some (h, c, k)"
  by (auto simp: compute_verus_hash_def Let_def bind_eq_Some_conv)

text \<open>One chain of a pair.\<close>

lemma chain_result:
  fixes n :: u32
  assumes "scan_job_ok key half ns" "length cur = 64" "take 32 cur = take 32 half" "length cand = 32" "journal_ok j"
  defines "nsp \<equiv> nonce_tail ns n"
  obtains v' key1 cand' cur' j' where
    "verusclhash_port2_2_native (chosen_build v) (prepare_hash_buf cur nsp) kClHashKeyMask key j = Some (v', key1, j')"
    "finalize_verus_hash (chosen_build v, mix) cand (prepare_hash_buf cur nsp) v' key1 j' = Some (cand', cur', key)"
    "length cand' = 32" "drop 28 cand' = drop 28 (nonce_hash key half ns n)" "length cur' = 64" "take 32 cur' = take 32 half" "journal_ok j'"
proof -
  have k: "length nsp = 15" "length key = VERUS_KEY_SIZE128" using assms(1) by (simp_all add: scan_job_ok_def nsp_def)
  have same: "verus_hash key cur nsp = nonce_hash key half ns n"
    using verus_hash_head [of cur half nsp] assms(1-3) k by (simp add: scan_job_ok_def nonce_hash_def nsp_def)
  obtain mz mn where mix: "mix = (mz, mn)" by (cases mix)
  obtain cur' j' where c: "compute_verus_hash (chosen_build v, mix) cand cur nsp key j =
      Some (memcpy cand 28 (drop 28 (nonce_hash key half ns n)), cur', key, j')"
    "length (nonce_hash key half ns n) = 32" "length cur' = 64" "take 32 cur' = take 32 cur" "journal_ok j'"
    using verus_hash_total [OF assms(2) k(1,2) assms(5), of "chosen_build v"] unfolding same mix by metis
  show ?thesis
    using compute_by_parts [OF c(1)] that c assms(3,4) by (auto simp: memcpy_def)
qed

lemma selftest_passes:
  assumes "scan_job_ok key half ns" "length h = 64" "take 32 h = take 32 half" "length ref = 32" "journal_ok j"
    and "length cand = 32" "drop 28 cand = drop 28 (nonce_hash key half ns n)"
  obtains j' where "selftest_chain mix ref h (nonce_tail ns n) cand key j = Some (key, j')" "journal_ok j'"
proof -
  have k: "length (nonce_tail ns n) = 15" "length key = VERUS_KEY_SIZE128" using assms(1) by (simp_all add: scan_job_ok_def)
  have same: "verus_hash key h (nonce_tail ns n) = nonce_hash key half ns n"
    using verus_hash_head [of h half "nonce_tail ns n"] assms(1-3) k by (simp add: scan_job_ok_def nonce_hash_def)
  obtain mz mn where mix: "mix = (mz, mn)" by (cases mix)
  obtain c j' where c: "compute_verus_hash (noasm_build, mix) ref h (nonce_tail ns n) key j =
      Some (memcpy ref 28 (drop 28 (nonce_hash key half ns n)), c, key, j')" "length (nonce_hash key half ns n) = 32" "journal_ok j'"
    using verus_hash_total [OF assms(2) k assms(5), of noasm_build] unfolding same mix by metis
  show ?thesis using that [of j'] c assms(4,7) by (simp add: selftest_chain_def memcpy_def)
qed

lemma x2_body_result:
  fixes job :: verus_job
  assumes "scan_job_ok key half ns" "scan_inv key half ns s" "length ref = 32"
  defines "n \<equiv> vs_nonce s"
  defines "P \<equiv> nonce_meets key half ns job" and "R \<equiv> \<lambda>n. verus_record_share job (nonce_tail ns n) (nonce_hash key half ns n)"
  obtains s' where "x2_body v mix ref job s = Some (P n, P (n + 1), s')" "scan_inv key half ns s'" "vs_nonce s' = n"
    "vs_polls s' = vs_polls s"
    "vs_work s' = (let w = (if P n then R n (vs_work s) else vs_work s) in if P (n + 1) then R (n + 1) w else w)"
proof -
  let ?na = "nonce_tail ns n" and ?nb = "nonce_tail ns (n + 1)"
  have i: "vs_key s = key" "vs_key2 s = key" "journal_ok (vs_journal s)" "journal_ok (vs_journal2 s)"
    "length (vs_half s) = 64" "take 32 (vs_half s) = take 32 half" "length (vs_cur_a s) = 64" "take 32 (vs_cur_a s) = take 32 half"
    "length (vs_cur_b s) = 64" "take 32 (vs_cur_b s) = take 32 half" "length (vs_cand s) = 32" "length (vs_cand_b s) = 32"
    "memcpy (vs_nspace s) 11 (le32enc n) = ?na" "memcpy (vs_nspace_b s) 11 (le32enc (n + 1)) = ?nb" "length ?na = 15" "length ?nb = 15"
    using assms(1,2) by (simp_all add: scan_inv_def scan_job_ok_def memcpy_nonce_tail)
  obtain va keya ca cura ja where a:
    "verusclhash_port2_2_native (chosen_build v) (prepare_hash_buf (vs_cur_a s) ?na) kClHashKeyMask key (vs_journal s) = Some (va, keya, ja)"
    "finalize_verus_hash (chosen_build v, mix) (vs_cand s) (prepare_hash_buf (vs_cur_a s) ?na) va keya ja = Some (ca, cura, key)"
    "length ca = 32" "drop 28 ca = drop 28 (nonce_hash key half ns n)" "length cura = 64" "take 32 cura = take 32 half" "journal_ok ja"
    by (rule chain_result [OF assms(1) i(7,8,11,3)])
  obtain vb keyb cb curb jb where b:
    "verusclhash_port2_2_native (chosen_build v) (prepare_hash_buf (vs_cur_b s) ?nb) kClHashKeyMask key (vs_journal2 s) = Some (vb, keyb, jb)"
    "finalize_verus_hash (chosen_build v, mix) (vs_cand_b s) (prepare_hash_buf (vs_cur_b s) ?nb) vb keyb jb = Some (cb, curb, key)"
    "length cb = 32" "drop 28 cb = drop 28 (nonce_hash key half ns (n + 1))" "length curb = 64" "take 32 curb = take 32 half" "journal_ok jb"
    by (rule chain_result [OF assms(1) i(9,10,12,4)])
  obtain j1 where s1: "selftest_chain mix ref (vs_half s) ?na ca key ja = Some (key, j1)" "journal_ok j1"
    by (rule selftest_passes [OF assms(1) i(5,6) assms(3) a(7,3,4)])
  obtain j2 where s2: "selftest_chain mix ref (vs_half s) ?nb cb key j1 = Some (key, j2)" "journal_ok j2"
    by (rule selftest_passes [OF assms(1) i(5,6) assms(3) s1(2) b(3,4)])
  define j3 where "j3 = (if verus_selftest v then j2 else ja)"
  have j3: "journal_ok j3" using s2 a(7) by (simp add: j3_def)
  define w1 where "w1 = (if P n then R n (vs_work s) else vs_work s)"
  define w2 where "w2 = (if P (n + 1) then R (n + 1) w1 else w1)"
  obtain j4 where t1: "try_record_share job (vs_half s) ca ?na (vs_work s) key j3 = Some (P n, w1, key, j4)" "journal_ok j4"
    using try_record_share_result [OF assms(1) i(5,6) j3 i(15) a(3), of job "vs_work s"] a(4)
    unfolding P_def R_def nonce_meets_def nonce_hash_def w1_def by metis
  obtain j5 where t2: "try_record_share job (vs_half s) cb ?nb w1 key j4 = Some (P (n + 1), w2, key, j5)" "journal_ok j5"
    using try_record_share_result [OF assms(1) i(5,6) t1(2) i(16) b(3), of job w1] b(4)
    unfolding P_def R_def nonce_meets_def nonce_hash_def w2_def by metis
  show ?thesis
  proof (rule that)
    show "x2_body v mix ref job s = Some (P n, P (n + 1), s\<lparr>vs_work := w2, vs_key := key, vs_key2 := key, vs_journal := j5,
        vs_journal2 := jb, vs_cur_a := cura, vs_cur_b := curb, vs_cand := ca, vs_cand_b := cb, vs_nspace := ?na, vs_nspace_b := ?nb\<rparr>)"
      using a(1,2) b(1,2) s1(1) s2(1) t1(1) t2(1) i(1,2,13,14)
      by (cases "verus_selftest v") (simp_all add: x2_body_def chosen_x2_is_two_x1 Let_def j3_def flip: n_def)
  qed (use assms(2) i a b t2 in \<open>simp_all add: scan_inv_def nonce_tail_def w1_def w2_def n_def Let_def\<close>)
qed

section \<open>What a scan leaves in the work unit\<close>

text \<open>
  After \<open>c\<close> nonces from \<open>n\<close>: the reported shares are among them and meet the target, their tail and hash are
  stored, the header and the solution are the serialized ones, and if nothing is reported nothing met the target.
\<close>

definition share_of :: "v128 list \<Rightarrow> bytes \<Rightarrow> bytes \<Rightarrow> verus_job \<Rightarrow> u32 \<Rightarrow> nat \<Rightarrow> verus_work_payload \<Rightarrow> nat \<Rightarrow> bool" where
  "share_of key half ns job n c p i \<longleftrightarrow> (\<exists>j < c. nonce_meets key half ns job (n + of_nat j) \<and>
     payload_nonce_tail p ! i = nonce_tail ns (n + of_nat j) \<and> payload_full_hash p ! i = nonce_hash key half ns (n + of_nat j))"

definition stored_job :: "verus_job \<Rightarrow> bytes \<Rightarrow> work \<Rightarrow> verus_work_payload \<Rightarrow> bool" where
  "stored_job job ns work p \<longleftrightarrow>
     words_bytes (work_data work) = memcpy (words_bytes (work_data work)) 0
       (if vj_merged job then memcpy (take 140 (vj_serialized job)) 128 (take 4 (drop 7 ns)) else take 140 (vj_serialized job)) \<and>
     (\<exists>t. length t = 15 \<and> take 1347 (payload_extra p) = memcpy (drop 140 (vj_serialized job)) 1332 t) \<and>
     (\<forall>i < unat (work_valid_nonces work). work_nonces work ! i = le32dec (drop 120 (vj_serialized job)))"

definition verus_result ::
  "v128 list \<Rightarrow> bytes \<Rightarrow> bytes \<Rightarrow> verus_job \<Rightarrow> work \<Rightarrow> u32 \<Rightarrow> nat \<Rightarrow> work \<Rightarrow> bool" where
  "verus_result key half ns job w0 n c work \<longleftrightarrow>
     wf_work work \<and> work_target work = work_target w0 \<and> work_restart_generation work = work_restart_generation w0 \<and>
     work_pooln work = work_pooln w0 \<and> unat (work_valid_nonces work) \<le> MAX_NONCES \<and>
     (\<exists>p. work_verus work = Some p \<and> (\<forall>i < unat (work_valid_nonces work). share_of key half ns job n c p i) \<and>
        (work_valid_nonces work \<noteq> 0 \<longrightarrow> stored_job job ns work p)) \<and>
     (work_valid_nonces work = 0 \<longrightarrow> (\<forall>j < c. \<not> nonce_meets key half ns job (n + of_nat j)))"

lemma verus_record_frame [simp]:
  "work_target (verus_record_share job nsp h w) = work_target w"
  "work_restart_generation (verus_record_share job nsp h w) = work_restart_generation w"
  "work_pooln (verus_record_share job nsp h w) = work_pooln w"
  by (simp_all add: verus_record_share_def bn_store_share_difficulty_def Let_def)

text \<open>The fields a record writes.\<close>

lemma verus_record_fields:
  fixes job :: verus_job and nsp h :: bytes
  assumes "unat (work_valid_nonces w) < MAX_NONCES" "work_verus w = Some p"
  defines "k \<equiv> unat (work_valid_nonces w)" and "w' \<equiv> verus_record_share job nsp h w"
  shows "work_valid_nonces w' = work_valid_nonces w + 1"
    and "work_nonces w' = (work_nonces w)[k := le32dec (drop 120 (vj_serialized job))]"
    and "work_data w' = (let d = store_bytes (work_data w) 0 (take 140 (vj_serialized job))
      in if vj_merged job then store_bytes d 128 (take 4 (drop 7 nsp)) else d)"
    and "work_verus w' = Some (p\<lparr>payload_extra := memcpy (memcpy (payload_extra p) 0 (drop 140 (vj_serialized job))) 1332 nsp,
      payload_nonce_tail := (payload_nonce_tail p)[k := nsp], payload_full_hash := (payload_full_hash p)[k := h]\<rparr>)"
    and "length (work_sharediff w') = length (work_sharediff w)" "work_job_id w' = work_job_id w"
    "work_xnonce2_len w' = work_xnonce2_len w" "work_xnonce2 w' = work_xnonce2 w" "work_rx_hash w' = work_rx_hash w"
  using assms by (simp_all add: verus_record_share_def bn_store_share_difficulty_def Let_def verus_sizes)

lemma wf_payload_record:
  assumes "wf_payload p" "length ser = 1487" "length nsp = 15" "length h = 32"
  shows "wf_payload (p\<lparr>payload_extra := memcpy (memcpy (payload_extra p) 0 (drop 140 ser)) 1332 nsp,
      payload_nonce_tail := (payload_nonce_tail p)[k := nsp], payload_full_hash := (payload_full_hash p)[k := h]\<rparr>)"
  using assms by (auto simp: wf_payload_def verus_sizes memcpy_def dest!: subsetD [OF set_update_subset_insert])

lemma wf_verus_record:
  assumes "wf_work w" "unat (work_valid_nonces w) < MAX_NONCES" "work_verus w = Some p"
    and "length (vj_serialized job) = 1487" "length nsp = 15" "length h = 32"
  shows "wf_work (verus_record_share job nsp h w)"
proof -
  note f = verus_record_fields [OF assms(2,3), of job nsp h]
  have "length (store_bytes (work_data w) 0 (take 140 (vj_serialized job))) = 68"
    using assms(1,4) by (simp add: length_store_bytes wf_work_def)
  then have "length (work_data (verus_record_share job nsp h w)) = 68"
    using assms(5) by (simp add: f(3) Let_def length_store_bytes)
  moreover have "wf_payload p" using assms(1,3) by (simp add: wf_work_def)
  ultimately show ?thesis
    using assms(1) f wf_payload_record [OF _ assms(4-6)] by (simp add: wf_work_def)
qed

lemma memcpy_twice_same: "length a = length b \<Longrightarrow> memcpy (memcpy d 0 a) 0 b = memcpy d 0 b"
  by (simp add: memcpy_def)

lemma memcpy_inside:
  "off + length b \<le> length a \<Longrightarrow> length a \<le> length d \<Longrightarrow> memcpy (memcpy d 0 a) off b = memcpy d 0 (memcpy a off b)"
  by (simp add: memcpy_def)

lemma take_memcpy_memcpy:
  "length a = k \<Longrightarrow> off + length b = k \<Longrightarrow> k \<le> length d \<Longrightarrow> take k (memcpy (memcpy d 0 a) off b) = memcpy a off b"
  by (simp add: memcpy_def)

lemma stored_job_record:
  assumes "wf_work w" "unat (work_valid_nonces w) < MAX_NONCES" "work_verus w = Some p" "length (vj_serialized job) = 1487" "length ns = 15"
    and "\<forall>i < unat (work_valid_nonces w). work_nonces w ! i = le32dec (drop 120 (vj_serialized job))"
    and "work_verus (verus_record_share job (nonce_tail ns n) h w) = Some p'"
  shows "stored_job job ns (verus_record_share job (nonce_tail ns n) h w) p'"
proof -
  let ?w = "verus_record_share job (nonce_tail ns n) h w" and ?ser = "vj_serialized job"
  note f = verus_record_fields [OF assms(2,3), of job "nonce_tail ns n" h]
  have l: "length (work_data w) = 68" "length (work_nonces w) = MAX_NONCES" "length (payload_extra p) = 1388"
    using assms(1,3) by (simp_all add: wf_work_def wf_payload_def verus_sizes)
  have four: "take 4 (drop 7 (nonce_tail ns n)) = take 4 (drop 7 ns)" using assms(5) by (simp add: nonce_tail_def drop_take)
  let ?h = "if vj_merged job then memcpy (take 140 ?ser) 128 (take 4 (drop 7 ns)) else take 140 ?ser"
  have hl: "length ?h = 140" using assms(4,5) by (simp add: memcpy_def)
  have "words_bytes (work_data ?w) = memcpy (words_bytes (work_data w)) 0 ?h"
    using l(1) assms(4,5) by (simp add: f(3) Let_def words_bytes_store length_store_bytes four memcpy_inside)
  then have "words_bytes (work_data ?w) = memcpy (words_bytes (work_data ?w)) 0 ?h"
    using hl by (simp only: memcpy_twice_same)
  moreover have "take 1347 (payload_extra p') = memcpy (drop 140 ?ser) 1332 (nonce_tail ns n)"
    using f(4) assms(4,5,7) l(3) by (auto simp: take_memcpy_memcpy)
  moreover have "work_nonces ?w ! i = le32dec (drop 120 ?ser)" if "i < unat (work_valid_nonces ?w)" for i
    using that assms(2,6) l(2) f(1,2) by (auto simp: nth_list_update size_consts unat_word_ariths less_Suc_eq)
  ultimately show ?thesis using assms(5) unfolding stored_job_def by (metis length_nonce_tail)
qed

lemma share_of_mono: "share_of key half ns job n c p i \<Longrightarrow> c \<le> d \<Longrightarrow> share_of key half ns job n d p i"
  unfolding share_of_def by (meson less_le_trans)

lemma length_nonce_hash: "scan_job_ok key half ns \<Longrightarrow> length (nonce_hash key half ns n) = 32"
  using verus_hash_total [of half "nonce_tail ns n" key zero_journal noasm_build] zero_journal_ok
  unfolding nonce_hash_def scan_job_ok_def by (metis length_nonce_tail)

lemma verus_result_step:
  assumes "verus_result key half ns job w0 n c work" "scan_job_ok key half ns" "length (vj_serialized job) = 1487"
  defines "m \<equiv> n + of_nat c"
  shows "verus_result key half ns job w0 n (Suc c)
    (if nonce_meets key half ns job m then verus_record_share job (nonce_tail ns m) (nonce_hash key half ns m) work else work)"
proof -
  let ?v = "unat (work_valid_nonces work)" and ?M = "nonce_meets key half ns job"
  obtain p where r: "wf_work work" "work_verus work = Some p" "?v \<le> MAX_NONCES" "\<And>i. i < ?v \<Longrightarrow> share_of key half ns job n c p i"
    "work_valid_nonces work \<noteq> 0 \<Longrightarrow> stored_job job ns work p"
    "work_valid_nonces work = 0 \<Longrightarrow> \<forall>j < c. \<not> ?M (n + of_nat j)"
    "work_target work = work_target w0" "work_restart_generation work = work_restart_generation w0" "work_pooln work = work_pooln w0"
    using assms(1) by (auto simp: verus_result_def)
  have up: "share_of key half ns job n (Suc c) p i" if "i < ?v" for i using r(4) [OF that] by (rule share_of_mono) simp
  consider "\<not> ?M m" | "?M m" "\<not> ?v < MAX_NONCES" | "?M m" "?v < MAX_NONCES" by blast
  then show ?thesis
  proof cases
    case 1
    then show ?thesis using r up by (auto simp: verus_result_def less_Suc_eq m_def)
  next
    case 2
    then have same: "verus_record_share job nsp h work = work" for nsp h by (simp add: verus_record_share_def)
    show ?thesis using r up 2 unfolding same if_cancel by (auto simp: verus_result_def size_consts)
  next
    case 3
    define w' where "w' = verus_record_share job (nonce_tail ns m) (nonce_hash key half ns m) work"
    note f = verus_record_fields [OF 3(2) r(2), of job "nonce_tail ns m" "nonce_hash key half ns m", folded w'_def]
    obtain p' where p': "work_verus w' = Some p'" "payload_nonce_tail p' = (payload_nonce_tail p)[?v := nonce_tail ns m]"
      "payload_full_hash p' = (payload_full_hash p)[?v := nonce_hash key half ns m]"
      using f(4) by simp
    have v: "unat (work_valid_nonces w') = Suc ?v" using 3(2) f(1) by (simp add: size_consts unat_word_ariths)
    have wf: "wf_work w'" unfolding w'_def
      by (rule wf_verus_record [OF r(1) 3(2) r(2) assms(3)]) (use assms(2) length_nonce_hash in \<open>simp_all add: scan_job_ok_def\<close>)
    have pl: "length (payload_nonce_tail p) = MAX_NONCES" "length (payload_full_hash p) = MAX_NONCES"
      using r(1,2) by (simp_all add: wf_work_def wf_payload_def)
    have shares: "share_of key half ns job n (Suc c) p' i" if "i < Suc ?v" for i
    proof (cases "i = ?v")
      case True
      then show ?thesis using 3 pl unfolding share_of_def m_def by (intro exI [of _ c]) (simp add: p' m_def)
    next
      case False
      then show ?thesis using up [of i] that unfolding share_of_def by (simp add: p')
    qed
    have "\<forall>i < ?v. work_nonces work ! i = le32dec (drop 120 (vj_serialized job))"
      using r(5) by (cases "work_valid_nonces work = 0") (simp_all add: stored_job_def)
    from stored_job_record [OF r(1) 3(2) r(2) assms(3) _ this] have "stored_job job ns w' p'"
      using assms(2) p'(1) by (simp add: w'_def scan_job_ok_def)
    moreover have "work_valid_nonces w' \<noteq> 0" using v by auto
    moreover have "work_target w' = work_target w0" "work_restart_generation w' = work_restart_generation w0" "work_pooln w' = work_pooln w0"
      using r by (simp_all add: w'_def)
    ultimately show ?thesis using 3 wf v shares p'(1) unfolding w'_def [symmetric] verus_result_def by auto
  qed
qed

section \<open>The loops\<close>

lemma verus_x2_loop_result:
  assumes "scan_job_ok key half ns" "length (vj_serialized job) = 1487" "length ref = 32"
  shows "scan_inv key half ns s \<Longrightarrow> verus_result key half ns job w0 n c (vs_work s) \<Longrightarrow> work_valid_nonces (vs_work s) = 0 \<Longrightarrow>
    vs_nonce s = n + of_nat c \<Longrightarrow>
    \<exists>out r' s'. verus_x2_loop (x2_body v mix ref job) stop r s = Some (out, r', s') \<and> r' \<le> r \<and> scan_inv key half ns s' \<and>
      verus_result key half ns job w0 n (c + (r - r')) (vs_work s') \<and>
      (if out then work_valid_nonces (vs_work s') \<noteq> 0
       else work_valid_nonces (vs_work s') = 0 \<and> vs_nonce s' = n + of_nat (c + (r - r')))"
proof (induction r arbitrary: s c rule: induct_nat_012)
  case (ge2 r)
  let ?s = "s\<lparr>vs_polls := vs_polls s + 1\<rparr>" and ?m = "vs_nonce s"
  have inv: "scan_inv key half ns ?s" using ge2.prems(1) by (simp add: scan_inv_def)
  show ?case
  proof (cases "stop (vs_polls s)")
    case True
    then have "verus_x2_loop (x2_body v mix ref job) stop (Suc (Suc r)) s = Some (False, Suc (Suc r), ?s)" by simp
    moreover have "verus_result key half ns job w0 n (c + (Suc (Suc r) - Suc (Suc r))) (vs_work ?s)"
      "work_valid_nonces (vs_work ?s) = 0" "vs_nonce ?s = n + of_nat (c + (Suc (Suc r) - Suc (Suc r)))" using ge2.prems by simp_all
    ultimately show ?thesis using inv by (metis le_refl)
  next
    case False
    let ?P = "nonce_meets key half ns job"
    let ?R = "\<lambda>m. verus_record_share job (nonce_tail ns m) (nonce_hash key half ns m)"
    obtain s' where b: "x2_body v mix ref job ?s = Some (?P (vs_nonce ?s), ?P (vs_nonce ?s + 1), s')" "scan_inv key half ns s'"
      "vs_nonce s' = vs_nonce ?s" "vs_polls s' = vs_polls ?s"
      "vs_work s' = (let w = (if ?P (vs_nonce ?s) then ?R (vs_nonce ?s) (vs_work ?s) else vs_work ?s)
        in if ?P (vs_nonce ?s + 1) then ?R (vs_nonce ?s + 1) w else w)"
      by (rule x2_body_result [OF assms(1) inv assms(3)])
    have b: "x2_body v mix ref job ?s = Some (?P ?m, ?P (?m + 1), s')" "scan_inv key half ns s'" "vs_nonce s' = ?m"
      "vs_work s' = (let w = (if ?P ?m then ?R ?m (vs_work s) else vs_work s) in if ?P (?m + 1) then ?R (?m + 1) w else w)"
      using b by (simp_all cong: if_cong)
    have one: "?m = n + of_nat c" "?m + 1 = n + of_nat (Suc c)" using ge2.prems(4) by simp_all
    have res: "verus_result key half ns job w0 n (Suc (Suc c)) (vs_work s')"
      unfolding b(4) Let_def one(2) unfolding one(1)
      by (rule verus_result_step [OF verus_result_step [OF ge2.prems(2) assms(1,2)] assms(1,2)])
    have r2: "c + (Suc (Suc r) - r) = Suc (Suc c)" by simp
    show ?thesis
    proof (cases "?P ?m \<or> ?P (?m + 1)")
      case True
      define t where "t = s'\<lparr>vs_nonce := vs_nonce s' + (if ?P (?m + 1) then 2 else 1)\<rparr>"
      have t: "verus_x2_loop (x2_body v mix ref job) stop (Suc (Suc r)) s = Some (True, r, t)" "scan_inv key half ns t" "vs_work t = vs_work s'"
        using True False b(1,2) by (simp_all add: t_def scan_inv_def)
      have "work_valid_nonces (vs_work t) \<noteq> 0"
      proof
        assume "work_valid_nonces (vs_work t) = 0"
        then have "\<forall>j < Suc (Suc c). \<not> ?P (n + of_nat j)" using res t(3) by (simp add: verus_result_def)
        then show False using True unfolding one(2) unfolding one(1) by (auto simp del: of_nat_Suc)
      qed
      moreover have "verus_result key half ns job w0 n (c + (Suc (Suc r) - r)) (vs_work t)" using res unfolding t(3) r2 .
      moreover have "r \<le> Suc (Suc r)" by simp
      ultimately show ?thesis using t(1,2) by metis
    next
      case neither: False
      define t where "t = s'\<lparr>vs_nonce := vs_nonce s' + 2\<rparr>"
      have t: "scan_inv key half ns t" "verus_result key half ns job w0 n (Suc (Suc c)) (vs_work t)"
        "work_valid_nonces (vs_work t) = 0" "vs_nonce t = n + of_nat (Suc (Suc c))"
        using b res neither ge2.prems(3,4) by (simp_all add: t_def scan_inv_def)
      from ge2.IH(1) [OF t] obtain out r' s'' where "verus_x2_loop (x2_body v mix ref job) stop r t = Some (out, r', s'')" "r' \<le> r"
        "scan_inv key half ns s''" "verus_result key half ns job w0 n (Suc (Suc c) + (r - r')) (vs_work s'')"
        "if out then work_valid_nonces (vs_work s'') \<noteq> 0
         else work_valid_nonces (vs_work s'') = 0 \<and> vs_nonce s'' = n + of_nat (Suc (Suc c) + (r - r'))" by blast
      moreover have "verus_x2_loop (x2_body v mix ref job) stop (Suc (Suc r)) s = verus_x2_loop (x2_body v mix ref job) stop r t"
        using False neither b(1) by (simp add: t_def)
      moreover have "Suc (Suc c) + (r - r') = c + (Suc (Suc r) - r')" using \<open>r' \<le> r\<close> by simp
      ultimately show ?thesis by auto
    qed
  qed
qed (use assms in \<open>auto intro: exI [of _ False]\<close>)

lemma verus_x1_loop_result:
  assumes "scan_job_ok key half ns" "length (vj_serialized job) = 1487"
  shows "scan_inv key half ns s \<Longrightarrow> verus_result key half ns job w0 n c (vs_work s) \<Longrightarrow> work_valid_nonces (vs_work s) = 0 \<Longrightarrow>
    vs_nonce s = n + of_nat c \<Longrightarrow>
    \<exists>r' s'. verus_x1_loop (x1_body v mix job) stop r ctr s = Some (r', s') \<and> r' \<le> r \<and>
      verus_result key half ns job w0 n (c + (r - r')) (vs_work s') \<and>
      (work_valid_nonces (vs_work s') = 0 \<and> (\<forall>k. \<not> stop k) \<longrightarrow> r' = 0)"
proof (induction r arbitrary: s c ctr)
  case (Suc r)
  define s1 where "s1 = (if ctr AND 7 = 0 then s\<lparr>vs_polls := vs_polls s + 1\<rparr> else s)"
  have s1: "scan_inv key half ns s1" "vs_work s1 = vs_work s" "vs_nonce s1 = vs_nonce s" using Suc.prems(1) by (simp_all add: s1_def scan_inv_def)
  show ?case
  proof (cases "ctr AND 7 = 0 \<and> stop (vs_polls s1 - 1)")
    case True
    then have "verus_x1_loop (x1_body v mix job) stop (Suc r) ctr s = Some (Suc r, s1)" by (auto simp: s1_def Let_def)
    then show ?thesis using Suc.prems(2) s1(2) True by auto
  next
    case False
    let ?m = "vs_nonce s"
    let ?P = "nonce_meets key half ns job ?m"
    let ?w = "if ?P then verus_record_share job (nonce_tail ns ?m) (nonce_hash key half ns ?m) (vs_work s) else vs_work s"
    obtain s' where b: "x1_body v mix job s1 = Some (nonce_meets key half ns job (vs_nonce s1), s')" "scan_inv key half ns s'"
      "vs_nonce s' = vs_nonce s1 + 1" "vs_polls s' = vs_polls s1"
      "vs_work s' = (if nonce_meets key half ns job (vs_nonce s1)
        then verus_record_share job (nonce_tail ns (vs_nonce s1)) (nonce_hash key half ns (vs_nonce s1)) (vs_work s1) else vs_work s1)"
      by (rule x1_body_result [OF assms(1) s1(1)])
    have b: "x1_body v mix job s1 = Some (?P, s')" "scan_inv key half ns s'" "vs_nonce s' = ?m + 1" "vs_work s' = ?w"
      using b s1(2,3) by simp_all
    have res: "verus_result key half ns job w0 n (Suc c) (vs_work s')"
      unfolding b(4) Suc.prems(4) by (rule verus_result_step [OF Suc.prems(2) assms])
    have step: "verus_x1_loop (x1_body v mix job) stop (Suc r) ctr s =
        (if ?P then Some (r, s') else verus_x1_loop (x1_body v mix job) stop r (ctr + 1) s')"
      using False b(1) by (auto simp: s1_def Let_def split: if_splits)
    show ?thesis
    proof (cases ?P)
      case True
      have "work_valid_nonces (vs_work s') \<noteq> 0" using res True Suc.prems(4) by (auto simp: verus_result_def)
      then show ?thesis using step True res by simp
    next
      case no: False
      then have "work_valid_nonces (vs_work s') = 0" "vs_nonce s' = n + of_nat (Suc c)" using b Suc.prems by simp_all
      from Suc.IH [OF b(2) res this, of "ctr + 1"]
      obtain r' s'' where q: "verus_x1_loop (x1_body v mix job) stop r (ctr + 1) s' = Some (r', s'')" "r' \<le> r"
        "verus_result key half ns job w0 n (Suc c + (r - r')) (vs_work s'')"
        "work_valid_nonces (vs_work s'') = 0 \<and> (\<forall>k. \<not> stop k) \<longrightarrow> r' = 0" by blast
      moreover have "Suc c + (r - r') = c + (Suc r - r')" using q(2) by simp
      ultimately show ?thesis using step no by (intro exI [of _ r'] exI [of _ s'']) simp
    qed
  qed
qed simp

section \<open>The absorption of the job\<close>

lemma haraka512_Some:
  assumes "40 \<le> length rc"
  obtains out where "haraka512_native rc p = Some out" "length out = 32"
proof -
  obtain s where "haraka512_rounds rc [0..<5] (load_state p) = Some s"
    using haraka512_rounds_Some [of "[0..<5]" rc "load_state p"] assms by fastforce
  then show ?thesis by (cases s) (auto simp: haraka512_native_def haraka512_perm_native_def intro: that)
qed

text \<open>
  The first half of the result depends on the complete chunks of the input only, and not on what the buffers held
  behind it.
\<close>

lemma blockhash_chunk:
  "32 \<le> length x \<Longrightarrow> haraka512_native rc (memcpy a 32 (take 32 x)) = Some out \<Longrightarrow>
   blockhash_loop rc a b 0 x = blockhash_loop rc (memcpy b 0 out) (memcpy a 32 (take 32 x)) 0 (drop 32 x)"
  by (subst blockhash_loop.simps) (auto simp: kHarakaChunkBytes_def Let_def)

lemma blockhash_rest: "length x < 32 \<Longrightarrow> blockhash_loop rc a b 0 x = Some (if x = [] then a else memcpy a 32 x)"
  by (subst blockhash_loop.simps) (auto simp: kHarakaChunkBytes_def Let_def)

lemma blockhash_loop_head:
  assumes "40 \<le> length rc" "k < 32"
  shows "length a = 64 \<Longrightarrow> length a' = 64 \<Longrightarrow> length b = 64 \<Longrightarrow> length b' = 64 \<Longrightarrow> take 32 a = take 32 a' \<Longrightarrow>
    length x = 32 * m + k \<Longrightarrow> length x' = 32 * m + k \<Longrightarrow> take (32 * m) x = take (32 * m) x' \<Longrightarrow>
    \<exists>h h'. blockhash_loop rc a b 0 x = Some h \<and> blockhash_loop rc a' b' 0 x' = Some h' \<and> length h = 64 \<and> length h' = 64 \<and>
      take 32 h = take 32 h'"
proof (induction m arbitrary: a a' b b' x x')
  case 0
  then show ?case using assms(2) by (auto simp: blockhash_rest memcpy_def)
next
  case (Suc m)
  have c: "take 32 x = take 32 x'" "take (32 * m) (drop 32 x) = take (32 * m) (drop 32 x')"
    using arg_cong [OF Suc.prems(8), of "take 32"] arg_cong [OF Suc.prems(8), of "drop 32"] by (simp_all add: drop_take)
  define y where "y = memcpy a 32 (take 32 x)"
  have y: "memcpy a' 32 (take 32 x') = y" "length y = 64"
    using Suc.prems c by (simp_all add: y_def memcpy_def)
  obtain out where o: "haraka512_native rc y = Some out" "length out = 32" by (rule haraka512_Some [OF assms(1)])
  have "blockhash_loop rc a b 0 x = blockhash_loop rc (memcpy b 0 out) y 0 (drop 32 x)"
    "blockhash_loop rc a' b' 0 x' = blockhash_loop rc (memcpy b' 0 out) y 0 (drop 32 x')"
    using Suc.prems(6,7) o y by (simp_all add: blockhash_chunk flip: y_def)
  moreover have "\<exists>h h'. blockhash_loop rc (memcpy b 0 out) y 0 (drop 32 x) = Some h \<and>
      blockhash_loop rc (memcpy b' 0 out) y 0 (drop 32 x') = Some h' \<and> length h = 64 \<and> length h' = 64 \<and> take 32 h = take 32 h'"
    by (rule Suc.IH) (use Suc.prems o y(2) c in \<open>simp_all add: memcpy_def\<close>)
  ultimately show ?case by simp
qed

section \<open>The scan of a job\<close>

lemma blockhash_half_head:
  assumes "40 \<le> length rc" "length b = 64" "length b' = 64" "length x = 1487" "length x' = 1487" "take 1472 x = take 1472 x'"
  shows "\<exists>h h'. build_blockhash_half rc b x = Some h \<and> build_blockhash_half rc b' x' = Some h' \<and> length h = 64 \<and> length h' = 64 \<and>
    take 32 h = take 32 h'"
proof -
  obtain g g' where "blockhash_loop rc (replicate 64 0) b 0 x = Some g" "blockhash_loop rc (replicate 64 0) b' 0 x' = Some g'"
    "length g = 64" "length g' = 64" "take 32 g = take 32 g'"
    using blockhash_loop_head [OF assms(1), of 15 "replicate 64 0" "replicate 64 0" b b' x 46 x'] assms(2-6) by auto
  moreover have "take 32 (fill_tail g) = take 32 g" if "length g = 64" for g :: bytes
    using that by (simp add: fill_tail_def memcpy_def Let_def)
  ultimately show ?thesis by (simp add: build_blockhash_half_def kHashStateBytes_def)
qed

lemma haraka256_head: "take 32 a = take 32 b \<Longrightarrow> haraka256_native rc a = haraka256_native rc b"
proof -
  assume t: "take 32 a = take 32 b"
  have "take 16 a = take 16 b" "take 16 (drop 16 a) = take 16 (drop 16 b)"
    using arg_cong [OF t, of "take 16"] arg_cong [OF t, of "\<lambda>x. take 16 (drop 16 x)"] by (simp_all add: drop_take)
  then show ?thesis by (simp add: haraka256_native_def vld1q_u8_def)
qed

lemma cl_key_head: "take 32 a = take 32 b \<Longrightarrow> generate_cl_key rc a = generate_cl_key rc b"
proof -
  assume "take 32 a = take 32 b"
  then have "haraka256_native rc a = haraka256_native rc b" by (rule haraka256_head)
  then have "cl_key_blocks rc n a = cl_key_blocks rc n b" for n by (cases n) (simp_all add: Let_def)
  then show ?thesis by (simp add: generate_cl_key_def)
qed

text \<open>The hash of a search counter for a header and a solution.\<close>

definition verus_job_half :: "bytes \<Rightarrow> bytes" where
  "verus_job_half serialized = (case build_blockhash_half load_constants_native (replicate 64 0) serialized of Some h \<Rightarrow> h | None \<Rightarrow> [])"

definition verus_job_hash :: "bytes \<Rightarrow> bytes \<Rightarrow> bytes" where
  "verus_job_hash serialized nonce_bytes =
     verus_hash (generate_cl_key load_constants_native (verus_job_half serialized)) (verus_job_half serialized) nonce_bytes"

lemma job_half_head:
  assumes "length b = 64" "length x = 1487" "length x' = 1487" "take 1472 x = take 1472 x'"
  obtains h where "build_blockhash_half load_constants_native b x = Some h" "length h = 64" "take 32 h = take 32 (verus_job_half x')"
    "length (verus_job_half x') = 64"
    "generate_cl_key load_constants_native h = generate_cl_key load_constants_native (verus_job_half x')"
proof -
  obtain h h' where h: "build_blockhash_half load_constants_native b x = Some h"
    "build_blockhash_half load_constants_native (replicate 64 0) x' = Some h'" "length h = 64" "length h' = 64" "take 32 h = take 32 h'"
    using blockhash_half_head [of load_constants_native b "replicate 64 0" x x'] assms by auto
  then have "verus_job_half x' = h'" by (simp add: verus_job_half_def)
  then show ?thesis using that [of h] h cl_key_head [OF h(5)] by simp
qed

lemma serialize_lengths:
  assumes "length pdata = 68" "length sol = 1344"
  shows "length (fst (serialize_job pdata sol)) = 1487" "length (snd (serialize_job pdata sol)) = 15"
  using assms by (simp_all add: serialize_job_def clear_noncanonical_def memcpy_def kMergedMiningPrefix_def verus_sizes Let_def)

definition junk_ok :: "verus_junk \<Rightarrow> bool" where
  "junk_ok junk \<longleftrightarrow> length (junk_buffer junk) = 64 \<and> length (junk_ref junk) = 32 \<and> journal_ok (junk_journal junk) \<and>
     journal_ok (junk_journal2 junk)"

definition runtime_ok :: "verus_runtime \<Rightarrow> bool" where
  "runtime_ok rt \<longleftrightarrow> (native_available rt \<longrightarrow> rc_native rt = load_constants_native)"

lemma runtime_ok_once: "runtime_ok rt \<Longrightarrow> runtime_ok (verus_once has_crypto rt)"
  by (simp add: runtime_ok_def verus_once_def init_native_functions_def)

text \<open>The scan returns, with the result of the counted nonces.\<close>

lemma scanhash_verus_result:
  assumes "wf_work work" "work_verus work = Some p" "work_valid_nonces work = 0"
    and "runtime_ok rt" "native_available (verus_once has_crypto rt)" "junk_ok junk"
  defines "sj \<equiv> serialize_job (work_data work) (payload_solution p)"
  defines "job \<equiv> \<lparr>vj_serialized = fst sj, vj_merged = merged_solution (payload_solution p), vj_target = work_target work\<rparr>"
  defines "half \<equiv> verus_job_half (fst sj)"
  defines "key \<equiv> generate_cl_key load_constants_native half"
  obtains r and s :: verus_scan and nonce where
    "scanhash_verus has_crypto v use_zip junk stop rt max_hashes hashes_done0 work =
      Some (verus_once has_crypto rt, (vs_work s)\<lparr>work_data := (work_data (vs_work s))[30 := nonce]\<rparr>,
            unat (work_valid_nonces (vs_work s)), of_nat (unat max_hashes - r))"
    "verus_result key half (snd sj) job work (work_data work ! 30) (unat max_hashes - r) (vs_work s)"
    "work_valid_nonces (vs_work s) = 0 \<and> (\<forall>k. \<not> stop k) \<longrightarrow> r = 0" "scan_job_ok key half (snd sj)"
proof -
  let ?n = "work_data work ! 30" and ?mix = "(use_zip, junk_vectors junk)"
  have len: "length (fst sj) = 1487" "length (snd sj) = 15"
    using serialize_lengths assms(1,2) by (simp_all add: sj_def wf_work_def wf_payload_def verus_sizes)
  have jl: "length (vj_serialized job) = 1487" by (simp add: job_def len)
  obtain h where h: "build_blockhash_half load_constants_native (junk_buffer junk) (fst sj) = Some h" "length h = 64"
    "take 32 h = take 32 half" "length half = 64" "generate_cl_key load_constants_native h = key"
    using job_half_head [of "junk_buffer junk" "fst sj" "fst sj"] len(1) assms(6) unfolding half_def key_def junk_ok_def by blast
  have jok: "scan_job_ok key half (snd sj)" using len h by (simp add: scan_job_ok_def key_def)
  let ?s0 = "scan_start h key (snd sj) junk work"
  have inv: "scan_inv key half (snd sj) ?s0"
    using h len assms(6) by (simp add: scan_inv_def scan_start_def junk_ok_def)
  have start: "verus_result key half (snd sj) job work ?n 0 (vs_work ?s0)" "work_valid_nonces (vs_work ?s0) = 0"
    "vs_nonce ?s0 = ?n + of_nat 0"
    using assms(1-3) by (simp_all add: verus_result_def scan_start_def kNonceWordIndex_def)
  obtain out r1 s1 where l: "(if verus_use_x2_for_current_cpu v
      then verus_x2_loop (x2_body v ?mix (junk_ref junk) job) stop (unat max_hashes) ?s0 else Some (False, unat max_hashes, ?s0)) = Some (out, r1, s1)"
    "r1 \<le> unat max_hashes" "scan_inv key half (snd sj) s1" "verus_result key half (snd sj) job work ?n (unat max_hashes - r1) (vs_work s1)"
    "if out then work_valid_nonces (vs_work s1) \<noteq> 0
     else work_valid_nonces (vs_work s1) = 0 \<and> vs_nonce s1 = ?n + of_nat (unat max_hashes - r1)"
  proof (cases "verus_use_x2_for_current_cpu v")
    case True
    have "length (junk_ref junk) = 32" using assms(6) by (simp add: junk_ok_def)
    from verus_x2_loop_result [OF jok jl this inv start, of v ?mix stop "unat max_hashes"] show ?thesis
      using that True by auto
  next
    case False
    then show ?thesis using that [of False "unat max_hashes" ?s0] inv start by simp
  qed
  obtain r s where x: "(if out then Some (r1, s1) else verus_x1_loop (x1_body v ?mix job) stop r1 0 s1) = Some (r, s)"
    "verus_result key half (snd sj) job work ?n (unat max_hashes - r) (vs_work s)"
    "work_valid_nonces (vs_work s) = 0 \<and> (\<forall>k. \<not> stop k) \<longrightarrow> r = 0"
  proof (cases out)
    case True
    then show ?thesis using that [of r1 s1] l by simp
  next
    case False
    with l(5) have "work_valid_nonces (vs_work s1) = 0" "vs_nonce s1 = ?n + of_nat (unat max_hashes - r1)" by simp_all
    from verus_x1_loop_result [OF jok jl l(3,4) this, of v ?mix stop r1 0] obtain r s where
      "verus_x1_loop (x1_body v ?mix job) stop r1 0 s1 = Some (r, s)" "r \<le> r1"
      "verus_result key half (snd sj) job work ?n (unat max_hashes - r1 + (r1 - r)) (vs_work s)"
      "work_valid_nonces (vs_work s) = 0 \<and> (\<forall>k. \<not> stop k) \<longrightarrow> r = 0" by blast
    moreover have "unat max_hashes - r1 + (r1 - r) = unat max_hashes - r" using l(2) \<open>r \<le> r1\<close> by simp
    ultimately show ?thesis using that [of r s] False by simp
  qed
  have rc: "rc_native (verus_once has_crypto rt) = load_constants_native" using runtime_ok_once [OF assms(4)] assms(5) by (simp add: runtime_ok_def)
  show ?thesis
  proof (rule that [of s "vs_nonce s" r])
    show "scanhash_verus has_crypto v use_zip junk stop rt max_hashes hashes_done0 work =
        Some (verus_once has_crypto rt, (vs_work s)\<lparr>work_data := (work_data (vs_work s))[30 := vs_nonce s]\<rparr>,
              unat (work_valid_nonces (vs_work s)), of_nat (unat max_hashes - r))"
      using assms(2,5) h(1,5) l(1) x(1) unfolding job_def
      by (cases "verus_use_x2_for_current_cpu v"; cases out)
        (simp_all add: scanhash_verus_def miner_work_solution_def miner_work_extra_def rc Let_def case_prod_unfold kNonceWordIndex_def
          flip: sj_def)
  qed (use x jok in simp_all)
qed

section \<open>The scan as a back end of a worker\<close>

text \<open>
  A worker runs the scan with the flags that \<open>pthread_once\<close> leaves; an abort of the self test would end the process, which
  the law below excludes for well-formed work.
\<close>

definition verus_backend :: "bool \<Rightarrow> cpu_view \<Rightarrow> bool \<Rightarrow> verus_junk \<Rightarrow> (nat \<Rightarrow> bool) \<Rightarrow> 'j backend" where
  "verus_backend has_crypto v use_zip junk stop thread_id work max_hashes w =
     (case scanhash_verus has_crypto v use_zip junk stop (verus_once has_crypto initial_verus_runtime) max_hashes 0 work of
        Some (rt, work', found, hashes_done) \<Rightarrow> (w, work', found, hashes_done)
      | None \<Rightarrow> (w, work, 0, 0))"

definition verus_ready :: "verus_junk \<Rightarrow> work \<Rightarrow> bool" where
  "verus_ready junk work \<longleftrightarrow> wf_work work \<and> work_verus work \<noteq> None \<and> work_valid_nonces work = 0 \<and> junk_ok junk"

lemma verus_backend_frame:
  assumes "verus_ready junk work" "verus_backend has_crypto v use_zip junk stop t work max_hashes w = (w', work', found, h)"
  shows "h \<le> ucast max_hashes" "work_restart_generation work' = work_restart_generation work \<and> work_pooln work' = work_pooln work"
proof -
  let ?rt = "verus_once has_crypto initial_verus_runtime"
  have once: "verus_once has_crypto ?rt = ?rt" by (simp add: verus_once_def)
  have ok: "runtime_ok ?rt" by (rule runtime_ok_once) (simp add: runtime_ok_def initial_verus_runtime_def)
  have "h \<le> ucast max_hashes \<and> work_restart_generation work' = work_restart_generation work \<and> work_pooln work' = work_pooln work"
  proof (cases "native_available ?rt")
    case False
    then show ?thesis using assms(2) by (simp add: verus_backend_def scanhash_verus_def once Let_def)
  next
    case True
    obtain p where p: "work_verus work = Some p" using assms(1) by (auto simp: verus_ready_def)
    have r: "wf_work work" "work_valid_nonces work = 0" "junk_ok junk" "native_available (verus_once has_crypto ?rt)"
      using assms(1) True once by (simp_all add: verus_ready_def)
    let ?sj = "serialize_job (work_data work) (payload_solution p)"
    let ?job = "\<lparr>vj_serialized = fst ?sj, vj_merged = merged_solution (payload_solution p), vj_target = work_target work\<rparr>"
    let ?half = "verus_job_half (fst ?sj)"
    let ?key = "generate_cl_key load_constants_native ?half"
    obtain r' and s :: verus_scan and nonce where x:
      "scanhash_verus has_crypto v use_zip junk stop ?rt max_hashes 0 work =
        Some (verus_once has_crypto ?rt, (vs_work s)\<lparr>work_data := (work_data (vs_work s))[30 := nonce]\<rparr>,
              unat (work_valid_nonces (vs_work s)), of_nat (unat max_hashes - r'))"
      "verus_result ?key ?half (snd ?sj) ?job work (work_data work ! 30) (unat max_hashes - r') (vs_work s)"
      "work_valid_nonces (vs_work s) = 0 \<and> (\<forall>k. \<not> stop k) \<longrightarrow> r' = 0" "scan_job_ok ?key ?half (snd ?sj)"
      by (rule scanhash_verus_result [OF r(1) p r(2) ok r(4) r(3)])
    have res: "work' = (vs_work s)\<lparr>work_data := (work_data (vs_work s))[30 := nonce]\<rparr>" "h = of_nat (unat max_hashes - r')"
      using assms(2) x(1) by (simp_all add: verus_backend_def)
    have "unat max_hashes - r' < 2 ^ 64" using unat_u32_less [of max_hashes] by simp
    then have "h \<le> ucast max_hashes" by (simp add: res(2) word_le_nat_alt unat_ucast_u64 unat_of_nat)
    then show ?thesis using x(2) by (simp add: res(1) verus_result_def)
  qed
  then show "h \<le> ucast max_hashes" "work_restart_generation work' = work_restart_generation work \<and> work_pooln work' = work_pooln work"
    by simp_all
qed

interpretation verus_scan: hash_backend "verus_backend has_crypto v use_zip junk stop" "verus_ready junk"
  for has_crypto v use_zip junk stop
  by unfold_locales (auto dest: verus_backend_frame)

section \<open>What a scan reports\<close>

text \<open>
  C9. The Verus scan is total, sound and complete. For a well-formed Verus work unit without a reported nonce it returns, whatever
  the uninitialised buffers hold, whichever CLHash variant the processor selects and with the self test on: no
  access leaves its buffer, nothing is undefined and the self test never aborts. It counts at most the hashes
  it was asked for and reports at most \<open>MAX_NONCES\<close> shares; each comes from a counter value among those it counted,
  and the full 256-bit hash stored with the share is the VerusHash of the serialized job under the
  stored nonce bytes and is at most the target. It reports a share exactly when one of the counted values meets the
  target, and a scan that reports none and is not asked to stop has hashed all it was asked for.
\<close>

theorem verus_scan_correct:
  assumes "wf_work work" "work_verus work = Some p" "work_valid_nonces work = 0"
    and "runtime_ok rt" "native_available (verus_once has_crypto rt)" "junk_ok junk"
  defines "ser \<equiv> fst (serialize_job (work_data work) (payload_solution p))"
    and "tail n \<equiv> nonce_tail (snd (serialize_job (work_data work) (payload_solution p))) n"
    and "n0 \<equiv> work_data work ! 30"
  shows "\<exists>rt' work' p' found hashes_done.
    scanhash_verus has_crypto v use_zip junk stop rt max_hashes hashes_done0 work = Some (rt', work', found, hashes_done) \<and>
    work_verus work' = Some p' \<and> unat hashes_done \<le> unat max_hashes \<and> found \<le> MAX_NONCES \<and>
    (\<forall>i < found. \<exists>j < unat hashes_done. payload_nonce_tail p' ! i = tail (n0 + of_nat j) \<and>
       payload_full_hash p' ! i = verus_job_hash ser (tail (n0 + of_nat j)) \<and>
       bytes_val (payload_full_hash p' ! i) \<le> words_val (work_target work)) \<and>
    (0 < found \<longleftrightarrow> (\<exists>j < unat hashes_done. bytes_val (verus_job_hash ser (tail (n0 + of_nat j))) \<le> words_val (work_target work))) \<and>
    (found = 0 \<and> (\<forall>k. \<not> stop k) \<longrightarrow> unat hashes_done = unat max_hashes)"
proof -
  let ?sj = "serialize_job (work_data work) (payload_solution p)"
  let ?job = "\<lparr>vj_serialized = fst ?sj, vj_merged = merged_solution (payload_solution p), vj_target = work_target work\<rparr>"
  let ?key = "generate_cl_key load_constants_native (verus_job_half (fst ?sj))" and ?half = "verus_job_half (fst ?sj)"
  let ?M = "nonce_meets ?key ?half (snd ?sj) ?job"
  obtain r and s :: verus_scan and nonce where x:
    "scanhash_verus has_crypto v use_zip junk stop rt max_hashes hashes_done0 work =
      Some (verus_once has_crypto rt, (vs_work s)\<lparr>work_data := (work_data (vs_work s))[30 := nonce]\<rparr>,
            unat (work_valid_nonces (vs_work s)), of_nat (unat max_hashes - r))"
    "verus_result ?key ?half (snd ?sj) ?job work (work_data work ! 30) (unat max_hashes - r) (vs_work s)"
    "work_valid_nonces (vs_work s) = 0 \<and> (\<forall>k. \<not> stop k) \<longrightarrow> r = 0" "scan_job_ok ?key ?half (snd ?sj)"
    by (rule scanhash_verus_result [OF assms(1-6)])
  let ?f = "unat (work_valid_nonces (vs_work s))" and ?c = "unat max_hashes - r"
  have hash: "nonce_hash ?key ?half (snd ?sj) n = verus_job_hash ser (tail n)" for n
    by (simp add: nonce_hash_def verus_job_hash_def ser_def tail_def)
  have meets: "?M n \<longleftrightarrow> bytes_val (verus_job_hash ser (tail n)) \<le> words_val (work_target work)" for n
    using hash_le_target_bytes [OF length_nonce_hash [OF x(4)], of "work_target work" n] assms(1)
    by (simp add: nonce_meets_def hash wf_work_def)
  obtain p' where r: "work_verus (vs_work s) = Some p'" "?f \<le> MAX_NONCES"
    "\<And>i. i < ?f \<Longrightarrow> share_of ?key ?half (snd ?sj) ?job (work_data work ! 30) ?c p' i"
    "work_valid_nonces (vs_work s) = 0 \<Longrightarrow> \<forall>j < ?c. \<not> ?M (work_data work ! 30 + of_nat j)"
    using x(2) by (auto simp: verus_result_def)
  have "?c < 2 ^ 64" using unat_u32_less [of max_hashes] by simp
  then have cnt: "unat (of_nat ?c :: u64) = ?c" by (simp add: unat_of_nat)
  have shares: "\<exists>j < ?c. payload_nonce_tail p' ! i = tail (n0 + of_nat j) \<and>
      payload_full_hash p' ! i = verus_job_hash ser (tail (n0 + of_nat j)) \<and> bytes_val (payload_full_hash p' ! i) \<le> words_val (work_target work)"
    if "i < ?f" for i
    using r(3) [OF that] unfolding share_of_def meets hash by (auto simp: tail_def n0_def)
  have iff: "0 < ?f \<longleftrightarrow> (\<exists>j < ?c. bytes_val (verus_job_hash ser (tail (n0 + of_nat j))) \<le> words_val (work_target work))"
    using shares [of 0] r(4) unfolding meets n0_def by (metis unat_gt_0)
  show ?thesis
    using x(1,3) r(1,2) shares iff cnt
    by (intro exI [of _ "verus_once has_crypto rt"] exI [of _ "(vs_work s)\<lparr>work_data := (work_data (vs_work s))[30 := nonce]\<rparr>"]
        exI [of _ p'] exI [of _ ?f] exI [of _ "of_nat ?c :: u64"]) (auto simp: unat_eq_zero unat_ucast_u64)
qed

definition witness_view :: cpu_view where
  "witness_view = \<lparr>env_VERUS_X2 = None, env_VERUS_FUSE = None, env_VERUS_ASM = None, env_VERUS_X2_SELFTEST = Some ''1'', current_cpu = 0,
     view_topology = initial_topology\<lparr>g_num_big_cores := 1, g_cpu_cores :=
       [\<lparr>cpu_id = 0, implementer = 0x41, part_number = 0xD0B, is_big = True, max_freq_khz = 2400000\<rparr>]\<rparr>\<rparr>"

definition witness_junk :: verus_junk where
  "witness_junk = \<lparr>junk_buffer = replicate 64 7, junk_ref = replicate 32 7, junk_vectors = (1, 2, 3, 4),
     junk_journal = zero_journal, junk_journal2 = zero_journal\<rparr>"

definition witness_work :: work where
  "witness_work = zero_work\<lparr>work_target := replicate 8 0xFFFFFFFF, work_verus := Some zero_payload\<rparr>"

lemma witness_ok:
  "wf_work witness_work" "work_verus witness_work = Some zero_payload" "work_valid_nonces witness_work = 0"
  "runtime_ok initial_verus_runtime" "native_available (verus_once True initial_verus_runtime)" "junk_ok witness_junk"
  "work_target witness_work = replicate 8 0xFFFFFFFF"
  by (auto simp: witness_work_def wf_work_def zero_work_def size_consts runtime_ok_def initial_verus_runtime_def verus_once_def
      init_native_functions_def junk_ok_def witness_junk_def)

text \<open>With the target of the witness every hash is a share.\<close>

lemma hash_le_ones: "length h = 32 \<Longrightarrow> bytes_val h \<le> words_val (replicate 8 0xFFFFFFFF)"
  using words_val_less [of "bytes_words h"] words_val_ones [of 8] bytes_val_words [of "bytes_words h"]
    words_bytes_words [of h 8] length_bytes_words [of h 8] by simp

lemma length_verus_job_hash:
  assumes "length ser = 1487" "length n = 15"
  shows "length (verus_job_hash ser n) = 32"
proof -
  have "scan_job_ok (generate_cl_key load_constants_native (verus_job_half ser)) (verus_job_half ser) n"
    using assms job_half_head [of "replicate 64 0" ser ser] by (simp add: scan_job_ok_def) blast
  then show ?thesis
    using verus_hash_total [of "verus_job_half ser" n _ zero_journal noasm_build] assms
    unfolding verus_job_hash_def scan_job_ok_def by (metis zero_journal_ok)
qed

theorem verus_scan_correct_witness:
  "\<exists>rt' work' p' found hashes_done.
    scanhash_verus True witness_view True witness_junk (\<lambda>_. False) initial_verus_runtime 3 0 witness_work =
      Some (rt', work', found, hashes_done) \<and> work_verus work' = Some p' \<and> 0 < found \<and>
    bytes_val (payload_full_hash p' ! 0) \<le> words_val (replicate 8 0xFFFFFFFF)"
proof -
  note w = witness_ok
  let ?sj = "serialize_job (work_data witness_work) (payload_solution zero_payload)"
  let ?hash = "\<lambda>n. verus_job_hash (fst ?sj) (nonce_tail (snd ?sj) n)"
  from verus_scan_correct [OF w(1-6), of witness_view True "\<lambda>_. False" 3 0]
  obtain rt' work' p' found hashes_done where c:
    "scanhash_verus True witness_view True witness_junk (\<lambda>_. False) initial_verus_runtime 3 0 witness_work = Some (rt', work', found, hashes_done)"
    "work_verus work' = Some p'"
    "\<forall>i < found. bytes_val (payload_full_hash p' ! i) \<le> words_val (work_target witness_work)"
    "0 < found \<longleftrightarrow> (\<exists>j < unat hashes_done. bytes_val (?hash (work_data witness_work ! 30 + of_nat j)) \<le> words_val (work_target witness_work))"
    "found = 0 \<longrightarrow> unat hashes_done = 3"
    by fastforce
  have "length (fst ?sj) = 1487" "length (snd ?sj) = 15"
    using serialize_lengths by (simp_all add: witness_work_def zero_work_def zero_payload_def verus_sizes)
  then have "bytes_val (?hash n) \<le> words_val (work_target witness_work)" for n
    unfolding w(7) by (intro hash_le_ones length_verus_job_hash) simp_all
  then have "0 < found" using c(4,5) by (cases "found = 0") (auto dest: spec [of _ 0])
  then show ?thesis using c(1-3) w(7) by auto
qed

end
