(* ===== verification/Verus_Payload.thy ===== *)
theory Verus_Payload
  imports Verus_Scan
begin

text \<open>
  From the scan to the wire: the header and the solution of a share that \<open>verus_stratum_submit\<close> is about to send
  hash, under the diagnostic check \<open>verus_verify_submitted_payload\<close>, to the hash the scan compared with the
  target. This covers the second winner of a pair, whose nonce bytes have to be put back into the
  one solution a work unit carries, and merged-mining jobs, whose header is cleared before it is hashed.
\<close>

section \<open>The rebuilt job\<close>

definition cleared :: "nat \<Rightarrow> bool" where
  "cleared i \<longleftrightarrow> 4 \<le> i \<and> i < 100 \<or> 104 \<le> i \<and> i < 140 \<or> 151 \<le> i \<and> i < 215"

lemma nth_memcpy:
  "off + length b \<le> length a \<Longrightarrow> i < length a \<Longrightarrow> memcpy a off b ! i = (if off \<le> i \<and> i < off + length b then b ! (i - off) else a ! i)"
  by (auto simp: memcpy_nth_inside memcpy_nth_outside not_less)

lemma length_clear: "215 \<le> length job \<Longrightarrow> length (clear_noncanonical job) = length job"
  by (simp add: clear_noncanonical_def Let_def kHeaderBytes_def length_memcpy)

lemma nth_clear: "215 \<le> length job \<Longrightarrow> i < length job \<Longrightarrow> clear_noncanonical job ! i = (if cleared i then 0 else job ! i)"
  by (auto simp: clear_noncanonical_def Let_def kHeaderBytes_def length_memcpy nth_memcpy cleared_def)

text \<open>
  A header whose bytes 128 to 131 were replaced and a solution whose last 15 bytes were replaced give the same complete
  chunks, once the fields of a merged-mining job are cleared again.
\<close>

lemma rebuilt_job:
  assumes "length pdata = 68" "length sol = 1344" "length ns = 15" "length t = 15"
  defines "ser \<equiv> fst (serialize_job pdata sol)"
  defines "hdr \<equiv> if merged_solution sol then memcpy (take 140 ser) 128 (take 4 (drop 7 ns)) else take 140 ser"
  defines "extra \<equiv> memcpy (drop 140 ser) 1332 t"
  defines "rebuilt \<equiv> hdr @ extra"
  shows "merged_solution (drop 3 extra) = merged_solution sol"
    and "take 1472 (if merged_solution sol then clear_noncanonical rebuilt else rebuilt) = take 1472 ser"
    and "length (if merged_solution sol then clear_noncanonical rebuilt else rebuilt) = 1487"
proof -
  define job where "job = take 140 (words_bytes pdata) @ kMergedMiningPrefix @ sol"
  have jl: "length job = 1487" using assms(1,2) by (simp add: job_def kMergedMiningPrefix_def)
  have ser: "ser = (if merged_solution sol then clear_noncanonical job else job)"
    using assms(2) by (simp add: ser_def serialize_job_def job_def verus_sizes Let_def)
  have sl: "length ser = 1487" using jl by (simp add: ser length_clear)
  have el: "length extra = 1347" using sl assms(4) by (simp add: extra_def length_memcpy)
  have hl: "length hdr = 140" using sl assms(3) by (simp add: hdr_def length_memcpy)
  have en: "extra ! i = ser ! (140 + i)" if "i < 1332" for i
    using that sl assms(4) by (simp add: extra_def nth_memcpy)
  have "ser ! 143 = sol ! 0" "ser ! 148 = sol ! 5"
    using jl assms(1,2) by (auto simp: ser nth_clear cleared_def job_def nth_append kMergedMiningPrefix_def)
  then show "merged_solution (drop 3 extra) = merged_solution sol"
    using en [of 3] en [of 8] el by (simp add: merged_solution_def)
  have rl: "length rebuilt = 1487" using hl el by (simp add: rebuilt_def)
  then show "length (if merged_solution sol then clear_noncanonical rebuilt else rebuilt) = 1487" by (simp add: length_clear)
  have rn: "rebuilt ! i = ser ! i" if "i < 1472" "\<not> (128 \<le> i \<and> i < 132 \<and> merged_solution sol)" for i
  proof (cases "i < 140")
    case True
    then show ?thesis using that hl sl assms(3) by (simp add: rebuilt_def nth_append hdr_def nth_memcpy)
  next
    case False
    then show ?thesis using that hl en [of "i - 140"] by (simp add: rebuilt_def nth_append)
  qed
  show "take 1472 (if merged_solution sol then clear_noncanonical rebuilt else rebuilt) = take 1472 ser"
  proof (cases "merged_solution sol")
    case True
    have "clear_noncanonical rebuilt ! i = ser ! i" if "i < 1472" for i
      using that rn [of i] True jl by (cases "cleared i") (auto simp: nth_clear rl ser, auto simp: cleared_def)
    then show ?thesis using True rl sl by (intro nth_equalityI) (simp_all add: length_clear)
  next
    case False
    then show ?thesis using rn rl sl by (intro nth_equalityI) simp_all
  qed
qed

section \<open>A recorded share on its way out\<close>

lemma memcpy_own: "off + k \<le> length h \<Longrightarrow> memcpy h off (take k (drop off h)) = h"
  by (rule nth_equalityI) (auto simp: length_memcpy nth_memcpy)

lemma take_memcpy_own:
  "length h \<le> length d \<Longrightarrow> off + k \<le> length h \<Longrightarrow> take (length h) (memcpy (memcpy d 0 h) off (take k (drop off h))) = h"
  by (simp add: memcpy_inside memcpy_own) (simp add: memcpy_def)

text \<open>The header and the solution of share \<open>i\<close> after \<open>verus_stratum_submit\<close> has put its nonce and its tail back.\<close>

lemma prepared_share:
  fixes nonce :: u32
  assumes "wf_work work" "work_verus work = Some p" "stored_job job ns work p" "length (vj_serialized job) = 1487" "length ns = 15"
    and "i < unat (work_valid_nonces work)" "unat (work_valid_nonces work) \<le> MAX_NONCES"
  defines "sent \<equiv> verus_prepare_submit (work\<lparr>work_data := (work_data work)[30 := nonce], work_submit_nonce_id := of_nat i\<rparr>)"
  obtains q where "work_verus sent = Some q"
    "take 140 (words_bytes (work_data sent)) =
       (if vj_merged job then memcpy (take 140 (vj_serialized job)) 128 (take 4 (drop 7 ns)) else take 140 (vj_serialized job))"
    "take 1347 (payload_extra q) = memcpy (drop 140 (vj_serialized job)) 1332 (payload_nonce_tail p ! i)"
    "take 15 (drop 1332 (payload_extra q)) = payload_nonce_tail p ! i" "length (payload_nonce_tail p ! i) = 15"
    "length (payload_extra q) = 1388"
proof -
  let ?ser = "vj_serialized job" and ?t = "payload_nonce_tail p ! i"
  let ?hdr = "if vj_merged job then memcpy (take 140 ?ser) 128 (take 4 (drop 7 ns)) else take 140 ?ser"
  have i: "i < 2" using assms(6,7) by (simp add: size_consts)
  have wf: "length (work_data work) = 68" "length (payload_extra p) = 1388" "length ?t = 15"
    using assms(1,2) i by (auto simp: wf_work_def wf_payload_def verus_sizes size_consts)
  obtain t where st: "words_bytes (work_data work) = memcpy (words_bytes (work_data work)) 0 ?hdr"
    "length t = 15" "take 1347 (payload_extra p) = memcpy (drop 140 ?ser) 1332 t" "work_nonces work ! i = le32dec (drop 120 ?ser)"
    using assms(3,6) unfolding stored_job_def by blast
  have idx: "unat (of_nat i :: u8) = i" using i by (simp add: unat_of_nat)
  have hl: "length ?hdr = 140" using assms(4,5) by (simp add: length_memcpy)
  have data: "work_data sent = (work_data work)[30 := le32dec (drop 120 ?ser)]"
    and pay: "work_verus sent = Some (p\<lparr>payload_extra := memcpy (payload_extra p) 1332 ?t\<rparr>)"
    using assms(2) i st(4)
    by (simp_all add: sent_def verus_prepare_submit_def idx miner_work_verus_nonce_tail_def EQNONCE_OFFSET_def size_consts
        VERUS_SOLUTION_NONCE_OFFSET_def Let_def)
  have four: "le32enc (le32dec (drop 120 ?ser)) = take 4 (drop 120 ?hdr)"
    using assms(4,5) le32enc_dec [of "take 4 (drop 120 ?ser)"] by (simp add: memcpy_def le32dec_def drop_take)
  have "words_bytes (work_data sent) = memcpy (memcpy (words_bytes (work_data work)) 0 ?hdr) 120 (take 4 (drop 120 ?hdr))"
    using wf(1) st(1) by (simp add: data words_bytes_update four)
  then have "take 140 (words_bytes (work_data sent)) = ?hdr"
    using hl wf(1) take_memcpy_own [of ?hdr "words_bytes (work_data work)" 120 4] by simp
  moreover have "take 1347 (memcpy (payload_extra p) 1332 ?t) = memcpy (take 1347 (payload_extra p)) 1332 ?t"
    using wf by (simp add: memcpy_def)
  then have "take 1347 (memcpy (payload_extra p) 1332 ?t) = memcpy (drop 140 ?ser) 1332 ?t"
    using wf(3) st(2) assms(4) unfolding st(3) by (simp add: memcpy_def)
  moreover have "take 15 (drop 1332 (memcpy (payload_extra p) 1332 ?t)) = ?t" using wf by (simp add: memcpy_def)
  ultimately show ?thesis using that pay wf by (simp add: length_memcpy)
qed

text \<open>
  C10. Every share a Verus scan reports verifies on the wire. For each reported share, the header words and the
  solution that \<open>verus_stratum_submit\<close> prepares for it hash to the 256-bit hash recorded with the
  share, and that hash is at most the target: \<open>verus_verify_submitted_payload\<close> answers yes. This holds for
  both shares of a pair and for merged-mining jobs, and with any contents of the buffers the check
  leaves uninitialised.
\<close>

theorem recorded_share_verifies:
  assumes "wf_work work" "work_verus work = Some p" "work_valid_nonces work = 0"
    and "runtime_ok rt" "native_available (verus_once has_crypto rt)" "junk_ok junk"
    and "scanhash_verus has_crypto v use_zip junk stop rt max_hashes hashes_done0 work = Some (rt', work', found, hashes_done)"
    and "i < found" "length buffer_b = 64" "journal_ok j"
  defines "sent \<equiv> verus_prepare_submit (work'\<lparr>work_submit_nonce_id := of_nat i\<rparr>)"
  shows "\<exists>h q. miner_work_verus_full_hash work' i = Some h \<and> bytes_val h \<le> words_val (work_target work) \<and> work_verus sent = Some q \<and>
    verus_verify_submitted_payload rt' buffer_b j (work_data sent) (payload_extra q) (Some h) = Some (True, h)"
proof -
  let ?sol = "payload_solution p"
  let ?sj = "serialize_job (work_data work) ?sol"
  let ?job = "\<lparr>vj_serialized = fst ?sj, vj_merged = merged_solution ?sol, vj_target = work_target work\<rparr>"
  let ?half = "verus_job_half (fst ?sj)" and ?ns = "snd ?sj"
  let ?key = "generate_cl_key load_constants_native ?half"
  obtain r and s :: verus_scan and nonce where x:
    "scanhash_verus has_crypto v use_zip junk stop rt max_hashes hashes_done0 work =
      Some (verus_once has_crypto rt, (vs_work s)\<lparr>work_data := (work_data (vs_work s))[30 := nonce]\<rparr>,
            unat (work_valid_nonces (vs_work s)), of_nat (unat max_hashes - r))"
    "verus_result ?key ?half ?ns ?job work (work_data work ! 30) (unat max_hashes - r) (vs_work s)"
    "work_valid_nonces (vs_work s) = 0 \<and> (\<forall>k. \<not> stop k) \<longrightarrow> r = 0" "scan_job_ok ?key ?half ?ns"
    by (rule scanhash_verus_result [OF assms(1-6)])
  let ?w = "vs_work s"
  have run: "rt' = verus_once has_crypto rt" "work' = ?w\<lparr>work_data := (work_data ?w)[30 := nonce]\<rparr>" "found = unat (work_valid_nonces ?w)"
    using x(1) assms(7) by simp_all
  have nz: "work_valid_nonces ?w \<noteq> 0" using assms(8) run(3) by auto
  obtain p' where p': "wf_work ?w" "work_verus ?w = Some p'" "unat (work_valid_nonces ?w) \<le> MAX_NONCES"
    "share_of ?key ?half ?ns ?job (work_data work ! 30) (unat max_hashes - r) p' i" "stored_job ?job ?ns ?w p'"
    using x(2) assms(8) run(3) nz by (auto simp: verus_result_def)
  obtain n where n: "nonce_meets ?key ?half ?ns ?job n" "payload_nonce_tail p' ! i = nonce_tail ?ns n"
    "payload_full_hash p' ! i = nonce_hash ?key ?half ?ns n"
    using p'(4) unfolding share_of_def by blast
  have dl: "length (work_data work) = 68" "length ?sol = 1344"
    using assms(1,2) by (simp_all add: wf_work_def wf_payload_def verus_sizes)
  have sl: "length (vj_serialized ?job) = 1487" "length ?ns = 15" using serialize_lengths [OF dl] by simp_all
  have se: "sent = verus_prepare_submit (?w\<lparr>work_data := (work_data ?w)[30 := nonce], work_submit_nonce_id := of_nat i\<rparr>)"
    by (simp add: sent_def run(2))
  have ib: "i < unat (work_valid_nonces ?w)" using assms(8) run(3) by simp
  obtain q where q: "work_verus sent = Some q"
    "take 140 (words_bytes (work_data sent)) =
       (if vj_merged ?job then memcpy (take 140 (vj_serialized ?job)) 128 (take 4 (drop 7 ?ns)) else take 140 (vj_serialized ?job))"
    "take 1347 (payload_extra q) = memcpy (drop 140 (vj_serialized ?job)) 1332 (payload_nonce_tail p' ! i)"
    "take 15 (drop 1332 (payload_extra q)) = payload_nonce_tail p' ! i" "length (payload_nonce_tail p' ! i) = 15"
    "length (payload_extra q) = 1388"
    unfolding se by (rule prepared_share [OF p'(1,2,5) sl ib p'(3)])
  note q = q [unfolded n(2) verus_job.select_convs]
  note rb = rebuilt_job [OF dl sl(2) q(5), folded q(2,3)]
  have m: "merged_solution (drop 3 (payload_extra q)) = merged_solution ?sol"
    using rb(1) q(6) by (simp add: merged_solution_def)
  let ?rb = "take 140 (words_bytes (work_data sent)) @ take 1347 (payload_extra q)"
  let ?rb' = "if merged_solution ?sol then clear_noncanonical ?rb else ?rb"
  have lr: "length ?rb' = 1487" using rb(3) by simp
  have tr: "take 1472 ?rb' = take 1472 (fst ?sj)" using rb(2) by simp
  have ls: "length (fst ?sj) = 1487" using sl(1) by simp
  obtain h where h: "build_blockhash_half load_constants_native buffer_b ?rb' = Some h" "length h = 64" "take 32 h = take 32 ?half"
    "length ?half = 64" "generate_cl_key load_constants_native h = ?key"
    by (rule job_half_head [OF assms(9) lr ls tr])
  have same: "verus_hash ?key h (nonce_tail ?ns n) = nonce_hash ?key ?half ?ns n"
    using verus_hash_head [of h ?half "nonce_tail ?ns n"] h q(5) by (simp add: nonce_hash_def)
  have kl: "length ?key = VERUS_KEY_SIZE128" by simp
  have "\<exists>c j'. compute_verus_hash_full noasm_build h (nonce_tail ?ns n) ?key j = Some (verus_hash ?key h (nonce_tail ?ns n), c, ?key, j')"
    by (rule verus_hash_total [OF h(2) q(5) kl assms(10), of noasm_build]) (intro exI)
  then obtain c j' where full: "compute_verus_hash_full noasm_build h (nonce_tail ?ns n) ?key j = Some (nonce_hash ?key ?half ?ns n, c, ?key, j')"
    unfolding same by (elim exE)
  have rc: "native_available rt'" "rc_native rt' = load_constants_native"
    using runtime_ok_once [OF assms(4)] assms(5) run(1) by (simp_all add: runtime_ok_def)
  have "verus_verify_submitted_payload rt' buffer_b j (work_data sent) (payload_extra q) (Some (nonce_hash ?key ?half ?ns n)) =
      Some (True, nonce_hash ?key ?half ?ns n)"
    using rc h(1,5) full q(4) by (simp add: verus_verify_submitted_payload_def verus_sizes m Let_def)
  moreover have "miner_work_verus_full_hash work' i = Some (nonce_hash ?key ?half ?ns n)"
    using p'(2,3) n(3) assms(8) run by (simp add: miner_work_verus_full_hash_def)
  moreover have "bytes_val (nonce_hash ?key ?half ?ns n) \<le> words_val (work_target work)"
    using n(1) hash_le_target_bytes [OF length_nonce_hash [OF x(4)], of "work_target work" n] assms(1)
    by (simp add: nonce_meets_def wf_work_def)
  ultimately show ?thesis using q(1) by blast
qed

lemma witness_scan_reports:
  "\<exists>rt' work' found hashes_done.
    scanhash_verus True witness_view True witness_junk (\<lambda>_. False) initial_verus_runtime 3 0 witness_work =
      Some (rt', work', found, hashes_done) \<and> 0 < found"
proof -
  note w = witness_ok
  let ?sj = "serialize_job (work_data witness_work) (payload_solution zero_payload)"
  let ?job = "\<lparr>vj_serialized = fst ?sj, vj_merged = merged_solution (payload_solution zero_payload), vj_target = work_target witness_work\<rparr>"
  let ?half = "verus_job_half (fst ?sj)" and ?n = "work_data witness_work ! 30"
  let ?key = "generate_cl_key load_constants_native ?half"
  obtain r and s :: verus_scan and nonce where x:
    "scanhash_verus True witness_view True witness_junk (\<lambda>_. False) initial_verus_runtime 3 0 witness_work =
      Some (verus_once True initial_verus_runtime, (vs_work s)\<lparr>work_data := (work_data (vs_work s))[30 := nonce]\<rparr>,
            unat (work_valid_nonces (vs_work s)), of_nat (unat (3 :: u32) - r))"
    "verus_result ?key ?half (snd ?sj) ?job witness_work ?n (unat (3 :: u32) - r) (vs_work s)"
    "work_valid_nonces (vs_work s) = 0 \<and> (\<forall>k :: nat. \<not> False) \<longrightarrow> r = 0" "scan_job_ok ?key ?half (snd ?sj)"
    by (rule scanhash_verus_result [OF w(1-6), of witness_view True "\<lambda>_. False" 3 0])
  have meets: "nonce_meets ?key ?half (snd ?sj) ?job ?n"
    using hash_le_target_bytes [OF length_nonce_hash [OF x(4)], of "work_target witness_work" ?n]
      hash_le_ones [OF length_nonce_hash [OF x(4)], of ?n] w(7) by (simp add: nonce_meets_def)
  have "work_valid_nonces (vs_work s) \<noteq> 0"
  proof
    assume z: "work_valid_nonces (vs_work s) = 0"
    then have r: "r = 0" using x(3) by blast
    have "\<forall>j < unat (3 :: u32) - r. \<not> nonce_meets ?key ?half (snd ?sj) ?job (?n + of_nat j)"
      using x(2) z unfolding verus_result_def by blast
    from this [rule_format, of 0] show False using meets r by (simp add: unat_numeral)
  qed
  then show ?thesis using x(1) by (auto simp: unat_gt_0)
qed

theorem recorded_share_verifies_witness:
  "\<exists>rt' work' found hashes_done h q.
    scanhash_verus True witness_view True witness_junk (\<lambda>_. False) initial_verus_runtime 3 0 witness_work =
      Some (rt', work', found, hashes_done) \<and> miner_work_verus_full_hash work' 0 = Some h \<and>
    work_verus (verus_prepare_submit (work'\<lparr>work_submit_nonce_id := of_nat 0\<rparr>)) = Some q \<and>
    verus_verify_submitted_payload rt' (replicate 64 9) zero_journal
      (work_data (verus_prepare_submit (work'\<lparr>work_submit_nonce_id := of_nat 0\<rparr>))) (payload_extra q) (Some h) = Some (True, h)"
proof -
  obtain rt' work' found hashes_done where s:
    "scanhash_verus True witness_view True witness_junk (\<lambda>_. False) initial_verus_runtime 3 0 witness_work = Some (rt', work', found, hashes_done)"
    "0 < found"
    using witness_scan_reports by auto
  have "length (replicate 64 (9 :: u8)) = 64" by simp
  from recorded_share_verifies [OF witness_ok(1-6) s this zero_journal_ok] s(1) show ?thesis by (elim exE conjE) (intro exI conjI)
qed

end
