(* ===== verification/Dns.thy ===== *)
theory Dns
  imports Bytes "HOL-Library.Monad_Syntax"
begin

text \<open>
  The fallback resolver of \<open>src/utils/dns_fallback.c\<close>: the encoding of a query, the parser of a response, the two
  transports, the list of servers and the walk over them. Reads and writes are checked, \<^const>\<open>None\<close> being an access outside a
  buffer. The clock, the random identifier, \<open>inet_pton\<close>, \<open>inet_ntop\<close> and what the sockets deliver are arguments.
\<close>

section \<open>Checked accesses\<close>

definition put_bytes :: "bytes \<Rightarrow> nat \<Rightarrow> bytes \<Rightarrow> bytes option" where
  "put_bytes buf pos b = (if fits buf pos b then Some (memcpy buf pos b) else None)"

definition get_byte :: "bytes \<Rightarrow> nat \<Rightarrow> u8 option" where
  "get_byte msg pos = (if pos < length msg then Some (msg ! pos) else None)"

definition get_u16 :: "bytes \<Rightarrow> nat \<Rightarrow> u16 option" where
  "get_u16 msg pos = do {
     a \<leftarrow> get_byte msg pos;
     b \<leftarrow> get_byte msg (pos + 1);
     Some (push_bit 8 (ucast a) OR ucast b)
   }"

definition get_bytes :: "bytes \<Rightarrow> nat \<Rightarrow> nat \<Rightarrow> bytes option" where
  "get_bytes msg pos n = (if pos + n \<le> length msg then Some (take n (drop pos msg)) else None)"

section \<open>Limits\<close>

definition DNS_TIMEOUT_SEC :: int where "DNS_TIMEOUT_SEC = 3"
definition DNS_TOTAL_BUDGET_SEC :: int where "DNS_TOTAL_BUDGET_SEC = 10"
definition DNS_MAX_QUERY :: nat where "DNS_MAX_QUERY = 300"
definition DNS_MAX_RESPONSE :: nat where "DNS_MAX_RESPONSE = 2048"
definition DNS_QTYPE_A :: u16 where "DNS_QTYPE_A = 1"
definition DNS_QTYPE_AAAA :: u16 where "DNS_QTYPE_AAAA = 28"
definition DNS_MAX_SERVERS :: nat where "DNS_MAX_SERVERS = 4"
definition INET_ADDRSTRLEN :: nat where "INET_ADDRSTRLEN = 16"
definition DNS_FALLBACK_ADDRSTRLEN :: nat where "DNS_FALLBACK_ADDRSTRLEN = 46"

definition k_dns_servers :: "string list" where
  "k_dns_servers = [''1.1.1.1'', ''8.8.8.8'']"

lemmas dns_consts = DNS_TIMEOUT_SEC_def DNS_TOTAL_BUDGET_SEC_def DNS_MAX_QUERY_def DNS_MAX_RESPONSE_def DNS_QTYPE_A_def
  DNS_QTYPE_AAAA_def DNS_MAX_SERVERS_def INET_ADDRSTRLEN_def DNS_FALLBACK_ADDRSTRLEN_def

section \<open>The deadline\<close>

text \<open>A time of the monotonic clock is a pair of seconds and nanoseconds.\<close>

type_synonym timespec = "int \<times> int"

definition dns_deadline_init :: "timespec \<Rightarrow> timespec" where
  "dns_deadline_init now = (case now of (sec, nsec) \<Rightarrow> (sec + DNS_TOTAL_BUDGET_SEC, nsec))"

definition dns_budget_remaining :: "bool \<Rightarrow> timespec \<Rightarrow> timespec \<Rightarrow> int" where
  "dns_budget_remaining should_abort now deadline =
     (if should_abort then 0
      else if fst deadline < fst now \<or> (fst now = fst deadline \<and> snd deadline \<le> snd now) then 0
      else fst deadline - fst now + 1)"

definition dns_op_timeout :: "bool \<Rightarrow> timespec \<Rightarrow> timespec \<Rightarrow> int" where
  "dns_op_timeout should_abort now deadline =
     (let remaining = dns_budget_remaining should_abort now deadline
      in if remaining \<le> 0 then 0 else if remaining < DNS_TIMEOUT_SEC then remaining else DNS_TIMEOUT_SEC)"

section \<open>The query\<close>

definition c_bytes :: "string \<Rightarrow> bytes" where
  "c_bytes s = map (\<lambda>c. of_nat (char_code c)) s"

text \<open>The loop over the positions of the host name, with \<open>host_len + 1 - i\<close> rounds left.\<close>

fun qname_loop :: "string \<Rightarrow> nat \<Rightarrow> nat \<Rightarrow> nat \<Rightarrow> nat \<Rightarrow> bytes \<Rightarrow> (bytes \<times> int) option" where
  "qname_loop host 0 i label_start pos buf = do { buf \<leftarrow> put_bytes buf pos [0]; Some (buf, int (pos + 1)) }"
| "qname_loop host (Suc n) i label_start pos buf =
     (if i = length host \<or> host ! i = CHR ''.'' then
        let label_len = i - label_start
        in if label_len = 0 \<or> 63 < label_len then Some (buf, -1)
           else do {
             buf \<leftarrow> put_bytes buf pos [of_nat label_len];
             buf \<leftarrow> put_bytes buf (pos + 1) (c_bytes (take label_len (drop label_start host)));
             qname_loop host n (i + 1) (i + 1) (pos + 1 + label_len) buf
           }
      else qname_loop host n (i + 1) label_start pos buf)"

text \<open>\<open>off\<close> is where the name starts in the buffer and \<open>cap\<close> the number of bytes it may take.\<close>

definition dns_encode_qname :: "bytes \<Rightarrow> nat \<Rightarrow> nat \<Rightarrow> string \<Rightarrow> (bytes \<times> int) option" where
  "dns_encode_qname buf off cap host =
     (if length host = 0 \<or> 253 < length host \<or> cap < length host + 2 then Some (buf, -1)
      else map_option (\<lambda>(b, n). (b, if n < 0 then -1 else n - int off)) (qname_loop host (length host + 1) 0 0 off buf))"

definition dns_build_query :: "bytes \<Rightarrow> string \<Rightarrow> u16 \<Rightarrow> u16 \<Rightarrow> (bytes \<times> int) option" where
  "dns_build_query buf host query_id qtype =
     (if length buf < 12 then Some (buf, -1)
      else do {
        buf \<leftarrow> put_bytes buf 0 [ucast (drop_bit 8 query_id), ucast (query_id AND 0xFF), 0x01, 0, 0, 0x01, 0, 0, 0, 0, 0, 0];
        (buf, qname_len) \<leftarrow> dns_encode_qname buf 12 (length buf - 12 - 4) host;
        if qname_len < 0 then Some (buf, -1)
        else do {
          buf \<leftarrow> put_bytes buf (12 + nat qname_len) [ucast (drop_bit 8 qtype), ucast (qtype AND 0xFF), 0x00, 0x01];
          Some (buf, 12 + qname_len + 4)
        }
      })"

section \<open>The response\<close>

text \<open>\<^const>\<open>None\<close> is the result -1.\<close>

function dns_skip_name :: "bytes \<Rightarrow> nat \<Rightarrow> nat option" where
  "dns_skip_name msg pos =
     (if pos < length msg then
        let len = msg ! pos
        in if len = 0 then Some (pos + 1)
           else if len AND 0xC0 = 0xC0 then (if pos + 2 \<le> length msg then Some (pos + 2) else None)
           else if 63 < len then None
           else dns_skip_name msg (pos + 1 + unat len)
      else None)"
  by pat_completeness auto
termination by (relation "measure (\<lambda>(msg, pos). length msg - pos)") auto

declare dns_skip_name.simps [simp del]

text \<open>\<open>inet_ntop\<close> for the two address families.\<close>

record ntop_env =
  ntop4 :: "bytes \<Rightarrow> string option"
  ntop6 :: "bytes \<Rightarrow> string option"

text \<open>The address of one record, if it has the wanted type and \<open>inet_ntop\<close> prints it.\<close>

definition record_address :: "ntop_env \<Rightarrow> bytes \<Rightarrow> u16 \<Rightarrow> u16 \<Rightarrow> u16 \<Rightarrow> u16 \<Rightarrow> nat \<Rightarrow> string option option" where
  "record_address ntop msg qtype rtype rclass rdlen pos =
     (if rclass = 1 \<and> qtype = DNS_QTYPE_A \<and> rtype = DNS_QTYPE_A \<and> rdlen = 4
      then map_option (ntop4 ntop) (get_bytes msg pos 4)
      else if rclass = 1 \<and> qtype = DNS_QTYPE_AAAA \<and> rtype = DNS_QTYPE_AAAA \<and> rdlen = 16
      then map_option (ntop6 ntop) (get_bytes msg pos 16)
      else Some None)"

text \<open>
  The loop over the answers, with \<open>ancount - i\<close> rounds left. The result is the return value and the addresses, in which those found
  before a malformed record stay.
\<close>

fun answer_loop :: "ntop_env \<Rightarrow> bytes \<Rightarrow> u16 \<Rightarrow> nat \<Rightarrow> nat \<Rightarrow> nat \<Rightarrow> bool \<Rightarrow> string list \<Rightarrow> (int \<times> string list) option" where
  "answer_loop ntop msg qtype max_ips 0 pos found ips = Some (if found then 1 else 0, ips)"
| "answer_loop ntop msg qtype max_ips (Suc n) pos found ips =
     (if max_ips \<le> length ips then Some (if found then 1 else 0, ips)
      else case dns_skip_name msg pos of
             None \<Rightarrow> Some (-1, ips)
           | Some pos \<Rightarrow>
               if length msg < pos + 10 then Some (-1, ips)
               else do {
                 rtype \<leftarrow> get_u16 msg pos;
                 rclass \<leftarrow> get_u16 msg (pos + 2);
                 rdlen \<leftarrow> get_u16 msg (pos + 8);
                 let pos = pos + 10;
                 if length msg < pos + unat rdlen then Some (-1, ips)
                 else do {
                   address \<leftarrow> record_address ntop msg qtype rtype rclass rdlen pos;
                   answer_loop ntop msg qtype max_ips n (pos + unat rdlen) (found \<or> address \<noteq> None)
                     (case address of Some ip \<Rightarrow> ips @ [ip] | None \<Rightarrow> ips)
                 }
               })"

definition dns_parse_response ::
  "ntop_env \<Rightarrow> bytes \<Rightarrow> bytes \<Rightarrow> u16 \<Rightarrow> nat \<Rightarrow> string list \<Rightarrow> (int \<times> string list) option" where
  "dns_parse_response ntop msg query qtype max_ips ips =
     (if length msg < 12 then Some (-1, ips)
      else do {
        q0 \<leftarrow> get_byte query 0;
        q1 \<leftarrow> get_byte query 1;
        if msg ! 0 \<noteq> q0 \<or> msg ! 1 \<noteq> q1 then Some (-1, ips)
        else if msg ! 2 AND 0x80 = 0 then Some (-1, ips)
        else if msg ! 2 AND 0x02 \<noteq> 0 then Some (-2, ips)
        else do {
          qdcount \<leftarrow> get_u16 msg 4;
          ancount \<leftarrow> get_u16 msg 6;
          if qdcount \<noteq> 1 then Some (-1, ips)
          else if length msg < length query then Some (-1, ips)
          else do {
            a \<leftarrow> get_bytes msg 12 (length query - 12);
            b \<leftarrow> get_bytes query 12 (length query - 12);
            if a \<noteq> b then Some (-1, ips)
            else if msg ! 3 AND 0x0F \<noteq> 0 then Some (0, ips)
            else case dns_skip_name msg 12 of
                   None \<Rightarrow> Some (-1, ips)
                 | Some pos \<Rightarrow>
                     if length msg < pos + 4 then Some (-1, ips)
                     else answer_loop ntop msg qtype max_ips (unat ancount) (pos + 4) False ips
          }
        }
      })"

section \<open>The transports\<close>

text \<open>
  What the kernel answers to one exchange. A \<open>recv\<close> delivers its bytes after some seconds; one that
  would wait longer than the socket's time-out fails, as does one that delivers nothing.
\<close>

record exchange_env =
  xe_abort :: bool
  xe_now :: timespec
  xe_address :: bool
  xe_socket :: bool
  xe_connected :: bool
  xe_sent :: bool
  xe_recv :: "(bytes \<times> int) list"

definition recv_event :: "int \<Rightarrow> nat \<Rightarrow> bytes \<times> int \<Rightarrow> bytes" where
  "recv_event op_timeout cap e = (if op_timeout < snd e then [] else take cap (fst e))"

definition dns_exchange_udp :: "exchange_env \<Rightarrow> timespec \<Rightarrow> bytes option" where
  "dns_exchange_udp e deadline =
     (let op_timeout = dns_op_timeout (xe_abort e) (xe_now e) deadline
      in if op_timeout \<le> 0 then None
         else if \<not> xe_address e \<or> \<not> xe_socket e then None
         else if \<not> xe_connected e \<or> \<not> xe_sent e then None
         else case xe_recv e of
                [] \<Rightarrow> None
              | r # _ \<Rightarrow> (case recv_event op_timeout DNS_MAX_RESPONSE r of [] \<Rightarrow> None | resp \<Rightarrow> Some resp))"

text \<open>Both receive loops of the TCP exchange; the result also carries the events left and the seconds spent.\<close>

fun recv_exact :: "int \<Rightarrow> nat \<Rightarrow> (bytes \<times> int) list \<Rightarrow> bytes \<Rightarrow> int \<Rightarrow> (bytes \<times> (bytes \<times> int) list \<times> int) option" where
  "recv_exact op_timeout want [] got spent = (if length got < want then None else Some (got, [], spent))"
| "recv_exact op_timeout want (e # es) got spent =
     (if length got < want then
        let b = recv_event op_timeout (want - length got) e
        in if b = [] then None else recv_exact op_timeout want es (got @ b) (spent + snd e)
      else Some (got, e # es, spent))"

definition dns_exchange_tcp :: "exchange_env \<Rightarrow> timespec \<Rightarrow> (bytes \<times> int) option" where
  "dns_exchange_tcp e deadline =
     (let op_timeout = dns_op_timeout (xe_abort e) (xe_now e) deadline
      in if op_timeout \<le> 0 then None
         else if \<not> xe_address e \<or> \<not> xe_socket e then None
         else if \<not> xe_connected e then None
         else if \<not> xe_sent e then None
         else do {
           (len_prefix, es, spent) \<leftarrow> recv_exact op_timeout 2 (xe_recv e) [] 0;
           let want = unat (push_bit 8 (ucast (len_prefix ! 0)) OR ucast (len_prefix ! 1) :: u64);
           if want = 0 \<or> DNS_MAX_RESPONSE < want then None
           else do {
             (resp, es, spent) \<leftarrow> recv_exact op_timeout want es [] spent;
             Some (resp, spent)
           }
         })"

section \<open>The servers\<close>

text \<open>The loop over the comma-separated override; a literal is kept when it is short enough and an IPv4 address.\<close>

function servers_loop :: "(string \<Rightarrow> bool) \<Rightarrow> string \<Rightarrow> string list \<Rightarrow> string list" where
  "servers_loop pton env servers =
     (if env = [] \<or> DNS_MAX_SERVERS \<le> length servers then servers
      else let item = takeWhile (\<lambda>c. c \<noteq> CHR '','') env;
               rest = dropWhile (\<lambda>c. c \<noteq> CHR '','') env;
               servers = (if 0 < length item \<and> length item < INET_ADDRSTRLEN \<and> pton item then servers @ [item] else servers)
           in if rest = [] then servers else servers_loop pton (tl rest) servers)"
  by pat_completeness auto
termination
proof (relation "measure (\<lambda>(pton, env, servers). length env)", goal_cases)
  case (2 pton env servers x xa xb)
  then show ?case using length_dropWhile_le [of "\<lambda>c. c \<noteq> CHR '',''" env] by (cases env) auto
qed simp

declare servers_loop.simps [simp del]

definition dns_get_servers :: "(string \<Rightarrow> bool) \<Rightarrow> string option \<Rightarrow> string list" where
  "dns_get_servers pton env =
     (case env of
        Some (c # cs) \<Rightarrow> (let servers = servers_loop pton (c # cs) [] in if servers \<noteq> [] then servers else k_dns_servers)
      | _ \<Rightarrow> k_dns_servers)"

section \<open>The walk\<close>

text \<open>
  One address type over the servers. For each server: the answer of \<open>miner_should_abort\<close>, the clock, and the environments of the
  two exchanges.
\<close>

record server_env =
  se_abort :: bool
  se_now :: timespec
  se_udp :: exchange_env
  se_tcp :: exchange_env

definition query_server ::
  "ntop_env \<Rightarrow> server_env \<Rightarrow> bytes \<Rightarrow> u16 \<Rightarrow> timespec \<Rightarrow> nat \<Rightarrow> string list \<Rightarrow> (int \<times> string list) option" where
  "query_server ntop e query qtype deadline max_ips ips = do {
     (parsed, ips) \<leftarrow>
       (case dns_exchange_udp (se_udp e) deadline of
          Some resp \<Rightarrow> dns_parse_response ntop resp query qtype max_ips ips
        | None \<Rightarrow> Some (-1, ips));
     if parsed = -2 then
       (case dns_exchange_tcp (se_tcp e) deadline of
          Some (resp, spent) \<Rightarrow> dns_parse_response ntop resp query qtype max_ips ips
        | None \<Rightarrow> Some (-1, ips))
     else Some (parsed, ips)
   }"

fun servers_walk ::
  "ntop_env \<Rightarrow> (string \<Rightarrow> server_env) \<Rightarrow> string list \<Rightarrow> bytes \<Rightarrow> u16 \<Rightarrow> timespec \<Rightarrow> nat \<Rightarrow> string list \<Rightarrow> string list option" where
  "servers_walk ntop net [] query qtype deadline max_ips ips = Some ips"
| "servers_walk ntop net (s # servers) query qtype deadline max_ips ips =
     (if max_ips \<le> length ips then Some ips
      else if dns_budget_remaining (se_abort (net s)) (se_now (net s)) deadline \<le> 0 then Some ips
      else do {
        (parsed, ips) \<leftarrow> query_server ntop (net s) query qtype deadline max_ips ips;
        if parsed = 1 then Some ips else servers_walk ntop net servers query qtype deadline max_ips ips
      })"

text \<open>\<open>random\<close> is the identifier read from \<open>/dev/urandom\<close>, or the mix of clock and process number when that fails.\<close>

definition dns_query_id :: "u16 option \<Rightarrow> u64 \<Rightarrow> u64 \<Rightarrow> u16" where
  "dns_query_id random nsec pid =
     (let query_id = (case random of Some i \<Rightarrow> i | None \<Rightarrow> ucast ((nsec XOR pid) AND 0xFFFF))
      in if query_id = 0 then 0x5150 else query_id)"

text \<open>What one walk finds: the sources of the identifier, the contents of the uninitialised query buffer, and the network.\<close>

record query_env =
  qe_random :: "u16 option"
  qe_nsec :: u64
  qe_pid :: u64
  qe_buf :: bytes
  qe_net :: "string \<Rightarrow> server_env"

definition dns_query_servers ::
  "ntop_env \<Rightarrow> query_env \<Rightarrow> string list \<Rightarrow> string \<Rightarrow> u16 \<Rightarrow> timespec \<Rightarrow> nat \<Rightarrow> string list \<Rightarrow> string list option" where
  "dns_query_servers ntop e servers host qtype deadline max_ips ips = do {
     let query_id = dns_query_id (qe_random e) (qe_nsec e) (qe_pid e);
     (buf, query_len) \<leftarrow> dns_build_query (qe_buf e) host query_id qtype;
     if query_len < 0 then Some ips
     else servers_walk ntop (qe_net e) servers (take (nat query_len) buf) qtype deadline max_ips ips
   }"

text \<open>The entry point; \<open>re_pton4\<close> and \<open>re_pton6\<close> recognise address literals.\<close>

record resolver_env =
  re_pton4 :: "string \<Rightarrow> bool"
  re_pton6 :: "string \<Rightarrow> bool"
  re_ntop :: ntop_env
  re_fallback :: "string option"
  re_servers :: "string option"
  re_start :: timespec
  re_a :: query_env
  re_aaaa :: query_env

definition dns_fallback_resolve :: "resolver_env \<Rightarrow> string \<Rightarrow> nat \<Rightarrow> (int \<times> string list) option" where
  "dns_fallback_resolve e host max_ips =
     (if host = [] \<or> max_ips < 1 then Some (-1, [])
      else if re_pton4 e host \<or> re_pton6 e host then Some (1, [snprintf_s DNS_FALLBACK_ADDRSTRLEN host])
      else if (case re_fallback e of Some (c # _) \<Rightarrow> c = CHR ''0'' | _ \<Rightarrow> False) then Some (-1, [])
      else do {
        let servers = dns_get_servers (re_pton4 e) (re_servers e);
        let deadline = dns_deadline_init (re_start e);
        ips \<leftarrow> dns_query_servers (re_ntop e) (re_a e) servers host DNS_QTYPE_A deadline max_ips [];
        ips \<leftarrow> (if ips = [] then dns_query_servers (re_ntop e) (re_aaaa e) servers host DNS_QTYPE_AAAA deadline max_ips ips else Some ips);
        Some (if ips \<noteq> [] then int (length ips) else -1, ips)
      })"

section \<open>The wire format of a name\<close>

text \<open>The labels of a host name, \<open>cur\<close> being the reversed beginning of the first one, and their encoding.\<close>

fun labels :: "string \<Rightarrow> string \<Rightarrow> string list" where
  "labels cur [] = [rev cur]"
| "labels cur (c # cs) = (if c = CHR ''.'' then rev cur # labels [] cs else labels (c # cur) cs)"

definition wire :: "string list \<Rightarrow> bytes" where
  "wire ls = concat (map (\<lambda>l. of_nat (length l) # c_bytes l) ls)"

definition label_ok :: "string \<Rightarrow> bool" where
  "label_ok l \<longleftrightarrow> 0 < length l \<and> length l \<le> 63"

lemma length_c_bytes [simp]: "length (c_bytes s) = length s"
  by (simp add: c_bytes_def)

lemma length_wire_labels: "length (wire (labels cur s)) = length cur + length s + 1"
  by (induction s arbitrary: cur) (auto simp: wire_def)

lemma wire_simps [simp]: "wire [] = []" "wire (l # ls) = of_nat (length l) # c_bytes l @ wire ls"
  by (simp_all add: wire_def)

lemma memcpy_chain:
  "off + length a \<le> length buf \<Longrightarrow> memcpy (memcpy buf off a) (off + length a) b = memcpy buf off (a @ b)"
  by (simp add: memcpy_def add_ac)

lemma put_bytes_Some: "pos + length b \<le> length buf \<Longrightarrow> put_bytes buf pos b = Some (memcpy buf pos b)"
  by (simp add: put_bytes_def fits_def)

lemma length_put: "put_bytes buf pos b = Some buf' \<Longrightarrow> length buf' = length buf"
  by (auto simp: put_bytes_def fits_def length_memcpy split: if_splits)

lemma qname_loop_result:
  fixes host label_start i
  assumes "i \<le> length host" "label_start \<le> i" "pos + (length host - label_start) + 2 \<le> length buf"
  shows "let ls = labels (rev (drop label_start (take i host))) (drop i host) in
    if \<forall>l \<in> set ls. label_ok l
    then qname_loop host (length host + 1 - i) i label_start pos buf =
           Some (memcpy buf pos (wire ls @ [0]), int (pos + length (wire ls) + 1))
    else \<exists>b. qname_loop host (length host + 1 - i) i label_start pos buf = Some (b, -1) \<and> length b = length buf"
  using assms
proof (induction "length host - i" arbitrary: i label_start pos buf rule: less_induct)
  case (less i label_start pos buf)
  let ?l = "drop label_start (take i host)"
  let ?two = "memcpy buf pos (of_nat (length ?l) # c_bytes ?l)"
  have len: "length ?l = i - label_start" using less.prems(1) by simp
  have tk: "take (length ?l) (drop label_start host) = ?l" unfolding len using less.prems(2) by (simp add: drop_take)
  have fit: "pos + length ?l + 2 \<le> length buf" using less.prems by simp
  have step: "do {
       buf \<leftarrow> put_bytes buf pos [of_nat (length ?l)];
       buf \<leftarrow> put_bytes buf (pos + 1) (c_bytes ?l);
       k buf } = k ?two" for k :: "bytes \<Rightarrow> (bytes \<times> int) option"
    using fit memcpy_chain [of pos "[of_nat (length ?l)]" buf "c_bytes ?l"]
    by (simp add: put_bytes_Some length_memcpy)
  have two: "length ?two = length buf" using fit by (simp add: length_memcpy)
  have chain: "memcpy ?two (pos + 1 + length ?l) b = memcpy buf pos ((of_nat (length ?l) # c_bytes ?l) @ b)" for b
    using memcpy_chain [of pos "of_nat (length ?l) # c_bytes ?l" buf b] fit by simp
  have bad: "\<not> label_ok ?l \<Longrightarrow> length ?l = 0 \<or> 63 < length ?l" "label_ok ?l \<Longrightarrow> \<not> (length ?l = 0 \<or> 63 < length ?l)"
    by (auto simp: label_ok_def)
  have r: "qname_loop host (Suc n) i label_start pos buf =
      (if length ?l = 0 \<or> 63 < length ?l then Some (buf, -1) else qname_loop host n (i + 1) (i + 1) (pos + 1 + length ?l) ?two)"
    if "i = length host \<or> host ! i = CHR ''.''" for n
    unfolding qname_loop.simps(2) if_P [OF that] Let_def len [symmetric] tk step [of "qname_loop host n (i + 1) (i + 1) (pos + 1 + length ?l)"] ..
  consider "i = length host" | "i < length host" "host ! i = CHR ''.''" | "i < length host" "host ! i \<noteq> CHR ''.''"
    using less.prems(1) by linarith
  then show ?case
  proof cases
    case 1
    have "length host + 1 - i = Suc 0" using 1 by simp
    then show ?thesis
      using bad two fit 1 r [of 0] chain [of "[0]"] by (cases "label_ok ?l") (simp_all add: put_bytes_Some Let_def)
  next
    case 2
    have d: "drop i host = CHR ''.'' # drop (i + 1) host" using 2 by (metis Cons_nth_drop_Suc Suc_eq_plus1)
    have n: "length host + 1 - i = Suc (length host + 1 - (i + 1))" using 2(1) by simp
    note r = r [OF disjI2 [OF 2(2)], of "length host + 1 - (i + 1)", folded n]
    have p: "length host - (i + 1) < length host - i" "i + 1 \<le> length host" "i + 1 \<le> i + 1"
      "pos + 1 + length ?l + (length host - (i + 1)) + 2 \<le> length ?two"
      using 2(1) less.prems unfolding two by (simp_all add: len)
    have e: "rev (drop (i + 1) (take (i + 1) host)) = []" by simp
    have ih: "if \<forall>l \<in> set (labels [] (drop (i + 1) host)). label_ok l
      then qname_loop host (length host + 1 - (i + 1)) (i + 1) (i + 1) (pos + 1 + length ?l) ?two =
        Some (memcpy ?two (pos + 1 + length ?l) (wire (labels [] (drop (i + 1) host)) @ [0]),
              int (pos + 1 + length ?l + length (wire (labels [] (drop (i + 1) host))) + 1))
      else \<exists>b. qname_loop host (length host + 1 - (i + 1)) (i + 1) (i + 1) (pos + 1 + length ?l) ?two = Some (b, -1) \<and> length b = length ?two"
      using less.hyps [OF p] unfolding Let_def e .
    show ?thesis
    proof (cases "label_ok ?l")
      case True
      then show ?thesis using ih bad(2) unfolding d r chain two by (auto simp: Let_def split: if_splits)
    next
      case False
      then show ?thesis using bad(1) unfolding d r by (simp add: Let_def)
    qed
  next
    case 3
    have d: "drop i host = host ! i # drop (i + 1) host" using 3 by (metis Cons_nth_drop_Suc Suc_eq_plus1)
    have n: "length host + 1 - i = Suc (length host + 1 - (i + 1))" using 3(1) by simp
    have r: "qname_loop host (length host + 1 - i) i label_start pos buf = qname_loop host (length host + 1 - (i + 1)) (i + 1) label_start pos buf"
      unfolding n using 3 by simp
    have t: "rev (drop label_start (take (i + 1) host)) = host ! i # rev ?l"
      using 3(1) less.prems(2) by (simp add: take_Suc_conv_app_nth)
    have p: "length host - (i + 1) < length host - i" "i + 1 \<le> length host" "label_start \<le> i + 1" using 3(1) less.prems by simp_all
    have eq: "labels (rev ?l) (drop i host) = labels (rev (drop label_start (take (i + 1) host))) (drop (i + 1) host)"
      unfolding d t using 3(2) by simp
    show ?thesis using less.hyps [OF p less.prems(3)] unfolding r Let_def eq .
  qed
qed

text \<open>The query: its header, the labels, type and class, inside the buffer; or a host name that has no encoding.\<close>

definition host_ok :: "string \<Rightarrow> bool" where
  "host_ok host \<longleftrightarrow> host \<noteq> [] \<and> length host \<le> 253 \<and> (\<forall>l \<in> set (labels [] host). label_ok l)"

definition wire_query :: "string \<Rightarrow> u16 \<Rightarrow> u16 \<Rightarrow> bytes" where
  "wire_query host query_id qtype =
     [ucast (drop_bit 8 query_id), ucast (query_id AND 0xFF), 0x01, 0, 0, 0x01, 0, 0, 0, 0, 0, 0] @ wire (labels [] host) @
     [0, ucast (drop_bit 8 qtype), ucast (qtype AND 0xFF), 0x00, 0x01]"

lemma dns_build_query_result:
  assumes "length buf = DNS_MAX_QUERY"
  shows "if host_ok host
    then \<exists>b. dns_build_query buf host query_id qtype = Some (b, int (length (wire_query host query_id qtype))) \<and>
           take (length (wire_query host query_id qtype)) b = wire_query host query_id qtype
    else \<exists>b. dns_build_query buf host query_id qtype = Some (b, -1)"
proof -
  define hdr :: bytes where "hdr = [ucast (drop_bit 8 query_id), ucast (query_id AND 0xFF), 0x01, 0, 0, 0x01, 0, 0, 0, 0, 0, 0]"
  define fin :: bytes where "fin = [ucast (drop_bit 8 qtype), ucast (qtype AND 0xFF), 0x00, 0x01]"
  define w where "w = wire (labels [] host) @ [0]"
  define b where "b = memcpy buf 0 hdr"
  have lh: "length hdr = 12" "length fin = 4" by (simp_all add: hdr_def fin_def)
  have lb: "length b = 300" using assms lh by (simp add: b_def length_memcpy dns_consts)
  have hdr: "put_bytes buf 0 hdr = Some b" using assms lh unfolding b_def by (intro put_bytes_Some) (simp add: dns_consts)
  have build: "dns_build_query buf host query_id qtype = do {
      (c, qname_len) \<leftarrow> dns_encode_qname b 12 284 host;
      if qname_len < 0 then Some (c, -1)
      else do { c \<leftarrow> put_bytes c (12 + nat qname_len) fin; Some (c, 12 + qname_len + 4) } }"
    using assms lb hdr unfolding dns_build_query_def hdr_def [symmetric] fin_def [symmetric] by (simp add: dns_consts)
  have wq: "wire_query host query_id qtype = hdr @ w @ fin" by (simp add: wire_query_def hdr_def fin_def w_def)
  show ?thesis
  proof (cases "host = [] \<or> 253 < length host")
    case True
    then have "dns_encode_qname b 12 284 host = Some (b, -1)" by (auto simp: dns_encode_qname_def)
    then show ?thesis using True assms hdr lb by (auto simp: build host_ok_def)
  next
    case False
    note small = False
    have wl: "length w = length host + 2" by (simp add: w_def length_wire_labels)
    have q: "if \<forall>l \<in> set (labels [] host). label_ok l
      then qname_loop host (length host + 1) 0 0 12 b = Some (memcpy b 12 w, int (12 + length w))
      else \<exists>c. qname_loop host (length host + 1) 0 0 12 b = Some (c, -1)"
      using qname_loop_result [of 0 host 0 12 b] False lb by (cases "\<forall>l \<in> set (labels [] host). label_ok l") (auto simp: Let_def w_def simp del: qname_loop.simps)
    show ?thesis
    proof (cases "\<forall>l \<in> set (labels [] host). label_ok l")
      case True
      then have "dns_encode_qname b 12 284 host = Some (memcpy b 12 w, int (length w))"
        using q False by (simp add: dns_encode_qname_def)
      moreover have "length (memcpy b 12 w) = 300" using lb wl False by (simp add: length_memcpy)
      moreover have "put_bytes (memcpy b 12 w) (12 + length w) fin = Some (memcpy buf 0 (hdr @ w @ fin))"
        using calculation(2) wl False assms lh lb memcpy_chain [of 12 w b fin] memcpy_chain [of 0 hdr buf "w @ fin"]
        by (simp add: put_bytes_Some dns_consts b_def)
      ultimately have "dns_build_query buf host query_id qtype = Some (memcpy buf 0 (hdr @ w @ fin), int (length (hdr @ w @ fin)))"
        using lh by (simp add: build nat_int_add)
      then show ?thesis
        using True False unfolding wq by (simp add: host_ok_def memcpy_def)
    next
      case False
      from q [unfolded if_not_P [OF False]] obtain c where "qname_loop host (length host + 1) 0 0 12 b = Some (c, -1)" by blast
      then have "dns_encode_qname b 12 284 host = Some (c, -1)" using small by (simp add: dns_encode_qname_def del: qname_loop.simps)
      then show ?thesis using False assms hdr lb by (auto simp: build host_ok_def)
    qed
  qed
qed

section \<open>The parser\<close>

lemma get_u16_Some: "pos + 2 \<le> length msg \<Longrightarrow> get_u16 msg pos = Some (push_bit 8 (ucast (msg ! pos)) OR ucast (msg ! (pos + 1)))"
  by (simp add: get_u16_def get_byte_def)

lemma get_bytes_Some: "pos + n \<le> length msg \<Longrightarrow> get_bytes msg pos n = Some (take n (drop pos msg))"
  by (simp add: get_bytes_def)

text \<open>The text of an address that stands in the message.\<close>

definition holds_address :: "ntop_env \<Rightarrow> u16 \<Rightarrow> bytes \<Rightarrow> string \<Rightarrow> bool" where
  "holds_address ntop qtype msg ip \<longleftrightarrow>
     (\<exists>k. qtype = DNS_QTYPE_A \<and> k + 4 \<le> length msg \<and> ntop4 ntop (take 4 (drop k msg)) = Some ip \<or>
          qtype = DNS_QTYPE_AAAA \<and> k + 16 \<le> length msg \<and> ntop6 ntop (take 16 (drop k msg)) = Some ip)"

lemma record_address_Some:
  "pos + unat rdlen \<le> length msg \<Longrightarrow>
   \<exists>a. record_address ntop msg qtype rtype rclass rdlen pos = Some a \<and> (\<forall>ip. a = Some ip \<longrightarrow> holds_address ntop qtype msg ip)"
  by (auto simp: record_address_def get_bytes_Some holds_address_def)

lemma answer_loop_step:
  "answer_loop ntop msg qtype max_ips (Suc n) pos found ips \<in> {Some (if found then 1 else 0, ips), Some (-1, ips)} \<or>
   (\<exists>pos' a. length ips < max_ips \<and> length a \<le> 1 \<and> (\<forall>ip \<in> set a. holds_address ntop qtype msg ip) \<and>
      answer_loop ntop msg qtype max_ips (Suc n) pos found ips = answer_loop ntop msg qtype max_ips n pos' (found \<or> a \<noteq> []) (ips @ a))"
proof (cases "max_ips \<le> length ips \<or> dns_skip_name msg pos = None")
  case True
  then show ?thesis by auto
next
  case False
  then obtain p where p: "dns_skip_name msg pos = Some p" "length ips < max_ips" by auto
  show ?thesis
  proof (cases "length msg < p + 10 \<or> length msg < p + 10 + unat (push_bit 8 (ucast (msg ! (p + 8))) OR ucast (msg ! (p + 8 + 1)) :: u16)")
    case True
    then show ?thesis using p by (auto simp: get_u16_Some)
  next
    case False
    let ?u = "\<lambda>k. push_bit 8 (ucast (msg ! k)) OR ucast (msg ! (k + 1)) :: u16"
    have u: "get_u16 msg p = Some (?u p)" "get_u16 msg (p + 2) = Some (?u (p + 2))" "get_u16 msg (p + 8) = Some (?u (p + 8))"
      using False by (simp_all add: get_u16_Some)
    obtain a where a: "record_address ntop msg qtype (?u p) (?u (p + 2)) (?u (p + 8)) (p + 10) = Some a"
      "\<forall>ip. a = Some ip \<longrightarrow> holds_address ntop qtype msg ip"
      using record_address_Some [of "p + 10" "?u (p + 8)" msg ntop qtype "?u p" "?u (p + 2)"] False by (auto simp: not_less)
    let ?added = "case a of Some ip \<Rightarrow> [ip] | None \<Rightarrow> []"
    have "answer_loop ntop msg qtype max_ips (Suc n) pos found ips =
      answer_loop ntop msg qtype max_ips n (p + 10 + unat (?u (p + 8))) (found \<or> ?added \<noteq> []) (ips @ ?added)"
      using p False u a(1) by (cases a) (simp_all add: Let_def)
    moreover have "length ?added \<le> 1" "\<forall>ip \<in> set ?added. holds_address ntop qtype msg ip" using a(2) by (auto split: option.split)
    ultimately show ?thesis using p(2) by blast
  qed
qed

text \<open>Whatever the answers are, the loop stays inside the message and inside the list of addresses.\<close>

lemma answer_loop_safe:
  "length ips \<le> max_ips \<Longrightarrow>
   \<exists>r added. answer_loop ntop msg qtype max_ips n pos found ips = Some (r, ips @ added) \<and> r \<in> {-1, 0, 1} \<and> length (ips @ added) \<le> max_ips \<and>
     (r \<noteq> -1 \<longrightarrow> (r = 1 \<longleftrightarrow> found \<or> added \<noteq> [])) \<and> (\<forall>ip \<in> set added. holds_address ntop qtype msg ip)"
proof (induction n arbitrary: pos found ips)
  case (Suc n)
  from answer_loop_step [of ntop msg qtype max_ips n pos found ips] show ?case
  proof (elim disjE exE conjE)
    assume "answer_loop ntop msg qtype max_ips (Suc n) pos found ips \<in> {Some (if found then 1 else 0, ips), Some (-1, ips)}"
    then show ?thesis using Suc.prems by (auto intro!: exI [of _ "[]"])
  next
    fix pos' a
    assume a: "length ips < max_ips" "length a \<le> 1" "\<forall>ip \<in> set a. holds_address ntop qtype msg ip"
      "answer_loop ntop msg qtype max_ips (Suc n) pos found ips = answer_loop ntop msg qtype max_ips n pos' (found \<or> a \<noteq> []) (ips @ a)"
    then have "length (ips @ a) \<le> max_ips" by simp
    from Suc.IH [OF this, of pos' "found \<or> a \<noteq> []"] obtain r added where
      "answer_loop ntop msg qtype max_ips n pos' (found \<or> a \<noteq> []) (ips @ a) = Some (r, (ips @ a) @ added)" "r \<in> {-1, 0, 1}"
      "length ((ips @ a) @ added) \<le> max_ips" "r \<noteq> -1 \<longrightarrow> (r = 1 \<longleftrightarrow> (found \<or> a \<noteq> []) \<or> added \<noteq> [])"
      "\<forall>ip \<in> set added. holds_address ntop qtype msg ip"
      by blast
    then show ?thesis unfolding a(4) using a(3) by (intro exI [of _ r] exI [of _ "a @ added"]) auto
  qed
qed simp

text \<open>What makes a message an answer to the query: its identifier, the response bit and the question.\<close>

definition answers_query :: "bytes \<Rightarrow> bytes \<Rightarrow> bool" where
  "answers_query query msg \<longleftrightarrow> length query \<le> length msg \<and> 12 \<le> length msg \<and> take 2 msg = take 2 query \<and> msg ! 2 AND 0x80 \<noteq> 0 \<and>
     take (length query - 12) (drop 12 msg) = drop 12 query"

lemma take_two: "2 \<le> length xs \<Longrightarrow> take 2 xs = [xs ! 0, xs ! 1]"
  by (cases xs; cases "tl xs") (auto simp: numeral_2_eq_2)

lemma dns_parse_response_safe:
  assumes "12 \<le> length query" "length ips \<le> max_ips"
  shows "\<exists>r added. dns_parse_response ntop msg query qtype max_ips ips = Some (r, ips @ added) \<and> r \<in> {-2, -1, 0, 1} \<and>
    length (ips @ added) \<le> max_ips \<and> (r = 1 \<longrightarrow> added \<noteq> []) \<and>
    (\<forall>ip \<in> set added. answers_query query msg \<and> holds_address ntop qtype msg ip)"
proof (cases "length msg < 12")
  case True
  then show ?thesis using assms by (intro exI [of _ "-1"] exI [of _ "[]"]) (simp add: dns_parse_response_def)
next
  case False
  define u where "u k = (push_bit 8 (ucast (msg ! k)) OR ucast (msg ! (k + 1)) :: u16)" for k
  have u: "get_u16 msg 4 = Some (u 4)" "get_u16 msg 6 = Some (u 6)" using False by (simp_all add: get_u16_Some u_def)
  have q: "get_byte query 0 = Some (query ! 0)" "get_byte query 1 = Some (query ! 1)" using assms(1) by (auto simp: get_byte_def)
  define early where "early \<longleftrightarrow> msg ! 0 \<noteq> query ! 0 \<or> msg ! 1 \<noteq> query ! 1 \<or> msg ! 2 AND 0x80 = 0 \<or> msg ! 2 AND 0x02 \<noteq> 0 \<or> u 4 \<noteq> 1 \<or> length msg < length query"
  show ?thesis
  proof (cases early)
    case True
    have "\<exists>r \<in> {-2, -1}. dns_parse_response ntop msg query qtype max_ips ips = Some (r, ips)"
      using True False u q unfolding early_def dns_parse_response_def by auto
    then show ?thesis using assms by (auto intro!: exI [of _ "[]"])
  next
    case ok: False
    then have g: "get_bytes msg 12 (length query - 12) = Some (take (length query - 12) (drop 12 msg))"
      "get_bytes query 12 (length query - 12) = Some (drop 12 query)"
      using assms(1) by (simp_all add: get_bytes_Some early_def)
    have r: "dns_parse_response ntop msg query qtype max_ips ips =
      (if take (length query - 12) (drop 12 msg) \<noteq> drop 12 query then Some (-1, ips)
       else if msg ! 3 AND 0x0F \<noteq> 0 then Some (0, ips)
       else case dns_skip_name msg 12 of
              None \<Rightarrow> Some (-1, ips)
            | Some pos \<Rightarrow>
                if length msg < pos + 4 then Some (-1, ips)
                else answer_loop ntop msg qtype max_ips (unat (u 6)) (pos + 4) False ips)"
      using ok False u q g by (simp add: dns_parse_response_def early_def)
    show ?thesis
    proof (cases "take (length query - 12) (drop 12 msg) = drop 12 query")
      case True
      then have "answers_query query msg"
        using ok False assms(1) by (auto simp: answers_query_def early_def take_two)
      moreover have "\<exists>r added. dns_parse_response ntop msg query qtype max_ips ips = Some (r, ips @ added) \<and> r \<in> {-2, -1, 0, 1} \<and>
        length (ips @ added) \<le> max_ips \<and> (r = 1 \<longrightarrow> added \<noteq> []) \<and> (\<forall>ip \<in> set added. holds_address ntop qtype msg ip)"
      proof -
        have "\<exists>r added. answer_loop ntop msg qtype max_ips (unat (u 6)) p False ips = Some (r, ips @ added) \<and> r \<in> {-2, -1, 0, 1} \<and>
          length (ips @ added) \<le> max_ips \<and> (r = 1 \<longrightarrow> added \<noteq> []) \<and> (\<forall>ip \<in> set added. holds_address ntop qtype msg ip)" for p
          using answer_loop_safe [OF assms(2), of ntop msg qtype "unat (u 6)" p False] by auto
        then show ?thesis unfolding r using True assms(2) by (auto split: option.split intro!: exI [of _ "[]"])
      qed
      ultimately show ?thesis by blast
    next
      case False
      then show ?thesis unfolding r using assms(2) by (intro exI [of _ "-1"] exI [of _ "[]"]) simp
    qed
  qed
qed

section \<open>The walk\<close>

text \<open>An address that a server of the list delivered in an answer to the query.\<close>

definition delivered :: "ntop_env \<Rightarrow> (string \<Rightarrow> server_env) \<Rightarrow> string list \<Rightarrow> bytes \<Rightarrow> u16 \<Rightarrow> timespec \<Rightarrow> string \<Rightarrow> bool" where
  "delivered ntop net servers query qtype deadline ip \<longleftrightarrow>
     (\<exists>s \<in> set servers. \<exists>msg. (dns_exchange_udp (se_udp (net s)) deadline = Some msg \<or>
        (\<exists>spent. dns_exchange_tcp (se_tcp (net s)) deadline = Some (msg, spent))) \<and>
        answers_query query msg \<and> holds_address ntop qtype msg ip)"

lemma query_server_safe:
  assumes "12 \<le> length query" "length ips \<le> max_ips"
  shows "\<exists>r added. query_server ntop (net s) query qtype deadline max_ips ips = Some (r, ips @ added) \<and> length (ips @ added) \<le> max_ips \<and>
    (\<forall>ip \<in> set added. delivered ntop net [s] query qtype deadline ip)"
proof -
  let ?udp = "case dns_exchange_udp (se_udp (net s)) deadline of
    Some resp \<Rightarrow> dns_parse_response ntop resp query qtype max_ips ips | None \<Rightarrow> Some (-1, ips)"
  let ?tcp = "\<lambda>ips. case dns_exchange_tcp (se_tcp (net s)) deadline of
    Some (resp, spent) \<Rightarrow> dns_parse_response ntop resp query qtype max_ips ips | None \<Rightarrow> Some (-1, ips)"
  have parse: "\<exists>r added. dns_parse_response ntop msg query qtype max_ips l = Some (r, l @ added) \<and> length (l @ added) \<le> max_ips \<and>
      (\<forall>ip \<in> set added. answers_query query msg \<and> holds_address ntop qtype msg ip)" if "length l \<le> max_ips" for msg l
    using dns_parse_response_safe [OF assms(1) that, of ntop msg qtype] by blast
  obtain r added where u: "?udp = Some (r, ips @ added)" "length (ips @ added) \<le> max_ips" "\<forall>ip \<in> set added. delivered ntop net [s] query qtype deadline ip"
    using parse [OF assms(2)] assms(2) unfolding delivered_def by (cases "dns_exchange_udp (se_udp (net s)) deadline") fastforce+
  have "\<exists>r' added'. ?tcp (ips @ added) = Some (r', (ips @ added) @ added') \<and> length ((ips @ added) @ added') \<le> max_ips \<and>
      (\<forall>ip \<in> set added'. delivered ntop net [s] query qtype deadline ip)"
    using parse [OF u(2)] u(2) unfolding delivered_def by (cases "dns_exchange_tcp (se_tcp (net s)) deadline") fastforce+
  then obtain r' added' where t: "?tcp (ips @ added) = Some (r', (ips @ added) @ added')" "length ((ips @ added) @ added') \<le> max_ips"
      "\<forall>ip \<in> set added'. delivered ntop net [s] query qtype deadline ip"
    by blast
  show ?thesis
  proof (cases "r = -2")
    case True
    then show ?thesis using u t by (intro exI [of _ r'] exI [of _ "added @ added'"]) (auto simp: query_server_def)
  next
    case False
    then show ?thesis using u by (intro exI [of _ r] exI [of _ added]) (simp add: query_server_def)
  qed
qed

lemma delivered_Cons: "delivered ntop net [s] query qtype deadline ip \<Longrightarrow> delivered ntop net (s # ss) query qtype deadline ip"
  "delivered ntop net ss query qtype deadline ip \<Longrightarrow> delivered ntop net (s # ss) query qtype deadline ip"
  by (auto simp: delivered_def)

lemma servers_walk_safe:
  assumes "12 \<le> length query"
  shows "length ips \<le> max_ips \<Longrightarrow> \<exists>added. servers_walk ntop net servers query qtype deadline max_ips ips = Some (ips @ added) \<and>
    length (ips @ added) \<le> max_ips \<and> (\<forall>ip \<in> set added. delivered ntop net servers query qtype deadline ip)"
proof (induction servers arbitrary: ips)
  case (Cons s servers)
  show ?case
  proof (cases "max_ips \<le> length ips \<or> dns_budget_remaining (se_abort (net s)) (se_now (net s)) deadline \<le> 0")
    case True
    then show ?thesis using Cons.prems by (intro exI [of _ "[]"]) auto
  next
    case False
    obtain r added where q: "query_server ntop (net s) query qtype deadline max_ips ips = Some (r, ips @ added)" "length (ips @ added) \<le> max_ips"
      "\<forall>ip \<in> set added. delivered ntop net [s] query qtype deadline ip"
      using query_server_safe [OF assms Cons.prems, of ntop net s qtype deadline] by blast
    obtain more where w: "servers_walk ntop net servers query qtype deadline max_ips (ips @ added) = Some ((ips @ added) @ more)"
      "length ((ips @ added) @ more) \<le> max_ips" "\<forall>ip \<in> set more. delivered ntop net servers query qtype deadline ip"
      using Cons.IH [OF q(2)] by blast
    show ?thesis
    proof (cases "r = 1")
      case True
      then show ?thesis using False q by (intro exI [of _ added]) (auto intro: delivered_Cons)
    next
      case no: False
      then show ?thesis using False q w by (intro exI [of _ "added @ more"]) (auto intro: delivered_Cons)
    qed
  qed
qed simp

text \<open>The query that a walk sends.\<close>

definition sent_query :: "query_env \<Rightarrow> string \<Rightarrow> u16 \<Rightarrow> bytes" where
  "sent_query e host qtype = wire_query host (dns_query_id (qe_random e) (qe_nsec e) (qe_pid e)) qtype"

lemma dns_query_servers_safe:
  assumes "length (qe_buf e) = DNS_MAX_QUERY"
  shows "\<exists>ips. dns_query_servers ntop e servers host qtype deadline max_ips [] = Some ips \<and> length ips \<le> max_ips \<and>
    (\<forall>ip \<in> set ips. delivered ntop (qe_net e) servers (sent_query e host qtype) qtype deadline ip)"
proof -
  let ?q = "sent_query e host qtype"
  note b = dns_build_query_result [OF assms, of host "dns_query_id (qe_random e) (qe_nsec e) (qe_pid e)" qtype, folded sent_query_def]
  show ?thesis
  proof (cases "host_ok host")
    case True
    then obtain c where c: "dns_build_query (qe_buf e) host (dns_query_id (qe_random e) (qe_nsec e) (qe_pid e)) qtype = Some (c, int (length ?q))"
      "take (length ?q) c = ?q" using b by auto
    have "12 \<le> length ?q" by (simp add: sent_query_def wire_query_def)
    from servers_walk_safe [OF this, of "[]" max_ips ntop "qe_net e" servers qtype deadline]
    show ?thesis using c by (simp add: dns_query_servers_def Let_def)
  next
    case False
    then obtain c where "dns_build_query (qe_buf e) host (dns_query_id (qe_random e) (qe_nsec e) (qe_pid e)) qtype = Some (c, -1)"
      using b by auto
    then show ?thesis by (simp add: dns_query_servers_def Let_def)
  qed
qed

text \<open>
  C23. The fallback resolver is memory safe and takes no forged address. For every host name, every override and everything the
  network delivers, building the query, parsing each response and the walk stay inside their buffers; at most \<open>max_ips\<close>
  addresses come back, and the return value is their number, or -1 when there are none. Every address of a host that is not an
  address literal stands in a message that one of the configured servers delivered and that carries the identifier, the response bit
  and the exact question of the query that was sent.
\<close>

theorem dns_resolve_sound:
  assumes "length (qe_buf (re_a e)) = DNS_MAX_QUERY" "length (qe_buf (re_aaaa e)) = DNS_MAX_QUERY"
  defines "servers \<equiv> dns_get_servers (re_pton4 e) (re_servers e)" and "deadline \<equiv> dns_deadline_init (re_start e)"
  shows "\<exists>r ips. dns_fallback_resolve e host max_ips = Some (r, ips) \<and> length ips \<le> max_ips \<and>
    r = (if ips = [] then -1 else int (length ips)) \<and>
    (re_pton4 e host \<or> re_pton6 e host \<or>
     (\<forall>ip \<in> set ips. delivered (re_ntop e) (qe_net (re_a e)) servers (sent_query (re_a e) host DNS_QTYPE_A) DNS_QTYPE_A deadline ip) \<or>
     (\<forall>ip \<in> set ips. delivered (re_ntop e) (qe_net (re_aaaa e)) servers (sent_query (re_aaaa e) host DNS_QTYPE_AAAA) DNS_QTYPE_AAAA deadline ip))"
proof -
  obtain ips4 where a: "dns_query_servers (re_ntop e) (re_a e) servers host DNS_QTYPE_A deadline max_ips [] = Some ips4" "length ips4 \<le> max_ips"
    "\<forall>ip \<in> set ips4. delivered (re_ntop e) (qe_net (re_a e)) servers (sent_query (re_a e) host DNS_QTYPE_A) DNS_QTYPE_A deadline ip"
    using dns_query_servers_safe [OF assms(1)] by blast
  obtain ips6 where b: "dns_query_servers (re_ntop e) (re_aaaa e) servers host DNS_QTYPE_AAAA deadline max_ips [] = Some ips6" "length ips6 \<le> max_ips"
    "\<forall>ip \<in> set ips6. delivered (re_ntop e) (qe_net (re_aaaa e)) servers (sent_query (re_aaaa e) host DNS_QTYPE_AAAA) DNS_QTYPE_AAAA deadline ip"
    using dns_query_servers_safe [OF assms(2)] by blast
  show ?thesis
  proof (cases "host = [] \<or> max_ips < 1 \<or> re_pton4 e host \<or> re_pton6 e host \<or> (case re_fallback e of Some (c # _) \<Rightarrow> c = CHR ''0'' | _ \<Rightarrow> False)")
    case True
    then show ?thesis by (auto simp: dns_fallback_resolve_def)
  next
    case False
    then have "dns_fallback_resolve e host max_ips =
      Some (if ips4 \<noteq> [] then (int (length ips4), ips4) else if ips6 \<noteq> [] then (int (length ips6), ips6) else (-1, []))"
      using a(1) b(1) unfolding dns_fallback_resolve_def servers_def deadline_def by (cases "ips4 = []") simp_all
    then show ?thesis using a(2,3) b(2,3) by auto
  qed
qed

definition witness_exchange :: exchange_env where
  "witness_exchange = \<lparr>xe_abort = False, xe_now = (5, 0), xe_address = True, xe_socket = True, xe_connected = True, xe_sent = True,
     xe_recv = [([0, 7, 0x81, 0x80, 0, 1, 0, 1, 0, 0, 0, 0, 1, 97, 1, 98, 0, 0, 1, 0, 1, 0xC0, 0x0C, 0, 1, 0, 1, 0, 0, 0, 9, 0, 4, 10, 0, 0, 1], 1)]\<rparr>"

definition witness_query :: query_env where
  "witness_query = \<lparr>qe_random = Some 7, qe_nsec = 0, qe_pid = 0, qe_buf = replicate 300 0,
     qe_net = (\<lambda>_. \<lparr>se_abort = False, se_now = (4, 0), se_udp = witness_exchange, se_tcp = witness_exchange\<rparr>)\<rparr>"

definition witness_resolver :: resolver_env where
  "witness_resolver = \<lparr>re_pton4 = (\<lambda>_. False), re_pton6 = (\<lambda>_. False),
     re_ntop = \<lparr>ntop4 = (\<lambda>a. if a = [10, 0, 0, 1] then Some ''10.0.0.1'' else None), ntop6 = (\<lambda>_. None)\<rparr>,
     re_fallback = None, re_servers = None, re_start = (0, 0), re_a = witness_query, re_aaaa = witness_query\<rparr>"

theorem dns_resolve_sound_witness:
  "dns_fallback_resolve witness_resolver ''a.b'' 8 = Some (1, [''10.0.0.1'']) \<and>
   delivered (re_ntop witness_resolver) (qe_net witness_query) k_dns_servers (sent_query witness_query ''a.b'' DNS_QTYPE_A) DNS_QTYPE_A (10, 0) ''10.0.0.1''"
proof -
  have r: "dns_fallback_resolve witness_resolver ''a.b'' 8 = Some (1, [''10.0.0.1''])" by code_simp
  have "length (qe_buf (re_a witness_resolver)) = DNS_MAX_QUERY" "length (qe_buf (re_aaaa witness_resolver)) = DNS_MAX_QUERY"
    by (simp_all add: witness_resolver_def witness_query_def DNS_MAX_QUERY_def)
  from dns_resolve_sound [OF this, of "''a.b''" 8] r show ?thesis
    by (auto simp: witness_resolver_def dns_get_servers_def dns_deadline_init_def dns_consts delivered_def holds_address_def)
qed

section \<open>Answers of an honest server\<close>

text \<open>An answer to a query: its header, the question, and one record for each IPv4 address, named by a compression pointer to the question.\<close>

definition wire_record :: "bytes \<Rightarrow> bytes" where
  "wire_record a = [0xC0, 0x0C, 0, 1, 0, 1, 0, 0, 0x0E, 0x10, 0, 4] @ a"

definition wire_answer :: "bytes \<Rightarrow> bytes list \<Rightarrow> bytes" where
  "wire_answer query addrs =
     take 2 query @ [0x81, 0x80, 0, 1, of_nat (length addrs div 256), of_nat (length addrs), 0, 0, 0, 0] @ drop 12 query @
     concat (map wire_record addrs)"

lemma label_byte: "label_ok l \<Longrightarrow> (of_nat (length l) :: u8) \<noteq> 0 \<and> \<not> 63 < (of_nat (length l) :: u8) \<and>
  (of_nat (length l) :: u8) AND 0xC0 \<noteq> 0xC0 \<and> unat (of_nat (length l) :: u8) = length l"
proof -
  assume l: "label_ok l"
  have u: "unat (of_nat (length l) :: u8) = length l" using l by (simp add: label_ok_def unat_of_nat)
  have "(of_nat (length l) :: u8) AND 0xC0 \<le> of_nat (length l)" by (rule word_and_le2)
  moreover have "\<not> (0xC0 :: u8) \<le> of_nat (length l)" using l u by (simp add: word_le_nat_alt label_ok_def)
  ultimately show ?thesis using l u by (auto simp: word_less_nat_alt label_ok_def unat_eq_0)
qed

lemma dns_skip_name_wire:
  "\<forall>l \<in> set ls. label_ok l \<Longrightarrow> dns_skip_name (p @ wire ls @ 0 # rest) (length p) = Some (length p + length (wire ls) + 1)"
proof (induction ls arbitrary: p)
  case Nil
  then show ?case by (simp add: dns_skip_name.simps [of "p @ 0 # rest"])
next
  case (Cons l ls)
  let ?p = "p @ of_nat (length l) # c_bytes l"
  have "dns_skip_name (p @ wire (l # ls) @ 0 # rest) (length p) = dns_skip_name (?p @ wire ls @ 0 # rest) (length ?p)"
    using label_byte [of l] Cons.prems by (subst dns_skip_name.simps) (simp add: Let_def)
  also have "\<dots> = Some (length ?p + length (wire ls) + 1)" using Cons by (intro Cons.IH) simp
  finally show ?case by simp
qed

lemma answer_loop_wire:
  assumes "\<forall>a \<in> set addrs. length a = 4 \<and> ntop4 ntop a \<noteq> None"
  shows "length ips \<le> max_ips \<Longrightarrow> answer_loop ntop (p @ concat (map wire_record addrs)) DNS_QTYPE_A max_ips (length addrs) (length p) found ips =
    Some (if found \<or> addrs \<noteq> [] \<and> length ips < max_ips then 1 else 0, ips @ take (max_ips - length ips) (map (\<lambda>a. the (ntop4 ntop a)) addrs))"
  using assms
proof (induction addrs arbitrary: p found ips)
  case (Cons a addrs)
  show ?case
  proof (cases "length ips = max_ips")
    case True
    then show ?thesis by simp
  next
    case False
    let ?m = "p @ concat (map wire_record (a # addrs))"
    obtain ip where ip: "ntop4 ntop a = Some ip" "length a = 4" using Cons.prems(2) by auto
    have m: "?m = p @ [0xC0, 0x0C, 0, 1, 0, 1, 0, 0, 0x0E, 0x10, 0, 4] @ a @ concat (map wire_record addrs)" by (simp add: wire_record_def)
    have sk: "dns_skip_name ?m (length p) = Some (length p + 2)" unfolding m by (subst dns_skip_name.simps) (simp add: Let_def)
    have g: "get_u16 ?m (length p + 2) = Some 1" "get_u16 ?m (length p + 2 + 2) = Some 1" "get_u16 ?m (length p + 2 + 8) = Some 4"
      unfolding m by (simp_all add: get_u16_def get_byte_def nth_append)
    have ra: "record_address ntop ?m DNS_QTYPE_A 1 1 4 (length p + 2 + 10) = Some (Some ip)"
      using ip unfolding m record_address_def by (simp add: DNS_QTYPE_A_def get_bytes_def)
    have len: "\<not> length ?m < length p + 2 + 10" "\<not> length ?m < length p + 2 + 10 + 4" using ip(2) unfolding m by simp_all
    have room: "max_ips - length ips = Suc (max_ips - length (ips @ [ip]))" using False Cons.prems(1) by simp
    have "answer_loop ntop ?m DNS_QTYPE_A max_ips (length (a # addrs)) (length p) found ips =
      answer_loop ntop ?m DNS_QTYPE_A max_ips (length addrs) (length p + 2 + 10 + 4) True (ips @ [ip])"
      using False Cons.prems(1) sk g ra len by (simp add: Let_def)
    also have "\<dots> = answer_loop ntop ((p @ wire_record a) @ concat (map wire_record addrs)) DNS_QTYPE_A max_ips (length addrs) (length (p @ wire_record a)) True (ips @ [ip])"
      using ip(2) by (simp add: wire_record_def add_ac)
    also have "\<dots> = Some (1, (ips @ [ip]) @ take (max_ips - length (ips @ [ip])) (map (\<lambda>a. the (ntop4 ntop a)) addrs))"
      using Cons.IH [of "ips @ [ip]" "p @ wire_record a" True] Cons.prems False by simp
    also have "\<dots> = Some (1, ips @ take (max_ips - length ips) (map (\<lambda>a. the (ntop4 ntop a)) (a # addrs)))"
      using ip(1) unfolding room by simp
    finally show ?thesis using False Cons.prems(1) by simp
  qed
qed simp

lemma unat_u16_bytes:
  assumes "n < 2 ^ 16"
  shows "unat (push_bit 8 (ucast (of_nat (n div 256) :: u8)) OR ucast (of_nat n :: u8) :: u16) = n"
proof -
  have "(push_bit 8 (ucast (of_nat (n div 256) :: u8)) OR ucast (of_nat n :: u8) :: u16) = of_nat n"
  proof (rule bit_word_eqI)
    fix k
    assume "k < LENGTH(16)"
    have "n div 256 = drop_bit 8 n" by (simp add: drop_bit_eq_div)
    then show "bit (push_bit 8 (ucast (of_nat (n div 256) :: u8)) OR ucast (of_nat n :: u8) :: u16) k = bit (of_nat n :: u16) k"
      using \<open>k < LENGTH(16)\<close> by (auto simp: bit_simps)
  qed
  then show ?thesis using assms by (simp add: unat_of_nat)
qed


definition witness_ntop :: ntop_env where
  "witness_ntop = \<lparr>ntop4 = (\<lambda>a. Some (if a = [10, 0, 0, 1] then ''10.0.0.1'' else ''0.0.0.0'')), ntop6 = (\<lambda>_. None)\<rparr>"


section \<open>The time of a TCP exchange\<close>

lemma recv_exact_drip:
  "d \<le> t \<Longrightarrow> recv_exact t (length got + k) (replicate k ([x], d)) got spent = Some (got @ replicate k x, [], spent + int k * d)"
proof (induction k arbitrary: got spent)
  case (Suc k)
  have "recv_exact t (length (got @ [x]) + k) (replicate k ([x], d)) (got @ [x]) (spent + d) =
    Some ((got @ [x]) @ replicate k x, [], spent + d + int k * d)" using Suc by (intro Suc.IH)
  then show ?case using Suc.prems by (simp add: recv_event_def algebra_simps)
qed simp

definition drip_env :: exchange_env where
  "drip_env = \<lparr>xe_abort = False, xe_now = (0, 0), xe_address = True, xe_socket = True, xe_connected = True, xe_sent = True,
     xe_recv = ([0x08], 3) # ([0x00], 3) # replicate 2048 ([0], 3)\<rparr>"


end
