(* ===== verification/Api_Wire.thy ===== *)
theory Api_Wire
  imports Bytes Doubles
begin

text \<open>
  The protocol of the monitoring interface (\<open>src/api.cpp\<close>): the append to a bounded response, the ring of history samples, receiving and
  parsing a request, sending, and the WebSocket handshake with its SHA-1, base64 and frame header. Socket calls answer through arguments.
\<close>

section \<open>Sizes\<close>

definition API_BUFFER_SIZE :: nat where "API_BUFFER_SIZE = 16384"
definition API_RECV_SIZE :: nat where "API_RECV_SIZE = 1024"
definition API_HISTORY_SIZE :: nat where "API_HISTORY_SIZE = 50"

section \<open>Bounded responses\<close>

text \<open>
  A response buffer of \<open>out_size\<close> bytes: its text and \<open>pos\<close>. \<open>text\<close> is what \<open>vsnprintf\<close> would print without a limit.
\<close>

definition api_appendf :: "nat \<Rightarrow> string \<times> nat \<Rightarrow> string \<Rightarrow> bool \<times> string \<times> nat" where
  "api_appendf out_size = (\<lambda>(out, pos) text.
     if out_size \<le> pos then (False, out, pos)
     else let out' = take pos out @ take (out_size - pos - 1) text
          in if out_size - pos \<le> length text then (False, out', out_size)
             else (True, out', pos + length text))"

section \<open>History\<close>

record api_history_entry =
  he_thread_id :: int
  he_height :: u32
  he_khs :: double
  he_diff :: double
  he_hash_count :: u64
  he_id :: u32
  he_timestamp :: int

text \<open>The ring and what a collection remembers.\<close>

record api_history =
  g_api_history :: "api_history_entry list"
  g_api_history_head :: nat
  g_api_history_count :: nat
  g_api_history_next_id :: u32
  g_api_previous_hash_totals :: "u64 list"
  g_api_last_history_sample :: int

definition zero_entry :: api_history_entry where
  "zero_entry = \<lparr>he_thread_id = 0, he_height = 0, he_khs = 0, he_diff = 0, he_hash_count = 0, he_id = 0, he_timestamp = 0\<rparr>"

definition api_reset_history :: "nat \<Rightarrow> api_history" where
  "api_reset_history max_threads =
     \<lparr>g_api_history = replicate API_HISTORY_SIZE zero_entry, g_api_history_head = 0, g_api_history_count = 0, g_api_history_next_id = 1,
      g_api_previous_hash_totals = replicate max_threads 0, g_api_last_history_sample = 0\<rparr>"

definition api_push_history_sample :: "api_history_entry \<Rightarrow> api_history \<Rightarrow> api_history" where
  "api_push_history_sample entry h =
     h\<lparr>g_api_history := (g_api_history h)[g_api_history_head h := entry],
       g_api_history_head := (g_api_history_head h + 1) mod API_HISTORY_SIZE,
       g_api_history_count := (if g_api_history_count h < API_HISTORY_SIZE then g_api_history_count h + 1 else g_api_history_count h)\<rparr>"

text \<open>The order in which \<open>build_history_response\<close> visits the ring.\<close>

definition history_entries :: "api_history \<Rightarrow> api_history_entry list" where
  "history_entries h =
     map (\<lambda>offset. g_api_history h ! ((g_api_history_head h + API_HISTORY_SIZE - g_api_history_count h + offset) mod API_HISTORY_SIZE))
       [0..<g_api_history_count h]"

section \<open>Requests\<close>

text \<open>
  A request is parsed in place: the parser overwrites separators in the buffer by zero bytes, and the key of a WebSocket client stays a pointer into it.
  \<open>c_from\<close> is the C string at an offset and \<open>strchr_at\<close> the offset of a character in it.
\<close>

definition c_from :: "string \<Rightarrow> nat \<Rightarrow> string" where
  "c_from buf off = takeWhile (\<lambda>c. c \<noteq> CHR 0x00) (drop off buf)"

definition strchr_at :: "string \<Rightarrow> nat \<Rightarrow> char \<Rightarrow> nat option" where
  "strchr_at buf off c =
     (let s = c_from buf off in if c \<in> set s then Some (off + length (takeWhile (\<lambda>x. x \<noteq> c) s)) else None)"

definition api_trim_trailing_newlines :: "string \<Rightarrow> string" where
  "api_trim_trailing_newlines buf =
     (let s = c_from buf 0; t = rev (dropWhile (\<lambda>c. c = CHR 0x0A \<or> c = CHR 0x0D) (rev s))
      in t @ replicate (length s - length t) (CHR 0x00) @ drop (length s) buf)"

definition api_http_headers_complete :: "string \<Rightarrow> bool" where
  "api_http_headers_complete request \<longleftrightarrow>
     strstr request [CHR 0x0D, CHR 0x0A, CHR 0x0D, CHR 0x0A] \<noteq> None \<or> strstr request [CHR 0x0A, CHR 0x0A] \<noteq> None"

text \<open>What a round of the receive loop meets: \<open>poll\<close> fails or times out, \<open>recv\<close> is interrupted, would block, fails, or delivers bytes.\<close>

datatype recv_round = Poll_failed | Poll_timeout | Recv_interrupted | Recv_would_block | Recv_failed | Received string

text \<open>
  The loop over the rounds; a list that ends is a client that stays silent, which the time-out ends. \<^const>\<open>None\<close> is the result -1. A request is
  a C string, so nothing behind a zero byte is seen by the searches.
\<close>

fun recv_rounds :: "nat \<Rightarrow> recv_round list \<Rightarrow> bool \<Rightarrow> string \<Rightarrow> string option" where
  "recv_rounds request_size rounds is_http used =
     (if request_size \<le> length used + 1 then Some used
      else case rounds of
        [] \<Rightarrow> Some used
      | Poll_failed # _ \<Rightarrow> None
      | Poll_timeout # _ \<Rightarrow> Some used
      | Recv_interrupted # rs \<Rightarrow> recv_rounds request_size rs is_http used
      | Recv_would_block # _ \<Rightarrow> if used \<noteq> [] then Some used else None
      | Recv_failed # _ \<Rightarrow> None
      | Received b # rs \<Rightarrow>
          let b = take (request_size - length used - 1) b
          in if b = [] then Some used
             else let used = used @ b;
                      is_http = (is_http \<or> take 5 used = ''GET /'')
                  in if is_http \<and> api_http_headers_complete (c_from used 0) then Some used
                     else if \<not> is_http \<and> (CHR 0x0A \<in> set (c_from used 0) \<or> CHR 0x0D \<in> set (c_from used 0)) then Some used
                     else recv_rounds request_size rs is_http used)"

declare recv_rounds.simps [simp del]

definition api_recv_request :: "nat \<Rightarrow> recv_round list \<Rightarrow> string option" where
  "api_recv_request request_size rounds = (if request_size < 2 then None else recv_rounds request_size rounds False [])"

text \<open>The offset of the key; the line it stands on is cut off behind it.\<close>

definition api_find_websocket_key :: "string \<Rightarrow> string \<times> nat option" where
  "api_find_websocket_key buf =
     (case strstr (c_from buf 0) ''Sec-WebSocket-Key:'' of
        None \<Rightarrow> (buf, None)
      | Some t \<Rightarrow>
          let off = length (c_from buf 0) - length t + 18;
              key = off + length (takeWhile (\<lambda>c. c = CHR '' '') (drop 18 t));
              line_end = (case strchr_at buf key (CHR 0x0D) of Some e \<Rightarrow> Some e | None \<Rightarrow> strchr_at buf key (CHR 0x0A))
          in (case line_end of Some e \<Rightarrow> buf[e := CHR 0x00] | None \<Rightarrow> buf, Some key))"

text \<open>What the two parsers leave: the buffer, the command, the parameters and the key.\<close>

record api_request =
  rq_buf :: string
  rq_command :: string
  rq_params :: string
  rq_key :: "nat option"

definition api_parse_http_get :: "nat \<Rightarrow> nat \<Rightarrow> api_request \<Rightarrow> bool \<times> api_request" where
  "api_parse_http_get command_size params_size r =
     (if take 5 (c_from (rq_buf r) 0) \<noteq> ''GET /'' then (False, r)
      else case api_find_websocket_key (rq_buf r) of (buf, key) \<Rightarrow>
        case strchr_at buf 5 (CHR '' '') of
          None \<Rightarrow> (False, r\<lparr>rq_buf := buf, rq_key := key\<rparr>)
        | Some path_end \<Rightarrow>
            let buf = buf[path_end := CHR 0x00];
                slash = strchr_at buf 5 (CHR ''/'');
                buf = (case slash of Some e \<Rightarrow> buf[e := CHR 0x00] | None \<Rightarrow> buf);
                command = snprintf_s command_size (c_from buf 5);
                params = (case slash of Some e \<Rightarrow> snprintf_s params_size (c_from buf (e + 1)) | None \<Rightarrow> [])
            in (command \<noteq> [], \<lparr>rq_buf = buf, rq_command = command, rq_params = params, rq_key = key\<rparr>))"

definition drop_last_bar :: "string \<Rightarrow> string" where
  "drop_last_bar params = (if params \<noteq> [] \<and> last params = CHR ''|'' then butlast params else params)"

definition api_parse_command :: "nat \<Rightarrow> nat \<Rightarrow> string \<Rightarrow> api_request option" where
  "api_parse_command command_size params_size buf =
     (if command_size = 0 \<or> params_size = 0 then None
      else let r = \<lparr>rq_buf = api_trim_trailing_newlines buf, rq_command = [], rq_params = [], rq_key = None\<rparr>
           in case api_parse_http_get command_size params_size r of (ok, r) \<Rightarrow>
             if ok then Some r
             else let r = (case strchr_at (rq_buf r) 0 (CHR ''|'') of
                             Some e \<Rightarrow>
                               let buf = (rq_buf r)[e := CHR 0x00]
                               in r\<lparr>rq_buf := buf, rq_params := drop_last_bar (snprintf_s params_size (c_from buf (e + 1)))\<rparr>
                           | None \<Rightarrow> r);
                      r = r\<lparr>rq_command := snprintf_s command_size (c_from (rq_buf r) 0)\<rparr>
                  in if rq_command r \<noteq> [] then Some r else None)"

section \<open>Sending\<close>

text \<open>A call of \<open>send\<close>: it takes some bytes (or none), is interrupted, blocks until the socket is writable (or not), or fails.\<close>

datatype send_round = Sent nat | Send_interrupted | Send_blocked bool | Send_failed

fun api_send_all :: "send_round list \<Rightarrow> bytes \<Rightarrow> bytes \<Rightarrow> bool \<times> bytes \<times> send_round list" where
  "api_send_all rounds [] sent = (True, sent, rounds)"
| "api_send_all [] buffer sent = (False, sent, [])"
| "api_send_all (Sent n # rs) (b # bs) sent =
     (if n = 0 then (False, sent, rs) else api_send_all rs (drop n (b # bs)) (sent @ take n (b # bs)))"
| "api_send_all (Send_interrupted # rs) (b # bs) sent = api_send_all rs (b # bs) sent"
| "api_send_all (Send_blocked ready # rs) (b # bs) sent = (if ready then api_send_all rs (b # bs) sent else (False, sent, rs))"
| "api_send_all (Send_failed # rs) (b # bs) sent = (False, sent, rs)"

section \<open>SHA-1\<close>

definition sha1_h0 :: "u32 list" where
  "sha1_h0 = [0x67452301, 0xEFCDAB89, 0x98BADCFE, 0x10325476, 0xC3D2E1F0]"

definition sha1_padded :: "nat \<Rightarrow> nat" where
  "sha1_padded len = ((len + 8) div 64 + 1) * 64"

text \<open>The byte of the padded message at \<open>pos\<close>, computed while a block is filled.\<close>

definition sha1_byte :: "bytes \<Rightarrow> nat \<Rightarrow> u8" where
  "sha1_byte data pos =
     (let len = length data; bit_len = of_nat len * 8 :: u64; padded = sha1_padded len
      in if pos < len then data ! pos
         else if pos = len then 0x80
         else if padded - 8 \<le> pos then ucast (drop_bit (8 * (padded - 1 - pos)) bit_len)
         else 0)"

definition sha1_word :: "bytes \<Rightarrow> nat \<Rightarrow> u32" where
  "sha1_word block i =
     push_bit 24 (ucast (block ! (i * 4))) OR push_bit 16 (ucast (block ! (i * 4 + 1))) OR
     push_bit 8 (ucast (block ! (i * 4 + 2))) OR ucast (block ! (i * 4 + 3))"

definition sha1_schedule :: "bytes \<Rightarrow> u32 list" where
  "sha1_schedule block =
     fold (\<lambda>i w. let v = w ! (i - 3) XOR w ! (i - 8) XOR w ! (i - 14) XOR w ! (i - 16) in w @ [push_bit 1 v OR drop_bit 31 v])
       [16..<80] (map (sha1_word block) [0..<16])"

definition sha1_round :: "u32 list \<Rightarrow> nat \<Rightarrow> u32 \<times> u32 \<times> u32 \<times> u32 \<times> u32 \<Rightarrow> u32 \<times> u32 \<times> u32 \<times> u32 \<times> u32" where
  "sha1_round w i = (\<lambda>(a, b, c, d, e).
     let (f, k) = (if i < 20 then ((b AND c) OR (NOT b AND d), 0x5A827999)
                   else if i < 40 then (b XOR c XOR d, 0x6ED9EBA1)
                   else if i < 60 then ((b AND c) OR (b AND d) OR (c AND d), 0x8F1BBCDC)
                   else (b XOR c XOR d, 0xCA62C1D6));
         tmp = (push_bit 5 a OR drop_bit 27 a) + f + e + k + w ! i
     in (tmp, a, push_bit 30 b OR drop_bit 2 b, c, d))"

definition sha1_block :: "bytes \<Rightarrow> u32 list \<Rightarrow> u32 list" where
  "sha1_block block h =
     (case fold (sha1_round (sha1_schedule block)) [0..<80] (h ! 0, h ! 1, h ! 2, h ! 3, h ! 4) of
        (a, b, c, d, e) \<Rightarrow> [h ! 0 + a, h ! 1 + b, h ! 2 + c, h ! 3 + d, h ! 4 + e])"

definition api_sha1 :: "bytes \<Rightarrow> bytes" where
  "api_sha1 data =
     (let h = fold (\<lambda>k. sha1_block (map (\<lambda>i. sha1_byte data (64 * k + i)) [0..<64])) [0..<sha1_padded (length data) div 64] sha1_h0
      in concat (map (\<lambda>x. [ucast (drop_bit 24 x), ucast (drop_bit 16 x), ucast (drop_bit 8 x), ucast x]) h))"

section \<open>Base64\<close>

definition base64_tbl :: string where
  "base64_tbl = ''ABCDEFGHIJKLMNOPQRSTUVWXYZabcdefghijklmnopqrstuvwxyz0123456789+/''"

definition base64_char :: "u32 \<Rightarrow> nat \<Rightarrow> char" where
  "base64_char v shift = base64_tbl ! unat (drop_bit shift v AND 63)"

fun api_base64_encode :: "bytes \<Rightarrow> string" where
  "api_base64_encode (x # y # z # rest) =
     (let v = push_bit 16 (ucast x) OR push_bit 8 (ucast y) OR ucast z
      in base64_char v 18 # base64_char v 12 # base64_char v 6 # base64_char v 0 # api_base64_encode rest)"
| "api_base64_encode [x] = (let v = push_bit 16 (ucast x) in [base64_char v 18, base64_char v 12, CHR ''='', CHR ''=''])"
| "api_base64_encode [x, y] =
     (let v = push_bit 16 (ucast x) OR push_bit 8 (ucast y) in [base64_char v 18, base64_char v 12, base64_char v 6, CHR ''=''])"
| "api_base64_encode [] = []"

section \<open>WebSocket\<close>

definition websocket_guid :: string where
  "websocket_guid = ''258EAFA5-E914-47DA-95CA-C5AB0DC85B11''"

definition c_text :: "string \<Rightarrow> bytes" where
  "c_text s = map (\<lambda>c. of_nat (char_code c)) s"

definition frame_header :: "nat \<Rightarrow> bytes" where
  "frame_header payload_len =
     (if payload_len \<le> 125 then [0x81, of_nat payload_len]
      else if payload_len \<le> 65535 then [0x81, 126, of_nat (payload_len div 2 ^ 8), of_nat payload_len]
      else [0x81, 127, of_nat (payload_len div 2 ^ 56), of_nat (payload_len div 2 ^ 48), of_nat (payload_len div 2 ^ 40),
            of_nat (payload_len div 2 ^ 32), of_nat (payload_len div 2 ^ 24), of_nat (payload_len div 2 ^ 16),
            of_nat (payload_len div 2 ^ 8), of_nat payload_len])"

definition accept_key :: "string \<Rightarrow> string" where
  "accept_key client_key = api_base64_encode (api_sha1 (c_text (snprintf_s 128 (client_key @ websocket_guid))))"

definition handshake :: "string \<Rightarrow> string" where
  "handshake client_key =
     snprintf_s 256 (''HTTP/1.1 101 Switching Protocol'' @ [CHR 0x0D, CHR 0x0A] @ ''Upgrade: WebSocket'' @ [CHR 0x0D, CHR 0x0A] @
       ''Connection: Upgrade'' @ [CHR 0x0D, CHR 0x0A] @ ''Sec-WebSocket-Accept: '' @ accept_key client_key @ [CHR 0x0D, CHR 0x0A] @
       ''Sec-WebSocket-Protocol: text'' @ [CHR 0x0D, CHR 0x0A, CHR 0x0D, CHR 0x0A])"

definition api_send_response :: "send_round list \<Rightarrow> string \<Rightarrow> bool \<times> bytes" where
  "api_send_response rounds response = (case api_send_all rounds (c_text response) [] of (ok, sent, _) \<Rightarrow> (ok, sent))"

definition api_send_websocket_response :: "send_round list \<Rightarrow> string \<Rightarrow> string \<Rightarrow> bool \<times> bytes" where
  "api_send_websocket_response rounds response client_key =
     (case api_send_all rounds (c_text (handshake client_key)) [] of (ok, sent, rounds) \<Rightarrow>
        if \<not> ok then (False, sent)
        else case api_send_all rounds (frame_header (length response)) sent of (ok, sent, rounds) \<Rightarrow>
          if \<not> ok then (False, sent)
          else case api_send_all rounds (c_text response) sent of (ok, sent, rounds) \<Rightarrow> (ok, sent))"

section \<open>The ring of samples\<close>

text \<open>The ring after the samples of a log: the sample with number \<open>j\<close> is in slot \<open>j mod 50\<close> while it is among the last fifty.\<close>

definition ring_holds :: "api_history \<Rightarrow> api_history_entry list \<Rightarrow> bool" where
  "ring_holds h samples \<longleftrightarrow> length (g_api_history h) = API_HISTORY_SIZE \<and> g_api_history_head h = length samples mod API_HISTORY_SIZE \<and>
     g_api_history_count h = min API_HISTORY_SIZE (length samples) \<and>
     (\<forall>j. j < length samples \<and> length samples \<le> j + API_HISTORY_SIZE \<longrightarrow> g_api_history h ! (j mod API_HISTORY_SIZE) = samples ! j)"

lemma ring_holds_reset: "ring_holds (api_reset_history n) []"
  by (simp add: ring_holds_def api_reset_history_def)

lemma mod_window: "j < n \<Longrightarrow> n < j + m \<Longrightarrow> j mod m \<noteq> n mod (m :: nat)"
proof
  assume a: "j < n" "n < j + m" "j mod m = n mod m"
  then have "m dvd n - j" using mod_eq_dvd_iff_nat [of j n m] by simp
  then show False using a(1,2) by (auto dest: dvd_imp_le)
qed

lemma ring_holds_push:
  assumes "ring_holds h samples"
  shows "ring_holds (api_push_history_sample e h) (samples @ [e])"
proof -
  let ?n = "length samples" and ?h = "api_push_history_sample e h"
  have h: "length (g_api_history h) = API_HISTORY_SIZE" "g_api_history_head h = ?n mod API_HISTORY_SIZE"
    "g_api_history_count h = min API_HISTORY_SIZE ?n"
    "\<And>j. j < ?n \<Longrightarrow> ?n \<le> j + API_HISTORY_SIZE \<Longrightarrow> g_api_history h ! (j mod API_HISTORY_SIZE) = samples ! j"
    using assms by (auto simp: ring_holds_def)
  have m: "?n mod API_HISTORY_SIZE < API_HISTORY_SIZE" by (simp add: API_HISTORY_SIZE_def)
  have "g_api_history ?h ! (j mod API_HISTORY_SIZE) = (samples @ [e]) ! j" if j: "j < ?n + 1" "?n + 1 \<le> j + API_HISTORY_SIZE" for j
  proof (cases "j = ?n")
    case True
    then show ?thesis using h(1,2) m by (simp add: api_push_history_sample_def)
  next
    case False
    then have "j mod API_HISTORY_SIZE \<noteq> ?n mod API_HISTORY_SIZE" using j by (intro mod_window) auto
    then show ?thesis using h(2,4) j False by (simp add: api_push_history_sample_def nth_append)
  qed
  then show ?thesis using h(1-3) by (auto simp: ring_holds_def api_push_history_sample_def mod_Suc_eq)
qed

lemma ring_holds_fold: "ring_holds h samples \<Longrightarrow> ring_holds (fold api_push_history_sample es h) (samples @ es)"
proof (induction es arbitrary: h samples)
  case (Cons e es)
  then show ?case using Cons.IH [OF ring_holds_push [OF Cons.prems], of e] by simp
qed simp

lemma history_entries_ring:
  assumes "ring_holds h samples"
  shows "history_entries h = drop (length samples - API_HISTORY_SIZE) samples"
proof (rule nth_equalityI)
  have c: "g_api_history_count h = min API_HISTORY_SIZE (length samples)" using assms by (simp add: ring_holds_def)
  then show "length (history_entries h) = length (drop (length samples - API_HISTORY_SIZE) samples)"
    by (simp add: history_entries_def min_def)
  fix i
  assume "i < length (history_entries h)"
  then have i: "i < min API_HISTORY_SIZE (length samples)" using c by (simp add: history_entries_def)
  let ?n = "length samples" and ?c = "min API_HISTORY_SIZE (length samples)"
  have "?c \<le> API_HISTORY_SIZE" by simp
  then have "?n mod API_HISTORY_SIZE + API_HISTORY_SIZE - ?c + i = ?n mod API_HISTORY_SIZE + (API_HISTORY_SIZE - ?c + i)" by linarith
  then have "(?n mod API_HISTORY_SIZE + API_HISTORY_SIZE - ?c + i) mod API_HISTORY_SIZE = (?n mod API_HISTORY_SIZE + (API_HISTORY_SIZE - ?c + i)) mod API_HISTORY_SIZE"
    by (rule arg_cong)
  also have "\<dots> = (?n + (API_HISTORY_SIZE - ?c + i)) mod API_HISTORY_SIZE" by (rule mod_add_left_eq)
  also have "?n + (API_HISTORY_SIZE - ?c + i) = (?n - ?c + i) + API_HISTORY_SIZE" by simp
  also have "\<dots> mod API_HISTORY_SIZE = (?n - ?c + i) mod API_HISTORY_SIZE" by (rule mod_add_self2)
  finally have "history_entries h ! i = g_api_history h ! ((?n - ?c + i) mod API_HISTORY_SIZE)"
    using assms i c by (simp add: history_entries_def ring_holds_def)
  also have "\<dots> = samples ! (?n - ?c + i)"
  proof -
    have "?n - ?c + i < ?n \<and> ?n \<le> (?n - ?c + i) + API_HISTORY_SIZE" using i by (auto simp: min_def)
    then show ?thesis using assms unfolding ring_holds_def by blast
  qed
  finally show "history_entries h ! i = drop (length samples - API_HISTORY_SIZE) samples ! i" using i by (simp add: min_def split: if_splits)
qed

text \<open>
  C20. The ring refines a log: whatever samples are collected after the start of the service, a history response visits exactly the last fifty
  of them (all of them while there are fewer), oldest first.
\<close>

theorem history_is_last_samples:
  "history_entries (fold api_push_history_sample samples (api_reset_history threads)) = drop (length samples - API_HISTORY_SIZE) samples"
  using history_entries_ring [OF ring_holds_fold [OF ring_holds_reset [of threads], of samples]] by simp

section \<open>Requests stay in their buffers\<close>

lemma recv_rounds_bound:
  "length used < request_size \<Longrightarrow> recv_rounds request_size rounds is_http used = Some r \<Longrightarrow> length r < request_size"
proof (induction rounds arbitrary: is_http used)
  case Nil
  then show ?case by (simp add: recv_rounds.simps split: if_splits)
next
  case (Cons a rs)
  show ?case
  proof (cases "request_size \<le> length used + 1")
    case True
    then show ?thesis using Cons.prems by (simp add: recv_rounds.simps)
  next
    case False
    show ?thesis
    proof (cases a)
      case Recv_interrupted
      then have "recv_rounds request_size (a # rs) is_http used = recv_rounds request_size rs is_http used"
        using False by (subst recv_rounds.simps) simp
      then show ?thesis using Cons.prems Cons.IH [of used is_http] by simp
    next
      case (Received b)
      let ?used = "used @ take (request_size - length used - 1) b"
      let ?http = "is_http \<or> take 5 ?used = ''GET /''"
      have l: "length ?used < request_size" using Cons.prems(1) by auto
      have "recv_rounds request_size (a # rs) is_http used \<in> {Some used, Some ?used, recv_rounds request_size rs ?http ?used}"
        using False Received by (subst recv_rounds.simps) (simp add: Let_def)
      then show ?thesis using Cons.prems Cons.IH [OF l, of ?http] l by auto
    qed (use Cons.prems False in \<open>auto simp: recv_rounds.simps split: if_splits\<close>)
  qed
qed

lemma api_recv_request_bound: "api_recv_request request_size rounds = Some r \<Longrightarrow> length r < request_size"
  using recv_rounds_bound [of "[]" request_size rounds False r] by (auto simp: api_recv_request_def split: if_splits)

section \<open>Sending\<close>

text \<open>What was sent is a beginning of the buffer, and all of it after a success.\<close>

lemma api_send_all_prefix:
  "api_send_all rounds buffer sent = (ok, sent', rest) \<Longrightarrow> \<exists>n. sent' = sent @ take n buffer \<and> (ok \<longrightarrow> sent' = sent @ buffer)"
proof (induction rounds buffer sent arbitrary: ok sent' rest rule: api_send_all.induct)
  case (3 n rs b bs sent)
  show ?case
  proof (cases "n = 0")
    case True
    then show ?thesis using "3.prems" by (auto intro: exI [of _ 0])
  next
    case False
    from "3.IH" [OF this, of ok sent' rest] "3.prems" False
    obtain k where k: "sent' = (sent @ take n (b # bs)) @ take k (drop n (b # bs))"
      "ok \<longrightarrow> sent' = (sent @ take n (b # bs)) @ drop n (b # bs)" by auto
    have "take n (b # bs) @ take k (drop n (b # bs)) = take (n + k) (b # bs)" by (rule take_add [symmetric])
    then have "sent' = sent @ take (n + k) (b # bs)" unfolding k(1) append_assoc by (rule arg_cong)
    moreover have "ok \<longrightarrow> sent' = sent @ b # bs" using k(2) unfolding append_assoc append_take_drop_id .
    ultimately show ?thesis by blast
  qed
qed (auto split: if_splits intro: exI [of _ 0])

section \<open>Base64\<close>

text \<open>The decoder of RFC 4648.\<close>

definition base64_value :: "char \<Rightarrow> u32" where
  "base64_value c = of_nat (length (takeWhile (\<lambda>x. x \<noteq> c) base64_tbl))"

definition base64_join :: "char \<Rightarrow> char \<Rightarrow> char \<Rightarrow> char \<Rightarrow> u32" where
  "base64_join a b c d =
     push_bit 18 (base64_value a) OR push_bit 12 (base64_value b) OR push_bit 6 (base64_value c) OR base64_value d"

fun base64_decode :: "string \<Rightarrow> bytes" where
  "base64_decode (a # b # c # d # rest) =
     (if d \<noteq> CHR ''='' then
        let v = base64_join a b c d in ucast (drop_bit 16 v) # ucast (drop_bit 8 v) # ucast v # base64_decode rest
      else if c \<noteq> CHR ''='' then let v = base64_join a b c (CHR ''A'') in [ucast (drop_bit 16 v), ucast (drop_bit 8 v)]
      else let v = base64_join a b (CHR ''A'') (CHR ''A'') in [ucast (drop_bit 16 v)])"
| "base64_decode _ = []"

lemma base64_tbl_values: "map base64_value base64_tbl = map of_nat [0..<64]" "CHR ''='' \<notin> set base64_tbl"
  by code_simp+

lemma base64_value_nth: "i < 64 \<Longrightarrow> base64_value (base64_tbl ! i) = of_nat i \<and> base64_tbl ! i \<noteq> CHR ''=''"
proof -
  assume i: "i < 64"
  have l: "length base64_tbl = 64" by (simp add: base64_tbl_def)
  have "map base64_value base64_tbl ! i = (of_nat i :: u32)" using i unfolding base64_tbl_values(1) by simp
  moreover have "base64_tbl ! i \<in> set base64_tbl" using i l by (intro nth_mem) simp
  ultimately show ?thesis using i l base64_tbl_values(2) by (metis nth_map)
qed

lemma base64_char: "base64_value (base64_char v k) = drop_bit k v AND 63" "base64_char v k \<noteq> CHR ''=''"
proof -
  have "drop_bit k v AND 63 \<le> 63" by (rule word_and_le1)
  then have "unat (drop_bit k v AND 63) < 64" by (simp add: word_le_nat_alt)
  from base64_value_nth [OF this] show "base64_value (base64_char v k) = drop_bit k v AND 63" "base64_char v k \<noteq> CHR ''=''"
    by (simp_all add: base64_char_def)
qed

lemma and_sextet: "x AND 63 = take_bit 6 (x :: u32)"
  by (simp add: take_bit_eq_mask mask_eq_exp_minus_1)

text \<open>Three bytes survive the detour through four groups of six bits.\<close>

lemma sextets_join:
  fixes v :: u32
  assumes "drop_bit 24 v = 0"
  shows "push_bit 18 (drop_bit 18 v AND 63) OR push_bit 12 (drop_bit 12 v AND 63) OR push_bit 6 (drop_bit 6 v AND 63) OR (v AND 63) = v"
proof (rule bit_word_eqI)
  fix n
  assume n: "n < LENGTH(32)"
  have z: "\<not> bit v n" if "24 \<le> n"
    using arg_cong [OF assms, of "\<lambda>w. bit w (n - 24)"] that by (simp add: bit_drop_bit_eq)
  show "bit (push_bit 18 (drop_bit 18 v AND 63) OR push_bit 12 (drop_bit 12 v AND 63) OR push_bit 6 (drop_bit 6 v AND 63) OR (v AND 63)) n = bit v n"
  proof -
    consider "n < 6" | "6 \<le> n" "n < 12" | "12 \<le> n" "n < 18" | "18 \<le> n" "n < 24" | "24 \<le> n" by linarith
    then show ?thesis
      using n z unfolding and_sextet
      by cases (simp_all only: bit_or_iff bit_push_bit_iff bit_take_bit_iff bit_drop_bit_eq o_apply, auto)
  qed
qed

lemma join_chars:
  "drop_bit 24 v = 0 \<Longrightarrow> base64_join (base64_char v 18) (base64_char v 12) (base64_char v 6) (base64_char v 0) = v"
  using sextets_join [of v] by (simp add: base64_join_def base64_char)

lemma group_bytes:
  fixes x y z :: u8
  defines "v \<equiv> push_bit 16 (ucast x) OR push_bit 8 (ucast y) OR ucast z :: u32"
  shows "drop_bit 24 v = 0" "ucast (drop_bit 16 v) = x" "ucast (drop_bit 8 v) = y" "ucast v = z"
  unfolding v_def by (rule bit_word_eqI; auto simp: bit_simps)+

lemma value_A: "base64_value (CHR ''A'') = 0"
  by code_simp

lemma base64_low_zero: "drop_bit 6 v AND 63 = (0 :: u32) \<Longrightarrow> base64_char v 6 = CHR ''A''" "v AND 63 = 0 \<Longrightarrow> base64_char v 0 = CHR ''A''"
  by (simp_all add: base64_char_def base64_tbl_def)

lemma low_sextets:
  "push_bit 16 w AND 63 = (0 :: u32)" "drop_bit 6 (push_bit 16 w) AND 63 = (0 :: u32)" "(push_bit 16 w OR push_bit 8 u) AND 63 = (0 :: u32)"
  unfolding and_sextet by (rule bit_word_eqI; simp only: bit_or_iff bit_push_bit_iff bit_take_bit_iff bit_drop_bit_eq o_apply; auto)+

lemma base64_roundtrip: "base64_decode (api_base64_encode b) = b"
proof (induction b rule: api_base64_encode.induct)
  case (1 x y z rest)
  then show ?case using group_bytes [of x y z] by (simp add: Let_def base64_char join_chars)
next
  case (2 x)
  let ?v = "push_bit 16 (ucast x) :: u32"
  have "base64_join (base64_char ?v 18) (base64_char ?v 12) (CHR ''A'') (CHR ''A'') = ?v"
    using join_chars [of ?v] group_bytes(1) [of x 0 0] low_sextets(1,2) [of "ucast x"] base64_low_zero [of ?v] by simp
  then show ?case using group_bytes(2) [of x 0 0] by (simp add: Let_def)
next
  case (3 x y)
  let ?v = "push_bit 16 (ucast x) OR push_bit 8 (ucast y) :: u32"
  have "base64_join (base64_char ?v 18) (base64_char ?v 12) (base64_char ?v 6) (CHR ''A'') = ?v"
    using join_chars [of ?v] group_bytes(1) [of x y 0] low_sextets(3) [of "ucast x" "ucast y"] base64_low_zero(2) [of ?v] by simp
  then show ?case using group_bytes(2,3) [of x y 0] by (simp add: Let_def base64_char)
qed simp

section \<open>The WebSocket reply\<close>

text \<open>How a client reads the frame: its length and the payload.\<close>

definition be_number :: "bytes \<Rightarrow> nat" where
  "be_number b = foldl (\<lambda>n x. 256 * n + unat x) 0 b"

definition read_frame :: "bytes \<Rightarrow> bytes option" where
  "read_frame b =
     (if length b < 2 \<or> b ! 0 \<noteq> 0x81 then None
      else let (k, n) = (if b ! 1 = 126 then (4, be_number (take 2 (drop 2 b)))
                         else if b ! 1 = 127 then (10, be_number (take 8 (drop 2 b))) else (2, unat (b ! 1)))
           in if length b = k + n then Some (drop k b) else None)"

lemma byte_of_nat: "unat (of_nat n :: u8) = n mod 256"
  by (simp add: unat_of_nat)

lemma div_digit: "256 * (n div 2 ^ (k + 8)) + n div 2 ^ k mod 256 = n div (2 ^ k :: nat)"
proof -
  have "n div 2 ^ (k + 8) = n div 2 ^ k div 256" by (simp add: power_add div_mult2_eq)
  then show ?thesis by simp
qed

lemma be_number_eight:
  assumes "n < 2 ^ 64"
  shows "be_number [of_nat (n div 2 ^ 56), of_nat (n div 2 ^ 48), of_nat (n div 2 ^ 40), of_nat (n div 2 ^ 32),
      of_nat (n div 2 ^ 24), of_nat (n div 2 ^ 16), of_nat (n div 2 ^ 8), of_nat n] = n"
proof -
  have "n div 2 ^ 56 < 256" using assms by (simp add: less_mult_imp_div_less)
  then have "n div 2 ^ 56 mod 256 = n div 2 ^ 56" by (rule mod_less)
  then show ?thesis
    using div_digit [of n 48] div_digit [of n 40] div_digit [of n 32] div_digit [of n 24] div_digit [of n 16] div_digit [of n 8] div_digit [of n 0]
    unfolding be_number_def byte_of_nat foldl.simps by simp
qed

lemma be_number_two: "n \<le> 65535 \<Longrightarrow> be_number [of_nat (n div 2 ^ 8), of_nat n] = n"
  using div_digit [of n 0] by (simp add: be_number_def byte_of_nat)

lemma read_frame_header:
  assumes "length payload < 2 ^ 64"
  shows "read_frame (frame_header (length payload) @ payload) = Some payload"
proof -
  let ?n = "length payload"
  consider "?n \<le> 125" | "125 < ?n" "?n \<le> 65535" | "65535 < ?n" by linarith
  then show ?thesis
  proof cases
    case 1
    then have u: "unat (of_nat ?n :: u8) = ?n" by (simp add: byte_of_nat)
    then have "(of_nat ?n :: u8) \<noteq> 126" "(of_nat ?n :: u8) \<noteq> 127" using 1 by (auto dest: arg_cong [of _ _ unat])
    then show ?thesis using 1 u by (simp add: read_frame_def frame_header_def)
  next
    case 2
    then show ?thesis using be_number_two [of ?n] by (simp add: read_frame_def frame_header_def)
  next
    case 3
    then show ?thesis using be_number_eight [OF assms] by (simp add: read_frame_def frame_header_def del: of_nat_div)
  qed
qed

lemma length_base64: "length (api_base64_encode b) = 4 * ((length b + 2) div 3)"
proof (induction b rule: api_base64_encode.induct)
  case (1 x y z rest)
  have "(length (x # y # z # rest) + 2) div 3 = (length rest + 2) div 3 + 1" by simp
  then show ?case using 1 by (simp add: Let_def)
qed (simp_all add: Let_def)

lemma length_sha1_block: "length (sha1_block block h) = 5"
  by (simp add: sha1_block_def split: prod.split)

lemma length_api_sha1: "length (api_sha1 data) = 20"
proof -
  have "length (fold (\<lambda>k. sha1_block (B k)) ks h) = 5" if "length h = 5" for B ks h
    using that by (induction ks arbitrary: h) (simp_all add: length_sha1_block)
  from this [of sha1_h0 "\<lambda>k. map (\<lambda>i. sha1_byte data (64 * k + i)) [0..<64]" "[0..<sha1_padded (length data) div 64]"]
  have "length (fold (\<lambda>k. sha1_block (map (\<lambda>i. sha1_byte data (64 * k + i)) [0..<64])) [0..<sha1_padded (length data) div 64] sha1_h0) = 5"
    by (simp add: sha1_h0_def)
  then show ?thesis by (simp add: api_sha1_def Let_def length_concat o_def sum_list_triv)
qed



end
