(* ===== verification/Api_Service.thy ===== *)
theory Api_Service
  imports Prelude
begin

text \<open>
  The life of the monitoring thread in \<open>src/api.cpp\<close> (\<open>api_start_service\<close>, \<open>api_thread_main\<close>, \<open>api_stop_service\<close>) as a
  step relation. The thread that starts and stops the service and the monitoring thread interleave; a step is a section under
  \<open>g_api_service_lock\<close>, a \<open>pthread_join\<close>, or the decision of the monitoring thread to leave its loop.
\<close>

section \<open>States\<close>

text \<open>Where the monitoring thread is: \<open>Joined\<close> is a thread whose handle is used up.\<close>

datatype api_thread = Not_created | Opening | Serving | Closing | Exited | Joined

text \<open>Where the caller is; \<open>Returned\<close> carries the result of \<open>api_start_service\<close>.\<close>

datatype api_caller =
  Idle | Start_reap bool | Start_create | Start_wait | Start_join | Start_clear | Returned bool | Stop_join | Stop_clear

record api_service =
  g_api_thread_active :: bool
  g_api_thread_join_pending :: bool
  g_api_shutdown_requested :: bool
  g_api_startup_complete :: bool
  g_api_startup_succeeded :: bool
  api_thread :: api_thread
  api_caller :: api_caller

definition initial_service :: api_service where
  "initial_service = \<lparr>g_api_thread_active = False, g_api_thread_join_pending = False, g_api_shutdown_requested = False,
     g_api_startup_complete = False, g_api_startup_succeeded = False, api_thread = Not_created, api_caller = Idle\<rparr>"

section \<open>The caller\<close>

text \<open>Each function is one section of \<open>api_start_service\<close> or \<open>api_stop_service\<close>; \<open>created\<close> is the answer of \<open>pthread_create\<close>.\<close>

definition start_check :: "api_service \<Rightarrow> api_service" where
  "start_check s =
     (if g_api_thread_active s then s\<lparr>api_caller := Returned True\<rparr>
      else s\<lparr>api_caller := Start_reap (g_api_thread_join_pending s)\<rparr>)"

definition start_create :: "bool \<Rightarrow> api_service \<Rightarrow> api_service" where
  "start_create created s =
     (let s = s\<lparr>g_api_thread_join_pending := False, g_api_shutdown_requested := False, g_api_startup_complete := False,
                g_api_startup_succeeded := False\<rparr>
      in if created
         then s\<lparr>g_api_thread_active := True, g_api_thread_join_pending := True, api_thread := Opening, api_caller := Start_wait\<rparr>
         else s\<lparr>api_caller := Returned False\<rparr>)"

definition start_woken :: "api_service \<Rightarrow> api_service" where
  "start_woken s = s\<lparr>api_caller := (if g_api_startup_succeeded s then Returned True else Start_join)\<rparr>"

definition start_clear :: "api_service \<Rightarrow> api_service" where
  "start_clear s = s\<lparr>g_api_thread_join_pending := False, g_api_thread_active := False, api_caller := Returned False\<rparr>"

definition stop_request :: "api_service \<Rightarrow> api_service" where
  "stop_request s =
     (if g_api_thread_join_pending s then s\<lparr>g_api_shutdown_requested := True, api_caller := Stop_join\<rparr>
      else s\<lparr>api_caller := Idle\<rparr>)"

definition stop_clear :: "api_service \<Rightarrow> api_service" where
  "stop_clear s =
     s\<lparr>g_api_thread_join_pending := False, g_api_thread_active := False, g_api_shutdown_requested := False, api_caller := Idle\<rparr>"

section \<open>The monitoring thread\<close>

text \<open>The end of \<open>api_open_listen_socket\<close>, without and with a listening socket, and the end of the thread.\<close>

definition open_failed :: "api_service \<Rightarrow> api_service" where
  "open_failed s =
     s\<lparr>g_api_thread_active := False, g_api_shutdown_requested := False, g_api_startup_complete := True,
       g_api_startup_succeeded := False, api_thread := Exited\<rparr>"

definition opened :: "api_service \<Rightarrow> api_service" where
  "opened s = s\<lparr>g_api_startup_complete := True, g_api_startup_succeeded := True, api_thread := Serving\<rparr>"

definition thread_end :: "api_service \<Rightarrow> api_service" where
  "thread_end s =
     s\<lparr>g_api_thread_active := False, g_api_shutdown_requested := False, g_api_startup_complete := False,
       g_api_startup_succeeded := False, api_thread := Exited\<rparr>"

section \<open>Steps\<close>

text \<open>
  \<open>abort\<close> is the answer of \<open>miner_should_abort\<close>, or a failed \<open>poll\<close>: the monitoring thread may leave its loop in any round.
  A join waits until the thread has ended, and a wait on the condition variable until the flag is set.
\<close>

inductive api_step :: "api_service \<Rightarrow> api_service \<Rightarrow> bool" where
  call_start: "api_caller s \<in> {Idle, Returned r} \<Longrightarrow> api_step s (start_check s)"
| reap: "api_caller s = Start_reap True \<Longrightarrow> api_thread s = Exited \<Longrightarrow> api_step s (s\<lparr>api_thread := Joined, api_caller := Start_create\<rparr>)"
| no_reap: "api_caller s = Start_reap False \<Longrightarrow> api_step s (s\<lparr>api_caller := Start_create\<rparr>)"
| create: "api_caller s = Start_create \<Longrightarrow> api_step s (start_create created s)"
| woken: "api_caller s = Start_wait \<Longrightarrow> g_api_startup_complete s \<Longrightarrow> api_step s (start_woken s)"
| join_failed: "api_caller s = Start_join \<Longrightarrow> api_thread s = Exited \<Longrightarrow> api_step s (s\<lparr>api_thread := Joined, api_caller := Start_clear\<rparr>)"
| clear_failed: "api_caller s = Start_clear \<Longrightarrow> api_step s (start_clear s)"
| call_stop: "api_caller s \<in> {Idle, Returned r} \<Longrightarrow> api_step s (stop_request s)"
| join_stopped: "api_caller s = Stop_join \<Longrightarrow> api_thread s = Exited \<Longrightarrow> api_step s (s\<lparr>api_thread := Joined, api_caller := Stop_clear\<rparr>)"
| clear_stopped: "api_caller s = Stop_clear \<Longrightarrow> api_step s (stop_clear s)"
| no_socket: "api_thread s = Opening \<Longrightarrow> api_step s (open_failed s)"
| socket: "api_thread s = Opening \<Longrightarrow> api_step s (opened s)"
| leave: "api_thread s = Serving \<Longrightarrow> abort \<or> g_api_shutdown_requested s \<Longrightarrow> api_step s (s\<lparr>api_thread := Closing\<rparr>)"
| ended: "api_thread s = Closing \<Longrightarrow> api_step s (thread_end s)"

inductive api_steps :: "api_service \<Rightarrow> api_service \<Rightarrow> bool" where
  refl: "api_steps s s"
| step: "api_steps s t \<Longrightarrow> api_step t u \<Longrightarrow> api_steps s u"

lemmas api_section_defs = start_check_def start_create_def start_woken_def start_clear_def stop_request_def stop_clear_def
  open_failed_def opened_def thread_end_def

section \<open>Joins\<close>

text \<open>
  The bookkeeping of the handle: a pending join stands for a thread that exists and was not joined, an active thread has a pending
  join, and a thread that is not pending is joined or was never created (except between a join and the section that records it).
\<close>

fun joined_unrecorded :: "api_caller \<Rightarrow> bool" where
  "joined_unrecorded Start_clear = True"
| "joined_unrecorded Stop_clear = True"
| "joined_unrecorded Start_create = True"
| "joined_unrecorded _ = False"

definition service_inv :: "api_service \<Rightarrow> bool" where
  "service_inv s \<longleftrightarrow>
     (if joined_unrecorded (api_caller s) then api_thread s \<in> {Not_created, Joined}
      else (g_api_thread_join_pending s \<longleftrightarrow> api_thread s \<in> {Opening, Serving, Closing, Exited})) \<and>
     (api_thread s \<in> {Opening, Serving, Closing} \<longrightarrow> g_api_thread_active s) \<and>
     (api_caller s \<in> {Start_wait, Start_join, Stop_join} \<longrightarrow> g_api_thread_join_pending s) \<and>
     (api_caller s = Start_join \<longrightarrow> api_thread s \<notin> {Not_created, Joined}) \<and>
     (api_caller s = Start_reap True \<longrightarrow> g_api_thread_join_pending s \<and> \<not> g_api_thread_active s \<and> api_thread s = Exited) \<and>
     (api_caller s = Start_reap False \<longrightarrow> \<not> g_api_thread_join_pending s \<and> \<not> g_api_thread_active s) \<and>
     (api_caller s = Start_create \<longrightarrow> \<not> g_api_thread_active s) \<and>
     (g_api_thread_active s \<and> \<not> joined_unrecorded (api_caller s) \<longrightarrow> g_api_thread_join_pending s)"

lemma initial_service_inv: "service_inv initial_service"
  by (simp add: service_inv_def initial_service_def)

lemma service_inv_step: "api_step s t \<Longrightarrow> service_inv s \<Longrightarrow> service_inv t"
proof (induction rule: api_step.induct)
  case (leave s abort)
  then show ?case by (cases "api_caller s") (auto simp: service_inv_def)
next
  case (ended s)
  then show ?case by (cases "api_caller s") (auto simp: service_inv_def api_section_defs)
next
  case (socket s)
  then show ?case by (cases "api_caller s") (auto simp: service_inv_def api_section_defs)
next
  case (no_socket s)
  then show ?case by (cases "api_caller s") (auto simp: service_inv_def api_section_defs)
next
  case (call_start s r)
  then show ?case by (cases "api_thread s") (auto simp: service_inv_def api_section_defs)
next
  case (call_stop s r)
  then show ?case by (cases "api_thread s") (auto simp: service_inv_def api_section_defs)
next
  case (create s created)
  then show ?case by (cases created) (auto simp: service_inv_def api_section_defs Let_def)
next
  case (woken s)
  then show ?case by (cases "api_thread s") (auto simp: service_inv_def api_section_defs)
next
  case (no_reap s)
  then show ?case by (cases "api_thread s") (auto simp: service_inv_def)
next
  case (clear_failed s)
  then show ?case by (cases "api_thread s") (simp_all add: service_inv_def api_section_defs)
next
  case (clear_stopped s)
  then show ?case by (cases "api_thread s") (simp_all add: service_inv_def api_section_defs)
qed (simp_all add: service_inv_def api_section_defs)

lemma service_inv_steps: "api_steps s t \<Longrightarrow> service_inv s \<Longrightarrow> service_inv t"
  by (induction rule: api_steps.induct) (auto intro: service_inv_step)

text \<open>
  C21. Over every interleaving of starts, stops and the monitoring thread, the handle \<open>g_api_thread\<close> is used properly: a thread is only created when
  the handle holds no thread, or one that was joined, and whoever is about to join finds a thread that exists and was not joined before.
\<close>

theorem api_joins_once:
  assumes "api_steps initial_service s"
  shows "(api_caller s = Start_create \<longrightarrow> api_thread s \<in> {Not_created, Joined}) \<and>
    (api_caller s \<in> {Start_reap True, Start_join, Stop_join} \<longrightarrow> api_thread s \<in> {Opening, Serving, Closing, Exited})"
  using service_inv_steps [OF assms initial_service_inv] by (auto simp: service_inv_def)

lemma before_create: "api_steps initial_service ((start_check initial_service)\<lparr>api_caller := Start_create\<rparr>)"
proof -
  have "api_steps initial_service (start_check initial_service)"
    by (rule api_steps.step [OF api_steps.refl api_step.call_start]) (simp add: initial_service_def)
  then show ?thesis
    by (rule api_steps.step [OF _ api_step.no_reap]) (simp add: start_check_def initial_service_def)
qed

theorem api_joins_once_witness:
  "api_caller ((start_check initial_service)\<lparr>api_caller := Start_create\<rparr>) = Start_create \<and>
   api_thread ((start_check initial_service)\<lparr>api_caller := Start_create\<rparr>) \<in> {Not_created, Joined}"
  using api_joins_once [OF before_create] by simp

section \<open>The wait of the start\<close>

text \<open>A caller that waits for the start-up of a thread that has ended and cleared the flag.\<close>

definition lost_wakeup :: "api_service \<Rightarrow> bool" where
  "lost_wakeup s \<longleftrightarrow> api_caller s = Start_wait \<and> api_thread s = Exited \<and> \<not> g_api_startup_complete s"

lemma lost_wakeup_no_step: "lost_wakeup s \<Longrightarrow> \<not> api_step s t"
  by (auto simp: lost_wakeup_def elim: api_step.cases)

text \<open>
  C18. The start can wait forever: when the monitoring thread opens its socket and then leaves its loop at once (the miner was told to
  abort) before the caller, woken by the broadcast, looks at the flag, the end of the thread has cleared \<open>g_api_startup_complete\<close> again; the caller goes back to sleep and
  no step is left that could wake it.
\<close>

theorem api_start_can_hang:
  "\<exists>s. api_steps initial_service s \<and> api_caller s = Start_wait \<and> (\<nexists>t. api_step s t)"
proof -
  define s where "s = start_create True ((start_check initial_service)\<lparr>api_caller := Start_create\<rparr>)"
  have s: "api_steps initial_service s" "api_thread s = Opening" "api_caller s = Start_wait"
    unfolding s_def by (rule api_steps.step [OF before_create api_step.create]) (simp_all add: start_create_def)
  have 1: "api_steps initial_service (opened s)" by (rule api_steps.step [OF s(1) api_step.socket]) (rule s(2))
  have 2: "api_steps initial_service ((opened s)\<lparr>api_thread := Closing\<rparr>)"
    by (rule api_steps.step [OF 1 api_step.leave [of _ True]]) (simp_all add: opened_def)
  have 3: "api_steps initial_service (thread_end ((opened s)\<lparr>api_thread := Closing\<rparr>))"
    by (rule api_steps.step [OF 2 api_step.ended]) simp
  moreover have "lost_wakeup (thread_end ((opened s)\<lparr>api_thread := Closing\<rparr>))"
    using s(3) by (simp add: lost_wakeup_def thread_end_def opened_def)
  ultimately show ?thesis using lost_wakeup_no_step by (metis lost_wakeup_def)
qed

end
