(* ===== verification/Api.thy ===== *)
theory Api
  imports Api_Wire Api_Service Cpu_Features Rpc Dev_Fee
begin

text \<open>
  The responses of the monitoring interface (\<open>src/api.cpp\<close>) over the snapshots of the miner, the collection of history samples, one
  client, and the listening port. How \<open>printf\<close> prints a \<open>double\<close> is an argument.
\<close>

section \<open>Snapshots\<close>

record miner_thread_api_stats =
  ts_hashrate :: double
  ts_hashes_done_total :: u64
  ts_accepted :: u32
  ts_rejected :: u32
  ts_cpu_id :: int
  ts_cpu_max_freq_mhz :: int
  ts_cpu_is_big :: bool

record miner_api_snapshot =
  ms_runtime_active :: bool
  ms_start_time :: int
  ms_global_hashrate :: double
  ms_total_hashes_done :: u64
  ms_cpu_temp :: int
  ms_threads :: "miner_thread_api_stats list"

text \<open>The conversions of the formats: \<open>%.nf\<close> and \<open>%g\<close>.\<close>

record double_formats =
  fmt_f :: "nat \<Rightarrow> double \<Rightarrow> string"
  fmt_g :: "double \<Rightarrow> string"

definition show_u32 :: "u32 \<Rightarrow> string" where
  "show_u32 x = show_nat (unat x)"

section \<open>Commands\<close>

datatype api_handler = Summary | Threads | Pool | Histo | Hwinfo | Meminfo | Scanlog | Help

definition g_api_commands :: "(string \<times> api_handler) list" where
  "g_api_commands = [(''summary'', Summary), (''threads'', Threads), (''pool'', Pool), (''histo'', Histo), (''hwinfo'', Hwinfo),
     (''meminfo'', Meminfo), (''scanlog'', Scanlog), (''help'', Help)]"

definition api_find_command :: "string \<Rightarrow> api_handler option" where
  "api_find_command command = map_of g_api_commands command"

definition api_response_capacity :: "nat \<Rightarrow> api_handler \<Rightarrow> nat" where
  "api_response_capacity n_threads h =
     (let capacity = (case h of
          Threads \<Rightarrow> 1024 + (if 0 < n_threads then n_threads else MAX_THREADS) * 512
        | Histo \<Rightarrow> 1024 + API_HISTORY_SIZE * 160
        | Help \<Rightarrow> 1024 + length g_api_commands * 32
        | _ \<Rightarrow> API_BUFFER_SIZE)
      in if API_BUFFER_SIZE < capacity then capacity else API_BUFFER_SIZE)"

section \<open>Collecting samples\<close>

text \<open>One thread of a collection.\<close>

definition collect_thread :: "int \<Rightarrow> stratum_api_work_snapshot option \<Rightarrow> nat \<times> miner_thread_api_stats \<Rightarrow> api_history \<Rightarrow> api_history" where
  "collect_thread now current_work = (\<lambda>(i, thread) h.
     let total_hashes = ts_hashes_done_total thread;
         previous_hashes = g_api_previous_hash_totals h ! i;
         entry = \<lparr>he_thread_id = int i, he_height = (case current_work of Some w \<Rightarrow> aw_height w | None \<Rightarrow> 0),
                  he_khs = fl (ts_hashrate thread / 1000), he_diff = (case current_work of Some w \<Rightarrow> aw_targetdiff w | None \<Rightarrow> 0),
                  he_hash_count = (if previous_hashes \<le> total_hashes then total_hashes - previous_hashes else total_hashes),
                  he_id = g_api_history_next_id h, he_timestamp = now\<rparr>
     in api_push_history_sample entry
          (h\<lparr>g_api_history_next_id := g_api_history_next_id h + 1,
             g_api_previous_hash_totals := (g_api_previous_hash_totals h)[i := total_hashes]\<rparr>))"

definition api_collect_history_sample :: "int \<Rightarrow> int \<Rightarrow> miner_api_snapshot \<Rightarrow> stratum_api_pool_snapshot \<Rightarrow> api_history \<Rightarrow> api_history" where
  "api_collect_history_sample statsavg now miner pool h =
     (let interval = (if 0 < statsavg then statsavg else 30)
      in if g_api_last_history_sample h \<noteq> 0 \<and> now - g_api_last_history_sample h < interval then h
         else (fold (collect_thread now (ap_current_work pool)) (take MAX_THREADS (enumerate 0 (ms_threads miner))) h)
                \<lparr>g_api_last_history_sample := now\<rparr>)"

section \<open>Responses\<close>

text \<open>The appends of a loop, up to the first that does not fit.\<close>

fun append_all :: "nat \<Rightarrow> string \<times> nat \<Rightarrow> string list \<Rightarrow> string \<times> nat" where
  "append_all out_size buf [] = buf"
| "append_all out_size buf (t # ts) =
     (case api_appendf out_size buf t of (ok, buf) \<Rightarrow> if ok then append_all out_size buf ts else buf)"

definition PACKAGE_NAME :: string where "PACKAGE_NAME = ''primo-arm-miner''"
definition API_VERSION :: string where "API_VERSION = ''1.9''"

definition build_summary_response ::
  "double_formats \<Rightarrow> nat \<Rightarrow> int \<Rightarrow> int \<Rightarrow> miner_api_snapshot \<Rightarrow> stratum_api_pool_snapshot \<Rightarrow> 'j world \<Rightarrow> string" where
  "build_summary_response fmt out_size now startup_time miner pool w =
     (let diff = (case ap_current_work pool of Some cw \<Rightarrow> aw_targetdiff cw | None \<Rightarrow> 0);
          uptime = (if ms_runtime_active miner then of_int (now - ms_start_time miner)
                    else if startup_time \<noteq> 0 then of_int (now - startup_time) else 0) :: double;
          accepted = st_share_accepted_total (ap_runtime_stats pool);
          accepted_per_minute = (if 0 < uptime then fl (fl (60 * of_nat (unat accepted)) / uptime) else 0)
      in snprintf_s out_size
           (''NAME='' @ PACKAGE_NAME @ '';VER='' @ PACKAGE_VERSION @ '';API='' @ API_VERSION @ '';ALGO='' @ algo_names (opt_algo (w_opts w)) @
            '';GPUS='' @ show_nat (length (ms_threads miner)) @ '';KHS='' @ fmt_f fmt 2 (fl (ms_global_hashrate miner / 1000)) @ '';SOLV='' @ show_int 0 @
            '';ACC='' @ show_u32 accepted @ '';REJ='' @ show_u32 (st_share_rejected_total (ap_runtime_stats pool)) @
            '';ACCMN='' @ fmt_f fmt 3 accepted_per_minute @ '';DIFF='' @ fmt_f fmt 6 diff @ '';NETKHS='' @ fmt_f fmt 0 0 @
            '';POOLS='' @ show_nat (w_num_pools w) @ '';WAIT='' @ show_u32 0 @ '';UPTIME='' @ fmt_f fmt 0 uptime @ '';TS='' @ show_u32 (of_int now) @ ''|''))"

definition thread_line :: "double_formats \<Rightarrow> int \<Rightarrow> nat \<times> miner_thread_api_stats \<Rightarrow> string" where
  "thread_line fmt cpu_temp = (\<lambda>(i, t).
     ''GPU='' @ show_nat i @ '';BUS='' @ show_int (ts_cpu_id t) @ '';CARD='' @ (if ts_cpu_is_big t then ''cpu-big'' else ''cpu-little'') @
     '';TEMP='' @ fmt_f fmt 1 (of_int cpu_temp) @ '';POWER=0;FAN=0;RPM=0;FREQ='' @ show_u32 (of_int (ts_cpu_max_freq_mhz t)) @
     '';MEMFREQ=0;GPUF='' @ show_u32 (of_int (ts_cpu_max_freq_mhz t)) @ '';MEMF=0;KHS='' @ fmt_f fmt 2 (fl (ts_hashrate t / 1000)) @
     '';KHW='' @ fmt_f fmt 5 0 @ '';PLIM=0;ACC='' @ show_u32 (ts_accepted t) @ '';REJ='' @ show_u32 (ts_rejected t) @ '';HWF=0;I='' @ fmt_f fmt 1 100 @ '';THR=0|'')"

definition build_threads_response :: "double_formats \<Rightarrow> nat \<Rightarrow> miner_api_snapshot \<Rightarrow> string" where
  "build_threads_response fmt out_size miner =
     (let cpu_temp = (if 0 < ms_cpu_temp miner then ms_cpu_temp miner else 0)
      in fst (append_all out_size ([], 0) (map (thread_line fmt cpu_temp) (enumerate 0 (ms_threads miner)))))"

text \<open>\<open>atoi\<close>, and the pool that a parameter selects.\<close>

definition atoi :: "string \<Rightarrow> int" where
  "atoi s = c_int (fst (strtol s))"

definition requested_pool :: "string \<Rightarrow> 'j world \<Rightarrow> int" where
  "requested_pool params w =
     (if params \<noteq> [] \<and> 0 \<le> atoi params \<and> atoi params < int (w_num_pools w) then atoi params else w_current_pool w)"

definition pool_label :: "pool_infos \<Rightarrow> string" where
  "pool_label p = snprintf_s 64 (if pool_name p \<noteq> [] then pool_name p else if pool_short_url p \<noteq> [] then pool_short_url p else pool_url p)"

definition build_pool_response ::
  "double_formats \<Rightarrow> nat \<Rightarrow> int \<Rightarrow> int \<Rightarrow> pool_infos \<Rightarrow> stratum_api_pool_snapshot \<Rightarrow> 'j world \<Rightarrow> string" where
  "build_pool_response fmt out_size now startup_time p snapshot w =
     (let last_share = (if ap_last_share_time snapshot \<noteq> 0 then of_int (now - ap_last_share_time snapshot) else 0) :: u32;
          uptime = (if startup_time \<noteq> 0 then of_int (now - startup_time) else 0) :: u32;
          cw = ap_current_work snapshot;
          xnonce2_hex = (case cw of
              Some c \<Rightarrow> if 0 < aw_xnonce2_len c \<and> aw_xnonce2_len c \<le> 32 then ''0x'' @ cbin2hex (take (aw_xnonce2_len c) (aw_xnonce2 c)) else []
            | None \<Rightarrow> [])
      in snprintf_s out_size
           (''POOL='' @ pool_label p @ '';ALGO='' @ algo_names (opt_algo (w_opts w)) @ '';URL='' @ pool_url p @ '';USER='' @ pool_user p @ '';SOLV=0;ACC='' @
            show_u32 (ap_accepted_count snapshot) @ '';REJ='' @ show_u32 (ap_rejected_count snapshot) @ '';STALE=0;H='' @
            show_u32 (case cw of Some c \<Rightarrow> aw_height c | None \<Rightarrow> 0) @ '';JOB='' @ (case cw of Some c \<Rightarrow> aw_job_id c | None \<Rightarrow> []) @
            '';DIFF='' @ fmt_f fmt 6 (case cw of Some c \<Rightarrow> aw_targetdiff c | None \<Rightarrow> 0) @ '';BEST='' @ fmt_f fmt 6 (ap_best_share snapshot) @
            '';N2SZ='' @ show_u32 (case cw of Some c \<Rightarrow> of_nat (aw_xnonce2_len c) | None \<Rightarrow> 0) @ '';N2='' @ xnonce2_hex @
            '';PING=0;DISCO=0;WAIT=0;UPTIME='' @ show_u32 uptime @ '';LAST='' @ show_u32 last_share @ ''|''))"

definition history_line :: "double_formats \<Rightarrow> api_history_entry \<Rightarrow> string" where
  "history_line fmt e =
     ''GPU='' @ show_int (he_thread_id e) @ '';H='' @ show_u32 (he_height e) @ '';KHS='' @ fmt_f fmt 2 (he_khs e) @ '';DIFF='' @ fmt_g fmt (he_diff e) @
     '';COUNT='' @ show_nat (unat (he_hash_count e)) @ '';FOUND=0;ID='' @ show_u32 (he_id e) @ '';TS='' @ show_u32 (of_int (he_timestamp e)) @ ''|''"

definition build_history_response :: "double_formats \<Rightarrow> nat \<Rightarrow> string \<Rightarrow> api_history \<Rightarrow> string" where
  "build_history_response fmt out_size params h =
     (let filter_thread = (if params \<noteq> [] then atoi params else -1);
          entries = filter (\<lambda>e. filter_thread < 0 \<or> he_thread_id e = filter_thread) (history_entries h);
          (out, pos) = append_all out_size ([], 0) (map (history_line fmt) entries)
      in if pos = 0 then snprintf_s out_size ''|'' else out)"

text \<open>\<open>os_name\<close> is the answer of \<open>uname\<close>, \<open>num_cpus\<close> and \<open>max_mhz\<close> come from the topology.\<close>

definition miner_topology_max_cpu_freq_mhz :: "cpu_topology \<Rightarrow> int" where
  "miner_topology_max_cpu_freq_mhz t =
     fold (\<lambda>c m. if m < max_freq_khz c then max_freq_khz c else m) (g_cpu_cores t) 0 div 1000"

definition api_get_os_name :: "(string \<times> string) option \<Rightarrow> string" where
  "api_get_os_name uts = snprintf_s 128 (case uts of Some (sysname, release) \<Rightarrow> sysname @ '' '' @ release | None \<Rightarrow> ''linux'')"

definition build_hwinfo_response :: "nat \<Rightarrow> (string \<times> string) option \<Rightarrow> cpu_topology \<Rightarrow> int \<Rightarrow> nat \<Rightarrow> string" where
  "build_hwinfo_response out_size uts topology cpu_temp n_threads =
     (let num_cpus = length (g_cpu_cores topology)
      in snprintf_s out_size (''OS='' @ api_get_os_name uts @ '';NVDRIVER=;CPUS='' @ show_nat (if 0 < num_cpus then num_cpus else n_threads) @
           '';CPUTEMP='' @ show_int (if 0 < cpu_temp then cpu_temp else 0) @ '';CPUFREQ='' @ show_int (miner_topology_max_cpu_freq_mhz topology) @ ''|''))"

text \<open>The history array holds fifty entries of 48 bytes.\<close>

definition build_meminfo_response :: "nat \<Rightarrow> api_history \<Rightarrow> string" where
  "build_meminfo_response out_size h =
     snprintf_s out_size (''STATS='' @ show_nat (g_api_history_count h) @ '';HASHLOG=0;MEM='' @ show_nat (API_HISTORY_SIZE * 48) @ ''|'')"

definition build_help_response :: "nat \<Rightarrow> string" where
  "build_help_response out_size =
     (case append_all out_size ([], 0) (map (\<lambda>(name, h). name @ [CHR 0x0A]) g_api_commands) of (out, pos) \<Rightarrow>
        if pos < out_size then out @ snprintf_s (out_size - pos) ''|'' else out)"

section \<open>One client\<close>

record 'j api_view =
  av_formats :: double_formats
  av_now :: int
  av_startup_time :: int
  av_miner :: miner_api_snapshot
  av_history :: api_history
  av_topology :: cpu_topology
  av_cpu_temp :: int
  av_uts :: "(string \<times> string) option"
  av_world :: "'j world"

definition run_handler :: "'j api_view \<Rightarrow> api_handler \<Rightarrow> nat \<Rightarrow> string \<Rightarrow> string" where
  "run_handler v h out_size params =
     (let w = av_world v; fmt = av_formats v in
      case h of
        Summary \<Rightarrow> build_summary_response fmt out_size (av_now v) (av_startup_time v) (av_miner v) (stratum_get_api_pool_snapshot (w_current_pool w) w) w
      | Threads \<Rightarrow> build_threads_response fmt out_size (av_miner v)
      | Pool \<Rightarrow> build_pool_response fmt out_size (av_now v) (av_startup_time v) (pool_at w (nat (requested_pool params w)))
                   (stratum_get_api_pool_snapshot (requested_pool params w) w) w
      | Histo \<Rightarrow> build_history_response fmt out_size params (av_history v)
      | Hwinfo \<Rightarrow> build_hwinfo_response out_size (av_uts v) (av_topology v) (av_cpu_temp v) (opt_n_threads (w_opts w))
      | Meminfo \<Rightarrow> build_meminfo_response out_size (av_history v)
      | Scanlog \<Rightarrow> snprintf_s out_size ''|''
      | Help \<Rightarrow> build_help_response out_size)"

text \<open>The bytes that a client is sent; \<open>alloc\<close> is the answer of \<open>calloc\<close>.\<close>

definition api_handle_client :: "bool \<Rightarrow> 'j api_view \<Rightarrow> recv_round list \<Rightarrow> send_round list \<Rightarrow> bytes" where
  "api_handle_client alloc v rounds sends =
     (case api_recv_request (API_RECV_SIZE + 1) rounds of
        None \<Rightarrow> []
      | Some [] \<Rightarrow> []
      | Some request \<Rightarrow>
          (case api_parse_command 64 256 (request @ [CHR 0x00]) of
             None \<Rightarrow> []
           | Some r \<Rightarrow>
               (case api_find_command (rq_command r) of
                  None \<Rightarrow> []
                | Some h \<Rightarrow>
                    if \<not> alloc then []
                    else let response = run_handler v h (api_response_capacity (opt_n_threads (w_opts (av_world v))) h) (rq_params r)
                         in snd (case rq_key r of
                              Some key \<Rightarrow> api_send_websocket_response sends response (c_from (rq_buf r) key)
                            | None \<Rightarrow> api_send_response sends response))))"

section \<open>The listening port\<close>

definition api_bind_address :: "string option \<Rightarrow> string" where
  "api_bind_address bind = (case bind of Some (c # cs) \<Rightarrow> c # cs | _ \<Rightarrow> ''127.0.0.1'')"

datatype bind_answer = Bound | Address_in_use | Bind_failed

text \<open>The probe over the ports; the natural number is \<open>64 - port_probe_count\<close>.\<close>

fun probe_port :: "(int \<Rightarrow> bind_answer) \<Rightarrow> bool \<Rightarrow> nat \<Rightarrow> int \<Rightarrow> int option" where
  "probe_port bind probing 0 port = (if bind port = Bound then Some port else None)"
| "probe_port bind probing (Suc n) port =
     (if bind port = Bound then Some port
      else if probing \<and> bind port = Address_in_use then probe_port bind probing n (port + 1) else None)"

text \<open>\<open>socket\<close>, \<open>inet_pton\<close> and \<open>listen\<close> answer through booleans; the result is \<open>g_api_bound_port\<close>.\<close>

definition api_open_listen_socket :: "(int \<Rightarrow> bind_answer) \<Rightarrow> bool \<Rightarrow> bool \<Rightarrow> bool \<Rightarrow> bool \<Rightarrow> int \<Rightarrow> int option" where
  "api_open_listen_socket bind socket_ok pton_ok listen_ok explicit port =
     (if port \<le> 0 \<or> \<not> socket_ok \<or> \<not> pton_ok then None
      else case probe_port bind (\<not> explicit \<and> port = 4068) 64 port of
             None \<Rightarrow> None
           | Some p \<Rightarrow> if listen_ok then Some p else None)"

section \<open>Responses fit\<close>

definition buffer_fits :: "nat \<Rightarrow> string \<times> nat \<Rightarrow> bool" where
  "buffer_fits out_size = (\<lambda>(out, pos). length out < out_size \<and> (pos < out_size \<longrightarrow> length out = pos))"

lemma api_appendf_fits: "buffer_fits out_size buf \<Longrightarrow> api_appendf out_size buf t = (ok, buf') \<Longrightarrow> buffer_fits out_size buf'"
  by (auto simp: buffer_fits_def api_appendf_def Let_def split: if_splits)

lemma append_all_fits: "buffer_fits out_size buf \<Longrightarrow> buffer_fits out_size (append_all out_size buf ts)"
proof (induction ts arbitrary: buf)
  case (Cons t ts)
  obtain ok buf' where a: "api_appendf out_size buf t = (ok, buf')" by (rule prod.exhaust)
  show ?case using a Cons.IH [OF api_appendf_fits [OF Cons.prems a]] api_appendf_fits [OF Cons.prems a] by simp
qed simp

lemma append_all_start: "0 < out_size \<Longrightarrow> buffer_fits out_size (append_all out_size ([], 0) ts)"
  by (rule append_all_fits) (simp add: buffer_fits_def)

lemma capacity_positive: "0 < api_response_capacity n h"
  by (simp add: api_response_capacity_def API_BUFFER_SIZE_def Let_def)


end
