(* ===== verification/Spec2Isabelle.thy ===== *)
theory Spec2Isabelle
  imports Config Failover Scrypt_Pads Scrypt_Scan Verus_Payload Dns Api
begin

text \<open>
  Verification of the core of primo-arm-miner, a CPU miner for ARM processors (sha256d, scrypt, VerusHash,
  RandomX) that talks to its pools over stratum. Paths below are relative to the repository; a name in
  the theories is the name of the C function or struct it models wherever that is possible.

  \<^bold>\<open>The program.\<close> \<open>src/main.cpp\<close> reads the configuration (\<open>src/config.cpp\<close>) into a table of pools, starts one
  stratum service thread (\<open>src/stratum_session.cpp\<close>) and the workers (\<open>src/miner.cpp\<close>). The service thread connects
  to a pool (\<open>src/stratum_transport.cpp\<close>), shakes hands (\<open>src/stratum_handshake.cpp\<close>) and dispatches the pool's
  messages (\<open>src/stratum_rpc.cpp\<close>) to the dialect of the algorithm (\<open>src/stratum_standard.cpp\<close>,
  \<open>src/stratum_verus.cpp\<close>, \<open>src/stratum_xmr.cpp\<close>), which turns a notification into a job and publishes a work unit with a
  restart generation (\<open>src/stratum_state.cpp\<close>). A worker copies the published work, scans its slice of the
  nonces with the back end of the algorithm (\<open>src/algorithm\<close>), and submits what the scan reports through the dialect;
  the reply of the pool is matched to the share in the table of pending submits. A scheduler (\<open>src/dev_fee.cpp\<close>)
  switches the service thread to a hidden pool slot for a bounded share of the time.

  \<^bold>\<open>Modelling.\<close> Every function is a HOL function that takes the state it reads and returns the state it leaves. The
  state of the process is the record \<open>world\<close> of \<open>State\<close> (options, pool table, one session per pool, published work
  and counters, pending submits, dev-fee scheduler); threads of the other components are interleaved as sequences of
  whole operations, since the program holds its mutex around each of them. Machine integers are words of their
  width, or integers with the narrowing written out; \<open>double\<close> is the rational of its value under an explicit rounding
  function (\<open>Doubles\<close>); C strings are lists of characters without the terminator. Errors are \<open>option\<close>
  results and, in the hashing code, \<open>None\<close> is undefined behaviour (an access outside a buffer, a division by
  zero) or an \<open>abort()\<close>, so that a result \<open>Some\<close> is also a proof of memory safety. Answers of the outside (sockets, clock,
  allocator, random numbers, environment, files of the kernel) and of third-party code (jansson, libcurl, getopt, the RandomX
  library, the assembly kernels of sha256d and scrypt) are arguments of the functions. Where a result depends on their
  documented behaviour it is a named hypothesis of the theorem, met in its witness by a concrete function.

  \<^bold>\<open>The theories.\<close>

  \<^item> \<open>Prelude\<close>, \<open>Bytes\<close>, \<open>Doubles\<close>, \<open>Targets\<close>: the C library functions the sources call, \<open>include/byteorder.h\<close> and the
    hexadecimal codec of \<open>src/stratum.cpp\<close>, rounding, and the difficulty arithmetic with the 256-bit comparison every
    scan ends in. Shown: round trips of the encoders, the comparison is the comparison of the
    numbers, and the target of a low Verus difficulty is truncated.
  \<^item> \<open>State\<close>, \<open>Work\<close>, \<open>Runtime\<close>: the structs of \<open>include/miner.h\<close>, the life cycle of \<open>struct work\<close>, and the shared mining state of
    \<open>src/stratum_state.cpp\<close>. Shown: over every run of its operations, work that a restarting publication superseded is
    recognised as stale by whoever copied it.
  \<^item> \<open>Submits\<close>: the table of pending submits. Shown: over every sequence of submissions, replies and time-outs each share is
    credited at most once, and only if it was sent.
  \<^item> \<open>Transport\<close>: polling, sending and receiving lines over TCP and TLS, addresses and the resolver fallback.
    Shown: lines are delivered and received exactly as they are in the stream, however the kernel cuts it; sending ends;
    the buffer stays bounded.
  \<^item> \<open>Json\<close>, \<open>Jobs\<close>, \<open>Session\<close>: the accessors of the JSON library as an argument, field checks, the state of a session.
  \<^item> \<open>Standard\<close>, \<open>Verus_Stratum\<close>, \<open>Xmr\<close>, \<open>Randomx\<close>: the three dialects and the RandomX driver. Shown: the bytes a worker hashes
    are the bytes the pool rebuilds from its own notification and the submitted strings.
  \<^item> \<open>Dialects\<close>, \<open>Rpc\<close>, \<open>Handshake\<close>, \<open>Frames\<close>: \<open>struct stratum_protocol_ops\<close> as the locale \<open>protocol_dialect\<close> with its three
    interpretations, message dispatch, the handshake, and what no message can touch. An invariant kept by every
    message is kept by a handshake (locale \<open>kept_by_messages\<close>).
  \<^item> \<open>Dev_Fee\<close>, \<open>Service\<close>, \<open>Failover\<close>: the fee scheduler, the service thread, and its retries. Shown: the share of time the fee
    takes is bounded; the thread keeps its invariant over any number of iterations; failover only reaches usable
    pools; unreachable pools make the thread give up, except when a dev slot started the retry cycle.
  \<^item> \<open>Workers\<close>: the nonce slices, the position of a worker, chunk sizes, submission and rates. Shown: the slices
    partition the nonces; a worker stays in its slice, scans no nonce twice for a job and drops shares of superseded work. The
    locale \<open>hash_backend\<close> is what a worker relies on; it is interpreted for each scan.
  \<^item> \<open>Scan_Common\<close>, \<open>Sha256_Core\<close>, \<open>Sha256\<close>, \<open>Sha256_Scan\<close>: \<open>sha256_neon.c\<close>. The portable, instruction-based and interleaved
    transforms agree with the standard; the incremental interface refines the digest of the concatenated input
    (locale \<open>compression\<close>); the scan reports exactly the nonces that meet the target.
  \<^item> \<open>Scrypt_Hash\<close>, \<open>Scrypt\<close>, \<open>Scrypt_Pads\<close>, \<open>Scrypt_Scan\<close>: \<open>scrypt_neon.c\<close>. The single, dual and four-lane paths compute the scrypt
    of its RFC; scratchpads are released as often as allocated; the scan is correct.
  \<^item> \<open>Neon\<close>, \<open>Haraka\<close>, \<open>Clhash\<close>, \<open>Clhash_Laws\<close>, \<open>Verus_Hash\<close>: the vector, AES and carry-less instructions, \<open>haraka_native.c\<close>,
    \<open>clhash_native.c\<close> and the hash functions of \<open>verus.cpp\<close>. Every CLHash variant and build computes the same hash without leaving a
    buffer; its reduction is the remainder modulo the field polynomial; the truncated finalizer computes word 7 of the
    full one; a hash gives the key back unchanged.
  \<^item> \<open>Cpu_Features\<close>: \<open>cpu_features.c\<close>. The counters and clusters of the topology are consistent and the pinning order is the
    stable sort it documents, whatever the files of the kernel say.
  \<^item> \<open>Verus_Scan\<close>, \<open>Verus_Payload\<close>: the rest of \<open>verus.cpp\<close>. The scan reports a share exactly when a counted nonce meets the
    target, and each share, as it is submitted, passes the payload check of the program.
  \<^item> \<open>Dns\<close>: the fallback resolver of \<open>src/utils/dns_fallback.c\<close>. No access leaves a buffer, every address stands in an
    answer to the query, query and parser agree on the wire format; the time budget does not bound a TCP exchange.
  \<^item> \<open>Api_Wire\<close>, \<open>Api_Service\<close>, \<open>Api\<close>: the monitoring server of \<open>src/api.cpp\<close>: requests, SHA-1, base64 and WebSocket frames, the
    ring of samples, every response, and the start and stop of its thread as a step relation on the flags it shares. The ring
    holds the last samples, a WebSocket client reads back the response, responses fit their buffers, a thread is joined
    at most once; a thread that ends early can leave the start waiting forever.
  \<^item> \<open>Config\<close>: options, JSON file and pool table of \<open>src/config.cpp\<close>. An accepted configuration can be run.

  \<^bold>\<open>Bounds and fuel.\<close> Loops whose length the code fixes are structural recursions. Loops that wait for the outside (receive,
  send, handshake, message loop, service thread, worker) recurse over the list of the outside's answers: each theorem
  holds for every such list, and \<open>None\<close> or a marked result means that the list ended first. Where a claim is that a loop
  returns, the theorem says so for every list long enough, with the length spelled out. The scans recurse over the hashes that are
  left, a 32-bit number.

  \<^bold>\<open>Not modelled.\<close> The text and colours of the log (\<open>src/utils/log.cpp\<close>), the socket options and the accept loop of \<open>src/api.cpp\<close>, signals and start
  order (\<open>src/main.cpp\<close>), and in \<open>src/miner.cpp\<close> affinity calls and benchmark output. Interleavings inside a critical
  section, memory ordering of the atomics and the vendored RandomX library are outside this development.
\<close>

end
